(* ===== verification/Prelude.thy ===== *)
theory Prelude
  imports Main "HOL-Library.Sublist" "HOL-Library.List_Lexorder" "HOL-Library.Char_ord"
    "HOL-Library.Product_Lexorder" "HOL-Library.AList" "HOL-Library.Multiset"
begin

text \<open>
  What every component shares: the collections of facts, times and durations, 64-bit signed
  arithmetic, lemmas on lists and on sorting, the last elements of a list, and the key that sorts
  downwards. Go's strings are in GoStrings, its errors and the gRPC statuses in GoErrors.
\<close>

section \<open>Collections of facts\<close>

named_theorems go_defs \<open>definitions of Go library functions, for evaluation\<close>
named_theorems sql_defs \<open>definitions of the SQL statements of the stores\<close>
named_theorems keep_inv \<open>operations that keep a component's invariant\<close>

section \<open>Types\<close>

type_synonym bytes = "nat list"
type_synonym gotime = int
type_synonym duration = int

section \<open>Lists\<close>

lemma filter_map_key [simp]:
  "map f (filter (\<lambda>x. P (f x)) xs) = filter P (map f xs)"
  by (induction xs) auto

lemma distinct_map_filter_key [intro]:
  "distinct (map f xs) \<Longrightarrow> distinct (map f (filter P xs))"
  by (rule distinct_map_filter)

lemma find_Some_set: "find P xs = Some x \<Longrightarrow> x \<in> set xs \<and> P x"
  by (induction xs) (auto split: if_splits)

lemma find_None_all: "find P xs = None \<longleftrightarrow> (\<forall>x\<in>set xs. \<not> P x)"
  by (induction xs) auto

lemma find_key_unique:
  "distinct (map f xs) \<Longrightarrow> x \<in> set xs \<Longrightarrow> find (\<lambda>y. f y = f x) xs = Some x"
proof (induction xs)
  case Nil
  then show ?case by simp
next
  case (Cons y ys)
  show ?case
  proof (cases "f y = f x")
    case True
    with Cons.prems have "y = x" by (auto simp: rev_image_eqI)
    with True show ?thesis by simp
  next
    case False
    with Cons.prems have "x \<in> set ys" by auto
    with Cons False show ?thesis by simp
  qed
qed

lemma insort_key_last: "f y \<le> f x \<Longrightarrow> insort_key f y (zs @ [x]) = insort_key f y zs @ [x]"
  by (induction zs) auto

lemma sort_key_last:
  "(\<And>y. y \<in> set xs \<Longrightarrow> f y \<le> f x) \<Longrightarrow> sort_key f (xs @ [x]) = sort_key f xs @ [x]"
  by (induction xs) (auto simp: insort_key_last)

lemma sort_key_first:
  "(\<And>y. y \<in> set xs \<Longrightarrow> f x < f y) \<Longrightarrow> sort_key f (xs @ [x]) = x # sort_key f xs"
proof (induction xs)
  case Nil
  then show ?case by simp
next
  case (Cons a xs)
  have "f x < f a" by (rule Cons.prems) simp
  moreover have "sort_key f (xs @ [x]) = x # sort_key f xs"
    by (rule Cons.IH) (simp add: Cons.prems)
  ultimately show ?case by (simp add: not_le [symmetric])
qed

section \<open>The last elements of a list\<close>

definition last_n :: "nat \<Rightarrow> 'a list \<Rightarrow> 'a list" where
  "last_n n xs = drop (length xs - n) xs"

lemma last_n_length [simp]: "length (last_n n xs) = min n (length xs)"
  by (simp add: last_n_def)

lemma last_n_append: "n \<le> length xs \<Longrightarrow> last_n n (last_n n xs @ ys) = last_n n (xs @ ys)"
  by (simp add: last_n_def add.commute)

lemma last_n_skip: "n \<le> length xs \<Longrightarrow> last_n n (zs @ last_n n xs @ ys) = last_n n (xs @ ys)"
  by (simp add: last_n_def add.commute)

lemma last_n_snoc: "last_n n (last_n n xs @ [x]) = last_n n (xs @ [x])"
  by (cases "n \<le> length xs") (auto simp: last_n_def Suc_diff_le)

section \<open>Descending order\<close>

text \<open>
  \<open>ORDER BY x DESC\<close> and Go's \<open>sort.Slice\<close> with \<open>After\<close> or \<open>>\<close> sort by
  a key whose order is reversed; \<open>Desc\<close> is that key.
\<close>

datatype 'a desc = Desc (undesc: 'a)

instantiation desc :: (linorder) linorder
begin

definition less_eq_desc :: "'a desc \<Rightarrow> 'a desc \<Rightarrow> bool" where
  "less_eq_desc x y \<longleftrightarrow> undesc y \<le> undesc x"

definition less_desc :: "'a desc \<Rightarrow> 'a desc \<Rightarrow> bool" where
  "less_desc x y \<longleftrightarrow> undesc y < undesc x"

instance
  by standard (auto simp: less_eq_desc_def less_desc_def desc.expand)

end

lemma Desc_le [simp]: "Desc a \<le> Desc b \<longleftrightarrow> b \<le> a"
  by (simp add: less_eq_desc_def)

lemma Desc_less [simp]: "Desc a < Desc b \<longleftrightarrow> b < a"
  by (simp add: less_desc_def)

section \<open>Signed 64-bit arithmetic\<close>

definition i64 :: "int \<Rightarrow> int" where
  "i64 x = (x + 2 ^ 63) mod 2 ^ 64 - 2 ^ 63"

definition max_i64 :: int where
  "max_i64 = 2 ^ 63 - 1"

definition min_i64 :: int where
  "min_i64 = - (2 ^ 63)"

lemma i64_range: "min_i64 \<le> i64 x \<and> i64 x \<le> max_i64"
  by (simp add: i64_def min_i64_def max_i64_def)

lemma i64_id: "min_i64 \<le> x \<Longrightarrow> x \<le> max_i64 \<Longrightarrow> i64 x = x"
  by (simp add: i64_def min_i64_def max_i64_def)

lemma i64_overflow:
  "max_i64 < x \<Longrightarrow> x \<le> 2 * max_i64 + 1 \<Longrightarrow> i64 x = x - 2 ^ 64"
proof -
  assume a: "max_i64 < x" "x \<le> 2 * max_i64 + 1"
  have "(x + 2 ^ 63) mod 2 ^ 64 = (x + 2 ^ 63 - 2 ^ 64) mod 2 ^ 64"
    by (metis minus_mod_self2)
  also have "\<dots> = x + 2 ^ 63 - 2 ^ 64"
    by (rule mod_pos_pos_trivial) (use a in \<open>simp_all add: max_i64_def\<close>)
  finally show "i64 x = x - 2 ^ 64" by (simp add: i64_def)
qed

text \<open>\<open>time.Time.Sub\<close> saturates at the range of \<open>time.Duration\<close>.\<close>

definition time_Sub :: "gotime \<Rightarrow> gotime \<Rightarrow> duration" where
  "time_Sub t u = max min_i64 (min max_i64 (t - u))"

lemma time_Sub_gt: "d < max_i64 \<Longrightarrow> min_i64 \<le> d \<Longrightarrow> d < time_Sub t u \<longleftrightarrow> d < t - u"
  by (auto simp: time_Sub_def)

abbreviation second :: duration where "second \<equiv> 1000000000"
abbreviation millisecond :: duration where "millisecond \<equiv> 1000000"

text \<open>\<open>time.Time{}\<close>, the instant January 1, year 1, in nanoseconds since the Unix epoch.\<close>

definition zero_time :: gotime where
  "zero_time = - 62135596800 * second"

definition time_IsZero :: "gotime \<Rightarrow> bool" where
  "time_IsZero t \<longleftrightarrow> t = zero_time"

definition time_Unix :: "gotime \<Rightarrow> int" where
  "time_Unix t = t div second"

end
