(* ===== verification/GoStrings.thy ===== *)
theory GoStrings
  imports Prelude
begin

text \<open>
  The functions of Go's \<open>strings\<close> package that the program calls, on byte strings:
  \<open>TrimSpace\<close>, \<open>ToLower\<close>, \<open>EqualFold\<close>, \<open>HasPrefix\<close>, \<open>HasSuffix\<close>,
  \<open>Contains\<close>, \<open>Split\<close>, \<open>Join\<close>, \<open>Trim\<close>, and the list normaliser that three
  packages of the program repeat. They are exact on ASCII; on other bytes they behave as Go's do for
  characters that are neither spaces nor letters with case.
\<close>

section \<open>Characters\<close>

definition is_space :: "char \<Rightarrow> bool" where
  "is_space c \<longleftrightarrow> (let n = (of_char c :: nat) in n = 32 \<or> (9 \<le> n \<and> n \<le> 13))"

definition lower_char :: "char \<Rightarrow> char" where
  "lower_char c = (let n = (of_char c :: nat) in if 65 \<le> n \<and> n \<le> 90 then char_of (n + 32) else c)"

definition upper_char :: "char \<Rightarrow> char" where
  "upper_char c = (let n = (of_char c :: nat) in if 97 \<le> n \<and> n \<le> 122 then char_of (n - 32) else c)"

lemma lower_char_idem [simp]: "lower_char (lower_char c) = lower_char c"
  by (auto simp: lower_char_def Let_def)

lemma is_space_lower [simp]: "is_space (lower_char c) = is_space c"
  by (auto simp: lower_char_def is_space_def Let_def)

section \<open>Strings\<close>

definition strings_ToLower :: "string \<Rightarrow> string" where
  "strings_ToLower s = map lower_char s"

definition strings_ToUpper :: "string \<Rightarrow> string" where
  "strings_ToUpper s = map upper_char s"

definition strings_EqualFold :: "string \<Rightarrow> string \<Rightarrow> bool" where
  "strings_EqualFold a b \<longleftrightarrow> strings_ToLower a = strings_ToLower b"

definition trim_left :: "(char \<Rightarrow> bool) \<Rightarrow> string \<Rightarrow> string" where
  "trim_left P s = dropWhile P s"

definition trim_right :: "(char \<Rightarrow> bool) \<Rightarrow> string \<Rightarrow> string" where
  "trim_right P s = rev (dropWhile P (rev s))"

definition strings_TrimSpace :: "string \<Rightarrow> string" where
  "strings_TrimSpace s = trim_right is_space (trim_left is_space s)"

definition strings_Trim :: "string \<Rightarrow> string \<Rightarrow> string" where
  "strings_Trim s cutset = trim_right (\<lambda>c. c \<in> set cutset) (trim_left (\<lambda>c. c \<in> set cutset) s)"

definition strings_HasPrefix :: "string \<Rightarrow> string \<Rightarrow> bool" where
  "strings_HasPrefix s p \<longleftrightarrow> take (length p) s = p"

definition strings_HasSuffix :: "string \<Rightarrow> string \<Rightarrow> bool" where
  "strings_HasSuffix s p \<longleftrightarrow> strings_HasPrefix (rev s) (rev p)"

fun strings_Contains :: "string \<Rightarrow> string \<Rightarrow> bool" where
  "strings_Contains [] sub = (sub = [])"
| "strings_Contains (c # cs) sub = (strings_HasPrefix (c # cs) sub \<or> strings_Contains cs sub)"

fun strings_Split :: "string \<Rightarrow> char \<Rightarrow> string list" where
  "strings_Split [] sep = [[]]"
| "strings_Split (c # cs) sep =
    (if c = sep then [] # strings_Split cs sep
     else (case strings_Split cs sep of [] \<Rightarrow> [[c]] | w # ws \<Rightarrow> (c # w) # ws))"

fun strings_Join :: "string list \<Rightarrow> string \<Rightarrow> string" where
  "strings_Join [] sep = []"
| "strings_Join [w] sep = w"
| "strings_Join (w # ws) sep = w @ sep @ strings_Join ws sep"

definition strings_ReplaceAll1 :: "string \<Rightarrow> char \<Rightarrow> string \<Rightarrow> string" where
  "strings_ReplaceAll1 s c new = concat (map (\<lambda>x. if x = c then new else [x]) s)"

declare is_space_def [go_defs] lower_char_def [go_defs] upper_char_def [go_defs]
  strings_ToLower_def [go_defs] strings_ToUpper_def [go_defs] strings_EqualFold_def [go_defs]
  trim_left_def [go_defs] trim_right_def [go_defs] strings_TrimSpace_def [go_defs]
  strings_Trim_def [go_defs] strings_HasPrefix_def [go_defs] strings_HasSuffix_def [go_defs]
  strings_ReplaceAll1_def [go_defs]

subsection \<open>Laws\<close>

lemma HasPrefix_iff: "strings_HasPrefix s p \<longleftrightarrow> (\<exists>t. s = p @ t)"
  by (auto simp: strings_HasPrefix_def) (metis append_take_drop_id)

lemma HasSuffix_iff: "strings_HasSuffix s p \<longleftrightarrow> (\<exists>t. s = t @ p)"
  by (auto simp: strings_HasSuffix_def HasPrefix_iff) (metis rev_append rev_rev_ident)

lemma Contains_iff: "strings_Contains s sub \<longleftrightarrow> (\<exists>a b. s = a @ sub @ b)"
proof (induction s)
  case Nil
  then show ?case by auto
next
  case (Cons c cs)
  show ?case
  proof
    assume "strings_Contains (c # cs) sub"
    then consider "strings_HasPrefix (c # cs) sub" | "strings_Contains cs sub" by auto
    then show "\<exists>a b. c # cs = a @ sub @ b"
    proof cases
      case 1
      then show ?thesis by (auto simp: HasPrefix_iff intro: exI [of _ "[]"])
    next
      case 2
      with Cons.IH obtain a b where "cs = a @ sub @ b" by auto
      then show ?thesis by (auto intro: exI [of _ "c # a"])
    qed
  next
    assume "\<exists>a b. c # cs = a @ sub @ b"
    then obtain a b where ab: "c # cs = a @ sub @ b" by auto
    show "strings_Contains (c # cs) sub"
    proof (cases a)
      case Nil
      with ab have "strings_HasPrefix (c # cs) sub" by (auto simp: HasPrefix_iff)
      then show ?thesis by simp
    next
      case (Cons x a')
      with ab have "cs = a' @ sub @ b" by simp
      with Cons.IH show ?thesis by auto
    qed
  qed
qed

lemma trim_left_idem [simp]: "trim_left P (trim_left P s) = trim_left P s"
  by (simp add: trim_left_def)

lemma trim_right_idem [simp]: "trim_right P (trim_right P s) = trim_right P s"
  by (simp add: trim_right_def)

lemma trim_right_prefix: "\<exists>t. s = trim_right P s @ t \<and> (\<forall>c\<in>set t. P c)"
proof -
  have "rev s = takeWhile P (rev s) @ dropWhile P (rev s)" by simp
  then have "s = rev (dropWhile P (rev s)) @ rev (takeWhile P (rev s))"
    by (metis rev_append rev_rev_ident)
  moreover have "\<forall>c\<in>set (rev (takeWhile P (rev s))). P c"
    by (auto dest: set_takeWhileD)
  ultimately show ?thesis unfolding trim_right_def by blast
qed

lemma trim_left_trim_right [simp]:
  "trim_left P (trim_right P (trim_left P s)) = trim_right P (trim_left P s)"
proof -
  obtain t where t: "trim_left P s = trim_right P (trim_left P s) @ t"
    using trim_right_prefix by blast
  show ?thesis
  proof (cases "trim_right P (trim_left P s)")
    case Nil
    then show ?thesis by (simp add: trim_left_def)
  next
    case (Cons c cs)
    with t have "trim_left P s = c # cs @ t" by simp
    then have "\<not> P c" unfolding trim_left_def by (metis hd_dropWhile list.distinct(1) list.sel(1))
    with Cons show ?thesis by (simp add: trim_left_def)
  qed
qed

lemma TrimSpace_idem [simp]: "strings_TrimSpace (strings_TrimSpace s) = strings_TrimSpace s"
  by (simp add: strings_TrimSpace_def)

lemma TrimSpace_Nil [simp]: "strings_TrimSpace [] = []"
  by (simp add: strings_TrimSpace_def trim_left_def trim_right_def)

lemma ToLower_idem [simp]: "strings_ToLower (strings_ToLower s) = strings_ToLower s"
  by (simp add: strings_ToLower_def)

lemma ToLower_Nil [simp]: "strings_ToLower [] = []"
  by (simp add: strings_ToLower_def)

lemma ToLower_eq_Nil [simp]: "strings_ToLower s = [] \<longleftrightarrow> s = []"
  by (simp add: strings_ToLower_def)

lemma TrimSpace_ToLower [simp]:
  "strings_TrimSpace (strings_ToLower s) = strings_ToLower (strings_TrimSpace s)"
  by (simp add: strings_TrimSpace_def strings_ToLower_def trim_left_def trim_right_def
      dropWhile_map comp_def rev_map)

lemma Split_not_Nil [simp]: "strings_Split s c \<noteq> []"
  by (cases s) (auto split: list.splits)

lemma Split_no_sep: "w \<in> set (strings_Split s c) \<Longrightarrow> c \<notin> set w"
proof (induction s arbitrary: w)
  case Nil
  then show ?case by simp
next
  case (Cons x xs)
  obtain v vs where vs: "strings_Split xs c = v # vs"
    by (cases "strings_Split xs c") auto
  with Cons.IH have IH: "\<And>u. u \<in> set (v # vs) \<Longrightarrow> c \<notin> set u" by simp
  from Cons.prems IH show ?case by (auto simp: vs split: if_splits)
qed

lemma Join_Cons: "ws \<noteq> [] \<Longrightarrow> strings_Join (w # ws) sep = w @ sep @ strings_Join ws sep"
  by (cases ws) auto

lemma Split_append_sep:
  "c \<notin> set w \<Longrightarrow> strings_Split (w @ c # s) c = w # strings_Split s c"
  by (induction w) auto

lemma Split_no_occ: "c \<notin> set w \<Longrightarrow> strings_Split w c = [w]"
  by (induction w) auto

lemma Split_Join:
  "ws \<noteq> [] \<Longrightarrow> \<forall>w\<in>set ws. c \<notin> set w \<Longrightarrow> strings_Split (strings_Join ws [c]) c = ws"
proof (induction ws)
  case Nil
  then show ?case by simp
next
  case (Cons w ws)
  then show ?case
    by (cases "ws = []") (auto simp: Split_no_occ Join_Cons Split_append_sep)
qed

lemma Join_Split: "strings_Join (strings_Split s c) [c] = s"
proof (induction s)
  case Nil
  then show ?case by simp
next
  case (Cons x xs)
  obtain v vs where vs: "strings_Split xs c = v # vs"
    by (cases "strings_Split xs c") auto
  with Cons.IH show ?case
    by (cases vs) (auto simp: vs)
qed

section \<open>Numbers in decimal\<close>

fun strconv_decimal :: "nat \<Rightarrow> string" where
  "strconv_decimal n = (if n < 10 then [''0123456789'' ! n]
    else strconv_decimal (n div 10) @ [''0123456789'' ! (n mod 10)])"

declare strconv_decimal.simps [simp del]

definition strconv_Itoa :: "int \<Rightarrow> string" where
  "strconv_Itoa i = (if i < 0 then ''-'' else []) @ strconv_decimal (nat \<bar>i\<bar>)"

end
