(* ===== verification/GoErrors.thy ===== *)
theory GoErrors
  imports GoStrings
begin

text \<open>
  Go error values as the program inspects them (\<open>errors.Is\<close>, \<open>os.IsNotExist\<close>,
  \<open>Error()\<close>), and the translation into gRPC statuses of \<open>internal/server/error.go\<close>.
\<close>

section \<open>Error values\<close>

datatype sentinel = ErrNotExist | ErrExist | ErrPermission | ErrInvalid | ErrNoRows

datatype errno = ENOENT | EEXIST | ENOTEMPTY | EACCES | ENOTDIR | EISDIR | EINVAL | EIO

text \<open>
  \<open>Sentinel\<close> is one of the package variables, \<open>PathError\<close> an \<open>*fs.PathError\<close>
  around a system error, \<open>ErrorText\<close> the result of \<open>errors.New\<close>, and \<open>Wrapf\<close>
  that of \<open>fmt.Errorf\<close> with one \<open>%w\<close> and the text around it.
\<close>

datatype goerr =
    Sentinel sentinel
  | PathError string string errno
  | ErrorText string
  | Wrapf string goerr string

fun errno_Is :: "errno \<Rightarrow> sentinel \<Rightarrow> bool" where
  "errno_Is ENOENT s = (s = ErrNotExist)"
| "errno_Is EEXIST s = (s = ErrExist)"
| "errno_Is ENOTEMPTY s = (s = ErrExist)"
| "errno_Is EACCES s = (s = ErrPermission)"
| "errno_Is _ s = False"

fun errors_Is :: "goerr \<Rightarrow> sentinel \<Rightarrow> bool" where
  "errors_Is (Sentinel k) s = (k = s)"
| "errors_Is (PathError op p n) s = errno_Is n s"
| "errors_Is (ErrorText t) s = False"
| "errors_Is (Wrapf a e b) s = errors_Is e s"

text \<open>\<open>os.IsNotExist\<close> does not unwrap \<open>fmt.Errorf\<close>.\<close>

fun os_IsNotExist :: "goerr \<Rightarrow> bool" where
  "os_IsNotExist (Sentinel k) = (k = ErrNotExist)"
| "os_IsNotExist (PathError op p n) = (n = ENOENT)"
| "os_IsNotExist _ = False"

fun sentinel_text :: "sentinel \<Rightarrow> string" where
  "sentinel_text ErrNotExist = ''file does not exist''"
| "sentinel_text ErrExist = ''file already exists''"
| "sentinel_text ErrPermission = ''permission denied''"
| "sentinel_text ErrInvalid = ''invalid argument''"
| "sentinel_text ErrNoRows = ''sql: no rows in result set''"

fun errno_text :: "errno \<Rightarrow> string" where
  "errno_text ENOENT = ''no such file or directory''"
| "errno_text EEXIST = ''file exists''"
| "errno_text ENOTEMPTY = ''directory not empty''"
| "errno_text EACCES = ''permission denied''"
| "errno_text ENOTDIR = ''not a directory''"
| "errno_text EISDIR = ''is a directory''"
| "errno_text EINVAL = ''invalid argument''"
| "errno_text EIO = ''input/output error''"

fun err_Error :: "goerr \<Rightarrow> string" where
  "err_Error (Sentinel k) = sentinel_text k"
| "err_Error (PathError op p n) = op @ '' '' @ p @ '': '' @ errno_text n"
| "err_Error (ErrorText t) = t"
| "err_Error (Wrapf a e b) = a @ err_Error e @ b"

section \<open>gRPC statuses\<close>

datatype code = InvalidArgument | NotFound | AlreadyExists | PermissionDenied
  | FailedPrecondition | Internal | Unauthenticated

datatype status = Status (status_code: code) (status_msg: string)

text \<open>
  \<open>toGrpcError\<close> on a non-nil error. (Go's nil error never reaches it here: the model calls
  it on the error branch only, where the code tests \<open>err != nil\<close> first.)
\<close>

definition toGrpcError :: "goerr \<Rightarrow> status" where
  "toGrpcError e =
    (if errors_Is e ErrNotExist then Status NotFound (err_Error e)
     else if errors_Is e ErrPermission then Status PermissionDenied (err_Error e)
     else if errors_Is e ErrExist then Status AlreadyExists (err_Error e)
     else if errors_Is e ErrInvalid then Status InvalidArgument (err_Error e)
     else Status Internal (err_Error e))"

definition invalidArgument :: "string \<Rightarrow> status" where
  "invalidArgument m = Status InvalidArgument m"

definition failedPrecondition :: "string \<Rightarrow> status" where
  "failedPrecondition m = Status FailedPrecondition m"

text \<open>An error is one sentinel at most, so the order of the tests does not matter.\<close>

lemma errors_Is_unique: "errors_Is e a \<Longrightarrow> errors_Is e b \<Longrightarrow> a = b"
proof (induction e)
  case (PathError op p n)
  then show ?case by (cases n) auto
qed auto

lemma toGrpcError_code:
  "status_code (toGrpcError e) = NotFound \<longleftrightarrow> errors_Is e ErrNotExist"
  "status_code (toGrpcError e) = PermissionDenied \<longleftrightarrow> errors_Is e ErrPermission"
  "status_code (toGrpcError e) = AlreadyExists \<longleftrightarrow> errors_Is e ErrExist"
  "status_code (toGrpcError e) = InvalidArgument \<longleftrightarrow> errors_Is e ErrInvalid"
  by (auto simp: toGrpcError_def dest: errors_Is_unique)

end
