(* ===== verification/GoPath.thy ===== *)
theory GoPath
  imports GoErrors
begin

text \<open>
  \<open>internal/fs/path.go\<close> and \<open>internal/fs/ignore.go\<close>: from the path a client sends to
  the absolute path the server opens. The functions of \<open>path/filepath\<close> are modelled for a
  Unix build (separator \<open>/\<close>), where \<open>ToSlash\<close> and \<open>FromSlash\<close> are the identity.
\<close>

section \<open>path/filepath\<close>

abbreviation slash :: char where "slash \<equiv> CHR ''/''"

text \<open>One step of \<open>filepath.Clean\<close> over the elements, with the output so far reversed.\<close>

fun clean_step :: "bool \<Rightarrow> string list \<Rightarrow> string \<Rightarrow> string list" where
  "clean_step rooted out c =
    (if c = [] \<or> c = ''.'' then out
     else if c = ''..'' then
       (case out of
          [] \<Rightarrow> if rooted then [] else [''..'']
        | t # ts \<Rightarrow> if t = ''..'' then ''..'' # out else ts)
     else c # out)"

definition clean_comps :: "bool \<Rightarrow> string list \<Rightarrow> string list" where
  "clean_comps rooted cs = rev (foldl (clean_step rooted) [] cs)"

definition filepath_IsAbs :: "string \<Rightarrow> bool" where
  "filepath_IsAbs p \<longleftrightarrow> strings_HasPrefix p ''/''"

definition render_path :: "bool \<Rightarrow> string list \<Rightarrow> string" where
  "render_path rooted cs =
    (if rooted then slash # strings_Join cs ''/''
     else if cs = [] then ''.'' else strings_Join cs ''/'')"

definition path_elems :: "string \<Rightarrow> string list" where
  "path_elems p = clean_comps (filepath_IsAbs p) (strings_Split p slash)"

definition filepath_Clean :: "string \<Rightarrow> string" where
  "filepath_Clean p = render_path (filepath_IsAbs p) (path_elems p)"

definition filepath_Join :: "string list \<Rightarrow> string" where
  "filepath_Join es =
    (let ne = filter (\<lambda>e. e \<noteq> []) es
     in if ne = [] then [] else filepath_Clean (strings_Join ne ''/''))"

definition filepath_Base :: "string \<Rightarrow> string" where
  "filepath_Base p =
    (if p = [] then ''.''
     else let q = trim_right (\<lambda>c. c = slash) p
          in if q = [] then ''/'' else last (strings_Split q slash))"

definition filepath_Dir :: "string \<Rightarrow> string" where
  "filepath_Dir p = filepath_Clean (trim_right (\<lambda>c. c \<noteq> slash) p)"

text \<open>\<open>filepath.Ext\<close>: from the last dot of the last element on, or empty.\<close>

definition filepath_Ext :: "string \<Rightarrow> string" where
  "filepath_Ext p =
    (let b = last (strings_Split p slash)
     in if CHR ''.'' \<in> set b then CHR ''.'' # last (strings_Split b (CHR ''.'')) else [])"

definition filepath_Abs :: "goerr + string \<Rightarrow> string \<Rightarrow> goerr + string" where
  "filepath_Abs getwd p =
    (if filepath_IsAbs p then Inr (filepath_Clean p)
     else (case getwd of Inl e \<Rightarrow> Inl e | Inr wd \<Rightarrow> Inr (filepath_Join [wd, p])))"

fun strip_common :: "string list \<Rightarrow> string list \<Rightarrow> string list \<times> string list" where
  "strip_common (b # bs) (t # ts) = (if b = t then strip_common bs ts else (b # bs, t # ts))"
| "strip_common bs ts = (bs, ts)"

definition filepath_Rel :: "string \<Rightarrow> string \<Rightarrow> goerr + string" where
  "filepath_Rel base targ =
    (let b = path_elems base; t = path_elems targ in
     if filepath_IsAbs base \<noteq> filepath_IsAbs targ
     then Inl (ErrorText (''Rel: can't make '' @ targ @ '' relative to '' @ base))
     else (case strip_common b t of (b', t') \<Rightarrow>
       if b' \<noteq> [] \<and> hd b' = ''..''
       then Inl (ErrorText (''Rel: can't make '' @ targ @ '' relative to '' @ base))
       else Inr (render_path False (replicate (length b') ''..'' @ t'))))"

declare clean_comps_def [go_defs] filepath_IsAbs_def [go_defs] render_path_def [go_defs]
  path_elems_def [go_defs] filepath_Clean_def [go_defs] filepath_Join_def [go_defs]
  filepath_Base_def [go_defs] filepath_Dir_def [go_defs] filepath_Ext_def [go_defs]
  filepath_Abs_def [go_defs] filepath_Rel_def [go_defs]

section \<open>internal/fs/path.go\<close>

definition NormalizeRelativePath :: "string \<Rightarrow> goerr + string" where
  "NormalizeRelativePath rel =
    (if rel = [] \<or> rel = ''.'' \<or> rel = ''/'' then Inr ''.''
     else let cleanRel = filepath_Clean rel in
       if filepath_IsAbs cleanRel
       then Inl (Wrapf [] (Sentinel ErrInvalid) '': absolute path not allowed'')
       else if cleanRel = ''..'' \<or> strings_HasPrefix cleanRel ''../''
       then Inl (Wrapf [] (Sentinel ErrInvalid) '': path escapes root'')
       else if cleanRel = ''.'' then Inr ''.''
       else Inr cleanRel)"

definition IsWithinRoot :: "goerr + string \<Rightarrow> string \<Rightarrow> string \<Rightarrow> bool" where
  "IsWithinRoot getwd root candidate =
    (case filepath_Abs getwd root of
       Inl _ \<Rightarrow> False
     | Inr rootAbs \<Rightarrow>
       (case filepath_Abs getwd candidate of
          Inl _ \<Rightarrow> False
        | Inr candidateAbs \<Rightarrow>
          (case filepath_Rel (filepath_Clean rootAbs) (filepath_Clean candidateAbs) of
             Inl _ \<Rightarrow> False
           | Inr rel \<Rightarrow>
             if rel = ''.'' then True
             else let rel' = filepath_Clean rel in
               if rel' = ''..'' then False
               else \<not> strings_HasPrefix rel' ''../'')))"

definition ResolvePath :: "goerr + string \<Rightarrow> string \<Rightarrow> string \<Rightarrow> goerr + string" where
  "ResolvePath getwd root rel =
    (case filepath_Abs getwd root of
       Inl e \<Rightarrow> Inl e
     | Inr ra \<Rightarrow>
       let rootAbs = filepath_Clean ra in
       (case NormalizeRelativePath rel of
          Inl e \<Rightarrow> Inl e
        | Inr cleanRel \<Rightarrow>
          if cleanRel = ''.'' then Inr rootAbs
          else let full = filepath_Clean (filepath_Join [rootAbs, cleanRel]) in
            if \<not> IsWithinRoot getwd rootAbs full
            then Inl (Wrapf [] (Sentinel ErrInvalid) '': path escapes root'')
            else Inr full))"

definition NormalizeProjectPath :: "goerr + string \<Rightarrow> string \<Rightarrow> string \<Rightarrow> goerr + string" where
  "NormalizeProjectPath getwd root rel =
    (case ResolvePath getwd root rel of
       Inl e \<Rightarrow> Inl e
     | Inr full \<Rightarrow>
       (case filepath_Abs getwd root of
          Inl e \<Rightarrow> Inl e
        | Inr ra \<Rightarrow>
          (case filepath_Rel (filepath_Clean ra) full of
             Inl e \<Rightarrow> Inl e
           | Inr normalized \<Rightarrow> NormalizeRelativePath normalized)))"

section \<open>internal/fs/ignore.go\<close>

definition ShouldIgnore :: "string \<Rightarrow> bool" where
  "ShouldIgnore path =
    (let base = filepath_Base path in
     (strings_HasPrefix base ''.'' \<and> (base = ''.git'' \<or> base = ''.svn'' \<or> base = ''.DS_Store''))
     \<or> strings_HasSuffix base ''~''
     \<or> strings_HasSuffix base ''.tmp''
     \<or> strings_HasSuffix base ''.swp'')"

definition IsConflictPath :: "string \<Rightarrow> bool" where
  "IsConflictPath path =
    strings_Contains (strings_ToLower (filepath_Base path)) ''.roodox-conflict-''"

definition ShouldIgnoreInProjectScan :: "string \<Rightarrow> bool" where
  "ShouldIgnoreInProjectScan path = (ShouldIgnore path \<or> IsConflictPath path)"

definition IsTextFile :: "string \<Rightarrow> bool" where
  "IsTextFile path =
    (strings_ToLower (filepath_Ext path) \<in> set
      [''.txt'', ''.md'', ''.log'', ''.c'', ''.cpp'', ''.h'', ''.hpp'',
       ''.py'', ''.go'', ''.java'', ''.json'', ''.yaml'', ''.yml'',
       ''.xml'', ''.ini'', ''.cfg'', ''.sh'', ''.bat'', ''.cs''])"

definition IsBinaryFile :: "string \<Rightarrow> bool" where
  "IsBinaryFile path = (\<not> IsTextFile path)"

section \<open>Clean paths\<close>

definition plain_elem :: "string \<Rightarrow> bool" where
  "plain_elem c \<longleftrightarrow> c \<noteq> [] \<and> c \<noteq> ''.'' \<and> c \<noteq> ''..'' \<and> slash \<notin> set c"

abbreviation plain_elems :: "string list \<Rightarrow> bool" where
  "plain_elems ws \<equiv> list_all plain_elem ws"

text \<open>The normal form of a cleaned element list: parent steps first, and none when rooted.\<close>

definition clean_form :: "bool \<Rightarrow> string list \<Rightarrow> bool" where
  "clean_form rooted cs \<longleftrightarrow>
    (\<exists>n ws. cs = replicate n ''..'' @ ws \<and> plain_elems ws \<and> (rooted \<longrightarrow> n = 0))"

lemma clean_form_plain: "plain_elems ws \<Longrightarrow> clean_form r ws"
  unfolding clean_form_def by (rule exI [of _ 0]) simp

lemma clean_form_rooted: "clean_form True cs \<longleftrightarrow> plain_elems cs"
  by (auto simp: clean_form_def)

lemma clean_step_form:
  assumes "clean_form r (rev out)" and "slash \<notin> set c"
  shows "clean_form r (rev (clean_step r out c))"
proof -
  obtain n ws where ws: "rev out = replicate n ''..'' @ ws" "plain_elems ws" "r \<longrightarrow> n = 0"
    using assms(1) by (auto simp: clean_form_def)
  then have out: "out = rev ws @ replicate n ''..''" by (metis rev_append rev_replicate rev_rev_ident)
  consider (skip) "c = [] \<or> c = ''.''" | (up) "c = ''..''" | (down) "plain_elem c"
    using assms(2) by (auto simp: plain_elem_def)
  then show ?thesis
  proof cases
    case skip
    then show ?thesis using assms(1) by auto
  next
    case down
    then have "rev (clean_step r out c) = replicate n ''..'' @ (ws @ [c])"
      by (auto simp: out plain_elem_def)
    then show ?thesis unfolding clean_form_def using ws down
      by (intro exI [of _ n] exI [of _ "ws @ [c]"]) auto
  next
    case up
    show ?thesis
    proof (cases ws rule: rev_cases)
      case Nil
      have "rev (clean_step r out c) = (if r \<and> n = 0 then [] else replicate (Suc n) ''..'')"
        using up Nil ws(3) by (cases n) (auto simp: out replicate_append_same)
      then show ?thesis unfolding clean_form_def using ws(3)
        by (auto intro!: exI [of _ "if r \<and> n = 0 then 0 else Suc n"] exI [of _ "[]"])
    next
      case (snoc vs v)
      then have "v \<noteq> ''..''" and "plain_elems vs" using ws(2) by (auto simp: plain_elem_def)
      then have "rev (clean_step r out c) = replicate n ''..'' @ vs"
        using up snoc by (auto simp: out)
      then show ?thesis unfolding clean_form_def using ws(3) \<open>plain_elems vs\<close> by blast
    qed
  qed
qed

lemma foldl_clean_form:
  "clean_form r (rev out) \<Longrightarrow> \<forall>c\<in>set cs. slash \<notin> set c
    \<Longrightarrow> clean_form r (rev (foldl (clean_step r) out cs))"
proof (induction cs arbitrary: out)
  case Nil
  then show ?case by simp
next
  case (Cons c cs)
  then have "clean_form r (rev (clean_step r out c))" by (intro clean_step_form) auto
  with Cons show ?case by (simp del: clean_step.simps)
qed

lemma path_elems_form: "clean_form (filepath_IsAbs p) (path_elems p)"
  unfolding path_elems_def clean_comps_def
  by (rule foldl_clean_form) (auto simp: clean_form_def dest: Split_no_sep)

lemma foldl_clean_plain:
  "plain_elems ws \<Longrightarrow> foldl (clean_step r) out ws = rev ws @ out"
  by (induction ws arbitrary: out) (auto simp: plain_elem_def)

lemma foldl_clean_ups: "foldl (clean_step False) (replicate m ''..'') (replicate n ''..'')
    = replicate (m + n) ''..''"
proof (induction n arbitrary: m)
  case 0
  then show ?case by simp
next
  case (Suc n)
  have "clean_step False (replicate m ''..'') ''..'' = replicate (Suc m) ''..''"
    by (cases m) auto
  with Suc [of "Suc m"] show ?case by (simp del: clean_step.simps replicate.simps(2)
        add: replicate.simps(2) [of n])
qed

lemma clean_comps_fix: "clean_form r cs \<Longrightarrow> clean_comps r cs = cs"
proof -
  assume "clean_form r cs"
  then obtain n ws where ws: "cs = replicate n ''..'' @ ws" "plain_elems ws" "r \<longrightarrow> n = 0"
    by (auto simp: clean_form_def)
  show ?thesis
  proof (cases r)
    case True
    with ws show ?thesis by (simp add: clean_comps_def foldl_clean_plain)
  next
    case False
    then show ?thesis using foldl_clean_ups [of 0 n]
      by (simp add: clean_comps_def ws(1) foldl_clean_plain [OF ws(2)])
  qed
qed

lemma clean_comps_skip_Nil: "clean_comps r ([] # cs) = clean_comps r cs"
  by (simp add: clean_comps_def)

lemma clean_form_elem:
  assumes "clean_form r cs" and "c \<in> set cs"
  shows "c \<noteq> [] \<and> slash \<notin> set c"
proof -
  obtain n ws where ws: "cs = replicate n ''..'' @ ws" "plain_elems ws"
    using assms(1) unfolding clean_form_def by blast
  with assms(2) have "c = ''..'' \<or> plain_elem c"
    by (auto simp: list_all_iff split: if_splits)
  then show ?thesis by (auto simp: plain_elem_def)
qed

lemma Split_render:
  assumes "clean_form r cs"
  shows "clean_comps r (strings_Split (render_path r cs) slash) = cs"
proof -
  have ns: "\<forall>c\<in>set cs. slash \<notin> set c" using clean_form_elem [OF assms] by blast
  show ?thesis
  proof (cases "cs = []")
    case True
    then show ?thesis by (cases r) (auto simp: render_path_def clean_comps_def)
  next
    case False
    with ns assms show ?thesis
      by (cases r) (simp_all add: render_path_def Split_Join clean_comps_skip_Nil clean_comps_fix)
  qed
qed

lemma IsAbs_Cons: "filepath_IsAbs (c # s) \<longleftrightarrow> c = slash"
  by (simp add: filepath_IsAbs_def strings_HasPrefix_def)

lemma IsAbs_render: "clean_form r cs \<Longrightarrow> filepath_IsAbs (render_path r cs) = r"
proof (cases r)
  case True
  then show ?thesis by (simp add: render_path_def IsAbs_Cons)
next
  case False
  assume cf: "clean_form r cs"
  show ?thesis
  proof (cases cs)
    case Nil
    with False show ?thesis by (simp add: render_path_def IsAbs_Cons)
  next
    case (Cons c cs')
    with cf have "c \<noteq> []" and "slash \<notin> set c"
      by (auto dest: clean_form_elem)
    then obtain x y where "c = x # y" "x \<noteq> slash" by (cases c) auto
    with Cons False show ?thesis
      by (cases cs') (auto simp: render_path_def IsAbs_Cons)
  qed
qed

lemma path_elems_render [simp]: "clean_form r cs \<Longrightarrow> path_elems (render_path r cs) = cs"
  by (simp add: path_elems_def IsAbs_render Split_render)

lemma Clean_render [simp]: "clean_form r cs \<Longrightarrow> filepath_Clean (render_path r cs) = render_path r cs"
  by (simp add: filepath_Clean_def IsAbs_render)

lemma Clean_idem [simp]: "filepath_Clean (filepath_Clean p) = filepath_Clean p"
  using path_elems_form [of p] by (subst (2 3) filepath_Clean_def) simp

lemma IsAbs_Clean [simp]: "filepath_IsAbs (filepath_Clean p) = filepath_IsAbs p"
  by (simp add: filepath_Clean_def IsAbs_render path_elems_form)

lemma path_elems_Clean [simp]: "path_elems (filepath_Clean p) = path_elems p"
  by (simp add: filepath_Clean_def path_elems_form)

lemma path_elems_abs_plain: "filepath_IsAbs p \<Longrightarrow> plain_elems (path_elems p)"
  using path_elems_form [of p] by (simp add: clean_form_rooted)

lemma plain_elems_split: "plain_elems ws \<Longrightarrow> ws \<noteq> [] \<Longrightarrow> strings_Split (strings_Join ws ''/'') slash = ws"
  by (rule Split_Join) (auto simp: list_all_iff plain_elem_def)


lemma Split_append_gen: "strings_Split (a @ c # b) c = strings_Split a c @ strings_Split b c"
proof (induction a)
  case Nil
  then show ?case by simp
next
  case (Cons x xs)
  obtain v vs where vs: "strings_Split xs c = v # vs"
    by (cases "strings_Split xs c") auto
  with Cons show ?case by simp
qed

lemma render_escapes:
  assumes "clean_form False cs"
  shows "render_path False cs = ''..'' \<or> strings_HasPrefix (render_path False cs) ''../''
    \<longleftrightarrow> cs \<noteq> [] \<and> hd cs = ''..''"
proof (cases cs)
  case Nil
  then show ?thesis by (simp add: render_path_def strings_HasPrefix_def)
next
  case (Cons c cs')
  have split: "strings_Split (render_path False cs) slash = cs"
    using assms Cons by (auto simp: render_path_def intro!: Split_Join dest: clean_form_elem)
  show ?thesis
  proof
    assume "render_path False cs = ''..'' \<or> strings_HasPrefix (render_path False cs) ''../''"
    then obtain t where "render_path False cs = ''..'' \<or> render_path False cs = ''..'' @ slash # t"
      by (auto simp: HasPrefix_iff)
    then have "hd (strings_Split (render_path False cs) slash) = ''..''"
      by (auto simp: Split_no_occ Split_append_gen [of "''..''" slash, simplified])
    with split Cons show "cs \<noteq> [] \<and> hd cs = ''..''" by simp
  next
    assume "cs \<noteq> [] \<and> hd cs = ''..''"
    with Cons show "render_path False cs = ''..'' \<or> strings_HasPrefix (render_path False cs) ''../''"
      by (cases cs') (auto simp: render_path_def HasPrefix_iff)
  qed
qed

lemma clean_form_hd: "clean_form False cs \<Longrightarrow> cs = [] \<or> hd cs \<noteq> ''..'' \<Longrightarrow> plain_elems cs"
proof -
  assume cf: "clean_form False cs" and h: "cs = [] \<or> hd cs \<noteq> ''..''"
  obtain n ws where "cs = replicate n ''..'' @ ws" "plain_elems ws"
    using cf unfolding clean_form_def by blast
  with h show ?thesis by (cases n) auto
qed

lemma plain_hd: "plain_elems cs \<Longrightarrow> cs = [] \<or> hd cs \<noteq> ''..''"
  by (cases cs) (auto simp: plain_elem_def)

lemma path_elems_Nil [simp]: "path_elems [] = []" "path_elems ''.'' = []" "path_elems ''/'' = []"
  by (simp_all add: path_elems_def clean_comps_def filepath_IsAbs_def strings_HasPrefix_def)

lemma render_dot:
  assumes "plain_elems cs"
  shows "render_path False cs = ''.'' \<longleftrightarrow> cs = []"
proof
  assume "render_path False cs = ''.''"
  then have "path_elems (render_path False cs) = []" by simp
  with assms show "cs = []" by (simp add: clean_form_plain)
qed (simp add: render_path_def)

lemma NormalizeRelativePath_cases:
  "NormalizeRelativePath rel =
    (if rel = ''/'' then Inr ''.''
     else if filepath_IsAbs rel
     then Inl (Wrapf [] (Sentinel ErrInvalid) '': absolute path not allowed'')
     else if plain_elems (path_elems rel) then Inr (render_path False (path_elems rel))
     else Inl (Wrapf [] (Sentinel ErrInvalid) '': path escapes root''))"
proof (cases "rel = [] \<or> rel = ''.'' \<or> rel = ''/''")
  case True
  then show ?thesis
    by (auto simp: NormalizeRelativePath_def render_path_def filepath_IsAbs_def strings_HasPrefix_def)
next
  case False
  show ?thesis
  proof (cases "filepath_IsAbs rel")
    case True
    with False show ?thesis by (simp add: NormalizeRelativePath_def Let_def)
  next
    case na: False
    have cf: "clean_form False (path_elems rel)"
      using path_elems_form [of rel] na by simp
    have cl: "filepath_Clean rel = render_path False (path_elems rel)"
      by (simp add: filepath_Clean_def na)
    have "plain_elems (path_elems rel) \<longleftrightarrow> \<not> (path_elems rel \<noteq> [] \<and> hd (path_elems rel) = ''..'')"
      using cf clean_form_hd plain_hd by blast
    with False na cf show ?thesis
      by (auto simp: NormalizeRelativePath_def cl render_escapes IsAbs_render Let_def)
  qed
qed

lemma NormalizeRelativePath_InrD:
  assumes "NormalizeRelativePath rel = Inr p"
  obtains ws where "plain_elems ws" and "p = render_path False ws" and "path_elems p = ws"
proof (cases "rel = ''/''")
  case True
  with assms have "p = render_path False []"
    by (simp add: NormalizeRelativePath_def render_path_def)
  then show ?thesis using that [of "[]"] by (simp add: clean_form_plain)
next
  case False
  with assms have "plain_elems (path_elems rel)" "p = render_path False (path_elems rel)"
    by (auto simp: NormalizeRelativePath_cases split: if_splits)
  then show ?thesis using that [of "path_elems rel"] by (simp add: clean_form_plain)
qed

lemma NormalizeRelativePath_render [simp]:
  "plain_elems ws \<Longrightarrow> NormalizeRelativePath (render_path False ws) = Inr (render_path False ws)"
proof -
  assume p: "plain_elems ws"
  have na: "\<not> filepath_IsAbs (render_path False ws)"
    using p by (simp add: IsAbs_render clean_form_plain)
  then have "render_path False ws \<noteq> ''/''" by (auto simp: IsAbs_Cons)
  with na p show ?thesis by (simp add: NormalizeRelativePath_cases clean_form_plain)
qed

section \<open>Resolution under a root\<close>

lemma path_elems_join:
  assumes "filepath_IsAbs a" and "plain_elems ws" and "ws \<noteq> []"
  shows "path_elems (a @ slash # strings_Join ws ''/'') = path_elems a @ ws"
proof -
  from assms(1) have "filepath_IsAbs (a @ slash # strings_Join ws ''/'')"
    by (auto simp: filepath_IsAbs_def HasPrefix_iff)
  with assms show ?thesis
    by (simp add: path_elems_def clean_comps_def Split_append_gen plain_elems_split foldl_clean_plain)
qed

lemma IsAbs_nonempty: "filepath_IsAbs p \<Longrightarrow> p \<noteq> []"
  by (auto simp: filepath_IsAbs_def strings_HasPrefix_def)

lemma render_nonempty: "plain_elems ws \<Longrightarrow> render_path r ws \<noteq> []"
  by (cases ws) (auto simp: render_path_def plain_elem_def split: if_splits,
      metis append_is_Nil_conv strings_Join.simps(2) strings_Join.simps(3) list.exhaust)

lemma Join_root:
  assumes "filepath_IsAbs root" and "plain_elems ws" and "ws \<noteq> []"
  shows "filepath_Join [filepath_Clean root, render_path False ws]
    = render_path True (path_elems root @ ws)"
proof -
  have ne: "filepath_Clean root \<noteq> []" "render_path False ws \<noteq> []"
    using assms by (simp_all add: IsAbs_nonempty render_nonempty)
  have "filepath_Join [filepath_Clean root, render_path False ws]
      = filepath_Clean (filepath_Clean root @ slash # strings_Join ws ''/'')"
    using assms(3) ne by (simp add: filepath_Join_def render_path_def)
  also have "\<dots> = render_path True (path_elems root @ ws)"
  proof -
    have "filepath_IsAbs (filepath_Clean root @ slash # strings_Join ws ''/'')"
      using assms(1) IsAbs_Clean [of root] by (auto simp: filepath_IsAbs_def HasPrefix_iff)
    then show ?thesis using assms
      by (simp add: filepath_Clean_def [of "filepath_Clean root @ _"] path_elems_join)
  qed
  finally show ?thesis .
qed

lemma strip_common_append [simp]: "strip_common bs (bs @ ws) = ([], ws)"
  by (induction bs) (cases ws, auto)

lemma Rel_under:
  assumes "filepath_IsAbs root" and "plain_elems ws"
  shows "filepath_Rel (filepath_Clean root) (render_path True (path_elems root @ ws))
    = Inr (render_path False ws)"
proof -
  have "clean_form True (path_elems root @ ws)"
    using assms by (simp add: clean_form_rooted path_elems_abs_plain)
  with assms show ?thesis by (simp add: filepath_Rel_def Let_def IsAbs_render)
qed

lemma IsWithinRoot_under:
  assumes "filepath_IsAbs root" and "plain_elems ws"
  shows "IsWithinRoot g (filepath_Clean root) (render_path True (path_elems root @ ws))"
proof -
  have cf: "clean_form True (path_elems root @ ws)"
    using assms by (simp add: clean_form_rooted path_elems_abs_plain)
  have "filepath_Rel (filepath_Clean root) (render_path True (path_elems root @ ws))
      = Inr (render_path False ws)"
    by (rule Rel_under [OF assms])
  with assms cf show ?thesis
    using render_escapes [OF clean_form_plain [OF assms(2)]] plain_hd [OF assms(2)]
    by (auto simp: IsWithinRoot_def filepath_Abs_def IsAbs_render clean_form_plain)
qed

lemma ResolvePath_cases:
  assumes "filepath_IsAbs root"
  shows "ResolvePath g root rel =
    (case NormalizeRelativePath rel of
       Inl e \<Rightarrow> Inl e
     | Inr p \<Rightarrow> Inr (render_path True (path_elems root @ path_elems p)))"
proof (cases "NormalizeRelativePath rel")
  case (Inl e)
  with assms show ?thesis by (simp add: ResolvePath_def filepath_Abs_def Let_def)
next
  case (Inr p)
  then obtain ws where ws: "plain_elems ws" "p = render_path False ws" "path_elems p = ws"
    by (rule NormalizeRelativePath_InrD)
  have root: "render_path True (path_elems root) = filepath_Clean root"
    using assms by (simp add: filepath_Clean_def)
  have cf: "clean_form True (path_elems root @ ws)"
    using assms ws by (simp add: clean_form_rooted path_elems_abs_plain)
  show ?thesis
  proof (cases "ws = []")
    case True
    with Inr ws assms root show ?thesis
      by (simp add: ResolvePath_def filepath_Abs_def Let_def render_path_def)
  next
    case False
    then have "p \<noteq> ''.''" using ws render_dot [of ws] by auto
    with Inr ws assms False cf show ?thesis
      by (simp add: ResolvePath_def filepath_Abs_def Let_def Join_root IsWithinRoot_under)
  qed
qed


lemma trim_right_append: "\<forall>c\<in>set b. P c \<Longrightarrow> trim_right P (a @ b) = trim_right P a"
  using dropWhile_append2 [of "rev b" P "rev a"] by (simp add: trim_right_def)

lemma trim_right_last: "\<not> P c \<Longrightarrow> trim_right P (a @ [c]) = a @ [c]"
  by (simp add: trim_right_def)

lemma Join_snoc: "ws \<noteq> [] \<Longrightarrow> strings_Join (ws @ [w]) sep = strings_Join ws sep @ sep @ w"
  by (induction ws rule: induct_list012) (auto simp: Join_Cons)

lemma Dir_render:
  assumes "plain_elems cs" and "cs \<noteq> []"
  shows "filepath_Dir (render_path True cs) = render_path True (butlast cs)"
proof -
  obtain ws w where cs: "cs = ws @ [w]" using assms(2) by (metis append_butlast_last_id)
  have w: "\<forall>c\<in>set w. c \<noteq> slash" using assms(1) cs by (auto simp: plain_elem_def)
  have ws: "plain_elems ws" using assms(1) cs by simp
  show ?thesis
  proof (cases "ws = []")
    case True
    have "trim_right (\<lambda>c. c \<noteq> slash) (slash # w) = ''/''"
      using trim_right_append [OF w, of "''/''"] trim_right_last [of "\<lambda>c. c \<noteq> slash" slash "[]"] by simp
    with True cs show ?thesis by (simp add: filepath_Dir_def render_path_def filepath_Clean_def IsAbs_Cons)
  next
    case False
    have "trim_right (\<lambda>c. c \<noteq> slash) ((slash # strings_Join ws ''/'' @ ''/'') @ w)
        = slash # strings_Join ws ''/'' @ ''/''"
      using trim_right_append [OF w, of "slash # strings_Join ws ''/'' @ ''/''"]
        trim_right_last [of "\<lambda>c. c \<noteq> slash" slash "slash # strings_Join ws ''/''"] by simp
    then have "filepath_Dir (render_path True cs) = filepath_Clean (slash # strings_Join ws ''/'' @ ''/'')"
      using False by (simp add: filepath_Dir_def render_path_def cs Join_snoc)
    also have "\<dots> = render_path True ws"
    proof -
      have "strings_Split (slash # strings_Join ws ''/'' @ ''/'') slash = [] # ws @ [[]]"
        using False ws by (simp add: Split_append_gen [of _ slash "[]", simplified] plain_elems_split)
      then show ?thesis using ws
        by (simp add: filepath_Clean_def path_elems_def IsAbs_Cons clean_comps_def foldl_clean_plain)
    qed
    finally show ?thesis using cs by simp
  qed
qed

lemma NormalizeProjectPath_same:
  assumes "filepath_IsAbs root"
  shows "NormalizeProjectPath g root rel = NormalizeRelativePath rel"
proof (cases "NormalizeRelativePath rel")
  case (Inl e)
  with assms show ?thesis by (simp add: NormalizeProjectPath_def ResolvePath_cases)
next
  case (Inr p)
  then obtain ws where ws: "plain_elems ws" "p = render_path False ws" "path_elems p = ws"
    by (rule NormalizeRelativePath_InrD)
  with Inr assms show ?thesis
    by (simp add: NormalizeProjectPath_def ResolvePath_cases filepath_Abs_def Rel_under)
qed

section \<open>Properties\<close>

text \<open>
  Claim C1. Whatever path a client sends, \<open>ResolvePath\<close> under an absolute root either refuses
  it or returns a clean absolute path whose elements are the root's followed by ordinary names:
  no \<open>..\<close>, no \<open>.\<close>, no empty element is left, so the lexical path never leaves the root.
\<close>

theorem ResolvePath_confined:
  assumes "filepath_IsAbs root" and "ResolvePath g root rel = Inr full"
  shows "filepath_IsAbs full \<and> filepath_Clean full = full
    \<and> (\<exists>ws. plain_elems ws \<and> path_elems full = path_elems root @ ws)"
proof -
  from assms obtain p where p: "NormalizeRelativePath rel = Inr p"
    and full: "full = render_path True (path_elems root @ path_elems p)"
    by (auto simp: ResolvePath_cases split: sum.splits)
  from p obtain ws where ws: "plain_elems ws" "path_elems p = ws"
    by (rule NormalizeRelativePath_InrD)
  have "clean_form True (path_elems root @ ws)"
    using assms(1) ws by (simp add: clean_form_rooted path_elems_abs_plain)
  with full ws show ?thesis by (auto simp: IsAbs_render)
qed

theorem ResolvePath_confined_witness:
  "ResolvePath (Inr ''/'') ''/srv/share'' ''a/../b//c'' = Inr ''/srv/share/b/c''
   \<and> filepath_IsAbs ''/srv/share/b/c'' \<and> filepath_Clean ''/srv/share/b/c'' = ''/srv/share/b/c''
   \<and> (\<exists>ws. plain_elems ws \<and> path_elems ''/srv/share/b/c'' = path_elems ''/srv/share'' @ ws)"
proof -
  have a: "filepath_IsAbs ''/srv/share''" by code_simp
  have r: "ResolvePath (Inr ''/'') ''/srv/share'' ''a/../b//c'' = Inr ''/srv/share/b/c''" by code_simp
  show ?thesis using ResolvePath_confined [OF a r] r by blast
qed

text \<open>
  The two normalisers agree: on an absolute root, \<open>NormalizeProjectPath\<close> (file
  and sync services) returns exactly what \<open>NormalizeRelativePath\<close> (lock and version
  services) returns, so one file has one key in the lock table, the path locker and the database.
\<close>

theorem NormalizeProjectPath_eq:
  assumes "filepath_IsAbs root"
  shows "NormalizeProjectPath g root rel = NormalizeRelativePath rel"
  by (rule NormalizeProjectPath_same [OF assms])

theorem NormalizeProjectPath_eq_witness:
  "NormalizeProjectPath (Inr ''/'') ''/srv'' ''x/./y'' = NormalizeRelativePath ''x/./y''"
  by (rule NormalizeProjectPath_eq) code_simp

text \<open>
  A normalised path is canonical: normalising it again changes nothing, it is
  relative, and (apart from the root, written \<open>.\<close>) its slash-separated parts are its
  elements, none of which is empty, \<open>.\<close> or \<open>..\<close>.
\<close>

theorem NormalizeRelativePath_canonical:
  assumes "NormalizeRelativePath rel = Inr p"
  shows "NormalizeRelativePath p = Inr p \<and> \<not> filepath_IsAbs p \<and> plain_elems (path_elems p)
    \<and> (p = ''.'' \<or> strings_Split p slash = path_elems p)"
proof -
  from assms obtain ws where ws: "plain_elems ws" "p = render_path False ws" "path_elems p = ws"
    by (rule NormalizeRelativePath_InrD)
  have "p = ''.'' \<or> strings_Split p slash = path_elems p"
    using ws by (cases "ws = []") (auto simp: render_path_def plain_elems_split)
  with ws show ?thesis by (simp add: IsAbs_render clean_form_plain)
qed

theorem NormalizeRelativePath_canonical_witness:
  "NormalizeRelativePath ''dir/./child.txt'' = Inr ''dir/child.txt''
   \<and> NormalizeRelativePath ''dir/child.txt'' = Inr ''dir/child.txt''"
proof -
  have r: "NormalizeRelativePath ''dir/./child.txt'' = Inr ''dir/child.txt''" by code_simp
  show ?thesis using NormalizeRelativePath_canonical [OF r] r by blast
qed

end
