(* ===== verification/World.thy ===== *)
theory World
  imports GoPath
begin

text \<open>
  The state the handlers of the file services share: the operating system's file tree under the
  served root, the SQLite tables of \<open>internal/db\<close>, the clock, the random source, the
  counters of the metrics recorder and of the cleanup hooks, and a script of I/O faults.

  Every call of the operating system or of SQLite takes the next entry of the fault script:
  \<open>Some e\<close> makes the call fail with \<open>e\<close> and change nothing, \<open>None\<close> (or the end of
  the script) lets it run. A theorem about an arbitrary world therefore speaks about every
  pattern of I/O failures.
\<close>

section \<open>The file tree\<close>

datatype node = File (file_data: bytes) (node_mtime: gotime) | Directory (node_mtime: gotime)

type_synonym fstree = "(string list \<times> node) list"

section \<open>The tables of internal/db\<close>

text \<open>\<open>fs.Meta\<close>, a row of table \<open>meta\<close>.\<close>

record meta =
  m_Path :: string
  m_IsDir :: bool
  m_Size :: int
  m_MtimeUnix :: int
  m_Hash :: string
  m_Version :: nat

text \<open>\<open>fs.VersionRecord\<close>; table \<open>version\<close> holds them under their path.\<close>

record version_record =
  v_Version :: nat
  v_MtimeUnix :: int
  v_Hash :: string
  v_Size :: int
  v_ClientID :: string
  v_ChangeType :: string

record sqldb =
  t_meta :: "meta list"
  t_version :: "(string \<times> version_record) list"
  t_blob :: "((string \<times> nat) \<times> bytes) list"
  t_head :: "(string \<times> nat) list"

definition empty_db :: sqldb where
  "empty_db = \<lparr>t_meta = [], t_version = [], t_blob = [], t_head = []\<rparr>"

section \<open>The world\<close>

record world =
  w_fs :: fstree
  w_db :: sqldb
  w_faults :: "goerr option list"
  w_clock :: gotime
  w_ticks :: "nat list"
  w_rand :: "bytes option list"
  w_suffix :: nat
  w_rangeWrites :: "(string \<times> int \<times> bool) list"
  w_mutations :: nat
  w_conflicts :: nat

text \<open>
  What a service is configured with, and the library functions the model takes as parameters:
  the served root, \<open>os.Getwd\<close>, the hexadecimal SHA-256, \<open>time.Format\<close> with layout
  \<open>20060102-150405\<close>, and the size the file system reports for a directory.
\<close>

record env =
  e_RootDir :: string
  e_Getwd :: "goerr + string"
  e_Sha256Hex :: "bytes \<Rightarrow> string"
  e_TimeFormat :: "gotime \<Rightarrow> string"
  e_DirSize :: int

type_synonym 'a result = "goerr + 'a"
type_synonym 'a io = "world \<Rightarrow> 'a result \<times> world"
type_synonym 'a rpc = "world \<Rightarrow> (status + 'a) \<times> world"

definition with_fault :: "'a io \<Rightarrow> 'a io" where
  "with_fault k w =
    (case w_faults w of
       [] \<Rightarrow> k w
     | f # fs \<Rightarrow>
       (case f of
          None \<Rightarrow> k (w\<lparr>w_faults := fs\<rparr>)
        | Some e \<Rightarrow> (Inl e, w\<lparr>w_faults := fs\<rparr>)))"

text \<open>\<open>time.Now()\<close>: each reading advances by the next tick.\<close>

definition time_Now :: "world \<Rightarrow> gotime \<times> world" where
  "time_Now w =
    (case w_ticks w of
       [] \<Rightarrow> (w_clock w, w)
     | d # ds \<Rightarrow> (w_clock w + int d, w\<lparr>w_clock := w_clock w + int d, w_ticks := ds\<rparr>))"

definition time_Sleep :: "duration \<Rightarrow> world \<Rightarrow> world" where
  "time_Sleep d w = w\<lparr>w_clock := w_clock w + d\<rparr>"

text \<open>\<open>rand.Read\<close> into a buffer: the next bytes of the source, or a failure.\<close>

definition rand_Read :: "world \<Rightarrow> bytes option \<times> world" where
  "rand_Read w =
    (case w_rand w of
       [] \<Rightarrow> (None, w)
     | r # rs \<Rightarrow> (r, w\<lparr>w_rand := rs\<rparr>))"

section \<open>Frames\<close>

text \<open>A call that leaves the file tree, or the tables, as they were.\<close>

lemma with_fault_run: "w_faults w = [] \<Longrightarrow> with_fault k w = k (w\<lparr>w_faults := []\<rparr>)"
proof -
  assume a: "w_faults w = []"
  then have eq: "w\<lparr>w_faults := []\<rparr> = w" by (cases w) simp
  show ?thesis by (subst eq) (simp add: with_fault_def a)
qed

lemma with_fault_cases:
  assumes "with_fault k w = r"
  obtains (ran) fs where "k (w\<lparr>w_faults := fs\<rparr>) = r"
  | (failed) e fs where "r = (Inl e, w\<lparr>w_faults := fs\<rparr>)"
proof (cases "w_faults w")
  case Nil
  with assms have "k (w\<lparr>w_faults := []\<rparr>) = r" by (simp add: with_fault_run)
  then show ?thesis by (rule ran)
next
  case (Cons f fs)
  with assms that show ?thesis by (cases f) (auto simp: with_fault_def)
qed

lemma with_fault_Inr:
  "with_fault k w = (Inr x, w') \<Longrightarrow> \<exists>fs. k (w\<lparr>w_faults := fs\<rparr>) = (Inr x, w')"
  by (erule with_fault_cases) auto

lemma with_fault_frame:
  assumes "\<And>fs. f (snd (k (w\<lparr>w_faults := fs\<rparr>))) = f w" and "\<And>fs. f (w\<lparr>w_faults := fs\<rparr>) = f w"
  shows "f (snd (with_fault k w)) = f w"
proof -
  have "w = w\<lparr>w_faults := w_faults w\<rparr>" by simp
  then have "f (snd (k w)) = f w" using assms(1) by metis
  with assms show ?thesis by (auto simp: with_fault_def split: list.splits option.splits)
qed

lemma with_fault_none [simp]: "w_faults w = [] \<Longrightarrow> with_fault k w = k w"
  by (simp add: with_fault_def)

lemma time_Now_frame [simp]:
  "w_fs (snd (time_Now w)) = w_fs w" "w_db (snd (time_Now w)) = w_db w"
  "w_faults (snd (time_Now w)) = w_faults w" "w_rangeWrites (snd (time_Now w)) = w_rangeWrites w"
  "w_mutations (snd (time_Now w)) = w_mutations w" "w_conflicts (snd (time_Now w)) = w_conflicts w"
  "w_rand (snd (time_Now w)) = w_rand w"
  by (auto simp: time_Now_def split: list.splits)

lemma rand_Read_frame [simp]:
  "w_fs (snd (rand_Read w)) = w_fs w" "w_db (snd (rand_Read w)) = w_db w"
  "w_faults (snd (rand_Read w)) = w_faults w" "w_rangeWrites (snd (rand_Read w)) = w_rangeWrites w"
  by (auto simp: rand_Read_def split: list.splits)

text \<open>A world in which nothing fails, to evaluate the handlers in.\<close>

definition quiet_world :: "fstree \<Rightarrow> sqldb \<Rightarrow> world" where
  "quiet_world t db = \<lparr>w_fs = t, w_db = db, w_faults = [], w_clock = 0, w_ticks = [], w_rand = [],
     w_suffix = 0, w_rangeWrites = [], w_mutations = 0, w_conflicts = 0\<rparr>"

lemma quiet_world_simps [simp]:
  "w_fs (quiet_world t db) = t" "w_db (quiet_world t db) = db" "w_faults (quiet_world t db) = []"
  "w_clock (quiet_world t db) = 0"
  by (simp_all add: quiet_world_def)

end
