(* ===== verification/FileSys.thy ===== *)
theory FileSys
  imports World
begin

text \<open>
  The operating system's file operations on the tree, and \<open>internal/fs/filesystem.go\<close>, the
  layer that resolves a client path under the root and calls them.

  A path of the tree is its list of elements; the file system's root directory always exists.
  Links, permissions and the growth of a directory's own size are not modelled; a range or size
  past the largest file offset is refused with \<open>EINVAL\<close>, as the kernel does.
\<close>

section \<open>The tree\<close>

definition tree_get :: "fstree \<Rightarrow> string list \<Rightarrow> node option" where
  "tree_get t p = (if p = [] then Some (Directory 0) else map_of t p)"

definition tree_put :: "string list \<Rightarrow> node \<Rightarrow> fstree \<Rightarrow> fstree" where
  "tree_put p n t = AList.update p n t"

definition tree_del :: "string list \<Rightarrow> fstree \<Rightarrow> fstree" where
  "tree_del p t = AList.delete p t"

text \<open>Walking down the directories of a path: the error of the first that is missing or a file.\<close>

fun walk_dirs :: "fstree \<Rightarrow> string list \<Rightarrow> string list \<Rightarrow> errno option" where
  "walk_dirs t q [] = None"
| "walk_dirs t q (c # cs) =
    (case tree_get t (q @ [c]) of
       None \<Rightarrow> Some ENOENT
     | Some (File _ _) \<Rightarrow> Some ENOTDIR
     | Some (Directory _) \<Rightarrow> walk_dirs t (q @ [c]) cs)"

definition lookup_node :: "fstree \<Rightarrow> string list \<Rightarrow> errno + node" where
  "lookup_node t p =
    (case walk_dirs t [] (butlast p) of
       Some e \<Rightarrow> Inl e
     | None \<Rightarrow> (case tree_get t p of None \<Rightarrow> Inl ENOENT | Some n \<Rightarrow> Inr n))"

definition children :: "fstree \<Rightarrow> string list \<Rightarrow> (string \<times> node) list" where
  "children t p = map (\<lambda>(k, n). (last k, n)) (filter (\<lambda>(k, n). k \<noteq> [] \<and> butlast k = p) t)"

fun make_dirs :: "gotime \<Rightarrow> string list \<Rightarrow> string list \<Rightarrow> fstree \<Rightarrow> errno option \<times> fstree" where
  "make_dirs now q [] t = (None, t)"
| "make_dirs now q (c # cs) t =
    (case tree_get t (q @ [c]) of
       None \<Rightarrow> make_dirs now (q @ [c]) cs (tree_put (q @ [c]) (Directory now) t)
     | Some (File _ _) \<Rightarrow> (Some ENOTDIR, t)
     | Some (Directory _) \<Rightarrow> make_dirs now (q @ [c]) cs t)"

definition write_at :: "bytes \<Rightarrow> nat \<Rightarrow> bytes \<Rightarrow> bytes" where
  "write_at d off data =
    (if data = [] then d
     else take off (d @ replicate (off - length d) 0) @ data @ drop (off + length data) d)"

definition truncate_to :: "bytes \<Rightarrow> nat \<Rightarrow> bytes" where
  "truncate_to d n = take n d @ replicate (n - length d) 0"

definition rename_key :: "string list \<Rightarrow> string list \<Rightarrow> string list \<Rightarrow> string list" where
  "rename_key old new k = (if prefix old k then new @ drop (length old) k else k)"

definition rename_tree :: "string list \<Rightarrow> string list \<Rightarrow> fstree \<Rightarrow> fstree" where
  "rename_tree old new t = map (\<lambda>(k, n). (rename_key old new k, n)) (tree_del new t)"

section \<open>System calls of package os\<close>

definition os_Stat :: "string \<Rightarrow> node io" where
  "os_Stat p = with_fault (\<lambda>w.
    (case lookup_node (w_fs w) (path_elems p) of
       Inl e \<Rightarrow> (Inl (PathError ''stat'' p e), w)
     | Inr n \<Rightarrow> (Inr n, w)))"

definition os_ReadFile :: "string \<Rightarrow> bytes io" where
  "os_ReadFile p = with_fault (\<lambda>w.
    (case lookup_node (w_fs w) (path_elems p) of
       Inl e \<Rightarrow> (Inl (PathError ''open'' p e), w)
     | Inr (Directory _) \<Rightarrow> (Inl (PathError ''read'' p EISDIR), w)
     | Inr (File d _) \<Rightarrow> (Inr d, w)))"

definition os_ReadDir :: "string \<Rightarrow> (string \<times> node) list io" where
  "os_ReadDir p = with_fault (\<lambda>w.
    (case lookup_node (w_fs w) (path_elems p) of
       Inl e \<Rightarrow> (Inl (PathError ''open'' p e), w)
     | Inr (File _ _) \<Rightarrow> (Inl (PathError ''readdirent'' p ENOTDIR), w)
     | Inr (Directory _) \<Rightarrow> (Inr (sort_key fst (children (w_fs w) (path_elems p))), w)))"

definition os_MkdirAll :: "string \<Rightarrow> unit io" where
  "os_MkdirAll p = with_fault (\<lambda>w.
    (case make_dirs (w_clock w) [] (path_elems p) (w_fs w) of
       (Some e, t) \<Rightarrow> (Inl (PathError ''mkdir'' p e), w\<lparr>w_fs := t\<rparr>)
     | (None, t) \<Rightarrow> (Inr (), w\<lparr>w_fs := t\<rparr>)))"

text \<open>
  Opening for writing: the error of the walk, of a directory in the way, or the old content
  (\<open>None\<close> for a file that is not there).
\<close>

definition open_target :: "fstree \<Rightarrow> string list \<Rightarrow> errno + bytes option" where
  "open_target t p =
    (case walk_dirs t [] (butlast p) of
       Some e \<Rightarrow> Inl e
     | None \<Rightarrow>
       (case tree_get t p of
          None \<Rightarrow> Inr None
        | Some (Directory _) \<Rightarrow> Inl EISDIR
        | Some (File d _) \<Rightarrow> Inr (Some d)))"

definition os_WriteFile :: "string \<Rightarrow> bytes \<Rightarrow> unit io" where
  "os_WriteFile p data = with_fault (\<lambda>w.
    (case open_target (w_fs w) (path_elems p) of
       Inl e \<Rightarrow> (Inl (PathError ''open'' p e), w)
     | Inr _ \<Rightarrow> (Inr (), w\<lparr>w_fs := tree_put (path_elems p) (File data (w_clock w)) (w_fs w)\<rparr>)))"

text \<open>\<open>os.OpenFile\<close> with \<open>O_RDWR|O_CREATE\<close>.\<close>

definition os_OpenCreate :: "string \<Rightarrow> unit io" where
  "os_OpenCreate p = with_fault (\<lambda>w.
    (case open_target (w_fs w) (path_elems p) of
       Inl e \<Rightarrow> (Inl (PathError ''open'' p e), w)
     | Inr None \<Rightarrow> (Inr (), w\<lparr>w_fs := tree_put (path_elems p) (File [] (w_clock w)) (w_fs w)\<rparr>)
     | Inr (Some _) \<Rightarrow> (Inr (), w)))"

text \<open>\<open>os.OpenFile\<close> with \<open>O_CREATE|O_EXCL|O_WRONLY\<close>.\<close>

definition os_OpenExcl :: "string \<Rightarrow> unit io" where
  "os_OpenExcl p = with_fault (\<lambda>w.
    (case walk_dirs (w_fs w) [] (butlast (path_elems p)) of
       Some e \<Rightarrow> (Inl (PathError ''open'' p e), w)
     | None \<Rightarrow>
       (case tree_get (w_fs w) (path_elems p) of
          Some _ \<Rightarrow> (Inl (PathError ''open'' p EEXIST), w)
        | None \<Rightarrow> (Inr (), w\<lparr>w_fs := tree_put (path_elems p) (File [] (w_clock w)) (w_fs w)\<rparr>))))"

text \<open>Operations on an open file. The path names the file while the handler's lock is held.\<close>

definition file_Update :: "string \<Rightarrow> (bytes \<Rightarrow> errno + bytes) \<Rightarrow> unit io" where
  "file_Update p f = with_fault (\<lambda>w.
    (case tree_get (w_fs w) (path_elems p) of
       Some (File d _) \<Rightarrow>
         (case f d of
            Inl e \<Rightarrow> (Inl (PathError ''write'' p e), w)
          | Inr d' \<Rightarrow> (Inr (), w\<lparr>w_fs := tree_put (path_elems p) (File d' (w_clock w)) (w_fs w)\<rparr>))
     | _ \<Rightarrow> (Inl (PathError ''write'' p EIO), w)))"

definition file_WriteAt :: "string \<Rightarrow> bytes \<Rightarrow> int \<Rightarrow> unit io" where
  "file_WriteAt p data off =
    file_Update p (\<lambda>d. if off + int (length data) > max_i64 then Inl EINVAL
                       else Inr (write_at d (nat off) data))"

definition file_Truncate :: "string \<Rightarrow> int \<Rightarrow> unit io" where
  "file_Truncate p sz =
    file_Update p (\<lambda>d. if sz > max_i64 then Inl EINVAL else Inr (truncate_to d (nat sz)))"

definition file_Size :: "string \<Rightarrow> int io" where
  "file_Size p = with_fault (\<lambda>w.
    (case tree_get (w_fs w) (path_elems p) of
       Some (File d _) \<Rightarrow> (Inr (int (length d)), w)
     | _ \<Rightarrow> (Inl (PathError ''stat'' p EIO), w)))"

definition os_Remove :: "string \<Rightarrow> unit io" where
  "os_Remove p = with_fault (\<lambda>w. let k = path_elems p in
    (case lookup_node (w_fs w) k of
       Inl e \<Rightarrow> (Inl (PathError ''remove'' p e), w)
     | Inr (File _ _) \<Rightarrow> (Inr (), w\<lparr>w_fs := tree_del k (w_fs w)\<rparr>)
     | Inr (Directory _) \<Rightarrow>
         if k = [] then (Inl (PathError ''remove'' p EINVAL), w)
         else if children (w_fs w) k \<noteq> [] then (Inl (PathError ''remove'' p ENOTEMPTY), w)
         else (Inr (), w\<lparr>w_fs := tree_del k (w_fs w)\<rparr>)))"

text \<open>
  \<open>os.Rename\<close> on Unix: a directory at the new name is refused with \<open>EEXIST\<close>, a file
  there is replaced.
\<close>

definition os_Rename :: "string \<Rightarrow> string \<Rightarrow> unit io" where
  "os_Rename old new = with_fault (\<lambda>w.
    let ko = path_elems old; kn = path_elems new; t = w_fs w;
        fail = (\<lambda>e. (Inl (PathError ''rename'' (old @ '' '' @ new) e), w)) in
    (case lookup_node t ko of
       Inl e \<Rightarrow> fail e
     | Inr src \<Rightarrow>
       (case walk_dirs t [] (butlast kn) of
          Some e \<Rightarrow> fail e
        | None \<Rightarrow>
          (case (tree_get t kn, src) of
             (Some (Directory _), _) \<Rightarrow> fail EEXIST
           | (Some (File _ _), Directory _) \<Rightarrow> fail ENOTDIR
           | (_, Directory _) \<Rightarrow>
               if prefix ko kn then fail EINVAL
               else (Inr (), w\<lparr>w_fs := rename_tree ko kn t\<rparr>)
           | (_, File _ _) \<Rightarrow>
               if ko = kn then (Inr (), w) else (Inr (), w\<lparr>w_fs := rename_tree ko kn t\<rparr>)))))"

section \<open>internal/fs/filesystem.go\<close>

definition NewFileSystem :: "goerr + string \<Rightarrow> string \<Rightarrow> string" where
  "NewFileSystem getwd root =
    (case filepath_Abs getwd root of Inr ra \<Rightarrow> ra | Inl _ \<Rightarrow> root)"

definition resolvePath :: "env \<Rightarrow> string \<Rightarrow> string result" where
  "resolvePath E rel = ResolvePath (e_Getwd E) (e_RootDir E) rel"

definition FS_ListDir :: "env \<Rightarrow> string \<Rightarrow> (string \<times> node) list io" where
  "FS_ListDir E rel w =
    (case resolvePath E rel of Inl e \<Rightarrow> (Inl e, w) | Inr dir \<Rightarrow> os_ReadDir dir w)"

definition FS_Stat :: "env \<Rightarrow> string \<Rightarrow> node io" where
  "FS_Stat E rel w =
    (case resolvePath E rel of Inl e \<Rightarrow> (Inl e, w) | Inr p \<Rightarrow> os_Stat p w)"

definition FS_ReadFile :: "env \<Rightarrow> string \<Rightarrow> bytes io" where
  "FS_ReadFile E rel w =
    (case resolvePath E rel of Inl e \<Rightarrow> (Inl e, w) | Inr p \<Rightarrow> os_ReadFile p w)"

definition FS_WriteFile :: "env \<Rightarrow> string \<Rightarrow> bytes \<Rightarrow> unit io" where
  "FS_WriteFile E rel data w =
    (case resolvePath E rel of
       Inl e \<Rightarrow> (Inl e, w)
     | Inr p \<Rightarrow>
       (case os_MkdirAll (filepath_Dir p) w of
          (Inl e, w1) \<Rightarrow> (Inl e, w1)
        | (Inr _, w1) \<Rightarrow> os_WriteFile p data w1))"

text \<open>
  \<open>ReadAt\<close>: \<open>os.Open\<close>, \<open>Stat\<close>, then one positioned read of the remaining bytes,
  cut at \<open>length\<close> when that is positive.
\<close>

definition FS_ReadAt :: "env \<Rightarrow> string \<Rightarrow> int \<Rightarrow> int \<Rightarrow> (bytes \<times> int) io" where
  "FS_ReadAt E rel offset len w =
    (if offset < 0 then (Inl (ErrorText ''offset must be >= 0''), w)
     else case resolvePath E rel of
       Inl e \<Rightarrow> (Inl e, w)
     | Inr p \<Rightarrow>
       with_fault (\<lambda>w.
         (case lookup_node (w_fs w) (path_elems p) of
            Inl e \<Rightarrow> (Inl (PathError ''open'' p e), w)
          | Inr (Directory _) \<Rightarrow> (Inl (PathError ''read'' p EISDIR), w)
          | Inr (File d _) \<Rightarrow>
              let sz = int (length d) in
              if offset \<ge> sz then (Inr ([], sz), w)
              else let n = sz - offset;
                       n' = (if len > 0 \<and> len < n then len else n)
                   in (Inr (take (nat n') (drop (nat offset) d), sz), w))) w)"

definition FS_WriteAt :: "env \<Rightarrow> string \<Rightarrow> int \<Rightarrow> bytes \<Rightarrow> (int \<times> int) io" where
  "FS_WriteAt E rel offset data w =
    (if offset < 0 then (Inl (ErrorText ''offset must be >= 0''), w)
     else case resolvePath E rel of
       Inl e \<Rightarrow> (Inl e, w)
     | Inr p \<Rightarrow>
       (case os_MkdirAll (filepath_Dir p) w of
          (Inl e, w1) \<Rightarrow> (Inl e, w1)
        | (Inr _, w1) \<Rightarrow>
          (case os_OpenCreate p w1 of
             (Inl e, w2) \<Rightarrow> (Inl e, w2)
           | (Inr _, w2) \<Rightarrow>
             (case file_WriteAt p data offset w2 of
                (Inl e, w3) \<Rightarrow> (Inl e, w3)
              | (Inr _, w3) \<Rightarrow>
                (case file_Size p w3 of
                   (Inl e, w4) \<Rightarrow> (Inl e, w4)
                 | (Inr sz, w4) \<Rightarrow> (Inr (int (length data), sz), w4))))))"

definition FS_SetFileSize :: "env \<Rightarrow> string \<Rightarrow> int \<Rightarrow> int io" where
  "FS_SetFileSize E rel sz w =
    (if sz < 0 then (Inl (ErrorText ''size must be >= 0''), w)
     else case resolvePath E rel of
       Inl e \<Rightarrow> (Inl e, w)
     | Inr p \<Rightarrow>
       (case os_MkdirAll (filepath_Dir p) w of
          (Inl e, w1) \<Rightarrow> (Inl e, w1)
        | (Inr _, w1) \<Rightarrow>
          (case os_OpenCreate p w1 of
             (Inl e, w2) \<Rightarrow> (Inl e, w2)
           | (Inr _, w2) \<Rightarrow>
             (case file_Truncate p sz w2 of
                (Inl e, w3) \<Rightarrow> (Inl e, w3)
              | (Inr _, w3) \<Rightarrow> file_Size p w3))))"

definition FS_Remove :: "env \<Rightarrow> string \<Rightarrow> unit io" where
  "FS_Remove E rel w =
    (case resolvePath E rel of Inl e \<Rightarrow> (Inl e, w) | Inr p \<Rightarrow> os_Remove p w)"

definition FS_Mkdir :: "env \<Rightarrow> string \<Rightarrow> unit io" where
  "FS_Mkdir E rel w =
    (case resolvePath E rel of Inl e \<Rightarrow> (Inl e, w) | Inr p \<Rightarrow> os_MkdirAll p w)"

definition FS_Rename :: "env \<Rightarrow> string \<Rightarrow> string \<Rightarrow> unit io" where
  "FS_Rename E oldRel newRel w =
    (case resolvePath E oldRel of
       Inl e \<Rightarrow> (Inl e, w)
     | Inr oldPath \<Rightarrow>
       (case resolvePath E newRel of
          Inl e \<Rightarrow> (Inl e, w)
        | Inr newPath \<Rightarrow>
          (case os_MkdirAll (filepath_Dir newPath) w of
             (Inl e, w1) \<Rightarrow> (Inl e, w1)
           | (Inr _, w1) \<Rightarrow> os_Rename oldPath newPath w1)))"

end
