(* ===== verification/Sql.thy ===== *)
theory Sql
  imports FileSys
begin

text \<open>
  The SQLite statements of \<open>internal/db\<close> as functions on lists of rows: lookup, upsert,
  delete, insert and update under a unique key, \<open>LIKE\<close> with an escape character, and the
  running of a statement, which may be refused by the fault script. A transaction
  (\<open>withWriteTx\<close> of \<open>version.go\<close>) works on the tables and puts them back when it fails.
\<close>

section \<open>Rows\<close>

definition row_upsert :: "('r \<Rightarrow> 'k) \<Rightarrow> 'r \<Rightarrow> 'r list \<Rightarrow> 'r list" where
  "row_upsert key r rs =
    (if key r \<in> key ` set rs then map (\<lambda>x. if key x = key r then r else x) rs else rs @ [r])"

definition row_delete :: "('r \<Rightarrow> 'k) \<Rightarrow> 'k \<Rightarrow> 'r list \<Rightarrow> 'r list" where
  "row_delete key k rs = filter (\<lambda>x. key x \<noteq> k) rs"

definition row_find :: "('r \<Rightarrow> 'k) \<Rightarrow> 'k \<Rightarrow> 'r list \<Rightarrow> 'r option" where
  "row_find key k rs = find (\<lambda>x. key x = k) rs"

definition row_insert :: "string \<Rightarrow> ('r \<Rightarrow> 'k) \<Rightarrow> 'r \<Rightarrow> 'r list \<Rightarrow> goerr + 'r list" where
  "row_insert what key r rs =
    (if key r \<in> key ` set rs
     then Inl (ErrorText (''UNIQUE constraint failed: '' @ what)) else Inr (rs @ [r]))"

text \<open>
  \<open>UPDATE\<close> of a unique key: the rows are rewritten one by one, and the statement fails at the
  first whose new key another row holds at that moment. The first list holds the rows already
  passed.
\<close>

fun row_update :: "string \<Rightarrow> ('r \<Rightarrow> 'k) \<Rightarrow> ('r \<Rightarrow> bool) \<Rightarrow> ('r \<Rightarrow> 'r) \<Rightarrow> 'r list \<Rightarrow> 'r list
    \<Rightarrow> goerr + 'r list" where
  "row_update what key sel f done [] = Inr done"
| "row_update what key sel f done (r # rs) =
    (if \<not> sel r then row_update what key sel f (done @ [r]) rs
     else if key (f r) \<in> key ` (set done \<union> set rs)
     then Inl (ErrorText (''UNIQUE constraint failed: '' @ what))
     else row_update what key sel f (done @ [f r]) rs)"

lemmas [sql_defs] = row_upsert_def row_delete_def row_find_def row_insert_def

lemma row_upsert_keys:
  "distinct (map key rs) \<Longrightarrow> distinct (map key (row_upsert key r rs))"
proof (cases "key r \<in> key ` set rs")
  case True
  have "map key (map (\<lambda>x. if key x = key r then r else x) rs) = map key rs" by auto
  moreover assume "distinct (map key rs)"
  ultimately show ?thesis using True by (simp only: row_upsert_def if_True)
next
  case False
  moreover assume "distinct (map key rs)"
  ultimately show ?thesis by (simp add: row_upsert_def)
qed

lemma row_upsert_key_set: "key ` set (row_upsert key r rs) = insert (key r) (key ` set rs)"
  by (auto simp: row_upsert_def image_iff split: if_splits)

lemma find_replaced:
  "find (\<lambda>x. key x = k) (map (\<lambda>x. if key x = key r then r else x) rs)
    = (if k = key r \<and> key r \<in> key ` set rs then Some r else find (\<lambda>x. key x = k) rs)"
  by (induction rs) auto

lemma row_find_append:
  "row_find key k (rs @ [r]) =
    (case row_find key k rs of Some y \<Rightarrow> Some y | None \<Rightarrow> if key r = k then Some r else None)"
  by (induction rs) (auto simp: row_find_def)

lemma row_find_None: "row_find key k rs = None \<longleftrightarrow> k \<notin> key ` set rs"
  by (auto simp: row_find_def find_None_all)

lemma row_find_upsert:
  "row_find key k (row_upsert key r rs) = (if k = key r then Some r else row_find key k rs)"
proof (cases "key r \<in> key ` set rs")
  case True
  then show ?thesis by (auto simp: row_upsert_def row_find_def find_replaced)
next
  case False
  then have "row_find key (key r) rs = None" by (simp add: row_find_None)
  with False show ?thesis by (auto simp: row_upsert_def row_find_append split: option.splits)
qed

lemma row_find_delete:
  "row_find key k (row_delete key k' rs) = (if k = k' then None else row_find key k rs)"
  by (induction rs) (auto simp: row_find_def row_delete_def)

lemma row_find_SomeD: "row_find key k rs = Some r \<Longrightarrow> r \<in> set rs \<and> key r = k"
  by (auto simp: row_find_def dest: find_Some_set)

lemma row_find_Some:
  "distinct (map key rs) \<Longrightarrow> row_find key k rs = Some r \<longleftrightarrow> r \<in> set rs \<and> key r = k"
  using find_key_unique [of key rs r] by (auto simp: row_find_def dest: find_Some_set)

lemma row_delete_keys: "distinct (map key rs) \<Longrightarrow> distinct (map key (row_delete key k rs))"
  by (auto simp: row_delete_def distinct_map_filter)

text \<open>Without a collision the update is a map.\<close>

lemma row_update_map_gen:
  assumes "distinct (map key done @ map (\<lambda>r. key (if sel r then f r else r)) rs)"
    and "\<forall>r\<in>set rs. sel r \<longrightarrow> key (f r) \<notin> key ` set rs \<or> key (f r) = key r"
    and "distinct (map key rs)"
  shows "row_update what key sel f done rs = Inr (done @ map (\<lambda>r. if sel r then f r else r) rs)"
  using assms
proof (induction rs arbitrary: "done")
  case Nil
  then show ?case by simp
next
  case (Cons r rs)
  show ?case
  proof (cases "sel r")
    case False
    then show ?thesis using Cons.IH [of "done @ [r]"] Cons.prems by auto
  next
    case True
    have "key (f r) \<notin> key ` (set done \<union> set rs)"
      using Cons.prems True by auto
    then show ?thesis using True Cons.IH [of "done @ [f r]"] Cons.prems by auto
  qed
qed

lemma row_update_map:
  assumes "distinct (map key rs)"
    and "inj_on (\<lambda>r. key (f r)) {r \<in> set rs. sel r}"
    and "\<forall>r\<in>set rs. sel r \<longrightarrow> key (f r) \<notin> key ` set rs"
  shows "row_update what key sel f [] rs = Inr (map (\<lambda>r. if sel r then f r else r) rs)"
proof -
  have "distinct (map (\<lambda>r. key (if sel r then f r else r)) rs)"
    using assms by (auto simp: distinct_map inj_on_def image_iff) metis+
  then show ?thesis using row_update_map_gen [of key "[]" sel f rs what] assms by auto
qed

lemma row_update_collision:
  assumes "r \<in> set rs" and "sel r" and "\<And>x. sel x \<Longrightarrow> key (f x) \<noteq> key x"
    and "q \<in> set rs" and "\<not> sel q" and "key (f r) = key q"
  shows "\<exists>e. row_update what key sel f done rs = Inl (ErrorText e)"
proof -
  have gen: "(q \<in> set done \<or> q \<in> set rs) \<Longrightarrow> r \<in> set rs
      \<Longrightarrow> \<exists>e. row_update what key sel f done rs = Inl (ErrorText e)" for "done"
  proof (induction rs arbitrary: "done")
    case Nil
    then show ?case by simp
  next
    case (Cons x xs)
    show ?case
    proof (cases "sel x")
      case False
      with Cons assms(2) show ?thesis by auto
    next
      case True
      have "x \<noteq> q" using True assms(5) by auto
      then have "q \<in> set done \<or> q \<in> set xs" using Cons.prems by auto
      moreover have "x = r \<or> r \<in> set xs" using Cons.prems by auto
      ultimately show ?thesis using Cons.IH [of "done @ [f x]"] True assms(6) by auto
    qed
  qed
  show ?thesis using gen assms(1,4) by blast
qed

section \<open>LIKE\<close>

text \<open>\<open>x LIKE pattern ESCAPE '\'\<close>: SQLite compares ASCII letters without regard to case.\<close>

abbreviation backslash :: char where "backslash \<equiv> CHR 0x5C"

fun sql_like :: "string \<Rightarrow> string \<Rightarrow> bool" where
  "sql_like [] s = (s = [])"
| "sql_like (p # ps) s =
    (if p = CHR ''%'' then sql_like ps s \<or> (case s of [] \<Rightarrow> False | c # cs \<Rightarrow> sql_like (p # ps) cs)
     else if p = backslash then
       (case ps of
          [] \<Rightarrow> False
        | q # qs \<Rightarrow> (case s of [] \<Rightarrow> False | c # cs \<Rightarrow> lower_char c = lower_char q \<and> sql_like qs cs))
     else (case s of
        [] \<Rightarrow> False
      | c # cs \<Rightarrow> (p = CHR ''_'' \<or> lower_char c = lower_char p) \<and> sql_like ps cs))"

definition sql_substr :: "string \<Rightarrow> nat \<Rightarrow> string" where
  "sql_substr s k = drop (k - 1) s"

lemma sql_like_percent: "sql_like ''%'' s"
  by (induction s) auto

section \<open>Running a statement\<close>

definition sql_query :: "(sqldb \<Rightarrow> goerr + 'a) \<Rightarrow> 'a io" where
  "sql_query q = with_fault (\<lambda>w. (q (w_db w), w))"

definition sql_exec :: "(sqldb \<Rightarrow> goerr + sqldb) \<Rightarrow> unit io" where
  "sql_exec s = with_fault (\<lambda>w.
    (case s (w_db w) of Inl e \<Rightarrow> (Inl e, w) | Inr d \<Rightarrow> (Inr (), w\<lparr>w_db := d\<rparr>)))"

text \<open>\<open>w'\<close> differs from \<open>w\<close> in the tables and in faults already used up.\<close>

definition db_step :: "world \<Rightarrow> sqldb \<Rightarrow> world \<Rightarrow> bool" where
  "db_step w d w' \<longleftrightarrow>
    w_db w' = d \<and> w_fs w' = w_fs w \<and> w_clock w' = w_clock w \<and> w_mutations w' = w_mutations w
    \<and> w_conflicts w' = w_conflicts w \<and> w_rangeWrites w' = w_rangeWrites w \<and> w_rand w' = w_rand w
    \<and> w_suffix w' = w_suffix w \<and> w_ticks w' = w_ticks w \<and> set (w_faults w') \<subseteq> set (w_faults w)"

lemma db_stepD:
  assumes "db_step w d w'"
  shows "w_db w' = d" "w_fs w' = w_fs w" "w_clock w' = w_clock w" "w_mutations w' = w_mutations w"
    "w_conflicts w' = w_conflicts w" "w_rangeWrites w' = w_rangeWrites w" "w_rand w' = w_rand w"
    "w_suffix w' = w_suffix w" "w_ticks w' = w_ticks w"
  using assms by (auto simp: db_step_def)

lemma db_step_refl: "db_step w (w_db w) w"
  by (simp add: db_step_def)

lemma db_step_trans: "db_step w d w1 \<Longrightarrow> db_step w1 d' w2 \<Longrightarrow> db_step w d' w2"
  by (auto simp: db_step_def)

lemma db_step_rollback: "db_step w d w1 \<Longrightarrow> db_step w d' (w1\<lparr>w_db := d'\<rparr>)"
  by (auto simp: db_step_def)

definition fault_in :: "goerr \<Rightarrow> world \<Rightarrow> bool" where
  "fault_in e w \<longleftrightarrow> Some e \<in> set (w_faults w)"

lemma fault_in_step: "db_step w d w' \<Longrightarrow> fault_in e w' \<Longrightarrow> fault_in e w"
  by (auto simp: db_step_def fault_in_def)

lemma sql_query_Inr:
  "sql_query q w = (Inr x, w') \<Longrightarrow> q (w_db w) = Inr x \<and> db_step w (w_db w) w'"
  by (auto simp: sql_query_def with_fault_def db_step_def split: list.splits option.splits)

lemma sql_query_Inl:
  "sql_query q w = (Inl e, w') \<Longrightarrow> (q (w_db w) = Inl e \<or> fault_in e w) \<and> db_step w (w_db w) w'"
  by (auto simp: sql_query_def with_fault_def db_step_def fault_in_def split: list.splits option.splits)

lemma sql_exec_Inr:
  "sql_exec s w = (Inr x, w') \<Longrightarrow> \<exists>d. s (w_db w) = Inr d \<and> db_step w d w'"
  by (auto simp: sql_exec_def with_fault_def db_step_def
      split: list.splits option.splits sum.splits)

lemma sql_exec_Inl:
  "sql_exec s w = (Inl e, w') \<Longrightarrow> (s (w_db w) = Inl e \<or> fault_in e w) \<and> db_step w (w_db w) w'"
  by (auto simp: sql_exec_def with_fault_def db_step_def fault_in_def
      split: list.splits option.splits sum.splits)

lemmas sql_runs = sql_query_Inr sql_query_Inl sql_exec_Inr sql_exec_Inl

lemma sql_query_nofault: "w_faults w = [] \<Longrightarrow> sql_query q w = (q (w_db w), w)"
  by (simp add: sql_query_def)

lemma sql_exec_nofault:
  "w_faults w = [] \<Longrightarrow> sql_exec s w =
    (case s (w_db w) of Inl e \<Rightarrow> (Inl e, w) | Inr d \<Rightarrow> (Inr (), w\<lparr>w_db := d\<rparr>))"
  by (simp add: sql_exec_def)

lemma world_idle [simp]: "w\<lparr>w_db := w_db w\<rparr> = w" "w\<lparr>w_fs := w_fs w\<rparr> = w"
  by (cases w; simp)+

end
