(* ===== verification/VersionDb.thy ===== *)
theory VersionDb
  imports Sql
begin

text \<open>
  The metadata and version stores of \<open>internal/db\<close> (\<open>meta.go\<close>, \<open>version.go\<close>): one
  definition per statement, composed in transactions the way \<open>withWriteTx\<close> runs them.

  Version numbers are \<open>nat\<close>: the code's \<open>uint64\<close> counts up from the stored value by one per
  change and is not modelled past \<open>2\<close> to the power 63. A nil slice of data is \<open>None\<close>.
\<close>

section \<open>internal/db/meta.go\<close>

definition GetMeta :: "string \<Rightarrow> meta io" where
  "GetMeta path w =
    (case sql_query (\<lambda>db. case row_find m_Path path (t_meta db) of
                            None \<Rightarrow> Inl (Sentinel ErrNoRows) | Some m \<Rightarrow> Inr m) w of
       (Inl e, w1) \<Rightarrow> (Inl (if e = Sentinel ErrNoRows then Sentinel ErrNotExist else e), w1)
     | (Inr m, w1) \<Rightarrow> (Inr m, w1))"

definition SetMeta :: "meta \<Rightarrow> unit io" where
  "SetMeta m = sql_exec (\<lambda>db. Inr (db\<lparr>t_meta := row_upsert m_Path m (t_meta db)\<rparr>))"

definition DeleteMeta :: "string \<Rightarrow> unit io" where
  "DeleteMeta path = sql_exec (\<lambda>db. Inr (db\<lparr>t_meta := row_delete m_Path path (t_meta db)\<rparr>))"

definition AllMetas :: "meta list io" where
  "AllMetas = sql_query (\<lambda>db. Inr (t_meta db))"

section \<open>Transactions\<close>

definition isSQLiteBusy :: "goerr \<Rightarrow> bool" where
  "isSQLiteBusy e = (let msg = strings_ToLower (err_Error e) in
    strings_Contains msg ''sqlite_busy'' \<or> strings_Contains msg ''database is locked'')"

text \<open>
  One attempt: \<open>Begin\<close>, the body, \<open>Commit\<close>; on an error \<open>Rollback\<close> puts the tables of
  \<open>Begin\<close> back.
\<close>

definition tx_attempt :: "'a io \<Rightarrow> 'a io" where
  "tx_attempt fn w =
    (case sql_query (\<lambda>_. Inr ()) w of
       (Inl e, w1) \<Rightarrow> (Inl e, w1)
     | (Inr _, w1) \<Rightarrow>
       (case fn w1 of
          (Inl e, w2) \<Rightarrow> (Inl e, w2\<lparr>w_db := w_db w1\<rparr>)
        | (Inr x, w2) \<Rightarrow>
          (case sql_query (\<lambda>_. Inr ()) w2 of
             (Inl e, w3) \<Rightarrow> (Inl e, w3\<lparr>w_db := w_db w1\<rparr>)
           | (Inr _, w3) \<Rightarrow> (Inr x, w3))))"

abbreviation maxAttempts :: nat where "maxAttempts \<equiv> 5"

text \<open>The first argument counts the attempts left; it is positive when the loop is entered.\<close>

fun withWriteTx_loop :: "nat \<Rightarrow> nat \<Rightarrow> goerr \<Rightarrow> 'a io \<Rightarrow> 'a io" where
  "withWriteTx_loop 0 attempt lastErr fn w = (Inl lastErr, w)"
| "withWriteTx_loop (Suc n) attempt lastErr fn w =
    (case tx_attempt fn w of
       (Inr x, w1) \<Rightarrow> (Inr x, w1)
     | (Inl e, w1) \<Rightarrow>
         if \<not> isSQLiteBusy e \<or> attempt = maxAttempts - 1 then (Inl e, w1)
         else withWriteTx_loop n (attempt + 1) e fn
                (time_Sleep (25 * 2 ^ attempt * millisecond) w1))"

definition withWriteTx :: "'a io \<Rightarrow> 'a io" where
  "withWriteTx fn = withWriteTx_loop maxAttempts 0 (ErrorText []) fn"

section \<open>Statements of version.go\<close>

definition ver_key :: "string \<times> version_record \<Rightarrow> string \<times> nat" where
  "ver_key r = (fst r, v_Version (snd r))"

definition versions_of :: "sqldb \<Rightarrow> string \<Rightarrow> version_record list" where
  "versions_of db path = map snd (filter (\<lambda>r. fst r = path) (t_version db))"

definition max_version :: "sqldb \<Rightarrow> string \<Rightarrow> nat" where
  "max_version db path = foldr max (map v_Version (versions_of db path)) 0"

definition select_head :: "string \<Rightarrow> nat io" where
  "select_head path = sql_query (\<lambda>db. case row_find fst path (t_head db) of
     None \<Rightarrow> Inl (Sentinel ErrNoRows) | Some r \<Rightarrow> Inr (snd r))"

definition ensureFileHeadTx :: "string \<Rightarrow> unit io" where
  "ensureFileHeadTx path w =
    (case select_head path w of
       (Inr _, w1) \<Rightarrow> (Inr (), w1)
     | (Inl e, w1) \<Rightarrow>
       if \<not> errors_Is e ErrNoRows then (Inl e, w1)
       else
         (case sql_query (\<lambda>db. Inr (max_version db path)) w1 of
            (Inl e, w2) \<Rightarrow> (Inl e, w2)
          | (Inr versionMax, w2) \<Rightarrow>
            (case sql_query (\<lambda>db. case row_find m_Path path (t_meta db) of
                                    None \<Rightarrow> Inl (Sentinel ErrNoRows) | Some m \<Rightarrow> Inr (m_Version m)) w2 of
               (meta, w3) \<Rightarrow>
                 let metaVersion =
                   (case meta of
                      Inr v \<Rightarrow> Inr v
                    | Inl e \<Rightarrow>
                        if errors_Is e ErrNoRows then Inr 0
                        else if strings_Contains (strings_ToLower (err_Error e)) ''no such table: meta''
                        then Inr 0 else Inl e) in
                 (case metaVersion of
                    Inl e \<Rightarrow> (Inl e, w3)
                  | Inr v \<Rightarrow>
                    let versionMax = (if v > versionMax then v else versionMax) in
                    sql_exec (\<lambda>db. Inr (if path \<in> fst ` set (t_head db) then db
                                        else db\<lparr>t_head := t_head db @ [(path, versionMax)]\<rparr>)) w3))))"

definition nextVersionTx :: "string \<Rightarrow> nat io" where
  "nextVersionTx path w =
    (case ensureFileHeadTx path w of
       (Inl e, w1) \<Rightarrow> (Inl e, w1)
     | (Inr _, w1) \<Rightarrow>
       (case sql_exec (\<lambda>db. Inr (db\<lparr>t_head := map (\<lambda>(p, n). (p, if p = path then n + 1 else n)) (t_head db)\<rparr>)) w1 of
          (Inl e, w2) \<Rightarrow> (Inl e, w2)
        | (Inr _, w2) \<Rightarrow> select_head path w2))"

definition setCurrentVersionIfGreaterTx :: "string \<Rightarrow> nat \<Rightarrow> unit io" where
  "setCurrentVersionIfGreaterTx path version = sql_exec (\<lambda>db.
    Inr (db\<lparr>t_head := map (\<lambda>(p, n). (p, if p = path \<and> n < version then version else n)) (t_head db)\<rparr>))"

definition upsertMetaTx :: "meta \<Rightarrow> unit io" where
  "upsertMetaTx m = sql_exec (\<lambda>db. Inr (db\<lparr>t_meta := row_upsert m_Path m (t_meta db)\<rparr>))"

definition deleteMetaTx :: "string \<Rightarrow> unit io" where
  "deleteMetaTx path = sql_exec (\<lambda>db. Inr (db\<lparr>t_meta := row_delete m_Path path (t_meta db)\<rparr>))"

definition insertSnapshotTx :: "string \<Rightarrow> version_record \<Rightarrow> bytes option \<Rightarrow> unit io" where
  "insertSnapshotTx path rec data w =
    (case sql_exec (\<lambda>db. map_sum id (\<lambda>rs. db\<lparr>t_version := rs\<rparr>)
                      (row_insert ''version.path, version.version'' ver_key (path, rec) (t_version db))) w of
       (Inl e, w1) \<Rightarrow> (Inl e, w1)
     | (Inr _, w1) \<Rightarrow>
       (case data of
          None \<Rightarrow> (Inr (), w1)
        | Some d \<Rightarrow>
          sql_exec (\<lambda>db. map_sum id (\<lambda>rs. db\<lparr>t_blob := rs\<rparr>)
            (row_insert ''version_blob.path, version_blob.version'' fst
               ((path, v_Version rec), d) (t_blob db))) w1))"

section \<open>Operations of version.go\<close>

definition AppendSnapshot :: "string \<Rightarrow> version_record \<Rightarrow> bytes option \<Rightarrow> unit io" where
  "AppendSnapshot path rec data = withWriteTx (\<lambda>w.
    (case ensureFileHeadTx path w of
       (Inl e, w1) \<Rightarrow> (Inl e, w1)
     | (Inr _, w1) \<Rightarrow>
       (case setCurrentVersionIfGreaterTx path (v_Version rec) w1 of
          (Inl e, w2) \<Rightarrow> (Inl e, w2)
        | (Inr _, w2) \<Rightarrow> insertSnapshotTx path rec data w2)))"

definition VS_Append :: "string \<Rightarrow> version_record \<Rightarrow> unit io" where
  "VS_Append path rec = AppendSnapshot path rec None"

text \<open>The transaction sets \<open>meta.Version\<close>; the caller reads it from the number returned.\<close>

definition SaveFileSnapshot :: "meta \<Rightarrow> string \<Rightarrow> string \<Rightarrow> bytes option \<Rightarrow> nat io" where
  "SaveFileSnapshot m clientID changeType data = withWriteTx (\<lambda>w.
    (case nextVersionTx (m_Path m) w of
       (Inl e, w1) \<Rightarrow> (Inl e, w1)
     | (Inr version, w1) \<Rightarrow>
       let m' = m\<lparr>m_Version := version\<rparr> in
       (case upsertMetaTx m' w1 of
          (Inl e, w2) \<Rightarrow> (Inl e, w2)
        | (Inr _, w2) \<Rightarrow>
          (case insertSnapshotTx (m_Path m)
                  \<lparr>v_Version = version, v_MtimeUnix = m_MtimeUnix m, v_Hash = m_Hash m,
                   v_Size = m_Size m, v_ClientID = clientID, v_ChangeType = changeType\<rparr> data w2 of
             (Inl e, w3) \<Rightarrow> (Inl e, w3)
           | (Inr _, w3) \<Rightarrow> (Inr version, w3)))))"

definition AppendDeleteSnapshot :: "string \<Rightarrow> int \<Rightarrow> int \<Rightarrow> string \<Rightarrow> nat io" where
  "AppendDeleteSnapshot path sz mtimeUnix clientID = withWriteTx (\<lambda>w.
    (case nextVersionTx path w of
       (Inl e, w1) \<Rightarrow> (Inl e, w1)
     | (Inr version, w1) \<Rightarrow>
       (case deleteMetaTx path w1 of
          (Inl e, w2) \<Rightarrow> (Inl e, w2)
        | (Inr _, w2) \<Rightarrow>
          (case insertSnapshotTx path
                  \<lparr>v_Version = version, v_MtimeUnix = mtimeUnix, v_Hash = [], v_Size = sz,
                   v_ClientID = clientID, v_ChangeType = ''delete''\<rparr> None w2 of
             (Inl e, w3) \<Rightarrow> (Inl e, w3)
           | (Inr _, w3) \<Rightarrow> (Inr version, w3)))))"

text \<open>
  \<open>strings.NewReplacer\<close> on the three special characters of \<open>LIKE\<close>; each old string is one
  character, so the replacer works character by character.
\<close>

definition escapeSQLiteLikePattern :: "string \<Rightarrow> string" where
  "escapeSQLiteLikePattern value = concat (map (\<lambda>c.
     if c = backslash \<or> c = CHR ''%'' \<or> c = CHR ''_'' then [backslash, c] else [c]) value)"

definition renamed_path :: "string \<Rightarrow> string \<Rightarrow> nat \<Rightarrow> string \<Rightarrow> string" where
  "renamed_path oldPath newPath childSuffixStart p =
    (if p = oldPath then newPath else newPath @ sql_substr p childSuffixStart)"

definition rename_selects :: "string \<Rightarrow> string \<Rightarrow> string \<Rightarrow> bool" where
  "rename_selects oldPath prefixPattern p \<longleftrightarrow> p = oldPath \<or> sql_like prefixPattern p"

text \<open>The four statements of \<open>renamePathPrefixTx\<close>, one per table.\<close>

definition rename_rows :: "string \<Rightarrow> string \<Rightarrow> string \<Rightarrow> string \<Rightarrow> nat \<Rightarrow> sqldb \<Rightarrow> goerr + sqldb" where
  "rename_rows table oldPath newPath prefixPattern childSuffixStart db =
    (let f = renamed_path oldPath newPath childSuffixStart;
         sel = rename_selects oldPath prefixPattern in
     if table = ''meta'' then
       map_sum id (\<lambda>rs. db\<lparr>t_meta := rs\<rparr>)
         (row_update ''meta.path'' m_Path (\<lambda>m. sel (m_Path m)) (\<lambda>m. m\<lparr>m_Path := f (m_Path m)\<rparr>) [] (t_meta db))
     else if table = ''file_head'' then
       map_sum id (\<lambda>rs. db\<lparr>t_head := rs\<rparr>)
         (row_update ''file_head.path'' fst (\<lambda>r. sel (fst r)) (apfst f) [] (t_head db))
     else if table = ''version'' then
       map_sum id (\<lambda>rs. db\<lparr>t_version := rs\<rparr>)
         (row_update ''version.path, version.version'' ver_key (\<lambda>r. sel (fst r)) (apfst f) [] (t_version db))
     else if table = ''version_blob'' then
       map_sum id (\<lambda>rs. db\<lparr>t_blob := rs\<rparr>)
         (row_update ''version_blob.path, version_blob.version'' fst (\<lambda>r. sel (fst (fst r)))
            (apfst (apfst f)) [] (t_blob db))
     else Inl (ErrorText (''no such table: '' @ table)))"

definition renamePathPrefixTx :: "string \<Rightarrow> string \<Rightarrow> string \<Rightarrow> string \<Rightarrow> nat \<Rightarrow> unit io" where
  "renamePathPrefixTx table oldPath newPath prefixPattern childSuffixStart =
    sql_exec (rename_rows table oldPath newPath prefixPattern childSuffixStart)"

fun rename_tables :: "string list \<Rightarrow> string \<Rightarrow> string \<Rightarrow> string \<Rightarrow> nat \<Rightarrow> unit io" where
  "rename_tables [] oldPath newPath pat k w = (Inr (), w)"
| "rename_tables (t # ts) oldPath newPath pat k w =
    (case renamePathPrefixTx t oldPath newPath pat k w of
       (Inl e, w1) \<Rightarrow> (Inl e, w1)
     | (Inr _, w1) \<Rightarrow> rename_tables ts oldPath newPath pat k w1)"

definition RenamePathTree :: "string \<Rightarrow> string \<Rightarrow> unit io" where
  "RenamePathTree oldPath newPath w =
    (if oldPath = newPath then (Inr (), w)
     else
       let prefixPattern = escapeSQLiteLikePattern oldPath @ ''/%'';
           childSuffixStart = length oldPath + 1 in
       withWriteTx (rename_tables [''meta'', ''file_head'', ''version'', ''version_blob'']
                      oldPath newPath prefixPattern childSuffixStart) w)"

definition GetHistory :: "string \<Rightarrow> version_record list io" where
  "GetHistory path = sql_query (\<lambda>db. Inr (sort_key v_Version (versions_of db path)))"

definition not_found :: "string \<Rightarrow> goerr \<Rightarrow> goerr" where
  "not_found msg e = (if errors_Is e ErrNoRows then Wrapf msg (Sentinel ErrNotExist) [] else e)"

definition GetRecord :: "string \<Rightarrow> nat \<Rightarrow> version_record io" where
  "GetRecord path version w =
    (case sql_query (\<lambda>db. case row_find ver_key (path, version) (t_version db) of
                            None \<Rightarrow> Inl (Sentinel ErrNoRows) | Some r \<Rightarrow> Inr (snd r)) w of
       (Inl e, w1) \<Rightarrow> (Inl (not_found ''version record not found: '' e), w1)
     | (Inr r, w1) \<Rightarrow> (Inr r, w1))"

definition GetLatestRecord :: "string \<Rightarrow> version_record io" where
  "GetLatestRecord path w =
    (case sql_query (\<lambda>db. case sort_key (\<lambda>r. Desc (v_Version r)) (versions_of db path) of
                            [] \<Rightarrow> Inl (Sentinel ErrNoRows) | r # _ \<Rightarrow> Inr r) w of
       (Inl e, w1) \<Rightarrow> (Inl (not_found ''latest version record not found: '' e), w1)
     | (Inr r, w1) \<Rightarrow> (Inr r, w1))"

definition GetVersionData :: "string \<Rightarrow> nat \<Rightarrow> bytes io" where
  "GetVersionData path version w =
    (case sql_query (\<lambda>db. case row_find fst (path, version) (t_blob db) of
                            None \<Rightarrow> Inl (Sentinel ErrNoRows) | Some r \<Rightarrow> Inr (snd r)) w of
       (Inl e, w1) \<Rightarrow> (Inl (not_found ''version data not found: '' e), w1)
     | (Inr d, w1) \<Rightarrow> (Inr d, w1))"

lemmas [sql_defs] = GetMeta_def SetMeta_def DeleteMeta_def AllMetas_def isSQLiteBusy_def
  tx_attempt_def withWriteTx_def ver_key_def versions_of_def max_version_def select_head_def
  ensureFileHeadTx_def nextVersionTx_def setCurrentVersionIfGreaterTx_def upsertMetaTx_def
  deleteMetaTx_def insertSnapshotTx_def AppendSnapshot_def VS_Append_def SaveFileSnapshot_def
  AppendDeleteSnapshot_def RenamePathTree_def GetHistory_def GetRecord_def GetLatestRecord_def
  GetVersionData_def

end
