(* ===== verification/VersionLaws.thy ===== *)
theory VersionLaws
  imports VersionDb
begin

text \<open>
  What the version store promises: an abstract effect for each transaction, the proof that a
  transaction either has exactly that effect or none, whatever I/O fails, and the invariant of
  the tables.
\<close>

section \<open>Transactions leave everything but the tables alone\<close>

definition db_body :: "'a io \<Rightarrow> bool" where
  "db_body f \<longleftrightarrow> (\<forall>w r w'. f w = (r, w') \<longrightarrow> (\<exists>d. db_step w d w'))"

named_theorems db_bodies

lemma db_bodyD: "db_body f \<Longrightarrow> f w = (r, w') \<Longrightarrow> \<exists>d. db_step w d w'"
  by (simp add: db_body_def)

lemma db_body_query [db_bodies]: "db_body (sql_query q)"
  unfolding db_body_def
proof (intro allI impI)
  fix w w' and r :: "goerr + 'a"
  assume "sql_query q w = (r, w')"
  then show "\<exists>d. db_step w d w'" by (cases r) (auto dest: sql_runs)
qed

lemma db_body_exec [db_bodies]: "db_body (sql_exec s)"
  unfolding db_body_def
proof (intro allI impI)
  fix w w' and r :: "goerr + unit"
  assume "sql_exec s w = (r, w')"
  then show "\<exists>d. db_step w d w'" by (cases r) (auto dest: sql_runs)
qed

lemma db_body_return [db_bodies]: "db_body (\<lambda>w. (r, w))"
  by (auto simp: db_body_def intro: db_step_refl)

lemma db_body_case [db_bodies]:
  assumes "db_body f" and "\<And>e. db_body (A e)" and "\<And>x. db_body (B x)"
  shows "db_body (\<lambda>w. case f w of (Inl e, w1) \<Rightarrow> A e w1 | (Inr x, w1) \<Rightarrow> B x w1)"
  unfolding db_body_def
proof (intro allI impI)
  fix w r w'
  assume run: "(case f w of (Inl e, w1) \<Rightarrow> A e w1 | (Inr x, w1) \<Rightarrow> B x w1) = (r, w')"
  obtain y w1 where f: "f w = (y, w1)" by (cases "f w")
  obtain d1 where d1: "db_step w d1 w1" using db_bodyD [OF assms(1) f] by blast
  have "\<exists>d2. db_step w1 d2 w'"
  proof (cases y)
    case (Inl e)
    with run f have "A e w1 = (r, w')" by simp
    then show ?thesis by (rule db_bodyD [OF assms(2)])
  next
    case (Inr x)
    with run f have "B x w1 = (r, w')" by simp
    then show ?thesis by (rule db_bodyD [OF assms(3)])
  qed
  then obtain d2 where "db_step w1 d2 w'" by blast
  with d1 show "\<exists>d. db_step w d w'" by (blast intro: db_step_trans)
qed

lemma db_body_if [db_bodies]: "db_body f \<Longrightarrow> db_body g \<Longrightarrow> db_body (\<lambda>w. if b then f w else g w)"
  by (cases b) simp_all

lemma ensureFileHeadTx_body [db_bodies]: "db_body (ensureFileHeadTx path)"
proof -
  define A where "A \<equiv> \<lambda>mv (vm::nat) w3. (case mv of
      Inl e \<Rightarrow> (Inl e, w3)
    | Inr v \<Rightarrow> let versionMax = (if v > vm then v else vm) in
        sql_exec (\<lambda>db. Inr (if path \<in> fst ` set (t_head db) then db
                            else db\<lparr>t_head := t_head db @ [(path, versionMax)]\<rparr>)) w3)"
  have A: "db_body (A mv vm)" for mv vm
    by (cases mv) (auto simp: A_def Let_def intro: db_bodies)
  have q: "db_body (\<lambda>w2. case sql_query q w2 of (meta, w3) \<Rightarrow> A (g meta) vm w3)" for q g vm
    unfolding db_body_def
  proof (intro allI impI)
    fix w r w'
    assume run: "(case sql_query q w of (meta, w3) \<Rightarrow> A (g meta) vm w3) = (r, w')"
    obtain y w1 where f: "sql_query q w = (y, w1)" by (cases "sql_query q w")
    with run have "A (g y) vm w1 = (r, w')" by simp
    with A obtain d2 where "db_step w1 d2 w'" by (blast dest: db_bodyD)
    moreover obtain d1 where "db_step w d1 w1" using db_bodyD [OF db_body_query f] by blast
    ultimately show "\<exists>d. db_step w d w'" by (blast intro: db_step_trans)
  qed
  show ?thesis
    unfolding ensureFileHeadTx_def select_head_def [abs_def] Let_def
    by (intro db_bodies q [unfolded A_def Let_def])
qed

lemma nextVersionTx_body [db_bodies]: "db_body (nextVersionTx path)"
  unfolding nextVersionTx_def select_head_def [abs_def] by (intro db_bodies)

lemma insertSnapshotTx_body [db_bodies]: "db_body (insertSnapshotTx path rec data)"
  unfolding insertSnapshotTx_def [abs_def]
  by (cases data) (auto intro!: db_bodies)

lemma renamePathPrefixTx_body [db_bodies]: "db_body (renamePathPrefixTx t a b p k)"
  unfolding renamePathPrefixTx_def by (intro db_bodies)

lemma rename_tables_body [db_bodies]: "db_body (rename_tables ts a b p k)"
proof (induction ts)
  case Nil
  then show ?case by (simp add: db_body_def) (blast intro: db_step_refl)
next
  case (Cons t ts)
  have "rename_tables (t # ts) a b p k =
      (\<lambda>w. case renamePathPrefixTx t a b p k w of
         (Inl e, w1) \<Rightarrow> (Inl e, w1) | (Inr _, w1) \<Rightarrow> rename_tables ts a b p k w1)"
    by (rule ext) simp
  then show ?case using Cons by (simp only:) (intro db_bodies)
qed

section \<open>withWriteTx\<close>

text \<open>
  A finished call: tables \<open>d\<close>, at most \<open>t\<close> nanoseconds slept, everything else as before.
\<close>

definition tx_step :: "world \<Rightarrow> sqldb \<Rightarrow> int \<Rightarrow> world \<Rightarrow> bool" where
  "tx_step w d t w' \<longleftrightarrow>
    (\<exists>c. db_step w d (w'\<lparr>w_clock := c\<rparr>)) \<and> w_clock w \<le> w_clock w' \<and> w_clock w' \<le> w_clock w + t"

lemma tx_stepD:
  "tx_step w d t w' \<Longrightarrow> w_db w' = d \<and> w_fs w' = w_fs w \<and> w_mutations w' = w_mutations w
    \<and> w_conflicts w' = w_conflicts w \<and> w_rangeWrites w' = w_rangeWrites w \<and> w_rand w' = w_rand w
    \<and> w_suffix w' = w_suffix w \<and> w_ticks w' = w_ticks w \<and> set (w_faults w') \<subseteq> set (w_faults w)
    \<and> w_clock w \<le> w_clock w' \<and> w_clock w' \<le> w_clock w + t"
  by (auto simp: tx_step_def db_step_def)

lemma tx_stepI: "db_step w d w' \<Longrightarrow> 0 \<le> t \<Longrightarrow> tx_step w d t w'"
  unfolding tx_step_def db_step_def by auto

lemma tx_step_sleep:
  "tx_step w d0 t w1 \<Longrightarrow> tx_step (time_Sleep s w1) d u w2 \<Longrightarrow> 0 \<le> s \<Longrightarrow> tx_step w d (t + s + u) w2"
  unfolding tx_step_def db_step_def time_Sleep_def by auto

lemma db_step_sleep_db: "w_db (time_Sleep s w) = w_db w"
  by (simp add: time_Sleep_def)

text \<open>The state in which an attempt's body runs: the tables at entry, faults still to come.\<close>

definition tx_entry :: "world \<Rightarrow> world \<Rightarrow> bool" where
  "tx_entry w w1 \<longleftrightarrow> w_db w1 = w_db w \<and> set (w_faults w1) \<subseteq> set (w_faults w)"

lemma tx_attempt_Inr:
  assumes "tx_attempt fn w = (Inr x, w')" and "db_body fn"
  shows "\<exists>w1 w2. tx_entry w w1 \<and> fn w1 = (Inr x, w2) \<and> db_step w (w_db w2) w'"
proof -
  from assms(1) obtain w1 w2 where 1: "sql_query (\<lambda>_. Inr ()) w = (Inr (), w1)"
    and 2: "fn w1 = (Inr x, w2)" and 3: "sql_query (\<lambda>_. Inr ()) w2 = (Inr (), w')"
    unfolding tx_attempt_def
    by (auto split: prod.splits sum.splits simp: old.unit.exhaust)
  from sql_query_Inr [OF 1] have s1: "db_step w (w_db w) w1" by simp
  from db_bodyD [OF assms(2) 2] obtain d where s2: "db_step w1 d w2" by blast
  from sql_query_Inr [OF 3] have s3: "db_step w2 (w_db w2) w'" by simp
  have "tx_entry w w1" using s1 by (simp add: tx_entry_def db_step_def)
  with 2 db_step_trans [OF db_step_trans [OF s1 s2] s3] show ?thesis by blast
qed

lemma tx_attempt_Inl:
  assumes "tx_attempt fn w = (Inl e, w')" and "db_body fn"
  shows "db_step w (w_db w) w'"
proof -
  obtain r w1 where 1: "sql_query (\<lambda>_. Inr ()) w = (r, w1)"
    by (cases "sql_query (\<lambda>_. Inr ()) w :: (goerr + unit) \<times> world")
  have s1: "db_step w (w_db w) w1" using 1 by (cases r) (auto dest: sql_runs)
  show ?thesis
  proof (cases r)
    case (Inl a)
    with assms(1) 1 s1 show ?thesis by (simp add: tx_attempt_def)
  next
    case (Inr u)
    obtain r2 w2 where 2: "fn w1 = (r2, w2)" by (cases "fn w1")
    from db_bodyD [OF assms(2) 2] obtain d where s2: "db_step w1 d w2" by blast
    obtain r3 w3 where 3: "sql_query (\<lambda>_. Inr ()) w2 = (r3, w3)"
      by (cases "sql_query (\<lambda>_. Inr ()) w2 :: (goerr + unit) \<times> world")
    have s3: "db_step w2 (w_db w2) w3" using 3 by (cases r3) (auto dest: sql_runs)
    have e1: "w_db w1 = w_db w" using s1 by (simp add: db_step_def)
    have "w' = w2\<lparr>w_db := w_db w1\<rparr> \<or> w' = w3\<lparr>w_db := w_db w1\<rparr>"
      using assms(1) 1 2 3 Inr
      by (cases r2; cases r3) (auto simp: tx_attempt_def)
    then show ?thesis
      using db_step_rollback [OF db_step_trans [OF s1 s2]]
        db_step_rollback [OF db_step_trans [OF db_step_trans [OF s1 s2] s3]] e1 by metis
  qed
qed

text \<open>The sleeps of the attempts still to come.\<close>

definition wait_left :: "nat \<Rightarrow> nat \<Rightarrow> int" where
  "wait_left n attempt = (\<Sum>k<n. 25 * 2 ^ (attempt + k) * millisecond)"

lemma wait_left_Suc:
  "wait_left (Suc n) attempt = 25 * 2 ^ attempt * millisecond + wait_left n (attempt + 1)"
  unfolding wait_left_def by (subst sum.lessThan_Suc_shift) simp

lemma wait_left_nonneg: "0 \<le> wait_left n a"
  unfolding wait_left_def by (rule sum_nonneg) simp

lemma withWriteTx_loop_cases:
  assumes "withWriteTx_loop (Suc n) a e0 fn w = (r, w')" and "db_body fn" and "a + n = 4"
  shows "case r of
      Inl e \<Rightarrow> tx_step w (w_db w) (wait_left n a) w'
    | Inr x \<Rightarrow> \<exists>w1 w2. tx_entry w w1 \<and> fn w1 = (Inr x, w2) \<and> tx_step w (w_db w2) (wait_left n a) w'"
  using assms(1,3)
proof (induction n arbitrary: a e0 w)
  case 0
  then show ?case
    using assms(2) wait_left_nonneg [of 0 a]
    by (auto split: prod.splits sum.splits if_splits dest!: tx_attempt_Inr tx_attempt_Inl
        intro: tx_stepI simp: wait_left_def)
next
  case (Suc n)
  obtain r1 w1 where 1: "tx_attempt fn w = (r1, w1)" by (cases "tx_attempt fn w")
  show ?case
  proof (cases r1)
    case (Inr x)
    from tx_attempt_Inr [OF 1 [unfolded Inr] assms(2)] obtain v1 v2
      where "tx_entry w v1" "fn v1 = (Inr x, v2)" "db_step w (w_db v2) w1" by blast
    moreover have "r = Inr x" "w' = w1" using Suc.prems 1 Inr by auto
    ultimately show ?thesis by (auto intro: tx_stepI wait_left_nonneg)
  next
    case (Inl e)
    from tx_attempt_Inl [OF 1 [unfolded Inl] assms(2)] have s: "db_step w (w_db w) w1" .
    show ?thesis
    proof (cases "isSQLiteBusy e")
      case False
      with Suc.prems 1 Inl s show ?thesis by (auto intro!: tx_stepI wait_left_nonneg)
    next
      case True
      define w2 where "w2 = time_Sleep (25 * 2 ^ a * millisecond) w1"
      have run: "withWriteTx_loop (Suc n) (a + 1) e fn w2 = (r, w')"
        using Suc.prems 1 Inl True by (simp add: w2_def)
      have db2: "w_db w2 = w_db w" using s by (simp add: w2_def time_Sleep_def db_step_def)
      have ent: "tx_entry w x" if "tx_entry w2 x" for x
        using that s by (auto simp: tx_entry_def w2_def time_Sleep_def db_step_def)
      have st: "tx_step w d (wait_left (Suc n) a) w'" if "tx_step w2 d (wait_left n (a + 1)) w'" for d
        using tx_step_sleep [OF tx_stepI [OF s order_refl], of _ d] that
        unfolding w2_def wait_left_Suc by force
      have step: "case r of
          Inl e \<Rightarrow> tx_step w2 (w_db w2) (wait_left n (a + 1)) w'
        | Inr x \<Rightarrow> \<exists>v1 v2. tx_entry w2 v1 \<and> fn v1 = (Inr x, v2)
            \<and> tx_step w2 (w_db v2) (wait_left n (a + 1)) w'"
        using Suc.IH [OF run] Suc.prems(2) by simp
      show ?thesis
      proof (cases r)
        case (Inl e')
        with step st db2 show ?thesis by simp
      next
        case (Inr x)
        with step obtain v1 v2 where "tx_entry w2 v1" "fn v1 = (Inr x, v2)"
          "tx_step w2 (w_db v2) (wait_left n (a + 1)) w'" by auto
        with ent st have "tx_entry w v1 \<and> fn v1 = (Inr x, v2) \<and> tx_step w (w_db v2) (wait_left (Suc n) a) w'"
          by blast
        with Inr show ?thesis by auto
      qed
    qed
  qed
qed

lemma withWriteTx_run:
  assumes "withWriteTx fn w = (r, w')" and "db_body fn"
  shows "case r of
      Inl e \<Rightarrow> tx_step w (w_db w) (375 * millisecond) w'
    | Inr x \<Rightarrow> \<exists>w1 w2. tx_entry w w1 \<and> fn w1 = (Inr x, w2) \<and> tx_step w (w_db w2) (375 * millisecond) w'"
proof -
  have n: "maxAttempts = Suc 4" by simp
  have e: "wait_left 4 0 = 375 * millisecond" by (simp add: wait_left_def eval_nat_numeral)
  show ?thesis
    using withWriteTx_loop_cases [OF assms(1) [unfolded withWriteTx_def n] assms(2)] e
    by (cases r) auto
qed

text \<open>A body that runs through when nothing fails makes the transaction succeed at once.\<close>

lemma withWriteTx_nofault:
  assumes "w_faults w = []" and "fn w = (Inr x, w')" and "w_faults w' = []"
  shows "withWriteTx fn w = (Inr x, w')"
proof -
  have n: "maxAttempts = Suc 4" by simp
  show ?thesis
    unfolding withWriteTx_def n withWriteTx_loop.simps
    by (simp add: tx_attempt_def sql_query_nofault assms)
qed

text \<open>A busy database at \<open>Begin\<close>: the attempt is repeated after a sleep.\<close>

lemma withWriteTx_loop_busy:
  assumes "isSQLiteBusy e" and "a + n = 4" and "k \<le> n"
    and "w_faults w = replicate k (Some e)"
    and "\<And>u. w_faults u = [] \<Longrightarrow> w_db u = w_db w \<Longrightarrow> fn u = (Inr x, u\<lparr>w_db := d\<rparr>)"
  shows "withWriteTx_loop (Suc n) a e0 fn w =
    (Inr x, w\<lparr>w_faults := [], w_clock := w_clock w + wait_left k a, w_db := d\<rparr>)"
  using assms(2-)
proof (induction k arbitrary: n a e0 w)
  case 0
  then have f: "fn w = (Inr x, w\<lparr>w_db := d\<rparr>)" by simp
  have "w\<lparr>w_faults := [], w_clock := w_clock w + wait_left 0 a, w_db := d\<rparr> = w\<lparr>w_db := d\<rparr>"
    using 0(3) by (cases w) (simp add: wait_left_def)
  with f 0(3) show ?case by (simp add: tx_attempt_def sql_query_nofault)
next
  case (Suc k)
  then obtain m where n: "n = Suc m" by (cases n) auto
  define w2 where "w2 = time_Sleep (25 * 2 ^ a * millisecond) (w\<lparr>w_faults := replicate k (Some e)\<rparr>)"
  have "withWriteTx_loop (Suc m) (a + 1) e fn w2 =
    (Inr x, w2\<lparr>w_faults := [], w_clock := w_clock w2 + wait_left k (a + 1), w_db := d\<rparr>)"
    using Suc.prems n by (intro Suc.IH) (auto simp: w2_def time_Sleep_def)
  moreover have "w2\<lparr>w_faults := [], w_clock := w_clock w2 + wait_left k (a + 1), w_db := d\<rparr>
      = w\<lparr>w_faults := [], w_clock := w_clock w + wait_left (Suc k) a, w_db := d\<rparr>"
    by (cases w) (simp add: w2_def time_Sleep_def wait_left_Suc)
  moreover have "tx_attempt fn w = (Inl e, w\<lparr>w_faults := replicate k (Some e)\<rparr>)"
    using Suc.prems(3) by (simp add: tx_attempt_def sql_query_def with_fault_def)
  ultimately show ?case
    using n Suc.prems(1) assms(1) by (simp add: w2_def del: replicate.simps)
qed

lemma withWriteTx_busy:
  assumes "isSQLiteBusy e" and "k < 5" and "w_faults w = replicate k (Some e)"
    and "\<And>u. w_faults u = [] \<Longrightarrow> w_db u = w_db w \<Longrightarrow> fn u = (Inr x, u\<lparr>w_db := d\<rparr>)"
  shows "withWriteTx fn w =
    (Inr x, w\<lparr>w_faults := [], w_clock := w_clock w + wait_left k 0, w_db := d\<rparr>)"
proof -
  have n: "maxAttempts = Suc 4" by simp
  show ?thesis
    unfolding withWriteTx_def n using withWriteTx_loop_busy [OF assms(1), of 0 4 k w fn x d] assms(2-)
    by simp
qed

section \<open>Abstract effects\<close>

text \<open>The newest version number of a path: its head row, or what the tables hold without one.\<close>

definition current_head :: "sqldb \<Rightarrow> string \<Rightarrow> nat" where
  "current_head db path =
    (case row_find fst path (t_head db) of
       Some r \<Rightarrow> snd r
     | None \<Rightarrow> max (max_version db path)
         (case row_find m_Path path (t_meta db) of None \<Rightarrow> 0 | Some m \<Rightarrow> m_Version m))"

definition set_head :: "string \<Rightarrow> nat \<Rightarrow> sqldb \<Rightarrow> sqldb" where
  "set_head path n db = db\<lparr>t_head := row_upsert fst (path, n) (t_head db)\<rparr>"

definition add_version :: "string \<Rightarrow> version_record \<Rightarrow> bytes option \<Rightarrow> sqldb \<Rightarrow> sqldb" where
  "add_version path rec data db = db\<lparr>t_version := t_version db @ [(path, rec)],
     t_blob := (case data of None \<Rightarrow> t_blob db | Some d \<Rightarrow> t_blob db @ [((path, v_Version rec), d)])\<rparr>"

definition saved_record :: "meta \<Rightarrow> nat \<Rightarrow> string \<Rightarrow> string \<Rightarrow> version_record" where
  "saved_record m v clientID ct =
    \<lparr>v_Version = v, v_MtimeUnix = m_MtimeUnix m, v_Hash = m_Hash m, v_Size = m_Size m,
     v_ClientID = clientID, v_ChangeType = ct\<rparr>"

definition save_effect :: "meta \<Rightarrow> string \<Rightarrow> string \<Rightarrow> bytes option \<Rightarrow> sqldb \<Rightarrow> sqldb" where
  "save_effect m clientID ct data db =
    (let v = current_head db (m_Path m) + 1; db1 = set_head (m_Path m) v db in
     add_version (m_Path m) (saved_record m v clientID ct) data
       (db1\<lparr>t_meta := row_upsert m_Path (m\<lparr>m_Version := v\<rparr>) (t_meta db)\<rparr>))"

definition delete_effect :: "string \<Rightarrow> int \<Rightarrow> int \<Rightarrow> string \<Rightarrow> sqldb \<Rightarrow> sqldb" where
  "delete_effect path sz mtimeUnix clientID db =
    (let v = current_head db path + 1; db1 = set_head path v db in
     add_version path \<lparr>v_Version = v, v_MtimeUnix = mtimeUnix, v_Hash = [], v_Size = sz,
       v_ClientID = clientID, v_ChangeType = ''delete''\<rparr> None
       (db1\<lparr>t_meta := row_delete m_Path path (t_meta db)\<rparr>))"

text \<open>
  The invariant of the tables: their keys are unique, stored contents belong to stored
  versions, and no version of a path is newer than its head row.
\<close>

definition db_inv :: "sqldb \<Rightarrow> bool" where
  "db_inv db \<longleftrightarrow> distinct (map m_Path (t_meta db)) \<and> distinct (map fst (t_head db))
    \<and> distinct (map ver_key (t_version db)) \<and> distinct (map fst (t_blob db))
    \<and> fst ` set (t_blob db) \<subseteq> ver_key ` set (t_version db)
    \<and> (\<forall>r\<in>set (t_version db). v_Version (snd r) \<le> current_head db (fst r))"

text \<open>
  I/O faults carry no \<open>sql.ErrNoRows\<close> and do not claim that the table \<open>meta\<close> is missing:
  the code reads these two as answers.
\<close>

definition genuine_faults :: "world \<Rightarrow> bool" where
  "genuine_faults w \<longleftrightarrow> (\<forall>f\<in>set (w_faults w). \<forall>e. f = Some e \<longrightarrow> \<not> errors_Is e ErrNoRows
     \<and> \<not> strings_Contains (strings_ToLower (err_Error e)) ''no such table: meta'')"

lemma genuine_faultsD:
  "genuine_faults w \<Longrightarrow> fault_in e w \<Longrightarrow> \<not> errors_Is e ErrNoRows
     \<and> \<not> strings_Contains (strings_ToLower (err_Error e)) ''no such table: meta''"
  by (auto simp: genuine_faults_def fault_in_def)

lemma genuine_faults_mono:
  "genuine_faults w \<Longrightarrow> set (w_faults w') \<subseteq> set (w_faults w) \<Longrightarrow> genuine_faults w'"
  by (auto simp: genuine_faults_def)

lemma genuine_faults_step: "genuine_faults w \<Longrightarrow> db_step w d w' \<Longrightarrow> genuine_faults w'"
  by (erule genuine_faults_mono) (simp add: db_step_def)

lemma genuine_faults_nil: "w_faults w = [] \<Longrightarrow> genuine_faults w"
  by (simp add: genuine_faults_def)

definition ensured :: "sqldb \<Rightarrow> string \<Rightarrow> sqldb" where
  "ensured db path = (if path \<in> fst ` set (t_head db) then db
     else db\<lparr>t_head := t_head db @ [(path, current_head db path)]\<rparr>)"

lemma select_head_Inr:
  assumes "select_head path w = (Inr n, w')"
  shows "row_find fst path (t_head (w_db w)) = Some (path, n) \<and> db_step w (w_db w) w'"
  using sql_query_Inr [OF assms [unfolded select_head_def]]
  by (auto split: option.splits dest: row_find_SomeD)

lemma select_head_Inl:
  assumes "select_head path w = (Inl e, w')"
  shows "(e = Sentinel ErrNoRows \<and> path \<notin> fst ` set (t_head (w_db w)) \<or> fault_in e w)
     \<and> db_step w (w_db w) w'"
  using sql_query_Inl [OF assms [unfolded select_head_def]]
  by (auto split: option.splits simp: row_find_None [symmetric])

lemma ensureFileHeadTx_Inr:
  assumes "ensureFileHeadTx path w = (Inr u, w')" and "genuine_faults w"
  shows "db_step w (ensured (w_db w) path) w'"
proof -
  obtain r1 w1 where 1: "select_head path w = (r1, w1)" by (cases "select_head path w")
  show ?thesis
  proof (cases r1)
    case (Inr n)
    with 1 assms(1) have "w' = w1" by (simp add: ensureFileHeadTx_def)
    moreover have "path \<in> fst ` set (t_head (w_db w))"
      using select_head_Inr [OF 1 [unfolded Inr]] by (force dest: row_find_SomeD)
    ultimately show ?thesis using select_head_Inr [OF 1 [unfolded Inr]] by (simp add: ensured_def)
  next
    case (Inl e)
    from select_head_Inl [OF 1 [unfolded Inl]] have s1: "db_step w (w_db w) w1" by simp
    have nr: "errors_Is e ErrNoRows" using assms(1) 1 Inl by (auto simp: ensureFileHeadTx_def split: if_splits)
    with select_head_Inl [OF 1 [unfolded Inl]] assms(2)
    have new: "path \<notin> fst ` set (t_head (w_db w))" by (auto dest: genuine_faultsD)
    have db1: "w_db w1 = w_db w" using s1 by (simp add: db_step_def)
    obtain r2 w2 where 2: "sql_query (\<lambda>db. Inr (max_version db path)) w1 = (r2, w2)"
      by (cases "sql_query (\<lambda>db. Inr (max_version db path)) w1 :: (goerr + nat) \<times> world")
    from assms(1) 1 2 Inl nr obtain vm where vm: "r2 = Inr vm"
      by (cases r2) (auto simp: ensureFileHeadTx_def)
    from sql_query_Inr [OF 2 [unfolded vm]] db1 have vm': "vm = max_version (w_db w) path"
      and s2: "db_step w1 (w_db w1) w2" by auto
    define ins where "ins v = sql_exec (\<lambda>db. Inr (if path \<in> fst ` set (t_head db) then db
          else db\<lparr>t_head := t_head db @ [(path, if v > vm then v else vm)]\<rparr>)) " for v
    define q where "q = (\<lambda>db :: sqldb. case row_find m_Path path (t_meta db) of
        None \<Rightarrow> Inl (Sentinel ErrNoRows) | Some m \<Rightarrow> Inr (m_Version m))"
    obtain r3 w3 where 3: "sql_query q w2 = (r3, w3)" by (cases "sql_query q w2")
    have s3: "db_step w2 (w_db w2) w3" using 3 by (cases r3) (auto dest: sql_runs)
    have db2: "w_db w2 = w_db w" using s2 db1 by (simp add: db_step_def)
    have g2: "genuine_faults w2" using assms(2) s1 s2 by (blast intro: genuine_faults_step)
    have run: "(case (case r3 of Inr v \<Rightarrow> Inr v
          | Inl e \<Rightarrow> if errors_Is e ErrNoRows then Inr 0
              else if strings_Contains (strings_ToLower (err_Error e)) ''no such table: meta''
              then Inr 0 else Inl e) of
        Inl e \<Rightarrow> (Inl e, w3)
      | Inr v \<Rightarrow> ins v w3) = (Inr u, w')"
      using assms(1) 1 2 3 [unfolded q_def] Inl nr vm
      by (simp add: ensureFileHeadTx_def ins_def Let_def cong del: sum.case_cong_weak)
    have "\<exists>v. v = (case row_find m_Path path (t_meta (w_db w)) of None \<Rightarrow> 0 | Some m \<Rightarrow> m_Version m)
      \<and> ins v w3 = (Inr u, w')"
    proof (cases r3)
      case (Inl e3)
      with sql_query_Inl [OF 3 [unfolded Inl]] run db2 genuine_faultsD [OF g2, of e3] show ?thesis
        by (auto simp: q_def split: if_splits option.splits)
    next
      case (Inr v)
      with sql_query_Inr [OF 3 [unfolded Inr]] run db2 show ?thesis
        by (auto simp: q_def split: option.splits)
    qed
    then obtain v where v: "v = (case row_find m_Path path (t_meta (w_db w)) of None \<Rightarrow> 0 | Some m \<Rightarrow> m_Version m)"
      and ex: "ins v w3 = (Inr u, w')" by blast
    have db3: "w_db w3 = w_db w" using s3 db2 by (simp add: db_step_def)
    have "row_find fst path (t_head (w_db w)) = None" using new by (simp add: row_find_None)
    then have "current_head (w_db w) path = (if v > vm then v else vm)"
      by (simp add: current_head_def v vm' max_def)
    with sql_exec_Inr [OF ex [unfolded ins_def]] new db3 have "db_step w3 (ensured (w_db w) path) w'"
      by (auto simp: ensured_def)
    then show ?thesis by (rule db_step_trans [OF db_step_trans [OF db_step_trans [OF s1 s2] s3]])
  qed
qed

lemma head_bump:
  assumes "distinct (map fst (t_head db))"
  shows "map (\<lambda>(p, n). (p, if p = path then n + 1 else n)) (t_head (ensured db path))
    = row_upsert fst (path, current_head db path + 1) (t_head db)"
proof (cases "path \<in> fst ` set (t_head db)")
  case True
  then obtain n where n: "(path, n) \<in> set (t_head db)" by force
  with assms have f: "row_find fst path (t_head db) = Some (path, n)"
    by (subst row_find_Some) auto
  have "map (\<lambda>(p, k). (p, if p = path then k + 1 else k)) (t_head db)
      = map (\<lambda>x. if fst x = path then (path, n + 1) else x) (t_head db)"
    by (rule map_cong) (use n assms in \<open>auto dest: eq_key_imp_eq_value\<close>)
  with True f show ?thesis
    by (simp add: ensured_def row_upsert_def current_head_def)
next
  case False
  then have "map (\<lambda>(p, n). (p, if p = path then n + 1 else n)) (t_head db) = t_head db"
    by (intro map_idI) (auto simp: rev_image_eqI)
  with False show ?thesis by (simp add: ensured_def row_upsert_def)
qed

lemma nextVersionTx_Inr:
  assumes "nextVersionTx path w = (Inr v, w')" and "genuine_faults w"
    and "distinct (map fst (t_head (w_db w)))"
  shows "v = current_head (w_db w) path + 1 \<and> db_step w (set_head path v (w_db w)) w'"
proof -
  let ?up = "\<lambda>db. Inr (db\<lparr>t_head := map (\<lambda>(p, n). (p, if p = path then n + 1 else n)) (t_head db)\<rparr>)"
  obtain r1 w1 where 1: "ensureFileHeadTx path w = (r1, w1)" by (cases "ensureFileHeadTx path w")
  with assms(1) obtain u1 where r1: "r1 = Inr u1" by (cases r1) (auto simp: nextVersionTx_def)
  from ensureFileHeadTx_Inr [OF 1 [unfolded r1] assms(2)]
  have s1: "db_step w (ensured (w_db w) path) w1" .
  obtain r2 w2 where 2: "sql_exec ?up w1 = (r2, w2)" by (cases "sql_exec ?up w1")
  with assms(1) 1 r1 obtain u2 where r2: "r2 = Inr u2"
    by (cases r2) (auto simp: nextVersionTx_def)
  have "w_db w1 = ensured (w_db w) path" using s1 by (simp add: db_step_def)
  moreover have "ensured (w_db w) path\<lparr>t_head := x\<rparr> = w_db w\<lparr>t_head := x\<rparr>" for x
    by (simp add: ensured_def)
  ultimately have s2: "db_step w1 (set_head path (current_head (w_db w) path + 1) (w_db w)) w2"
    using sql_exec_Inr [OF 2 [unfolded r2]] head_bump [OF assms(3), of path]
    by (auto simp: set_head_def)
  have 3: "select_head path w2 = (Inr v, w')" using assms(1) 1 2 r1 r2 by (simp add: nextVersionTx_def)
  have db2: "w_db w2 = set_head path (current_head (w_db w) path + 1) (w_db w)"
    using s2 by (simp add: db_step_def)
  from select_head_Inr [OF 3] db2 have "v = current_head (w_db w) path + 1"
    by (simp add: set_head_def row_find_upsert)
  with select_head_Inr [OF 3] db2 db_step_trans [OF db_step_trans [OF s1 s2]] show ?thesis by auto
qed

lemma insertSnapshotTx_Inr:
  assumes "insertSnapshotTx path rec data w = (Inr u, w')"
  shows "db_step w (add_version path rec data (w_db w)) w'"
proof -
  let ?iv = "\<lambda>db. map_sum id (\<lambda>rs. db\<lparr>t_version := rs\<rparr>)
      (row_insert ''version.path, version.version'' ver_key (path, rec) (t_version db))"
  obtain r1 w1 where 1: "sql_exec ?iv w = (r1, w1)" by (cases "sql_exec ?iv w")
  with assms obtain u1 where r1: "r1 = Inr u1" by (cases r1) (auto simp: insertSnapshotTx_def)
  from sql_exec_Inr [OF 1 [unfolded r1]]
  have s1: "db_step w (w_db w\<lparr>t_version := t_version (w_db w) @ [(path, rec)]\<rparr>) w1"
    by (auto simp: row_insert_def split: if_splits)
  show ?thesis
  proof (cases data)
    case None
    with assms 1 r1 s1 show ?thesis by (simp add: insertSnapshotTx_def add_version_def)
  next
    case (Some d)
    have db1: "w_db w1 = w_db w\<lparr>t_version := t_version (w_db w) @ [(path, rec)]\<rparr>"
      using s1 by (simp add: db_step_def)
    from assms 1 r1 Some have "sql_exec (\<lambda>db. map_sum id (\<lambda>rs. db\<lparr>t_blob := rs\<rparr>)
        (row_insert ''version_blob.path, version_blob.version'' fst
           ((path, v_Version rec), d) (t_blob db))) w1 = (Inr u, w')"
      by (simp add: insertSnapshotTx_def)
    from sql_exec_Inr [OF this] db1
    have "db_step w1 (add_version path rec data (w_db w)) w'"
      by (auto simp: row_insert_def add_version_def Some split: if_splits)
    with s1 show ?thesis by (rule db_step_trans)
  qed
qed

definition save_body :: "meta \<Rightarrow> string \<Rightarrow> string \<Rightarrow> bytes option \<Rightarrow> nat io" where
  "save_body m clientID ct data w =
    (case nextVersionTx (m_Path m) w of
       (Inl e, w1) \<Rightarrow> (Inl e, w1)
     | (Inr version, w1) \<Rightarrow>
       (case upsertMetaTx (m\<lparr>m_Version := version\<rparr>) w1 of
          (Inl e, w2) \<Rightarrow> (Inl e, w2)
        | (Inr _, w2) \<Rightarrow>
          (case insertSnapshotTx (m_Path m) (saved_record m version clientID ct) data w2 of
             (Inl e, w3) \<Rightarrow> (Inl e, w3)
           | (Inr _, w3) \<Rightarrow> (Inr version, w3))))"

lemma SaveFileSnapshot_tx: "SaveFileSnapshot m c ct data = withWriteTx (save_body m c ct data)"
  unfolding SaveFileSnapshot_def save_body_def [abs_def] saved_record_def Let_def ..

definition delete_body :: "string \<Rightarrow> int \<Rightarrow> int \<Rightarrow> string \<Rightarrow> nat io" where
  "delete_body path sz mt clientID w =
    (case nextVersionTx path w of
       (Inl e, w1) \<Rightarrow> (Inl e, w1)
     | (Inr version, w1) \<Rightarrow>
       (case deleteMetaTx path w1 of
          (Inl e, w2) \<Rightarrow> (Inl e, w2)
        | (Inr _, w2) \<Rightarrow>
          (case insertSnapshotTx path
                  \<lparr>v_Version = version, v_MtimeUnix = mt, v_Hash = [], v_Size = sz,
                   v_ClientID = clientID, v_ChangeType = ''delete''\<rparr> None w2 of
             (Inl e, w3) \<Rightarrow> (Inl e, w3)
           | (Inr _, w3) \<Rightarrow> (Inr version, w3))))"

lemma AppendDeleteSnapshot_tx: "AppendDeleteSnapshot p sz mt c = withWriteTx (delete_body p sz mt c)"
  unfolding AppendDeleteSnapshot_def delete_body_def [abs_def] ..

lemma save_body_body: "db_body (save_body m c ct data)"
  unfolding save_body_def [abs_def] upsertMetaTx_def by (intro db_bodies)

lemma delete_body_body: "db_body (delete_body p sz mt c)"
  unfolding delete_body_def [abs_def] deleteMetaTx_def by (intro db_bodies)

lemma save_body_Inr:
  assumes "save_body m c ct data w = (Inr v, w')" and "genuine_faults w"
    and "distinct (map fst (t_head (w_db w)))"
  shows "v = current_head (w_db w) (m_Path m) + 1 \<and> w_db w' = save_effect m c ct data (w_db w)"
proof -
  from assms(1) obtain w1 w2 u2 u3 where 1: "nextVersionTx (m_Path m) w = (Inr v, w1)"
    and 2: "upsertMetaTx (m\<lparr>m_Version := v\<rparr>) w1 = (Inr u2, w2)"
    and 3: "insertSnapshotTx (m_Path m) (saved_record m v c ct) data w2 = (Inr u3, w')"
    by (auto simp: save_body_def split: prod.splits sum.splits)
  from nextVersionTx_Inr [OF 1 assms(2,3)] have v: "v = current_head (w_db w) (m_Path m) + 1"
    and d1: "w_db w1 = set_head (m_Path m) v (w_db w)" by (auto simp: db_step_def)
  from sql_exec_Inr [OF 2 [unfolded upsertMetaTx_def]] d1
  have d2: "w_db w2 = set_head (m_Path m) v (w_db w)
      \<lparr>t_meta := row_upsert m_Path (m\<lparr>m_Version := v\<rparr>) (t_meta (w_db w))\<rparr>"
    by (auto simp: db_step_def set_head_def)
  from insertSnapshotTx_Inr [OF 3] d2 v show ?thesis
    by (auto simp: db_step_def save_effect_def Let_def)
qed

lemma delete_body_Inr:
  assumes "delete_body p sz mt c w = (Inr v, w')" and "genuine_faults w"
    and "distinct (map fst (t_head (w_db w)))"
  shows "v = current_head (w_db w) p + 1 \<and> w_db w' = delete_effect p sz mt c (w_db w)"
proof -
  from assms(1) obtain w1 w2 u2 u3 where 1: "nextVersionTx p w = (Inr v, w1)"
    and 2: "deleteMetaTx p w1 = (Inr u2, w2)"
    and 3: "insertSnapshotTx p \<lparr>v_Version = v, v_MtimeUnix = mt, v_Hash = [], v_Size = sz,
                   v_ClientID = c, v_ChangeType = ''delete''\<rparr> None w2 = (Inr u3, w')"
    by (auto simp: delete_body_def split: prod.splits sum.splits)
  from nextVersionTx_Inr [OF 1 assms(2,3)] have v: "v = current_head (w_db w) p + 1"
    and d1: "w_db w1 = set_head p v (w_db w)" by (auto simp: db_step_def)
  from sql_exec_Inr [OF 2 [unfolded deleteMetaTx_def]] d1
  have d2: "w_db w2 = set_head p v (w_db w)\<lparr>t_meta := row_delete m_Path p (t_meta (w_db w))\<rparr>"
    by (auto simp: db_step_def set_head_def)
  from insertSnapshotTx_Inr [OF 3] d2 v show ?thesis
    by (auto simp: db_step_def delete_effect_def Let_def)
qed

lemma tx_entry_genuine: "tx_entry w w1 \<Longrightarrow> genuine_faults w \<Longrightarrow> genuine_faults w1"
  by (auto simp: tx_entry_def intro: genuine_faults_mono)

text \<open>The outcome of a transaction that runs a body with a known effect.\<close>

definition tx_outcome :: "'a result \<times> world \<Rightarrow> world \<Rightarrow> 'a \<Rightarrow> sqldb \<Rightarrow> bool" where
  "tx_outcome out w v d \<longleftrightarrow>
    (case fst out of
       Inl e \<Rightarrow> tx_step w (w_db w) (375 * millisecond) (snd out)
     | Inr x \<Rightarrow> x = v \<and> tx_step w d (375 * millisecond) (snd out))"

lemma withWriteTx_outcome:
  assumes "db_body fn"
    and "\<And>w1 x w2. tx_entry w w1 \<Longrightarrow> fn w1 = (Inr x, w2) \<Longrightarrow> x = v \<and> w_db w2 = d"
  shows "tx_outcome (withWriteTx fn w) w v d"
proof -
  obtain r w' where run: "withWriteTx fn w = (r, w')" by (cases "withWriteTx fn w")
  from withWriteTx_run [OF run assms(1)] assms(2) show ?thesis
    by (cases r) (auto simp: tx_outcome_def run)
qed

lemma SaveFileSnapshot_outcome:
  assumes "genuine_faults w" and "distinct (map fst (t_head (w_db w)))"
  shows "tx_outcome (SaveFileSnapshot m c ct data w) w
    (current_head (w_db w) (m_Path m) + 1) (save_effect m c ct data (w_db w))"
  unfolding SaveFileSnapshot_tx
proof (rule withWriteTx_outcome [OF save_body_body])
  fix w1 x w2
  assume e: "tx_entry w w1" and run: "save_body m c ct data w1 = (Inr x, w2)"
  from e have "w_db w1 = w_db w" by (simp add: tx_entry_def)
  with save_body_Inr [OF run tx_entry_genuine [OF e assms(1)]] assms(2)
  show "x = current_head (w_db w) (m_Path m) + 1 \<and> w_db w2 = save_effect m c ct data (w_db w)"
    by simp
qed

lemma AppendDeleteSnapshot_outcome:
  assumes "genuine_faults w" and "distinct (map fst (t_head (w_db w)))"
  shows "tx_outcome (AppendDeleteSnapshot p sz mt c w) w
    (current_head (w_db w) p + 1) (delete_effect p sz mt c (w_db w))"
  unfolding AppendDeleteSnapshot_tx
proof (rule withWriteTx_outcome [OF delete_body_body])
  fix w1 x w2
  assume e: "tx_entry w w1" and run: "delete_body p sz mt c w1 = (Inr x, w2)"
  from e have "w_db w1 = w_db w" by (simp add: tx_entry_def)
  with delete_body_Inr [OF run tx_entry_genuine [OF e assms(1)]] assms(2)
  show "x = current_head (w_db w) p + 1 \<and> w_db w2 = delete_effect p sz mt c (w_db w)"
    by simp
qed

section \<open>The invariant\<close>

lemma max_version_ge: "(p, r) \<in> set (t_version db) \<Longrightarrow> v_Version r \<le> max_version db p"
proof -
  have "v \<in> set vs \<Longrightarrow> v \<le> foldr max vs (0::nat)" for v vs by (induction vs) auto
  moreover assume "(p, r) \<in> set (t_version db)"
  then have "v_Version r \<in> set (map v_Version (versions_of db p))"
    by (force simp: versions_of_def)
  ultimately show ?thesis by (simp add: max_version_def)
qed

lemma current_head_noheads: "path \<notin> fst ` set (t_head db) \<Longrightarrow> max_version db path \<le> current_head db path"
  by (simp add: current_head_def row_find_None [symmetric])

lemma current_head_set_head:
  "current_head (db\<lparr>t_head := row_upsert fst (path, n) (t_head db), t_meta := ms\<rparr>) q =
    (if q = path then n else current_head (db\<lparr>t_meta := ms\<rparr>) q)"
  by (simp add: current_head_def row_find_upsert max_version_def versions_of_def split: option.splits)

text \<open>A new version above the head keeps the keys unique.\<close>

lemma db_inv_add:
  assumes inv: "db_inv db" and new: "current_head db path < v_Version rec"
    and h: "t_head db' = row_upsert fst (path, v_Version rec) (t_head db)"
    and v: "t_version db' = t_version db" and b: "t_blob db' = t_blob db"
    and m: "distinct (map m_Path (t_meta db'))"
  shows "db_inv (add_version path rec data db')"
proof -
  have fresh: "(path, v_Version rec) \<notin> ver_key ` set (t_version db)"
    using inv new by (auto simp: db_inv_def ver_key_def)
  have heads: "v_Version (snd r) \<le> current_head (add_version path rec data db') (fst r)"
    if r: "r \<in> set (t_version db)" for r
  proof (cases "row_find fst (fst r) (t_head db)")
    case None
    have "r \<in> set (t_version (add_version path rec data db'))"
      using r by (simp add: add_version_def v)
    then have "v_Version (snd r) \<le> max_version (add_version path rec data db') (fst r)"
      using max_version_ge [of "fst r" "snd r"] by simp
    moreover have "v_Version (snd r) \<le> current_head db (fst r)" using inv r by (auto simp: db_inv_def)
    ultimately show ?thesis using None new
      by (auto simp: current_head_def add_version_def h row_find_upsert)
  next
    case (Some x)
    have "v_Version (snd r) \<le> current_head db (fst r)" using inv r by (auto simp: db_inv_def)
    with Some new show ?thesis
      by (auto simp: current_head_def add_version_def h row_find_upsert)
  qed
  have hp: "current_head (add_version path rec data db') path = v_Version rec"
    by (simp add: current_head_def add_version_def h row_find_upsert)
  have hd: "distinct (map fst (t_head (add_version path rec data db')))"
    using inv by (simp add: add_version_def h db_inv_def row_upsert_keys)
  have vd: "distinct (map ver_key (t_version (add_version path rec data db')))"
    using inv fresh by (auto simp: add_version_def v db_inv_def ver_key_def)
  have bd: "distinct (map fst (t_blob (add_version path rec data db')))"
    using inv fresh by (auto simp: add_version_def b db_inv_def split: option.splits)
  have bs: "fst ` set (t_blob (add_version path rec data db'))
      \<subseteq> ver_key ` set (t_version (add_version path rec data db'))"
    using inv by (auto simp: add_version_def b v db_inv_def ver_key_def split: option.splits)
  have "t_meta (add_version path rec data db') = t_meta db'" by (simp add: add_version_def)
  moreover have "\<forall>r\<in>set (t_version (add_version path rec data db')).
      v_Version (snd r) \<le> current_head (add_version path rec data db') (fst r)"
    using heads hp by (auto simp: add_version_def v)
  ultimately show ?thesis using m hd vd bd bs by (simp add: db_inv_def)
qed

lemma db_inv_save: "db_inv db \<Longrightarrow> db_inv (save_effect m c ct data db)"
  unfolding save_effect_def Let_def
  by (rule db_inv_add) (auto simp: set_head_def saved_record_def db_inv_def row_upsert_keys)

lemma db_inv_delete: "db_inv db \<Longrightarrow> db_inv (delete_effect p sz mt c db)"
  unfolding delete_effect_def Let_def
  by (rule db_inv_add) (auto simp: set_head_def db_inv_def row_delete_keys)

lemma db_inv_meta:
  assumes "db_inv db" and "distinct (map m_Path ms)"
  shows "db_inv (db\<lparr>t_meta := ms\<rparr>)"
proof -
  have "v_Version (snd r) \<le> current_head (db\<lparr>t_meta := ms\<rparr>) (fst r)" if r: "r \<in> set (t_version db)" for r
    using assms(1) r max_version_ge [of "fst r" "snd r" db]
    by (auto simp: db_inv_def current_head_def max_version_def versions_of_def
        split: option.splits)
  with assms show ?thesis by (auto simp: db_inv_def)
qed

end
