(* ===== verification/VersionRename.thy ===== *)
theory VersionRename
  imports VersionLaws
begin

text \<open>
  \<open>RenamePathTree\<close>: what the escaped \<open>LIKE\<close> pattern selects, the effect of a rename that
  meets no row at the new path, and its refusal when it meets one.
\<close>

section \<open>The pattern\<close>

lemma lower_char_special:
  "lower_char c = lower_char d \<Longrightarrow> d \<in> {backslash, CHR ''%'', CHR ''_'', CHR ''/''} \<Longrightarrow> c = d"
proof -
  assume e: "lower_char c = lower_char d" and d: "d \<in> {backslash, CHR ''%'', CHR ''_'', CHR ''/''}"
  have d': "lower_char d = d" using d by (auto simp: lower_char_def)
  show "c = d"
  proof (cases "65 \<le> (of_char c :: nat) \<and> of_char c \<le> (90 :: nat)")
    case True
    then have "(of_char (lower_char c) :: nat) = of_char c + 32" by (simp add: lower_char_def Let_def)
    with True e d' d show ?thesis by auto
  next
    case False
    then have "lower_char c = c" unfolding lower_char_def Let_def by (rule if_not_P)
    with e d' show ?thesis by simp
  qed
qed

lemma sql_like_escaped:
  "sql_like (escapeSQLiteLikePattern a @ pat) s \<longleftrightarrow>
    (\<exists>u t. s = u @ t \<and> map lower_char u = map lower_char a \<and> sql_like pat t)"
proof (induction a arbitrary: s)
  case Nil
  then show ?case by (simp add: escapeSQLiteLikePattern_def)
next
  case (Cons c a)
  have split: "(\<exists>u t. s = u @ t \<and> map lower_char u = map lower_char (c # a) \<and> sql_like pat t)
    \<longleftrightarrow> (\<exists>d ds. s = d # ds \<and> lower_char d = lower_char c
        \<and> (\<exists>u t. ds = u @ t \<and> map lower_char u = map lower_char a \<and> sql_like pat t))"
    by (auto simp: map_eq_Cons_conv) (metis append_Cons list.simps(9))+
  have esc: "escapeSQLiteLikePattern (c # a) =
    (if c = backslash \<or> c = CHR ''%'' \<or> c = CHR ''_'' then [backslash, c] else [c]) @ escapeSQLiteLikePattern a"
    by (simp add: escapeSQLiteLikePattern_def)
  have "sql_like (escapeSQLiteLikePattern (c # a) @ pat) s \<longleftrightarrow>
    (\<exists>d ds. s = d # ds \<and> lower_char d = lower_char c \<and> sql_like (escapeSQLiteLikePattern a @ pat) ds)"
    unfolding esc by (cases s) auto
  then show ?case unfolding split Cons.IH .
qed

definition under :: "string \<Rightarrow> string \<Rightarrow> bool" where
  "under a p \<longleftrightarrow> p = a \<or> prefix (a @ ''/'') p"

definition under_nocase :: "string \<Rightarrow> string \<Rightarrow> bool" where
  "under_nocase a p \<longleftrightarrow> p = a \<or> (\<exists>u. prefix (u @ ''/'') p \<and> map lower_char u = map lower_char a)"

lemma rename_selects_nocase:
  "rename_selects a (escapeSQLiteLikePattern a @ ''/%'') p \<longleftrightarrow> under_nocase a p"
proof -
  have "sql_like ''/%'' t \<longleftrightarrow> (\<exists>z. t = CHR ''/'' # z)" for t
    by (subst sql_like.simps(2))
      (auto simp: sql_like_percent simp del: sql_like.simps(2) split: list.splits dest: lower_char_special)
  then show ?thesis
    by (auto simp: rename_selects_def under_nocase_def sql_like_escaped prefix_def)
qed

lemma under_under_nocase: "under a p \<Longrightarrow> under_nocase a p"
  by (auto simp: under_def under_nocase_def)

lemma under_iff: "under a p \<longleftrightarrow> (\<exists>s. p = a @ s \<and> (s = [] \<or> hd s = CHR ''/''))"
  by (auto simp: under_def prefix_def) (metis hd_Cons_tl append_Nil2)

section \<open>A rename without collision\<close>

definition moved_path :: "string \<Rightarrow> string \<Rightarrow> string \<Rightarrow> string" where
  "moved_path a b p = (if under a p then b @ drop (length a) p else p)"

definition db_paths :: "sqldb \<Rightarrow> string set" where
  "db_paths db = m_Path ` set (t_meta db) \<union> fst ` set (t_head db) \<union> fst ` set (t_version db)
     \<union> (fst \<circ> fst) ` set (t_blob db)"

definition rename_effect :: "string \<Rightarrow> string \<Rightarrow> sqldb \<Rightarrow> sqldb" where
  "rename_effect a b db = \<lparr>
     t_meta = map (\<lambda>m. m\<lparr>m_Path := moved_path a b (m_Path m)\<rparr>) (t_meta db),
     t_version = map (apfst (moved_path a b)) (t_version db),
     t_blob = map (apfst (apfst (moved_path a b))) (t_blob db),
     t_head = map (apfst (moved_path a b)) (t_head db)\<rparr>"

text \<open>No stored path lies at or below the new path, none differs from the old one by case only.\<close>

definition rename_clear :: "string \<Rightarrow> string \<Rightarrow> sqldb \<Rightarrow> bool" where
  "rename_clear a b db \<longleftrightarrow> (\<forall>p\<in>db_paths db. \<not> under b p \<and> (under_nocase a p \<longrightarrow> under a p))"

lemma moved_under: "under a p \<Longrightarrow> under b (moved_path a b p)"
  by (auto simp: under_iff moved_path_def)

lemma moved_inj: "under a p \<Longrightarrow> under a q \<Longrightarrow> moved_path a b p = moved_path a b q \<Longrightarrow> p = q"
  by (auto simp: under_iff moved_path_def)

lemma renamed_path_moved: "under a p \<Longrightarrow> renamed_path a b (length a + 1) p = moved_path a b p"
  by (auto simp: renamed_path_def moved_path_def sql_substr_def)

lemma row_update_moved:
  assumes d: "distinct (map key rs)"
    and c: "\<And>r. r \<in> set rs \<Longrightarrow> \<not> under b (pth r) \<and> (sel r \<longleftrightarrow> under a (pth r))"
    and k1: "\<And>r q. under a (pth r) \<Longrightarrow> under a (pth q) \<Longrightarrow> key (f r) = key (f q) \<Longrightarrow>
      moved_path a b (pth r) = moved_path a b (pth q) \<and> (pth r = pth q \<longrightarrow> key r = key q)"
    and k2: "\<And>r q. under a (pth r) \<Longrightarrow> key (f r) = key q \<Longrightarrow> moved_path a b (pth r) = pth q"
    and g: "\<And>r. under a (pth r) \<Longrightarrow> f r = g r" "\<And>r. \<not> under a (pth r) \<Longrightarrow> g r = r"
  shows "row_update what key sel f [] rs = Inr (map g rs)"
proof -
  have "map (\<lambda>r. if sel r then f r else r) rs = map g rs"
    using c g by (intro map_cong) auto
  moreover have "row_update what key sel f [] rs = Inr (map (\<lambda>r. if sel r then f r else r) rs)"
  proof (rule row_update_map [OF d])
  show "inj_on (\<lambda>r. key (f r)) {r \<in> set rs. sel r}"
  proof (rule inj_onI)
    fix r q
    assume rq: "r \<in> {r \<in> set rs. sel r}" "q \<in> {r \<in> set rs. sel r}" "key (f r) = key (f q)"
    with k1 c have "pth r = pth q" by (auto intro: moved_inj)
    with k1 rq c have "key r = key q" by blast
    with rq d show "r = q" by (auto simp: distinct_map inj_on_def)
  qed
  show "\<forall>r\<in>set rs. sel r \<longrightarrow> key (f r) \<notin> key ` set rs"
  proof (intro ballI impI notI)
    fix r
    assume r: "r \<in> set rs" "sel r" and "key (f r) \<in> key ` set rs"
    then obtain q where q: "q \<in> set rs" "key (f r) = key q" by auto
    with k2 r c have "moved_path a b (pth r) = pth q" by blast
    with moved_under [of a "pth r" b] c r q show False by auto
  qed
  qed
  ultimately show ?thesis by simp
qed

lemma moved_same: "\<not> under a p \<Longrightarrow> moved_path a b p = p"
  by (simp add: moved_path_def)

definition rename_ready :: "string \<Rightarrow> string \<Rightarrow> sqldb \<Rightarrow> bool" where
  "rename_ready a b db \<longleftrightarrow> db_inv db \<and> rename_clear a b db"

lemma rename_clearD:
  assumes "rename_clear a b db" and "p \<in> db_paths db"
  shows "\<not> under b p" "rename_selects a (escapeSQLiteLikePattern a @ ''/%'') p \<longleftrightarrow> under a p"
  using assms by (auto simp: rename_clear_def rename_selects_nocase under_under_nocase)

lemma renamed_Suc: "under a p \<Longrightarrow> renamed_path a b (Suc (length a)) p = moved_path a b p"
  using renamed_path_moved [of a p b] by simp

definition moved_metas :: "string \<Rightarrow> string \<Rightarrow> meta list \<Rightarrow> meta list" where
  "moved_metas a b ms = map (\<lambda>m. m\<lparr>m_Path := moved_path a b (m_Path m)\<rparr>) ms"

definition moved_heads :: "string \<Rightarrow> string \<Rightarrow> (string \<times> nat) list \<Rightarrow> (string \<times> nat) list" where
  "moved_heads a b hs = map (apfst (moved_path a b)) hs"

definition moved_versions :: "string \<Rightarrow> string \<Rightarrow> (string \<times> version_record) list
    \<Rightarrow> (string \<times> version_record) list" where
  "moved_versions a b vs = map (apfst (moved_path a b)) vs"

definition moved_blobs :: "string \<Rightarrow> string \<Rightarrow> ((string \<times> nat) \<times> bytes) list
    \<Rightarrow> ((string \<times> nat) \<times> bytes) list" where
  "moved_blobs a b bs = map (apfst (apfst (moved_path a b))) bs"

lemma rename_tables_rows:
  assumes pat: "\<And>p. p \<in> db_paths db \<Longrightarrow>
      \<not> under b p \<and> (rename_selects a (escapeSQLiteLikePattern a @ ''/%'') p \<longleftrightarrow> under a p)"
    and inv: "db_inv db"
  defines "run \<equiv> \<lambda>t. rename_rows t a b (escapeSQLiteLikePattern a @ ''/%'') (Suc (length a))"
  shows "run ''meta'' (db\<lparr>t_head := hs, t_version := vs, t_blob := bs\<rparr>)
      = Inr (db\<lparr>t_meta := moved_metas a b (t_meta db), t_head := hs, t_version := vs, t_blob := bs\<rparr>)"
    "run ''file_head'' (db\<lparr>t_meta := ms, t_version := vs, t_blob := bs\<rparr>)
      = Inr (db\<lparr>t_meta := ms, t_head := moved_heads a b (t_head db), t_version := vs, t_blob := bs\<rparr>)"
    "run ''version'' (db\<lparr>t_meta := ms, t_head := hs, t_blob := bs\<rparr>)
      = Inr (db\<lparr>t_meta := ms, t_head := hs, t_version := moved_versions a b (t_version db), t_blob := bs\<rparr>)"
    "run ''version_blob'' (db\<lparr>t_meta := ms, t_head := hs, t_version := vs\<rparr>)
      = Inr (db\<lparr>t_meta := ms, t_head := hs, t_version := vs, t_blob := moved_blobs a b (t_blob db)\<rparr>)"
proof -
  let ?sel = "rename_selects a (escapeSQLiteLikePattern a @ ''/%'')"
  let ?f = "renamed_path a b (Suc (length a))"
  have d: "distinct (map m_Path (t_meta db))" "distinct (map fst (t_head db))"
    "distinct (map ver_key (t_version db))" "distinct (map fst (t_blob db))"
    using inv by (auto simp: db_inv_def)
  have "row_update ''meta.path'' m_Path (\<lambda>m. ?sel (m_Path m)) (\<lambda>m. m\<lparr>m_Path := ?f (m_Path m)\<rparr>) [] (t_meta db)
      = Inr (map (\<lambda>m. m\<lparr>m_Path := moved_path a b (m_Path m)\<rparr>) (t_meta db))"
    by (rule row_update_moved [where pth = m_Path and a = a and b = b, OF d(1)])
      (auto simp: renamed_Suc moved_same pat db_paths_def)
  then show "run ''meta'' (db\<lparr>t_head := hs, t_version := vs, t_blob := bs\<rparr>)
      = Inr (db\<lparr>t_meta := moved_metas a b (t_meta db), t_head := hs, t_version := vs, t_blob := bs\<rparr>)"
    by (simp add: run_def rename_rows_def Let_def moved_metas_def)
  have "row_update ''file_head.path'' fst (\<lambda>r. ?sel (fst r)) (apfst ?f) [] (t_head db)
      = Inr (map (apfst (moved_path a b)) (t_head db))"
    by (rule row_update_moved [where pth = fst and a = a and b = b, OF d(2)])
      (auto simp: renamed_Suc moved_same pat db_paths_def)
  then show "run ''file_head'' (db\<lparr>t_meta := ms, t_version := vs, t_blob := bs\<rparr>)
      = Inr (db\<lparr>t_meta := ms, t_head := moved_heads a b (t_head db), t_version := vs, t_blob := bs\<rparr>)"
    by (simp add: run_def rename_rows_def Let_def moved_heads_def)
  have "row_update ''version.path, version.version'' ver_key (\<lambda>r. ?sel (fst r)) (apfst ?f) [] (t_version db)
      = Inr (map (apfst (moved_path a b)) (t_version db))"
    by (rule row_update_moved [where pth = fst and a = a and b = b, OF d(3)])
      (auto simp: renamed_Suc moved_same pat db_paths_def ver_key_def)
  then show "run ''version'' (db\<lparr>t_meta := ms, t_head := hs, t_blob := bs\<rparr>)
      = Inr (db\<lparr>t_meta := ms, t_head := hs, t_version := moved_versions a b (t_version db), t_blob := bs\<rparr>)"
    by (simp add: run_def rename_rows_def Let_def moved_versions_def)
  have "row_update ''version_blob.path, version_blob.version'' fst (\<lambda>r. ?sel (fst (fst r)))
        (apfst (apfst ?f)) [] (t_blob db)
      = Inr (map (apfst (apfst (moved_path a b))) (t_blob db))"
    by (rule row_update_moved [where pth = "\<lambda>r. fst (fst r)" and a = a and b = b, OF d(4)])
      (auto simp: renamed_Suc moved_same pat db_paths_def)
  then show "run ''version_blob'' (db\<lparr>t_meta := ms, t_head := hs, t_version := vs\<rparr>)
      = Inr (db\<lparr>t_meta := ms, t_head := hs, t_version := vs, t_blob := moved_blobs a b (t_blob db)\<rparr>)"
    by (simp add: run_def rename_rows_def Let_def moved_blobs_def)
qed

section \<open>The transaction\<close>

fun rename_all :: "string list \<Rightarrow> string \<Rightarrow> string \<Rightarrow> string \<Rightarrow> nat \<Rightarrow> sqldb \<Rightarrow> goerr + sqldb" where
  "rename_all [] a b pat k db = Inr db"
| "rename_all (t # ts) a b pat k db =
    (case rename_rows t a b pat k db of Inl e \<Rightarrow> Inl e | Inr d \<Rightarrow> rename_all ts a b pat k d)"

lemma rename_tables_Inr:
  "rename_tables ts a b pat k w = (Inr u, w') \<Longrightarrow> rename_all ts a b pat k (w_db w) = Inr (w_db w')"
proof (induction ts arbitrary: w)
  case Nil
  then show ?case by simp
next
  case (Cons t ts)
  from Cons.prems obtain v w1 where 1: "renamePathPrefixTx t a b pat k w = (Inr v, w1)"
    and 2: "rename_tables ts a b pat k w1 = (Inr u, w')"
    by (auto split: prod.splits sum.splits)
  from sql_exec_Inr [OF 1 [unfolded renamePathPrefixTx_def]]
  have "rename_rows t a b pat k (w_db w) = Inr (w_db w1)" by (auto simp: db_step_def)
  with Cons.IH [OF 2] show ?case by simp
qed

lemma rename_tables_nofault:
  "w_faults w = [] \<Longrightarrow> rename_all ts a b pat k (w_db w) = Inr d \<Longrightarrow>
    rename_tables ts a b pat k w = (Inr (), w\<lparr>w_db := d\<rparr>)"
  by (induction ts arbitrary: w)
    (auto simp: renamePathPrefixTx_def sql_exec_nofault split: sum.splits)

abbreviation renamed_tables :: "string list" where
  "renamed_tables \<equiv> [''meta'', ''file_head'', ''version'', ''version_blob'']"

lemma RenamePathTree_tx:
  "a \<noteq> b \<Longrightarrow> RenamePathTree a b w =
    withWriteTx (rename_tables renamed_tables a b (escapeSQLiteLikePattern a @ ''/%'') (Suc (length a))) w"
  by (simp add: RenamePathTree_def Let_def)

lemma rename_all_clear:
  assumes "db_inv db" and "rename_clear a b db"
  shows "rename_all renamed_tables a b (escapeSQLiteLikePattern a @ ''/%'') (Suc (length a)) db
    = Inr (rename_effect a b db)"
proof -
  have pat: "p \<in> db_paths db \<Longrightarrow>
      \<not> under b p \<and> (rename_selects a (escapeSQLiteLikePattern a @ ''/%'') p \<longleftrightarrow> under a p)" for p
    using rename_clearD [OF assms(2)] by blast
  note rows = rename_tables_rows [of db b a, OF pat assms(1)]
  obtain ms vs bs hs where db: "db = \<lparr>t_meta = ms, t_version = vs, t_blob = bs, t_head = hs\<rparr>"
    by (cases db)
  from rows(1) [where hs = hs and vs = vs and bs = bs]
    rows(2) [where ms = "moved_metas a b ms" and vs = vs and bs = bs]
    rows(3) [where ms = "moved_metas a b ms" and hs = "moved_heads a b hs" and bs = bs]
    rows(4) [where ms = "moved_metas a b ms" and hs = "moved_heads a b hs" and vs = "moved_versions a b vs"]
  show ?thesis
    by (simp add: db rename_effect_def moved_metas_def moved_heads_def moved_versions_def moved_blobs_def)
qed

lemma RenamePathTree_outcome:
  assumes "db_inv (w_db w)" and "rename_clear a b (w_db w)" and "a \<noteq> b"
  shows "tx_outcome (RenamePathTree a b w) w () (rename_effect a b (w_db w))"
  unfolding RenamePathTree_tx [OF assms(3)]
proof (rule withWriteTx_outcome [OF rename_tables_body])
  fix w1 x w2
  assume e: "tx_entry w w1"
    and run: "rename_tables renamed_tables a b (escapeSQLiteLikePattern a @ ''/%'') (Suc (length a)) w1
      = (Inr x, w2)"
  from e have "w_db w1 = w_db w" by (simp add: tx_entry_def)
  with rename_tables_Inr [OF run] rename_all_clear [OF assms(1,2)]
  show "x = () \<and> w_db w2 = rename_effect a b (w_db w)" by simp
qed

lemma RenamePathTree_nofault:
  assumes "db_inv (w_db w)" and "rename_clear a b (w_db w)" and "a \<noteq> b" and "w_faults w = []"
  shows "RenamePathTree a b w = (Inr (), w\<lparr>w_db := rename_effect a b (w_db w)\<rparr>)"
  unfolding RenamePathTree_tx [OF assms(3)]
  by (rule withWriteTx_nofault)
    (use assms rename_tables_nofault [OF assms(4) rename_all_clear [OF assms(1,2)]] in auto)

section \<open>What a path shows\<close>

record path_view =
  pv_meta :: "meta option"
  pv_head :: "nat option"
  pv_history :: "version_record list"
  pv_data :: "nat \<Rightarrow> bytes option"

text \<open>Everything stored for a path, with the path itself left out.\<close>

definition view :: "sqldb \<Rightarrow> string \<Rightarrow> path_view" where
  "view db p = \<lparr>
     pv_meta = map_option (\<lambda>m. m\<lparr>m_Path := []\<rparr>) (row_find m_Path p (t_meta db)),
     pv_head = map_option snd (row_find fst p (t_head db)),
     pv_history = versions_of db p,
     pv_data = (\<lambda>v. map_option snd (row_find fst (p, v) (t_blob db)))\<rparr>"

lemma find_map: "find P (map f xs) = map_option f (find (P \<circ> f) xs)"
  by (induction xs) auto

lemma find_cong_set: "(\<And>x. x \<in> set xs \<Longrightarrow> P x = Q x) \<Longrightarrow> find P xs = find Q xs"
  by (induction xs) auto

lemma view_rename_gen:
  assumes "\<And>r. r \<in> db_paths db \<Longrightarrow> moved_path a b r = q \<longleftrightarrow> r = p"
  shows "view (rename_effect a b db) q = view db p"
proof -
  have 1: "find (\<lambda>m. moved_path a b (m_Path m) = q) (t_meta db) = find (\<lambda>m. m_Path m = p) (t_meta db)"
    by (rule find_cong_set) (use assms in \<open>auto simp: db_paths_def\<close>)
  have 2: "find (\<lambda>x. moved_path a b (fst x) = q) (t_head db) = find (\<lambda>x. fst x = p) (t_head db)"
    by (rule find_cong_set) (use assms in \<open>auto simp: db_paths_def\<close>)
  have 3: "filter (\<lambda>x. moved_path a b (fst x) = q) (t_version db) = filter (\<lambda>x. fst x = p) (t_version db)"
    by (rule filter_cong) (use assms in \<open>auto simp: db_paths_def\<close>)
  have 4: "find (\<lambda>x. apfst (moved_path a b) (fst x) = (q, v)) (t_blob db)
      = find (\<lambda>x. fst x = (p, v)) (t_blob db)" for v
    by (rule find_cong_set) (use assms in \<open>force simp: db_paths_def\<close>)
  show ?thesis
    by (auto simp: view_def rename_effect_def row_find_def find_map comp_def versions_of_def
        filter_map option.map_comp 1 2 3 4)
qed

lemma view_moved:
  assumes "rename_clear a b db" and "under a p"
  shows "view (rename_effect a b db) (moved_path a b p) = view db p"
proof (rule view_rename_gen)
  fix r assume r: "r \<in> db_paths db"
  show "(moved_path a b r = moved_path a b p) = (r = p)"
  proof (cases "under a r")
    case True
    with assms(2) show ?thesis by (auto dest: moved_inj)
  next
    case False
    with assms moved_under [OF assms(2), of b] r show ?thesis
      by (auto simp: moved_same rename_clear_def)
  qed
qed

lemma view_other:
  assumes "rename_clear a b db" and "\<not> under a p" and "\<not> under b p"
  shows "view (rename_effect a b db) p = view db p"
proof (rule view_rename_gen)
  fix r assume r: "r \<in> db_paths db"
  show "(moved_path a b r = p) = (r = p)"
    using assms moved_under [of a r b] moved_same [of a r b] by (cases "under a r") auto
qed

section \<open>The invariant\<close>

lemma moved_inj_clear:
  assumes "rename_clear a b db" and "p \<in> db_paths db" and "q \<in> db_paths db"
    and e: "moved_path a b p = moved_path a b q"
  shows "p = q"
proof -
  have nb: "\<not> under b p" "\<not> under b q" using assms(1-3) by (auto simp: rename_clear_def)
  show ?thesis
  proof (cases "under a p")
    case True
    with nb e moved_under [OF True, of b] moved_same [of a q b] have "under a q" by metis
    with True e show ?thesis by (auto intro: moved_inj)
  next
    case False
    with nb e moved_under [of a q b] have "\<not> under a q" by (auto simp: moved_same)
    with False e show ?thesis by (simp add: moved_same)
  qed
qed

lemma current_head_view:
  "view db p = view db' q \<Longrightarrow> current_head db p = current_head db' q"
  by (auto simp: view_def current_head_def max_version_def split: option.splits)
    (metis meta.select_convs(6) meta.surjective meta.update_convs(1))+

lemma distinct_map_moved:
  assumes "distinct (map key rs)" and "\<And>r q. r \<in> set rs \<Longrightarrow> q \<in> set rs \<Longrightarrow> key (f r) = key (f q) \<Longrightarrow> key r = key q"
  shows "distinct (map key (map f rs))"
proof -
  have "inj_on key (set rs)" "distinct rs" using assms(1) by (auto simp: distinct_map)
  then have "inj_on (key \<circ> f) (set rs)" using assms(2) unfolding inj_on_def comp_def by blast
  with \<open>distinct rs\<close> show ?thesis by (simp add: distinct_map)
qed

lemma db_inv_rename:
  assumes inv: "db_inv db" and clear: "rename_clear a b db"
  shows "db_inv (rename_effect a b db)"
proof -
  note inj = moved_inj_clear [OF clear]
  have ver: "ver_key (apfst (moved_path a b) r) = apfst (moved_path a b) (ver_key r)" for r
    by (simp add: ver_key_def)
  have mem: "m \<in> set (t_meta db) \<Longrightarrow> m_Path m \<in> db_paths db" "h \<in> set (t_head db) \<Longrightarrow> fst h \<in> db_paths db"
    "r \<in> set (t_version db) \<Longrightarrow> fst r \<in> db_paths db" "x \<in> set (t_blob db) \<Longrightarrow> fst (fst x) \<in> db_paths db"
    for m h r x by (auto simp: db_paths_def)
  have keys: "distinct (map m_Path (t_meta db))" "distinct (map fst (t_head db))"
    "distinct (map ver_key (t_version db))" "distinct (map fst (t_blob db))"
    using inv by (auto simp: db_inv_def)
  have m: "distinct (map m_Path (t_meta (rename_effect a b db)))"
    unfolding rename_effect_def sqldb.select_convs
    by (rule distinct_map_moved [OF keys(1)]) (simp add: inj mem)
  have h: "distinct (map fst (t_head (rename_effect a b db)))"
    unfolding rename_effect_def sqldb.select_convs
    by (rule distinct_map_moved [OF keys(2)]) (simp add: inj mem)
  have v: "distinct (map ver_key (t_version (rename_effect a b db)))"
    unfolding rename_effect_def sqldb.select_convs
    by (rule distinct_map_moved [OF keys(3)]) (simp add: inj mem ver_key_def)
  have bl: "distinct (map fst (t_blob (rename_effect a b db)))"
    unfolding rename_effect_def sqldb.select_convs
  proof (rule distinct_map_moved [OF keys(4)])
    fix x y
    assume xy: "x \<in> set (t_blob db)" "y \<in> set (t_blob db)"
      and "fst (apfst (apfst (moved_path a b)) x) = fst (apfst (apfst (moved_path a b)) y)"
    then have e: "moved_path a b (fst (fst x)) = moved_path a b (fst (fst y))" and v: "snd (fst x) = snd (fst y)"
      by (metis apfst_conv fst_apfst fst_conv prod.collapse, metis fst_apfst snd_apfst)
    have "fst (fst x) = fst (fst y)" by (rule inj [OF mem(4) [OF xy(1)] mem(4) [OF xy(2)] e])
    with v show "fst x = fst y" by (simp add: prod_eq_iff)
  qed
  have sub: "fst ` set (t_blob (rename_effect a b db)) \<subseteq> ver_key ` set (t_version (rename_effect a b db))"
  proof -
    have "fst ` set (t_blob (rename_effect a b db)) = apfst (moved_path a b) ` fst ` set (t_blob db)"
      by (simp add: rename_effect_def image_image)
    also have "\<dots> \<subseteq> apfst (moved_path a b) ` ver_key ` set (t_version db)"
      using inv by (intro image_mono) (simp add: db_inv_def)
    also have "\<dots> = ver_key ` set (t_version (rename_effect a b db))"
      by (simp add: rename_effect_def image_image ver)
    finally show ?thesis .
  qed
  have "v_Version (snd r) \<le> current_head (rename_effect a b db) (moved_path a b (fst r))"
    if r: "r \<in> set (t_version db)" for r
  proof -
    have "fst r \<in> db_paths db" using r by (auto simp: db_paths_def)
    then have "view (rename_effect a b db) (moved_path a b (fst r)) = view db (fst r)"
      using clear view_moved [OF clear] view_other [OF clear]
      by (cases "under a (fst r)") (auto simp: moved_same rename_clear_def)
    then have "current_head (rename_effect a b db) (moved_path a b (fst r)) = current_head db (fst r)"
      by (rule current_head_view)
    with inv r show ?thesis by (simp add: db_inv_def)
  qed
  then have "\<forall>r\<in>set (t_version (rename_effect a b db)).
      v_Version (snd r) \<le> current_head (rename_effect a b db) (fst r)"
    by (auto simp: rename_effect_def)
  with m h v bl sub show ?thesis by (simp add: db_inv_def)
qed

section \<open>A rename onto a known path\<close>

lemma rename_rows_same_heads:
  "rename_rows ''meta'' a b pat k db = Inr db' \<Longrightarrow> t_head db' = t_head db"
  by (auto simp: rename_rows_def Let_def map_sum_def split: sum.splits)

lemma rename_all_blocked:
  assumes "a \<in> fst ` set (t_head db)" and "b \<in> fst ` set (t_head db)" and "\<not> under_nocase a b" and "a \<noteq> b"
  shows "\<exists>e. rename_all renamed_tables a b (escapeSQLiteLikePattern a @ ''/%'') (Suc (length a)) db = Inl e"
proof -
  let ?sel = "rename_selects a (escapeSQLiteLikePattern a @ ''/%'')"
  let ?f = "renamed_path a b (Suc (length a))"
  let ?rows = "rename_rows ''meta'' a b (escapeSQLiteLikePattern a @ ''/%'') (Suc (length a)) db"
  show ?thesis
  proof (cases ?rows)
    case (Inl e)
    then show ?thesis by simp
  next
    case (Inr d)
    then have hd: "t_head d = t_head db" by (rule rename_rows_same_heads)
    obtain m n where rq: "(a, m) \<in> set (t_head db)" "(b, n) \<in> set (t_head db)" using assms by auto
    have gen: "\<exists>e. row_update w fst (\<lambda>r. ?sel (fst r)) (apfst ?f) dn rs = Inl e"
      if "(a, m) \<in> set rs" "(b, n) \<in> set dn \<union> set rs" for w and dn rs :: "(string \<times> nat) list"
      using that
    proof (induction rs arbitrary: dn)
      case Nil
      then show ?case by simp
    next
      case (Cons r rs)
      show ?case
      proof (cases "?sel (fst r)")
        case False
        then have "r \<noteq> (a, m)" by (auto simp: rename_selects_def)
        with False Cons show ?thesis by auto
      next
        case True
        then have nb: "r \<noteq> (b, n)" using assms(3) by (auto simp: rename_selects_nocase)
        show ?thesis
        proof (cases "r = (a, m)")
          case True
          with nb Cons.prems have "(b, n) \<in> set dn \<union> set rs" by auto
          then have "b \<in> fst ` (set dn \<union> set rs)" by force
          with True \<open>?sel (fst r)\<close> show ?thesis by (simp add: renamed_path_def)
        next
          case False
          with True nb Cons show ?thesis by auto
        qed
      qed
    qed
    from gen [of "t_head db" "[]" "''file_head.path''"] rq obtain e
      where "row_update ''file_head.path'' fst (\<lambda>r. ?sel (fst r)) (apfst ?f) [] (t_head db) = Inl e" by auto
    then have "rename_rows ''file_head'' a b (escapeSQLiteLikePattern a @ ''/%'') (Suc (length a)) d = Inl e"
      by (simp add: rename_rows_def Let_def hd)
    with Inr show ?thesis by simp
  qed
qed

lemma RenamePathTree_blocked:
  assumes "a \<in> fst ` set (t_head (w_db w))" and "b \<in> fst ` set (t_head (w_db w))"
    and "\<not> under_nocase a b" and "a \<noteq> b"
  shows "\<exists>e w'. RenamePathTree a b w = (Inl e, w') \<and> tx_step w (w_db w) (375 * millisecond) w'"
proof -
  obtain r w' where run: "RenamePathTree a b w = (r, w')" by (cases "RenamePathTree a b w")
  note tx = withWriteTx_run [OF run [unfolded RenamePathTree_tx [OF assms(4)]] rename_tables_body]
  show ?thesis
  proof (cases r)
    case (Inl e)
    with tx run show ?thesis by auto
  next
    case (Inr x)
    with tx obtain w1 w2 where e: "tx_entry w w1" and ok: "rename_tables renamed_tables a b
        (escapeSQLiteLikePattern a @ ''/%'') (Suc (length a)) w1 = (Inr x, w2)" by auto
    from e have "w_db w1 = w_db w" by (simp add: tx_entry_def)
    with rename_tables_Inr [OF ok] rename_all_blocked [OF assms] show ?thesis by auto
  qed
qed

end
