(* ===== verification/VersionProps.thy ===== *)
theory VersionProps
  imports VersionRename
begin

text \<open>
  The properties of the version store: every transaction refines an atomic step on the tables,
  history is append-only and read back as written, a busy database is waited for, and what a
  rename of a path tree moves, refuses and takes along.
\<close>

lemma versions_of_add: "versions_of (add_version path rec data db) q =
    versions_of db q @ (if q = path then [rec] else [])"
  by (simp add: versions_of_def add_version_def)

lemma versions_of_below:
  "db_inv db \<Longrightarrow> r \<in> set (versions_of db path) \<Longrightarrow> v_Version r \<le> current_head db path"
  by (auto simp: db_inv_def versions_of_def)

lemma delete_effect_meta: "t_meta (delete_effect p sz mt c db) = row_delete m_Path p (t_meta db)"
  by (simp add: delete_effect_def Let_def add_version_def set_head_def)

lemma tx_outcomeE:
  assumes "tx_outcome out w v d"
  obtains (failed) e w' where "out = (Inl e, w')" "tx_step w (w_db w) (375 * millisecond) w'"
  | (committed) w' where "out = (Inr v, w')" "tx_step w d (375 * millisecond) w'"
  using assms by (cases out; cases "fst out") (auto simp: tx_outcome_def)

definition sample_meta :: meta where
  "sample_meta = \<lparr>m_Path = ''a.txt'', m_IsDir = False, m_Size = 2, m_MtimeUnix = 7,
     m_Hash = ''h'', m_Version = 0\<rparr>"

definition sample_db :: sqldb where
  "sample_db = save_effect sample_meta ''c1'' ''create'' (Some [104, 105]) empty_db"

lemma db_inv_empty: "db_inv empty_db"
  by (simp add: db_inv_def empty_db_def)

lemma db_inv_sample: "db_inv sample_db"
  unfolding sample_db_def by (rule db_inv_save [OF db_inv_empty])

section \<open>Properties\<close>

text \<open>
  Claim C2. \<open>SaveFileSnapshot\<close> refines one atomic step: whatever SQLite calls fail, the tables
  either stay as they were (an error is returned) or become exactly the old ones with the head
  advanced by one, the metadata row replaced and one version (with its content) appended under
  the new number, which is above every version of the path. The invariant is kept, nothing but
  the tables and at most 375 ms of waiting changes.
\<close>

theorem SaveFileSnapshot_refines:
  assumes "genuine_faults w" and "db_inv (w_db w)"
  shows "\<exists>r w'. SaveFileSnapshot m c ct data w = (r, w')
    \<and> db_inv (w_db w') \<and> w_fs w' = w_fs w
    \<and> w_clock w \<le> w_clock w' \<and> w_clock w' \<le> w_clock w + 375 * millisecond
    \<and> (case r of
         Inl e \<Rightarrow> w_db w' = w_db w
       | Inr v \<Rightarrow> v = current_head (w_db w) (m_Path m) + 1
           \<and> w_db w' = save_effect m c ct data (w_db w)
           \<and> (\<forall>x\<in>set (versions_of (w_db w) (m_Path m)). v_Version x < v))"
proof -
  have "distinct (map fst (t_head (w_db w)))" using assms(2) by (simp add: db_inv_def)
  from SaveFileSnapshot_outcome [OF assms(1) this, of m c ct data] show ?thesis
    using assms(2) versions_of_below [OF assms(2)]
    by (cases rule: tx_outcomeE) (auto dest!: tx_stepD intro: db_inv_save less_Suc_eq_le [THEN iffD2])
qed

theorem SaveFileSnapshot_refines_witness:
  "db_inv (save_effect sample_meta ''c2'' ''modify'' None sample_db)
   \<and> (\<exists>r w'. SaveFileSnapshot sample_meta ''c2'' ''modify'' None (quiet_world [] sample_db) = (r, w')
        \<and> db_inv (w_db w'))"
  using SaveFileSnapshot_refines [OF genuine_faults_nil, of "quiet_world [] sample_db" sample_meta
      "''c2''" "''modify''" None] db_inv_sample db_inv_save [OF db_inv_sample] by auto

text \<open>
  \<open>AppendDeleteSnapshot\<close> refines one atomic step: either nothing changes, or the
  metadata row of the path goes and a \<open>delete\<close> record without content is appended under the
  next version number; older versions and their contents stay.
\<close>

theorem AppendDeleteSnapshot_refines:
  assumes "genuine_faults w" and "db_inv (w_db w)"
  shows "\<exists>r w'. AppendDeleteSnapshot p sz mt c w = (r, w')
    \<and> db_inv (w_db w') \<and> w_fs w' = w_fs w
    \<and> (case r of
         Inl e \<Rightarrow> w_db w' = w_db w
       | Inr v \<Rightarrow> v = current_head (w_db w) p + 1
           \<and> w_db w' = delete_effect p sz mt c (w_db w)
           \<and> row_find m_Path p (t_meta (w_db w')) = None)"
proof -
  have "distinct (map fst (t_head (w_db w)))" using assms(2) by (simp add: db_inv_def)
  from AppendDeleteSnapshot_outcome [OF assms(1) this, of p sz mt c] show ?thesis
    using assms(2)
    by (cases rule: tx_outcomeE)
      (auto dest!: tx_stepD intro: db_inv_delete simp: delete_effect_meta row_find_delete)
qed

theorem AppendDeleteSnapshot_refines_witness:
  "\<exists>r w'. AppendDeleteSnapshot ''a.txt'' 2 9 ''c2'' (quiet_world [] sample_db) = (r, w')
     \<and> db_inv (w_db w')"
  using AppendDeleteSnapshot_refines [OF genuine_faults_nil, of "quiet_world [] sample_db"
      "''a.txt''" 2 9 "''c2''"] db_inv_sample by auto

text \<open>
  Claim C3. History is immutable: a version record or content stored for any path is still
  there, unchanged, after any save or delete of any path, whether it succeeds or fails.
\<close>

theorem history_immutable:
  assumes "genuine_faults w" and "db_inv (w_db w)"
    and "row_find ver_key (p, v) (t_version (w_db w)) = Some rec"
    and "w' = snd (SaveFileSnapshot m c ct data w) \<or> w' = snd (AppendDeleteSnapshot q sz mt c w)"
  shows "row_find ver_key (p, v) (t_version (w_db w')) = Some rec
    \<and> (\<forall>d. row_find fst (p, v) (t_blob (w_db w)) = Some d
         \<longrightarrow> row_find fst (p, v) (t_blob (w_db w')) = Some d)"
proof -
  have hd: "distinct (map fst (t_head (w_db w)))" using assms(2) by (simp add: db_inv_def)
  have "w_db w' = w_db w \<or> w_db w' = save_effect m c ct data (w_db w)
      \<or> w_db w' = delete_effect q sz mt c (w_db w)"
    using assms(4) SaveFileSnapshot_outcome [OF assms(1) hd, of m c ct data]
      AppendDeleteSnapshot_outcome [OF assms(1) hd, of q sz mt c]
    by (auto elim!: tx_outcomeE dest: tx_stepD)
  with assms(3) show ?thesis
    by (auto simp: save_effect_def delete_effect_def Let_def add_version_def set_head_def
        row_find_append split: option.splits)
qed

theorem history_immutable_witness:
  "\<exists>rec. row_find ver_key (''a.txt'', 1) (t_version sample_db) = Some rec
     \<and> row_find ver_key (''a.txt'', 1) (t_version (w_db (snd
         (AppendDeleteSnapshot ''a.txt'' 2 9 ''c2'' (quiet_world [] sample_db))))) = Some rec"
proof -
  have g: "genuine_faults (quiet_world [] sample_db)" by (simp add: genuine_faults_nil)
  have i: "db_inv (w_db (quiet_world [] sample_db))" by (simp add: db_inv_sample)
  obtain rec where r: "row_find ver_key (''a.txt'', 1) (t_version (w_db (quiet_world [] sample_db))) = Some rec"
    by (simp add: sample_db_def save_effect_def add_version_def set_head_def empty_db_def
        saved_record_def sample_meta_def current_head_def row_find_def max_version_def
        versions_of_def ver_key_def Let_def)
  from history_immutable [OF g i r disjI2 [OF refl]] r show ?thesis by auto
qed

lemma save_effect_reads:
  assumes inv: "db_inv db" and v: "v = current_head db (m_Path m) + 1"
    and db: "w_db w2 = save_effect m c ct data db" and nf: "w_faults w2 = []"
  shows "GetMeta (m_Path m) w2 = (Inr (m\<lparr>m_Version := v\<rparr>), w2)"
    and "GetRecord (m_Path m) v w2 = (Inr (saved_record m v c ct), w2)"
    and "GetLatestRecord (m_Path m) w2 = (Inr (saved_record m v c ct), w2)"
    and "GetVersionData (m_Path m) v w2 =
      (case data of Some d \<Rightarrow> Inr d | None \<Rightarrow> Inl (Wrapf ''version data not found: '' (Sentinel ErrNotExist) []), w2)"
    and "GetHistory (m_Path m) w2 =
        (Inr (sort_key v_Version (versions_of db (m_Path m)) @ [saved_record m v c ct]), w2)"
proof -
  let ?rec = "saved_record m v c ct"
  have rv: "v_Version ?rec = v" by (simp add: saved_record_def)
  then have vk: "ver_key (m_Path m, ?rec) = (m_Path m, v)" by (simp add: ver_key_def)
  have vs: "versions_of (w_db w2) (m_Path m) = versions_of db (m_Path m) @ [?rec]"
    by (simp add: db v save_effect_def Let_def versions_of_add) (simp add: versions_of_def set_head_def)
  have below: "x \<in> set (versions_of db (m_Path m)) \<Longrightarrow> v_Version x < v_Version ?rec" for x
    using versions_of_below [OF inv] v rv by (simp add: less_Suc_eq_le)
  have fresh: "(m_Path m, v) \<notin> ver_key ` set (t_version db)"
    using inv v by (auto simp: db_inv_def ver_key_def)
  then have freshb: "(m_Path m, v) \<notin> fst ` set (t_blob db)"
    using inv by (auto simp: db_inv_def)
  have tv: "t_version (w_db w2) = t_version db @ [(m_Path m, ?rec)]"
    and tb: "t_blob (w_db w2) = (case data of None \<Rightarrow> t_blob db | Some d \<Rightarrow> t_blob db @ [((m_Path m, v), d)])"
    and tm: "t_meta (w_db w2) = row_upsert m_Path (m\<lparr>m_Version := v\<rparr>) (t_meta db)"
    by (cases data; simp add: db v save_effect_def Let_def add_version_def set_head_def saved_record_def)+
  show "GetMeta (m_Path m) w2 = (Inr (m\<lparr>m_Version := v\<rparr>), w2)"
    by (simp add: GetMeta_def sql_query_nofault nf tm row_find_upsert)
  show "GetRecord (m_Path m) v w2 = (Inr ?rec, w2)"
    using fresh by (simp add: GetRecord_def sql_query_nofault nf tv row_find_append
        row_find_None [symmetric] vk)
  show "GetVersionData (m_Path m) v w2 =
      (case data of Some d \<Rightarrow> Inr d | None \<Rightarrow> Inl (Wrapf ''version data not found: '' (Sentinel ErrNotExist) []), w2)"
    using freshb by (simp add: GetVersionData_def sql_query_nofault nf tb row_find_append not_found_def
        row_find_None [symmetric] split: option.splits)
  show "GetLatestRecord (m_Path m) w2 = (Inr ?rec, w2)"
    using below by (simp add: GetLatestRecord_def sql_query_nofault nf vs sort_key_first)
  show "GetHistory (m_Path m) w2 = (Inr (sort_key v_Version (versions_of db (m_Path m)) @ [?rec]), w2)"
    using below by (simp add: GetHistory_def sql_query_nofault nf vs sort_key_last less_imp_le)
qed

text \<open>
  Claim C4. What was saved is read back: after a successful save with content, and as long as
  the reads themselves do not fail, \<open>GetMeta\<close> returns the metadata with the new version,
  \<open>GetRecord\<close> and \<open>GetLatestRecord\<close> the new record, \<open>GetVersionData\<close> the content, and
  \<open>GetHistory\<close> the old history (ascending) followed by the new record.
\<close>

theorem save_then_read:
  assumes "genuine_faults w" and "db_inv (w_db w)"
    and "SaveFileSnapshot m c ct (Some d) w = (Inr v, w1)"
    and "w_db w2 = w_db w1" and "w_faults w2 = []"
  shows "GetMeta (m_Path m) w2 = (Inr (m\<lparr>m_Version := v\<rparr>), w2)
    \<and> GetRecord (m_Path m) v w2 = (Inr (saved_record m v c ct), w2)
    \<and> GetLatestRecord (m_Path m) w2 = (Inr (saved_record m v c ct), w2)
    \<and> GetVersionData (m_Path m) v w2 = (Inr d, w2)
    \<and> GetHistory (m_Path m) w2 =
        (Inr (sort_key v_Version (versions_of (w_db w) (m_Path m)) @ [saved_record m v c ct]), w2)"
proof -
  have hd: "distinct (map fst (t_head (w_db w)))" using assms(2) by (simp add: db_inv_def)
  have "v = current_head (w_db w) (m_Path m) + 1" "w_db w2 = save_effect m c ct (Some d) (w_db w)"
    using SaveFileSnapshot_outcome [OF assms(1) hd, of m c ct "Some d"] assms(3,4)
    by (auto elim!: tx_outcomeE dest: tx_stepD)
  from save_effect_reads [OF assms(2) this assms(5)] show ?thesis by simp
qed

lemma nextVersionTx_nofault:
  assumes "w_faults w = []" and "db_inv (w_db w)"
  shows "nextVersionTx path w =
    (Inr (current_head (w_db w) path + 1), w\<lparr>w_db := set_head path (current_head (w_db w) path + 1) (w_db w)\<rparr>)"
proof -
  have hd: "distinct (map fst (t_head (w_db w)))" using assms(2) by (simp add: db_inv_def)
  have e: "ensureFileHeadTx path w = (Inr (), w\<lparr>w_db := ensured (w_db w) path\<rparr>)"
  proof (cases "row_find fst path (t_head (w_db w))")
    case None
    then have "path \<notin> fst ` set (t_head (w_db w))" by (simp add: row_find_None)
    with None assms(1) show ?thesis
      by (auto simp: ensureFileHeadTx_def select_head_def sql_query_nofault sql_exec_nofault
          ensured_def current_head_def max_def split: option.splits)
  next
    case (Some r)
    then have "path \<in> fst ` set (t_head (w_db w))" by (force dest: row_find_SomeD)
    with Some assms(1) show ?thesis
      by (simp add: ensureFileHeadTx_def select_head_def sql_query_nofault ensured_def)
  qed
  have s: "ensured (w_db w) path\<lparr>t_head := x\<rparr> = w_db w\<lparr>t_head := x\<rparr>" for x
    by (simp add: ensured_def)
  show ?thesis
    using assms(1) head_bump [OF hd, of path]
    by (simp add: nextVersionTx_def e sql_exec_nofault s select_head_def sql_query_nofault
        set_head_def row_find_upsert)
qed

lemma save_body_nofault:
  assumes "w_faults w = []" and "db_inv (w_db w)"
  shows "save_body m c ct data w =
    (Inr (current_head (w_db w) (m_Path m) + 1), w\<lparr>w_db := save_effect m c ct data (w_db w)\<rparr>)"
proof -
  let ?v = "current_head (w_db w) (m_Path m) + 1"
  have fresh: "(m_Path m, ?v) \<notin> ver_key ` set (t_version (w_db w))"
    using assms(2) by (auto simp: db_inv_def ver_key_def)
  then have freshb: "(m_Path m, ?v) \<notin> fst ` set (t_blob (w_db w))"
    using assms(2) by (auto simp: db_inv_def)
  show ?thesis
    using assms(1) fresh freshb
    by (auto simp: save_body_def nextVersionTx_nofault [OF assms] upsertMetaTx_def sql_exec_nofault
        insertSnapshotTx_def row_insert_def set_head_def saved_record_def ver_key_def save_effect_def
        add_version_def Let_def split: option.splits)
qed

lemma SaveFileSnapshot_nofault:
  assumes "w_faults w = []" and "db_inv (w_db w)"
  shows "SaveFileSnapshot m c ct data w =
    (Inr (current_head (w_db w) (m_Path m) + 1), w\<lparr>w_db := save_effect m c ct data (w_db w)\<rparr>)"
  unfolding SaveFileSnapshot_tx
  by (rule withWriteTx_nofault) (simp_all add: save_body_nofault assms)

text \<open>
  A busy database is waited for: when \<open>Begin\<close> reports \<open>SQLITE_BUSY\<close> fewer than five
  times and nothing else fails, \<open>SaveFileSnapshot\<close> succeeds after sleeping
  25, 50, 100 and 200 ms in turn, once per failed attempt.
\<close>

theorem SaveFileSnapshot_survives_busy:
  assumes "isSQLiteBusy e" and "k < 5" and "w_faults w = replicate k (Some e)" and "db_inv (w_db w)"
  shows "SaveFileSnapshot m c ct data w =
    (Inr (current_head (w_db w) (m_Path m) + 1),
     w\<lparr>w_faults := [], w_clock := w_clock w + 25 * (2 ^ k - 1) * millisecond,
       w_db := save_effect m c ct data (w_db w)\<rparr>)"
proof -
  have "wait_left k 0 = 25 * (2 ^ k - 1) * millisecond"
  proof (induction k)
    case (Suc k)
    then show ?case by (simp add: wait_left_def algebra_simps)
  qed (simp add: wait_left_def)
  then show ?thesis
    unfolding SaveFileSnapshot_tx
    using withWriteTx_busy [OF assms(1,2,3), of "save_body m c ct data"
        "current_head (w_db w) (m_Path m) + 1" "save_effect m c ct data (w_db w)"]
      save_body_nofault assms(4) by simp
qed

theorem SaveFileSnapshot_survives_busy_witness:
  "fst (SaveFileSnapshot sample_meta ''c'' ''modify'' None
     (quiet_world [] sample_db\<lparr>w_faults := replicate 2 (Some (ErrorText ''database is locked (5) (SQLITE_BUSY)''))\<rparr>))
   = Inr (current_head sample_db ''a.txt'' + 1)"
proof -
  have b: "isSQLiteBusy (ErrorText ''database is locked (5) (SQLITE_BUSY)'')" by code_simp
  show ?thesis
    using SaveFileSnapshot_survives_busy [OF b, of 2 "quiet_world [] sample_db\<lparr>w_faults :=
        replicate 2 (Some (ErrorText ''database is locked (5) (SQLITE_BUSY)''))\<rparr>" sample_meta "''c''" "''modify''" None]
    by (simp add: db_inv_sample) (simp add: sample_meta_def)
qed

theorem save_then_read_witness:
  "\<exists>v w1. SaveFileSnapshot sample_meta ''c'' ''modify'' (Some [1]) (quiet_world [] sample_db) = (Inr v, w1)
     \<and> GetVersionData ''a.txt'' v w1 = (Inr [1], w1)"
proof -
  let ?w = "quiet_world [] sample_db"
  have i: "db_inv (w_db ?w)" by (simp add: db_inv_sample)
  have g: "genuine_faults ?w" by (simp add: genuine_faults_nil)
  obtain v w1 where s: "SaveFileSnapshot sample_meta ''c'' ''modify'' (Some [1]) ?w = (Inr v, w1)"
    and f: "w_faults w1 = []"
    using SaveFileSnapshot_nofault [OF _ i] by simp
  from save_then_read [OF g i s refl f] s show ?thesis by (auto simp: sample_meta_def)
qed

text \<open>
  The escaped pattern is exact up to case: the statement of \<open>renamePathPrefixTx\<close>
  selects the path itself and what lies under a directory whose name equals the old path when
  ASCII case is ignored, and nothing else, whatever \<open>%\<close>, \<open>_\<close> or backslash the path holds.
\<close>

theorem rename_pattern_exact:
  "rename_selects a (escapeSQLiteLikePattern a @ ''/%'') p \<longleftrightarrow>
    p = a \<or> (\<exists>u s. p = u @ ''/'' @ s \<and> strings_ToLower u = strings_ToLower a)"
  unfolding rename_selects_nocase under_nocase_def strings_ToLower_def prefix_def
  by (metis append.assoc)



text \<open>
  A path with a history is never overwritten by a rename: if both the old and the new
  path have a head row (the new one may have been deleted long ago), \<open>RenamePathTree\<close> always
  fails, and leaves the tables unchanged.
\<close>

theorem RenamePathTree_refuses_known_target:
  assumes "a \<in> fst ` set (t_head (w_db w))" and "b \<in> fst ` set (t_head (w_db w))"
    and "\<not> under_nocase a b" and "a \<noteq> b"
  shows "\<exists>e w'. RenamePathTree a b w = (Inl e, w') \<and> w_db w' = w_db w"
  using RenamePathTree_blocked [OF assms] by (auto dest: tx_stepD)

theorem RenamePathTree_refuses_known_target_witness:
  "\<exists>e w'. RenamePathTree ''a'' ''b'' (quiet_world [] (empty_db\<lparr>t_head := [(''a'', 1), (''b'', 2)]\<rparr>)) = (Inl e, w')
     \<and> w_db w' = empty_db\<lparr>t_head := [(''a'', 1), (''b'', 2)]\<rparr>"
proof -
  let ?w = "quiet_world [] (empty_db\<lparr>t_head := [(''a'', 1), (''b'', 2)]\<rparr>)"
  have "''a'' \<in> fst ` set (t_head (w_db ?w))" "''b'' \<in> fst ` set (t_head (w_db ?w))" by simp_all
  moreover have "\<not> under_nocase ''a'' ''b''"
    by (auto simp: under_nocase_def prefix_def Cons_eq_append_conv)
  ultimately show ?thesis using RenamePathTree_refuses_known_target [of "''a''" ?w "''b''"] by simp
qed

text \<open>
  \<open>LIKE\<close> ignores ASCII case, so renaming \<open>docs\<close> also moves the rows stored under
  its sibling \<open>DOCS\<close>, a different directory on a case-sensitive file system.
\<close>

theorem RenamePathTree_takes_case_sibling:
  "map fst (t_head (w_db (snd (RenamePathTree ''docs'' ''papers''
     (quiet_world [] (empty_db\<lparr>t_head := [(''docs/a'', 1), (''DOCS/b'', 1), (''other'', 3)]\<rparr>))))))
   = [''papers/a'', ''papers/b'', ''other'']"
  by code_simp

end
