(* ===== verification/Mutations.thy ===== *)
theory Mutations
  imports VersionProps
begin

text \<open>
  \<open>internal/server/file_mutation_support.go\<close> and \<open>internal/conflict\<close>: the head of a file as
  the services see it, saving a snapshot, and the conflict copies that keep a stale write.

  The stores of a \<open>mutationSupport\<close> are set by \<open>newMutationSupport\<close>, so the tests for nil
  receivers are not modelled. Log lines are left out.
\<close>

section \<open>internal/conflict/conflict.go\<close>

definition hex_digit :: "nat \<Rightarrow> char" where
  "hex_digit n = ''0123456789abcdef'' ! (n mod 16)"

definition hex_EncodeToString :: "bytes \<Rightarrow> string" where
  "hex_EncodeToString bs = concat (map (\<lambda>b. [hex_digit (b div 16), hex_digit b]) bs)"

text \<open>\<open>%06x\<close> of a number below \<open>2 ^ 24\<close>, and \<open>%09d\<close> of one below \<open>10 ^ 9\<close>.\<close>

definition fmt_06x :: "nat \<Rightarrow> string" where
  "fmt_06x n = map (\<lambda>k. hex_digit (n div 16 ^ k)) (rev [0..<6])"

definition fmt_09d :: "nat \<Rightarrow> string" where
  "fmt_09d n = map (\<lambda>k. ''0123456789'' ! (n div 10 ^ k mod 10)) (rev [0..<9])"

definition randomSuffix :: "world \<Rightarrow> string \<times> world" where
  "randomSuffix w =
    (case rand_Read w of
       (Some buf, w1) \<Rightarrow> (hex_EncodeToString buf, w1)
     | (None, w1) \<Rightarrow>
       let fallback = (w_suffix w1 + 1) mod 2 ^ 64 in
       (fmt_06x (fallback mod 2 ^ 24), w1\<lparr>w_suffix := fallback\<rparr>))"

definition GenerateConflictPath :: "env \<Rightarrow> string \<Rightarrow> world \<Rightarrow> string \<times> world" where
  "GenerateConflictPath E path w =
    (let dir = filepath_Dir path; base = filepath_Base path in
     case time_Now w of
       (now, w1) \<Rightarrow>
       let ts = e_TimeFormat E now @ ''.'' @ fmt_09d (nat (now mod second)) in
       (case randomSuffix w1 of
          (suf, w2) \<Rightarrow>
          let name = base @ ''.roodox-conflict-'' @ ts @ ''-'' @ suf in
          if dir = ''.'' \<or> dir = ''/'' then (name, w2)
          else (filepath_Join [dir, name], w2)))"

section \<open>internal/fs/hash.go and slices\<close>

definition ComputeHash :: "env \<Rightarrow> bytes option \<Rightarrow> string" where
  "ComputeHash E data = e_Sha256Hex E (case data of None \<Rightarrow> [] | Some d \<Rightarrow> d)"

text \<open>The contents of a slice; a nil slice has none.\<close>

definition slice :: "bytes option \<Rightarrow> bytes" where
  "slice data = (case data of None \<Rightarrow> [] | Some d \<Rightarrow> d)"

definition node_size :: "env \<Rightarrow> node \<Rightarrow> int" where
  "node_size E n = (case n of File d _ \<Rightarrow> int (length d) | Directory _ \<Rightarrow> e_DirSize E)"

definition is_dir :: "node \<Rightarrow> bool" where
  "is_dir n = (case n of File _ _ \<Rightarrow> False | Directory _ \<Rightarrow> True)"

section \<open>internal/server/file_mutation_support.go\<close>

record fileHeadState =
  h_Exists :: bool
  h_Deleted :: bool
  h_Version :: nat
  h_Size :: int
  h_MtimeUnix :: int
  h_Hash :: string

definition no_head :: fileHeadState where
  "no_head = \<lparr>h_Exists = False, h_Deleted = False, h_Version = 0, h_Size = 0, h_MtimeUnix = 0, h_Hash = []\<rparr>"

definition head_of_record :: "version_record \<Rightarrow> fileHeadState" where
  "head_of_record rec = no_head\<lparr>h_Version := v_Version rec, h_MtimeUnix := v_MtimeUnix rec,
     h_Hash := v_Hash rec, h_Deleted := v_ChangeType rec = ''delete'',
     h_Size := (if v_ChangeType rec = ''delete'' then 0 else v_Size rec)\<rparr>"

definition ResolveFileHead :: "env \<Rightarrow> string \<Rightarrow> fileHeadState io" where
  "ResolveFileHead E path w =
    (case GetLatestRecord path w of
       (latest, w1) \<Rightarrow>
       let step1 = (case latest of
           Inr rec \<Rightarrow> Inr (head_of_record rec)
         | Inl e \<Rightarrow> if errors_Is e ErrNotExist then Inr no_head else Inl e) in
       (case step1 of
          Inl e \<Rightarrow> (Inl e, w1)
        | Inr head \<Rightarrow>
          (case GetMeta path w1 of
             (Inr m, w2) \<Rightarrow>
               (Inr (head\<lparr>h_Exists := True, h_Deleted := False, h_Version := m_Version m,
                       h_Size := m_Size m, h_MtimeUnix := m_MtimeUnix m, h_Hash := m_Hash m\<rparr>), w2)
           | (Inl e, w2) \<Rightarrow>
               if \<not> errors_Is e ErrNotExist then (Inl e, w2)
               else if h_Deleted head then (Inr head, w2)
               else
                 (case FS_Stat E path w2 of
                    (Inr n, w3) \<Rightarrow>
                      (Inr (head\<lparr>h_Exists := True, h_Size := node_size E n,
                               h_MtimeUnix := time_Unix (node_mtime n)\<rparr>), w3)
                  | (Inl e, w3) \<Rightarrow>
                      if errors_Is e ErrNotExist then (Inr head, w3) else (Inl e, w3)))))"

text \<open>The hooks of \<open>cleanup_hooks.go\<close>: the calls are counted.\<close>

definition TriggerMutation :: "world \<Rightarrow> world" where
  "TriggerMutation w = w\<lparr>w_mutations := w_mutations w + 1\<rparr>"

definition TriggerConflict :: "world \<Rightarrow> world" where
  "TriggerConflict w = w\<lparr>w_conflicts := w_conflicts w + 1\<rparr>"

definition snapshot_meta :: "env \<Rightarrow> string \<Rightarrow> bytes option \<Rightarrow> gotime \<Rightarrow> meta" where
  "snapshot_meta E path data now =
    \<lparr>m_Path = path, m_IsDir = False, m_Size = int (length (slice data)),
     m_MtimeUnix = time_Unix now, m_Hash = ComputeHash E data, m_Version = 0\<rparr>"

definition mut_SaveFileSnapshot :: "env \<Rightarrow> string \<Rightarrow> bool \<Rightarrow> bytes option \<Rightarrow> nat io" where
  "mut_SaveFileSnapshot E path existed data w =
    (case time_Now w of
       (now, w1) \<Rightarrow>
       let changeType = (if \<not> existed then ''create'' else ''modify'') in
       (case SaveFileSnapshot (snapshot_meta E path data now) [] changeType data w1 of
          (Inl e, w2) \<Rightarrow> (Inl e, w2)
        | (Inr newVersion, w2) \<Rightarrow> (Inr newVersion, TriggerMutation w2)))"

definition file_Close :: "unit io" where
  "file_Close = with_fault (\<lambda>w. (Inr (), w))"

definition writeFileExclusive :: "env \<Rightarrow> string \<Rightarrow> bytes option \<Rightarrow> unit io" where
  "writeFileExclusive E path data w =
    (case ResolvePath (e_Getwd E) (e_RootDir E) path of
       Inl e \<Rightarrow> (Inl e, w)
     | Inr fullPath \<Rightarrow>
       (case os_MkdirAll (filepath_Dir fullPath) w of
          (Inl e, w1) \<Rightarrow> (Inl e, w1)
        | (Inr _, w1) \<Rightarrow>
          (case os_OpenExcl fullPath w1 of
             (Inl e, w2) \<Rightarrow> (Inl e, w2)
           | (Inr _, w2) \<Rightarrow>
             (case file_Update fullPath (\<lambda>d. Inr (d @ slice data)) w2 of
                (writeErr, w3) \<Rightarrow>
                (case file_Close w3 of
                   (closeErr, w4) \<Rightarrow>
                   (case writeErr of
                      Inl e \<Rightarrow> (Inl e, snd (os_Remove fullPath w4))
                    | Inr _ \<Rightarrow>
                      (case closeErr of
                         Inl e \<Rightarrow> (Inl e, snd (os_Remove fullPath w4))
                       | Inr _ \<Rightarrow> (Inr (), w4))))))))"

abbreviation maxConflictWriteAttempts :: nat where "maxConflictWriteAttempts \<equiv> 32"

fun writeConflict_loop :: "nat \<Rightarrow> env \<Rightarrow> string \<Rightarrow> bytes option \<Rightarrow> string io" where
  "writeConflict_loop 0 E path data w = (Inl (Sentinel ErrExist), w)"
| "writeConflict_loop (Suc n) E path data w =
    (case GenerateConflictPath E path w of
       (conflictPath, w1) \<Rightarrow>
       (case writeFileExclusive E conflictPath data w1 of
          (Inl e, w2) \<Rightarrow>
            if errors_Is e ErrExist then writeConflict_loop n E path data w2 else (Inl e, w2)
        | (Inr _, w2) \<Rightarrow> (Inr conflictPath, TriggerConflict w2)))"

definition mut_writeConflictFile :: "env \<Rightarrow> string \<Rightarrow> bytes option \<Rightarrow> string io" where
  "mut_writeConflictFile = writeConflict_loop maxConflictWriteAttempts"

definition loadVersionSnapshot :: "string \<Rightarrow> nat \<Rightarrow> bytes io" where
  "loadVersionSnapshot path version w =
    (if version = 0 then (Inr [], w)
     else
       (case GetRecord path version w of
          (Inl e, w1) \<Rightarrow> (Inl e, w1)
        | (Inr rec, w1) \<Rightarrow>
          if v_ChangeType rec = ''delete'' then (Inr [], w1)
          else GetVersionData path version w1))"

end
