(* ===== verification/CoreService.thy ===== *)
theory CoreService
  imports Mutations
begin

text \<open>
  \<open>internal/server/core_service.go\<close>: the handlers on files and directories.

  A handler is one step on the world: it runs under the path lock it takes (\<open>PathLocker\<close>), and
  the requests' fields are its arguments. Log lines are left out; the recorder's
  \<open>RecordRangeWrite\<close> is a list in the world. Slices as long as memory allows can be allocated.
\<close>

section \<open>Messages\<close>

record FileInfo =
  fi_Path :: string
  fi_Name :: string
  fi_IsDir :: bool
  fi_Size :: int
  fi_MtimeUnix :: int
  fi_Version :: nat
  fi_Hash :: string

record WriteFileRangeResponse =
  wr_BytesWritten :: int
  wr_FileSize :: int
  wr_NewVersion :: nat
  wr_Conflicted :: bool
  wr_ConflictPath :: string

record SetFileSizeResponse =
  sr_FileSize :: int
  sr_NewVersion :: nat
  sr_Conflicted :: bool
  sr_ConflictPath :: string

definition joinRelPath :: "string \<Rightarrow> string \<Rightarrow> string" where
  "joinRelPath dir name = (if dir = [] \<or> dir = ''.'' then name else filepath_Join [dir, name])"

definition normalizeProjectPath :: "env \<Rightarrow> string \<Rightarrow> string result" where
  "normalizeProjectPath E p = NormalizeProjectPath (e_Getwd E) (e_RootDir E) p"

section \<open>Reading\<close>

text \<open>\<open>DirEntry.Info\<close> reads the entry again.\<close>

definition entry_Info :: "node \<Rightarrow> node io" where
  "entry_Info n = with_fault (\<lambda>w. (Inr n, w))"

definition file_info :: "env \<Rightarrow> string \<Rightarrow> string \<Rightarrow> node \<Rightarrow> nat \<Rightarrow> string \<Rightarrow> FileInfo" where
  "file_info E path name n version hash =
    \<lparr>fi_Path = path, fi_Name = name, fi_IsDir = is_dir n, fi_Size = node_size E n,
     fi_MtimeUnix = time_Unix (node_mtime n), fi_Version = version, fi_Hash = hash\<rparr>"

fun ListDir_loop :: "env \<Rightarrow> string \<Rightarrow> (string \<times> node) list \<Rightarrow> FileInfo list \<Rightarrow> FileInfo list rpc" where
  "ListDir_loop E path [] acc w = (Inr acc, w)"
| "ListDir_loop E path ((name, n) # es) acc w =
    (case entry_Info n w of
       (Inl _, w1) \<Rightarrow> ListDir_loop E path es acc w1
     | (Inr fi, w1) \<Rightarrow>
       if ShouldIgnore name then ListDir_loop E path es acc w1
       else
         let relPath = joinRelPath path name in
         (case GetMeta relPath w1 of
            (Inl e, w2) \<Rightarrow>
              if \<not> errors_Is e ErrNotExist then (Inl (toGrpcError e), w2)
              else ListDir_loop E path es (acc @ [file_info E relPath name fi 0 []]) w2
          | (Inr m, w2) \<Rightarrow>
              ListDir_loop E path es
                (acc @ [file_info E relPath name fi (m_Version m) (m_Hash m)]) w2))"

definition Core_ListDir :: "env \<Rightarrow> string \<Rightarrow> FileInfo list rpc" where
  "Core_ListDir E reqPath w =
    (case normalizeProjectPath E reqPath of
       Inl e \<Rightarrow> (Inl (toGrpcError e), w)
     | Inr path \<Rightarrow>
       (case FS_ListDir E path w of
          (Inl e, w1) \<Rightarrow> (Inl (toGrpcError e), w1)
        | (Inr entries, w1) \<Rightarrow> ListDir_loop E path entries [] w1))"

definition Core_Stat :: "env \<Rightarrow> string \<Rightarrow> FileInfo rpc" where
  "Core_Stat E reqPath w =
    (case normalizeProjectPath E reqPath of
       Inl e \<Rightarrow> (Inl (toGrpcError e), w)
     | Inr path \<Rightarrow>
       (case FS_Stat E path w of
          (Inl e, w1) \<Rightarrow> (Inl (toGrpcError e), w1)
        | (Inr fi, w1) \<Rightarrow>
          let name = (case resolvePath E path of Inl _ \<Rightarrow> [] | Inr full \<Rightarrow> filepath_Base full) in
          (case GetMeta path w1 of
             (Inl e, w2) \<Rightarrow>
               if \<not> errors_Is e ErrNotExist then (Inl (toGrpcError e), w2)
               else (Inr (file_info E path name fi 0 []), w2)
           | (Inr m, w2) \<Rightarrow> (Inr (file_info E path name fi (m_Version m) (m_Hash m)), w2))))"

definition Core_ReadFile :: "env \<Rightarrow> string \<Rightarrow> bytes rpc" where
  "Core_ReadFile E reqPath w =
    (case normalizeProjectPath E reqPath of
       Inl e \<Rightarrow> (Inl (toGrpcError e), w)
     | Inr path \<Rightarrow>
       (case FS_ReadFile E path w of
          (Inl e, w1) \<Rightarrow> (Inl (toGrpcError e), w1)
        | (Inr d, w1) \<Rightarrow> (Inr d, w1)))"

definition Core_ReadFileRange :: "env \<Rightarrow> string \<Rightarrow> int \<Rightarrow> int \<Rightarrow> (bytes \<times> int) rpc" where
  "Core_ReadFileRange E reqPath offset len w =
    (case normalizeProjectPath E reqPath of
       Inl e \<Rightarrow> (Inl (toGrpcError e), w)
     | Inr path \<Rightarrow>
       (case FS_ReadAt E path offset len w of
          (Inl e, w1) \<Rightarrow> (Inl (toGrpcError e), w1)
        | (Inr r, w1) \<Rightarrow> (Inr r, w1)))"

section \<open>Conflict data\<close>

definition maxSliceLen :: int where
  "maxSliceLen = max_i64"

definition applyRangeMutation :: "bytes \<Rightarrow> int \<Rightarrow> bytes option \<Rightarrow> bytes result" where
  "applyRangeMutation baseData offset data =
    (if offset < 0 then Inl (ErrorText ''offset must be >= 0'')
     else
       let end = i64 (offset + int (length (slice data))) in
       if end < offset then Inl (ErrorText ''offset overflow'')
       else
         let sz0 = int (length baseData);
             sz = (if end > sz0 then end else sz0) in
         if sz > maxSliceLen then Inl (ErrorText ''resulting file is too large'')
         else
           let out = take (nat sz) baseData @ replicate (nat sz - length baseData) 0;
               room = nat sz - nat offset;
               n = min room (length (slice data)) in
           Inr (take (nat offset) out @ take n (slice data) @ drop (nat offset + n) out))"

definition resizeFileData :: "bytes \<Rightarrow> int \<Rightarrow> bytes result" where
  "resizeFileData baseData sz =
    (if sz < 0 then Inl (ErrorText ''size must be >= 0'')
     else if sz > maxSliceLen then Inl (ErrorText ''resulting file is too large'')
     else Inr (take (nat sz) baseData @ replicate (nat sz - length baseData) 0))"

definition buildRangeConflictData :: "string \<Rightarrow> nat \<Rightarrow> int \<Rightarrow> bytes option \<Rightarrow> bytes io" where
  "buildRangeConflictData path baseVersion offset data w =
    (case loadVersionSnapshot path baseVersion w of
       (Inl e, w1) \<Rightarrow> (Inl e, w1)
     | (Inr baseData, w1) \<Rightarrow> (applyRangeMutation baseData offset data, w1))"

definition buildSetFileSizeConflictData :: "string \<Rightarrow> nat \<Rightarrow> int \<Rightarrow> bytes io" where
  "buildSetFileSizeConflictData path baseVersion sz w =
    (case loadVersionSnapshot path baseVersion w of
       (Inl e, w1) \<Rightarrow> (Inl e, w1)
     | (Inr baseData, w1) \<Rightarrow> (resizeFileData baseData sz, w1))"

text \<open>Both handlers keep the stale change in a conflict copy when they can, and report none otherwise.\<close>

definition keep_conflict_copy :: "env \<Rightarrow> string \<Rightarrow> bytes io \<Rightarrow> world \<Rightarrow> string \<times> world" where
  "keep_conflict_copy E path build w =
    (case build w of
       (Inl _, w1) \<Rightarrow> ([], w1)
     | (Inr conflictData, w1) \<Rightarrow>
       (case mut_writeConflictFile E path (Some conflictData) w1 of
          (Inl _, w2) \<Rightarrow> ([], w2)
        | (Inr conflictPath, w2) \<Rightarrow> (conflictPath, w2)))"

section \<open>Writing\<close>

definition RecordRangeWrite :: "string \<Rightarrow> int \<Rightarrow> bool \<Rightarrow> world \<Rightarrow> world" where
  "RecordRangeWrite path n conflicted w =
    w\<lparr>w_rangeWrites := w_rangeWrites w @ [(path, n, conflicted)]\<rparr>"

text \<open>After the head is known the handler's result passes through the deferred \<open>RecordRangeWrite\<close>.\<close>

definition stale_base :: "nat \<Rightarrow> fileHeadState \<Rightarrow> bool" where
  "stale_base baseVersion head \<longleftrightarrow>
    baseVersion \<noteq> 0 \<and> h_Version head \<noteq> 0 \<and> baseVersion \<noteq> h_Version head"

definition write_range_live :: "env \<Rightarrow> string \<Rightarrow> fileHeadState \<Rightarrow> int \<Rightarrow> bytes option
    \<Rightarrow> WriteFileRangeResponse rpc" where
  "write_range_live E path head offset data w =
    (case FS_WriteAt E path offset (slice data) w of
       (Inl e, w1) \<Rightarrow> (Inl (toGrpcError e), w1)
     | (Inr (bytesWritten, fileSize), w1) \<Rightarrow>
       (case FS_ReadFile E path w1 of
          (Inl e, w2) \<Rightarrow> (Inl (toGrpcError e), w2)
        | (Inr fullData, w2) \<Rightarrow>
          (case mut_SaveFileSnapshot E path (h_Exists head) (Some fullData) w2 of
             (Inl e, w3) \<Rightarrow> (Inl (toGrpcError e), w3)
           | (Inr newVersion, w3) \<Rightarrow>
               (Inr \<lparr>wr_BytesWritten = bytesWritten, wr_FileSize = fileSize,
                     wr_NewVersion = newVersion, wr_Conflicted = False, wr_ConflictPath = []\<rparr>, w3))))"

definition Core_WriteFileRange :: "env \<Rightarrow> string \<Rightarrow> int \<Rightarrow> bytes option \<Rightarrow> nat
    \<Rightarrow> WriteFileRangeResponse rpc" where
  "Core_WriteFileRange E reqPath offset data baseVersion w =
    (if offset < 0 then (Inl (invalidArgument ''offset must be >= 0''), w)
     else case normalizeProjectPath E reqPath of
       Inl e \<Rightarrow> (Inl (toGrpcError e), w)
     | Inr path \<Rightarrow>
       (case ResolveFileHead E path w of
          (Inl e, w1) \<Rightarrow> (Inl (toGrpcError e), w1)
        | (Inr head, w1) \<Rightarrow>
          if stale_base baseVersion head then
            (case keep_conflict_copy E path (buildRangeConflictData path baseVersion offset data) w1 of
               (conflictPath, w2) \<Rightarrow>
                 (Inr \<lparr>wr_BytesWritten = 0, wr_FileSize = h_Size head, wr_NewVersion = h_Version head,
                       wr_Conflicted = True, wr_ConflictPath = conflictPath\<rparr>,
                  RecordRangeWrite path (int (length (slice data))) True w2))
          else
            (case write_range_live E path head offset data w1 of
               (r, w2) \<Rightarrow> (r, RecordRangeWrite path (int (length (slice data))) False w2))))"

definition set_size_live :: "env \<Rightarrow> string \<Rightarrow> fileHeadState \<Rightarrow> int \<Rightarrow> SetFileSizeResponse rpc" where
  "set_size_live E path head sz w =
    (case FS_SetFileSize E path sz w of
       (Inl e, w1) \<Rightarrow> (Inl (toGrpcError e), w1)
     | (Inr fileSize, w1) \<Rightarrow>
       (case FS_ReadFile E path w1 of
          (Inl e, w2) \<Rightarrow> (Inl (toGrpcError e), w2)
        | (Inr fullData, w2) \<Rightarrow>
          (case mut_SaveFileSnapshot E path (h_Exists head) (Some fullData) w2 of
             (Inl e, w3) \<Rightarrow> (Inl (toGrpcError e), w3)
           | (Inr newVersion, w3) \<Rightarrow>
               (Inr \<lparr>sr_FileSize = fileSize, sr_NewVersion = newVersion, sr_Conflicted = False,
                     sr_ConflictPath = []\<rparr>, w3))))"

definition Core_SetFileSize :: "env \<Rightarrow> string \<Rightarrow> int \<Rightarrow> nat \<Rightarrow> SetFileSizeResponse rpc" where
  "Core_SetFileSize E reqPath sz baseVersion w =
    (if sz < 0 then (Inl (invalidArgument ''size must be >= 0''), w)
     else case normalizeProjectPath E reqPath of
       Inl e \<Rightarrow> (Inl (toGrpcError e), w)
     | Inr path \<Rightarrow>
       (case ResolveFileHead E path w of
          (Inl e, w1) \<Rightarrow> (Inl (toGrpcError e), w1)
        | (Inr head, w1) \<Rightarrow>
          if stale_base baseVersion head then
            (case keep_conflict_copy E path (buildSetFileSizeConflictData path baseVersion sz) w1 of
               (conflictPath, w2) \<Rightarrow>
                 (Inr \<lparr>sr_FileSize = h_Size head, sr_NewVersion = h_Version head,
                       sr_Conflicted = True, sr_ConflictPath = conflictPath\<rparr>, w2))
          else if h_Exists head \<and> h_Size head = sz then
            (case FS_Stat E path w1 of
               (Inr _, w2) \<Rightarrow>
                 (Inr \<lparr>sr_FileSize = h_Size head, sr_NewVersion = h_Version head,
                       sr_Conflicted = False, sr_ConflictPath = []\<rparr>, w2)
             | (Inl _, w2) \<Rightarrow> set_size_live E path head sz w2)
          else set_size_live E path head sz w1))"

section \<open>Deleting, renaming, making directories\<close>

definition Core_Delete :: "env \<Rightarrow> string \<Rightarrow> unit rpc" where
  "Core_Delete E reqPath w =
    (case normalizeProjectPath E reqPath of
       Inl e \<Rightarrow> (Inl (toGrpcError e), w)
     | Inr path \<Rightarrow>
       (case GetMeta path w of
          (m, w1) \<Rightarrow>
          (case (case m of
                   Inr m \<Rightarrow> Inr (m_Size m)
                 | Inl e \<Rightarrow> if \<not> errors_Is e ErrNotExist then Inl e else Inr 0) of
             Inl e \<Rightarrow> (Inl (toGrpcError e), w1)
           | Inr sz \<Rightarrow>
             (case FS_Remove E path w1 of
                (Inl e, w2) \<Rightarrow> (Inl (toGrpcError e), w2)
              | (Inr _, w2) \<Rightarrow>
                (case time_Now w2 of
                   (now, w3) \<Rightarrow>
                   (case AppendDeleteSnapshot path sz (time_Unix now) [] w3 of
                      (Inl e, w4) \<Rightarrow> (Inl (toGrpcError e), w4)
                    | (Inr _, w4) \<Rightarrow> (Inr (), TriggerMutation w4)))))))"

definition Core_Rename :: "env \<Rightarrow> string \<Rightarrow> string \<Rightarrow> unit rpc" where
  "Core_Rename E reqOld reqNew w =
    (case normalizeProjectPath E reqOld of
       Inl e \<Rightarrow> (Inl (toGrpcError e), w)
     | Inr oldPath \<Rightarrow>
       (case normalizeProjectPath E reqNew of
          Inl e \<Rightarrow> (Inl (toGrpcError e), w)
        | Inr newPath \<Rightarrow>
          if oldPath = newPath then (Inr (), w)
          else
            (case FS_Rename E oldPath newPath w of
               (Inl e, w1) \<Rightarrow> (Inl (toGrpcError e), w1)
             | (Inr _, w1) \<Rightarrow>
               (case RenamePathTree oldPath newPath w1 of
                  (Inl e, w2) \<Rightarrow> (Inl (toGrpcError e), snd (FS_Rename E newPath oldPath w2))
                | (Inr _, w2) \<Rightarrow> (Inr (), TriggerMutation w2)))))"

definition Core_Mkdir :: "env \<Rightarrow> string \<Rightarrow> unit rpc" where
  "Core_Mkdir E reqPath w =
    (case normalizeProjectPath E reqPath of
       Inl e \<Rightarrow> (Inl (toGrpcError e), w)
     | Inr path \<Rightarrow>
       (case FS_Mkdir E path w of
          (Inl e, w1) \<Rightarrow> (Inl (toGrpcError e), w1)
        | (Inr _, w1) \<Rightarrow>
          (case SetMeta \<lparr>m_Path = path, m_IsDir = True, m_Size = 0, m_MtimeUnix = 0,
                         m_Hash = [], m_Version = 0\<rparr> w1 of
             (Inl e, w2) \<Rightarrow> (Inl (toGrpcError e), w2)
           | (Inr _, w2) \<Rightarrow> (Inr (), TriggerMutation w2))))"

end
