(* ===== verification/SyncService.thy ===== *)
theory SyncService
  imports CoreService
begin

text \<open>
  \<open>internal/server/sync_service.go\<close>: whole-file writes with a base version, the listing of
  changes, and the cleanup of conflict copies; \<open>internal/server/version_service.go\<close>: reading
  history.

  The service's own state (policy and time of the last sweep) is \<open>sync_state\<close>; a handler takes
  and returns it with the world.
\<close>

section \<open>State and messages\<close>

record sync_state =
  conflictFileTTL :: duration
  conflictMaxCopiesPerPath :: int
  conflictCleanupInterval :: duration
  lastConflictCleanup :: gotime

definition NewSyncService :: sync_state where
  "NewSyncService = \<lparr>conflictFileTTL = 7 * 24 * 3600 * second, conflictMaxCopiesPerPath = 20,
     conflictCleanupInterval = 3600 * second, lastConflictCleanup = zero_time\<rparr>"

definition ConfigureConflictCleanup :: "duration \<Rightarrow> int \<Rightarrow> duration \<Rightarrow> sync_state \<Rightarrow> sync_state" where
  "ConfigureConflictCleanup ttl maxCopies interval S =
    S\<lparr>conflictFileTTL := ttl, conflictMaxCopiesPerPath := maxCopies, conflictCleanupInterval := interval\<rparr>"

record FileMeta =
  fm_Path :: string
  fm_Version :: nat
  fm_MtimeUnix :: int
  fm_Hash :: string
  fm_Size :: int

record WriteFileResponse =
  wf_Conflicted :: bool
  wf_ConflictPath :: string
  wf_NewVersion :: nat

definition meta_message :: "meta \<Rightarrow> FileMeta" where
  "meta_message m = \<lparr>fm_Path = m_Path m, fm_Version = m_Version m, fm_MtimeUnix = m_MtimeUnix m,
     fm_Hash = m_Hash m, fm_Size = m_Size m\<rparr>"

section \<open>Cleanup of conflict copies\<close>

definition stringsHasConflictPrefix :: "string \<Rightarrow> string \<Rightarrow> bool" where
  "stringsHasConflictPrefix name p \<longleftrightarrow> length name > length p \<and> take (length p) name = p"

text \<open>A copy: its full path, its name and its modification time.\<close>

type_synonym conflictFileInfo = "string \<times> string \<times> gotime"

fun conflict_candidates :: "string \<Rightarrow> string \<Rightarrow> (string \<times> node) list \<Rightarrow> world
    \<Rightarrow> conflictFileInfo list \<times> world" where
  "conflict_candidates dir pre [] w = ([], w)"
| "conflict_candidates dir pre ((name, n) # es) w =
    (if is_dir n then conflict_candidates dir pre es w
     else if \<not> stringsHasConflictPrefix name pre then conflict_candidates dir pre es w
     else
       (case entry_Info n w of
          (Inl _, w1) \<Rightarrow> conflict_candidates dir pre es w1
        | (Inr info, w1) \<Rightarrow>
          (case conflict_candidates dir pre es w1 of
             (cs, w2) \<Rightarrow> ((filepath_Join [dir, name], name, node_mtime info) # cs, w2))))"

definition newest_first :: "conflictFileInfo list \<Rightarrow> conflictFileInfo list" where
  "newest_first cs = sort_key (\<lambda>(full, name, t). Desc (t, name)) cs"

definition copy_expired :: "sync_state \<Rightarrow> gotime \<Rightarrow> nat \<Rightarrow> conflictFileInfo \<Rightarrow> bool" where
  "copy_expired S now idx c \<longleftrightarrow>
    conflictFileTTL S > 0 \<and> time_Sub now (snd (snd c)) > conflictFileTTL S
    \<or> conflictMaxCopiesPerPath S > 0 \<and> int idx \<ge> conflictMaxCopiesPerPath S"

fun remove_expired :: "sync_state \<Rightarrow> gotime \<Rightarrow> nat \<Rightarrow> conflictFileInfo list \<Rightarrow> world \<Rightarrow> world" where
  "remove_expired S now idx [] w = w"
| "remove_expired S now idx (c # cs) w =
    remove_expired S now (idx + 1) cs
      (if copy_expired S now idx c then snd (os_Remove (fst c) w) else w)"

definition cleanupConflictCopiesForPath :: "sync_state \<Rightarrow> env \<Rightarrow> string \<Rightarrow> gotime \<Rightarrow> unit io" where
  "cleanupConflictCopiesForPath S E path now w =
    (case ResolvePath (e_Getwd E) (e_RootDir E) path of
       Inl e \<Rightarrow> (Inl e, w)
     | Inr fullPath \<Rightarrow>
       let dir = filepath_Dir fullPath in
       (case os_ReadDir dir w of
          (Inl e, w1) \<Rightarrow> if errors_Is e ErrNotExist then (Inr (), w1) else (Inl e, w1)
        | (Inr entries, w1) \<Rightarrow>
          (case conflict_candidates dir (filepath_Base fullPath @ ''.roodox-conflict-'') entries w1 of
             (cs, w2) \<Rightarrow> (Inr (), remove_expired S now 0 (newest_first cs) w2))))"

text \<open>
  \<open>filepath.WalkDir\<close> from the root, in lexical order: \<open>Inr False\<close> for a directory not to be
  entered. The walk descends at most as deep as the tree; each directory is read when it is
  reached, a directory that cannot be read is passed over.
\<close>

definition visit_conflict :: "sync_state \<Rightarrow> gotime \<Rightarrow> string \<Rightarrow> string \<Rightarrow> node \<Rightarrow> world \<Rightarrow> world" where
  "visit_conflict S now path name n w =
    (if \<not> IsConflictPath name then w
     else
       (case entry_Info n w of
          (Inl _, w1) \<Rightarrow> w1
        | (Inr info, w1) \<Rightarrow>
            if time_Sub now (node_mtime info) \<le> conflictFileTTL S then w1
            else snd (os_Remove path w1)))"

fun walk_conflicts :: "nat \<Rightarrow> sync_state \<Rightarrow> gotime \<Rightarrow> string \<Rightarrow> (string \<times> node) list \<Rightarrow> world \<Rightarrow> world" where
  "walk_conflicts fuel S now dir [] w = w"
| "walk_conflicts 0 S now dir (e # es) w = w"
| "walk_conflicts (Suc fuel) S now dir ((name, n) # es) w =
    (let path = filepath_Join [dir, name];
         w1 = (if is_dir n then
                 if ShouldIgnore name then w
                 else (case os_ReadDir path w of
                         (Inl _, w1) \<Rightarrow> w1
                       | (Inr entries, w1) \<Rightarrow> walk_conflicts fuel S now path entries w1)
               else visit_conflict S now path name n w) in
     walk_conflicts (Suc fuel) S now dir es w1)"

definition tree_depth :: "fstree \<Rightarrow> nat" where
  "tree_depth t = foldr max (map (\<lambda>(k, _). length k) t) 0"

definition cleanupExpiredConflictFiles :: "sync_state \<Rightarrow> env \<Rightarrow> gotime \<Rightarrow> world \<Rightarrow> world" where
  "cleanupExpiredConflictFiles S E now w =
    (if conflictFileTTL S \<le> 0 then w
     else
       (case os_Stat (e_RootDir E) w of
          (Inl _, w1) \<Rightarrow> w1
        | (Inr root, w1) \<Rightarrow>
          if \<not> is_dir root then visit_conflict S now (e_RootDir E) (filepath_Base (e_RootDir E)) root w1
          else
            (case os_ReadDir (e_RootDir E) w1 of
               (Inl _, w2) \<Rightarrow> w2
             | (Inr entries, w2) \<Rightarrow>
                 walk_conflicts (tree_depth (w_fs w2) + 1) S now (e_RootDir E) entries w2)))"

definition maybeCleanupExpiredConflictFiles :: "env \<Rightarrow> gotime \<Rightarrow> sync_state \<Rightarrow> world \<Rightarrow> sync_state \<times> world" where
  "maybeCleanupExpiredConflictFiles E now S w =
    (if conflictFileTTL S \<le> 0 \<or> conflictCleanupInterval S \<le> 0 then (S, w)
     else if \<not> time_IsZero (lastConflictCleanup S)
             \<and> time_Sub now (lastConflictCleanup S) < conflictCleanupInterval S then (S, w)
     else
       let S1 = S\<lparr>lastConflictCleanup := now\<rparr> in
       (S1, cleanupExpiredConflictFiles S1 E now w))"

definition Sync_writeConflictFile :: "env \<Rightarrow> string \<Rightarrow> bytes option \<Rightarrow> sync_state \<Rightarrow> world
    \<Rightarrow> string result \<times> sync_state \<times> world" where
  "Sync_writeConflictFile E path data S w =
    (case mut_writeConflictFile E path data w of
       (Inl e, w1) \<Rightarrow>
         (Inl (Wrapf (''generate unique conflict file for '' @ [CHR 0x22] @ path @ [CHR 0x22] @ '': '') e []), S, w1)
     | (Inr conflictPath, w1) \<Rightarrow>
       (case time_Now w1 of
          (now, w2) \<Rightarrow>
          let w3 = snd (cleanupConflictCopiesForPath S E path now w2) in
          (case maybeCleanupExpiredConflictFiles E now S w3 of
             (S1, w4) \<Rightarrow> (Inr conflictPath, S1, w4))))"

section \<open>Handlers\<close>

definition Sync_GetFileMeta :: "env \<Rightarrow> string \<Rightarrow> FileMeta rpc" where
  "Sync_GetFileMeta E reqPath w =
    (case normalizeProjectPath E reqPath of
       Inl e \<Rightarrow> (Inl (toGrpcError e), w)
     | Inr path \<Rightarrow>
       (case GetMeta path w of
          (Inr m, w1) \<Rightarrow> (Inr (meta_message m), w1)
        | (Inl e, w1) \<Rightarrow>
          if \<not> errors_Is e ErrNotExist then (Inl (toGrpcError e), w1)
          else
            (case FS_Stat E path w1 of
               (Inr info, w2) \<Rightarrow>
                 (Inr \<lparr>fm_Path = path, fm_Version = 0, fm_MtimeUnix = time_Unix (node_mtime info),
                       fm_Hash = [], fm_Size = node_size E info\<rparr>, w2)
             | (Inl e, w2) \<Rightarrow>
                 if \<not> errors_Is e ErrNotExist then (Inl (toGrpcError e), w2)
                 else (Inr \<lparr>fm_Path = path, fm_Version = 0, fm_MtimeUnix = 0, fm_Hash = [],
                            fm_Size = 0\<rparr>, w2))))"

definition write_live :: "env \<Rightarrow> string \<Rightarrow> fileHeadState \<Rightarrow> bytes option \<Rightarrow> WriteFileResponse rpc" where
  "write_live E path head data w =
    (case FS_WriteFile E path (slice data) w of
       (Inl e, w1) \<Rightarrow> (Inl (toGrpcError e), w1)
     | (Inr _, w1) \<Rightarrow>
       (case mut_SaveFileSnapshot E path (h_Exists head) data w1 of
          (Inl e, w2) \<Rightarrow> (Inl (toGrpcError e), w2)
        | (Inr newVersion, w2) \<Rightarrow>
            (Inr \<lparr>wf_Conflicted = False, wf_ConflictPath = [], wf_NewVersion = newVersion\<rparr>, w2)))"

definition doWriteFile :: "env \<Rightarrow> string \<Rightarrow> bytes option \<Rightarrow> nat \<Rightarrow> sync_state \<Rightarrow> world
    \<Rightarrow> (status + WriteFileResponse) \<times> sync_state \<times> world" where
  "doWriteFile E reqPath data baseVersion S w =
    (case normalizeProjectPath E reqPath of
       Inl e \<Rightarrow> (Inl (toGrpcError e), S, w)
     | Inr path \<Rightarrow>
       (case ResolveFileHead E path w of
          (Inl e, w1) \<Rightarrow> (Inl (toGrpcError e), S, w1)
        | (Inr head, w1) \<Rightarrow>
          if stale_base baseVersion head then
            (case Sync_writeConflictFile E path data S w1 of
               (Inl e, S1, w2) \<Rightarrow> (Inl (toGrpcError e), S1, w2)
             | (Inr conflictPath, S1, w2) \<Rightarrow>
                 (Inr \<lparr>wf_Conflicted = True, wf_ConflictPath = conflictPath,
                       wf_NewVersion = h_Version head\<rparr>, S1, w2))
          else if h_Exists head \<and> h_Version head \<noteq> 0 \<and> ComputeHash E data = h_Hash head then
            (case FS_Stat E path w1 of
               (Inr _, w2) \<Rightarrow>
                 (Inr \<lparr>wf_Conflicted = False, wf_ConflictPath = [], wf_NewVersion = h_Version head\<rparr>, S, w2)
             | (Inl _, w2) \<Rightarrow>
                 (case write_live E path head data w2 of (r, w3) \<Rightarrow> (r, S, w3)))
          else (case write_live E path head data w1 of (r, w3) \<Rightarrow> (r, S, w3))))"

definition Sync_WriteFile :: "env \<Rightarrow> string \<Rightarrow> bytes option \<Rightarrow> nat \<Rightarrow> sync_state \<Rightarrow> world
    \<Rightarrow> (status + WriteFileResponse) \<times> sync_state \<times> world" where
  "Sync_WriteFile E path data baseVersion = doWriteFile E path data baseVersion"

text \<open>
  \<open>WriteFileStream\<close>: the chunks received until the end of the stream or an error of \<open>Recv\<close>.
  The buffer's bytes are a nil slice while no byte was written to it.
\<close>

record chunk =
  ck_Path :: string
  ck_BaseVersion :: nat
  ck_Data :: bytes

datatype recv = Chunk chunk | EOF | RecvErr status

fun WriteFileStream_loop :: "recv list \<Rightarrow> (string \<times> nat) option \<Rightarrow> bytes \<Rightarrow> env \<Rightarrow> sync_state \<Rightarrow> world
    \<Rightarrow> (status + WriteFileResponse) \<times> sync_state \<times> world" where
  "WriteFileStream_loop (Chunk c # cs) first buf E S w =
    WriteFileStream_loop cs
      (case first of None \<Rightarrow> Some (ck_Path c, ck_BaseVersion c) | Some x \<Rightarrow> Some x)
      (buf @ ck_Data c) E S w"
| "WriteFileStream_loop (RecvErr e # cs) first buf E S w = (Inl e, S, w)"
| "WriteFileStream_loop _ first buf E S w =
    (case first of
       None \<Rightarrow> (Inl (invalidArgument ''write stream missing first chunk''), S, w)
     | Some (path, baseVersion) \<Rightarrow>
         doWriteFile E path (if buf = [] then None else Some buf) baseVersion S w)"

definition Sync_WriteFileStream :: "recv list \<Rightarrow> env \<Rightarrow> sync_state \<Rightarrow> world
    \<Rightarrow> (status + WriteFileResponse) \<times> sync_state \<times> world" where
  "Sync_WriteFileStream cs = WriteFileStream_loop cs None []"

definition Sync_ListChangedFiles :: "nat \<Rightarrow> int \<Rightarrow> FileMeta list rpc" where
  "Sync_ListChangedFiles sinceVersion sinceMtimeUnix w =
    (if sinceVersion \<noteq> 0
     then (Inl (invalidArgument ''since_version is not supported; use since_mtime_unix for incremental scans''), w)
     else
       (case AllMetas w of
          (Inl e, w1) \<Rightarrow> (Inl (toGrpcError e), w1)
        | (Inr metas, w1) \<Rightarrow>
            (Inr (map meta_message
               (filter (\<lambda>m. \<not> (sinceMtimeUnix \<noteq> 0 \<and> m_MtimeUnix m \<le> sinceMtimeUnix)) metas)), w1)))"

section \<open>internal/server/version_service.go\<close>

definition Version_GetHistory :: "string \<Rightarrow> version_record list rpc" where
  "Version_GetHistory reqPath w =
    (case NormalizeRelativePath reqPath of
       Inl e \<Rightarrow> (Inl (toGrpcError e), w)
     | Inr path \<Rightarrow>
       (case GetHistory path w of
          (Inl e, w1) \<Rightarrow> (Inl (toGrpcError e), w1)
        | (Inr hist, w1) \<Rightarrow> (Inr hist, w1)))"

definition Version_GetVersion :: "string \<Rightarrow> nat \<Rightarrow> bytes rpc" where
  "Version_GetVersion reqPath version w =
    (case NormalizeRelativePath reqPath of
       Inl e \<Rightarrow> (Inl (toGrpcError e), w)
     | Inr path \<Rightarrow>
       (case GetRecord path version w of
          (Inl e, w1) \<Rightarrow> (Inl (toGrpcError e), w1)
        | (Inr rec, w1) \<Rightarrow>
          if v_ChangeType rec = ''delete'' then (Inr [], w1)
          else
            (case GetVersionData path version w1 of
               (Inl e, w2) \<Rightarrow> (Inl (toGrpcError e), w2)
             | (Inr data, w2) \<Rightarrow> (Inr data, w2))))"

end
