(* ===== verification/FileLaws.thy ===== *)
theory FileLaws
  imports Mutations
begin

text \<open>
  Laws of the file tree: how paths become keys, what each operating-system call changes, and
  what it leaves alone. \<open>fs_step K\<close> says that a call touched no key outside \<open>K\<close> and nothing
  but the tree and the fault script.
\<close>

section \<open>Paths as keys\<close>

lemma Split_snoc_plain:
  assumes "plain_elems ws" and "ws \<noteq> []"
  shows "strings_Split (strings_Join ws ''/'' @ ''/'') slash = ws @ [[]]"
  using plain_elems_split [OF assms] by (simp add: Split_append_gen)

lemma plain_elem_no_slash: "plain_elem c \<Longrightarrow> \<forall>x\<in>set c. x \<noteq> slash"
  by (auto simp: plain_elem_def)

lemma render_False_single [simp]: "render_path False [c] = c"
  by (simp add: render_path_def)

lemma render_False_snoc:
  "cs \<noteq> [] \<Longrightarrow> render_path False (cs @ [c]) = render_path False cs @ slash # c"
  by (simp add: render_path_def Join_snoc)

lemma Dir_render_rel:
  assumes "plain_elems cs" and "cs \<noteq> []"
  shows "filepath_Dir (render_path False cs) = render_path False (butlast cs)"
proof -
  obtain ws w where cs: "cs = ws @ [w]" using assms(2) by (metis append_butlast_last_id)
  have w: "\<forall>c\<in>set w. c \<noteq> slash" using assms(1) cs by (auto simp: plain_elem_def)
  have ws: "plain_elems ws" using assms(1) cs by simp
  show ?thesis
  proof (cases "ws = []")
    case True
    have "trim_right (\<lambda>c. c \<noteq> slash) w = []"
      using trim_right_append [OF w, of "[]"] by (simp add: trim_right_def)
    with True cs show ?thesis
      by (simp add: filepath_Dir_def filepath_Clean_def path_elems_def clean_comps_def render_path_def
          filepath_IsAbs_def strings_HasPrefix_def)
  next
    case False
    let ?p = "strings_Join ws ''/''"
    have "trim_right (\<lambda>c. c \<noteq> slash) ((?p @ ''/'') @ w) = ?p @ ''/''"
      using trim_right_append [OF w, of "?p @ ''/''"] trim_right_last [of "\<lambda>c. c \<noteq> slash" slash ?p] by simp
    then have "filepath_Dir (render_path False cs) = filepath_Clean (?p @ ''/'')"
      using False by (simp add: filepath_Dir_def render_path_def cs Join_snoc)
    moreover have "\<not> filepath_IsAbs (?p @ ''/'')"
    proof -
      have "\<not> filepath_IsAbs (render_path False ws)"
        using ws by (simp add: IsAbs_render clean_form_plain)
      moreover have "?p \<noteq> []" using render_nonempty [OF ws, of False] False by (simp add: render_path_def)
      ultimately show ?thesis using False by (cases ?p) (auto simp: render_path_def IsAbs_Cons)
    qed
    ultimately show ?thesis
      using ws False Split_snoc_plain [OF ws False] cs
      by (simp add: filepath_Clean_def path_elems_def clean_comps_def foldl_clean_plain)
  qed
qed

lemma Base_render:
  assumes "plain_elems cs" and "cs \<noteq> []"
  shows "filepath_Base (render_path r cs) = last cs"
proof -
  obtain ws w where cs: "cs = ws @ [w]" using assms(2) by (metis append_butlast_last_id)
  have w: "plain_elem w" using assms(1) cs by simp
  then have wn: "w \<noteq> []" "slash \<notin> set w" by (auto simp: plain_elem_def)
  have "\<exists>a. render_path r cs = a @ w \<and> (a = [] \<or> last a = slash)"
    by (cases "ws = []"; cases r) (auto simp: cs render_path_def Join_snoc)
  then obtain a where a: "render_path r cs = a @ w" "a = [] \<or> last a = slash" by blast
  have last: "last (a @ w) \<noteq> slash" using wn by (metis last_appendR last_in_set)
  have ne: "a @ w \<noteq> []" using wn by simp
  have t1: "trim_right (\<lambda>c. c = slash) (a @ w) = a @ w"
    using trim_right_last [of "\<lambda>c. c = slash" "last (a @ w)" "butlast (a @ w)"] last ne by simp
  have t2: "last (strings_Split (a @ w) slash) = w"
  proof (cases a rule: rev_cases)
    case Nil
    with wn show ?thesis by (simp add: Split_no_occ)
  next
    case (snoc b x)
    with a(2) have "a @ w = b @ slash # w" by simp
    with wn show ?thesis by (simp add: Split_append_gen Split_no_occ)
  qed
  show ?thesis using a t1 t2 ne wn cs by (simp add: filepath_Base_def)
qed

lemma Join_name:
  assumes "plain_elems cs" and "plain_elem c"
  shows "filepath_Join [render_path True cs, c] = render_path True (cs @ [c])"
proof -
  have cf: "clean_form True cs" using assms(1) by (rule clean_form_plain)
  then have "filepath_IsAbs (render_path True cs)" by (simp add: IsAbs_render)
  from Join_root [OF this, of "[c]"] assms(2) cf show ?thesis by simp
qed

lemma Join_name_rel:
  assumes "plain_elems cs" and "cs \<noteq> []" and "plain_elem c"
  shows "filepath_Join [render_path False cs, c] = render_path False (cs @ [c])"
proof -
  have "render_path False cs \<noteq> []" "c \<noteq> []" using assms render_nonempty by (auto simp: plain_elem_def)
  then have "filepath_Join [render_path False cs, c] = filepath_Clean (render_path False (cs @ [c]))"
    using assms(2) by (simp add: filepath_Join_def render_False_snoc)
  also have "\<dots> = render_path False (cs @ [c])"
    using assms by (simp add: clean_form_plain)
  finally show ?thesis .
qed

lemma joinRel_plain: "plain_elems (path_elems p) \<Longrightarrow> clean_form True (path_elems p)"
  by (rule clean_form_plain)

section \<open>The tree\<close>

lemma tree_get_put: "tree_get (tree_put p n t) k = (if k = p \<and> k \<noteq> [] then Some n else tree_get t k)"
  by (simp add: tree_get_def tree_put_def update_conv')

lemma tree_get_del: "tree_get (tree_del p t) k = (if k = p \<and> k \<noteq> [] then None else tree_get t k)"
  by (simp add: tree_get_def tree_del_def delete_conv')

definition fs_step :: "string list set \<Rightarrow> world \<Rightarrow> world \<Rightarrow> bool" where
  "fs_step K w w' \<longleftrightarrow>
    w_db w' = w_db w \<and> w_clock w' = w_clock w \<and> w_mutations w' = w_mutations w
    \<and> w_conflicts w' = w_conflicts w \<and> w_rangeWrites w' = w_rangeWrites w \<and> w_rand w' = w_rand w
    \<and> w_suffix w' = w_suffix w \<and> w_ticks w' = w_ticks w \<and> set (w_faults w') \<subseteq> set (w_faults w)
    \<and> (\<forall>k. k \<notin> K \<longrightarrow> tree_get (w_fs w') k = tree_get (w_fs w) k)"

lemma fs_step_refl [simp]: "fs_step K w w"
  by (simp add: fs_step_def)

lemma fs_step_trans: "fs_step K w w1 \<Longrightarrow> fs_step L w1 w2 \<Longrightarrow> fs_step (K \<union> L) w w2"
  unfolding fs_step_def by auto

lemma fs_step_mono: "fs_step K w w' \<Longrightarrow> K \<subseteq> L \<Longrightarrow> fs_step L w w'"
  unfolding fs_step_def by blast

lemma fs_step_get: "fs_step K w w' \<Longrightarrow> k \<notin> K \<Longrightarrow> tree_get (w_fs w') k = tree_get (w_fs w) k"
  by (simp add: fs_step_def)

lemma fs_step_faults: "set fs \<subseteq> set (w_faults w) \<Longrightarrow> fs_step {} w (w\<lparr>w_faults := fs\<rparr>)"
  by (simp add: fs_step_def)

text \<open>A call behind the fault script.\<close>

lemma with_fault_fs_step:
  assumes "with_fault k w = (r, w')"
    and "\<And>w0 r w'. w_fs w0 = w_fs w \<Longrightarrow> k w0 = (r, w') \<Longrightarrow> fs_step K w0 w'"
  shows "fs_step K w w'"
proof (cases "w_faults w")
  case Nil
  with assms show ?thesis by simp
next
  case (Cons f fs)
  have s: "fs_step {} w (w\<lparr>w_faults := fs\<rparr>)" by (rule fs_step_faults) (auto simp: Cons)
  show ?thesis
  proof (cases f)
    case None
    with Cons assms(1) have "k (w\<lparr>w_faults := fs\<rparr>) = (r, w')" by (simp add: with_fault_def)
    with assms(2) [of "w\<lparr>w_faults := fs\<rparr>"] have "fs_step K (w\<lparr>w_faults := fs\<rparr>) w'" by simp
    from fs_step_trans [OF s this] show ?thesis by simp
  next
    case (Some e)
    with Cons assms(1) s show ?thesis by (auto simp: with_fault_def intro: fs_step_mono)
  qed
qed

text \<open>A call that succeeds ran on the tree as it was.\<close>

lemma with_fault_ok:
  assumes "with_fault k w = (Inr x, w')"
  obtains w0 where "fs_step {} w w0" and "w_fs w0 = w_fs w" and "k w0 = (Inr x, w')"
proof (cases "w_faults w")
  case Nil
  with assms that [of w] show ?thesis by simp
next
  case (Cons f fs)
  with assms that [OF fs_step_faults [of fs w]] show ?thesis
    by (cases f) (auto simp: with_fault_def)
qed

named_theorems fs_steps

lemma fs_put: "w_fs w = t \<Longrightarrow> p \<in> K \<Longrightarrow> fs_step K w (w\<lparr>w_fs := tree_put p n t\<rparr>)"
  by (auto simp: fs_step_def tree_get_put)

lemma fs_del: "w_fs w = t \<Longrightarrow> p \<in> K \<Longrightarrow> fs_step K w (w\<lparr>w_fs := tree_del p t\<rparr>)"
  by (auto simp: fs_step_def tree_get_del)

lemma os_Stat_step [fs_steps]: "os_Stat p w = (r, w') \<Longrightarrow> fs_step {} w w'"
  unfolding os_Stat_def by (erule with_fault_fs_step) (auto split: sum.splits)

lemma os_ReadFile_step [fs_steps]: "os_ReadFile p w = (r, w') \<Longrightarrow> fs_step {} w w'"
  unfolding os_ReadFile_def by (erule with_fault_fs_step) (auto split: sum.splits node.splits)

lemma os_ReadDir_step [fs_steps]: "os_ReadDir p w = (r, w') \<Longrightarrow> fs_step {} w w'"
  unfolding os_ReadDir_def by (erule with_fault_fs_step) (auto split: sum.splits node.splits)

lemma file_Size_step [fs_steps]: "file_Size p w = (r, w') \<Longrightarrow> fs_step {} w w'"
  unfolding file_Size_def by (erule with_fault_fs_step) (auto split: option.splits node.splits)

lemma file_Close_step [fs_steps]: "file_Close w = (r, w') \<Longrightarrow> fs_step {} w w'"
  unfolding file_Close_def by (erule with_fault_fs_step) auto

lemma os_WriteFile_step [fs_steps]: "os_WriteFile p d w = (r, w') \<Longrightarrow> fs_step {path_elems p} w w'"
  unfolding os_WriteFile_def by (erule with_fault_fs_step) (auto split: sum.splits intro: fs_put)

lemma os_OpenCreate_step [fs_steps]: "os_OpenCreate p w = (r, w') \<Longrightarrow> fs_step {path_elems p} w w'"
  unfolding os_OpenCreate_def
  by (erule with_fault_fs_step) (auto split: sum.splits option.splits intro: fs_put)

lemma os_OpenExcl_step [fs_steps]: "os_OpenExcl p w = (r, w') \<Longrightarrow> fs_step {path_elems p} w w'"
  unfolding os_OpenExcl_def
  by (erule with_fault_fs_step) (auto split: option.splits intro: fs_put)

lemma file_Update_step [fs_steps]: "file_Update p f w = (r, w') \<Longrightarrow> fs_step {path_elems p} w w'"
  unfolding file_Update_def
  by (erule with_fault_fs_step) (auto split: option.splits node.splits sum.splits intro: fs_put)

lemma os_Remove_step [fs_steps]: "os_Remove p w = (r, w') \<Longrightarrow> fs_step {path_elems p} w w'"
  unfolding os_Remove_def
  by (erule with_fault_fs_step) (auto split: sum.splits node.splits if_splits intro: fs_del simp: Let_def)

subsection \<open>Making directories\<close>

lemma make_dirs_get:
  assumes "make_dirs now q cs t = (e, t')" and "\<not> (prefix k (q @ cs) \<and> length q < length k)"
  shows "tree_get t' k = tree_get t k"
  using assms
proof (induction cs arbitrary: q t)
  case Nil
  then show ?case by simp
next
  case (Cons c cs)
  have nk: "k \<noteq> q @ [c]" using Cons.prems(2) by auto
  have sub: "\<not> (prefix k ((q @ [c]) @ cs) \<and> length (q @ [c]) < length k)" using Cons.prems(2) by auto
  show ?case
    using Cons.prems(1) Cons.IH [OF _ sub] nk
    by (auto simp: tree_get_put split: option.splits node.splits)
qed

lemma make_dirs_keeps:
  "make_dirs now q cs t = (e, t') \<Longrightarrow> tree_get t k = Some n \<Longrightarrow> tree_get t' k = Some n"
proof (induction cs arbitrary: q t)
  case Nil
  then show ?case by simp
next
  case (Cons c cs)
  show ?case
  proof (cases "tree_get t (q @ [c])")
    case None
    with Cons.prems(2) have "k \<noteq> q @ [c]" by auto
    with Cons.prems(2) have "tree_get (tree_put (q @ [c]) (Directory now) t) k = Some n"
      by (simp add: tree_get_put)
    moreover have "make_dirs now (q @ [c]) cs (tree_put (q @ [c]) (Directory now) t) = (e, t')"
      using None Cons.prems(1) by simp
    ultimately show ?thesis using Cons.IH by blast
  next
    case (Some m)
    with Cons show ?thesis by (cases m) auto
  qed
qed

lemma make_dirs_ok:
  "make_dirs now q cs t = (None, t') \<Longrightarrow> walk_dirs t' q cs = None"
proof (induction cs arbitrary: q t)
  case Nil
  then show ?case by simp
next
  case (Cons c cs)
  show ?case
  proof (cases "tree_get t (q @ [c])")
    case None
    with Cons.prems have r: "make_dirs now (q @ [c]) cs (tree_put (q @ [c]) (Directory now) t) = (None, t')" by simp
    have "tree_get t' (q @ [c]) = Some (Directory now)"
      by (rule make_dirs_keeps [OF r]) (simp add: tree_get_put)
    with Cons.IH [OF r] show ?thesis by simp
  next
    case (Some m)
    show ?thesis
    proof (cases m)
      case (File d t0)
      with Some Cons.prems show ?thesis by simp
    next
      case (Directory t0)
      with Some Cons.prems have r: "make_dirs now (q @ [c]) cs t = (None, t')" by simp
      from make_dirs_keeps [OF r Some] Directory Cons.IH [OF r] show ?thesis by simp
    qed
  qed
qed

lemma os_MkdirAll_step [fs_steps]:
  "os_MkdirAll p w = (r, w') \<Longrightarrow> fs_step {k. prefix k (path_elems p)} w w'"
  unfolding os_MkdirAll_def
  by (erule with_fault_fs_step)
    (auto split: prod.splits option.splits simp: fs_step_def dest: make_dirs_get)

lemma os_MkdirAll_keeps:
  assumes "os_MkdirAll p w = (r, w')" and "tree_get (w_fs w) k = Some n"
  shows "tree_get (w_fs w') k = Some n"
  using assms unfolding os_MkdirAll_def
  by (cases "w_faults w")
    (auto simp: with_fault_def split: option.splits prod.splits intro: make_dirs_keeps)

lemma os_MkdirAll_ok:
  assumes "os_MkdirAll p w = (Inr u, w')"
  shows "walk_dirs (w_fs w') [] (path_elems p) = None"
  using assms unfolding os_MkdirAll_def
  by (elim with_fault_ok) (auto split: option.splits prod.splits dest: make_dirs_ok)

end
