(* ===== verification/ServiceLaws.thy ===== *)
theory ServiceLaws
  imports SyncService FileLaws
begin

text \<open>
  Laws of the file services: reads change nothing, conflict copies never overwrite, and what a
  live write leaves behind. \<open>keeps\<close> is the relation between two worlds used throughout: the
  tables are the same and no file or directory was changed or removed (some may be new).
\<close>

definition env_ok :: "env \<Rightarrow> bool" where
  "env_ok E \<longleftrightarrow> filepath_IsAbs (e_RootDir E) \<and> filepath_Clean (e_RootDir E) = e_RootDir E \<and> (\<forall>t. slash \<notin> set (e_TimeFormat E t))"

definition rootk :: "env \<Rightarrow> string list" where
  "rootk E = path_elems (e_RootDir E)"

definition keeps :: "world \<Rightarrow> world \<Rightarrow> bool" where
  "keeps w w' \<longleftrightarrow> w_db w' = w_db w \<and> set (w_faults w') \<subseteq> set (w_faults w)
    \<and> (\<forall>k n. tree_get (w_fs w) k = Some n \<longrightarrow> tree_get (w_fs w') k = Some n)"

lemma keeps_refl [simp]: "keeps w w"
  by (simp add: keeps_def)

lemma keeps_trans [trans]: "keeps w w1 \<Longrightarrow> keeps w1 w2 \<Longrightarrow> keeps w w2"
  by (auto simp: keeps_def)

lemma keeps_None: "keeps w w' \<Longrightarrow> tree_get (w_fs w') k = None \<Longrightarrow> tree_get (w_fs w) k = None"
  unfolding keeps_def by (metis option.exhaust)

lemma fs_step_keeps: "fs_step {} w w' \<Longrightarrow> keeps w w'"
  by (auto simp: fs_step_def keeps_def)

lemma db_step_keeps: "db_step w (w_db w) w' \<Longrightarrow> keeps w w'"
  by (auto simp: db_step_def keeps_def)

lemma keeps_TriggerConflict [simp]: "keeps w (TriggerConflict w') = keeps w w'"
  by (simp add: keeps_def TriggerConflict_def)

lemma keeps_RecordRangeWrite [simp]: "keeps w (RecordRangeWrite p n c w') = keeps w w'"
  by (simp add: keeps_def RecordRangeWrite_def)

lemma keeps_time_Now: "time_Now w = (t, w') \<Longrightarrow> keeps w w'"
  by (auto simp: time_Now_def keeps_def split: list.splits)

lemma rootk_plain: "env_ok E \<Longrightarrow> plain_elems (rootk E)"
  by (simp add: env_ok_def rootk_def path_elems_abs_plain)

lemma resolve_plain:
  assumes "env_ok E" and "plain_elems cs"
  shows "ResolvePath (e_Getwd E) (e_RootDir E) (render_path False cs) = Inr (render_path True (rootk E @ cs))"
  using assms by (simp add: env_ok_def ResolvePath_cases rootk_def clean_form_plain)

lemma resolvePath_plain:
  "env_ok E \<Longrightarrow> plain_elems cs \<Longrightarrow> resolvePath E (render_path False cs) = Inr (render_path True (rootk E @ cs))"
  by (simp add: resolvePath_def resolve_plain)

lemma normalize_plain:
  assumes "env_ok E" and "normalizeProjectPath E req = Inr path"
  obtains cs where "plain_elems cs" and "path = render_path False cs"
proof -
  from assms have "NormalizeRelativePath req = Inr path"
    by (simp add: normalizeProjectPath_def NormalizeProjectPath_same env_ok_def)
  then show ?thesis by (rule NormalizeRelativePath_InrD) (use that in blast)
qed

lemma key_of_render: "env_ok E \<Longrightarrow> plain_elems cs \<Longrightarrow> path_elems (render_path True (rootk E @ cs)) = rootk E @ cs"
  by (simp add: clean_form_plain rootk_plain)

section \<open>Reads\<close>

lemma sql_query_keeps: "sql_query q w = (r, w') \<Longrightarrow> keeps w w'"
  by (cases r) (auto dest: sql_runs db_step_keeps)

lemma GetMeta_keeps: "GetMeta p w = (r, w') \<Longrightarrow> keeps w w'"
  unfolding GetMeta_def by (auto split: prod.splits sum.splits dest: sql_query_keeps)

lemma GetRecord_keeps: "GetRecord p v w = (r, w') \<Longrightarrow> keeps w w'"
  unfolding GetRecord_def by (auto split: prod.splits sum.splits dest: sql_query_keeps)

lemma GetLatestRecord_keeps: "GetLatestRecord p w = (r, w') \<Longrightarrow> keeps w w'"
  unfolding GetLatestRecord_def by (auto split: prod.splits sum.splits dest: sql_query_keeps)

lemma GetVersionData_keeps: "GetVersionData p v w = (r, w') \<Longrightarrow> keeps w w'"
  unfolding GetVersionData_def by (auto split: prod.splits sum.splits dest: sql_query_keeps)

lemma FS_Stat_keeps: "FS_Stat E p w = (r, w') \<Longrightarrow> keeps w w'"
  unfolding FS_Stat_def by (auto split: sum.splits dest: os_Stat_step fs_step_keeps)

lemma loadVersionSnapshot_keeps: "loadVersionSnapshot p v w = (r, w') \<Longrightarrow> keeps w w'"
  unfolding loadVersionSnapshot_def
  by (auto split: prod.splits sum.splits if_splits
      dest: GetRecord_keeps GetVersionData_keeps intro: keeps_trans)

lemma ResolveFileHead_keeps:
  assumes "ResolveFileHead E p w = (r, w')"
  shows "keeps w w'"
proof -
  obtain a w1 where 1: "GetLatestRecord p w = (a, w1)" by (cases "GetLatestRecord p w")
  obtain b w2 where 2: "GetMeta p w1 = (b, w2)" by (cases "GetMeta p w1")
  obtain c w3 where 3: "FS_Stat E p w2 = (c, w3)" by (cases "FS_Stat E p w2")
  have "w' \<in> {w1, w2, w3}"
    using assms 1 2 3
    by (auto simp: ResolveFileHead_def Let_def split: sum.splits if_splits)
  moreover have "keeps w w1" using 1 by (rule GetLatestRecord_keeps)
  moreover have "keeps w1 w2" using 2 by (rule GetMeta_keeps)
  moreover have "keeps w2 w3" using 3 by (rule FS_Stat_keeps)
  ultimately show ?thesis using keeps_trans by blast
qed

lemma sql_query_same_fs: "sql_query q w = (r, w') \<Longrightarrow> w_fs w' = w_fs w"
  by (cases r) (auto dest!: sql_runs simp: db_step_def)

lemma os_Stat_same: "os_Stat p w = (r, w') \<Longrightarrow> w_fs w' = w_fs w"
  unfolding os_Stat_def
  by (cases "w_faults w") (auto simp: with_fault_def split: option.splits sum.splits)

lemma ResolveFileHead_same_fs:
  assumes "ResolveFileHead E p w = (r, w')"
  shows "w_fs w' = w_fs w"
proof -
  obtain a w1 where 1: "GetLatestRecord p w = (a, w1)" by (cases "GetLatestRecord p w")
  obtain b w2 where 2: "GetMeta p w1 = (b, w2)" by (cases "GetMeta p w1")
  obtain c w3 where 3: "FS_Stat E p w2 = (c, w3)" by (cases "FS_Stat E p w2")
  have "w' \<in> {w1, w2, w3}"
    using assms 1 2 3
    by (auto simp: ResolveFileHead_def Let_def split: sum.splits if_splits)
  moreover have "w_fs w1 = w_fs w"
    using 1 unfolding GetLatestRecord_def by (auto split: prod.splits sum.splits dest: sql_query_same_fs)
  moreover have "w_fs w2 = w_fs w1"
    using 2 unfolding GetMeta_def by (auto split: prod.splits sum.splits dest: sql_query_same_fs)
  moreover have "w_fs w3 = w_fs w2"
    using 3 unfolding FS_Stat_def by (auto split: sum.splits dest: os_Stat_same)
  ultimately show ?thesis by auto
qed

section \<open>Conflict copies\<close>

lemma hex_digit_slash [simp]: "hex_digit n \<noteq> slash" "slash \<noteq> hex_digit n"
proof -
  have "n mod 16 \<in> set [0..<16]" by simp
  moreover have "\<forall>m\<in>set [0..<16]. ''0123456789abcdef'' ! m \<noteq> slash" by code_simp
  ultimately show "hex_digit n \<noteq> slash" unfolding hex_digit_def by blast
  then show "slash \<noteq> hex_digit n" by metis
qed

lemma dec_digit_slash [simp]: "slash \<noteq> ''0123456789'' ! (m mod 10)"
proof -
  have "m mod 10 \<in> set [0..<10]" by simp
  moreover have "\<forall>m\<in>set [0..<10]. slash \<noteq> ''0123456789'' ! m" by code_simp
  ultimately show ?thesis by blast
qed

lemma hex_no_slash: "slash \<notin> set (hex_EncodeToString bs)"
  by (auto simp: hex_EncodeToString_def)

lemma fmt_06x_no_slash: "slash \<notin> set (fmt_06x n)"
  by (auto simp: fmt_06x_def)

lemma fmt_09d_no_slash: "slash \<notin> set (fmt_09d n)"
  unfolding fmt_09d_def by (auto simp del: nth_Cons_numeral)

lemma randomSuffix_keeps: "randomSuffix w = (s, w') \<Longrightarrow> keeps w w' \<and> slash \<notin> set s"
  by (auto simp: randomSuffix_def rand_Read_def keeps_def Let_def hex_no_slash fmt_06x_no_slash
      split: list.splits option.splits prod.splits)

definition conflict_name :: "string \<Rightarrow> string \<Rightarrow> bool" where
  "conflict_name base name \<longleftrightarrow> plain_elem name \<and> (\<exists>x. name = base @ ''.roodox-conflict-'' @ x)"

lemma GenerateConflictPath_shape:
  assumes "env_ok E" and "plain_elems cs" and "cs \<noteq> []"
    and "GenerateConflictPath E (render_path False cs) w = (q, w')"
  shows "keeps w w' \<and> (\<exists>name. conflict_name (last cs) name \<and> q = render_path False (butlast cs @ [name]))"
proof -
  obtain now w1 where 1: "time_Now w = (now, w1)" by (cases "time_Now w")
  obtain suf w2 where 2: "randomSuffix w1 = (suf, w2)" by (cases "randomSuffix w1")
  define name where "name = last cs @ ''.roodox-conflict-'' @
    (e_TimeFormat E now @ ''.'' @ fmt_09d (nat (now mod second))) @ ''-'' @ suf"
  have lc: "plain_elem (last cs)" using assms(2,3) by (simp add: list_all_iff)
  have ns: "slash \<notin> set name"
    using lc assms(1) randomSuffix_keeps [OF 2] fmt_09d_no_slash
    by (auto simp: name_def plain_elem_def env_ok_def)
  have len: "length name > 2" by (simp add: name_def)
  have plain: "plain_elem name"
    using ns len by (auto simp: plain_elem_def)
  have cn: "conflict_name (last cs) name" using plain by (auto simp: conflict_name_def name_def)
  have bl: "plain_elems (butlast cs)" using assms(2) by (auto simp: list_all_iff dest: in_set_butlastD)
  have "w' = w2 \<and> q = (if filepath_Dir (render_path False cs) = ''.'' \<or> filepath_Dir (render_path False cs) = ''/''
      then name else filepath_Join [filepath_Dir (render_path False cs), name])"
    using assms(4) 1 2 Base_render [OF assms(2,3), of False]
    by (auto simp: GenerateConflictPath_def Let_def name_def)
  moreover have "filepath_Dir (render_path False cs) = render_path False (butlast cs)"
    by (rule Dir_render_rel [OF assms(2,3)])
  moreover have "render_path False (butlast cs) \<noteq> ''/''"
  proof
    assume "render_path False (butlast cs) = ''/''"
    moreover have "\<not> filepath_IsAbs (render_path False (butlast cs))"
      using bl by (simp add: IsAbs_render clean_form_plain)
    ultimately show False by (simp add: filepath_IsAbs_def strings_HasPrefix_def)
  qed
  moreover have "render_path False (butlast cs) = ''.'' \<longleftrightarrow> butlast cs = []" by (rule render_dot [OF bl])
  moreover have "butlast cs \<noteq> [] \<Longrightarrow>
      filepath_Join [render_path False (butlast cs), name] = render_path False (butlast cs @ [name])"
    using Join_name_rel [OF bl _ plain] by blast
  ultimately have "w' = w2" "q = render_path False (butlast cs @ [name])" by auto
  moreover have "keeps w w2" using keeps_time_Now [OF 1] randomSuffix_keeps [OF 2] keeps_trans by blast
  ultimately show ?thesis using cn by blast
qed

lemma writeFileExclusive_effect:
  assumes "env_ok E" and "plain_elems cs" and "cs \<noteq> []"
    and "writeFileExclusive E (render_path False cs) data w = (r, w')"
  shows "keeps w w' \<and> (r = Inr () \<longrightarrow> tree_get (w_fs w) (rootk E @ cs) = None
     \<and> (\<exists>t. tree_get (w_fs w') (rootk E @ cs) = Some (File (slice data) t)))"
proof -
  let ?full = "render_path True (rootk E @ cs)" and ?k = "rootk E @ cs"
  have pk: "path_elems ?full = ?k" by (rule key_of_render [OF assms(1,2)])
  have plk: "plain_elems ?k" using assms rootk_plain by simp
  have dir: "filepath_Dir ?full = render_path True (butlast ?k)"
    using Dir_render [OF plk] assms(3) by simp
  have pdir: "path_elems (filepath_Dir ?full) = butlast ?k"
    unfolding dir using plk
    by (intro path_elems_render clean_form_plain) (auto simp: list_all_iff dest: in_set_butlastD)
  have knp: "\<not> prefix ?k (butlast ?k)"
    using assms(3) by (cases cs rule: rev_cases) (auto simp: butlast_append dest!: prefix_length_le)
  have kne: "?k \<noteq> []" using assms(3) by simp
  obtain r1 w1 where 1: "os_MkdirAll (filepath_Dir ?full) w = (r1, w1)"
    by (cases "os_MkdirAll (filepath_Dir ?full) w")
  have s1: "fs_step {k. prefix k (butlast ?k)} w w1" using os_MkdirAll_step [OF 1] pdir by simp
  have k1: "keeps w w1"
    using s1 os_MkdirAll_keeps [OF 1] by (auto simp: keeps_def fs_step_def)
  show ?thesis
  proof (cases r1)
    case (Inl e)
    with assms 1 k1 show ?thesis by (auto simp: writeFileExclusive_def resolve_plain)
  next
    case (Inr u1)
    obtain r2 w2 where 2: "os_OpenExcl ?full w1 = (r2, w2)" by (cases "os_OpenExcl ?full w1")
    have s2: "fs_step {?k} w1 w2" using os_OpenExcl_step [OF 2] pk by simp
    show ?thesis
    proof (cases r2)
      case (Inl e)
      have "w_fs w2 = w_fs w1"
        using 2 Inl unfolding os_OpenExcl_def
        by (cases "w_faults w1") (auto simp: with_fault_def split: option.splits)
      with s2 have "keeps w1 w2" by (auto simp: keeps_def fs_step_def)
      with k1 have "keeps w w2" by (rule keeps_trans)
      moreover have "w' = w2 \<and> r = Inl e" using assms 1 2 \<open>r1 = Inr u1\<close> Inl
        by (auto simp: writeFileExclusive_def resolve_plain)
      ultimately show ?thesis by simp
    next
      case (Inr u2)
      have new: "tree_get (w_fs w1) ?k = None" "\<exists>t. tree_get (w_fs w2) ?k = Some (File [] t)"
        using 2 Inr pk kne unfolding os_OpenExcl_def
        by (cases "w_faults w1"; auto simp: with_fault_def tree_get_put split: option.splits)+
      obtain r3 w3 where 3: "file_Update ?full (\<lambda>d. Inr (d @ slice data)) w2 = (r3, w3)"
        by (cases "file_Update ?full (\<lambda>d. Inr (d @ slice data)) w2")
      have s3: "fs_step {?k} w2 w3" using file_Update_step [OF 3] pk by simp
      obtain r4 w4 where 4: "file_Close w3 = (r4, w4)" by (cases "file_Close w3")
      have s4: "fs_step {} w3 w4" using file_Close_step [OF 4] .
      obtain r5 w5 where 5: "os_Remove ?full w4 = (r5, w5)" by (cases "os_Remove ?full w4")
      have s5: "fs_step {?k} w4 w5" using os_Remove_step [OF 5] pk by simp
      have s24: "fs_step {?k} w1 w4"
        using fs_step_trans [OF fs_step_trans [OF s2 s3] s4] by simp
      have s25: "fs_step {?k} w1 w5" using fs_step_trans [OF s24 s5] by simp
      have kw4: "keeps w1 w4" and kw5: "keeps w1 w5"
        using s24 s25 new(1) by (auto simp: keeps_def fs_step_def)
          (metis option.distinct(1) singletonD)+
      have w': "w' = w4 \<or> w' = w5"
        using assms 1 2 3 4 5 \<open>r1 = Inr u1\<close> Inr
        by (auto simp: writeFileExclusive_def resolve_plain split: sum.splits)
      have ok: "r = Inr () \<Longrightarrow> w' = w4 \<and> r3 = Inr ()"
        using assms 1 2 3 4 5 \<open>r1 = Inr u1\<close> Inr
        by (auto simp: writeFileExclusive_def resolve_plain split: sum.splits)
      have "\<exists>t. tree_get (w_fs w3) ?k = Some (File (slice data) t)" if "r3 = Inr ()"
        using 3 new(2) that pk kne unfolding file_Update_def
        by (cases "w_faults w2") (auto simp: with_fault_def tree_get_put split: option.splits)
      then have "r = Inr () \<Longrightarrow> \<exists>t. tree_get (w_fs w') ?k = Some (File (slice data) t)"
        using ok s4 by (auto simp: fs_step_def)
      moreover have "keeps w w'" using w' k1 kw4 kw5 keeps_trans by blast
      moreover have "tree_get (w_fs w) ?k = None" using keeps_None [OF k1 new(1)] .
      ultimately show ?thesis by blast
    qed
  qed
qed

lemma writeConflict_loop_effect:
  assumes "env_ok E" and "plain_elems cs" and "cs \<noteq> []"
    and "writeConflict_loop n E (render_path False cs) data w = (r, w')"
  shows "keeps w w' \<and> (\<forall>q. r = Inr q \<longrightarrow> (\<exists>name t. conflict_name (last cs) name
      \<and> q = render_path False (butlast cs @ [name])
      \<and> tree_get (w_fs w) (rootk E @ butlast cs @ [name]) = None
      \<and> tree_get (w_fs w') (rootk E @ butlast cs @ [name]) = Some (File (slice data) t)))"
  using assms(4)
proof (induction n arbitrary: w)
  case 0
  then show ?case by auto
next
  case (Suc n)
  obtain q w1 where 1: "GenerateConflictPath E (render_path False cs) w = (q, w1)"
    by (cases "GenerateConflictPath E (render_path False cs) w")
  from GenerateConflictPath_shape [OF assms(1-3) 1] obtain name where k1: "keeps w w1"
    and cn: "conflict_name (last cs) name" and q: "q = render_path False (butlast cs @ [name])" by blast
  obtain r2 w2 where 2: "writeFileExclusive E q data w1 = (r2, w2)" by (cases "writeFileExclusive E q data w1")
  have pl: "plain_elems (butlast cs @ [name])"
    using assms(2) cn by (auto simp: list_all_iff conflict_name_def dest: in_set_butlastD)
  from writeFileExclusive_effect [OF assms(1) pl _ 2 [unfolded q]]
  have k2: "keeps w1 w2" and ok: "r2 = Inr () \<Longrightarrow> tree_get (w_fs w1) (rootk E @ butlast cs @ [name]) = None
     \<and> (\<exists>t. tree_get (w_fs w2) (rootk E @ butlast cs @ [name]) = Some (File (slice data) t))" by auto
  show ?case
  proof (cases r2)
    case (Inr u)
    with Suc.prems 1 2 have "r = Inr q" "w' = TriggerConflict w2" by auto
    moreover have "tree_get (w_fs w) (rootk E @ butlast cs @ [name]) = None"
      using ok Inr keeps_None [OF k1] by simp
    ultimately show ?thesis
      using ok Inr cn q keeps_trans [OF k1 k2] by (auto simp: TriggerConflict_def keeps_def)
  next
    case (Inl e)
    show ?thesis
    proof (cases "errors_Is e ErrExist")
      case False
      with Suc.prems 1 2 Inl keeps_trans [OF k1 k2] show ?thesis by auto
    next
      case True
      with Suc.prems 1 2 Inl have run: "writeConflict_loop n E (render_path False cs) data w2 = (r, w')" by simp
      have k: "keeps w w2" using k1 k2 by (rule keeps_trans)
      from Suc.IH [OF run] k keeps_None [OF k] keeps_trans [OF k] show ?thesis by blast
    qed
  qed
qed

lemma mut_writeConflictFile_effect:
  assumes "env_ok E" and "plain_elems cs" and "cs \<noteq> []"
    and "mut_writeConflictFile E (render_path False cs) data w = (r, w')"
  shows "keeps w w' \<and> (\<forall>q. r = Inr q \<longrightarrow> (\<exists>name t. conflict_name (last cs) name
      \<and> q = render_path False (butlast cs @ [name])
      \<and> tree_get (w_fs w) (rootk E @ butlast cs @ [name]) = None
      \<and> tree_get (w_fs w') (rootk E @ butlast cs @ [name]) = Some (File (slice data) t)))"
  using writeConflict_loop_effect [OF assms(1-3)] assms(4) by (simp add: mut_writeConflictFile_def)

lemma keep_conflict_copy_effect:
  assumes "env_ok E" and "plain_elems cs" and "cs \<noteq> []"
    and build: "\<forall>r w1. build w = (r, w1) \<longrightarrow> keeps w w1"
    and "keep_conflict_copy E (render_path False cs) build w = (q, w')"
  shows "keeps w w' \<and> (q \<noteq> [] \<longrightarrow> (\<exists>d name t. fst (build w) = Inr d \<and> conflict_name (last cs) name
      \<and> q = render_path False (butlast cs @ [name])
      \<and> tree_get (w_fs w) (rootk E @ butlast cs @ [name]) = None
      \<and> tree_get (w_fs w') (rootk E @ butlast cs @ [name]) = Some (File d t)))"
proof -
  obtain r1 w1 where 1: "build w = (r1, w1)" by (cases "build w")
  have k1: "keeps w w1" using 1 build by blast
  show ?thesis
  proof (cases r1)
    case (Inl e)
    with assms(5) 1 k1 show ?thesis by (simp add: keep_conflict_copy_def)
  next
    case (Inr d)
    obtain r2 w2 where 2: "mut_writeConflictFile E (render_path False cs) (Some d) w1 = (r2, w2)"
      by (cases "mut_writeConflictFile E (render_path False cs) (Some d) w1")
    note eff = mut_writeConflictFile_effect [OF assms(1-3) 2]
    then have k: "keeps w w2" using k1 keeps_trans by blast
    have "w' = w2 \<and> q = (case r2 of Inl _ \<Rightarrow> [] | Inr p \<Rightarrow> p)"
      using assms(5) 1 2 Inr by (auto simp: keep_conflict_copy_def split: sum.splits)
    with eff k keeps_None [OF k1] 1 Inr show ?thesis
      by (cases r2) (auto simp: slice_def)
  qed
qed

section \<open>The sweep of conflict copies\<close>

text \<open>Only files with a conflict name may disappear.\<close>

definition conflict_key :: "string list \<Rightarrow> bool" where
  "conflict_key k \<longleftrightarrow> k \<noteq> [] \<and> IsConflictPath (last k)"

definition keeps_live :: "world \<Rightarrow> world \<Rightarrow> bool" where
  "keeps_live w w' \<longleftrightarrow> w_db w' = w_db w \<and> set (w_faults w') \<subseteq> set (w_faults w)
    \<and> (\<forall>k n. tree_get (w_fs w) k = Some n \<and> \<not> conflict_key k \<longrightarrow> tree_get (w_fs w') k = Some n)"

definition tree_ok :: "fstree \<Rightarrow> bool" where
  "tree_ok t \<longleftrightarrow> (\<forall>x\<in>set t. plain_elems (fst x))"

lemma keeps_live_refl [simp]: "keeps_live w w"
  by (simp add: keeps_live_def)

lemma keeps_live_trans: "keeps_live w w1 \<Longrightarrow> keeps_live w1 w2 \<Longrightarrow> keeps_live w w2"
  by (auto simp: keeps_live_def)

lemma keeps_keeps_live: "keeps w w' \<Longrightarrow> keeps_live w w'"
  by (auto simp: keeps_def keeps_live_def)

lemma conflict_name_key: "conflict_name base name \<Longrightarrow> IsConflictPath name"
proof -
  assume c: "conflict_name base name"
  then obtain x where x: "name = base @ ''.roodox-conflict-'' @ x" and p: "plain_elem name"
    by (auto simp: conflict_name_def)
  have "filepath_Base name = name" using Base_render [of "[name]" False] p by simp
  moreover have "strings_ToLower name = strings_ToLower base @ ''.roodox-conflict-'' @ strings_ToLower x"
    by (simp add: x strings_ToLower_def lower_char_def)
  ultimately show ?thesis unfolding IsConflictPath_def Contains_iff by (metis append.assoc)
qed

lemma Join_abs:
  assumes "filepath_IsAbs dir" and "plain_elem name"
  shows "filepath_Join [dir, name] = render_path True (path_elems dir @ [name])"
proof -
  have ne: "dir \<noteq> []" "name \<noteq> []" using assms by (auto simp: IsAbs_nonempty plain_elem_def)
  have "path_elems (dir @ slash # name) = path_elems dir @ [name]"
    using path_elems_join [OF assms(1), of "[name]"] assms(2) by simp
  moreover have "filepath_IsAbs (dir @ slash # name)"
    using assms(1) by (auto simp: filepath_IsAbs_def HasPrefix_iff)
  ultimately show ?thesis using ne by (simp add: filepath_Join_def filepath_Clean_def)
qed

lemma path_elems_Join_abs:
  "filepath_IsAbs dir \<Longrightarrow> plain_elem name \<Longrightarrow>
    path_elems (filepath_Join [dir, name]) = path_elems dir @ [name] \<and> filepath_IsAbs (filepath_Join [dir, name])"
  by (simp add: Join_abs IsAbs_render clean_form_plain path_elems_abs_plain)

lemma os_Remove_tree:
  assumes "os_Remove p w = (r, w')"
  shows "set (w_fs w') \<subseteq> set (w_fs w)"
  using assms unfolding os_Remove_def
  by (cases "w_faults w")
    (auto simp: with_fault_def Let_def tree_del_def AList.delete_eq
      split: option.splits sum.splits node.splits if_splits)

lemma os_Remove_live:
  assumes "os_Remove p w = (r, w')" and "conflict_key (path_elems p)"
  shows "keeps_live w w'"
proof -
  have "k \<noteq> path_elems p" if "\<not> conflict_key k" for k using that assms(2) by auto
  with os_Remove_step [OF assms(1)] show ?thesis by (simp add: keeps_live_def fs_step_def)
qed

lemma tree_ok_mono: "tree_ok t \<Longrightarrow> set t' \<subseteq> set t \<Longrightarrow> tree_ok t'"
  by (auto simp: tree_ok_def)

lemma tree_ok_put: "tree_ok t \<Longrightarrow> plain_elems p \<Longrightarrow> tree_ok (tree_put p n t)"
proof -
  have "x \<in> set (AList.update p n t) \<Longrightarrow> x = (p, n) \<or> x \<in> set t" for x
    by (induction t) (auto split: if_splits)
  moreover assume "tree_ok t" "plain_elems p"
  ultimately show ?thesis by (force simp: tree_ok_def tree_put_def)
qed

lemma tree_ok_del: "tree_ok t \<Longrightarrow> tree_ok (tree_del p t)"
  by (auto simp: tree_ok_def tree_del_def AList.delete_eq)

lemma make_dirs_tree_ok:
  "make_dirs now q cs t = (e, t') \<Longrightarrow> tree_ok t \<Longrightarrow> plain_elems (q @ cs) \<Longrightarrow> tree_ok t'"
proof (induction cs arbitrary: q t)
  case Nil
  then show ?case by simp
next
  case (Cons c cs)
  then show ?case
    by (auto split: option.splits node.splits dest!: Cons.IH intro: tree_ok_put)
qed

lemma os_MkdirAll_tree_ok:
  assumes "os_MkdirAll p w = (r, w')" and "tree_ok (w_fs w)" and "plain_elems (path_elems p)"
  shows "tree_ok (w_fs w')"
  using assms make_dirs_tree_ok [of _ "[]" "path_elems p"] unfolding os_MkdirAll_def
  by (cases "w_faults w") (fastforce simp: with_fault_def split: option.splits prod.splits)+

lemma os_OpenExcl_tree_ok:
  assumes "os_OpenExcl p w = (r, w')" and "tree_ok (w_fs w)" and "plain_elems (path_elems p)"
  shows "tree_ok (w_fs w')"
  using assms unfolding os_OpenExcl_def
  by (cases "w_faults w") (auto simp: with_fault_def split: option.splits intro: tree_ok_put)

lemma file_Update_tree_ok:
  assumes "file_Update p f w = (r, w')" and "tree_ok (w_fs w)" and "plain_elems (path_elems p)"
  shows "tree_ok (w_fs w')"
  using assms unfolding file_Update_def
  by (cases "w_faults w")
    (auto simp: with_fault_def split: option.splits node.splits sum.splits intro: tree_ok_put)

lemma file_Close_same: "file_Close w = (r, w') \<Longrightarrow> w_fs w' = w_fs w"
  unfolding file_Close_def by (cases "w_faults w") (auto simp: with_fault_def split: option.splits)

lemma writeFileExclusive_tree_ok:
  assumes E: "env_ok E" and cs: "plain_elems cs" "cs \<noteq> []" and ok: "tree_ok (w_fs w)"
    and run: "writeFileExclusive E (render_path False cs) data w = (r, w')"
  shows "tree_ok (w_fs w')"
proof -
  let ?full = "render_path True (rootk E @ cs)" and ?k = "rootk E @ cs"
  have pk: "path_elems ?full = ?k" by (rule key_of_render [OF E cs(1)])
  have plk: "plain_elems ?k" "?k \<noteq> []" using cs rootk_plain [OF E] by auto
  have bl: "plain_elems (butlast ?k)" using plk by (auto simp: list_all_iff dest: in_set_butlastD)
  have pd: "plain_elems (path_elems (filepath_Dir ?full))"
    unfolding Dir_render [OF plk] using bl by (simp add: clean_form_plain)
  obtain r1 w1 where 1: "os_MkdirAll (filepath_Dir ?full) w = (r1, w1)"
    by (cases "os_MkdirAll (filepath_Dir ?full) w")
  have t1: "tree_ok (w_fs w1)" using os_MkdirAll_tree_ok [OF 1 ok pd] .
  obtain r2 w2 where 2: "os_OpenExcl ?full w1 = (r2, w2)" by (cases "os_OpenExcl ?full w1")
  have t2: "tree_ok (w_fs w2)" using os_OpenExcl_tree_ok [OF 2 t1] pk plk by simp
  obtain r3 w3 where 3: "file_Update ?full (\<lambda>d. Inr (d @ slice data)) w2 = (r3, w3)"
    by (cases "file_Update ?full (\<lambda>d. Inr (d @ slice data)) w2")
  have t3: "tree_ok (w_fs w3)" using file_Update_tree_ok [OF 3 t2] pk plk by simp
  obtain r4 w4 where 4: "file_Close w3 = (r4, w4)" by (cases "file_Close w3")
  have t4: "tree_ok (w_fs w4)" using file_Close_same [OF 4] t3 by simp
  obtain r5 w5 where 5: "os_Remove ?full w4 = (r5, w5)" by (cases "os_Remove ?full w4")
  have t5: "tree_ok (w_fs w5)" using os_Remove_tree [OF 5] t4 tree_ok_mono by blast
  have "w' \<in> {w1, w2, w4, w5}"
    using run 1 2 3 4 5 by (auto simp: writeFileExclusive_def resolve_plain [OF E cs(1)] split: sum.splits)
  with t1 t2 t4 t5 show ?thesis by auto
qed

lemma writeConflict_loop_tree_ok:
  assumes E: "env_ok E" and cs: "plain_elems cs" "cs \<noteq> []" and "tree_ok (w_fs w)"
    and "writeConflict_loop n E (render_path False cs) data w = (r, w')"
  shows "tree_ok (w_fs w')"
  using assms(4,5)
proof (induction n arbitrary: w)
  case 0
  then show ?case by simp
next
  case (Suc n)
  obtain q w1 where 1: "GenerateConflictPath E (render_path False cs) w = (q, w1)"
    by (cases "GenerateConflictPath E (render_path False cs) w")
  from GenerateConflictPath_shape [OF E cs 1] obtain name where
    cn: "conflict_name (last cs) name" and q: "q = render_path False (butlast cs @ [name])" by blast
  have f1: "w_fs w1 = w_fs w"
    using 1 by (auto simp: GenerateConflictPath_def time_Now_def randomSuffix_def rand_Read_def Let_def
        split: prod.splits list.splits option.splits if_splits)
  obtain r2 w2 where 2: "writeFileExclusive E q data w1 = (r2, w2)" by (cases "writeFileExclusive E q data w1")
  have pl: "plain_elems (butlast cs @ [name])"
    using cs cn by (auto simp: list_all_iff conflict_name_def dest: in_set_butlastD)
  have t2: "tree_ok (w_fs w2)"
    using writeFileExclusive_tree_ok [OF E pl _ _ 2 [unfolded q]] f1 Suc.prems(1) by simp
  have "w' = w2 \<or> w' = TriggerConflict w2 \<or> writeConflict_loop n E (render_path False cs) data w2 = (r, w')"
    using Suc.prems(2) 1 2 by (auto split: sum.splits if_splits)
  with Suc.IH [OF t2] t2 show ?case by (auto simp: TriggerConflict_def)
qed

lemma fs_same_step: "with_fault (\<lambda>w. (Inr n, w)) w = (r, w') \<Longrightarrow> w_fs w' = w_fs w \<and> keeps w w'"
  by (cases "w_faults w") (auto simp: with_fault_def keeps_def split: option.splits)

lemma entry_Info_keeps: "entry_Info n w = (r, w') \<Longrightarrow> w_fs w' = w_fs w \<and> keeps w w'"
  unfolding entry_Info_def by (rule fs_same_step)

lemma os_ReadDir_same: "os_ReadDir p w = (r, w') \<Longrightarrow> w_fs w' = w_fs w"
  unfolding os_ReadDir_def
  by (cases "w_faults w") (auto simp: with_fault_def split: option.splits sum.splits node.splits)

lemma os_ReadDir_entries:
  assumes "os_ReadDir p w = (Inr es, w')" and "tree_ok (w_fs w)"
  shows "\<forall>x\<in>set es. plain_elem (fst x)"
proof -
  from assms(1) have "set es = set (children (w_fs w) (path_elems p))"
    unfolding os_ReadDir_def
    by (elim with_fault_ok) (auto split: sum.splits node.splits)
  with assms(2) show ?thesis
    by (auto simp: children_def tree_ok_def list_all_iff)
qed

lemma conflict_candidates_keeps:
  assumes "conflict_candidates dir pre es w = (cs, w')"
  shows "keeps w w' \<and> w_fs w' = w_fs w
    \<and> (\<forall>c\<in>set cs. fst c = filepath_Join [dir, fst (snd c)] \<and> stringsHasConflictPrefix (fst (snd c)) pre
         \<and> fst (snd c) \<in> fst ` set es)"
  using assms
proof (induction es arbitrary: w w' cs)
  case Nil
  then show ?case by simp
next
  case (Cons e es)
  obtain name n where e: "e = (name, n)" by (cases e)
  obtain r w1 where 1: "entry_Info n w = (r, w1)" by (cases "entry_Info n w")
  show ?case
  proof (cases "is_dir n \<or> \<not> stringsHasConflictPrefix name pre")
    case True
    with Cons.prems e have "conflict_candidates dir pre es w = (cs, w')" by (auto split: if_splits)
    from Cons.IH [OF this] show ?thesis by auto
  next
    case False
    obtain cs1 w2 where 2: "conflict_candidates dir pre es w1 = (cs1, w2)"
      by (cases "conflict_candidates dir pre es w1")
    from Cons.prems e False 1 2 have "w' = w2" and
      cs: "cs = cs1 \<or> (\<exists>info. cs = (filepath_Join [dir, name], name, node_mtime info) # cs1)"
      by (auto split: sum.splits)
    with Cons.IH [OF 2] entry_Info_keeps [OF 1] False e show ?thesis
      by (auto intro: keeps_trans)
  qed
qed

lemma remove_expired_live:
  assumes "\<forall>c\<in>set cs. conflict_key (path_elems (fst c))" and "tree_ok (w_fs w)"
  shows "keeps_live w (remove_expired S now idx cs w) \<and> tree_ok (w_fs (remove_expired S now idx cs w))"
  using assms
proof (induction cs arbitrary: idx w)
  case Nil
  then show ?case by simp
next
  case (Cons c cs)
  obtain r w1 where 1: "os_Remove (fst c) w = (r, w1)" by (cases "os_Remove (fst c) w")
  have "keeps_live w w1" using os_Remove_live [OF 1] Cons.prems by simp
  moreover have "tree_ok (w_fs w1)" using os_Remove_tree [OF 1] Cons.prems(2) by (rule tree_ok_mono [rotated])
  ultimately show ?case using Cons 1 by (auto intro: keeps_live_trans)
qed

lemma plain_tail: "plain_elems cs \<Longrightarrow> cs \<noteq> [] \<Longrightarrow> plain_elems (butlast cs) \<and> plain_elem (last cs)"
  by (auto simp: list_all_iff dest: in_set_butlastD)

lemma cleanupConflictCopies_live:
  assumes E: "env_ok E" and cs: "plain_elems cs" "cs \<noteq> []" and ok: "tree_ok (w_fs w)"
    and run: "cleanupConflictCopiesForPath S E (render_path False cs) now w = (r, w')"
  shows "keeps_live w w' \<and> tree_ok (w_fs w')"
proof -
  let ?k = "rootk E @ cs"
  have plk: "plain_elems ?k" and kne: "?k \<noteq> []" using cs rootk_plain [OF E] by auto
  define dir where "dir = filepath_Dir (render_path True ?k)"
  have dir': "dir = render_path True (butlast ?k)" unfolding dir_def by (rule Dir_render [OF plk kne])
  have base: "filepath_Base (render_path True ?k) = last cs" using Base_render [OF plk kne] cs by simp
  have pd: "plain_elems (butlast ?k)" using plain_tail [OF plk kne] by simp
  have dabs: "filepath_IsAbs dir" "path_elems dir = butlast ?k"
    using pd by (simp_all add: dir' IsAbs_render clean_form_plain)
  obtain r1 w1 where 1: "os_ReadDir dir w = (r1, w1)" by (cases "os_ReadDir dir w")
  have k1: "keeps_live w w1" using os_ReadDir_step [OF 1] by (intro keeps_keeps_live fs_step_keeps)
  have t1: "tree_ok (w_fs w1)" using os_ReadDir_same [OF 1] ok by simp
  show ?thesis
  proof (cases r1)
    case (Inl e)
    with run 1 k1 t1 resolve_plain [OF E cs(1)] show ?thesis
      by (auto simp: cleanupConflictCopiesForPath_def dir_def [symmetric] Let_def split: if_splits)
  next
    case (Inr es)
    let ?pre = "last cs @ ''.roodox-conflict-''"
    obtain xs w2 where 2: "conflict_candidates dir ?pre es w1 = (xs, w2)"
      by (cases "conflict_candidates dir ?pre es w1")
    note cand = conflict_candidates_keeps [OF 2]
    have names: "\<forall>x\<in>set es. plain_elem (fst x)" using os_ReadDir_entries [OF 1 [unfolded Inr] ok] .
    have keys: "\<forall>c\<in>set (newest_first xs). conflict_key (path_elems (fst c))"
    proof
      fix c assume "c \<in> set (newest_first xs)"
      then have c: "c \<in> set xs" by (simp add: newest_first_def)
      with cand have j: "fst c = filepath_Join [dir, fst (snd c)]"
        and h: "stringsHasConflictPrefix (fst (snd c)) ?pre" and m: "fst (snd c) \<in> fst ` set es" by auto
      from m names have pl: "plain_elem (fst (snd c))" by auto
      from h have "conflict_name (last cs) (fst (snd c))"
        using pl unfolding conflict_name_def stringsHasConflictPrefix_def
        by (metis append.assoc append_take_drop_id)
      then show "conflict_key (path_elems (fst c))"
        using path_elems_Join_abs [OF dabs(1) pl] conflict_name_key by (simp add: conflict_key_def j)
    qed
    have w': "w' = remove_expired S now 0 (newest_first xs) w2"
      using run 1 2 Inr resolve_plain [OF E cs(1)] base
      by (auto simp: cleanupConflictCopiesForPath_def dir_def [symmetric] Let_def)
    have "keeps_live w w2" using k1 cand keeps_keeps_live keeps_live_trans by blast
    moreover have "tree_ok (w_fs w2)" using t1 cand by simp
    ultimately show ?thesis using remove_expired_live [OF keys] w' keeps_live_trans by blast
  qed
qed

lemma visit_conflict_live:
  assumes "IsConflictPath name \<longrightarrow> conflict_key (path_elems path)" and "tree_ok (w_fs w)"
  shows "keeps_live w (visit_conflict S now path name n w)
    \<and> tree_ok (w_fs (visit_conflict S now path name n w))"
proof -
  obtain r1 w1 where 1: "entry_Info n w = (r1, w1)" by (cases "entry_Info n w")
  obtain r2 w2 where 2: "os_Remove path w1 = (r2, w2)" by (cases "os_Remove path w1")
  have k1: "keeps_live w w1" and f1: "w_fs w1 = w_fs w"
    using entry_Info_keeps [OF 1] keeps_keeps_live by auto
  have t2: "tree_ok (w_fs w2)" using os_Remove_tree [OF 2] f1 assms(2) tree_ok_mono by metis
  have k2: "IsConflictPath name \<Longrightarrow> keeps_live w w2"
    using os_Remove_live [OF 2] assms(1) k1 keeps_live_trans by blast
  have "visit_conflict S now path name n w \<in> {w, w1} \<or>
      visit_conflict S now path name n w = w2 \<and> IsConflictPath name"
    using 1 2 by (auto simp: visit_conflict_def split: sum.splits)
  with k1 k2 t2 f1 assms(2) show ?thesis by auto
qed

lemma walk_conflicts_live:
  assumes "filepath_IsAbs dir" and "\<forall>x\<in>set es. plain_elem (fst x)" and "tree_ok (w_fs w)"
  shows "keeps_live w (walk_conflicts fuel S now dir es w)
    \<and> tree_ok (w_fs (walk_conflicts fuel S now dir es w))"
  using assms
proof (induction fuel S now dir es w rule: walk_conflicts.induct)
  case (1 fuel S now dir w)
  then show ?case by simp
next
  case (2 S now dir e es w)
  then show ?case by simp
next
  case (3 fuel S now dir name n es w)
  let ?p = "filepath_Join [dir, name]"
  define w1 where "w1 = (if is_dir n then
      if ShouldIgnore name then w
      else (case os_ReadDir ?p w of (Inl _, w1) \<Rightarrow> w1
              | (Inr entries, w1) \<Rightarrow> walk_conflicts fuel S now ?p entries w1)
    else visit_conflict S now ?p name n w)"
  have pl: "plain_elem name" using "3.prems"(2) by simp
  have ja: "filepath_IsAbs ?p" "path_elems ?p = path_elems dir @ [name]"
    using path_elems_Join_abs [OF "3.prems"(1) pl] by auto
  have w1: "keeps_live w w1 \<and> tree_ok (w_fs w1)"
  proof (cases "is_dir n")
    case False
    with visit_conflict_live [of name ?p w] "3.prems"(3) ja show ?thesis
      by (simp add: w1_def conflict_key_def)
  next
    case dir_n: True
    show ?thesis
    proof (cases "ShouldIgnore name")
      case True
      with dir_n "3.prems" show ?thesis by (simp add: w1_def)
    next
      case False
      obtain r v where rd: "os_ReadDir ?p w = (r, v)" by (cases "os_ReadDir ?p w")
      have kv: "keeps_live w v" using os_ReadDir_step [OF rd] by (intro keeps_keeps_live fs_step_keeps)
      have tv: "tree_ok (w_fs v)" using os_ReadDir_same [OF rd] "3.prems" by simp
      show ?thesis
      proof (cases r)
        case (Inl e)
        with dir_n False rd kv tv show ?thesis by (simp add: w1_def)
      next
        case (Inr entries)
        have "keeps_live v (walk_conflicts fuel S now ?p entries v)
          \<and> tree_ok (w_fs (walk_conflicts fuel S now ?p entries v))"
          using "3.IH"(1) [OF refl dir_n False rd [symmetric] Inr] ja tv
            os_ReadDir_entries [OF rd [unfolded Inr] "3.prems"(3)] by blast
        with dir_n False rd Inr kv show ?thesis by (auto simp: w1_def intro: keeps_live_trans)
      qed
    qed
  qed
  have "keeps_live w1 (walk_conflicts (Suc fuel) S now dir es w1)
      \<and> tree_ok (w_fs (walk_conflicts (Suc fuel) S now dir es w1))"
    using "3.IH"(2) [OF refl w1_def] "3.prems" w1 by auto
  with w1 show ?case by (auto simp: w1_def [symmetric] Let_def intro: keeps_live_trans)
qed

section \<open>Live writes\<close>

lemma walk_dirs_put: "length q + length cs < length p \<Longrightarrow> walk_dirs (tree_put p n t) q cs = walk_dirs t q cs"
proof (induction cs arbitrary: q)
  case Nil
  then show ?case by simp
next
  case (Cons c cs)
  then have "q @ [c] \<noteq> p" by auto
  with Cons show ?case by (auto simp: tree_get_put split: option.splits node.splits)
qed

lemma FS_WriteFile_effect:
  assumes E: "env_ok E" and cs: "plain_elems cs" "cs \<noteq> []"
    and run: "FS_WriteFile E (render_path False cs) d w = (r, w')"
  shows "w_db w' = w_db w \<and> set (w_faults w') \<subseteq> set (w_faults w)
    \<and> (\<forall>k n. k \<noteq> rootk E @ cs \<and> tree_get (w_fs w) k = Some n \<longrightarrow> tree_get (w_fs w') k = Some n)
    \<and> (case r of
         Inl _ \<Rightarrow> keeps w w'
       | Inr _ \<Rightarrow> (\<exists>t. tree_get (w_fs w') (rootk E @ cs) = Some (File d t))
           \<and> walk_dirs (w_fs w') [] (butlast (rootk E @ cs)) = None)"
proof -
  let ?full = "render_path True (rootk E @ cs)" and ?k = "rootk E @ cs"
  have pk: "path_elems ?full = ?k" by (rule key_of_render [OF E cs(1)])
  have plk: "plain_elems ?k" "?k \<noteq> []" using cs rootk_plain [OF E] by auto
  have pd: "path_elems (filepath_Dir ?full) = butlast ?k"
    unfolding Dir_render [OF plk] using plain_tail [OF plk]
    by (intro path_elems_render clean_form_plain) simp
  obtain r1 w1 where 1: "os_MkdirAll (filepath_Dir ?full) w = (r1, w1)"
    by (cases "os_MkdirAll (filepath_Dir ?full) w")
  have k1: "keeps w w1"
    using os_MkdirAll_step [OF 1] os_MkdirAll_keeps [OF 1] by (auto simp: keeps_def fs_step_def)
  show ?thesis
  proof (cases r1)
    case (Inl e)
    with run 1 resolvePath_plain [OF E cs(1)] have "r = Inl e" "w' = w1" by (auto simp: FS_WriteFile_def)
    with k1 show ?thesis by (simp add: keeps_def)
  next
    case (Inr u1)
    with run 1 resolvePath_plain [OF E cs(1)] have 2: "os_WriteFile ?full d w1 = (r, w')"
      by (simp add: FS_WriteFile_def)
    have s2: "fs_step {?k} w1 w'" using os_WriteFile_step [OF 2] pk by simp
    have walk: "walk_dirs (w_fs w1) [] (butlast ?k) = None"
      using os_MkdirAll_ok [OF 1 [unfolded Inr]] pd by simp
    show ?thesis
    proof (cases r)
      case (Inl e)
      have "w_fs w' = w_fs w1"
        using 2 Inl unfolding os_WriteFile_def
        by (cases "w_faults w1") (auto simp: with_fault_def split: option.splits sum.splits)
      with s2 have "keeps w1 w'" by (auto simp: keeps_def fs_step_def)
      with k1 have "keeps w w'" by (rule keeps_trans)
      with Inl show ?thesis by (auto simp: keeps_def)
    next
      case (Inr u)
      have "\<exists>t. w_fs w' = tree_put ?k (File d t) (w_fs w1)"
        using 2 [unfolded Inr os_WriteFile_def] pk
        by (elim with_fault_ok) (auto split: sum.splits)
      then obtain t where t: "w_fs w' = tree_put ?k (File d t) (w_fs w1)" by blast
      have "walk_dirs (w_fs w') [] (butlast ?k) = None"
        using walk plk by (simp add: t walk_dirs_put)
      moreover have "tree_get (w_fs w') ?k = Some (File d t)" using plk by (simp add: t tree_get_put)
      ultimately show ?thesis using Inr k1 s2 by (auto simp: keeps_def fs_step_def)
    qed
  qed
qed

lemma mut_SaveFileSnapshot_effect:
  assumes "genuine_faults w" and "db_inv (w_db w)"
    and "mut_SaveFileSnapshot E path existed data w = (r, w')"
  shows "w_fs w' = w_fs w \<and> db_inv (w_db w') \<and> set (w_faults w') \<subseteq> set (w_faults w)
    \<and> (case r of
         Inl _ \<Rightarrow> w_db w' = w_db w
       | Inr v \<Rightarrow> v = current_head (w_db w) path + 1
           \<and> (\<exists>now. w_db w' = save_effect (snapshot_meta E path data now) []
                 (if existed then ''modify'' else ''create'') data (w_db w)))"
proof -
  obtain now w1 where 1: "time_Now w = (now, w1)" by (cases "time_Now w")
  have t: "w_fs w1 = w_fs w" "w_db w1 = w_db w" "w_faults w1 = w_faults w"
    using 1 by (auto simp: time_Now_def split: list.splits)
  have g: "genuine_faults w1" using assms(1) t(3) by (simp add: genuine_faults_def)
  have hd: "distinct (map fst (t_head (w_db w1)))" using assms(2) t(2) by (simp add: db_inv_def)
  let ?m = "snapshot_meta E path data now" and ?ct = "if existed then ''modify'' else ''create''"
  have mp: "m_Path ?m = path" by (simp add: snapshot_meta_def)
  have ct: "(if \<not> existed then ''create'' else ''modify'') = ?ct" by simp
  from SaveFileSnapshot_outcome [OF g hd, of ?m "[]" ?ct data] show ?thesis
  proof (cases rule: tx_outcomeE)
    case (failed e w2)
    with assms(3) 1 have "r = Inl e" "w' = w2" by (auto simp: mut_SaveFileSnapshot_def Let_def ct simp del: if_not_P if_P)
    with tx_stepD [OF failed(2)] t assms(2) show ?thesis by simp
  next
    case (committed w2)
    with assms(3) 1 mp have "r = Inr (current_head (w_db w1) path + 1)" "w' = TriggerMutation w2"
      by (auto simp: mut_SaveFileSnapshot_def Let_def ct)
    with tx_stepD [OF committed(2)] t db_inv_save [OF assms(2)] show ?thesis
      by (auto simp: TriggerMutation_def)
  qed
qed

end
