(* ===== verification/ServiceProps.thy ===== *)
theory ServiceProps
  imports ServiceLaws
begin

text \<open>
  Properties of the file services: a stale write never touches the live file or the tables, a
  live write is read back, an empty file's version cannot be read, a delete is not undone by a
  stale writer, and a rename onto a tracked file loses it.
\<close>

section \<open>Laws of a live write\<close>

lemma normalize_same: "env_ok E \<Longrightarrow> normalizeProjectPath E req = NormalizeRelativePath req"
  by (simp add: normalizeProjectPath_def NormalizeProjectPath_same env_ok_def)

lemma Sync_writeConflictFile_live:
  assumes E: "env_ok E" and cs: "plain_elems cs" "cs \<noteq> []" and ok: "tree_ok (w_fs w)"
    and run: "Sync_writeConflictFile E (render_path False cs) data S w = (r, S', w')"
  shows "keeps_live w w'"
proof -
  obtain r1 w1 where 1: "mut_writeConflictFile E (render_path False cs) data w = (r1, w1)"
    by (cases "mut_writeConflictFile E (render_path False cs) data w")
  have k1: "keeps_live w w1" using mut_writeConflictFile_effect [OF E cs 1] keeps_keeps_live by blast
  obtain now w2 where 2: "time_Now w1 = (now, w2)" by (cases "time_Now w1")
  have k2: "keeps_live w1 w2" "tree_ok (w_fs w2)"
    using keeps_time_Now [OF 2] keeps_keeps_live 2 writeConflict_loop_tree_ok [OF E cs ok 1 [unfolded mut_writeConflictFile_def]]
    by (auto simp: time_Now_def split: list.splits)
  obtain r3 w3 where 3: "cleanupConflictCopiesForPath S E (render_path False cs) now w2 = (r3, w3)"
    by (cases "cleanupConflictCopiesForPath S E (render_path False cs) now w2")
  note k3 = cleanupConflictCopies_live [OF E cs k2(2) 3]
  obtain S4 w4 where 4: "maybeCleanupExpiredConflictFiles E now S w3 = (S4, w4)"
    by (cases "maybeCleanupExpiredConflictFiles E now S w3")
  have k4: "keeps_live w3 w4"
  proof -
    have "w4 = w3 \<or> (\<exists>S1. w4 = cleanupExpiredConflictFiles S1 E now w3)"
      using 4 by (auto simp: maybeCleanupExpiredConflictFiles_def Let_def split: if_splits)
    moreover have "keeps_live w3 (cleanupExpiredConflictFiles S1 E now w3)" for S1
    proof -
      have abs: "filepath_IsAbs (e_RootDir E)" using E by (simp add: env_ok_def)
      obtain r5 w5 where 5: "os_Stat (e_RootDir E) w3 = (r5, w5)" by (cases "os_Stat (e_RootDir E) w3")
      have k5: "keeps_live w3 w5" using os_Stat_step [OF 5] by (intro keeps_keeps_live fs_step_keeps)
      have f5: "w_fs w5 = w_fs w3"
        using 5 unfolding os_Stat_def
        by (cases "w_faults w3") (auto simp: with_fault_def split: option.splits sum.splits)
      then have t5: "tree_ok (w_fs w5)" using k3 by simp
      show ?thesis
      proof (cases r5)
        case (Inl e)
        with 5 k5 show ?thesis by (simp add: cleanupExpiredConflictFiles_def)
      next
        case (Inr root)
        have root: "is_dir root \<or> rootk E \<noteq> []"
        proof (rule ccontr)
          assume "\<not> (is_dir root \<or> rootk E \<noteq> [])"
          moreover have "lookup_node (w_fs w3) (rootk E) = Inr root"
            using 5 [unfolded Inr os_Stat_def] unfolding rootk_def
            by (elim with_fault_ok) (auto split: sum.splits)
          ultimately show False by (auto simp: lookup_node_def tree_get_def is_dir_def)
        qed
        obtain r6 w6 where 6: "os_ReadDir (e_RootDir E) w5 = (r6, w6)" by (cases "os_ReadDir (e_RootDir E) w5")
        have k6: "keeps_live w3 w6" using os_ReadDir_step [OF 6] k5 fs_step_keeps keeps_keeps_live keeps_live_trans by blast
        have t6: "tree_ok (w_fs w6)" using os_ReadDir_same [OF 6] t5 by simp
        have vis: "keeps_live w5 (visit_conflict S1 now (e_RootDir E) (filepath_Base (e_RootDir E)) root w5)"
          if "rootk E \<noteq> []"
        proof -
          have "e_RootDir E = render_path True (rootk E)"
            using E by (metis env_ok_def rootk_def filepath_Clean_def)
          then have "filepath_Base (e_RootDir E) = last (rootk E)"
            using Base_render [OF rootk_plain [OF E] that] by metis
          then have "IsConflictPath (filepath_Base (e_RootDir E)) \<longrightarrow> conflict_key (path_elems (e_RootDir E))"
            using that by (simp add: conflict_key_def rootk_def)
          then show ?thesis using visit_conflict_live t5 by blast
        qed
        have walk: "keeps_live w6 (walk_conflicts n S1 now (e_RootDir E) es w6)" if "r6 = Inr es" for es n
          using walk_conflicts_live [OF abs _ t6] os_ReadDir_entries [OF 6 [unfolded that] t5] by blast
        show ?thesis
          using 5 6 Inr k5 k6 vis walk root
          by (cases r6) (auto simp: cleanupExpiredConflictFiles_def intro: keeps_live_trans)
      qed
    qed
    ultimately show ?thesis by auto
  qed
  have "w' = w1 \<or> w' = w4"
    using run 1 2 3 4 by (auto simp: Sync_writeConflictFile_def Let_def split: sum.splits)
  with k1 k2 k3 k4 show ?thesis by (auto intro: keeps_live_trans)
qed

lemma stale_write_keeps:
  assumes E: "env_ok E" and ok: "tree_ok (w_fs w)" and n: "normalizeProjectPath E req = Inr path"
    and np: "path \<noteq> ''.''" and h: "ResolveFileHead E path w = (Inr head, w1)" and st: "stale_base base head"
  shows "\<exists>r S' w'. doWriteFile E req data base S w = (r, S', w') \<and> keeps_live w w'
    \<and> (\<forall>resp. r = Inr resp \<longrightarrow> wf_Conflicted resp \<and> wf_NewVersion resp = h_Version head)"
proof -
  obtain cs where cs: "plain_elems cs" "path = render_path False cs" by (rule normalize_plain [OF E n])
  with np have ne: "cs \<noteq> []" using render_dot by blast
  have k1: "keeps w w1" by (rule ResolveFileHead_keeps [OF h])
  have t1: "tree_ok (w_fs w1)"
  proof -
    have "w_fs w1 = w_fs w"
      by (rule ResolveFileHead_same_fs [OF h])
    with ok show ?thesis by simp
  qed
  obtain r S' w' where 2: "Sync_writeConflictFile E path data S w1 = (r, S', w')"
    by (cases "Sync_writeConflictFile E path data S w1")
  from Sync_writeConflictFile_live [OF E cs(1) ne t1 2 [unfolded cs(2)]] k1
  have "keeps_live w w'" using keeps_keeps_live keeps_live_trans by blast
  with n h st 2 show ?thesis by (cases r) (auto simp: doWriteFile_def)
qed

text \<open>What a write that is not stale leaves behind.\<close>

definition write_outcome :: "env \<Rightarrow> string \<Rightarrow> string list \<Rightarrow> bytes option \<Rightarrow> fileHeadState \<Rightarrow> world
    \<Rightarrow> (status + WriteFileResponse) \<Rightarrow> world \<Rightarrow> bool" where
  "write_outcome E path k data head w r w' \<longleftrightarrow>
    (case r of
       Inl _ \<Rightarrow> w_db w' = w_db w
     | Inr resp \<Rightarrow> \<not> wf_Conflicted resp \<and>
         (h_Exists head \<and> h_Version head \<noteq> 0 \<and> ComputeHash E data = h_Hash head
            \<and> wf_NewVersion resp = h_Version head \<and> keeps w w'
          \<or> wf_NewVersion resp = current_head (w_db w) path + 1
            \<and> (\<exists>t. tree_get (w_fs w') k = Some (File (slice data) t))
            \<and> walk_dirs (w_fs w') [] (butlast k) = None
            \<and> (\<exists>now. w_db w' = save_effect (snapshot_meta E path data now) []
                 (if h_Exists head then ''modify'' else ''create'') data (w_db w))))"

lemma write_live_outcome:
  assumes E: "env_ok E" and cs: "plain_elems cs" "cs \<noteq> []" and g: "genuine_faults w" and i: "db_inv (w_db w)"
    and run: "write_live E (render_path False cs) head data w = (r, w')"
  shows "db_inv (w_db w') \<and> write_outcome E (render_path False cs) (rootk E @ cs) data head w r w'
    \<and> (\<forall>k n. k \<noteq> rootk E @ cs \<and> tree_get (w_fs w) k = Some n \<longrightarrow> tree_get (w_fs w') k = Some n)"
proof -
  obtain r1 w1 where 1: "FS_WriteFile E (render_path False cs) (slice data) w = (r1, w1)"
    by (cases "FS_WriteFile E (render_path False cs) (slice data) w")
  note fx = FS_WriteFile_effect [OF E cs 1]
  show ?thesis
  proof (cases r1)
    case (Inl e)
    with run 1 have "r = Inl (toGrpcError e)" "w' = w1" by (auto simp: write_live_def)
    with fx i show ?thesis by (simp add: write_outcome_def)
  next
    case (Inr u)
    obtain r2 w2 where 2: "mut_SaveFileSnapshot E (render_path False cs) (h_Exists head) data w1 = (r2, w2)"
      by (cases "mut_SaveFileSnapshot E (render_path False cs) (h_Exists head) data w1")
    have "genuine_faults w1" using g fx by (blast intro: genuine_faults_mono)
    moreover have "db_inv (w_db w1)" using i fx by simp
    ultimately have sx: "w_fs w2 = w_fs w1 \<and> db_inv (w_db w2) \<and>
        (case r2 of Inl _ \<Rightarrow> w_db w2 = w_db w1
         | Inr v \<Rightarrow> v = current_head (w_db w1) (render_path False cs) + 1
           \<and> (\<exists>now. w_db w2 = save_effect (snapshot_meta E (render_path False cs) data now) []
                 (if h_Exists head then ''modify'' else ''create'') data (w_db w1)))"
      using mut_SaveFileSnapshot_effect [OF _ _ 2] by simp
    show ?thesis
    proof (cases r2)
      case (Inl e)
      with run 1 2 \<open>r1 = Inr u\<close> have "r = Inl (toGrpcError e)" "w' = w2" by (auto simp: write_live_def)
      with fx sx Inl show ?thesis by (auto simp: write_outcome_def)
    next
      case (Inr v)
      with run 1 2 \<open>r1 = Inr u\<close> have "w' = w2"
        "r = Inr \<lparr>wf_Conflicted = False, wf_ConflictPath = [], wf_NewVersion = v\<rparr>"
        by (auto simp: write_live_def)
      with fx sx Inr \<open>r1 = Inr u\<close> show ?thesis by (auto simp: write_outcome_def)
    qed
  qed
qed

lemma doWriteFile_outcome:
  assumes E: "env_ok E" and g: "genuine_faults w" and i: "db_inv (w_db w)"
    and n: "normalizeProjectPath E req = Inr path" and np: "path \<noteq> ''.''"
    and h: "ResolveFileHead E path w = (Inr head, w1)" and ns: "\<not> stale_base base head"
  shows "\<exists>r w'. doWriteFile E req data base S w = (r, S, w') \<and> db_inv (w_db w')
    \<and> write_outcome E path (rootk E @ path_elems path) data head w r w'
    \<and> (\<forall>k n. k \<noteq> rootk E @ path_elems path \<and> tree_get (w_fs w) k = Some n
         \<longrightarrow> tree_get (w_fs w') k = Some n)"
proof -
  obtain cs where cs: "plain_elems cs" "path = render_path False cs" by (rule normalize_plain [OF E n])
  with np have ne: "cs \<noteq> []" using render_dot by blast
  have pe: "path_elems path = cs" using cs by (simp add: clean_form_plain)
  have k1: "keeps w w1" by (rule ResolveFileHead_keeps [OF h])
  have live: "\<exists>r w'. write_live E path head data v = (r, w') \<and> db_inv (w_db w')
      \<and> write_outcome E path (rootk E @ cs) data head w r w'
      \<and> (\<forall>k n. k \<noteq> rootk E @ cs \<and> tree_get (w_fs w) k = Some n \<longrightarrow> tree_get (w_fs w') k = Some n)"
    if kv: "keeps w v" for v
  proof -
    obtain r w' where run: "write_live E path head data v = (r, w')" by (cases "write_live E path head data v")
    have "genuine_faults v" using g kv by (auto simp: keeps_def intro: genuine_faults_mono)
    moreover have dv: "w_db v = w_db w" using kv by (simp add: keeps_def)
    ultimately have o: "db_inv (w_db w') \<and> write_outcome E path (rootk E @ cs) data head v r w'
      \<and> (\<forall>k n. k \<noteq> rootk E @ cs \<and> tree_get (w_fs v) k = Some n \<longrightarrow> tree_get (w_fs w') k = Some n)"
      using write_live_outcome [OF E cs(1) ne _ _ run [unfolded cs(2)]] i cs(2) by simp
    have "write_outcome E path (rootk E @ cs) data head w r w'"
      using o kv dv by (auto simp: write_outcome_def intro: keeps_trans split: sum.splits)
    with o run kv show ?thesis by (auto simp: keeps_def)
  qed
  show ?thesis
  proof (cases "h_Exists head \<and> h_Version head \<noteq> 0 \<and> ComputeHash E data = h_Hash head")
    case False
    with n h ns live [OF k1] pe show ?thesis by (auto simp: doWriteFile_def)
  next
    case same: True
    obtain s w2 where 2: "FS_Stat E path w1 = (s, w2)" by (cases "FS_Stat E path w1")
    have k2: "keeps w w2" using keeps_trans [OF k1 FS_Stat_keeps [OF 2]] .
    show ?thesis
    proof (cases s)
      case (Inl e)
      with same n h ns live [OF k2] pe 2 show ?thesis by (auto simp: doWriteFile_def)
    next
      case (Inr nd)
      have "doWriteFile E req data base S w =
          (Inr \<lparr>wf_Conflicted = False, wf_ConflictPath = [], wf_NewVersion = h_Version head\<rparr>, S, w2)"
        using same n h ns 2 Inr by (simp add: doWriteFile_def)
      with same k2 i pe show ?thesis by (auto simp: write_outcome_def keeps_def)
    qed
  qed
qed

section \<open>A sample service\<close>

definition sample_env :: env where
  "sample_env = \<lparr>e_RootDir = ''/srv'', e_Getwd = Inr ''/'', e_Sha256Hex = hex_EncodeToString,
     e_TimeFormat = (\<lambda>_. ''20250101-120000''), e_DirSize = 4096\<rparr>"

definition sample_tree :: fstree where
  "sample_tree = [([''srv''], Directory 0), ([''srv'', ''a.txt''], File [104, 105] 0)]"

abbreviation sample_world :: world where
  "sample_world \<equiv> quiet_world sample_tree sample_db"

definition sample_head :: fileHeadState where
  "sample_head = \<lparr>h_Exists = True, h_Deleted = False, h_Version = 1, h_Size = 2, h_MtimeUnix = 7, h_Hash = ''h''\<rparr>"

lemma env_ok_sample: "env_ok sample_env"
proof -
  have "filepath_IsAbs ''/srv''" "filepath_Clean ''/srv'' = ''/srv''" by code_simp+
  then show ?thesis by (simp add: env_ok_def sample_env_def)
qed

lemma tree_ok_sample: "tree_ok (w_fs sample_world)"
  by (simp add: tree_ok_def sample_tree_def plain_elem_def)

lemma normalize_sample: "normalizeProjectPath sample_env ''a.txt'' = Inr ''a.txt''"
  unfolding normalize_same [OF env_ok_sample] by code_simp

lemma sample_head_resolves: "ResolveFileHead sample_env ''a.txt'' sample_world = (Inr sample_head, sample_world)"
  by (simp add: ResolveFileHead_def GetLatestRecord_def GetMeta_def sql_query_nofault sample_db_def
      save_effect_def add_version_def set_head_def empty_db_def saved_record_def sample_meta_def
      current_head_def row_find_def max_version_def versions_of_def row_upsert_def sample_head_def
      head_of_record_def no_head_def Let_def)

section \<open>Properties\<close>

text \<open>
  Claim C6. A stale whole-file write is harmless: when the base version of \<open>WriteFile\<close> differs
  from the head's, then whatever I/O fails, the tables are unchanged, every file and directory
  is still there with its content except files whose name marks them as conflict copies (the
  sweep may remove old ones), and a success answer is marked as a conflict with the head's
  version.
\<close>

theorem stale_write_is_harmless:
  assumes "env_ok E" and "tree_ok (w_fs w)" and "normalizeProjectPath E req = Inr path"
    and "path \<noteq> ''.''" and "ResolveFileHead E path w = (Inr head, w1)" and "stale_base base head"
  shows "\<exists>r S' w'. doWriteFile E req data base S w = (r, S', w')
    \<and> w_db w' = w_db w
    \<and> (\<forall>k n. tree_get (w_fs w) k = Some n \<and> \<not> conflict_key k \<longrightarrow> tree_get (w_fs w') k = Some n)
    \<and> (\<forall>resp. r = Inr resp \<longrightarrow> wf_Conflicted resp \<and> wf_NewVersion resp = h_Version head)"
  using stale_write_keeps [OF assms, of data S] unfolding keeps_live_def by blast

theorem stale_write_is_harmless_witness:
  "\<exists>r S' w'. doWriteFile sample_env ''a.txt'' (Some [1]) 5 NewSyncService sample_world = (r, S', w')
    \<and> w_db w' = sample_db \<and> tree_get (w_fs w') [''srv'', ''a.txt''] = Some (File [104, 105] 0)"
proof -
  have ck: "\<not> conflict_key [''srv'', ''a.txt'']" unfolding conflict_key_def by code_simp
  have g: "tree_get (w_fs sample_world) [''srv'', ''a.txt''] = Some (File [104, 105] 0)"
    by (simp add: tree_get_def sample_tree_def)
  have st: "stale_base 5 sample_head" by (simp add: stale_base_def sample_head_def)
  show ?thesis
    using stale_write_is_harmless [OF env_ok_sample tree_ok_sample normalize_sample _ sample_head_resolves st,
        of "Some [1]" NewSyncService] ck g
    by auto
qed

lemma buildRange_keeps: "buildRangeConflictData p v off data w = (r, w') \<Longrightarrow> keeps w w'"
  unfolding buildRangeConflictData_def
  by (auto split: prod.splits sum.splits dest: loadVersionSnapshot_keeps)

text \<open>
  A stale range write is kept aside: \<open>WriteFileRange\<close> with a base version other than
  the head's changes no table and no existing file, answers with the head's size and version,
  records one conflicted range write, and when it names a conflict copy, that file did not exist
  before and holds the base version's content with the change applied.
\<close>

theorem stale_range_write_keeps_copy:
  assumes "env_ok E" and "0 \<le> offset" and "normalizeProjectPath E req = Inr path" and "path \<noteq> ''.''"
    and "ResolveFileHead E path w = (Inr head, w1)" and "stale_base base head"
  shows "\<exists>resp w'. Core_WriteFileRange E req offset data base w = (Inr resp, w')
    \<and> wr_Conflicted resp \<and> wr_FileSize resp = h_Size head \<and> wr_NewVersion resp = h_Version head
    \<and> w_db w' = w_db w
    \<and> (\<forall>k n. tree_get (w_fs w) k = Some n \<longrightarrow> tree_get (w_fs w') k = Some n)
    \<and> (wr_ConflictPath resp \<noteq> [] \<longrightarrow>
        (\<exists>d t. fst (buildRangeConflictData path base offset data w1) = Inr d
           \<and> tree_get (w_fs w) (rootk E @ path_elems (wr_ConflictPath resp)) = None
           \<and> tree_get (w_fs w') (rootk E @ path_elems (wr_ConflictPath resp)) = Some (File d t)))"
proof -
  obtain cs where cs: "plain_elems cs" "path = render_path False cs" by (rule normalize_plain [OF assms(1,3)])
  with assms(4) have ne: "cs \<noteq> []" using render_dot by blast
  have k1: "keeps w w1" by (rule ResolveFileHead_keeps [OF assms(5)])
  let ?build = "buildRangeConflictData path base offset data"
  obtain q w2 where 2: "keep_conflict_copy E path ?build w1 = (q, w2)" by (cases "keep_conflict_copy E path ?build w1")
  have bk: "\<forall>r v. buildRangeConflictData (render_path False cs) base offset data w1 = (r, v) \<longrightarrow> keeps w1 v"
    using buildRange_keeps by blast
  note eff = keep_conflict_copy_effect [OF assms(1) cs(1) ne bk 2 [unfolded cs(2)]]
  have k2: "keeps w1 w2" using eff unfolding cs(2) by blast
  have pq: "path_elems q = butlast cs @ [name]" if "q = render_path False (butlast cs @ [name])" "conflict_name (last cs) name" for name
  proof -
    have "plain_elem name" using that(2) by (simp add: conflict_name_def)
    with plain_tail [OF cs(1) ne] have "plain_elems (butlast cs @ [name])" by simp
    with that(1) show ?thesis by (simp add: clean_form_plain)
  qed
  have copy: "q \<noteq> [] \<Longrightarrow> \<exists>d t. fst (?build w1) = Inr d
      \<and> tree_get (w_fs w) (rootk E @ path_elems q) = None
      \<and> tree_get (w_fs w2) (rootk E @ path_elems q) = Some (File d t)"
    using eff pq keeps_None [OF k1] unfolding cs(2) by fastforce
  have run: "Core_WriteFileRange E req offset data base w =
      (Inr \<lparr>wr_BytesWritten = 0, wr_FileSize = h_Size head, wr_NewVersion = h_Version head,
            wr_Conflicted = True, wr_ConflictPath = q\<rparr>,
       RecordRangeWrite path (int (length (slice data))) True w2)"
    using assms(2,3,5,6) 2 by (simp add: Core_WriteFileRange_def)
  have k: "keeps w w2" using k1 k2 by (rule keeps_trans)
  then have "w_db w2 = w_db w" "\<forall>k n. tree_get (w_fs w) k = Some n \<longrightarrow> tree_get (w_fs w2) k = Some n"
    by (auto simp: keeps_def)
  with copy show ?thesis by (simp add: run RecordRangeWrite_def)
qed

theorem stale_range_write_keeps_copy_witness:
  "\<exists>resp w'. Core_WriteFileRange sample_env ''a.txt'' 1 (Some [7]) 5 sample_world = (Inr resp, w')
    \<and> wr_Conflicted resp \<and> w_db w' = sample_db"
proof -
  have st: "stale_base 5 sample_head" by (simp add: stale_base_def sample_head_def)
  show ?thesis
    using stale_range_write_keeps_copy [OF env_ok_sample _ normalize_sample _ sample_head_resolves st,
        of 1 "Some [7]"] by auto
qed





lemma Core_ReadFile_live:
  assumes E: "env_ok E" and n: "normalizeProjectPath E req = Inr path"
    and t: "tree_get (w_fs w) (rootk E @ path_elems path) = Some (File d t)"
    and wk: "walk_dirs (w_fs w) [] (butlast (rootk E @ path_elems path)) = None" and nf: "w_faults w = []"
  shows "Core_ReadFile E req w = (Inr d, w)"
proof -
  obtain cs where cs: "plain_elems cs" "path = render_path False cs" by (rule normalize_plain [OF E n])
  have pe: "path_elems path = cs" using cs by (simp add: clean_form_plain)
  have "lookup_node (w_fs w) (rootk E @ cs) = Inr (File d t)"
    using t wk pe by (simp add: lookup_node_def)
  then show ?thesis
    using n nf cs
    by (simp add: Core_ReadFile_def FS_ReadFile_def resolvePath_plain [OF E] os_ReadFile_def
        key_of_render [OF E])
qed

text \<open>The write of \<open>req\<close> with \<open>data\<close> went through as a new version.\<close>

definition wrote :: "env \<Rightarrow> string \<Rightarrow> bytes option \<Rightarrow> world \<Rightarrow> fileHeadState \<Rightarrow> WriteFileResponse \<Rightarrow> world \<Rightarrow> bool" where
  "wrote E req data w head resp w' \<longleftrightarrow>
    (\<exists>path base S w1. normalizeProjectPath E req = Inr path \<and> path \<noteq> ''.''
       \<and> ResolveFileHead E path w = (Inr head, w1) \<and> \<not> stale_base base head
       \<and> \<not> (h_Exists head \<and> ComputeHash E data = h_Hash head)
       \<and> doWriteFile E req data base S w = (Inr resp, S, w'))"

lemma wrote_effect:
  assumes E: "env_ok E" and g: "genuine_faults w" and i: "db_inv (w_db w)"
    and wr: "wrote E req data w head resp w'"
  obtains path now t where "normalizeProjectPath E req = Inr path"
    and "wf_NewVersion resp = current_head (w_db w) path + 1"
    and "tree_get (w_fs w') (rootk E @ path_elems path) = Some (File (slice data) t)"
    and "walk_dirs (w_fs w') [] (butlast (rootk E @ path_elems path)) = None"
    and "w_db w' = save_effect (snapshot_meta E path data now) []
           (if h_Exists head then ''modify'' else ''create'') data (w_db w)"
proof -
  from wr obtain path base S w1 where n: "normalizeProjectPath E req = Inr path" and np: "path \<noteq> ''.''"
    and h: "ResolveFileHead E path w = (Inr head, w1)" and ns: "\<not> stale_base base head"
    and ne: "\<not> (h_Exists head \<and> ComputeHash E data = h_Hash head)"
    and run: "doWriteFile E req data base S w = (Inr resp, S, w')"
    unfolding wrote_def by blast
  have "write_outcome E path (rootk E @ path_elems path) data head w (Inr resp) w'"
    using doWriteFile_outcome [OF E g i n np h ns, of data S] run by auto
  with ne n that show ?thesis by (auto simp: write_outcome_def)
qed


text \<open>
  The version of an empty file cannot be read: a write without bytes arrives as a nil
  slice, for which no content row is stored, so after it succeeded \<open>ReadFile\<close> returns the empty
  file while \<open>GetVersion\<close> of the version it returned answers \<open>NotFound\<close>.
\<close>

theorem empty_file_version_unreadable:
  assumes "env_ok E" and "genuine_faults w" and "db_inv (w_db w)"
    and "wrote E req None w head resp w'"
    and "w_fs w2 = w_fs w'" and "w_db w2 = w_db w'" and "w_faults w2 = []"
  shows "Core_ReadFile E req w2 = (Inr [], w2)
    \<and> (\<exists>st. Version_GetVersion req (wf_NewVersion resp) w2 = (Inl st, w2) \<and> status_code st = NotFound)"
proof -
  from assms(1-4) obtain path now t where n: "normalizeProjectPath E req = Inr path"
    and v: "wf_NewVersion resp = current_head (w_db w) path + 1"
    and f: "tree_get (w_fs w') (rootk E @ path_elems path) = Some (File (slice None) t)"
    and wk: "walk_dirs (w_fs w') [] (butlast (rootk E @ path_elems path)) = None"
    and db: "w_db w' = save_effect (snapshot_meta E path None now) []
           (if h_Exists head then ''modify'' else ''create'') None (w_db w)"
    by (rule wrote_effect)
  let ?m = "snapshot_meta E path None now"
  have mp: "m_Path ?m = path" by (simp add: snapshot_meta_def)
  note reads = save_effect_reads [of "w_db w" "wf_NewVersion resp" ?m w2, unfolded mp,
      OF assms(3) v _ assms(7)]
  have db2: "w_db w2 = save_effect ?m [] (if h_Exists head then ''modify'' else ''create'') None (w_db w)"
    using db assms(6) by simp
  have nr: "NormalizeRelativePath req = Inr path" using n normalize_same [OF assms(1)] by simp
  have "Core_ReadFile E req w2 = (Inr [], w2)"
    by (rule Core_ReadFile_live [OF assms(1) n]) (use f wk assms in \<open>auto simp: slice_def\<close>)
  moreover have "Version_GetVersion req (wf_NewVersion resp) w2 =
      (Inl (toGrpcError (Wrapf ''version data not found: '' (Sentinel ErrNotExist) [])), w2)"
    using reads(2,4) [OF db2] nr by (simp add: Version_GetVersion_def saved_record_def)
  ultimately show ?thesis by (simp add: toGrpcError_def)
qed

text \<open>A run of the sample service that writes, to instantiate the two properties above.\<close>

lemma sample_wrote:
  assumes "data = Some [1] \<or> data = None"
  obtains w' where "wrote sample_env ''a.txt'' data sample_world sample_head
      \<lparr>wf_Conflicted = False, wf_ConflictPath = [], wf_NewVersion = 2\<rparr> w'"
    and "w_faults w' = []"
proof -
  let ?run = "\<lambda>data. doWriteFile sample_env ''a.txt'' data 1 NewSyncService sample_world"
  have r: "fst (?run data) = Inr \<lparr>wf_Conflicted = False, wf_ConflictPath = [], wf_NewVersion = 2\<rparr>
      \<and> fst (snd (?run data)) = NewSyncService \<and> w_faults (snd (snd (?run data))) = []"
  proof (rule disjE [OF assms])
    assume "data = Some [1]"
    moreover have "fst (?run (Some [1])) = Inr \<lparr>wf_Conflicted = False, wf_ConflictPath = [], wf_NewVersion = 2\<rparr>
      \<and> fst (snd (?run (Some [1]))) = NewSyncService \<and> w_faults (snd (snd (?run (Some [1])))) = []" by code_simp
    ultimately show ?thesis by simp
  next
    assume "data = None"
    moreover have "fst (?run None) = Inr \<lparr>wf_Conflicted = False, wf_ConflictPath = [], wf_NewVersion = 2\<rparr>
      \<and> fst (snd (?run None)) = NewSyncService \<and> w_faults (snd (snd (?run None))) = []" by code_simp
    ultimately show ?thesis by simp
  qed
  have h: "ComputeHash sample_env data \<noteq> h_Hash sample_head"
    using assms by (auto simp: ComputeHash_def sample_env_def sample_head_def hex_EncodeToString_def hex_digit_def)
  have "wrote sample_env ''a.txt'' data sample_world sample_head
      \<lparr>wf_Conflicted = False, wf_ConflictPath = [], wf_NewVersion = 2\<rparr> (snd (snd (?run data)))"
    unfolding wrote_def
    by (rule exI [of _ "''a.txt''"], rule exI [of _ 1], rule exI [of _ NewSyncService], rule exI [of _ sample_world])
      (use r h in \<open>auto simp: normalize_sample sample_head_resolves stale_base_def sample_head_def prod_eq_iff\<close>)
  with r that show ?thesis by blast
qed


theorem empty_file_version_unreadable_witness:
  "\<exists>w' st. Core_ReadFile sample_env ''a.txt'' w' = (Inr [], w')
     \<and> Version_GetVersion ''a.txt'' 2 w' = (Inl st, w') \<and> status_code st = NotFound"
proof -
  obtain w' where w: "wrote sample_env ''a.txt'' None sample_world sample_head
      \<lparr>wf_Conflicted = False, wf_ConflictPath = [], wf_NewVersion = 2\<rparr> w'" and f: "w_faults w' = []"
    by (rule sample_wrote [of None]) simp_all
  from empty_file_version_unreadable [OF env_ok_sample genuine_faults_nil _ w refl refl f]
  show ?thesis by (auto simp: db_inv_sample)
qed

section \<open>Deleting and renaming\<close>

lemma os_Remove_gone:
  assumes "os_Remove p w = (Inr u, w')" and "path_elems p \<noteq> []"
  shows "tree_get (w_fs w') (path_elems p) = None"
  using assms unfolding os_Remove_def
  by (elim with_fault_ok) (auto simp: Let_def tree_get_del split: sum.splits node.splits if_splits)

lemma GetMeta_same_db: "GetMeta p w = (r, w') \<Longrightarrow> w_db w' = w_db w \<and> set (w_faults w') \<subseteq> set (w_faults w)"
  using GetMeta_keeps [of p w r w'] by (simp add: keeps_def)

lemma delete_effect_reads:
  assumes inv: "db_inv db" and v: "v = current_head db p + 1"
    and db: "w_db w2 = delete_effect p sz mt c db" and nf: "w_faults w2 = []"
  shows "GetMeta p w2 = (Inl (Sentinel ErrNotExist), w2)"
    and "GetLatestRecord p w2 = (Inr \<lparr>v_Version = v, v_MtimeUnix = mt, v_Hash = [], v_Size = sz,
       v_ClientID = c, v_ChangeType = ''delete''\<rparr>, w2)"
proof -
  let ?rec = "\<lparr>v_Version = v, v_MtimeUnix = mt, v_Hash = [], v_Size = sz,
       v_ClientID = c, v_ChangeType = ''delete''\<rparr>"
  have vs: "versions_of (w_db w2) p = versions_of db p @ [?rec]"
    by (simp add: db v delete_effect_def Let_def versions_of_add) (simp add: versions_of_def set_head_def)
  have below: "x \<in> set (versions_of db p) \<Longrightarrow> v_Version x < v_Version ?rec" for x
    using versions_of_below [OF inv] v by (simp add: less_Suc_eq_le)
  show "GetMeta p w2 = (Inl (Sentinel ErrNotExist), w2)"
    by (simp add: GetMeta_def sql_query_nofault nf db delete_effect_meta row_find_delete)
  show "GetLatestRecord p w2 = (Inr ?rec, w2)"
    using below by (simp add: GetLatestRecord_def sql_query_nofault nf vs sort_key_first)
qed

text \<open>
  Claim C10. A delete is remembered: after \<open>Delete\<close> succeeded the file is gone, its head reads as
  deleted with a version one above the old head, and a client that still writes against any
  other base version is answered with a conflict instead of bringing the file back.
\<close>

theorem delete_is_remembered:
  assumes "env_ok E" and "genuine_faults w" and "db_inv (w_db w)"
    and "normalizeProjectPath E req = Inr path" and "path \<noteq> ''.''"
    and "Core_Delete E req w = (Inr (), w')" and "w_db w2 = w_db w'" and "w_faults w2 = []"
  shows "tree_get (w_fs w') (rootk E @ path_elems path) = None
    \<and> (\<exists>head. ResolveFileHead E path w2 = (Inr head, w2) \<and> h_Deleted head \<and> \<not> h_Exists head
        \<and> h_Version head = current_head (w_db w) path + 1
        \<and> (\<forall>base. base \<noteq> 0 \<and> base \<noteq> h_Version head \<longrightarrow> stale_base base head))"
proof -
  obtain cs where cs: "plain_elems cs" "path = render_path False cs" by (rule normalize_plain [OF assms(1,4)])
  with assms(5) have ne: "cs \<noteq> []" using render_dot by blast
  have pe: "path_elems path = cs" using cs by (simp add: clean_form_plain)
  let ?full = "render_path True (rootk E @ cs)"
  have pk: "path_elems ?full = rootk E @ cs" by (rule key_of_render [OF assms(1) cs(1)])
  obtain m w1 where 1: "GetMeta path w = (m, w1)" by (cases "GetMeta path w")
  note d1 = GetMeta_same_db [OF 1]
  from assms(4,6) 1 obtain sz where sz: "(case m of Inr m \<Rightarrow> Inr (m_Size m)
      | Inl e \<Rightarrow> if \<not> errors_Is e ErrNotExist then Inl e else Inr 0) = Inr sz"
    by (auto simp: Core_Delete_def split: sum.splits if_splits)
  obtain r2 v2 where 2: "FS_Remove E path w1 = (r2, v2)" by (cases "FS_Remove E path w1")
  from assms(4,6) 1 sz 2 obtain u where r2: "r2 = Inr u"
    by (cases r2) (auto simp: Core_Delete_def)
  have rm: "os_Remove ?full w1 = (Inr u, v2)"
    using 2 r2 cs resolvePath_plain [OF assms(1) cs(1)] by (simp add: FS_Remove_def)
  have gone: "tree_get (w_fs v2) (rootk E @ cs) = None"
    using os_Remove_gone [OF rm] pk ne by simp
  have d2: "w_db v2 = w_db w1" "set (w_faults v2) \<subseteq> set (w_faults w1)"
    using os_Remove_step [OF rm] by (auto simp: fs_step_def)
  obtain now v3 where 3: "time_Now v2 = (now, v3)" by (cases "time_Now v2")
  have d3: "w_db v3 = w_db v2" "w_fs v3 = w_fs v2" "w_faults v3 = w_faults v2"
    using 3 by (auto simp: time_Now_def split: list.splits)
  have "set (w_faults v3) \<subseteq> set (w_faults w)" using d1 d2 d3 by auto
  with assms(2) have g3: "genuine_faults v3" by (rule genuine_faults_mono)
  have db3: "w_db v3 = w_db w" using d1 d2 d3 by simp
  have hd: "distinct (map fst (t_head (w_db v3)))" using assms(3) db3 by (simp add: db_inv_def)
  obtain r4 v4 where 4: "AppendDeleteSnapshot path sz (time_Unix now) [] v3 = (r4, v4)"
    by (cases "AppendDeleteSnapshot path sz (time_Unix now) [] v3")
  from assms(4,6) 1 sz 2 r2 3 4 obtain v where r4: "r4 = Inr v" and w': "w' = TriggerMutation v4"
    by (cases r4) (auto simp: Core_Delete_def)
  have "w_db v4 = delete_effect path sz (time_Unix now) [] (w_db w) \<and> w_fs v4 = w_fs v3"
    using AppendDeleteSnapshot_outcome [OF g3 hd, of path sz "time_Unix now" "[]"] 4 r4 db3
    by (auto elim!: tx_outcomeE dest: tx_stepD)
  then have db2: "w_db w2 = delete_effect path sz (time_Unix now) [] (w_db w)"
    and fs: "w_fs w' = w_fs v2" using assms(7) w' d3 by (auto simp: TriggerMutation_def)
  note reads = delete_effect_reads [OF assms(3) refl db2 assms(8)]
  define head where "head = head_of_record \<lparr>v_Version = current_head (w_db w) path + 1,
     v_MtimeUnix = time_Unix now, v_Hash = [], v_Size = sz, v_ClientID = [], v_ChangeType = ''delete''\<rparr>"
  have hh: "h_Deleted head" "\<not> h_Exists head" "h_Version head = current_head (w_db w) path + 1"
    by (simp_all add: head_def head_of_record_def no_head_def)
  have "ResolveFileHead E path w2 = (Inr head, w2)"
    by (simp add: ResolveFileHead_def reads head_def head_of_record_def no_head_def)
  with gone fs pe hh show ?thesis by (auto simp: stale_base_def)
qed

theorem delete_is_remembered_witness:
  "\<exists>w' head. Core_Delete sample_env ''a.txt'' sample_world = (Inr (), w')
     \<and> ResolveFileHead sample_env ''a.txt'' w' = (Inr head, w') \<and> h_Deleted head"
proof -
  have "fst (Core_Delete sample_env ''a.txt'' sample_world) = Inr ()
      \<and> w_faults (snd (Core_Delete sample_env ''a.txt'' sample_world)) = []" by code_simp
  then obtain w' where d: "Core_Delete sample_env ''a.txt'' sample_world = (Inr (), w')" and f: "w_faults w' = []"
    by (cases "Core_Delete sample_env ''a.txt'' sample_world") auto
  show ?thesis
    using delete_is_remembered [OF env_ok_sample genuine_faults_nil _ normalize_sample _ d refl f] d
    by (auto simp: db_inv_sample)
qed

definition two_files :: world where
  "two_files = quiet_world
     [([''srv''], Directory 0), ([''srv'', ''a.txt''], File [97] 0), ([''srv'', ''b.txt''], File [98] 0)]
     (save_effect (sample_meta\<lparr>m_Path := ''b.txt''\<rparr>) [] ''create'' (Some [98]) sample_db)"

text \<open>
  Renaming onto a tracked file destroys it: \<open>os.Rename\<close> replaces the file at the new
  path, the tables then refuse the second row for that path, the first rename is undone, and the
  handler answers \<open>Internal\<close>; the file that was at the new path is gone although its metadata row
  is still there.
\<close>

theorem rename_onto_tracked_file_destroys_it:
  "let r = Core_Rename sample_env ''a.txt'' ''b.txt'' two_files in
     status_code (projl (fst r)) = Internal \<and> w_db (snd r) = w_db two_files
     \<and> tree_get (w_fs (snd r)) [''srv'', ''a.txt''] = Some (File [97] 0)
     \<and> tree_get (w_fs two_files) [''srv'', ''b.txt''] = Some (File [98] 0)
     \<and> tree_get (w_fs (snd r)) [''srv'', ''b.txt''] = None
     \<and> row_find m_Path ''b.txt'' (t_meta (w_db (snd r))) \<noteq> None"
  by code_simp

end
