(* ===== verification/LockManager.thy ===== *)
theory LockManager
  imports GoPath
begin

text \<open>
  \<open>internal/lock/manager.go\<close>, the advisory lock table of the clients, and
  \<open>internal/server/lock_service.go\<close>, its handlers. Every method runs under the manager's mutex,
  so it is one step; the time of \<open>time.Now()\<close> is an argument.
\<close>

section \<open>The manager\<close>

record LockInfo =
  li_Owner :: string
  li_ExpireAt :: gotime

record manager =
  mg_locks :: "string \<Rightarrow> LockInfo option"
  mg_defaultTTL :: duration

definition NewManager :: "duration \<Rightarrow> manager" where
  "NewManager ttl = \<lparr>mg_locks = (\<lambda>_. None), mg_defaultTTL = ttl\<rparr>"

definition effective_ttl :: "manager \<Rightarrow> duration \<Rightarrow> duration" where
  "effective_ttl M ttl = (if ttl \<le> 0 then mg_defaultTTL M else ttl)"

definition Lock_Acquire :: "string \<Rightarrow> string \<Rightarrow> duration \<Rightarrow> gotime \<Rightarrow> manager
    \<Rightarrow> (bool \<times> string \<times> gotime) \<times> manager" where
  "Lock_Acquire path clientID ttl now M =
    (let ttl = effective_ttl M ttl in
     case mg_locks M path of
       None \<Rightarrow>
         ((True, clientID, now + ttl),
          M\<lparr>mg_locks := (mg_locks M)(path \<mapsto> \<lparr>li_Owner = clientID, li_ExpireAt = now + ttl\<rparr>)\<rparr>)
     | Some info \<Rightarrow>
         if now > li_ExpireAt info then
           ((True, clientID, now + ttl),
            M\<lparr>mg_locks := (mg_locks M)(path \<mapsto> \<lparr>li_Owner = clientID, li_ExpireAt = now + ttl\<rparr>)\<rparr>)
         else ((False, li_Owner info, li_ExpireAt info), M))"

definition Lock_Renew :: "string \<Rightarrow> string \<Rightarrow> duration \<Rightarrow> gotime \<Rightarrow> manager \<Rightarrow> (bool \<times> gotime) \<times> manager" where
  "Lock_Renew path clientID ttl now M =
    (case mg_locks M path of
       None \<Rightarrow> ((False, zero_time), M)
     | Some info \<Rightarrow>
         if li_Owner info \<noteq> clientID then ((False, li_ExpireAt info), M)
         else
           let exp = now + effective_ttl M ttl in
           ((True, exp), M\<lparr>mg_locks := (mg_locks M)(path \<mapsto> info\<lparr>li_ExpireAt := exp\<rparr>)\<rparr>))"

definition Lock_Release :: "string \<Rightarrow> string \<Rightarrow> manager \<Rightarrow> bool \<times> manager" where
  "Lock_Release path clientID M =
    (case mg_locks M path of
       None \<Rightarrow> (False, M)
     | Some info \<Rightarrow>
         if li_Owner info \<noteq> clientID then (False, M)
         else (True, M\<lparr>mg_locks := (mg_locks M)(path := None)\<rparr>))"

definition Lock_CleanupExpired :: "gotime \<Rightarrow> manager \<Rightarrow> manager" where
  "Lock_CleanupExpired now M =
    M\<lparr>mg_locks := (\<lambda>p. case mg_locks M p of
       None \<Rightarrow> None
     | Some info \<Rightarrow> if now > li_ExpireAt info then None else Some info)\<rparr>"

section \<open>The handlers\<close>

text \<open>A wire value of \<open>ttl_seconds\<close> times \<open>time.Second\<close>, as an int64 product.\<close>

definition ttl_of_seconds :: "int \<Rightarrow> duration" where
  "ttl_of_seconds s = i64 (s * second)"

definition AcquireLock :: "string \<Rightarrow> string \<Rightarrow> int \<Rightarrow> gotime \<Rightarrow> manager
    \<Rightarrow> (status + bool \<times> string \<times> int) \<times> manager" where
  "AcquireLock reqPath clientID ttlSeconds now M =
    (case NormalizeRelativePath reqPath of
       Inl e \<Rightarrow> (Inl (toGrpcError e), M)
     | Inr path \<Rightarrow>
       (case Lock_Acquire path clientID (ttl_of_seconds ttlSeconds) now M of
          ((ok, owner, exp), M1) \<Rightarrow> (Inr (ok, owner, time_Unix exp), M1)))"

definition RenewLock :: "string \<Rightarrow> string \<Rightarrow> int \<Rightarrow> gotime \<Rightarrow> manager
    \<Rightarrow> (status + bool \<times> int) \<times> manager" where
  "RenewLock reqPath clientID ttlSeconds now M =
    (case NormalizeRelativePath reqPath of
       Inl e \<Rightarrow> (Inl (toGrpcError e), M)
     | Inr path \<Rightarrow>
       (case Lock_Renew path clientID (ttl_of_seconds ttlSeconds) now M of
          ((ok, exp), M1) \<Rightarrow> (Inr (ok, time_Unix exp), M1)))"

definition ReleaseLock :: "string \<Rightarrow> string \<Rightarrow> manager \<Rightarrow> (status + bool) \<times> manager" where
  "ReleaseLock reqPath clientID M =
    (case NormalizeRelativePath reqPath of
       Inl e \<Rightarrow> (Inl (toGrpcError e), M)
     | Inr path \<Rightarrow>
       (case Lock_Release path clientID M of (ok, M1) \<Rightarrow> (Inr ok, M1)))"

section \<open>The contract of a lock table\<close>

text \<open>What clients may ask, and the answer: whether it was granted and who holds the lock until when.\<close>

datatype lock_op =
    AcquireOp (op_path: string) (op_client: string) duration
  | RenewOp (op_path: string) (op_client: string) duration
  | ReleaseOp (op_path: string) (op_client: string)
  | CleanupOp

fun acts_as :: "lock_op \<Rightarrow> string \<Rightarrow> string \<Rightarrow> bool" where
  "acts_as (AcquireOp p c _) path client = (p = path \<and> c = client)"
| "acts_as (RenewOp p c _) path client = (p = path \<and> c = client)"
| "acts_as (ReleaseOp p c) path client = (p = path \<and> c = client)"
| "acts_as CleanupOp path client = False"

locale lock_table =
  fixes holder :: "'s \<Rightarrow> string \<Rightarrow> (string \<times> gotime) option"
    and exec :: "lock_op \<Rightarrow> gotime \<Rightarrow> 's \<Rightarrow> bool \<times> 's"
  assumes busy: "holder s p = Some (c, e) \<Longrightarrow> now \<le> e \<Longrightarrow> exec (AcquireOp p d ttl) now s = (False, s)"
    and free: "(case holder s p of None \<Rightarrow> True | Some (c, e) \<Rightarrow> e < now) \<Longrightarrow>
      \<exists>e s'. exec (AcquireOp p d ttl) now s = (True, s') \<and> holder s' p = Some (d, e)"
    and others: "holder s p = Some (c, e) \<Longrightarrow> now \<le> e \<Longrightarrow> \<not> acts_as op p c \<Longrightarrow>
      holder (snd (exec op now s)) p = Some (c, e)"
begin

text \<open>Operations with their times, one after the other.\<close>

fun run :: "(gotime \<times> lock_op) list \<Rightarrow> 's \<Rightarrow> 's" where
  "run [] s = s"
| "run ((now, op) # ops) s = run ops (snd (exec op now s))"

lemma holder_run:
  assumes "holder s p = Some (c, e)"
    and "\<forall>x\<in>set ops. fst x \<le> e \<and> \<not> acts_as (snd x) p c"
  shows "holder (run ops s) p = Some (c, e)"
  using assms
proof (induction ops arbitrary: s)
  case Nil
  then show ?case by simp
next
  case (Cons x ops)
  obtain now op where x: "x = (now, op)" by (cases x)
  have "holder (snd (exec op now s)) p = Some (c, e)"
    by (rule others) (use Cons.prems x in auto)
  with Cons x show ?case by simp
qed

lemma exclusive:
  assumes "holder s p = Some (c, e)"
    and "\<forall>x\<in>set ops. fst x \<le> e \<and> \<not> acts_as (snd x) p c" and "now \<le> e"
  shows "fst (exec (AcquireOp p d ttl) now (run ops s)) = False"
  using busy [OF holder_run [OF assms(1,2)] assms(3)] by simp

lemma granted_after_expiry:
  assumes "holder s p = Some (c, e)" and "e < now"
  shows "fst (exec (AcquireOp p d ttl) now s)"
proof -
  have "case holder s p of None \<Rightarrow> True | Some (c, e) \<Rightarrow> e < now" using assms by simp
  from free [OF this, of d ttl] show ?thesis by auto
qed

end

section \<open>The manager is a lock table\<close>

fun lock_exec :: "lock_op \<Rightarrow> gotime \<Rightarrow> manager \<Rightarrow> bool \<times> manager" where
  "lock_exec (AcquireOp p c ttl) now M = (case Lock_Acquire p c ttl now M of ((ok, _), M1) \<Rightarrow> (ok, M1))"
| "lock_exec (RenewOp p c ttl) now M = (case Lock_Renew p c ttl now M of ((ok, _), M1) \<Rightarrow> (ok, M1))"
| "lock_exec (ReleaseOp p c) now M = Lock_Release p c M"
| "lock_exec CleanupOp now M = (True, Lock_CleanupExpired now M)"

definition lock_holder :: "manager \<Rightarrow> string \<Rightarrow> (string \<times> gotime) option" where
  "lock_holder M p = map_option (\<lambda>info. (li_Owner info, li_ExpireAt info)) (mg_locks M p)"

lemmas lock_defs = Lock_Acquire_def Lock_Renew_def Lock_Release_def Lock_CleanupExpired_def
  lock_holder_def Let_def

interpretation lm: lock_table lock_holder lock_exec
proof
  fix s p c e now d ttl
  assume "lock_holder s p = Some (c, e)" "now \<le> e"
  then show "lock_exec (AcquireOp p d ttl) now s = (False, s)"
    by (auto simp: lock_defs split: option.splits)
next
  fix s p now d ttl
  assume "case lock_holder s p of None \<Rightarrow> True | Some (c, e) \<Rightarrow> e < now"
  then show "\<exists>e s'. lock_exec (AcquireOp p d ttl) now s = (True, s') \<and> lock_holder s' p = Some (d, e)"
    by (auto simp: lock_defs split: option.splits)
next
  fix s p c e now op
  assume "lock_holder s p = Some (c, e)" "now \<le> e" "\<not> acts_as op p c"
  then show "lock_holder (snd (lock_exec op now s)) p = Some (c, e)"
    by (cases op) (auto simp: lock_defs split: option.splits)
qed

section \<open>Properties\<close>

text \<open>
  Claim C11. Mutual exclusion with expiry: once \<open>AcquireLock\<close> granted a path to a client, then
  whatever sequence of lock operations by anyone follows (cleanups included), as long as that
  client itself does nothing on the path and time has not passed the expiry, no acquisition of
  the path is granted to anybody; and after the expiry the next acquisition is granted.
\<close>

theorem lock_is_exclusive_until_expiry:
  assumes "Lock_Acquire p c ttl t M = ((True, c, e), M1)"
    and "\<forall>x\<in>set ops. fst x \<le> e \<and> \<not> acts_as (snd x) p c"
  shows "(now \<le> e \<longrightarrow> \<not> fst (lock_exec (AcquireOp p d ttl') now (lm.run ops M1)))
    \<and> (e < now \<longrightarrow> fst (lock_exec (AcquireOp p d ttl') now (lm.run ops M1)))"
proof -
  have h: "lock_holder M1 p = Some (c, e)"
    using assms(1) by (auto simp: lock_defs split: option.splits if_splits)
  show ?thesis
    using lm.exclusive [OF h assms(2)] lm.granted_after_expiry [OF lm.holder_run [OF h assms(2)]] by blast
qed

theorem lock_is_exclusive_until_expiry_witness:
  "\<not> fst (lock_exec (AcquireOp ''a'' ''bob'' 5) 7 (snd (Lock_Acquire ''a'' ''ann'' 5 3 (NewManager 10))))
   \<and> fst (lock_exec (AcquireOp ''a'' ''bob'' 5) 9 (snd (Lock_Acquire ''a'' ''ann'' 5 3 (NewManager 10))))"
proof -
  have a: "Lock_Acquire ''a'' ''ann'' 5 3 (NewManager 10) = ((True, ''ann'', 8), snd (Lock_Acquire ''a'' ''ann'' 5 3 (NewManager 10)))"
    by (simp add: Lock_Acquire_def NewManager_def effective_ttl_def)
  show ?thesis
    using lock_is_exclusive_until_expiry [OF a, of "[]" 7 "''bob''" 5]
      lock_is_exclusive_until_expiry [OF a, of "[]" 9 "''bob''" 5] by simp
qed

text \<open>
  \<open>CleanupExpired\<close> is invisible to whoever asks for a lock: at the time of the sweep
  and at any later time, \<open>Acquire\<close> gives the same answer with and without the sweep. (\<open>Renew\<close>
  does not: the owner of an expired lock can renew it until a sweep removes it.)
\<close>

theorem cleanup_invisible_to_acquire:
  assumes "t \<le> now"
  shows "fst (Lock_Acquire p c ttl now (Lock_CleanupExpired t M)) = fst (Lock_Acquire p c ttl now M)"
  using assms by (auto simp: lock_defs effective_ttl_def split: option.splits)

theorem cleanup_invisible_to_acquire_witness:
  "fst (Lock_Acquire ''a'' ''bob'' 5 20 (Lock_CleanupExpired 20 (snd (Lock_Acquire ''a'' ''ann'' 5 3 (NewManager 10)))))
   = fst (Lock_Acquire ''a'' ''bob'' 5 20 (snd (Lock_Acquire ''a'' ''ann'' 5 3 (NewManager 10))))"
  by (rule cleanup_invisible_to_acquire) simp

end
