(* ===== verification/PathLocker.thy ===== *)
theory PathLocker
  imports Prelude
begin

text \<open>
  \<open>internal/server/path_locker.go\<close>: one mutex per path, taken by the handlers around their work.
  \<open>LockMany\<close> takes several in sorted order. The handlers run concurrently, so this is a step
  relation: each thread takes its next mutex when it is free, works once it holds all of them,
  and unlocks in the reverse order.
\<close>

section \<open>The order of LockMany\<close>

fun dedupe_paths :: "string list \<Rightarrow> string set \<Rightarrow> string list" where
  "dedupe_paths [] seen = []"
| "dedupe_paths (p # ps) seen =
    (if p \<in> seen then dedupe_paths ps seen else p # dedupe_paths ps (insert p seen))"

definition LockMany_order :: "string list \<Rightarrow> string list" where
  "LockMany_order paths = sort (dedupe_paths paths {})"

lemma dedupe_paths_set: "set (dedupe_paths ps seen) = set ps - seen"
  by (induction ps seen rule: dedupe_paths.induct) auto

lemma dedupe_paths_distinct: "distinct (dedupe_paths ps seen)"
  by (induction ps seen rule: dedupe_paths.induct) (auto simp: dedupe_paths_set)

lemma LockMany_order_sorted: "sorted_wrt (<) (LockMany_order ps)"
  by (simp add: LockMany_order_def strict_sorted_iff dedupe_paths_distinct)

lemma LockMany_order_set: "set (LockMany_order ps) = set ps"
  by (simp add: LockMany_order_def dedupe_paths_set)

section \<open>Threads\<close>

text \<open>
  A thread: the mutexes it still has to take, those it holds (last taken first), and whether it
  is unlocking.
\<close>

record thread =
  th_todo :: "string list"
  th_held :: "string list"
  th_unlocking :: bool

record locker =
  lk_owner :: "string \<Rightarrow> nat option"
  lk_thread :: "nat \<Rightarrow> thread"

definition NewPathLocker :: "(nat \<Rightarrow> string list) \<Rightarrow> locker" where
  "NewPathLocker req = \<lparr>lk_owner = (\<lambda>_. None),
     lk_thread = (\<lambda>i. \<lparr>th_todo = LockMany_order (req i), th_held = [], th_unlocking = False\<rparr>)\<rparr>"

definition finished :: "thread \<Rightarrow> bool" where
  "finished T \<longleftrightarrow> th_todo T = [] \<and> th_held T = [] \<and> th_unlocking T"

definition in_section :: "thread \<Rightarrow> bool" where
  "in_section T \<longleftrightarrow> th_todo T = [] \<and> \<not> th_unlocking T"

inductive lock_step :: "nat \<Rightarrow> locker \<Rightarrow> locker \<Rightarrow> bool" where
  take_mutex: "th_todo (lk_thread L i) = p # ps \<Longrightarrow> lk_owner L p = None \<Longrightarrow>
    lock_step i L (L\<lparr>lk_owner := (lk_owner L)(p \<mapsto> i),
      lk_thread := (lk_thread L)(i := (lk_thread L i)\<lparr>th_todo := ps, th_held := p # th_held (lk_thread L i)\<rparr>)\<rparr>)"
| work_done: "in_section (lk_thread L i) \<Longrightarrow>
    lock_step i L (L\<lparr>lk_thread := (lk_thread L)(i := (lk_thread L i)\<lparr>th_unlocking := True\<rparr>)\<rparr>)"
| unlock: "th_unlocking (lk_thread L i) \<Longrightarrow> th_held (lk_thread L i) = p # ps \<Longrightarrow>
    lock_step i L (L\<lparr>lk_owner := (lk_owner L)(p := None),
      lk_thread := (lk_thread L)(i := (lk_thread L i)\<lparr>th_held := ps\<rparr>)\<rparr>)"

inductive_cases lock_stepE: "lock_step i L L'"

inductive lock_reach :: "(nat \<Rightarrow> string list) \<Rightarrow> locker \<Rightarrow> bool" for req where
  reach_init: "lock_reach req (NewPathLocker req)"
| reach_step: "lock_reach req L \<Longrightarrow> lock_step i L L' \<Longrightarrow> lock_reach req L'"

section \<open>The invariant\<close>

definition thread_ok :: "(nat \<Rightarrow> string list) \<Rightarrow> locker \<Rightarrow> nat \<Rightarrow> bool" where
  "thread_ok req L i \<longleftrightarrow> (let T = lk_thread L i in
     sorted_wrt (<) (rev (th_held T) @ th_todo T)
     \<and> set (th_held T) = {p. lk_owner L p = Some i}
     \<and> (th_unlocking T \<longrightarrow> th_todo T = [])
     \<and> (\<not> th_unlocking T \<longrightarrow> set (th_held T) \<union> set (th_todo T) = set (req i)))"

lemma lock_step_ok:
  assumes "lock_step j L L'" and "\<And>i. thread_ok req L i"
  shows "thread_ok req L' i"
  using assms(1)
proof cases
  case (take_mutex p ps)
  have j: "thread_ok req L j" and i: "thread_ok req L i" using assms(2) by auto
  show ?thesis
  proof (cases "i = j")
    case True
    with take_mutex j show ?thesis by (auto simp: thread_ok_def Let_def)
  next
    case False
    with take_mutex i show ?thesis by (auto simp: thread_ok_def Let_def)
  qed
next
  case work_done
  then show ?thesis using assms(2) [of i] by (auto simp: thread_ok_def Let_def in_section_def)
next
  case (unlock p ps)
  have j: "thread_ok req L j" and i: "thread_ok req L i" using assms(2) by auto
  have np: "p \<notin> set ps"
    using j unlock by (auto simp: thread_ok_def Let_def sorted_wrt_append)
  have own: "lk_owner L p = Some j" using j unlock by (auto simp: thread_ok_def Let_def)
  show ?thesis
  proof (cases "i = j")
    case True
    have "{q. q \<noteq> p \<and> lk_owner L q = Some j} = set ps"
      using j unlock np by (auto simp: thread_ok_def Let_def)
    with True unlock j show ?thesis by (auto simp: thread_ok_def Let_def sorted_wrt_append)
  next
    case False
    with unlock i own show ?thesis by (auto simp: thread_ok_def Let_def)
  qed
qed

lemma lock_reach_ok: "lock_reach req L \<Longrightarrow> thread_ok req L i"
proof (induction arbitrary: i rule: lock_reach.induct)
  case reach_init
  show ?case
    by (simp add: thread_ok_def NewPathLocker_def LockMany_order_sorted LockMany_order_set)
next
  case (reach_step L j L')
  then show ?case using lock_step_ok by blast
qed

section \<open>Properties\<close>

text \<open>
  Claim C12. The handlers exclude each other: in every reachable state, two threads inside their
  critical sections have requested no common path, however the steps of any number of threads
  interleave.
\<close>

theorem path_locks_exclude:
  assumes "lock_reach req L" and "in_section (lk_thread L i)" and "in_section (lk_thread L j)" and "i \<noteq> j"
  shows "set (req i) \<inter> set (req j) = {}"
proof -
  have "set (req i) = {p. lk_owner L p = Some i}"
    using lock_reach_ok [OF assms(1), of i] assms(2) by (auto simp: thread_ok_def in_section_def Let_def)
  moreover have "set (req j) = {p. lk_owner L p = Some j}"
    using lock_reach_ok [OF assms(1), of j] assms(3) by (auto simp: thread_ok_def in_section_def Let_def)
  ultimately show ?thesis using assms(4) by auto
qed

lemma lock_progress:
  assumes ok: "\<And>i. thread_ok req L i" and fin: "\<And>i. n \<le> i \<Longrightarrow> th_held (lk_thread L i) = []"
    and open_i: "i < n" "\<not> finished (lk_thread L i)"
  shows "\<exists>j<n. \<exists>L'. lock_step j L L'"
proof (cases "\<exists>j<n. \<not> finished (lk_thread L j) \<and> th_todo (lk_thread L j) = []")
  case True
  then obtain j where j: "j < n" "\<not> finished (lk_thread L j)" "th_todo (lk_thread L j) = []" by blast
  show ?thesis
  proof (cases "th_unlocking (lk_thread L j)")
    case False
    then have "in_section (lk_thread L j)" using j by (simp add: in_section_def)
    then show ?thesis using j(1) lock_step.work_done by blast
  next
    case True
    then obtain p ps where "th_held (lk_thread L j) = p # ps"
      using j by (cases "th_held (lk_thread L j)") (auto simp: finished_def)
    then show ?thesis using j(1) True lock_step.unlock by blast
  qed
next
  case False
  define W where "W = {j. j < n \<and> th_todo (lk_thread L j) \<noteq> []}"
  have fW: "finite W" and iW: "i \<in> W" using False open_i by (auto simp: W_def)
  define m where "m = Max ((\<lambda>j. hd (th_todo (lk_thread L j))) ` W)"
  have "m \<in> (\<lambda>j. hd (th_todo (lk_thread L j))) ` W"
    unfolding m_def using fW iW by (intro Max_in) auto
  then obtain j where j: "j \<in> W" and mj: "m = hd (th_todo (lk_thread L j))" by blast
  obtain ps where todo: "th_todo (lk_thread L j) = m # ps"
    using j mj by (cases "th_todo (lk_thread L j)") (auto simp: W_def)
  have "lk_owner L m = None"
  proof (rule ccontr)
    assume "lk_owner L m \<noteq> None"
    then obtain k where k: "lk_owner L m = Some k" by auto
    then have hk: "m \<in> set (th_held (lk_thread L k))" using ok [of k] by (auto simp: thread_ok_def Let_def)
    then have kn: "k < n" using fin [of k] by (cases "n \<le> k") auto
    have "\<not> finished (lk_thread L k)" using hk by (auto simp: finished_def)
    with False kn have kW: "k \<in> W" by (auto simp: W_def)
    then obtain q qs where q: "th_todo (lk_thread L k) = q # qs"
      by (cases "th_todo (lk_thread L k)") (auto simp: W_def)
    have "m < q" using ok [of k] hk q by (auto simp: thread_ok_def Let_def sorted_wrt_append)
    moreover have "q \<le> m" unfolding m_def using kW fW q by (intro Max_ge) force+
    ultimately show False by simp
  qed
  from lock_step.take_mutex [OF todo this] j show ?thesis by (auto simp: W_def)
qed

text \<open>
  Claim C13. The handlers never deadlock: with any number \<open>n\<close> of threads (the others idle), in
  every reachable state in which some thread has not finished, some thread can take a step,
  because \<open>LockMany\<close> takes the mutexes in one sorted order without duplicates.
\<close>

theorem path_locks_never_deadlock:
  assumes "lock_reach req L" and "\<forall>i\<ge>n. req i = []" and "i < n" and "\<not> finished (lk_thread L i)"
  shows "\<exists>j<n. \<exists>L'. lock_step j L L'"
proof (rule lock_progress [OF lock_reach_ok [OF assms(1)] _ assms(3,4)])
  fix k assume "n \<le> k"
  then have r: "req k = []" using assms(2) by simp
  from assms(1) have "th_held (lk_thread L k) = [] \<and> th_todo (lk_thread L k) = []"
  proof (induction rule: lock_reach.induct)
    case reach_init
    then show ?case using r by (simp add: NewPathLocker_def LockMany_order_def)
  next
    case (reach_step L j L')
    from reach_step.hyps(2) reach_step.IH show ?case by (cases) auto
  qed
  then show "th_held (lk_thread L k) = []" by simp
qed

text \<open>Two renames that request the same two paths in opposite orders.\<close>

definition two_renames :: "nat \<Rightarrow> string list" where
  "two_renames i = (if i = 0 then [''a'', ''b''] else if i = 1 then [''b'', ''a''] else [])"

theorem path_locks_never_deadlock_witness:
  "\<exists>j<2. \<exists>L'. lock_step j (NewPathLocker two_renames) L'"
proof -
  have "\<forall>i\<ge>2. two_renames i = []" by (simp add: two_renames_def)
  moreover have "\<not> finished (lk_thread (NewPathLocker two_renames) 0)"
    by (simp add: finished_def NewPathLocker_def)
  ultimately show ?thesis
    using path_locks_never_deadlock [OF reach_init, of 2 two_renames 0] by simp
qed

definition two_writers :: "nat \<Rightarrow> string list" where
  "two_writers i = (if i = 0 then [''a''] else if i = 1 then [''b''] else [])"

theorem path_locks_exclude_witness:
  "\<exists>L. lock_reach two_writers L \<and> in_section (lk_thread L 0) \<and> in_section (lk_thread L 1)
     \<and> set (two_writers 0) \<inter> set (two_writers 1) = {}"
proof -
  let ?L0 = "NewPathLocker two_writers"
  have o: "LockMany_order (two_writers 0) = [''a'']" "LockMany_order (two_writers 1) = [''b'']"
    by (simp_all add: two_writers_def LockMany_order_def)
  have "\<exists>L1. lock_step 0 ?L0 L1 \<and> th_todo (lk_thread L1 0) = [] \<and> \<not> th_unlocking (lk_thread L1 0)
      \<and> lk_owner L1 ''b'' = None \<and> th_todo (lk_thread L1 1) = [''b''] \<and> \<not> th_unlocking (lk_thread L1 1)"
    using lock_step.take_mutex [of ?L0 0 "''a''" "[]"] o
    by (intro exI conjI) (auto simp: NewPathLocker_def)
  then obtain L1 where 1: "lock_step 0 ?L0 L1" "th_todo (lk_thread L1 0) = []" "\<not> th_unlocking (lk_thread L1 0)"
    "lk_owner L1 ''b'' = None" "th_todo (lk_thread L1 1) = [''b'']" "\<not> th_unlocking (lk_thread L1 1)" by blast
  from lock_step.take_mutex [OF 1(5,4)] obtain L2 where
    2: "lock_step 1 L1 L2" "in_section (lk_thread L2 0)" "in_section (lk_thread L2 1)"
    using 1 by (force simp: in_section_def)
  have r: "lock_reach two_writers L2" using reach_step [OF reach_step [OF reach_init 1(1)] 2(1)] .
  from path_locks_exclude [OF r 2(2,3)] r 2 show ?thesis by auto
qed

end
