(* ===== verification/DeviceRegistry.thy ===== *)
theory DeviceRegistry
  imports Sql Mutations "HOL-Library.Word"
begin

text \<open>
  \<open>internal/db/device_registry.go\<close> and \<open>device_registry_admin.go\<close>: the devices of the control
  plane, their policies, the actions queued for them and the diagnostics they upload.

  The four tables are lists of rows in a state of their own, with the same fault script, clock
  and random source as the file services have. JSON text of a string list is the list itself
  (encoding and decoding are inverse); unsigned counters are words of their width, which the
  signed 64-bit column holds without loss.
\<close>

section \<open>Rows\<close>

record DeviceRecord =
  d_DeviceID :: string
  d_DeviceName :: string
  d_DeviceRole :: string
  d_AssignedDeviceLabel :: string
  d_ClientVersion :: string
  d_Platform :: string
  d_OverlayProvider :: string
  d_OverlayAddress :: string
  d_Capabilities :: "string list"
  d_ServerID :: string
  d_DeviceGroup :: string
  d_LastSessionID :: string
  d_HeartbeatIntervalSeconds :: "32 word"
  d_PolicyRevision :: "64 word"
  d_RequiresPolicyPull :: bool
  d_OverlayConnected :: bool
  d_GRPCConnected :: bool
  d_LastSyncTimeUnix :: int
  d_LastError :: string
  d_MountState :: string
  d_Mounted :: bool
  d_MountPath :: string
  d_LastMountTimeUnix :: int
  d_MountLastError :: string
  d_SyncStateSummary :: string
  d_CurrentTaskCount :: "32 word"
  d_SyncLastSuccessTime :: int
  d_SyncLastError :: string
  d_ConflictCount :: "64 word"
  d_QueueDepth :: "32 word"
  d_SyncSummary :: string
  d_CreatedAtUnix :: int
  d_UpdatedAtUnix :: int
  d_LastRegisteredAtUnix :: int
  d_LastHeartbeatAtUnix :: int
  d_LastSyncReportAtUnix :: int
  d_LastMountReportAtUnix :: int
  d_LastSeenAtUnix :: int

record DevicePolicyRecord =
  p_DeviceID :: string
  p_MountPath :: string
  p_SyncRoots :: "string list"
  p_ConflictPolicy :: string
  p_ReadOnly :: bool
  p_AutoConnect :: bool
  p_BandwidthLimit :: int
  p_LogLevel :: string
  p_LargeFileThreshold :: int
  p_PolicyRevision :: "64 word"
  p_UpdatedAtUnix :: int

record DeviceActionRecord =
  a_ActionID :: string
  a_DeviceID :: string
  a_ActionType :: string
  a_PayloadJSON :: string
  a_Status :: string
  a_RequestedAtUnix :: int
  a_DeliveredAtUnix :: int
  a_CompletedAtUnix :: int

record DeviceDiagnosticRecord =
  g_DiagnosticsID :: string
  g_DeviceID :: string
  g_Category :: string
  g_ContentType :: string
  g_Summary :: string
  g_Payload :: bytes
  g_SizeBytes :: int
  g_UploadedAtUnix :: int

record ctldb =
  c_devices :: "DeviceRecord list"
  c_policies :: "DevicePolicyRecord list"
  c_actions :: "DeviceActionRecord list"
  c_diagnostics :: "DeviceDiagnosticRecord list"

text \<open>\<open>ct_NilIsNull\<close>: whether the SQLite driver binds a nil slice as \<open>NULL\<close>.\<close>

record ctl =
  ct_db :: ctldb
  ct_faults :: "goerr option list"
  ct_clock :: gotime
  ct_ticks :: "nat list"
  ct_rand :: "bytes option list"
  ct_NilIsNull :: bool

type_synonym 'a cio = "ctl \<Rightarrow> 'a result \<times> ctl"
type_synonym 'a crpc = "ctl \<Rightarrow> (status + 'a) \<times> ctl"

section \<open>Statements\<close>

definition ctl_fault :: "'a cio \<Rightarrow> 'a cio" where
  "ctl_fault k w =
    (case ct_faults w of
       [] \<Rightarrow> k w
     | f # fs \<Rightarrow>
       (case f of
          None \<Rightarrow> k (w\<lparr>ct_faults := fs\<rparr>)
        | Some e \<Rightarrow> (Inl e, w\<lparr>ct_faults := fs\<rparr>)))"

definition ctl_query :: "(ctldb \<Rightarrow> 'a result) \<Rightarrow> 'a cio" where
  "ctl_query q = ctl_fault (\<lambda>w. (q (ct_db w), w))"

text \<open>A statement returns the number of rows affected.\<close>

definition ctl_exec :: "(ctldb \<Rightarrow> (nat \<times> ctldb) result) \<Rightarrow> nat cio" where
  "ctl_exec s = ctl_fault (\<lambda>w.
    (case s (ct_db w) of Inl e \<Rightarrow> (Inl e, w) | Inr (n, d) \<Rightarrow> (Inr n, w\<lparr>ct_db := d\<rparr>)))"

definition ctl_Now :: "ctl \<Rightarrow> gotime \<times> ctl" where
  "ctl_Now w =
    (case ct_ticks w of
       [] \<Rightarrow> (ct_clock w, w)
     | d # ds \<Rightarrow> (ct_clock w + int d, w\<lparr>ct_clock := ct_clock w + int d, ct_ticks := ds\<rparr>))"

text \<open>A transaction with a deferred rollback: on an error the tables of \<open>Begin\<close> come back.\<close>

definition ctl_tx :: "'a cio \<Rightarrow> 'a cio" where
  "ctl_tx fn w =
    (case ctl_query (\<lambda>_. Inr ()) w of
       (Inl e, w1) \<Rightarrow> (Inl e, w1)
     | (Inr _, w1) \<Rightarrow>
       (case fn w1 of
          (Inl e, w2) \<Rightarrow> (Inl e, w2\<lparr>ct_db := ct_db w1\<rparr>)
        | (Inr x, w2) \<Rightarrow>
          (case ctl_query (\<lambda>_. Inr ()) w2 of
             (Inl e, w3) \<Rightarrow> (Inl e, w3\<lparr>ct_db := ct_db w1\<rparr>)
           | (Inr _, w3) \<Rightarrow> (Inr x, w3))))"

text \<open>\<open>UPDATE device_registry SET \<dots> WHERE device_id = ?\<close>\<close>

definition map_device :: "string \<Rightarrow> (DeviceRecord \<Rightarrow> DeviceRecord) \<Rightarrow> ctldb \<Rightarrow> ctldb" where
  "map_device deviceID f db =
    db\<lparr>c_devices := map (\<lambda>d. if d_DeviceID d = deviceID then f d else d) (c_devices db)\<rparr>"

definition update_device :: "string \<Rightarrow> (DeviceRecord \<Rightarrow> DeviceRecord) \<Rightarrow> nat cio" where
  "update_device deviceID f = ctl_exec (\<lambda>db.
    Inr (length (filter (\<lambda>d. d_DeviceID d = deviceID) (c_devices db)), map_device deviceID f db))"

definition ensureRowsAffected :: "nat \<Rightarrow> unit result" where
  "ensureRowsAffected n = (if n = 0 then Inl (Sentinel ErrNotExist) else Inr ())"

section \<open>Helpers\<close>

fun dedupe_trimmed :: "string list \<Rightarrow> string set \<Rightarrow> string list" where
  "dedupe_trimmed [] seen = []"
| "dedupe_trimmed (v # vs) seen =
    (let trimmed = strings_TrimSpace v; key = strings_ToLower trimmed in
     if trimmed = [] then dedupe_trimmed vs seen
     else if key \<in> seen then dedupe_trimmed vs seen
     else trimmed # dedupe_trimmed vs (insert key seen))"

definition marshalStringList :: "string list \<Rightarrow> string list" where
  "marshalStringList values = dedupe_trimmed values {}"

definition fallbackDeviceLabel :: "string \<Rightarrow> string \<Rightarrow> string" where
  "fallbackDeviceLabel deviceName deviceID =
    (let trimmed = strings_TrimSpace deviceName in
     if trimmed \<noteq> [] then trimmed else strings_TrimSpace deviceID)"

definition newRandomID :: "string cio" where
  "newRandomID w =
    (case ct_rand w of
       [] \<Rightarrow> (Inl (ErrorText ''rand''), w)
     | r # rs \<Rightarrow>
       (case r of
          None \<Rightarrow> (Inl (ErrorText ''rand''), w\<lparr>ct_rand := rs\<rparr>)
        | Some buf \<Rightarrow> (Inr (hex_EncodeToString buf), w\<lparr>ct_rand := rs\<rparr>)))"

section \<open>Devices\<close>

record DeviceRegistration =
  r_DeviceID :: string
  r_DeviceName :: string
  r_DeviceRole :: string
  r_AssignedDeviceLabel :: string
  r_ClientVersion :: string
  r_Platform :: string
  r_OverlayProvider :: string
  r_OverlayAddress :: string
  r_Capabilities :: "string list"
  r_ServerID :: string
  r_DeviceGroup :: string
  r_HeartbeatIntervalSeconds :: "32 word"
  r_PolicyRevision :: "64 word"
  r_RequiresPolicyPull :: bool
  r_OverlayConnected :: bool

record DeviceHeartbeat =
  h_DeviceID :: string
  h_SessionID :: string
  h_TimestampUnix :: int
  h_OverlayConnected :: bool
  h_GRPCConnected :: bool
  h_LastSyncTimeUnix :: int
  h_LastError :: string
  h_MountState :: string
  h_SyncStateSummary :: string

record DeviceSyncStateReport =
  s_DeviceID :: string
  s_CurrentTaskCount :: "32 word"
  s_LastSuccessTime :: int
  s_LastError :: string
  s_ConflictCount :: "64 word"
  s_QueueDepth :: "32 word"
  s_Summary :: string

record DeviceMountStateReport =
  m_DeviceID :: string
  m_Mounted :: bool
  m_MountPath :: string
  m_LastMountTime :: int
  m_LastError :: string

definition Reg_Get :: "string \<Rightarrow> DeviceRecord cio" where
  "Reg_Get deviceID w =
    (case ctl_query (\<lambda>db. case row_find d_DeviceID (strings_TrimSpace deviceID) (c_devices db) of
                            None \<Rightarrow> Inl (Sentinel ErrNoRows) | Some d \<Rightarrow> Inr d) w of
       (Inl e, w1) \<Rightarrow> (Inl (if errors_Is e ErrNoRows then Sentinel ErrNotExist else e), w1)
     | (Inr d, w1) \<Rightarrow> (Inr d, w1))"

text \<open>The row \<open>INSERT\<close> makes: columns it does not name take their defaults.\<close>

definition registered_row :: "DeviceRegistration \<Rightarrow> int \<Rightarrow> DeviceRecord" where
  "registered_row input nowUnix =
    (let deviceID = strings_TrimSpace (r_DeviceID input);
         label0 = strings_TrimSpace (r_AssignedDeviceLabel input);
         label = (if label0 = [] then fallbackDeviceLabel (r_DeviceName input) deviceID else label0);
         overlayConnected = (r_OverlayConnected input \<or> strings_TrimSpace (r_OverlayProvider input) = []) in
     \<lparr>d_DeviceID = deviceID, d_DeviceName = strings_TrimSpace (r_DeviceName input),
      d_DeviceRole = strings_TrimSpace (r_DeviceRole input), d_AssignedDeviceLabel = label,
      d_ClientVersion = strings_TrimSpace (r_ClientVersion input),
      d_Platform = strings_TrimSpace (r_Platform input),
      d_OverlayProvider = strings_TrimSpace (r_OverlayProvider input),
      d_OverlayAddress = strings_TrimSpace (r_OverlayAddress input),
      d_Capabilities = marshalStringList (r_Capabilities input),
      d_ServerID = strings_TrimSpace (r_ServerID input),
      d_DeviceGroup = strings_TrimSpace (r_DeviceGroup input), d_LastSessionID = [],
      d_HeartbeatIntervalSeconds = r_HeartbeatIntervalSeconds input,
      d_PolicyRevision = r_PolicyRevision input, d_RequiresPolicyPull = r_RequiresPolicyPull input,
      d_OverlayConnected = overlayConnected, d_GRPCConnected = True, d_LastSyncTimeUnix = 0,
      d_LastError = [], d_MountState = [], d_Mounted = False, d_MountPath = [],
      d_LastMountTimeUnix = 0, d_MountLastError = [], d_SyncStateSummary = [],
      d_CurrentTaskCount = 0, d_SyncLastSuccessTime = 0, d_SyncLastError = [], d_ConflictCount = 0,
      d_QueueDepth = 0, d_SyncSummary = [], d_CreatedAtUnix = nowUnix, d_UpdatedAtUnix = nowUnix,
      d_LastRegisteredAtUnix = nowUnix, d_LastHeartbeatAtUnix = 0, d_LastSyncReportAtUnix = 0,
      d_LastMountReportAtUnix = 0, d_LastSeenAtUnix = nowUnix\<rparr>)"

text \<open>\<open>ON CONFLICT DO UPDATE\<close>: the columns it sets, the others keep their values.\<close>

definition reregister :: "DeviceRecord \<Rightarrow> DeviceRecord \<Rightarrow> DeviceRecord" where
  "reregister new old = old\<lparr>
     d_DeviceName := d_DeviceName new, d_DeviceRole := d_DeviceRole new,
     d_AssignedDeviceLabel := d_AssignedDeviceLabel new, d_ClientVersion := d_ClientVersion new,
     d_Platform := d_Platform new, d_OverlayProvider := d_OverlayProvider new,
     d_OverlayAddress := d_OverlayAddress new, d_Capabilities := d_Capabilities new,
     d_ServerID := d_ServerID new, d_DeviceGroup := d_DeviceGroup new,
     d_HeartbeatIntervalSeconds := d_HeartbeatIntervalSeconds new,
     d_OverlayConnected := d_OverlayConnected new, d_GRPCConnected := d_GRPCConnected new,
     d_UpdatedAtUnix := d_UpdatedAtUnix new, d_LastRegisteredAtUnix := d_LastRegisteredAtUnix new,
     d_LastSeenAtUnix := d_LastSeenAtUnix new\<rparr>"

definition register_db :: "DeviceRecord \<Rightarrow> ctldb \<Rightarrow> ctldb" where
  "register_db row db =
    (if d_DeviceID row \<in> d_DeviceID ` set (c_devices db)
     then map_device (d_DeviceID row) (reregister row) db
     else db\<lparr>c_devices := c_devices db @ [row]\<rparr>)"

definition Reg_Register :: "DeviceRegistration \<Rightarrow> DeviceRecord cio" where
  "Reg_Register input w =
    (case ctl_Now w of
       (now, w1) \<Rightarrow>
       let deviceID = strings_TrimSpace (r_DeviceID input) in
       if deviceID = [] then (Inl (Sentinel ErrInvalid), w1)
       else
         let row = registered_row input (time_Unix now) in
         (case ctl_exec (\<lambda>db. Inr (1, register_db row db)) w1 of
            (Inl e, w2) \<Rightarrow> (Inl e, w2)
          | (Inr _, w2) \<Rightarrow> Reg_Get deviceID w2))"

text \<open>An update by device id: it fails with \<open>os.ErrNotExist\<close> when no row has it.\<close>

definition update_and_get :: "string \<Rightarrow> (DeviceRecord \<Rightarrow> DeviceRecord) \<Rightarrow> DeviceRecord cio" where
  "update_and_get deviceID f w =
    (case update_device deviceID f w of
       (Inl e, w1) \<Rightarrow> (Inl e, w1)
     | (Inr n, w1) \<Rightarrow>
       (case ensureRowsAffected n of
          Inl e \<Rightarrow> (Inl e, w1)
        | Inr _ \<Rightarrow> Reg_Get deviceID w1))"

definition heartbeat_row :: "DeviceHeartbeat \<Rightarrow> int \<Rightarrow> DeviceRecord \<Rightarrow> DeviceRecord" where
  "heartbeat_row input timestampUnix d = d\<lparr>
      d_LastSessionID := strings_TrimSpace (h_SessionID input),
      d_OverlayConnected := h_OverlayConnected input, d_GRPCConnected := h_GRPCConnected input,
      d_LastSyncTimeUnix :=
        (if h_LastSyncTimeUnix input \<noteq> 0 then h_LastSyncTimeUnix input else d_LastSyncTimeUnix d),
      d_LastError := strings_TrimSpace (h_LastError input),
      d_MountState := strings_TrimSpace (h_MountState input),
      d_SyncStateSummary := strings_TrimSpace (h_SyncStateSummary input),
      d_UpdatedAtUnix := timestampUnix, d_LastHeartbeatAtUnix := timestampUnix,
      d_LastSeenAtUnix := timestampUnix\<rparr>"

definition Reg_UpdateHeartbeat :: "DeviceHeartbeat \<Rightarrow> DeviceRecord cio" where
  "Reg_UpdateHeartbeat input w =
    (let deviceID = strings_TrimSpace (h_DeviceID input) in
     if deviceID = [] then (Inl (Sentinel ErrInvalid), w)
     else
       (case (if h_TimestampUnix input = 0
              then (case ctl_Now w of (now, w1) \<Rightarrow> (time_Unix now, w1))
              else (h_TimestampUnix input, w)) of
          (timestampUnix, w1) \<Rightarrow>
          update_and_get deviceID (heartbeat_row input timestampUnix) w1))"

definition sync_state_row :: "DeviceSyncStateReport \<Rightarrow> int \<Rightarrow> DeviceRecord \<Rightarrow> DeviceRecord" where
  "sync_state_row input nowUnix d =
    (let lastError = strings_TrimSpace (s_LastError input); summary = strings_TrimSpace (s_Summary input) in
     d\<lparr>
       d_CurrentTaskCount := s_CurrentTaskCount input,
       d_SyncLastSuccessTime :=
         (if s_LastSuccessTime input \<noteq> 0 then s_LastSuccessTime input else d_SyncLastSuccessTime d),
       d_SyncLastError := lastError, d_ConflictCount := s_ConflictCount input,
       d_QueueDepth := s_QueueDepth input, d_SyncSummary := summary, d_SyncStateSummary := summary,
       d_LastSyncTimeUnix :=
         (if s_LastSuccessTime input \<noteq> 0 then s_LastSuccessTime input else d_LastSyncTimeUnix d),
       d_LastError := (if lastError \<noteq> [] then lastError else d_LastError d),
       d_GRPCConnected := True, d_UpdatedAtUnix := nowUnix,
       d_LastSyncReportAtUnix := nowUnix, d_LastSeenAtUnix := nowUnix\<rparr>)"

definition Reg_UpdateSyncState :: "DeviceSyncStateReport \<Rightarrow> DeviceRecord cio" where
  "Reg_UpdateSyncState input w =
    (let deviceID = strings_TrimSpace (s_DeviceID input) in
     if deviceID = [] then (Inl (Sentinel ErrInvalid), w)
     else
       (case ctl_Now w of
          (now, w1) \<Rightarrow>
          update_and_get deviceID (sync_state_row input (time_Unix now)) w1))"

definition mount_state_row :: "DeviceMountStateReport \<Rightarrow> int \<Rightarrow> DeviceRecord \<Rightarrow> DeviceRecord" where
  "mount_state_row input nowUnix d =
    (let lastError = strings_TrimSpace (m_LastError input) in
     d\<lparr>
       d_Mounted := m_Mounted input, d_MountPath := strings_TrimSpace (m_MountPath input),
       d_LastMountTimeUnix :=
         (if m_LastMountTime input \<noteq> 0 then m_LastMountTime input else d_LastMountTimeUnix d),
       d_MountLastError := lastError,
       d_MountState := (if m_Mounted input then ''mounted''
                        else if lastError \<noteq> [] then ''error'' else ''unmounted''),
       d_LastError := (if lastError \<noteq> [] then lastError else d_LastError d),
       d_UpdatedAtUnix := nowUnix, d_LastMountReportAtUnix := nowUnix,
       d_LastSeenAtUnix := nowUnix\<rparr>)"

definition Reg_UpdateMountState :: "DeviceMountStateReport \<Rightarrow> DeviceRecord cio" where
  "Reg_UpdateMountState input w =
    (let deviceID = strings_TrimSpace (m_DeviceID input) in
     if deviceID = [] then (Inl (Sentinel ErrInvalid), w)
     else
       (case ctl_Now w of
          (now, w1) \<Rightarrow>
          update_and_get deviceID (mount_state_row input (time_Unix now)) w1))"

definition policy_pulled :: "int \<Rightarrow> DeviceRecord \<Rightarrow> DeviceRecord" where
  "policy_pulled nowUnix d = d\<lparr>d_RequiresPolicyPull := False, d_UpdatedAtUnix := nowUnix\<rparr>"

definition Reg_MarkPolicyPulled :: "string \<Rightarrow> unit cio" where
  "Reg_MarkPolicyPulled deviceID w =
    (case ctl_Now w of
       (now, w1) \<Rightarrow>
       (case update_device (strings_TrimSpace deviceID)
               (policy_pulled (time_Unix now)) w1 of
          (Inl e, w2) \<Rightarrow> (Inl e, w2)
        | (Inr n, w2) \<Rightarrow> (ensureRowsAffected n, w2)))"

definition Reg_List :: "DeviceRecord list cio" where
  "Reg_List = ctl_query (\<lambda>db. Inr (sort_key
     (\<lambda>d. (Desc (d_LastSeenAtUnix d), Desc (d_UpdatedAtUnix d), d_DeviceID d)) (c_devices db)))"

section \<open>Policies\<close>

definition Reg_GetPolicy :: "string \<Rightarrow> DevicePolicyRecord cio" where
  "Reg_GetPolicy deviceID w =
    (case ctl_query (\<lambda>db. case row_find p_DeviceID (strings_TrimSpace deviceID) (c_policies db) of
                            None \<Rightarrow> Inl (Sentinel ErrNoRows) | Some p \<Rightarrow> Inr p) w of
       (Inl e, w1) \<Rightarrow> (Inl (if e = Sentinel ErrNoRows then Sentinel ErrNotExist else e), w1)
     | (Inr p, w1) \<Rightarrow> (Inr p, w1))"

definition policy_changed :: "64 word \<Rightarrow> int \<Rightarrow> DeviceRecord \<Rightarrow> DeviceRecord" where
  "policy_changed revision nowUnix d =
    d\<lparr>d_PolicyRevision := revision, d_RequiresPolicyPull := True, d_UpdatedAtUnix := nowUnix\<rparr>"

definition stored_policy :: "DevicePolicyRecord \<Rightarrow> int \<Rightarrow> DevicePolicyRecord" where
  "stored_policy input nowUnix = input\<lparr>
     p_DeviceID := strings_TrimSpace (p_DeviceID input), p_MountPath := strings_TrimSpace (p_MountPath input),
     p_SyncRoots := marshalStringList (p_SyncRoots input),
     p_ConflictPolicy := strings_TrimSpace (p_ConflictPolicy input),
     p_LogLevel := strings_TrimSpace (p_LogLevel input), p_UpdatedAtUnix := nowUnix\<rparr>"

definition Reg_UpsertPolicy :: "DevicePolicyRecord \<Rightarrow> DevicePolicyRecord cio" where
  "Reg_UpsertPolicy input w =
    (let deviceID = strings_TrimSpace (p_DeviceID input) in
     if deviceID = [] then (Inl (Sentinel ErrInvalid), w)
     else
       (case ctl_Now w of
          (now, w1) \<Rightarrow>
          (case ctl_tx (\<lambda>w.
              (case ctl_exec (\<lambda>db. Inr (1, db\<lparr>c_policies :=
                       row_upsert p_DeviceID (stored_policy input (time_Unix now)) (c_policies db)\<rparr>)) w of
                 (Inl e, w1) \<Rightarrow> (Inl e, w1)
               | (Inr _, w1) \<Rightarrow>
                 (case update_device deviceID (policy_changed (p_PolicyRevision input) (time_Unix now)) w1 of
                    (Inl e, w2) \<Rightarrow> (Inl e, w2)
                  | (Inr n, w2) \<Rightarrow> (ensureRowsAffected n, w2)))) w1 of
             (Inl e, w2) \<Rightarrow> (Inl e, w2)
           | (Inr _, w2) \<Rightarrow> Reg_GetPolicy deviceID w2)))"

definition Reg_ResetPolicy :: "string \<Rightarrow> 64 word \<Rightarrow> unit cio" where
  "Reg_ResetPolicy deviceID0 policyRevision w =
    (let deviceID = strings_TrimSpace deviceID0 in
     if deviceID = [] then (Inl (Sentinel ErrInvalid), w)
     else
       (case ctl_Now w of
          (now, w1) \<Rightarrow>
          ctl_tx (\<lambda>w.
              (case ctl_exec (\<lambda>db. Inr (0, db\<lparr>c_policies := row_delete p_DeviceID deviceID (c_policies db)\<rparr>)) w of
                 (Inl e, w1) \<Rightarrow> (Inl e, w1)
               | (Inr _, w1) \<Rightarrow>
                 (case update_device deviceID (policy_changed policyRevision (time_Unix now)) w1 of
                    (Inl e, w2) \<Rightarrow> (Inl e, w2)
                  | (Inr n, w2) \<Rightarrow> (ensureRowsAffected n, w2)))) w1))"

section \<open>Actions\<close>

record DeviceActionRequest =
  q_DeviceID :: string
  q_ActionType :: string
  q_PayloadJSON :: string
  q_ReplaceSimilarPending :: bool

definition touched :: "int \<Rightarrow> DeviceRecord \<Rightarrow> DeviceRecord" where
  "touched nowUnix d = d\<lparr>d_UpdatedAtUnix := nowUnix\<rparr>"

definition touch_device :: "string \<Rightarrow> int \<Rightarrow> unit cio" where
  "touch_device deviceID nowUnix w =
    (case update_device deviceID (touched nowUnix) w of
       (Inl e, w1) \<Rightarrow> (Inl e, w1)
     | (Inr _, w1) \<Rightarrow> (Inr (), w1))"

definition cancel_similar :: "string \<Rightarrow> string \<Rightarrow> int \<Rightarrow> DeviceActionRecord list \<Rightarrow> DeviceActionRecord list" where
  "cancel_similar deviceID actionType nowUnix rs = map (\<lambda>a.
     if a_DeviceID a = deviceID \<and> a_ActionType a = actionType \<and> a_Status a = ''pending''
     then a\<lparr>a_Status := ''cancelled'', a_CompletedAtUnix := nowUnix\<rparr> else a) rs"

definition new_action :: "DeviceActionRequest \<Rightarrow> string \<Rightarrow> int \<Rightarrow> DeviceActionRecord" where
  "new_action input actionID nowUnix =
    \<lparr>a_ActionID = actionID, a_DeviceID = strings_TrimSpace (q_DeviceID input),
     a_ActionType = strings_TrimSpace (q_ActionType input),
     a_PayloadJSON = strings_TrimSpace (q_PayloadJSON input), a_Status = ''pending'',
     a_RequestedAtUnix = nowUnix, a_DeliveredAtUnix = 0, a_CompletedAtUnix = 0\<rparr>"

text \<open>The three statements of the transaction.\<close>

definition enqueue_tx :: "bool \<Rightarrow> DeviceActionRecord \<Rightarrow> int \<Rightarrow> DeviceActionRecord cio" where
  "enqueue_tx replaceSimilarPending row nowUnix w =
    (case (if replaceSimilarPending
           then ctl_exec (\<lambda>db. Inr (0, db\<lparr>c_actions :=
                  cancel_similar (a_DeviceID row) (a_ActionType row) nowUnix (c_actions db)\<rparr>)) w
           else (Inr 0, w)) of
       (Inl e, w1) \<Rightarrow> (Inl e, w1)
     | (Inr _, w1) \<Rightarrow>
       (case ctl_exec (\<lambda>db. map_sum id (\<lambda>rs. (1, db\<lparr>c_actions := rs\<rparr>))
                (row_insert ''device_actions.action_id'' a_ActionID row (c_actions db))) w1 of
          (Inl e, w2) \<Rightarrow> (Inl e, w2)
        | (Inr _, w2) \<Rightarrow>
          (case touch_device (a_DeviceID row) nowUnix w2 of
             (Inl e, w3) \<Rightarrow> (Inl e, w3)
           | (Inr _, w3) \<Rightarrow> (Inr row, w3))))"

definition Reg_EnqueueAction :: "DeviceActionRequest \<Rightarrow> DeviceActionRecord cio" where
  "Reg_EnqueueAction input w =
    (if strings_TrimSpace (q_DeviceID input) = [] \<or> strings_TrimSpace (q_ActionType input) = []
     then (Inl (Sentinel ErrInvalid), w)
     else
       (case newRandomID w of
          (Inl e, w1) \<Rightarrow> (Inl e, w1)
        | (Inr actionID, w1) \<Rightarrow>
          (case ctl_Now w1 of
             (now, w2) \<Rightarrow>
             ctl_tx (enqueue_tx (q_ReplaceSimilarPending input)
               (new_action input actionID (time_Unix now)) (time_Unix now)) w2)))"

definition listActionsByStatus :: "string \<Rightarrow> string list \<Rightarrow> int \<Rightarrow> DeviceActionRecord list cio" where
  "listActionsByStatus deviceID0 statuses limit0 w =
    (let limit = (if limit0 \<le> 0 then 16 else limit0); deviceID = strings_TrimSpace deviceID0 in
     if deviceID = [] then (Inl (Sentinel ErrInvalid), w)
     else ctl_query (\<lambda>db. Inr (take (nat limit)
            (sort_key (\<lambda>a. (Desc (a_RequestedAtUnix a), Desc (a_ActionID a)))
              (filter (\<lambda>a. a_DeviceID a = deviceID \<and> a_Status a \<in> set statuses) (c_actions db))))) w)"

definition Reg_ListPendingActions :: "string \<Rightarrow> int \<Rightarrow> DeviceActionRecord list cio" where
  "Reg_ListPendingActions deviceID limit = listActionsByStatus deviceID [''pending''] limit"

definition Reg_ListActiveActions :: "string \<Rightarrow> int \<Rightarrow> DeviceActionRecord list cio" where
  "Reg_ListActiveActions deviceID limit = listActionsByStatus deviceID [''pending'', ''delivered''] limit"

definition mark_delivered :: "string list \<Rightarrow> int \<Rightarrow> DeviceActionRecord list \<Rightarrow> DeviceActionRecord list" where
  "mark_delivered ids nowUnix rs = map (\<lambda>a.
     if a_ActionID a \<in> set ids \<and> a_Status a = ''pending''
     then a\<lparr>a_Status := ''delivered'',
            a_DeliveredAtUnix := (if a_DeliveredAtUnix a = 0 then nowUnix else a_DeliveredAtUnix a)\<rparr>
     else a) rs"

definition Reg_MarkActionsDelivered :: "string list \<Rightarrow> unit cio" where
  "Reg_MarkActionsDelivered actionIDs w =
    (if actionIDs = [] then (Inr (), w)
     else
       (case ctl_Now w of
          (now, w1) \<Rightarrow>
          (case ctl_exec (\<lambda>db. Inr (0, db\<lparr>c_actions :=
                   mark_delivered (map strings_TrimSpace actionIDs) (time_Unix now) (c_actions db)\<rparr>)) w1 of
             (Inl e, w2) \<Rightarrow> (Inl e, w2)
           | (Inr _, w2) \<Rightarrow> (Inr (), w2))))"

section \<open>Diagnostics\<close>

abbreviation defaultKeepLatest :: int where "defaultKeepLatest \<equiv> 20"

definition recent_diagnostics :: "string \<Rightarrow> int \<Rightarrow> DeviceDiagnosticRecord list \<Rightarrow> DeviceDiagnosticRecord list" where
  "recent_diagnostics deviceID limit rs = take (nat limit)
     (sort_key (\<lambda>g. (Desc (g_UploadedAtUnix g), Desc (g_DiagnosticsID g)))
       (filter (\<lambda>g. g_DeviceID g = deviceID) rs))"

definition trim_diagnostics :: "string \<Rightarrow> int \<Rightarrow> DeviceDiagnosticRecord list \<Rightarrow> DeviceDiagnosticRecord list" where
  "trim_diagnostics deviceID keep rs = filter (\<lambda>g. \<not> (g_DeviceID g = deviceID
     \<and> g_DiagnosticsID g \<notin> g_DiagnosticsID ` set (recent_diagnostics deviceID keep rs))) rs"

definition new_diagnostic :: "DeviceDiagnosticRecord \<Rightarrow> string \<Rightarrow> int \<Rightarrow> DeviceDiagnosticRecord" where
  "new_diagnostic input diagnosticsID nowUnix =
    \<lparr>g_DiagnosticsID = diagnosticsID, g_DeviceID = strings_TrimSpace (g_DeviceID input),
     g_Category = strings_TrimSpace (g_Category input),
     g_ContentType = strings_TrimSpace (g_ContentType input),
     g_Summary = strings_TrimSpace (g_Summary input), g_Payload = g_Payload input,
     g_SizeBytes =
       (if g_SizeBytes input = 0 then int (length (g_Payload input)) else g_SizeBytes input),
     g_UploadedAtUnix = nowUnix\<rparr>"

definition diagnostic_id :: "DeviceDiagnosticRecord \<Rightarrow> string cio" where
  "diagnostic_id input w =
    (let diagnosticsID = strings_TrimSpace (g_DiagnosticsID input) in
     if diagnosticsID = [] then newRandomID w else (Inr diagnosticsID, w))"

definition keep_of :: "int \<Rightarrow> int" where
  "keep_of keepLatest = (if keepLatest \<le> 0 then defaultKeepLatest else keepLatest)"

definition diagnostic_tx :: "DeviceDiagnosticRecord \<Rightarrow> int \<Rightarrow> int \<Rightarrow> DeviceDiagnosticRecord cio" where
  "diagnostic_tx row keepLatest nowUnix w =
    (case (if g_Payload row = [] \<and> ct_NilIsNull w
           then ctl_exec (\<lambda>_. Inl (ErrorText ''NOT NULL constraint failed: device_diagnostics.payload'')) w
           else ctl_exec (\<lambda>db. map_sum id (\<lambda>rs. (1, db\<lparr>c_diagnostics := rs\<rparr>))
                  (row_insert ''device_diagnostics.diagnostics_id'' g_DiagnosticsID row (c_diagnostics db))) w) of
       (Inl e, w1) \<Rightarrow> (Inl e, w1)
     | (Inr _, w1) \<Rightarrow>
       (case ctl_exec (\<lambda>db. Inr (0, db\<lparr>c_diagnostics :=
                trim_diagnostics (g_DeviceID row) keepLatest (c_diagnostics db)\<rparr>)) w1 of
          (Inl e, w2) \<Rightarrow> (Inl e, w2)
        | (Inr _, w2) \<Rightarrow>
          (case touch_device (g_DeviceID row) nowUnix w2 of
             (Inl e, w3) \<Rightarrow> (Inl e, w3)
           | (Inr _, w3) \<Rightarrow> (Inr row, w3))))"

definition Reg_InsertDiagnostic :: "DeviceDiagnosticRecord \<Rightarrow> int \<Rightarrow> DeviceDiagnosticRecord cio" where
  "Reg_InsertDiagnostic input keepLatest w =
    (if strings_TrimSpace (g_DeviceID input) = [] then (Inl (Sentinel ErrInvalid), w)
     else
       (case diagnostic_id input w of
          (Inl e, w1) \<Rightarrow> (Inl e, w1)
        | (Inr diagnosticsID, w1) \<Rightarrow>
          (case ctl_Now w1 of
             (now, w2) \<Rightarrow>
             ctl_tx (diagnostic_tx (new_diagnostic input diagnosticsID (time_Unix now))
               (keep_of keepLatest) (time_Unix now)) w2)))"

definition Reg_ListDiagnostics :: "string \<Rightarrow> int \<Rightarrow> DeviceDiagnosticRecord list cio" where
  "Reg_ListDiagnostics deviceID limit = ctl_query (\<lambda>db. Inr (recent_diagnostics (strings_TrimSpace deviceID)
     (keep_of limit) (c_diagnostics db)))"

end
