(* ===== verification/ControlPlane.thy ===== *)
theory ControlPlane
  imports DeviceRegistry
begin

text \<open>
  \<open>internal/server/control_plane_service.go\<close> and \<open>control_plane_support.go\<close>: what devices call
  (register, heartbeat, pull the configuration, report, upload diagnostics).

  A handler takes the normalised configuration of the service and the control-plane state. A
  request whose message has the fields of a registry input is that record. Log lines are left out.
\<close>

section \<open>Sequencing\<close>

text \<open>\<open>x, err := m(); if err != nil { return nil, err }; k(x)\<close>\<close>

definition ctl_bind :: "('s \<Rightarrow> ('e + 'a) \<times> 's) \<Rightarrow> ('a \<Rightarrow> 's \<Rightarrow> ('e + 'b) \<times> 's) \<Rightarrow> 's \<Rightarrow> ('e + 'b) \<times> 's" where
  "ctl_bind m k w = (case m w of (Inl e, w1) \<Rightarrow> (Inl e, w1) | (Inr x, w1) \<Rightarrow> k x w1)"

definition grpc :: "'a cio \<Rightarrow> 'a crpc" where
  "grpc m w = (case m w of (Inl e, w1) \<Rightarrow> (Inl (toGrpcError e), w1) | (Inr x, w1) \<Rightarrow> (Inr x, w1))"

definition reply :: "'a \<Rightarrow> 'a crpc" where
  "reply x w = (Inr x, w)"

definition refuse :: "status \<Rightarrow> 'a crpc" where
  "refuse s w = (Inl s, w)"

lemma ctl_bind_Inr:
  "ctl_bind m k w = (Inr y, w') \<longleftrightarrow> (\<exists>x w1. m w = (Inr x, w1) \<and> k x w1 = (Inr y, w'))"
  by (auto simp: ctl_bind_def split: prod.splits sum.splits)

lemma ctl_bind_Inl:
  "ctl_bind m k w = (Inl e, w') \<longleftrightarrow>
    m w = (Inl e, w') \<or> (\<exists>x w1. m w = (Inr x, w1) \<and> k x w1 = (Inl e, w'))"
  by (auto simp: ctl_bind_def split: prod.splits sum.splits)

lemma grpc_Inr [simp]: "grpc m w = (Inr x, w') \<longleftrightarrow> m w = (Inr x, w')"
  by (auto simp: grpc_def split: prod.splits sum.splits)

lemma grpc_Inl: "grpc m w = (Inl s, w') \<longleftrightarrow> (\<exists>e. m w = (Inl e, w') \<and> s = toGrpcError e)"
  by (auto simp: grpc_def split: prod.splits sum.splits)

lemma reply_iff [simp]: "reply x w = (r, w') \<longleftrightarrow> r = Inr x \<and> w' = w"
  by (auto simp: reply_def)

lemma refuse_iff [simp]: "refuse s w = (r, w') \<longleftrightarrow> r = Inl s \<and> w' = w"
  by (auto simp: refuse_def)

lemmas ctl_runs = ctl_bind_Inr ctl_bind_Inl grpc_Inl

section \<open>Configuration\<close>

record AssignedConfig =
  ac_MountPath :: string
  ac_SyncRoots :: "string list"
  ac_ConflictPolicy :: string
  ac_ReadOnly :: bool
  ac_AutoConnect :: bool
  ac_BandwidthLimit :: int
  ac_LogLevel :: string
  ac_LargeFileThreshold :: int

record ServiceDiscoveryConfig =
  sd_Mode :: string
  sd_Host :: string
  sd_Port :: "32 word"
  sd_UseTLS :: bool
  sd_TLSServerName :: string

record JoinBundleConfig =
  jb_OverlayProvider :: string
  jb_OverlayJoinConfigJSON :: string
  jb_ServiceDiscovery :: ServiceDiscoveryConfig
  jb_SharedSecret :: string

record ControlPlaneConfig =
  cp_ServerID :: string
  cp_DefaultDeviceGroup :: string
  cp_HeartbeatIntervalSeconds :: "32 word"
  cp_DefaultPolicyRevision :: "64 word"
  cp_DefaultAssignedConfig :: AssignedConfig
  cp_JoinBundle :: JoinBundleConfig
  cp_AvailableActions :: "string list"
  cp_DiagnosticsKeepLatest :: int

abbreviation defaultHeartbeatIntervalSeconds :: "32 word" where "defaultHeartbeatIntervalSeconds \<equiv> 15"
abbreviation defaultPolicyRevision :: "64 word" where "defaultPolicyRevision \<equiv> 1"
abbreviation defaultLargeFileThreshold :: int where "defaultLargeFileThreshold \<equiv> 67108864"

definition normalizeStringList :: "string list \<Rightarrow> string list" where
  "normalizeStringList values = dedupe_trimmed values {}"

fun coalesceNonEmpty :: "string list \<Rightarrow> string" where
  "coalesceNonEmpty [] = []"
| "coalesceNonEmpty (v # vs) =
    (if strings_TrimSpace v \<noteq> [] then strings_TrimSpace v else coalesceNonEmpty vs)"

definition fallbackDisplayName :: "string \<Rightarrow> string \<Rightarrow> string" where
  "fallbackDisplayName deviceName deviceID =
    (let trimmed = strings_TrimSpace deviceName in
     if trimmed \<noteq> [] then trimmed else strings_TrimSpace deviceID)"

definition or_else :: "string \<Rightarrow> string \<Rightarrow> string" where
  "or_else s fallback = (if s = [] then fallback else s)"

definition normalizeAssigned :: "AssignedConfig \<Rightarrow> AssignedConfig" where
  "normalizeAssigned c =
    (let roots = normalizeStringList (ac_SyncRoots c) in
     c\<lparr>ac_MountPath := strings_TrimSpace (ac_MountPath c),
       ac_SyncRoots := (if roots = [] then [''.''] else roots),
       ac_ConflictPolicy := or_else (strings_TrimSpace (ac_ConflictPolicy c)) ''manual'',
       ac_LogLevel := or_else (strings_TrimSpace (ac_LogLevel c)) ''info'',
       ac_LargeFileThreshold :=
         (if ac_LargeFileThreshold c \<le> 0 then defaultLargeFileThreshold else ac_LargeFileThreshold c)\<rparr>)"

definition normalizeJoinBundle :: "JoinBundleConfig \<Rightarrow> JoinBundleConfig" where
  "normalizeJoinBundle j =
    (let d = jb_ServiceDiscovery j in
     j\<lparr>jb_OverlayProvider := strings_TrimSpace (jb_OverlayProvider j),
       jb_OverlayJoinConfigJSON := strings_TrimSpace (jb_OverlayJoinConfigJSON j),
       jb_ServiceDiscovery := d\<lparr>sd_Mode := or_else (strings_TrimSpace (sd_Mode d)) ''static'',
         sd_Host := strings_TrimSpace (sd_Host d),
         sd_TLSServerName := strings_TrimSpace (sd_TLSServerName d)\<rparr>,
       jb_SharedSecret := strings_TrimSpace (jb_SharedSecret j)\<rparr>)"

definition normalizeControlPlaneConfig :: "ControlPlaneConfig \<Rightarrow> ControlPlaneConfig" where
  "normalizeControlPlaneConfig config =
    (let actions = normalizeStringList (cp_AvailableActions config) in
     config\<lparr>cp_ServerID := strings_TrimSpace (cp_ServerID config),
       cp_DefaultDeviceGroup := or_else (strings_TrimSpace (cp_DefaultDeviceGroup config)) ''default'',
       cp_HeartbeatIntervalSeconds :=
         (if cp_HeartbeatIntervalSeconds config = 0 then defaultHeartbeatIntervalSeconds
          else cp_HeartbeatIntervalSeconds config),
       cp_DefaultPolicyRevision :=
         (if cp_DefaultPolicyRevision config = 0 then defaultPolicyRevision
          else cp_DefaultPolicyRevision config),
       cp_DiagnosticsKeepLatest :=
         (if cp_DiagnosticsKeepLatest config \<le> 0 then defaultKeepLatest
          else cp_DiagnosticsKeepLatest config),
       cp_DefaultAssignedConfig := normalizeAssigned (cp_DefaultAssignedConfig config),
       cp_JoinBundle := normalizeJoinBundle (cp_JoinBundle config),
       cp_AvailableActions :=
         (if actions = [] then [''reconnect_overlay'', ''resync'', ''remount'', ''collect_diagnostics'']
          else actions)\<rparr>)"

section \<open>Conversions\<close>

definition assignedConfigFromPolicyRecord :: "DevicePolicyRecord \<Rightarrow> AssignedConfig" where
  "assignedConfigFromPolicyRecord p =
    \<lparr>ac_MountPath = p_MountPath p, ac_SyncRoots = p_SyncRoots p, ac_ConflictPolicy = p_ConflictPolicy p,
     ac_ReadOnly = p_ReadOnly p, ac_AutoConnect = p_AutoConnect p, ac_BandwidthLimit = p_BandwidthLimit p,
     ac_LogLevel = p_LogLevel p, ac_LargeFileThreshold = p_LargeFileThreshold p\<rparr>"

text \<open>The message \<open>AssignedConfigPolicy\<close> has the fields of the record \<open>AssignedConfig\<close>.\<close>

definition assignedConfigFromProto :: "AssignedConfig \<Rightarrow> AssignedConfig" where
  "assignedConfigFromProto policy = policy\<lparr>
     ac_MountPath := strings_TrimSpace (ac_MountPath policy),
     ac_SyncRoots := normalizeStringList (ac_SyncRoots policy),
     ac_ConflictPolicy := strings_TrimSpace (ac_ConflictPolicy policy),
     ac_LogLevel := strings_TrimSpace (ac_LogLevel policy)\<rparr>"

record ClientAction =
  ca_ActionId :: string
  ca_ActionType :: string
  ca_PayloadJson :: string
  ca_Status :: string
  ca_RequestedAtUnix :: int
  ca_DeliveredAtUnix :: int
  ca_CompletedAtUnix :: int

definition clientActionToProto :: "DeviceActionRecord \<Rightarrow> bool \<Rightarrow> ctl \<Rightarrow> ClientAction \<times> ctl" where
  "clientActionToProto r delivered w =
    (case (if delivered \<and> a_DeliveredAtUnix r = 0
           then (case ctl_Now w of (now, w1) \<Rightarrow> (time_Unix now, w1))
           else (a_DeliveredAtUnix r, w)) of
       (deliveredAt, w1) \<Rightarrow>
       (\<lparr>ca_ActionId = a_ActionID r, ca_ActionType = a_ActionType r, ca_PayloadJson = a_PayloadJSON r,
         ca_Status = (if delivered then ''delivered'' else a_Status r),
         ca_RequestedAtUnix = a_RequestedAtUnix r, ca_DeliveredAtUnix = deliveredAt,
         ca_CompletedAtUnix = a_CompletedAtUnix r\<rparr>, w1))"

fun actions_to_proto :: "DeviceActionRecord list \<Rightarrow> bool \<Rightarrow> ctl \<Rightarrow> ClientAction list \<times> ctl" where
  "actions_to_proto [] delivered w = ([], w)"
| "actions_to_proto (a # as) delivered w =
    (case clientActionToProto a delivered w of
       (c, w1) \<Rightarrow> (case actions_to_proto as delivered w1 of (cs, w2) \<Rightarrow> (c # cs, w2)))"

definition actions_reply :: "DeviceActionRecord list \<Rightarrow> bool \<Rightarrow> ClientAction list crpc" where
  "actions_reply as delivered w = (case actions_to_proto as delivered w of (cs, w1) \<Rightarrow> (Inr cs, w1))"

definition isNotExistError :: "goerr \<Rightarrow> bool" where
  "isNotExistError e = errors_Is e ErrNotExist"

section \<open>Handlers\<close>

record RegisterDeviceRequest =
  rd_DeviceId :: string
  rd_DeviceName :: string
  rd_DeviceRole :: string
  rd_ClientVersion :: string
  rd_Platform :: string
  rd_OverlayProvider :: string
  rd_OverlayAddress :: string
  rd_Capabilities :: "string list"
  rd_ServerId :: string
  rd_DeviceGroup :: string

record RegisterDeviceResponse =
  rr_Accepted :: bool
  rr_AssignedDeviceLabel :: string
  rr_HeartbeatIntervalSeconds :: "32 word"
  rr_PolicyRevision :: "64 word"
  rr_RequiresPolicyPull :: bool

definition device_id_required :: status where
  "device_id_required = invalidArgument ''device_id is required''"

definition Control_RegisterDevice :: "ControlPlaneConfig \<Rightarrow> RegisterDeviceRequest \<Rightarrow> RegisterDeviceResponse crpc" where
  "Control_RegisterDevice cfg req =
    (let deviceID = strings_TrimSpace (rd_DeviceId req) in
     if deviceID = [] then refuse device_id_required
     else ctl_bind (grpc (Reg_Register
       \<lparr>r_DeviceID = deviceID, r_DeviceName = rd_DeviceName req, r_DeviceRole = rd_DeviceRole req,
        r_AssignedDeviceLabel = fallbackDisplayName (rd_DeviceName req) deviceID,
        r_ClientVersion = rd_ClientVersion req, r_Platform = rd_Platform req,
        r_OverlayProvider = rd_OverlayProvider req, r_OverlayAddress = rd_OverlayAddress req,
        r_Capabilities = rd_Capabilities req,
        r_ServerID = coalesceNonEmpty [cp_ServerID cfg, rd_ServerId req],
        r_DeviceGroup = coalesceNonEmpty [rd_DeviceGroup req, cp_DefaultDeviceGroup cfg],
        r_HeartbeatIntervalSeconds = cp_HeartbeatIntervalSeconds cfg,
        r_PolicyRevision = cp_DefaultPolicyRevision cfg, r_RequiresPolicyPull = True,
        r_OverlayConnected = True\<rparr>)) (\<lambda>record.
       reply \<lparr>rr_Accepted = True, rr_AssignedDeviceLabel = d_AssignedDeviceLabel record,
         rr_HeartbeatIntervalSeconds = d_HeartbeatIntervalSeconds record,
         rr_PolicyRevision = d_PolicyRevision record,
         rr_RequiresPolicyPull = d_RequiresPolicyPull record\<rparr>))"

record HeartbeatResponse =
  hr_NextHeartbeatSeconds :: "32 word"
  hr_PolicyRevision :: "64 word"
  hr_PendingActions :: "string list"
  hr_PendingActionDetails :: "ClientAction list"

definition Control_Heartbeat :: "DeviceHeartbeat \<Rightarrow> HeartbeatResponse crpc" where
  "Control_Heartbeat req =
    (let deviceID = strings_TrimSpace (h_DeviceID req) in
     if deviceID = [] then refuse device_id_required
     else ctl_bind (grpc (Reg_UpdateHeartbeat (req\<lparr>h_DeviceID := deviceID\<rparr>))) (\<lambda>record.
       ctl_bind (grpc (Reg_ListPendingActions deviceID 16)) (\<lambda>actions.
       ctl_bind (actions_reply actions True) (\<lambda>actionDetails.
       ctl_bind (grpc (Reg_MarkActionsDelivered (map a_ActionID actions))) (\<lambda>_.
       reply \<lparr>hr_NextHeartbeatSeconds = d_HeartbeatIntervalSeconds record,
         hr_PolicyRevision = d_PolicyRevision record,
         hr_PendingActions = map a_ActionType actions,
         hr_PendingActionDetails = actionDetails\<rparr>)))))"

text \<open>The assigned configuration: the device's policy, or the default when it has none.\<close>

definition effective_config :: "ControlPlaneConfig \<Rightarrow> string \<Rightarrow> AssignedConfig crpc" where
  "effective_config cfg deviceID w =
    (case Reg_GetPolicy deviceID w of
       (Inr override, w1) \<Rightarrow> (Inr (assignedConfigFromPolicyRecord override), w1)
     | (Inl e, w1) \<Rightarrow>
       if isNotExistError e then (Inr (cp_DefaultAssignedConfig cfg), w1) else (Inl (toGrpcError e), w1))"

definition Control_GetAssignedConfig :: "ControlPlaneConfig \<Rightarrow> string \<Rightarrow> (AssignedConfig \<times> 64 word) crpc" where
  "Control_GetAssignedConfig cfg req_DeviceId =
    (let deviceID = strings_TrimSpace req_DeviceId in
     if deviceID = [] then refuse device_id_required
     else ctl_bind (grpc (Reg_Get deviceID)) (\<lambda>record.
       ctl_bind (grpc (Reg_MarkPolicyPulled deviceID)) (\<lambda>_.
       ctl_bind (effective_config cfg deviceID) (\<lambda>config.
       reply (config, d_PolicyRevision record)))))"

definition Control_ReportSyncState :: "DeviceSyncStateReport \<Rightarrow> unit crpc" where
  "Control_ReportSyncState req =
    (let deviceID = strings_TrimSpace (s_DeviceID req) in
     if deviceID = [] then refuse device_id_required
     else ctl_bind (grpc (Reg_UpdateSyncState (req\<lparr>s_DeviceID := deviceID\<rparr>))) (\<lambda>_. reply ()))"

definition Control_ReportMountState :: "DeviceMountStateReport \<Rightarrow> unit crpc" where
  "Control_ReportMountState req =
    (let deviceID = strings_TrimSpace (m_DeviceID req) in
     if deviceID = [] then refuse device_id_required
     else ctl_bind (grpc (Reg_UpdateMountState (req\<lparr>m_DeviceID := deviceID\<rparr>))) (\<lambda>_. reply ()))"

record UploadDiagnosticsRequest =
  ud_DeviceId :: string
  ud_Category :: string
  ud_ContentType :: string
  ud_Summary :: string
  ud_Data :: bytes

record UploadDiagnosticsResponse =
  ur_DiagnosticsId :: string
  ur_UploadedAtUnix :: int
  ur_SizeBytes :: int

definition Control_UploadDiagnostics :: "ControlPlaneConfig \<Rightarrow> UploadDiagnosticsRequest \<Rightarrow> UploadDiagnosticsResponse crpc" where
  "Control_UploadDiagnostics cfg req =
    (let deviceID = strings_TrimSpace (ud_DeviceId req) in
     if deviceID = [] then refuse device_id_required
     else ctl_bind (grpc (Reg_Get deviceID)) (\<lambda>_.
       ctl_bind (grpc (Reg_InsertDiagnostic
         \<lparr>g_DiagnosticsID = [], g_DeviceID = deviceID, g_Category = ud_Category req,
          g_ContentType = ud_ContentType req, g_Summary = ud_Summary req, g_Payload = ud_Data req,
          g_SizeBytes = int (length (ud_Data req)), g_UploadedAtUnix = 0\<rparr>
         (cp_DiagnosticsKeepLatest cfg))) (\<lambda>record.
       reply \<lparr>ur_DiagnosticsId = g_DiagnosticsID record, ur_UploadedAtUnix = g_UploadedAtUnix record,
         ur_SizeBytes = g_SizeBytes record\<rparr>)))"

end
