(* ===== verification/AdminConsole.thy ===== *)
theory AdminConsole
  imports ControlPlane
begin

text \<open>
  \<open>internal/server/admin_console_service.go\<close>: what the operator's console calls (list devices,
  device detail, change a policy, request an action). \<open>UpdateDevicePolicy\<close> is written as its two
  halves, the reading of the current revision and the write, because nothing in the code
  makes them one step. The handlers over the running process are in \<open>AdminRuntime\<close>, the one that issues bundles is
  in \<open>AccessBundle\<close>.
\<close>

section \<open>The state of a device as the console shows it\<close>

definition deviceDisplayName :: "DeviceRecord \<Rightarrow> string" where
  "deviceDisplayName r =
    (if strings_TrimSpace (d_AssignedDeviceLabel r) \<noteq> [] then strings_TrimSpace (d_AssignedDeviceLabel r)
     else if strings_TrimSpace (d_DeviceName r) \<noteq> [] then strings_TrimSpace (d_DeviceName r)
     else d_DeviceID r)"

definition deviceOnlineState :: "DeviceRecord \<Rightarrow> gotime \<Rightarrow> string" where
  "deviceOnlineState r now =
    (if d_LastSeenAtUnix r = 0 then ''unknown''
     else
       (let interval0 = uint (d_HeartbeatIntervalSeconds r);
            interval = (if interval0 \<le> 0 then uint defaultHeartbeatIntervalSeconds else interval0);
            offlineAfter = (if interval * 3 < 45 then 45 else interval * 3) in
        if i64 (time_Unix now - d_LastSeenAtUnix r) > offlineAfter then ''offline''
        else if \<not> d_GRPCConnected r then ''degraded''
        else if strings_TrimSpace (d_OverlayProvider r) \<noteq> [] \<and> \<not> d_OverlayConnected r then ''degraded''
        else if strings_TrimSpace (d_LastError r) \<noteq> [] \<or> strings_TrimSpace (d_SyncLastError r) \<noteq> []
        then ''degraded''
        else ''online''))"

definition deviceSyncState :: "DeviceRecord \<Rightarrow> string" where
  "deviceSyncState r =
    (if strings_TrimSpace (d_SyncSummary r) \<noteq> [] then strings_TrimSpace (d_SyncSummary r)
     else if strings_TrimSpace (d_SyncStateSummary r) \<noteq> [] then strings_TrimSpace (d_SyncStateSummary r)
     else if strings_TrimSpace (d_SyncLastError r) \<noteq> [] then ''error''
     else if d_CurrentTaskCount r > 0 then ''running''
     else ''idle'')"

definition deviceMountState :: "DeviceRecord \<Rightarrow> string" where
  "deviceMountState r =
    (if strings_TrimSpace (d_MountState r) \<noteq> [] then strings_TrimSpace (d_MountState r) else ''unknown'')"

record DeviceSummary =
  ds_DeviceId :: string
  ds_DisplayName :: string
  ds_Role :: string
  ds_OverlayProvider :: string
  ds_OverlayAddress :: string
  ds_OnlineState :: string
  ds_LastSeenAt :: int
  ds_SyncState :: string
  ds_MountState :: string
  ds_ClientVersion :: string
  ds_PolicyRevision :: "64 word"

definition buildDeviceSummary :: "DeviceRecord \<Rightarrow> gotime \<Rightarrow> DeviceSummary" where
  "buildDeviceSummary r now =
    \<lparr>ds_DeviceId = d_DeviceID r, ds_DisplayName = deviceDisplayName r, ds_Role = d_DeviceRole r,
     ds_OverlayProvider = d_OverlayProvider r, ds_OverlayAddress = d_OverlayAddress r,
     ds_OnlineState = deviceOnlineState r now, ds_LastSeenAt = d_LastSeenAtUnix r,
     ds_SyncState = deviceSyncState r, ds_MountState = deviceMountState r,
     ds_ClientVersion = d_ClientVersion r, ds_PolicyRevision = d_PolicyRevision r\<rparr>"

record DiagnosticSummary =
  dg_DiagnosticsId :: string
  dg_Category :: string
  dg_ContentType :: string
  dg_Summary :: string
  dg_SizeBytes :: int
  dg_UploadedAtUnix :: int

definition diagnosticSummaryToProto :: "DeviceDiagnosticRecord \<Rightarrow> DiagnosticSummary" where
  "diagnosticSummaryToProto g =
    \<lparr>dg_DiagnosticsId = g_DiagnosticsID g, dg_Category = g_Category g, dg_ContentType = g_ContentType g,
     dg_Summary = g_Summary g, dg_SizeBytes = g_SizeBytes g, dg_UploadedAtUnix = g_UploadedAtUnix g\<rparr>"

section \<open>Handlers\<close>

definition now_reply :: "gotime crpc" where
  "now_reply w = (case ctl_Now w of (now, w1) \<Rightarrow> (Inr now, w1))"

definition Admin_ListDevices :: "DeviceSummary list crpc" where
  "Admin_ListDevices =
    ctl_bind (grpc Reg_List) (\<lambda>records.
    ctl_bind now_reply (\<lambda>now.
    reply (map (\<lambda>r. buildDeviceSummary r now) records)))"

text \<open>The response: the summary, the row it is read from, and what the other tables hold.\<close>

record GetDeviceDetailResponse =
  gd_Summary :: DeviceSummary
  gd_Record :: DeviceRecord
  gd_AssignedConfig :: AssignedConfig
  gd_PendingActions :: "ClientAction list"
  gd_RecentDiagnostics :: "DiagnosticSummary list"
  gd_AvailableActions :: "string list"

definition Admin_GetDeviceDetail :: "ControlPlaneConfig \<Rightarrow> string \<Rightarrow> GetDeviceDetailResponse crpc" where
  "Admin_GetDeviceDetail cfg req_DeviceId =
    (let deviceID = strings_TrimSpace req_DeviceId in
     if deviceID = [] then refuse device_id_required
     else ctl_bind (grpc (Reg_Get deviceID)) (\<lambda>record.
       ctl_bind (effective_config cfg deviceID) (\<lambda>assignedConfig.
       ctl_bind (grpc (Reg_ListActiveActions deviceID 16)) (\<lambda>actions.
       ctl_bind (grpc (Reg_ListDiagnostics deviceID (cp_DiagnosticsKeepLatest cfg))) (\<lambda>diagnostics.
       ctl_bind (actions_reply actions False) (\<lambda>actionDetails.
       ctl_bind now_reply (\<lambda>now.
       reply \<lparr>gd_Summary = buildDeviceSummary record now, gd_Record = record,
         gd_AssignedConfig = assignedConfig, gd_PendingActions = actionDetails,
         gd_RecentDiagnostics = map diagnosticSummaryToProto diagnostics,
         gd_AvailableActions = cp_AvailableActions cfg\<rparr>)))))))"

record UpdateDevicePolicyRequest =
  up_DeviceId :: string
  up_Policy :: "AssignedConfig option"
  up_ExpectedPolicyRevision :: "64 word"
  up_ResetToDefault :: bool

record UpdateDevicePolicyResponse =
  us_PolicyRevision :: "64 word"
  us_RequiresPolicyPull :: bool
  us_EffectivePolicy :: AssignedConfig

definition next_revision :: "64 word \<Rightarrow> 64 word" where
  "next_revision current = (if current + 1 = 0 then 1 else current + 1)"

definition policy_check :: "UpdateDevicePolicyRequest \<Rightarrow> (64 word) crpc" where
  "policy_check req =
    (let deviceID = strings_TrimSpace (up_DeviceId req) in
     if deviceID = [] then refuse device_id_required
     else ctl_bind (grpc (Reg_Get deviceID)) (\<lambda>record.
       if up_ExpectedPolicyRevision req \<noteq> 0 \<and> up_ExpectedPolicyRevision req \<noteq> d_PolicyRevision record
       then refuse (failedPrecondition ''expected_policy_revision does not match current policy_revision'')
       else reply (next_revision (d_PolicyRevision record))))"

definition policy_write :: "ControlPlaneConfig \<Rightarrow> UpdateDevicePolicyRequest \<Rightarrow> 64 word \<Rightarrow> UpdateDevicePolicyResponse crpc" where
  "policy_write cfg req nextRevision =
    (let deviceID = strings_TrimSpace (up_DeviceId req) in
     if up_ResetToDefault req
     then ctl_bind (grpc (Reg_ResetPolicy deviceID nextRevision)) (\<lambda>_.
       reply \<lparr>us_PolicyRevision = nextRevision, us_RequiresPolicyPull = True,
         us_EffectivePolicy = cp_DefaultAssignedConfig cfg\<rparr>)
     else
       (case up_Policy req of
          None \<Rightarrow> refuse (invalidArgument ''policy is required unless reset_to_default is true'')
        | Some policy \<Rightarrow>
          let effectiveConfig = assignedConfigFromProto policy in
          ctl_bind (grpc (Reg_UpsertPolicy
            \<lparr>p_DeviceID = deviceID, p_MountPath = ac_MountPath effectiveConfig,
             p_SyncRoots = ac_SyncRoots effectiveConfig,
             p_ConflictPolicy = ac_ConflictPolicy effectiveConfig, p_ReadOnly = ac_ReadOnly effectiveConfig,
             p_AutoConnect = ac_AutoConnect effectiveConfig,
             p_BandwidthLimit = ac_BandwidthLimit effectiveConfig, p_LogLevel = ac_LogLevel effectiveConfig,
             p_LargeFileThreshold = ac_LargeFileThreshold effectiveConfig,
             p_PolicyRevision = nextRevision, p_UpdatedAtUnix = 0\<rparr>)) (\<lambda>_.
          reply \<lparr>us_PolicyRevision = nextRevision, us_RequiresPolicyPull = True,
            us_EffectivePolicy = effectiveConfig\<rparr>)))"

definition Admin_UpdateDevicePolicy :: "ControlPlaneConfig \<Rightarrow> UpdateDevicePolicyRequest \<Rightarrow> UpdateDevicePolicyResponse crpc" where
  "Admin_UpdateDevicePolicy cfg req = ctl_bind (policy_check req) (policy_write cfg req)"

definition Admin_RequestClientAction :: "DeviceActionRequest \<Rightarrow> ClientAction crpc" where
  "Admin_RequestClientAction req =
    (let deviceID = strings_TrimSpace (q_DeviceID req) in
     if deviceID = [] then refuse device_id_required
     else if strings_TrimSpace (q_ActionType req) = [] then refuse (invalidArgument ''action_type is required'')
     else ctl_bind (grpc (Reg_Get deviceID)) (\<lambda>_.
       ctl_bind (grpc (Reg_EnqueueAction (req\<lparr>q_DeviceID := deviceID\<rparr>))) (\<lambda>action w.
       (case clientActionToProto action False w of (c, w1) \<Rightarrow> (Inr c, w1)))))"

end
