(* ===== verification/RegistryLaws.thy ===== *)
theory RegistryLaws
  imports AdminConsole
begin

text \<open>
  What each operation of the device registry does to the tables: on success the statement it is
  meant to run, on an error nothing, or the whole change when only the read-back failed.
\<close>

section \<open>Statements and transactions\<close>

lemma ctl_query_Inr: "ctl_query q w = (Inr x, w') \<Longrightarrow> q (ct_db w) = Inr x \<and> ct_db w' = ct_db w"
  by (auto simp: ctl_query_def ctl_fault_def split: list.splits option.splits)

lemma ctl_query_db: "ctl_query q w = (r, w') \<Longrightarrow> ct_db w' = ct_db w"
  by (auto simp: ctl_query_def ctl_fault_def split: list.splits option.splits)

lemma ctl_exec_Inr: "ctl_exec s w = (Inr n, w') \<Longrightarrow> \<exists>d. s (ct_db w) = Inr (n, d) \<and> ct_db w' = d"
  by (auto simp: ctl_exec_def ctl_fault_def split: list.splits option.splits sum.splits prod.splits)

lemma ctl_exec_total:
  "ctl_exec (\<lambda>db. Inr (m db, f db)) w = (Inr n, w') \<Longrightarrow> n = m (ct_db w) \<and> ct_db w' = f (ct_db w)"
  by (auto dest: ctl_exec_Inr)

lemma ctl_exec_insert:
  "ctl_exec (\<lambda>db. map_sum id (\<lambda>rs. (c, f rs db)) (row_insert what key r (g db))) w = (Inr n, w') \<Longrightarrow>
    key r \<notin> key ` set (g (ct_db w)) \<and> ct_db w' = f (g (ct_db w) @ [r]) (ct_db w)"
  by (auto simp: row_insert_def split: if_splits dest: ctl_exec_Inr)

lemma ctl_exec_Inl: "ctl_exec s w = (Inl e, w') \<Longrightarrow> ct_db w' = ct_db w"
  by (auto simp: ctl_exec_def ctl_fault_def split: list.splits option.splits sum.splits prod.splits)

lemma ctl_Now_db: "ctl_Now w = (t, w') \<Longrightarrow> ct_db w' = ct_db w"
  by (auto simp: ctl_Now_def split: list.splits)

lemma newRandomID_db: "newRandomID w = (r, w') \<Longrightarrow> ct_db w' = ct_db w"
  by (auto simp: newRandomID_def split: list.splits option.splits)

lemma ctl_tx_Inl: "ctl_tx fn w = (Inl e, w') \<Longrightarrow> ct_db w' = ct_db w"
  by (auto simp: ctl_tx_def split: prod.splits sum.splits dest!: ctl_query_db)

lemma ctl_tx_Inr:
  assumes "ctl_tx fn w = (Inr x, w')"
  obtains w1 w2 where "ct_db w1 = ct_db w" "fn w1 = (Inr x, w2)" "ct_db w' = ct_db w2"
proof -
  obtain u w1 where 1: "ctl_query (\<lambda>_. Inr ()) w = (Inr u, w1)"
    using assms by (auto simp: ctl_tx_def split: prod.splits sum.splits)
  obtain w2 where 2: "fn w1 = (Inr x, w2)" "ctl_query (\<lambda>_. Inr ()) w2 = (Inr (), w')"
    using assms 1 by (auto simp: ctl_tx_def split: prod.splits sum.splits)
  show thesis using that [of w1 w2] 1 2 by (auto dest: ctl_query_db)
qed

lemma update_device_Inr:
  "update_device deviceID f w = (Inr n, w') \<Longrightarrow>
    ct_db w' = map_device deviceID f (ct_db w)
    \<and> n = length (filter (\<lambda>d. d_DeviceID d = deviceID) (c_devices (ct_db w)))"
  by (auto simp: update_device_def dest!: ctl_exec_total)

lemma update_device_Inl: "update_device deviceID f w = (Inl e, w') \<Longrightarrow> ct_db w' = ct_db w"
  by (auto simp: update_device_def dest!: ctl_exec_Inl)

lemma ensureRowsAffected_Inr [simp]: "ensureRowsAffected n = Inr u \<longleftrightarrow> 0 < n"
  by (auto simp: ensureRowsAffected_def)

text \<open>The ids of the registered devices.\<close>

definition device_ids :: "ctldb \<Rightarrow> string set" where
  "device_ids db = d_DeviceID ` set (c_devices db)"

lemma rows_affected [simp]: "filter (\<lambda>d. d_DeviceID d = i) (c_devices db) \<noteq> [] \<longleftrightarrow> i \<in> device_ids db"
  by (auto simp: device_ids_def filter_empty_conv image_iff)

lemma row_find_map:
  "(\<And>x. key (f x) = key x) \<Longrightarrow>
    row_find key k (map (\<lambda>x. if key x = k then f x else x) rs) = map_option f (row_find key k rs)"
  unfolding row_find_def by (induction rs) auto

lemma row_find_map_other:
  "(\<And>x. key (f x) = key x) \<Longrightarrow> k \<noteq> i \<Longrightarrow>
    row_find key k (map (\<lambda>x. if key x = i then f x else x) rs) = row_find key k rs"
  unfolding row_find_def by (induction rs) auto

definition device_of :: "ctldb \<Rightarrow> string \<Rightarrow> DeviceRecord option" where
  "device_of db i = row_find d_DeviceID i (c_devices db)"

definition policy_of :: "ctldb \<Rightarrow> string \<Rightarrow> DevicePolicyRecord option" where
  "policy_of db i = row_find p_DeviceID i (c_policies db)"

lemma device_of_map_device [simp]:
  "(\<And>d. d_DeviceID (f d) = d_DeviceID d) \<Longrightarrow>
    device_of (map_device i f db) j = (if j = i then map_option f (device_of db j) else device_of db j)"
  by (simp add: device_of_def map_device_def row_find_map row_find_map_other)

lemma map_device_other [simp]:
  "c_policies (map_device i f db) = c_policies db" "c_actions (map_device i f db) = c_actions db"
  "c_diagnostics (map_device i f db) = c_diagnostics db"
  by (simp_all add: map_device_def)

lemma device_ids_map_device [simp]:
  "(\<And>d. d_DeviceID (f d) = d_DeviceID d) \<Longrightarrow> device_ids (map_device i f db) = device_ids db"
proof -
  assume f: "\<And>d. d_DeviceID (f d) = d_DeviceID d"
  have "d_DeviceID (if d_DeviceID d = i then f d else d) = d_DeviceID d" for d by (simp add: f)
  then show ?thesis by (simp add: device_ids_def map_device_def image_image del: if_image_distrib)
qed

lemma device_of_Some_ids: "device_of db i = Some d \<Longrightarrow> i \<in> device_ids db \<and> d_DeviceID d = i"
  by (auto simp: device_of_def device_ids_def dest: row_find_SomeD)

lemma device_of_None: "device_of db i = None \<longleftrightarrow> i \<notin> device_ids db"
  by (simp add: device_of_def device_ids_def row_find_None)

section \<open>Devices\<close>

lemma Reg_Get_Inr:
  "Reg_Get i w = (Inr d, w') \<Longrightarrow> device_of (ct_db w) (strings_TrimSpace i) = Some d \<and> ct_db w' = ct_db w"
  by (auto simp: Reg_Get_def device_of_def split: prod.splits sum.splits option.splits
      dest!: ctl_query_Inr)

lemma Reg_Get_db: "Reg_Get i w = (r, w') \<Longrightarrow> ct_db w' = ct_db w"
  by (auto simp: Reg_Get_def split: prod.splits sum.splits dest!: ctl_query_db)

lemma update_and_get_effect:
  assumes "update_and_get i f w = (r, w')"
  shows "ct_db w' = ct_db w \<or> ct_db w' = map_device i f (ct_db w)"
  using assms by (auto simp: update_and_get_def split: prod.splits sum.splits
      dest!: update_device_Inr update_device_Inl Reg_Get_db)

lemma update_and_get_Inr:
  assumes "update_and_get i f w = (Inr d, w')" and "strings_TrimSpace i = i"
    and "\<And>d. d_DeviceID (f d) = d_DeviceID d"
  shows "ct_db w' = map_device i f (ct_db w) \<and> (\<exists>d0. device_of (ct_db w) i = Some d0 \<and> d = f d0)"
proof -
  obtain n w1 where 1: "update_device i f w = (Inr n, w1)" "Reg_Get i w1 = (Inr d, w')"
    using assms(1) by (auto simp: update_and_get_def split: prod.splits sum.splits)
  from update_device_Inr [OF 1(1)] Reg_Get_Inr [OF 1(2)] assms(2,3) show ?thesis by auto
qed

definition keeps_identity :: "(DeviceRecord \<Rightarrow> DeviceRecord) \<Rightarrow> bool" where
  "keeps_identity f \<longleftrightarrow>
    (\<forall>d. d_DeviceID (f d) = d_DeviceID d \<and> d_PolicyRevision (f d) = d_PolicyRevision d
      \<and> d_CreatedAtUnix (f d) = d_CreatedAtUnix d)"

lemma keeps_identity_reregister: "keeps_identity (reregister row)"
  by (simp add: keeps_identity_def reregister_def)

section \<open>Committed changes\<close>

text \<open>
  The changes the control plane commits, one rule per kind: \<open>k\<close> is how many diagnostics a
  device keeps. Every handler moves the tables by a sequence of these.
\<close>

definition cancelled_if :: "bool \<Rightarrow> string \<Rightarrow> string \<Rightarrow> int \<Rightarrow> DeviceActionRecord list \<Rightarrow> DeviceActionRecord list" where
  "cancelled_if replace i ty t rs = (if replace then cancel_similar i ty t rs else rs)"

inductive registry_effect :: "int \<Rightarrow> ctldb \<Rightarrow> ctldb \<Rightarrow> bool" for k where
  registered: "registry_effect k db (register_db row db)"
| device: "keeps_identity f \<Longrightarrow> registry_effect k db (map_device i f db)"
| policy_set: "i \<in> device_ids db \<Longrightarrow> p_DeviceID p = i \<Longrightarrow>
    registry_effect k db (map_device i (policy_changed (p_PolicyRevision p) t)
      (db\<lparr>c_policies := row_upsert p_DeviceID p (c_policies db)\<rparr>))"
| policy_reset: "i \<in> device_ids db \<Longrightarrow>
    registry_effect k db (map_device i (policy_changed revision t)
      (db\<lparr>c_policies := row_delete p_DeviceID i (c_policies db)\<rparr>))"
| enqueued: "i \<in> device_ids db \<Longrightarrow> a_DeviceID a = i \<Longrightarrow> a_Status a = ''pending'' \<Longrightarrow>
    strings_TrimSpace (a_ActionID a) = a_ActionID a \<Longrightarrow> a_ActionID a \<notin> a_ActionID ` set (c_actions db) \<Longrightarrow>
    registry_effect k db (map_device i (touched t)
      (db\<lparr>c_actions := cancelled_if replace i (a_ActionType a) t (c_actions db) @ [a]\<rparr>))"
| delivered: "registry_effect k db (db\<lparr>c_actions := mark_delivered ids t (c_actions db)\<rparr>)"
| diagnosed: "i \<in> device_ids db \<Longrightarrow> g_DeviceID g = i \<Longrightarrow>
    g_DiagnosticsID g \<notin> g_DiagnosticsID ` set (c_diagnostics db) \<Longrightarrow>
    registry_effect k db (map_device i (touched t)
      (db\<lparr>c_diagnostics := trim_diagnostics i k (c_diagnostics db @ [g])\<rparr>))"

abbreviation registry_effects :: "int \<Rightarrow> ctldb \<Rightarrow> ctldb \<Rightarrow> bool" where
  "registry_effects k \<equiv> (registry_effect k)\<^sup>*\<^sup>*"

lemma keeps_identity_rows:
  "keeps_identity (heartbeat_row h t)" "keeps_identity (sync_state_row s t)"
  "keeps_identity (mount_state_row m t)" "keeps_identity (policy_pulled t)" "keeps_identity (touched t)"
  by (simp_all add: keeps_identity_def heartbeat_row_def sync_state_row_def mount_state_row_def
      policy_pulled_def touched_def Let_def)

lemma device_update_effects:
  "keeps_identity f \<Longrightarrow> db' = db \<or> db' = map_device i f db \<Longrightarrow> registry_effects k db db'"
  by (auto intro: registry_effect.device)

lemma Reg_Register_effect:
  assumes "Reg_Register input w = (r, w')"
  shows "registry_effects k (ct_db w) (ct_db w')"
proof -
  have "registry_effects k d (register_db row d)" for d row by (auto intro: registry_effect.registered)
  with assms show ?thesis by (auto simp: Reg_Register_def Let_def split: prod.splits sum.splits if_splits
      dest!: ctl_Now_db ctl_exec_total ctl_exec_Inl Reg_Get_db)
qed

lemma Reg_UpdateHeartbeat_effect:
  assumes "Reg_UpdateHeartbeat input w = (r, w')"
  shows "registry_effects k (ct_db w) (ct_db w')"
  using assms by (auto simp: Reg_UpdateHeartbeat_def Let_def split: if_splits prod.splits
      dest!: update_and_get_effect ctl_Now_db intro: device_update_effects keeps_identity_rows)

lemma Reg_UpdateSyncState_effect:
  assumes "Reg_UpdateSyncState input w = (r, w')"
  shows "registry_effects k (ct_db w) (ct_db w')"
  using assms by (auto simp: Reg_UpdateSyncState_def Let_def split: if_splits prod.splits
      dest!: update_and_get_effect ctl_Now_db intro: device_update_effects keeps_identity_rows)

lemma Reg_UpdateMountState_effect:
  assumes "Reg_UpdateMountState input w = (r, w')"
  shows "registry_effects k (ct_db w) (ct_db w')"
  using assms by (auto simp: Reg_UpdateMountState_def Let_def split: if_splits prod.splits
      dest!: update_and_get_effect ctl_Now_db intro: device_update_effects keeps_identity_rows)

lemma Reg_MarkPolicyPulled_cases:
  assumes "Reg_MarkPolicyPulled i w = (r, w')"
  shows "ct_db w' = ct_db w \<or> (\<exists>t. ct_db w' = map_device (strings_TrimSpace i) (policy_pulled t) (ct_db w))"
  using assms by (auto simp: Reg_MarkPolicyPulled_def split: prod.splits sum.splits
      dest!: ctl_Now_db update_device_Inr update_device_Inl)

lemma Reg_MarkPolicyPulled_Inr:
  assumes "Reg_MarkPolicyPulled i w = (Inr u, w')"
  shows "\<exists>t. ct_db w' = map_device (strings_TrimSpace i) (policy_pulled t) (ct_db w)"
  using assms by (auto simp: Reg_MarkPolicyPulled_def split: prod.splits sum.splits
      dest!: ctl_Now_db update_device_Inr)

lemma Reg_MarkPolicyPulled_effect:
  assumes "Reg_MarkPolicyPulled i w = (r, w')"
  shows "registry_effects k (ct_db w) (ct_db w')"
  using Reg_MarkPolicyPulled_cases [OF assms] by (auto intro: device_update_effects keeps_identity_rows)

section \<open>Policies\<close>

lemma Reg_GetPolicy_Inr:
  "Reg_GetPolicy i w = (Inr p, w') \<Longrightarrow> policy_of (ct_db w) (strings_TrimSpace i) = Some p \<and> ct_db w' = ct_db w"
  by (auto simp: Reg_GetPolicy_def policy_of_def split: prod.splits sum.splits option.splits
      dest!: ctl_query_Inr)

lemma Reg_GetPolicy_db: "Reg_GetPolicy i w = (r, w') \<Longrightarrow> ct_db w' = ct_db w"
  by (auto simp: Reg_GetPolicy_def split: prod.splits sum.splits dest!: ctl_query_db)

definition policy_set_db :: "DevicePolicyRecord \<Rightarrow> int \<Rightarrow> ctldb \<Rightarrow> ctldb" where
  "policy_set_db p t db = map_device (p_DeviceID p) (policy_changed (p_PolicyRevision p) t)
     (db\<lparr>c_policies := row_upsert p_DeviceID p (c_policies db)\<rparr>)"

lemma device_ids_policies [simp]: "device_ids (db\<lparr>c_policies := x\<rparr>) = device_ids db"
  "device_ids (db\<lparr>c_actions := y\<rparr>) = device_ids db" "device_ids (db\<lparr>c_diagnostics := z\<rparr>) = device_ids db"
  by (simp_all add: device_ids_def)

lemma policy_write_effect:
  assumes "ctl_tx (\<lambda>w.
      (case ctl_exec (\<lambda>db. Inr (n, db\<lparr>c_policies := g (c_policies db)\<rparr>)) w of
         (Inl e, w1) \<Rightarrow> (Inl e, w1)
       | (Inr _, w1) \<Rightarrow>
         (case update_device i f w1 of
            (Inl e, w2) \<Rightarrow> (Inl e, w2)
          | (Inr n, w2) \<Rightarrow> (ensureRowsAffected n, w2)))) w = (Inr u, w')"
  shows "i \<in> device_ids (ct_db w) \<and> ct_db w' = map_device i f ((ct_db w)\<lparr>c_policies := g (c_policies (ct_db w))\<rparr>)"
  using assms by (elim ctl_tx_Inr) (auto split: prod.splits sum.splits dest!: ctl_exec_total update_device_Inr)

lemma Reg_UpsertPolicy_cases:
  assumes "Reg_UpsertPolicy input w = (r, w')"
  shows "(\<exists>e. r = Inl e) \<and> ct_db w' = ct_db w \<or>
    (\<exists>t. p_DeviceID (stored_policy input t) \<in> device_ids (ct_db w)
      \<and> ct_db w' = policy_set_db (stored_policy input t) t (ct_db w))"
proof (cases "strings_TrimSpace (p_DeviceID input) = []")
  case True
  with assms show ?thesis by (auto simp: Reg_UpsertPolicy_def)
next
  case False
  obtain now w1 where 1: "ctl_Now w = (now, w1)" by force
  note db1 = ctl_Now_db [OF 1]
  show ?thesis
    using assms 1 False
    by (auto simp: Reg_UpsertPolicy_def Let_def policy_set_db_def stored_policy_def db1
        split: prod.splits sum.splits dest!: ctl_tx_Inl policy_write_effect Reg_GetPolicy_db)
qed

lemma Reg_UpsertPolicy_Inr:
  assumes "Reg_UpsertPolicy input w = (Inr p, w')"
  shows "\<exists>t. p = stored_policy input t \<and> p_DeviceID p \<in> device_ids (ct_db w)
    \<and> ct_db w' = policy_set_db p t (ct_db w)"
proof -
  let ?i = "strings_TrimSpace (p_DeviceID input)"
  obtain now w1 where 1: "ctl_Now w = (now, w1)" by force
  let ?p = "stored_policy input (time_Unix now)"
  note db1 = ctl_Now_db [OF 1]
  have "\<exists>w2. ?i \<in> device_ids (ct_db w) \<and> ct_db w2 = policy_set_db ?p (time_Unix now) (ct_db w)
      \<and> Reg_GetPolicy ?i w2 = (Inr p, w')"
    using assms 1
    by (auto simp: Reg_UpsertPolicy_def Let_def policy_set_db_def stored_policy_def db1
        split: prod.splits sum.splits if_splits dest!: policy_write_effect)
  then obtain w2 where 2: "?i \<in> device_ids (ct_db w)"
    "ct_db w2 = policy_set_db ?p (time_Unix now) (ct_db w)" "Reg_GetPolicy ?i w2 = (Inr p, w')"
    by blast
  have "policy_of (ct_db w2) ?i = Some p" and "ct_db w' = ct_db w2"
    using Reg_GetPolicy_Inr [OF 2(3)] by simp_all
  then have "p = ?p" by (simp add: 2(2) policy_of_def policy_set_db_def row_find_upsert stored_policy_def)
  with 2 \<open>ct_db w' = ct_db w2\<close> show ?thesis by (auto simp: stored_policy_def)
qed

lemma policy_set_effect:
  "p_DeviceID p \<in> device_ids db \<Longrightarrow> registry_effect k db (policy_set_db p t db)"
  unfolding policy_set_db_def by (rule registry_effect.policy_set) auto

lemma Reg_UpsertPolicy_effect:
  assumes "Reg_UpsertPolicy input w = (r, w')"
  shows "registry_effects k (ct_db w) (ct_db w')"
  using Reg_UpsertPolicy_cases [OF assms] policy_set_effect by auto

lemma Reg_ResetPolicy_cases:
  assumes "Reg_ResetPolicy i revision w = (r, w')"
  shows "(\<exists>e. r = Inl e) \<and> ct_db w' = ct_db w \<or>
    (\<exists>t. r = Inr () \<and> strings_TrimSpace i \<in> device_ids (ct_db w)
      \<and> ct_db w' = map_device (strings_TrimSpace i) (policy_changed revision t)
          ((ct_db w)\<lparr>c_policies := row_delete p_DeviceID (strings_TrimSpace i) (c_policies (ct_db w))\<rparr>))"
proof (cases r)
  case (Inl e)
  with assms show ?thesis
    by (auto simp: Reg_ResetPolicy_def Let_def split: prod.splits if_splits dest!: ctl_Now_db ctl_tx_Inl)
next
  case (Inr u)
  with assms show ?thesis
    by (auto simp: Reg_ResetPolicy_def Let_def split: prod.splits if_splits
        dest!: ctl_Now_db policy_write_effect)
qed

lemma Reg_ResetPolicy_effect:
  assumes "Reg_ResetPolicy i revision w = (r, w')"
  shows "registry_effects k (ct_db w) (ct_db w')"
  using Reg_ResetPolicy_cases [OF assms] registry_effect.policy_reset by auto


section \<open>Actions and diagnostics\<close>

lemma touch_device_Inr:
  "touch_device i t w = (Inr u, w') \<Longrightarrow> ct_db w' = map_device i (touched t) (ct_db w)"
  by (auto simp: touch_device_def split: prod.splits sum.splits dest!: update_device_Inr)

definition enqueued_db :: "bool \<Rightarrow> DeviceActionRecord \<Rightarrow> int \<Rightarrow> ctldb \<Rightarrow> ctldb" where
  "enqueued_db replace a t db = map_device (a_DeviceID a) (touched t)
    (db\<lparr>c_actions := cancelled_if replace (a_DeviceID a) (a_ActionType a) t (c_actions db) @ [a]\<rparr>)"

lemma cancel_similar_ids [simp]: "a_ActionID ` set (cancel_similar i ty t rs) = a_ActionID ` set rs"
proof -
  have "map a_ActionID (cancel_similar i ty t rs) = map a_ActionID rs"
    by (auto simp: cancel_similar_def)
  from arg_cong [OF this, of set] show ?thesis by simp
qed

lemma enqueue_tx_Inr:
  assumes "enqueue_tx replace row t w = (Inr a, w')"
  shows "a = row \<and> a_ActionID row \<notin> a_ActionID ` set (c_actions (ct_db w))
    \<and> ct_db w' = enqueued_db replace row t (ct_db w)"
proof -
  obtain n w1 where 1: "(if replace
           then ctl_exec (\<lambda>db. Inr (0, db\<lparr>c_actions :=
                  cancel_similar (a_DeviceID row) (a_ActionType row) t (c_actions db)\<rparr>)) w
           else (Inr 0, w)) = (Inr n, w1)"
    using assms by (auto simp: enqueue_tx_def split: prod.splits sum.splits)
  then have db1: "ct_db w1 = (ct_db w)\<lparr>c_actions :=
      cancelled_if replace (a_DeviceID row) (a_ActionType row) t (c_actions (ct_db w))\<rparr>"
    by (auto simp: cancelled_if_def split: if_splits dest!: ctl_exec_total)
  have ids: "a_ActionID ` set (cancelled_if replace i ty t rs) = a_ActionID ` set rs" for i ty t rs
    by (simp add: cancelled_if_def)
  show ?thesis
    using assms unfolding enqueue_tx_def 1
    by (auto simp: db1 ids enqueued_db_def split: prod.splits sum.splits
        dest!: ctl_exec_insert touch_device_Inr)
qed

lemma hex_digit_not_space: "\<not> is_space (hex_digit n)"
proof -
  have "\<forall>c\<in>set ''0123456789abcdef''. \<not> is_space c" by code_simp
  moreover have "hex_digit n \<in> set ''0123456789abcdef''"
    unfolding hex_digit_def by (rule nth_mem) simp
  ultimately show ?thesis by blast
qed

lemma TrimSpace_no_space: "(\<And>c. c \<in> set s \<Longrightarrow> \<not> is_space c) \<Longrightarrow> strings_TrimSpace s = s"
proof -
  assume a: "\<And>c. c \<in> set s \<Longrightarrow> \<not> is_space c"
  have *: "dropWhile is_space t = t" if "\<And>c. c \<in> set t \<Longrightarrow> \<not> is_space c" for t
    using that by (cases t) auto
  have "dropWhile is_space s = s" "dropWhile is_space (rev s) = rev s" by (rule *; use a in simp)+
  then show ?thesis by (simp add: strings_TrimSpace_def trim_left_def trim_right_def)
qed

lemma TrimSpace_hex [simp]: "strings_TrimSpace (hex_EncodeToString bs) = hex_EncodeToString bs"
  by (rule TrimSpace_no_space) (auto simp: hex_EncodeToString_def hex_digit_not_space)

lemma newRandomID_trimmed: "newRandomID w = (Inr i, w') \<Longrightarrow> strings_TrimSpace i = i"
  by (auto simp: newRandomID_def split: list.splits option.splits)

lemma Reg_EnqueueAction_Inr:
  assumes "Reg_EnqueueAction input w = (Inr a, w')"
  shows "\<exists>actionID t. a = new_action input actionID t \<and> actionID \<notin> a_ActionID ` set (c_actions (ct_db w))
    \<and> strings_TrimSpace actionID = actionID
    \<and> ct_db w' = enqueued_db (q_ReplaceSimilarPending input) a t (ct_db w)"
proof -
  obtain actionID w1 where 1: "newRandomID w = (Inr actionID, w1)"
    using assms by (auto simp: Reg_EnqueueAction_def split: prod.splits sum.splits if_splits)
  obtain now w2 where 2: "ctl_Now w1 = (now, w2)" by force
  let ?a = "new_action input actionID (time_Unix now)"
  have db2: "ct_db w2 = ct_db w" using newRandomID_db [OF 1] ctl_Now_db [OF 2] by simp
  have "ctl_tx (enqueue_tx (q_ReplaceSimilarPending input) ?a (time_Unix now)) w2 = (Inr a, w')"
    using assms 1 2 by (auto simp: Reg_EnqueueAction_def split: if_splits)
  then obtain w3 w4 where "ct_db w3 = ct_db w2"
    "enqueue_tx (q_ReplaceSimilarPending input) ?a (time_Unix now) w3 = (Inr a, w4)" "ct_db w' = ct_db w4"
    by (rule ctl_tx_Inr)
  then have "a = ?a" "a_ActionID ?a \<notin> a_ActionID ` set (c_actions (ct_db w))"
    "ct_db w' = enqueued_db (q_ReplaceSimilarPending input) ?a (time_Unix now) (ct_db w)"
    using enqueue_tx_Inr db2 by metis+
  then show ?thesis
    using newRandomID_trimmed [OF 1] by (metis DeviceActionRecord.select_convs(1) new_action_def)
qed

lemma Reg_EnqueueAction_Inl:
  "Reg_EnqueueAction input w = (Inl e, w') \<Longrightarrow> ct_db w' = ct_db w"
  by (auto simp: Reg_EnqueueAction_def Let_def split: prod.splits sum.splits if_splits
      dest!: newRandomID_db ctl_Now_db ctl_tx_Inl)

lemma Reg_EnqueueAction_effect:
  assumes "Reg_EnqueueAction input w = (r, w')"
    and "strings_TrimSpace (q_DeviceID input) \<in> device_ids (ct_db w)"
  shows "registry_effects k (ct_db w) (ct_db w')"
proof (cases r)
  case (Inl e)
  with assms Reg_EnqueueAction_Inl show ?thesis by fastforce
next
  case (Inr a)
  obtain actionID t where a: "a = new_action input actionID t"
    "actionID \<notin> a_ActionID ` set (c_actions (ct_db w))" "strings_TrimSpace actionID = actionID"
    "ct_db w' = enqueued_db (q_ReplaceSimilarPending input) a t (ct_db w)"
    using Reg_EnqueueAction_Inr assms(1) unfolding Inr by blast
  have "registry_effect k (ct_db w) (ct_db w')"
    unfolding a(4) enqueued_db_def
    by (rule registry_effect.enqueued) (use a assms(2) in \<open>auto simp: new_action_def\<close>)
  then show ?thesis by simp
qed

lemma Reg_MarkActionsDelivered_Inr:
  "Reg_MarkActionsDelivered ids w = (Inr u, w') \<Longrightarrow> \<exists>t. ct_db w' =
    (ct_db w)\<lparr>c_actions := mark_delivered (map strings_TrimSpace ids) t (c_actions (ct_db w))\<rparr>"
  by (auto simp: Reg_MarkActionsDelivered_def mark_delivered_def split: prod.splits sum.splits if_splits
      dest!: ctl_exec_total ctl_Now_db)

lemma Reg_MarkActionsDelivered_Inl:
  "Reg_MarkActionsDelivered ids w = (Inl e, w') \<Longrightarrow> ct_db w' = ct_db w"
  by (auto simp: Reg_MarkActionsDelivered_def split: prod.splits sum.splits if_splits
      dest!: ctl_exec_Inl ctl_Now_db)

lemma Reg_MarkActionsDelivered_effect:
  assumes "Reg_MarkActionsDelivered ids w = (r, w')"
  shows "registry_effects k (ct_db w) (ct_db w')"
proof (cases r)
  case (Inl e)
  with assms Reg_MarkActionsDelivered_Inl show ?thesis by fastforce
next
  case (Inr u)
  with assms obtain t where "ct_db w' =
      (ct_db w)\<lparr>c_actions := mark_delivered (map strings_TrimSpace ids) t (c_actions (ct_db w))\<rparr>"
    using Reg_MarkActionsDelivered_Inr by blast
  then have "registry_effect k (ct_db w) (ct_db w')" by (simp add: registry_effect.delivered)
  then show ?thesis by simp
qed

definition diagnosed_db :: "DeviceDiagnosticRecord \<Rightarrow> int \<Rightarrow> int \<Rightarrow> ctldb \<Rightarrow> ctldb" where
  "diagnosed_db g k t db = map_device (g_DeviceID g) (touched t)
    (db\<lparr>c_diagnostics := trim_diagnostics (g_DeviceID g) k (c_diagnostics db @ [g])\<rparr>)"

lemma diagnostic_tx_Inr:
  assumes "diagnostic_tx row k t w = (Inr g, w')"
  shows "g = row \<and> g_DiagnosticsID row \<notin> g_DiagnosticsID ` set (c_diagnostics (ct_db w))
    \<and> ct_db w' = diagnosed_db row k t (ct_db w)"
proof -
  have ok: "\<not> (g_Payload row = [] \<and> ct_NilIsNull w)"
    using assms by (auto simp: diagnostic_tx_def split: prod.splits sum.splits dest!: ctl_exec_Inr)
  show ?thesis
    using assms unfolding diagnostic_tx_def if_not_P [OF ok]
    by (auto simp: diagnosed_db_def split: prod.splits sum.splits
        dest!: ctl_exec_total ctl_exec_insert touch_device_Inr)
qed

lemma Reg_InsertDiagnostic_Inr:
  assumes "Reg_InsertDiagnostic input keepLatest w = (Inr g, w')"
  shows "\<exists>i t. g = new_diagnostic input i t \<and> i \<notin> g_DiagnosticsID ` set (c_diagnostics (ct_db w))
    \<and> ct_db w' = diagnosed_db g (keep_of keepLatest) t (ct_db w)"
proof -
  obtain i w1 where 1: "diagnostic_id input w = (Inr i, w1)"
    using assms by (auto simp: Reg_InsertDiagnostic_def split: prod.splits sum.splits if_splits)
  obtain now w2 where 2: "ctl_Now w1 = (now, w2)" by force
  let ?g = "new_diagnostic input i (time_Unix now)"
  have db2: "ct_db w2 = ct_db w"
    using 1 ctl_Now_db [OF 2] by (auto simp: diagnostic_id_def Let_def split: if_splits dest: newRandomID_db)
  have "ctl_tx (diagnostic_tx ?g (keep_of keepLatest) (time_Unix now)) w2 = (Inr g, w')"
    using assms 1 2 by (auto simp: Reg_InsertDiagnostic_def split: if_splits)
  then obtain w3 w4 where "ct_db w3 = ct_db w2"
    "diagnostic_tx ?g (keep_of keepLatest) (time_Unix now) w3 = (Inr g, w4)" "ct_db w' = ct_db w4"
    by (rule ctl_tx_Inr)
  then have "g = ?g" "g_DiagnosticsID ?g \<notin> g_DiagnosticsID ` set (c_diagnostics (ct_db w))"
    "ct_db w' = diagnosed_db ?g (keep_of keepLatest) (time_Unix now) (ct_db w)"
    using diagnostic_tx_Inr db2 by metis+
  then show ?thesis by (metis DeviceDiagnosticRecord.select_convs(1) new_diagnostic_def)
qed

lemma Reg_InsertDiagnostic_Inl:
  "Reg_InsertDiagnostic input keepLatest w = (Inl e, w') \<Longrightarrow> ct_db w' = ct_db w"
  by (auto simp: Reg_InsertDiagnostic_def diagnostic_id_def Let_def split: prod.splits sum.splits if_splits
      dest!: newRandomID_db ctl_Now_db ctl_tx_Inl)

lemma diagnosed_effect:
  assumes "g_DeviceID g \<in> device_ids db" "g_DiagnosticsID g \<notin> g_DiagnosticsID ` set (c_diagnostics db)"
  shows "registry_effect k db (diagnosed_db g k t db)"
  unfolding diagnosed_db_def by (rule registry_effect.diagnosed) (use assms in auto)

lemma Reg_InsertDiagnostic_effect:
  assumes "Reg_InsertDiagnostic input keepLatest w = (r, w')"
    and "strings_TrimSpace (g_DeviceID input) \<in> device_ids (ct_db w)"
  shows "registry_effects (keep_of keepLatest) (ct_db w) (ct_db w')"
proof (cases r)
  case (Inl e)
  with assms Reg_InsertDiagnostic_Inl show ?thesis by fastforce
next
  case (Inr g)
  then obtain i t where "g = new_diagnostic input i t" "i \<notin> g_DiagnosticsID ` set (c_diagnostics (ct_db w))"
    "ct_db w' = diagnosed_db g (keep_of keepLatest) t (ct_db w)"
    using Reg_InsertDiagnostic_Inr assms(1) by blast
  then have "registry_effect (keep_of keepLatest) (ct_db w) (ct_db w')"
    using assms(2) by (auto simp: new_diagnostic_def intro: diagnosed_effect)
  then show ?thesis by simp
qed

end
