(* ===== verification/ControlLaws.thy ===== *)
theory ControlLaws
  imports RegistryLaws
begin

text \<open>
  The control plane as a state machine: the calls of both services as steps, the states they
  reach, the invariant of the tables and the life of an action.
\<close>

section \<open>Handlers commit registry effects\<close>

text \<open>Where the state moves by a relation that composes, a sequence of calls does.\<close>

locale state_relation =
  fixes R :: "ctldb \<Rightarrow> ctldb \<Rightarrow> bool"
  assumes R_refl: "R d d"
    and R_trans: "R d d1 \<Longrightarrow> R d1 d2 \<Longrightarrow> R d d2"
begin

definition moves :: "(ctl \<Rightarrow> ('e + 'a) \<times> ctl) \<Rightarrow> ctl \<Rightarrow> bool" where
  "moves m w \<longleftrightarrow> (\<forall>r w'. m w = (r, w') \<longrightarrow> R (ct_db w) (ct_db w'))"

lemma movesD: "moves m w \<Longrightarrow> m w = (r, w') \<Longrightarrow> R (ct_db w) (ct_db w')"
  by (auto simp: moves_def)

lemma moves_bind:
  assumes "moves m w" and "\<And>x w1. m w = (Inr x, w1) \<Longrightarrow> moves (k x) w1"
  shows "moves (ctl_bind m k) w"
  unfolding moves_def
proof (intro allI impI)
  fix r w' assume run: "ctl_bind m k w = (r, w')"
  obtain y w1 where y: "m w = (y, w1)" by force
  with assms(1) have 1: "R (ct_db w) (ct_db w1)" by (auto simp: moves_def)
  show "R (ct_db w) (ct_db w')"
  proof (cases y)
    case (Inl e)
    with run y 1 show ?thesis by (auto simp: ctl_bind_def)
  next
    case (Inr x)
    then have "k x w1 = (r, w')" using run y by (simp add: ctl_bind_def)
    moreover have "moves (k x) w1" using y Inr assms(2) by blast
    ultimately show ?thesis using 1 R_trans by (auto simp: moves_def)
  qed
qed

lemma moves_grpc [simp]: "moves (grpc m) w \<longleftrightarrow> moves m w"
  by (fastforce simp: moves_def grpc_def split: prod.splits sum.splits)

lemma moves_still: "(\<And>r w'. m w = (r, w') \<Longrightarrow> ct_db w' = ct_db w) \<Longrightarrow> moves m w"
  unfolding moves_def using R_refl by metis

lemma moves_reply [simp]: "moves (reply x) w" and moves_refuse [simp]: "moves (refuse s) w"
  by (rule moves_still; simp)+

end

interpretation effects: state_relation "registry_effects k"
  by unfold_locales (auto intro: rtranclp_trans)

lemma clientActionToProto_db: "clientActionToProto a d w = (c, w') \<Longrightarrow> ct_db w' = ct_db w"
  by (auto simp: clientActionToProto_def split: prod.splits if_splits dest!: ctl_Now_db)

lemma actions_to_proto_db: "actions_to_proto as d w = (cs, w') \<Longrightarrow> ct_db w' = ct_db w"
  by (induction as d w arbitrary: cs w' rule: actions_to_proto.induct)
    (fastforce split: prod.splits dest: clientActionToProto_db)+

lemma actions_to_proto_ids:
  "actions_to_proto as d w = (cs, w') \<Longrightarrow> map ca_ActionId cs = map a_ActionID as"
  by (induction as d w arbitrary: cs w' rule: actions_to_proto.induct)
    (auto simp: clientActionToProto_def split: prod.splits)

lemma actions_reply_db: "actions_reply as d w = (r, w') \<Longrightarrow> ct_db w' = ct_db w"
  by (auto simp: actions_reply_def split: prod.splits dest!: actions_to_proto_db)

lemma now_reply_db: "now_reply w = (r, w') \<Longrightarrow> ct_db w' = ct_db w"
  by (auto simp: now_reply_def split: prod.splits dest!: ctl_Now_db)

lemma effective_config_db: "effective_config cfg i w = (r, w') \<Longrightarrow> ct_db w' = ct_db w"
  by (auto simp: effective_config_def split: prod.splits sum.splits if_splits dest!: Reg_GetPolicy_db)

lemma Reg_reads_db:
  "Reg_List w = (r1, w') \<Longrightarrow> ct_db w' = ct_db w"
  "Reg_ListDiagnostics i n w = (r2, w') \<Longrightarrow> ct_db w' = ct_db w"
  "listActionsByStatus i ss n w = (r3, w') \<Longrightarrow> ct_db w' = ct_db w"
  by (auto simp: Reg_List_def Reg_ListDiagnostics_def listActionsByStatus_def Let_def
      split: if_splits dest!: ctl_query_db)

lemma Reg_ListActions_db:
  "Reg_ListPendingActions i n w = (r1, w') \<Longrightarrow> ct_db w' = ct_db w"
  "Reg_ListActiveActions i n w = (r2, w') \<Longrightarrow> ct_db w' = ct_db w"
  by (simp_all add: Reg_ListPendingActions_def Reg_ListActiveActions_def Reg_reads_db)

lemmas reads_db = Reg_Get_db Reg_GetPolicy_db Reg_reads_db Reg_ListActions_db actions_reply_db
  now_reply_db effective_config_db

lemma registry_moves:
  "effects.moves k (Reg_Register a) w" "effects.moves k (Reg_UpdateHeartbeat b) w"
  "effects.moves k (Reg_UpdateSyncState c) w" "effects.moves k (Reg_UpdateMountState d) w"
  "effects.moves k (Reg_MarkPolicyPulled i) w" "effects.moves k (Reg_UpsertPolicy p) w"
  "effects.moves k (Reg_ResetPolicy i revision) w" "effects.moves k (Reg_MarkActionsDelivered ids) w"
  unfolding effects.moves_def
  by (intro allI impI, erule Reg_Register_effect Reg_UpdateHeartbeat_effect Reg_UpdateSyncState_effect
    Reg_UpdateMountState_effect Reg_MarkPolicyPulled_effect Reg_UpsertPolicy_effect
    Reg_ResetPolicy_effect Reg_MarkActionsDelivered_effect)+

lemma reads_move:
  "effects.moves k (Reg_Get i) w" "effects.moves k Reg_List w" "effects.moves k (Reg_ListDiagnostics i n) w"
  "effects.moves k (Reg_ListPendingActions i n) w" "effects.moves k (Reg_ListActiveActions i n) w"
  "effects.moves k (actions_reply as b) w" "effects.moves k now_reply w"
  "effects.moves k (effective_config cfg i) w"
  by (rule effects.moves_still, erule reads_db)+

lemmas all_move = registry_moves reads_move effects.moves_reply effects.moves_refuse

lemma Control_moves:
  "effects.moves k (Control_RegisterDevice cfg a) w"
  "effects.moves k (Control_Heartbeat b) w"
  "effects.moves k (Control_GetAssignedConfig cfg i) w"
  "effects.moves k (Control_ReportSyncState c) w"
  "effects.moves k (Control_ReportMountState d) w"
  by (auto simp: Control_RegisterDevice_def Control_Heartbeat_def Control_GetAssignedConfig_def
      Control_ReportSyncState_def Control_ReportMountState_def Let_def all_move
      intro!: effects.moves_bind)

lemma Admin_moves:
  "effects.moves k Admin_ListDevices w" "effects.moves k (Admin_GetDeviceDetail cfg i) w"
  "effects.moves k (policy_check u) w" "effects.moves k (policy_write cfg u revision) w"
  by (auto simp: Admin_ListDevices_def Admin_GetDeviceDetail_def policy_check_def policy_write_def
      Let_def all_move split: option.splits intro!: effects.moves_bind)

lemma Admin_UpdateDevicePolicy_moves: "effects.moves k (Admin_UpdateDevicePolicy cfg u) w"
  by (auto simp: Admin_UpdateDevicePolicy_def Admin_moves intro!: effects.moves_bind)

lemma Reg_Get_registered: "Reg_Get i w = (Inr d, w1) \<Longrightarrow> strings_TrimSpace i \<in> device_ids (ct_db w1)"
  using Reg_Get_Inr device_of_Some_ids by metis

lemma Control_UploadDiagnostics_moves:
  "effects.moves (keep_of (cp_DiagnosticsKeepLatest cfg)) (Control_UploadDiagnostics cfg u) w"
proof -
  have "effects.moves (keep_of (cp_DiagnosticsKeepLatest cfg)) (Reg_InsertDiagnostic g (cp_DiagnosticsKeepLatest cfg)) w1"
    if "strings_TrimSpace (g_DeviceID g) \<in> device_ids (ct_db w1)" for g w1
    unfolding effects.moves_def using Reg_InsertDiagnostic_effect that by blast
  then show ?thesis
    by (auto simp: Control_UploadDiagnostics_def Let_def all_move intro!: effects.moves_bind
        dest!: Reg_Get_registered)
qed

lemma Admin_RequestClientAction_moves: "effects.moves k (Admin_RequestClientAction q) w"
proof -
  have 1: "effects.moves k (Reg_EnqueueAction g) w1"
    if "strings_TrimSpace (q_DeviceID g) \<in> device_ids (ct_db w1)" for g w1
    unfolding effects.moves_def using Reg_EnqueueAction_effect that by blast
  have 2: "effects.moves k (\<lambda>w. case clientActionToProto a False w of (c, w1) \<Rightarrow> (Inr c, w1)) w1" for a w1
    by (rule effects.moves_still) (auto split: prod.splits dest!: clientActionToProto_db)
  show ?thesis
    by (auto simp: Admin_RequestClientAction_def Let_def all_move 1 2 intro!: effects.moves_bind
        dest!: Reg_Get_registered)
qed


section \<open>The state machine\<close>

text \<open>
  A call of either service is a step, whatever it returns; between calls the clock, the random
  source and the faults to come may be anything. The two halves of \<open>UpdateDevicePolicy\<close> are
  steps of their own, the write with any revision, so other calls may run between them.
\<close>

definition empty_ctldb :: ctldb where
  "empty_ctldb = \<lparr>c_devices = [], c_policies = [], c_actions = [], c_diagnostics = []\<rparr>"

inductive control_step :: "ControlPlaneConfig \<Rightarrow> ctl \<Rightarrow> ctl \<Rightarrow> bool" for cfg where
  RegisterDevice: "Control_RegisterDevice cfg a w = (r, w') \<Longrightarrow> control_step cfg w w'"
| Heartbeat: "Control_Heartbeat b w = (r, w') \<Longrightarrow> control_step cfg w w'"
| GetAssignedConfig: "Control_GetAssignedConfig cfg i w = (r, w') \<Longrightarrow> control_step cfg w w'"
| ReportSyncState: "Control_ReportSyncState c w = (r, w') \<Longrightarrow> control_step cfg w w'"
| ReportMountState: "Control_ReportMountState d w = (r, w') \<Longrightarrow> control_step cfg w w'"
| UploadDiagnostics: "Control_UploadDiagnostics cfg u w = (r, w') \<Longrightarrow> control_step cfg w w'"
| ListDevices: "Admin_ListDevices w = (r, w') \<Longrightarrow> control_step cfg w w'"
| GetDeviceDetail: "Admin_GetDeviceDetail cfg i w = (r, w') \<Longrightarrow> control_step cfg w w'"
| CheckPolicy: "policy_check p w = (r, w') \<Longrightarrow> control_step cfg w w'"
| WritePolicy: "policy_write cfg p revision w = (r, w') \<Longrightarrow> control_step cfg w w'"
| UpdateDevicePolicy: "Admin_UpdateDevicePolicy cfg p w = (r, w') \<Longrightarrow> control_step cfg w w'"
| RequestClientAction: "Admin_RequestClientAction q w = (r, w') \<Longrightarrow> control_step cfg w w'"
| environment: "ct_db w' = ct_db w \<Longrightarrow> control_step cfg w w'"

abbreviation control_steps :: "ControlPlaneConfig \<Rightarrow> ctl \<Rightarrow> ctl \<Rightarrow> bool" where
  "control_steps cfg \<equiv> (control_step cfg)\<^sup>*\<^sup>*"

inductive control_reach :: "ControlPlaneConfig \<Rightarrow> ctl \<Rightarrow> bool" for cfg where
  start: "ct_db w = empty_ctldb \<Longrightarrow> control_reach cfg w"
| step: "control_reach cfg w \<Longrightarrow> control_step cfg w w' \<Longrightarrow> control_reach cfg w'"

abbreviation kept :: "ControlPlaneConfig \<Rightarrow> int" where
  "kept cfg \<equiv> keep_of (cp_DiagnosticsKeepLatest cfg)"

lemma control_step_effects:
  "control_step cfg w w' \<Longrightarrow> registry_effects (kept cfg) (ct_db w) (ct_db w')"
proof (induction rule: control_step.induct)
  case (environment w' w)
  then show ?case by simp
qed (erule effects.movesD [rotated], rule Control_moves Admin_moves Admin_UpdateDevicePolicy_moves
    Control_UploadDiagnostics_moves Admin_RequestClientAction_moves)+

lemma control_steps_effects:
  "control_steps cfg w w' \<Longrightarrow> registry_effects (kept cfg) (ct_db w) (ct_db w')"
  by (induction rule: rtranclp_induct) (auto dest: control_step_effects intro: rtranclp_trans)

section \<open>The invariant of the tables\<close>

definition ids_unique :: "ctldb \<Rightarrow> bool" where
  "ids_unique db \<longleftrightarrow> distinct (map d_DeviceID (c_devices db)) \<and> distinct (map p_DeviceID (c_policies db))
    \<and> distinct (map a_ActionID (c_actions db)) \<and> distinct (map g_DiagnosticsID (c_diagnostics db))"

definition policies_current :: "ctldb \<Rightarrow> bool" where
  "policies_current db \<longleftrightarrow> (\<forall>p\<in>set (c_policies db).
    map_option d_PolicyRevision (device_of db (p_DeviceID p)) = Some (p_PolicyRevision p))"

definition actions_valid :: "ctldb \<Rightarrow> bool" where
  "actions_valid db \<longleftrightarrow> (\<forall>a\<in>set (c_actions db). a_DeviceID a \<in> device_ids db
    \<and> a_Status a \<in> {''pending'', ''delivered'', ''cancelled''}
    \<and> strings_TrimSpace (a_ActionID a) = a_ActionID a)"

definition diagnostics_bounded :: "int \<Rightarrow> ctldb \<Rightarrow> bool" where
  "diagnostics_bounded k db \<longleftrightarrow> (\<forall>g\<in>set (c_diagnostics db). g_DeviceID g \<in> device_ids db
    \<and> int (length (filter (\<lambda>h. g_DeviceID h = g_DeviceID g) (c_diagnostics db))) \<le> k)"

definition ctl_inv :: "int \<Rightarrow> ctldb \<Rightarrow> bool" where
  "ctl_inv k db \<longleftrightarrow> ids_unique db \<and> policies_current db \<and> actions_valid db \<and> diagnostics_bounded k db"

lemma map_device_keys: "(\<And>d. d_DeviceID (f d) = d_DeviceID d) \<Longrightarrow>
    map d_DeviceID (c_devices (map_device i f db)) = map d_DeviceID (c_devices db)"
  by (auto simp: map_device_def)

lemma changed_ids [simp]:
  "d_DeviceID (policy_changed v t d) = d_DeviceID d" "d_DeviceID (touched t d) = d_DeviceID d"
  "d_PolicyRevision (policy_changed v t d) = v" "d_PolicyRevision (touched t d) = d_PolicyRevision d"
  "d_DeviceID (reregister row d) = d_DeviceID d" "d_PolicyRevision (reregister row d) = d_PolicyRevision d"
  by (simp_all add: policy_changed_def touched_def reregister_def)

lemma keeps_identityD:
  "keeps_identity f \<Longrightarrow> d_DeviceID (f d) = d_DeviceID d"
  "keeps_identity f \<Longrightarrow> d_PolicyRevision (f d) = d_PolicyRevision d"
  by (auto simp: keeps_identity_def)

lemma device_of_register_db:
  "device_of (register_db row db) j =
    (if j = d_DeviceID row
     then Some (case device_of db j of None \<Rightarrow> row | Some d \<Rightarrow> reregister row d)
     else device_of db j)"
proof (cases "d_DeviceID row \<in> device_ids db")
  case True
  then obtain d where "device_of db (d_DeviceID row) = Some d"
    using device_of_None by (metis option.exhaust)
  with True show ?thesis by (auto simp: register_db_def device_ids_def)
next
  case False
  then have "device_of db (d_DeviceID row) = None" by (simp add: device_of_None)
  with False show ?thesis
    by (auto simp: register_db_def device_ids_def device_of_def row_find_append split: option.splits)
qed

lemma register_db_other [simp]:
  "c_policies (register_db row db) = c_policies db" "c_actions (register_db row db) = c_actions db"
  "c_diagnostics (register_db row db) = c_diagnostics db"
  by (simp_all add: register_db_def)

lemma device_ids_register_db [simp]:
  "device_ids (register_db row db) = insert (d_DeviceID row) (device_ids db)"
proof (cases "d_DeviceID row \<in> device_ids db")
  case True
  then show ?thesis by (auto simp: register_db_def device_ids_def [symmetric])
next
  case False
  then show ?thesis by (auto simp: register_db_def device_ids_def)
qed

lemma device_of_tables [simp]: "device_of (db\<lparr>c_policies := x\<rparr>) i = device_of db i"
  "device_of (db\<lparr>c_actions := y\<rparr>) i = device_of db i" "device_of (db\<lparr>c_diagnostics := z\<rparr>) i = device_of db i"
  by (simp_all add: device_of_def)

lemma mark_delivered_ids [simp]: "map a_ActionID (mark_delivered ids t rs) = map a_ActionID rs"
  by (auto simp: mark_delivered_def)

lemma cancelled_if_ids [simp]: "map a_ActionID (cancelled_if replace i ty t rs) = map a_ActionID rs"
  by (auto simp: cancelled_if_def cancel_similar_def)

lemma ids_unique_effect:
  assumes "registry_effect k db db'" and "ids_unique db"
  shows "ids_unique db'"
  using assms
proof (induction rule: registry_effect.induct)
  case (registered db row)
  then show ?case
    by (auto simp: ids_unique_def register_db_def map_device_keys)
next
  case (enqueued i db a t replace)
  then have "a_ActionID a \<notin> set (map a_ActionID (cancelled_if replace i (a_ActionType a) t (c_actions db)))"
    by (simp only: cancelled_if_ids set_map not_False_eq_True)
  with enqueued show ?case by (simp add: ids_unique_def map_device_keys)
next
  case (diagnosed i db g t)
  then show ?case
    by (auto simp: ids_unique_def map_device_keys trim_diagnostics_def distinct_map inj_on_def)
qed (auto simp: ids_unique_def map_device_keys keeps_identityD intro: row_upsert_keys row_delete_keys)

lemma policies_current_effect:
  assumes "registry_effect k db db'" and "policies_current db"
  shows "policies_current db'"
  using assms
proof (induction rule: registry_effect.induct)
  case (registered db row)
  then show ?case
    by (auto simp: policies_current_def device_of_register_db split: option.splits)
next
  case (device f db i)
  then show ?case
    by (auto simp: policies_current_def keeps_identityD option.map_comp comp_def)
next
  case (policy_set i db p t)
  then obtain d where "device_of db i = Some d" using device_of_None by (metis option.exhaust)
  with policy_set show ?case
    by (auto simp: policies_current_def row_upsert_def image_iff split: if_splits)
next
  case (policy_reset i db revision t)
  then show ?case by (auto simp: policies_current_def row_delete_def)
qed (auto simp: policies_current_def option.map_comp comp_def)

lemma actions_valid_effect:
  assumes "registry_effect k db db'" and "actions_valid db"
  shows "actions_valid db'"
  using assms
  by (induction rule: registry_effect.induct)
    (auto simp: actions_valid_def keeps_identityD mark_delivered_def cancelled_if_def cancel_similar_def
      split: if_splits)


lemma filter_filter_and: "filter P (filter Q xs) = filter (\<lambda>x. Q x \<and> P x) xs"
  by (induction xs) auto

lemma recent_diagnostics_set: "set (recent_diagnostics i k rs) \<subseteq> {g \<in> set rs. g_DeviceID g = i}"
  by (auto simp: recent_diagnostics_def dest!: in_set_takeD)

lemma trim_diagnostics_length:
  assumes "distinct (map g_DiagnosticsID rs)"
  shows "length (filter (\<lambda>g. g_DeviceID g = i) (trim_diagnostics i k rs)) \<le> nat k"
proof -
  let ?recent = "g_DiagnosticsID ` set (recent_diagnostics i k rs)"
  let ?left = "filter (\<lambda>g. g_DeviceID g = i) (trim_diagnostics i k rs)"
  have dist: "distinct (map g_DiagnosticsID ?left)"
    using assms by (simp add: trim_diagnostics_def distinct_map_filter)
  have "g_DiagnosticsID ` set ?left \<subseteq> ?recent" unfolding trim_diagnostics_def set_filter by blast
  then have "card (g_DiagnosticsID ` set ?left) \<le> card ?recent" by (intro card_mono) simp_all
  then have "length ?left \<le> card ?recent" using distinct_card [OF dist] by simp
  also have "\<dots> \<le> length (recent_diagnostics i k rs)"
    using card_length [of "map g_DiagnosticsID (recent_diagnostics i k rs)"] by simp
  also have "\<dots> \<le> nat k" by (simp add: recent_diagnostics_def)
  finally show ?thesis .
qed

lemma trim_diagnostics_other:
  "j \<noteq> i \<Longrightarrow> filter (\<lambda>g. g_DeviceID g = j) (trim_diagnostics i k rs) = filter (\<lambda>g. g_DeviceID g = j) rs"
  unfolding trim_diagnostics_def filter_filter_and by (rule filter_cong) auto

lemma trim_diagnostics_subset: "set (trim_diagnostics i k rs) \<subseteq> set rs"
  by (auto simp: trim_diagnostics_def)

lemma diagnostics_bounded_effect:
  assumes "registry_effect k db db'" and "diagnostics_bounded k db" and "0 < k" and "ids_unique db"
  shows "diagnostics_bounded k db'"
  using assms
proof (induction rule: registry_effect.induct)
  case (diagnosed i db g t)
  have unique: "distinct (map g_DiagnosticsID (c_diagnostics db @ [g]))"
    using diagnosed by (auto simp: ids_unique_def)
  show ?case unfolding diagnostics_bounded_def
  proof (intro ballI conjI)
    fix h assume h: "h \<in> set (c_diagnostics (map_device i (touched t)
      (db\<lparr>c_diagnostics := trim_diagnostics i k (c_diagnostics db @ [g])\<rparr>)))"
    then have mem: "h = g \<or> h \<in> set (c_diagnostics db)"
      using trim_diagnostics_subset [of i k "c_diagnostics db @ [g]"] by auto
    with diagnosed show "g_DeviceID h \<in> device_ids (map_device i (touched t)
        (db\<lparr>c_diagnostics := trim_diagnostics i k (c_diagnostics db @ [g])\<rparr>))"
      by (auto simp: diagnostics_bounded_def)
    show "int (length (filter (\<lambda>x. g_DeviceID x = g_DeviceID h) (c_diagnostics (map_device i (touched t)
        (db\<lparr>c_diagnostics := trim_diagnostics i k (c_diagnostics db @ [g])\<rparr>))))) \<le> k"
    proof (cases "g_DeviceID h = i")
      case True
      with trim_diagnostics_length [OF unique, of i k] diagnosed show ?thesis by simp
    next
      case False
      with mem diagnosed show ?thesis
        by (auto simp: trim_diagnostics_other diagnostics_bounded_def)
    qed
  qed
qed (auto simp: diagnostics_bounded_def keeps_identityD)

lemma ctl_inv_effect: "registry_effect k db db' \<Longrightarrow> 0 < k \<Longrightarrow> ctl_inv k db \<Longrightarrow> ctl_inv k db'"
  using ids_unique_effect policies_current_effect actions_valid_effect diagnostics_bounded_effect
  unfolding ctl_inv_def by blast

lemma keep_of_pos: "0 < keep_of n"
  by (simp add: keep_of_def)

lemma ctl_inv_effects: "registry_effects k db db' \<Longrightarrow> 0 < k \<Longrightarrow> ctl_inv k db \<Longrightarrow> ctl_inv k db'"
  by (induction rule: rtranclp_induct) (auto intro: ctl_inv_effect)

lemma ctl_inv_step: "control_step cfg w w' \<Longrightarrow> ctl_inv (kept cfg) (ct_db w) \<Longrightarrow> ctl_inv (kept cfg) (ct_db w')"
  using control_step_effects ctl_inv_effects keep_of_pos by blast

lemma ctl_inv_empty: "ctl_inv k empty_ctldb"
  by (simp add: ctl_inv_def empty_ctldb_def ids_unique_def policies_current_def actions_valid_def
      diagnostics_bounded_def)

lemma control_reach_inv: "control_reach cfg w \<Longrightarrow> ctl_inv (kept cfg) (ct_db w)"
proof (induction rule: control_reach.induct)
  case (start w)
  then show ?case by (simp add: ctl_inv_empty)
next
  case (step w w')
  then show ?case using ctl_inv_step by blast
qed

section \<open>The life of an action\<close>

text \<open>An action that is no longer pending never changes again, and its id is not used again.\<close>

definition settled_kept :: "ctldb \<Rightarrow> ctldb \<Rightarrow> bool" where
  "settled_kept db db' \<longleftrightarrow> {a \<in> set (c_actions db). a_Status a \<noteq> ''pending''} \<subseteq> set (c_actions db')"

lemma settled_effect: "registry_effect k db db' \<Longrightarrow> settled_kept db db'"
  by (induction rule: registry_effect.induct)
    (auto simp: settled_kept_def mark_delivered_def cancelled_if_def cancel_similar_def image_iff)

interpretation settled: state_relation settled_kept
  by unfold_locales (auto simp: settled_kept_def)

lemma settled_effects: "registry_effects k db db' \<Longrightarrow> settled_kept db db'"
  by (induction rule: rtranclp_induct) (auto intro: settled.R_refl settled.R_trans dest: settled_effect)

lemma settled_steps: "control_steps cfg w w' \<Longrightarrow> settled_kept (ct_db w) (ct_db w')"
  using control_steps_effects settled_effects by blast

end
