(* ===== verification/ControlProps.thy ===== *)
theory ControlProps
  imports ControlLaws
begin

text \<open>
  The properties of the control plane: the invariant of its tables, actions delivered at most
  once, policies that reach the device, and what the code does not guarantee.
\<close>

section \<open>Samples\<close>

definition sample_assigned :: AssignedConfig where
  "sample_assigned = \<lparr>ac_MountPath = ''/mnt'', ac_SyncRoots = ['' docs '', ''Docs'', ''src''],
     ac_ConflictPolicy = [], ac_ReadOnly = False, ac_AutoConnect = True, ac_BandwidthLimit = 0,
     ac_LogLevel = [], ac_LargeFileThreshold = 0\<rparr>"

definition sample_config :: ControlPlaneConfig where
  "sample_config = normalizeControlPlaneConfig
    \<lparr>cp_ServerID = ''srv'', cp_DefaultDeviceGroup = [], cp_HeartbeatIntervalSeconds = 0,
     cp_DefaultPolicyRevision = 0, cp_DefaultAssignedConfig = sample_assigned,
     cp_JoinBundle = \<lparr>jb_OverlayProvider = [], jb_OverlayJoinConfigJSON = [],
       jb_ServiceDiscovery = \<lparr>sd_Mode = [], sd_Host = [], sd_Port = 0, sd_UseTLS = False,
         sd_TLSServerName = []\<rparr>, jb_SharedSecret = []\<rparr>,
     cp_AvailableActions = [], cp_DiagnosticsKeepLatest = 1\<rparr>"

definition sample_ctl :: ctl where
  "sample_ctl = \<lparr>ct_db = empty_ctldb, ct_faults = [], ct_clock = 1000 * second, ct_ticks = [],
     ct_rand = map (\<lambda>n. Some [n, 0, 0, 0, 0, 0, 0, 1]) [9, 4, 7, 2], ct_NilIsNull = True\<rparr>"

definition sample_device :: RegisterDeviceRequest where
  "sample_device = \<lparr>rd_DeviceId = ''dev1'', rd_DeviceName = ''Laptop'', rd_DeviceRole = [],
     rd_ClientVersion = [], rd_Platform = [], rd_OverlayProvider = [], rd_OverlayAddress = [],
     rd_Capabilities = [], rd_ServerId = [], rd_DeviceGroup = []\<rparr>"

definition sample_registered :: ctl where
  "sample_registered = snd (Control_RegisterDevice sample_config sample_device sample_ctl)"

definition sample_beat :: DeviceHeartbeat where
  "sample_beat = \<lparr>h_DeviceID = ''dev1'', h_SessionID = ''s'', h_TimestampUnix = 0,
     h_OverlayConnected = True, h_GRPCConnected = True, h_LastSyncTimeUnix = 0, h_LastError = [],
     h_MountState = [], h_SyncStateSummary = []\<rparr>"

definition sample_action :: DeviceActionRequest where
  "sample_action = \<lparr>q_DeviceID = ''dev1'', q_ActionType = ''resync'', q_PayloadJSON = [],
     q_ReplaceSimilarPending = True\<rparr>"

definition sample_update :: UpdateDevicePolicyRequest where
  "sample_update = \<lparr>up_DeviceId = ''dev1'', up_Policy = Some sample_assigned,
     up_ExpectedPolicyRevision = 1, up_ResetToDefault = False\<rparr>"

lemmas sample_defs = sample_assigned_def sample_config_def sample_ctl_def sample_device_def
  sample_registered_def sample_beat_def sample_action_def sample_update_def

lemma sample_reach: "control_reach sample_config sample_registered"
  unfolding sample_registered_def
  by (rule control_reach.step [OF control_reach.start]) (auto simp: sample_ctl_def
      intro: control_step.RegisterDevice prod.collapse [symmetric])

section \<open>The tables\<close>

text \<open>
  Claim C14. In every state the two services reach, whatever calls run, fail or interleave: ids
  are unique in every table, a device's policy carries the device's own revision, actions and
  diagnostics belong to registered devices, an action is pending, delivered or cancelled, and no
  device has more diagnostics than are to be kept.
\<close>

theorem control_plane_invariant:
  assumes "control_reach cfg w"
  shows "ctl_inv (kept cfg) (ct_db w)"
  by (rule control_reach_inv [OF assms])

theorem control_plane_invariant_witness:
  "ctl_inv 1 (ct_db (snd (Admin_UpdateDevicePolicy sample_config sample_update sample_registered)))"
proof -
  have "control_reach sample_config (snd (Admin_UpdateDevicePolicy sample_config sample_update sample_registered))"
    by (rule control_reach.step [OF sample_reach])
      (rule control_step.UpdateDevicePolicy [OF prod.collapse [symmetric]])
  moreover have "kept sample_config = 1" by code_simp
  ultimately show ?thesis using control_plane_invariant by metis
qed

section \<open>Actions\<close>

lemma mark_delivered_id_set:
  "a_ActionID ` set (mark_delivered ids t rs) = a_ActionID ` set rs"
  using mark_delivered_ids [of ids t rs] by (metis list.set_map)

lemma mark_delivered_status:
  assumes "\<forall>a\<in>set as. strings_TrimSpace (a_ActionID a) = a_ActionID a"
    and "b \<in> set (mark_delivered (map strings_TrimSpace (map a_ActionID as)) t rs)"
    and "a_ActionID b \<in> a_ActionID ` set as"
  shows "a_Status b \<noteq> ''pending''"
  using assms by (auto simp: mark_delivered_def split: if_splits)

lemma pending_listed:
  assumes "Reg_ListPendingActions i n w = (Inr as, w')"
  shows "set as \<subseteq> {a \<in> set (c_actions (ct_db w)). a_DeviceID a = strings_TrimSpace i \<and> a_Status a = ''pending''}"
  using assms by (auto simp: Reg_ListPendingActions_def listActionsByStatus_def Let_def
      split: if_splits dest!: ctl_query_Inr in_set_takeD)

lemma Heartbeat_Inr:
  assumes "Control_Heartbeat b w = (Inr resp, w')" and "actions_valid (ct_db w)"
  obtains as where "map ca_ActionId (hr_PendingActionDetails resp) = map a_ActionID as"
    "set as \<subseteq> {a \<in> set (c_actions (ct_db w)). a_Status a = ''pending''}"
    "\<forall>a\<in>set (c_actions (ct_db w')). a_ActionID a \<in> a_ActionID ` set as \<longrightarrow> a_Status a \<noteq> ''pending''"
    "a_ActionID ` set (c_actions (ct_db w')) = a_ActionID ` set (c_actions (ct_db w))"
proof -
  let ?i = "strings_TrimSpace (h_DeviceID b)"
  obtain d w1 as w2 cs w3 u where run: "Reg_UpdateHeartbeat (b\<lparr>h_DeviceID := ?i\<rparr>) w = (Inr d, w1)"
    "Reg_ListPendingActions ?i 16 w1 = (Inr as, w2)" "actions_reply as True w2 = (Inr cs, w3)"
    "Reg_MarkActionsDelivered (map a_ActionID as) w3 = (Inr u, w')" "hr_PendingActionDetails resp = cs"
    using assms(1) unfolding Control_Heartbeat_def Let_def
    by (auto simp: ctl_runs split: if_splits)
  obtain t where marked: "ct_db w' = (ct_db w3)\<lparr>c_actions :=
      mark_delivered (map strings_TrimSpace (map a_ActionID as)) t (c_actions (ct_db w3))\<rparr>"
    using Reg_MarkActionsDelivered_Inr [OF run(4)] by blast
  have same: "c_actions (ct_db w1) = c_actions (ct_db w)"
    using run(1) by (auto simp: Reg_UpdateHeartbeat_def Let_def split: if_splits prod.splits
        dest!: update_and_get_effect ctl_Now_db)
  have reads: "ct_db w3 = ct_db w1" using run(2,3) reads_db by metis
  have as: "set as \<subseteq> {a \<in> set (c_actions (ct_db w)). a_Status a = ''pending''}"
    using pending_listed [OF run(2)] by (auto simp: same)
  then have trimmed: "\<forall>a\<in>set as. strings_TrimSpace (a_ActionID a) = a_ActionID a"
    using assms(2) by (auto simp: actions_valid_def)
  have "map ca_ActionId cs = map a_ActionID as"
    using run(3) by (auto simp: actions_reply_def split: prod.splits dest: actions_to_proto_ids)
  moreover have "\<forall>a\<in>set (c_actions (ct_db w')). a_ActionID a \<in> a_ActionID ` set as \<longrightarrow> a_Status a \<noteq> ''pending''"
    using mark_delivered_status [OF trimmed] by (simp add: marked)
  moreover have "a_ActionID ` set (c_actions (ct_db w')) = a_ActionID ` set (c_actions (ct_db w))"
    by (simp add: marked reads same mark_delivered_id_set)
  ultimately show thesis using as run(5) that by simp
qed



definition sample_requested :: ctl where
  "sample_requested = snd (Admin_RequestClientAction sample_action sample_registered)"

definition sample_delivered :: ctl where
  "sample_delivered = snd (Control_Heartbeat sample_beat sample_requested)"

definition sample_requested_again :: ctl where
  "sample_requested_again = snd (Admin_RequestClientAction sample_action sample_delivered)"


section \<open>Policies\<close>

lemma dedupe_trimmed_idem:
  "seen' \<subseteq> seen \<Longrightarrow> dedupe_trimmed (dedupe_trimmed vs seen) seen' = dedupe_trimmed vs seen"
proof (induction vs seen arbitrary: seen' rule: dedupe_trimmed.induct)
  case (1 seen)
  then show ?case by simp
next
  case (2 v vs seen)
  let ?t = "strings_TrimSpace v" and ?key = "strings_ToLower (strings_TrimSpace v)"
  consider "?t = []" | "?t \<noteq> []" "?key \<in> seen" | "?t \<noteq> []" "?key \<notin> seen" by blast
  then show ?case
  proof cases
    case 1
    with 2 show ?thesis by simp
  next
    case a: 2
    with 2 show ?thesis by simp
  next
    case 3
    have "insert ?key seen' \<subseteq> insert ?key seen" using "2.prems" by auto
    with 3 have "dedupe_trimmed (dedupe_trimmed vs (insert ?key seen)) (insert ?key seen')
        = dedupe_trimmed vs (insert ?key seen)"
      using "2.IH"(3) [OF refl refl] by simp
    with 3 "2.prems" show ?thesis by (auto simp: Let_def)
  qed
qed

lemma normalizeStringList_idem [simp]: "normalizeStringList (normalizeStringList vs) = normalizeStringList vs"
  "marshalStringList (normalizeStringList vs) = normalizeStringList vs"
  by (simp_all add: normalizeStringList_def marshalStringList_def dedupe_trimmed_idem)

lemma ctl_query_quiet: "ct_faults w = [] \<Longrightarrow> ctl_query q w = (q (ct_db w), w)"
  by (simp add: ctl_query_def ctl_fault_def)

lemma ctl_Now_quiet: "ct_faults w = [] \<Longrightarrow> \<exists>t w1. ctl_Now w = (t, w1) \<and> ct_faults w1 = [] \<and> ct_db w1 = ct_db w"
  by (auto simp: ctl_Now_def split: list.splits)

lemma Reg_Get_quiet:
  "ct_faults w = [] \<Longrightarrow> device_of (ct_db w) (strings_TrimSpace i) = Some d \<Longrightarrow> Reg_Get i w = (Inr d, w)"
  by (simp add: Reg_Get_def ctl_query_quiet device_of_def)

lemma effective_config_quiet:
  assumes "ct_faults w = []"
  shows "effective_config cfg i w = (Inr (case policy_of (ct_db w) (strings_TrimSpace i) of
      None \<Rightarrow> cp_DefaultAssignedConfig cfg | Some p \<Rightarrow> assignedConfigFromPolicyRecord p), w)"
  using assms by (auto simp: effective_config_def Reg_GetPolicy_def ctl_query_quiet policy_of_def
      isNotExistError_def split: option.splits)

lemma Reg_MarkPolicyPulled_quiet:
  assumes "ct_faults w = []" and "strings_TrimSpace i \<in> device_ids (ct_db w)"
  shows "\<exists>w' t. Reg_MarkPolicyPulled i w = (Inr (), w') \<and> ct_faults w' = []
    \<and> ct_db w' = map_device (strings_TrimSpace i) (policy_pulled t) (ct_db w)"
proof -
  obtain t w1 where "ctl_Now w = (t, w1)" "ct_faults w1 = []" "ct_db w1 = ct_db w"
    using ctl_Now_quiet [OF assms(1)] by blast
  with assms(2) show ?thesis
    by (auto simp: Reg_MarkPolicyPulled_def update_device_def ctl_exec_def ctl_fault_def
        ensureRowsAffected_def)
qed

lemma policy_of_map_device [simp]: "policy_of (map_device i f db) j = policy_of db j"
  by (simp add: policy_of_def)

lemma GetAssignedConfig_quiet:
  assumes "ct_faults w = []" and "device_of (ct_db w) (strings_TrimSpace i) = Some d"
    and "strings_TrimSpace i \<noteq> []"
  shows "\<exists>w' t. Control_GetAssignedConfig cfg i w =
      (Inr (case policy_of (ct_db w) (strings_TrimSpace i) of
          None \<Rightarrow> cp_DefaultAssignedConfig cfg | Some p \<Rightarrow> assignedConfigFromPolicyRecord p,
        d_PolicyRevision d), w')
    \<and> ct_db w' = map_device (strings_TrimSpace i) (policy_pulled t) (ct_db w)"
proof -
  have "strings_TrimSpace i \<in> device_ids (ct_db w)" using assms(2) device_of_Some_ids by blast
  then obtain w1 t where 1: "Reg_MarkPolicyPulled (strings_TrimSpace i) w = (Inr (), w1)" "ct_faults w1 = []"
    "ct_db w1 = map_device (strings_TrimSpace i) (policy_pulled t) (ct_db w)"
    using Reg_MarkPolicyPulled_quiet [OF assms(1), of "strings_TrimSpace i"] by auto
  have 0: "Reg_Get (strings_TrimSpace i) w = (Inr d, w)"
    by (rule Reg_Get_quiet) (use assms in simp_all)
  note 2 = effective_config_quiet [OF 1(2), of cfg "strings_TrimSpace i"]
  show ?thesis
    using assms(3) 1(3)
    by (auto simp: Control_GetAssignedConfig_def Let_def ctl_bind_def grpc_def 0 1(1) 2 reply_def)
qed

lemma UpdateDevicePolicy_Inr:
  assumes "Admin_UpdateDevicePolicy cfg req w = (Inr resp, w')"
  obtains d t where "strings_TrimSpace (up_DeviceId req) \<noteq> []"
    "device_of (ct_db w) (strings_TrimSpace (up_DeviceId req)) = Some d"
    "up_ExpectedPolicyRevision req \<in> {0, d_PolicyRevision d}"
    "us_PolicyRevision resp = next_revision (d_PolicyRevision d)"
    "device_of (ct_db w') (strings_TrimSpace (up_DeviceId req)) =
       Some (policy_changed (us_PolicyRevision resp) t d)"
    "(case policy_of (ct_db w') (strings_TrimSpace (up_DeviceId req)) of
        None \<Rightarrow> cp_DefaultAssignedConfig cfg | Some p \<Rightarrow> assignedConfigFromPolicyRecord p)
      = us_EffectivePolicy resp"
proof -
  let ?i = "strings_TrimSpace (up_DeviceId req)"
  obtain rev' w1 where run: "policy_check req w = (Inr rev', w1)" "policy_write cfg req rev' w1 = (Inr resp, w')"
    using assms by (auto simp: Admin_UpdateDevicePolicy_def ctl_runs)
  obtain d where d: "?i \<noteq> []" "Reg_Get ?i w = (Inr d, w1)" "rev' = next_revision (d_PolicyRevision d)"
    "up_ExpectedPolicyRevision req \<in> {0, d_PolicyRevision d}"
    using run(1) by (auto simp: policy_check_def Let_def ctl_runs split: if_splits)
  have old: "device_of (ct_db w) ?i = Some d" "ct_db w1 = ct_db w"
    using Reg_Get_Inr [OF d(2)] by auto
  show thesis
  proof (cases "up_ResetToDefault req")
    case True
    then have r: "Reg_ResetPolicy ?i rev' w1 = (Inr (), w')" "us_PolicyRevision resp = rev'"
      "us_EffectivePolicy resp = cp_DefaultAssignedConfig cfg"
      using run(2) by (auto simp: policy_write_def Let_def ctl_runs)
    obtain t where "ct_db w' = map_device ?i (policy_changed rev' t)
        ((ct_db w)\<lparr>c_policies := row_delete p_DeviceID ?i (c_policies (ct_db w))\<rparr>)"
      using Reg_ResetPolicy_cases [OF r(1)] old(2) by auto
    with d old r show thesis
      by (intro that [of d t]) (auto simp: policy_of_def row_find_delete)
  next
    case False
    obtain policy where p: "up_Policy req = Some policy"
      using run(2) False by (auto simp: policy_write_def Let_def split: option.splits)
    let ?c = "assignedConfigFromProto policy"
    let ?rec = "\<lparr>p_DeviceID = ?i, p_MountPath = ac_MountPath ?c, p_SyncRoots = ac_SyncRoots ?c,
             p_ConflictPolicy = ac_ConflictPolicy ?c, p_ReadOnly = ac_ReadOnly ?c,
             p_AutoConnect = ac_AutoConnect ?c, p_BandwidthLimit = ac_BandwidthLimit ?c,
             p_LogLevel = ac_LogLevel ?c, p_LargeFileThreshold = ac_LargeFileThreshold ?c,
             p_PolicyRevision = rev', p_UpdatedAtUnix = 0\<rparr>"
    obtain q where q: "Reg_UpsertPolicy ?rec w1 = (Inr q, w')" "us_PolicyRevision resp = rev'"
      "us_EffectivePolicy resp = ?c"
      using run(2) False p by (auto simp: policy_write_def Let_def ctl_runs)
    obtain t where t: "q = stored_policy ?rec t" "ct_db w' = policy_set_db q t (ct_db w)"
      using Reg_UpsertPolicy_Inr [OF q(1)] old(2) by auto
    have "assignedConfigFromPolicyRecord q = ?c"
      by (simp add: t(1) assignedConfigFromPolicyRecord_def stored_policy_def assignedConfigFromProto_def)
    with d old q t show thesis
      by (intro that [of d t])
        (auto simp: policy_set_db_def policy_of_def row_find_upsert stored_policy_def)
  qed
qed

lemma next_revision_changes: "next_revision v \<noteq> 0 \<and> next_revision v \<noteq> v"
proof -
  have "v + 1 \<noteq> v" by simp
  moreover have "v + 1 = 0 \<Longrightarrow> v \<noteq> 1" by auto
  ultimately show ?thesis by (auto simp: next_revision_def)
qed


text \<open>
  Claim C16. A policy change reaches the device: when an update succeeds and nothing fails after
  it, the next pull returns exactly the configuration the update reported, under the new
  revision, which is never zero and never the old one, and only then is the pull request cleared.
\<close>

theorem policy_update_reaches_device:
  assumes "Admin_UpdateDevicePolicy cfg req w = (Inr resp, w1)" and "ct_faults w1 = []"
    and "strings_TrimSpace i = strings_TrimSpace (up_DeviceId req)"
  shows "\<exists>old new pulled w2. device_of (ct_db w) (strings_TrimSpace i) = Some old
    \<and> device_of (ct_db w1) (strings_TrimSpace i) = Some new \<and> d_RequiresPolicyPull new
    \<and> us_PolicyRevision resp \<notin> {0, d_PolicyRevision old}
    \<and> Control_GetAssignedConfig cfg i w1 = (Inr (us_EffectivePolicy resp, us_PolicyRevision resp), w2)
    \<and> device_of (ct_db w2) (strings_TrimSpace i) = Some pulled
    \<and> \<not> d_RequiresPolicyPull pulled \<and> d_PolicyRevision pulled = us_PolicyRevision resp"
proof -
  obtain d t where u: "strings_TrimSpace i \<noteq> []" "device_of (ct_db w) (strings_TrimSpace i) = Some d"
    "us_PolicyRevision resp = next_revision (d_PolicyRevision d)"
    "device_of (ct_db w1) (strings_TrimSpace i) = Some (policy_changed (us_PolicyRevision resp) t d)"
    "(case policy_of (ct_db w1) (strings_TrimSpace i) of
        None \<Rightarrow> cp_DefaultAssignedConfig cfg | Some p \<Rightarrow> assignedConfigFromPolicyRecord p)
      = us_EffectivePolicy resp"
    using UpdateDevicePolicy_Inr [OF assms(1)] unfolding assms(3) [symmetric] by metis
  obtain w2 t2 where p: "Control_GetAssignedConfig cfg i w1 =
      (Inr (us_EffectivePolicy resp, us_PolicyRevision resp), w2)"
    "ct_db w2 = map_device (strings_TrimSpace i) (policy_pulled t2) (ct_db w1)"
    using GetAssignedConfig_quiet [OF assms(2) u(4,1), of cfg] unfolding u(5) by auto
  have id: "d_DeviceID (policy_pulled t2 d) = d_DeviceID d" for d by (simp add: policy_pulled_def)
  show ?thesis
    using u(2,4) p next_revision_changes [of "d_PolicyRevision d"]
    by (auto simp: u(3) [symmetric] id policy_pulled_def policy_changed_def)
qed

theorem policy_update_reaches_device_witness:
  "\<exists>resp w1 w2. Admin_UpdateDevicePolicy sample_config sample_update sample_registered = (Inr resp, w1)
    \<and> us_PolicyRevision resp = 2 \<and> ac_SyncRoots (us_EffectivePolicy resp) = [''docs'', ''src'']
    \<and> Control_GetAssignedConfig sample_config ''dev1'' w1 = (Inr (us_EffectivePolicy resp, 2), w2)"
proof -
  have ok: "case Admin_UpdateDevicePolicy sample_config sample_update sample_registered of
      (Inl e, w1) \<Rightarrow> False
    | (Inr r, w1) \<Rightarrow> us_PolicyRevision r = 2 \<and> ac_SyncRoots (us_EffectivePolicy r) = [''docs'', ''src'']
        \<and> ct_faults w1 = []"
    by code_simp
  then obtain resp w1 where r: "Admin_UpdateDevicePolicy sample_config sample_update sample_registered = (Inr resp, w1)"
    "us_PolicyRevision resp = 2" "ac_SyncRoots (us_EffectivePolicy resp) = [''docs'', ''src'']" "ct_faults w1 = []"
    by (auto split: prod.splits sum.splits)
  have "strings_TrimSpace ''dev1'' = strings_TrimSpace (up_DeviceId sample_update)" by code_simp
  from policy_update_reaches_device [OF r(1,4) this] r show ?thesis by auto
qed

text \<open>
  Updates under an expected revision exclude one another when they run one after the
  other: once an update has succeeded, another that expects the revision from before it is
  refused with \<open>FailedPrecondition\<close> and changes nothing.
\<close>

theorem stale_policy_update_refused:
  assumes "Admin_UpdateDevicePolicy cfg req w = (Inr resp, w1)" and "ct_faults w1 = []"
    and "strings_TrimSpace (up_DeviceId req') = strings_TrimSpace (up_DeviceId req)"
    and "device_of (ct_db w) (strings_TrimSpace (up_DeviceId req)) = Some old"
    and "up_ExpectedPolicyRevision req' = d_PolicyRevision old" and "d_PolicyRevision old \<noteq> 0"
  shows "Admin_UpdateDevicePolicy cfg req' w1 =
    (Inl (failedPrecondition ''expected_policy_revision does not match current policy_revision''), w1)"
proof -
  obtain d t where u: "strings_TrimSpace (up_DeviceId req) \<noteq> []"
    "device_of (ct_db w) (strings_TrimSpace (up_DeviceId req)) = Some d"
    "us_PolicyRevision resp = next_revision (d_PolicyRevision d)"
    "device_of (ct_db w1) (strings_TrimSpace (up_DeviceId req)) = Some (policy_changed (us_PolicyRevision resp) t d)"
    using UpdateDevicePolicy_Inr [OF assms(1)] by metis
  have "d = old" using u(2) assms(4) by simp
  with u(3) have changed: "us_PolicyRevision resp \<noteq> d_PolicyRevision old"
    using next_revision_changes by metis
  have "Reg_Get (strings_TrimSpace (up_DeviceId req)) w1 = (Inr (policy_changed (us_PolicyRevision resp) t d), w1)"
    by (rule Reg_Get_quiet) (use assms(2) u(4) in simp_all)
  then show ?thesis
    using u(1) assms(3,5,6) changed
    by (simp add: Admin_UpdateDevicePolicy_def policy_check_def Let_def ctl_bind_def grpc_def
        refuse_def policy_changed_def)
qed

theorem stale_policy_update_refused_witness:
  "\<exists>w1. w1 = snd (Admin_UpdateDevicePolicy sample_config sample_update sample_registered)
    \<and> Admin_UpdateDevicePolicy sample_config sample_update w1 =
    (Inl (failedPrecondition ''expected_policy_revision does not match current policy_revision''), w1)"
proof -
  let ?w1 = "snd (Admin_UpdateDevicePolicy sample_config sample_update sample_registered)"
  have ok: "case Admin_UpdateDevicePolicy sample_config sample_update sample_registered of
      (Inl e, w1) \<Rightarrow> False | (Inr r, w1) \<Rightarrow> ct_faults w1 = []"
    "case device_of (ct_db sample_registered) (strings_TrimSpace (up_DeviceId sample_update)) of
      None \<Rightarrow> False | Some old \<Rightarrow> d_PolicyRevision old = 1 \<and> up_ExpectedPolicyRevision sample_update = 1"
    by code_simp+
  obtain resp where r: "Admin_UpdateDevicePolicy sample_config sample_update sample_registered = (Inr resp, ?w1)"
    "ct_faults ?w1 = []"
    using ok(1) by (cases "Admin_UpdateDevicePolicy sample_config sample_update sample_registered")
      (auto split: sum.splits)
  obtain old where old: "device_of (ct_db sample_registered) (strings_TrimSpace (up_DeviceId sample_update)) = Some old"
    "d_PolicyRevision old = 1" "up_ExpectedPolicyRevision sample_update = 1"
    using ok(2) by (auto split: option.splits)
  have "up_ExpectedPolicyRevision sample_update = d_PolicyRevision old" "d_PolicyRevision old \<noteq> 0"
    using old by simp_all
  from stale_policy_update_refused [OF r refl old(1) this] show ?thesis by blast
qed

definition racing_updates :: "ControlPlaneConfig \<Rightarrow> UpdateDevicePolicyRequest \<Rightarrow> UpdateDevicePolicyRequest
    \<Rightarrow> (UpdateDevicePolicyResponse \<times> UpdateDevicePolicyResponse) crpc" where
  "racing_updates cfg req1 req2 =
    ctl_bind (policy_check req1) (\<lambda>v1. ctl_bind (policy_check req2) (\<lambda>v2.
    ctl_bind (policy_write cfg req1 v1) (\<lambda>r1. ctl_bind (policy_write cfg req2 v2) (\<lambda>r2.
    reply (r1, r2)))))"

definition sample_update2 :: UpdateDevicePolicyRequest where
  "sample_update2 = sample_update\<lparr>up_Policy := Some (sample_assigned\<lparr>ac_MountPath := ''/other''\<rparr>)\<rparr>"

text \<open>
  The check of the expected revision and the write are not one step: two updates that
  expect revision 1 and both check before either writes both succeed, both report revision 2,
  and the first policy is lost.
\<close>

theorem concurrent_policy_updates_both_succeed:
  "\<exists>r1 r2 w. racing_updates sample_config sample_update sample_update2 sample_registered = (Inr (r1, r2), w)
    \<and> us_PolicyRevision r1 = 2 \<and> us_PolicyRevision r2 = 2
    \<and> map_option p_MountPath (policy_of (ct_db w) ''dev1'') = Some ''/other''"
proof -
  have "case racing_updates sample_config sample_update sample_update2 sample_registered of
      (Inl e, w) \<Rightarrow> False
    | (Inr (r1, r2), w) \<Rightarrow> us_PolicyRevision r1 = 2 \<and> us_PolicyRevision r2 = 2
        \<and> map_option p_MountPath (policy_of (ct_db w) ''dev1'') = Some ''/other''"
    by code_simp
  then show ?thesis by (auto split: prod.splits sum.splits)
qed

text \<open>
  A pull that fails may still use up the request for it: when reading the policy fails
  after the flag was cleared, the device gets an error, no configuration, and the table says
  that nothing is left to pull.
\<close>

theorem failed_pull_clears_request:
  "\<exists>s w1. Control_GetAssignedConfig sample_config ''dev1''
      (sample_registered\<lparr>ct_faults := [None, None, Some (ErrorText ''database is locked'')]\<rparr>) = (Inl s, w1)
    \<and> status_code s = Internal
    \<and> map_option d_RequiresPolicyPull (device_of (ct_db sample_registered) ''dev1'') = Some True
    \<and> map_option d_RequiresPolicyPull (device_of (ct_db w1) ''dev1'') = Some False"
proof -
  have "case Control_GetAssignedConfig sample_config ''dev1''
      (sample_registered\<lparr>ct_faults := [None, None, Some (ErrorText ''database is locked'')]\<rparr>) of
      (Inr x, w1) \<Rightarrow> False
    | (Inl s, w1) \<Rightarrow> status_code s = Internal
        \<and> map_option d_RequiresPolicyPull (device_of (ct_db sample_registered) ''dev1'') = Some True
        \<and> map_option d_RequiresPolicyPull (device_of (ct_db w1) ''dev1'') = Some False"
    by code_simp
  then show ?thesis by (auto split: prod.splits sum.splits)
qed


section \<open>Devices\<close>

lemma RegisterDevice_Inr:
  assumes "Control_RegisterDevice cfg req w = (Inr resp, w')"
  obtains row d where "strings_TrimSpace (rd_DeviceId req) \<noteq> []"
    "d_DeviceID row = strings_TrimSpace (rd_DeviceId req)"
    "d_PolicyRevision row = cp_DefaultPolicyRevision cfg" "d_RequiresPolicyPull row"
    "d_DeviceName row = strings_TrimSpace (rd_DeviceName req)"
    "ct_db w' = register_db row (ct_db w)"
    "device_of (ct_db w') (strings_TrimSpace (rd_DeviceId req)) = Some d"
    "rr_PolicyRevision resp = d_PolicyRevision d" "rr_RequiresPolicyPull resp = d_RequiresPolicyPull d"
proof -
  let ?i = "strings_TrimSpace (rd_DeviceId req)"
  obtain input d where r: "?i \<noteq> []" "Reg_Register input w = (Inr d, w')"
    "rr_PolicyRevision resp = d_PolicyRevision d" "rr_RequiresPolicyPull resp = d_RequiresPolicyPull d"
    "r_DeviceID input = ?i" "r_PolicyRevision input = cp_DefaultPolicyRevision cfg"
    "r_RequiresPolicyPull input" "r_DeviceName input = rd_DeviceName req"
    using assms by (auto simp: Control_RegisterDevice_def Let_def ctl_runs split: if_splits)
  obtain now w1 where 1: "ctl_Now w = (now, w1)" by force
  let ?row = "registered_row input (time_Unix now)"
  obtain n w2 where 2: "ctl_exec (\<lambda>db. Inr (1, register_db ?row db)) w1 = (Inr n, w2)" "Reg_Get ?i w2 = (Inr d, w')"
    using r(1,2) 1 by (auto simp: Reg_Register_def Let_def r(5) split: prod.splits sum.splits)
  have db2: "ct_db w2 = register_db ?row (ct_db w)"
    using ctl_exec_total [of "\<lambda>_. 1" "register_db ?row" w1 n w2] 2(1) ctl_Now_db [OF 1] by simp
  show thesis
    by (rule that [of ?row d])
      (use r 2 db2 Reg_Get_Inr [OF 2(2)] in \<open>simp_all add: registered_row_def Let_def\<close>)
qed

text \<open>
  Registering a device again keeps what the operator decided: the policy revision, a
  pull that is still due, the creation time, the policy, the queued actions and the diagnostics;
  only the description of the device is new. A device registered for the first time starts at
  the default revision with a pull due. No other device changes.
\<close>

theorem registering_again_keeps_policy:
  assumes "Control_RegisterDevice cfg req w = (Inr resp, w')"
  shows "\<exists>d. device_of (ct_db w') (strings_TrimSpace (rd_DeviceId req)) = Some d
    \<and> d_DeviceName d = strings_TrimSpace (rd_DeviceName req)
    \<and> rr_PolicyRevision resp = d_PolicyRevision d \<and> rr_RequiresPolicyPull resp = d_RequiresPolicyPull d
    \<and> (case device_of (ct_db w) (strings_TrimSpace (rd_DeviceId req)) of
         None \<Rightarrow> d_PolicyRevision d = cp_DefaultPolicyRevision cfg \<and> d_RequiresPolicyPull d
       | Some old \<Rightarrow> d_PolicyRevision d = d_PolicyRevision old
           \<and> d_RequiresPolicyPull d = d_RequiresPolicyPull old
           \<and> d_CreatedAtUnix d = d_CreatedAtUnix old \<and> d_MountState d = d_MountState old)
    \<and> (\<forall>i. i \<noteq> strings_TrimSpace (rd_DeviceId req) \<longrightarrow> device_of (ct_db w') i = device_of (ct_db w) i)
    \<and> c_policies (ct_db w') = c_policies (ct_db w) \<and> c_actions (ct_db w') = c_actions (ct_db w)
    \<and> c_diagnostics (ct_db w') = c_diagnostics (ct_db w)"
proof -
  obtain row d where r: "d_DeviceID row = strings_TrimSpace (rd_DeviceId req)"
    "d_PolicyRevision row = cp_DefaultPolicyRevision cfg" "d_RequiresPolicyPull row"
    "d_DeviceName row = strings_TrimSpace (rd_DeviceName req)"
    "ct_db w' = register_db row (ct_db w)"
    "device_of (ct_db w') (strings_TrimSpace (rd_DeviceId req)) = Some d"
    "rr_PolicyRevision resp = d_PolicyRevision d" "rr_RequiresPolicyPull resp = d_RequiresPolicyPull d"
    by (rule RegisterDevice_Inr [OF assms])
  have "d = (case device_of (ct_db w) (strings_TrimSpace (rd_DeviceId req)) of
      None \<Rightarrow> row | Some old \<Rightarrow> reregister row old)"
    using r(6) by (simp add: r(5) device_of_register_db r(1))
  moreover have "d_DeviceName d = strings_TrimSpace (rd_DeviceName req)"
    using calculation r(4) by (simp add: reregister_def split: option.splits)
  ultimately show ?thesis
    using r by (auto simp: device_of_register_db reregister_def split: option.splits)
qed

theorem registering_again_keeps_policy_witness:
  "\<exists>resp w'. Control_RegisterDevice sample_config sample_device
      (snd (Admin_UpdateDevicePolicy sample_config sample_update sample_registered)) = (Inr resp, w')
    \<and> rr_PolicyRevision resp = 2 \<and> rr_RequiresPolicyPull resp"
proof -
  let ?w = "snd (Admin_UpdateDevicePolicy sample_config sample_update sample_registered)"
  have ok: "case Control_RegisterDevice sample_config sample_device ?w of (Inl e, w1) \<Rightarrow> False | (Inr r, w1) \<Rightarrow> True"
    "strings_TrimSpace (rd_DeviceId sample_device) = ''dev1''"
    "case device_of (ct_db ?w) ''dev1'' of None \<Rightarrow> False
      | Some old \<Rightarrow> d_PolicyRevision old = 2 \<and> d_RequiresPolicyPull old"
    by code_simp+
  obtain resp w' where r: "Control_RegisterDevice sample_config sample_device ?w = (Inr resp, w')"
    using ok(1) by (cases "Control_RegisterDevice sample_config sample_device ?w") (auto split: sum.splits)
  show ?thesis
    using registering_again_keeps_policy [OF r] r ok(2,3) by (auto split: option.splits)
qed

section \<open>Queued actions\<close>

lemma RequestClientAction_Inr:
  assumes "Admin_RequestClientAction q w = (Inr c, w')"
  obtains a t where "ca_ActionId c = a_ActionID a" "ca_Status c = ''pending''"
    "a_DeviceID a = strings_TrimSpace (q_DeviceID q)" "a_ActionType a = strings_TrimSpace (q_ActionType q)"
    "a_Status a = ''pending''" "strings_TrimSpace (q_DeviceID q) \<in> device_ids (ct_db w)"
    "ct_db w' = enqueued_db (q_ReplaceSimilarPending q) a t (ct_db w)"
proof -
  let ?i = "strings_TrimSpace (q_DeviceID q)"
  obtain d w1 a w2 where run: "Reg_Get ?i w = (Inr d, w1)"
    "Reg_EnqueueAction (q\<lparr>q_DeviceID := ?i\<rparr>) w1 = (Inr a, w2)"
    and last: "(case clientActionToProto a False w2 of (c, w1) \<Rightarrow> (Inr c :: status + ClientAction, w1)) = (Inr c, w')"
    using assms by (auto simp: Admin_RequestClientAction_def Let_def ctl_runs split: if_splits)
  have proto: "clientActionToProto a False w2 = (c, w')" using last by (auto split: prod.splits)
  obtain i t where a: "a = new_action (q\<lparr>q_DeviceID := ?i\<rparr>) i t"
    "ct_db w2 = enqueued_db (q_ReplaceSimilarPending q) a t (ct_db w1)"
    using Reg_EnqueueAction_Inr [OF run(2)] by auto
  have "ct_db w1 = ct_db w" "?i \<in> device_ids (ct_db w)"
    using Reg_Get_Inr [OF run(1)] device_of_Some_ids by auto
  then show thesis
    by (intro that [of a t])
      (use a proto in \<open>auto simp: new_action_def clientActionToProto_def split: prod.splits\<close>)
qed

text \<open>
  Requesting an action with \<open>replace_similar_pending\<close> leaves exactly one pending action
  of that type for that device, the new one; every other action is left as it was.
\<close>

theorem replaced_action_is_the_only_pending:
  assumes "Admin_RequestClientAction q w = (Inr c, w')" and "q_ReplaceSimilarPending q"
  shows "map a_ActionID (filter (\<lambda>a. a_DeviceID a = strings_TrimSpace (q_DeviceID q)
        \<and> a_ActionType a = strings_TrimSpace (q_ActionType q) \<and> a_Status a = ''pending'')
      (c_actions (ct_db w'))) = [ca_ActionId c]
    \<and> filter (\<lambda>a. \<not> (a_DeviceID a = strings_TrimSpace (q_DeviceID q)
        \<and> a_ActionType a = strings_TrimSpace (q_ActionType q))) (c_actions (ct_db w'))
      = filter (\<lambda>a. \<not> (a_DeviceID a = strings_TrimSpace (q_DeviceID q)
        \<and> a_ActionType a = strings_TrimSpace (q_ActionType q))) (c_actions (ct_db w))"
proof -
  obtain a t where a: "ca_ActionId c = a_ActionID a" "a_DeviceID a = strings_TrimSpace (q_DeviceID q)"
    "a_ActionType a = strings_TrimSpace (q_ActionType q)" "a_Status a = ''pending''"
    "ct_db w' = enqueued_db (q_ReplaceSimilarPending q) a t (ct_db w)"
    by (rule RequestClientAction_Inr [OF assms(1)])
  have none: "filter (\<lambda>x. a_DeviceID x = i \<and> a_ActionType x = ty \<and> a_Status x = ''pending'')
      (cancel_similar i ty t rs) = []" for i ty rs
    unfolding cancel_similar_def by (induction rs) simp_all
  have rest: "filter (\<lambda>x. \<not> (a_DeviceID x = i \<and> a_ActionType x = ty)) (cancel_similar i ty t rs)
      = filter (\<lambda>x. \<not> (a_DeviceID x = i \<and> a_ActionType x = ty)) rs" for i ty rs
    unfolding cancel_similar_def by (induction rs) auto
  show ?thesis
    unfolding a(2,3) [symmetric] using a(1,4) assms(2)
    by (simp add: a(5) enqueued_db_def cancelled_if_def none rest del: de_Morgan_conj)
qed

theorem replaced_action_is_the_only_pending_witness:
  "\<exists>c w'. Admin_RequestClientAction sample_action sample_requested = (Inr c, w')
    \<and> map a_ActionID (filter (\<lambda>a. a_Status a = ''pending'') (c_actions (ct_db w'))) = [ca_ActionId c]
    \<and> length (c_actions (ct_db w')) = 2"
proof -
  have ok: "case Admin_RequestClientAction sample_action sample_requested of (Inl e, w') \<Rightarrow> False
      | (Inr c, w') \<Rightarrow> length (c_actions (ct_db w')) = 2
        \<and> (\<forall>a\<in>set (c_actions (ct_db w')). a_DeviceID a = strings_TrimSpace (q_DeviceID sample_action)
            \<and> a_ActionType a = strings_TrimSpace (q_ActionType sample_action))"
    by code_simp
  then obtain c w' where r: "Admin_RequestClientAction sample_action sample_requested = (Inr c, w')"
    "length (c_actions (ct_db w')) = 2"
    and same: "\<forall>a\<in>set (c_actions (ct_db w')). a_DeviceID a = strings_TrimSpace (q_DeviceID sample_action)
      \<and> a_ActionType a = strings_TrimSpace (q_ActionType sample_action)"
    by (auto split: prod.splits sum.splits)
  have "q_ReplaceSimilarPending sample_action" by (simp add: sample_action_def)
  note only = replaced_action_is_the_only_pending [OF r(1) this, THEN conjunct1]
  have "filter (\<lambda>a. a_DeviceID a = strings_TrimSpace (q_DeviceID sample_action)
        \<and> a_ActionType a = strings_TrimSpace (q_ActionType sample_action) \<and> a_Status a = ''pending'')
      (c_actions (ct_db w')) = filter (\<lambda>a. a_Status a = ''pending'') (c_actions (ct_db w'))"
    by (rule filter_cong) (use same in auto)
  with only r show ?thesis by auto
qed


section \<open>Diagnostics\<close>

lemma UploadDiagnostics_Inr:
  assumes "Control_UploadDiagnostics cfg req w = (Inr resp, w')"
  obtains g t where "g_DiagnosticsID g = ur_DiagnosticsId resp"
    "g_DeviceID g = strings_TrimSpace (ud_DeviceId req)" "g_Payload g = ud_Data req"
    "ct_db w' = diagnosed_db g (kept cfg) t (ct_db w)"
    "g_DiagnosticsID g \<notin> g_DiagnosticsID ` set (c_diagnostics (ct_db w))"
proof -
  let ?i = "strings_TrimSpace (ud_DeviceId req)"
  let ?input = "\<lparr>g_DiagnosticsID = [], g_DeviceID = ?i, g_Category = ud_Category req,
          g_ContentType = ud_ContentType req, g_Summary = ud_Summary req, g_Payload = ud_Data req,
          g_SizeBytes = int (length (ud_Data req)), g_UploadedAtUnix = 0\<rparr>"
  obtain d w1 g where run: "Reg_Get ?i w = (Inr d, w1)"
    "Reg_InsertDiagnostic ?input (cp_DiagnosticsKeepLatest cfg) w1 = (Inr g, w')"
    "ur_DiagnosticsId resp = g_DiagnosticsID g"
    using assms by (auto simp: Control_UploadDiagnostics_def Let_def ctl_runs split: if_splits)
  obtain i t where g: "g = new_diagnostic ?input i t" "i \<notin> g_DiagnosticsID ` set (c_diagnostics (ct_db w1))"
    "ct_db w' = diagnosed_db g (kept cfg) t (ct_db w1)"
    using Reg_InsertDiagnostic_Inr [OF run(2)] by blast
  have "ct_db w1 = ct_db w" using Reg_Get_db [OF run(1)] .
  with g run(3) show thesis by (intro that [of g t]) (simp_all add: new_diagnostic_def)
qed

lemma sorted_take_drop:
  assumes "x \<in> set (take n (sort_key f xs))" and "y \<in> set (drop n (sort_key f xs))"
  shows "f x \<le> f y"
proof -
  have "sorted (map f (take n (sort_key f xs)) @ map f (drop n (sort_key f xs)))"
    by (simp flip: map_append)
  with assms show ?thesis unfolding sorted_append by auto
qed

lemma trim_diagnostics_mem:
  "x \<in> set (trim_diagnostics i k rs) \<longleftrightarrow> x \<in> set rs
    \<and> (g_DeviceID x = i \<longrightarrow> g_DiagnosticsID x \<in> g_DiagnosticsID ` set (recent_diagnostics i k rs))"
  by (auto simp: trim_diagnostics_def)

text \<open>
  Trimming drops the oldest: after an upload, of the diagnostics of the device every
  one that was dropped is older than every one that is kept (by upload time, then by id), at most
  the configured number is kept, and the diagnostics of other devices are as before.
\<close>

theorem upload_drops_oldest:
  assumes "Control_UploadDiagnostics cfg req w = (Inr resp, w')" and "ids_unique (ct_db w)"
    and "x \<in> set (c_diagnostics (ct_db w'))" and "g_DeviceID x = strings_TrimSpace (ud_DeviceId req)"
    and "y \<in> set (c_diagnostics (ct_db w)) - set (c_diagnostics (ct_db w'))"
  shows "g_DeviceID y = g_DeviceID x
    \<and> (g_UploadedAtUnix y, g_DiagnosticsID y) < (g_UploadedAtUnix x, g_DiagnosticsID x)
    \<and> int (length (filter (\<lambda>g. g_DeviceID g = g_DeviceID x) (c_diagnostics (ct_db w')))) \<le> kept cfg"
proof -
  let ?i = "strings_TrimSpace (ud_DeviceId req)"
  obtain g t where g: "g_DiagnosticsID g = ur_DiagnosticsId resp" "g_DeviceID g = ?i"
    "ct_db w' = diagnosed_db g (kept cfg) t (ct_db w)"
    "g_DiagnosticsID g \<notin> g_DiagnosticsID ` set (c_diagnostics (ct_db w))"
    by (rule UploadDiagnostics_Inr [OF assms(1)])
  let ?rs = "c_diagnostics (ct_db w) @ [g]" and ?k = "nat (kept cfg)"
  let ?key = "\<lambda>g. (Desc (g_UploadedAtUnix g), Desc (g_DiagnosticsID g))"
  let ?mine = "filter (\<lambda>g. g_DeviceID g = ?i) ?rs"
  have unique: "distinct (map g_DiagnosticsID ?rs)"
    using assms(2) g(4) by (auto simp: ids_unique_def)
  have after: "c_diagnostics (ct_db w') = trim_diagnostics ?i (kept cfg) ?rs"
    by (simp add: g(2,3) diagnosed_db_def)
  have recent: "recent_diagnostics ?i (kept cfg) ?rs = take ?k (sort_key ?key ?mine)"
    by (simp add: recent_diagnostics_def)
  have inj: "a = b" if "a \<in> set ?rs" "b \<in> set ?rs" "g_DiagnosticsID a = g_DiagnosticsID b" for a b
    using unique that unfolding distinct_map by (meson inj_onD)
  have y: "g_DeviceID y = ?i" "y \<in> set ?mine" "g_DiagnosticsID y \<notin> g_DiagnosticsID ` set (take ?k (sort_key ?key ?mine))"
    using assms(5) unfolding after Diff_iff trim_diagnostics_mem recent by auto
  have xin: "x \<in> set ?rs" "g_DiagnosticsID x \<in> g_DiagnosticsID ` set (take ?k (sort_key ?key ?mine))"
    using assms(3,4) unfolding after trim_diagnostics_mem recent by blast+
  then obtain x' where x': "x' \<in> set (take ?k (sort_key ?key ?mine))" "g_DiagnosticsID x' = g_DiagnosticsID x"
    by auto
  have "x' \<in> set ?mine" using in_set_takeD [OF x'(1)] by simp
  then have "x' \<in> set ?rs" unfolding set_filter by blast
  from inj [OF this \<open>x \<in> set ?rs\<close> x'(2)] have "x' = x" .
  have "y \<in> set (take ?k (sort_key ?key ?mine) @ drop ?k (sort_key ?key ?mine))"
    using y(2) by (simp only: append_take_drop_id set_sort)
  then have "y \<in> set (drop ?k (sort_key ?key ?mine))" using y(3) unfolding set_append by blast
  from sorted_take_drop [OF x'(1) this] have le: "?key x \<le> ?key y" by (simp add: \<open>x' = x\<close>)
  have "g_DiagnosticsID y \<noteq> g_DiagnosticsID x" using y(3) xin(2) by metis
  with le have "(g_UploadedAtUnix y, g_DiagnosticsID y) < (g_UploadedAtUnix x, g_DiagnosticsID x)"
    by auto
  moreover have "length (filter (\<lambda>g. g_DeviceID g = ?i) (c_diagnostics (ct_db w'))) \<le> ?k"
    unfolding after by (rule trim_diagnostics_length [OF unique])
  ultimately show ?thesis using y(1) assms(4) keep_of_pos [of "cp_DiagnosticsKeepLatest cfg"] by simp
qed

definition sample_upload :: UploadDiagnosticsRequest where
  "sample_upload = \<lparr>ud_DeviceId = ''dev1'', ud_Category = [], ud_ContentType = [], ud_Summary = [],
     ud_Data = [1, 2, 3]\<rparr>"

text \<open>
  \<open>sample_ctl\<close> hands out the ids 9..., 4..., 7..., 2... in turn, all in one second; one
  diagnostic is kept.
\<close>

definition sample_uploaded :: ctl where
  "sample_uploaded = snd (Control_UploadDiagnostics sample_config sample_upload sample_registered)"

theorem upload_drops_oldest_witness:
  "\<exists>resp w' x y. Control_UploadDiagnostics sample_config sample_upload
      (sample_uploaded\<lparr>ct_clock := 2000 * second\<rparr>) = (Inr resp, w')
    \<and> c_diagnostics (ct_db w') = [x] \<and> c_diagnostics (ct_db sample_uploaded) = [y]
    \<and> (g_UploadedAtUnix y, g_DiagnosticsID y) < (g_UploadedAtUnix x, g_DiagnosticsID x)"
proof -
  let ?w = "sample_uploaded\<lparr>ct_clock := 2000 * second\<rparr>"
  have ok: "case Control_UploadDiagnostics sample_config sample_upload ?w of (Inl e, w') \<Rightarrow> False
      | (Inr r, w') \<Rightarrow> (case c_diagnostics (ct_db w') of [x] \<Rightarrow>
          (case c_diagnostics (ct_db ?w) of [y] \<Rightarrow> x \<noteq> y \<and> g_DeviceID x = strings_TrimSpace (ud_DeviceId sample_upload)
            | _ \<Rightarrow> False) | _ \<Rightarrow> False)"
    and unique: "ids_unique (ct_db ?w)"
    by code_simp+
  then obtain resp w' x y where r: "Control_UploadDiagnostics sample_config sample_upload ?w = (Inr resp, w')"
    "c_diagnostics (ct_db w') = [x]" "c_diagnostics (ct_db ?w) = [y]" "x \<noteq> y"
    "g_DeviceID x = strings_TrimSpace (ud_DeviceId sample_upload)"
    by (auto split: prod.splits sum.splits list.splits)
  have "x \<in> set (c_diagnostics (ct_db w'))" "y \<in> set (c_diagnostics (ct_db ?w)) - set (c_diagnostics (ct_db w'))"
    using r by simp_all
  from upload_drops_oldest [OF r(1) unique this(1) r(5) this(2)] r show ?thesis by auto
qed

text \<open>
  An upload may be acknowledged and dropped at once: with the device at its limit and
  the same second on the clock, the new diagnostic goes when its random id is the smaller one,
  though the response carries its id.
\<close>

theorem acknowledged_upload_dropped:
  "\<exists>resp w'. Control_UploadDiagnostics sample_config sample_upload sample_uploaded = (Inr resp, w')
    \<and> ur_DiagnosticsId resp \<notin> g_DiagnosticsID ` set (c_diagnostics (ct_db w'))"
proof -
  have "case Control_UploadDiagnostics sample_config sample_upload sample_uploaded of
      (Inl e, w') \<Rightarrow> False
    | (Inr resp, w') \<Rightarrow> ur_DiagnosticsId resp \<notin> g_DiagnosticsID ` set (c_diagnostics (ct_db w'))"
    by code_simp
  then show ?thesis by (auto split: prod.splits sum.splits)
qed

section \<open>Configuration\<close>

definition assigned_valid :: "AssignedConfig \<Rightarrow> bool" where
  "assigned_valid c \<longleftrightarrow> ac_SyncRoots c \<noteq> [] \<and> ac_ConflictPolicy c \<noteq> [] \<and> ac_LogLevel c \<noteq> []
    \<and> 0 < ac_LargeFileThreshold c \<and> (\<forall>r\<in>set (ac_SyncRoots c). r \<noteq> [] \<and> strings_TrimSpace r = r)
    \<and> distinct (map strings_ToLower (ac_SyncRoots c))"

lemma dedupe_trimmed_props:
  "(\<forall>r\<in>set (dedupe_trimmed vs seen). r \<noteq> [] \<and> strings_TrimSpace r = r \<and> strings_ToLower r \<notin> seen)
    \<and> distinct (map strings_ToLower (dedupe_trimmed vs seen))"
proof (induction vs arbitrary: seen)
  case Nil
  then show ?case by simp
next
  case (Cons v vs)
  let ?key = "strings_ToLower (strings_TrimSpace v)"
  show ?case
  proof (cases "strings_TrimSpace v = [] \<or> ?key \<in> seen")
    case True
    then have "dedupe_trimmed (v # vs) seen = dedupe_trimmed vs seen" by (auto simp: Let_def)
    with Cons.IH [of seen] show ?thesis by simp
  next
    case False
    then have "dedupe_trimmed (v # vs) seen = strings_TrimSpace v # dedupe_trimmed vs (insert ?key seen)"
      by (auto simp: Let_def)
    with False Cons.IH [of "insert ?key seen"] show ?thesis by auto
  qed
qed
lemma or_else_idem:
  "or_else (strings_TrimSpace (or_else (strings_TrimSpace s) d)) d = or_else (strings_TrimSpace s) d"
  if "strings_TrimSpace d = d"
  using that by (simp add: or_else_def)

lemma trimmed_constants:
  "strings_TrimSpace ''manual'' = ''manual''" "strings_TrimSpace ''info'' = ''info''"
  "strings_TrimSpace ''.'' = ''.''" "strings_TrimSpace ''static'' = ''static''" "strings_TrimSpace ''default'' = ''default''"
  "normalizeStringList [''.''] = [''.'']"
  "normalizeStringList [''reconnect_overlay'', ''resync'', ''remount'', ''collect_diagnostics''] =
    [''reconnect_overlay'', ''resync'', ''remount'', ''collect_diagnostics'']"
  by code_simp+

lemma normalizeAssigned_idem: "normalizeAssigned (normalizeAssigned c) = normalizeAssigned c"
  by (simp add: normalizeAssigned_def Let_def or_else_idem trimmed_constants)

lemma normalizeJoinBundle_idem: "normalizeJoinBundle (normalizeJoinBundle j) = normalizeJoinBundle j"
  by (simp add: normalizeJoinBundle_def Let_def or_else_idem trimmed_constants)

text \<open>
  The configuration of the services is normalised once and for all: normalising again
  changes nothing, and what it yields is complete, with positive intervals and limits, a
  non-empty list of distinct sync roots, and at least one action to offer.
\<close>

theorem normalizeControlPlaneConfig_canonical:
  "normalizeControlPlaneConfig (normalizeControlPlaneConfig c) = normalizeControlPlaneConfig c
    \<and> assigned_valid (cp_DefaultAssignedConfig (normalizeControlPlaneConfig c))
    \<and> cp_HeartbeatIntervalSeconds (normalizeControlPlaneConfig c) \<noteq> 0
    \<and> cp_DefaultPolicyRevision (normalizeControlPlaneConfig c) \<noteq> 0
    \<and> kept (normalizeControlPlaneConfig c) = cp_DiagnosticsKeepLatest (normalizeControlPlaneConfig c)
    \<and> cp_AvailableActions (normalizeControlPlaneConfig c) \<noteq> []"
proof -
  have "normalizeControlPlaneConfig (normalizeControlPlaneConfig c) = normalizeControlPlaneConfig c"
    by (simp add: normalizeControlPlaneConfig_def Let_def or_else_idem trimmed_constants
        normalizeAssigned_idem normalizeJoinBundle_idem)
  moreover have "assigned_valid (normalizeAssigned a)" for a
    using dedupe_trimmed_props [of "ac_SyncRoots a" "{}"]
    by (auto simp: trimmed_constants assigned_valid_def normalizeAssigned_def Let_def or_else_def normalizeStringList_def)
  ultimately show ?thesis
    by (simp add: normalizeControlPlaneConfig_def Let_def keep_of_def)
qed

end
