(* ===== verification/BuildService.thy ===== *)
theory BuildService
  imports CoreService
begin

text \<open>
  \<open>internal/server/build_service.go\<close>: remote builds. A request makes a job and a goroutine that
  waits for the lock of its unit and for a free slot, runs the build function of the
  configuration and ends the job; finished jobs are kept for a while, under limits of age,
  number and bytes.

  This theory holds the data and the operations, the next ones their laws. The build function
  (the commands it runs and the file it finds) is a parameter: its log lines, result and error
  may be anything. Server log lines are left out; the calls of the metrics are a list.
\<close>

section \<open>Durations\<close>

text \<open>\<open>time.Duration.Round\<close>, half away from zero.\<close>

definition duration_Round :: "duration \<Rightarrow> duration \<Rightarrow> duration" where
  "duration_Round d m =
    (if m \<le> 0 then d
     else if d < 0 then
       (let r = (- d) mod m in if r + r < m then d + r else d - m + r)
     else
       (let r = d mod m in if r + r < m then d - r else d + m - r))"

section \<open>The log of a job\<close>

definition logTruncationMarker :: string where
  "logTruncationMarker = ''[... build log truncated ...]'' @ [CHR 0x0A]"

definition appendLogWithLimit :: "string \<Rightarrow> string \<Rightarrow> int \<Rightarrow> string" where
  "appendLogWithLimit existing entry limit =
    (if limit \<le> 0 then existing @ entry
     else
       let buf = existing @ entry in
       if int (length buf) \<le> limit then buf
       else if limit \<le> int (length logTruncationMarker) then drop (length buf - nat limit) buf
       else
         (let tailLen = nat limit - length logTruncationMarker in
          logTruncationMarker @ drop (length buf - tailLen) buf))"

section \<open>Jobs\<close>

record buildJob =
  j_id :: string
  j_unitPath :: string
  j_target :: string
  j_status :: string
  j_createdAt :: gotime
  j_queuedAt :: gotime
  j_startedAt :: gotime
  j_finishedAt :: gotime
  j_logBuf :: string
  j_maxLogBytes :: int
  j_productPath :: string
  j_workDir :: string
  j_err :: "goerr option"

definition newJob :: "string \<Rightarrow> string \<Rightarrow> string \<Rightarrow> gotime \<Rightarrow> int \<Rightarrow> buildJob" where
  "newJob buildID unitPath target now maxLogBytes =
    \<lparr>j_id = buildID, j_unitPath = unitPath, j_target = target, j_status = ''queued'', j_createdAt = now,
     j_queuedAt = now, j_startedAt = zero_time, j_finishedAt = zero_time, j_logBuf = [],
     j_maxLogBytes = maxLogBytes, j_productPath = [], j_workDir = [], j_err = None\<rparr>"

definition job_appendLog :: "string \<Rightarrow> buildJob \<Rightarrow> buildJob" where
  "job_appendLog entry j = j\<lparr>j_logBuf := appendLogWithLimit (j_logBuf j) entry (j_maxLogBytes j)\<rparr>"

text \<open>\<open>fmtDuration\<close> is \<open>time.Duration.String\<close>.\<close>

definition newline :: string where "newline = [CHR 0x0A]"

definition startJob :: "(duration \<Rightarrow> string) \<Rightarrow> string \<Rightarrow> gotime \<Rightarrow> buildJob \<Rightarrow> buildJob" where
  "startJob fmtDuration tempRoot startedAt j =
    (let j1 = j\<lparr>j_status := ''running'', j_startedAt := startedAt,
               j_workDir := filepath_Join [tempRoot, j_id j]\<rparr>;
         queueWait = duration_Round (time_Sub startedAt (j_queuedAt j)) millisecond;
         j2 = (if queueWait > 0
               then job_appendLog (''queued for '' @ fmtDuration queueWait @ '' before starting'' @ newline) j1
               else j1) in
     job_appendLog (''start build: unit='' @ j_unitPath j @ '' target='' @ j_target j @ newline) j2)"

definition completeJob :: "(duration \<Rightarrow> string) \<Rightarrow> gotime \<Rightarrow> gotime \<Rightarrow> string \<Rightarrow> buildJob \<Rightarrow> buildJob" where
  "completeJob fmtDuration startedAt finishedAt productPath j =
    (let j1 = j\<lparr>j_status := ''success'', j_productPath := productPath, j_finishedAt := finishedAt\<rparr>;
         j2 = job_appendLog (''build success in '' @
                fmtDuration (duration_Round (time_Sub finishedAt startedAt) millisecond) @ newline) j1 in
     if productPath \<noteq> [] then job_appendLog (''product: '' @ productPath @ newline) j2 else j2)"

definition failJob :: "gotime \<Rightarrow> goerr \<Rightarrow> buildJob \<Rightarrow> buildJob" where
  "failJob finishedAt err j =
    job_appendLog (''build failed: '' @ err_Error err @ newline)
      (j\<lparr>j_status := ''failed'', j_err := Some err, j_finishedAt := finishedAt\<rparr>)"

definition isTerminalBuildStatus :: "string \<Rightarrow> bool" where
  "isTerminalBuildStatus s \<longleftrightarrow> s = ''success'' \<or> s = ''failed''"

section \<open>The service\<close>

record BuildConfig =
  b_RootDir :: string
  b_RemoteEnabled :: bool
  b_MaxWorkers :: int
  b_JobTTL :: duration
  b_MaxRetainedJobs :: int
  b_MaxRetainedBytes :: int
  b_CleanupInterval :: duration
  b_MaxLogBytes :: int
  b_TempRoot :: string

record build_service =
  s_RootDir :: string
  s_RemoteEnabled :: bool
  s_workers :: nat
  s_jobs :: "buildJob list"
  s_jobTTL :: duration
  s_maxRetainedJobs :: int
  s_maxRetainedBytes :: int
  s_cleanupInterval :: duration
  s_maxLogBytes :: int
  s_tempRoot :: string

abbreviation defaultBuildJobTTL :: duration where "defaultBuildJobTTL \<equiv> 1800 * second"
abbreviation defaultBuildCleanupInterval :: duration where "defaultBuildCleanupInterval \<equiv> 60 * second"
abbreviation defaultMaxRetainedJobs :: int where "defaultMaxRetainedJobs \<equiv> 200"
abbreviation defaultBuildLogLimitBytes :: int where "defaultBuildLogLimitBytes \<equiv> 2097152"

definition defaultBuildWorkers :: "int \<Rightarrow> int" where
  "defaultBuildWorkers numCPU =
    (let workers = numCPU div 2; workers1 = (if workers < 1 then 1 else workers) in
     if workers1 > 4 then 4 else workers1)"

definition positive_or :: "int \<Rightarrow> int \<Rightarrow> int" where
  "positive_or fallback n = (if n \<le> 0 then fallback else n)"

definition NewBuildService :: "int \<Rightarrow> string \<Rightarrow> BuildConfig \<Rightarrow> build_service" where
  "NewBuildService numCPU tempDir cfg =
    \<lparr>s_RootDir = b_RootDir cfg, s_RemoteEnabled = b_RemoteEnabled cfg,
     s_workers = nat (positive_or (defaultBuildWorkers numCPU) (b_MaxWorkers cfg)), s_jobs = [],
     s_jobTTL = positive_or defaultBuildJobTTL (b_JobTTL cfg),
     s_maxRetainedJobs = positive_or defaultMaxRetainedJobs (b_MaxRetainedJobs cfg),
     s_maxRetainedBytes = b_MaxRetainedBytes cfg,
     s_cleanupInterval = positive_or defaultBuildCleanupInterval (b_CleanupInterval cfg),
     s_maxLogBytes = positive_or defaultBuildLogLimitBytes (b_MaxLogBytes cfg),
     s_tempRoot = (let tempRoot = strings_TrimSpace (b_TempRoot cfg) in
       if tempRoot = [] then filepath_Join [tempDir, ''roodox-builds''] else tempRoot)\<rparr>"

definition resolveUnitPath :: "goerr + string \<Rightarrow> build_service \<Rightarrow> string \<Rightarrow> string result" where
  "resolveUnitPath getwd s unitPath =
    (case NormalizeProjectPath getwd (s_RootDir s) unitPath of
       Inl e \<Rightarrow> Inl e
     | Inr path \<Rightarrow> ResolvePath getwd (s_RootDir s) path)"

definition newBuildID :: "world \<Rightarrow> string result \<times> world" where
  "newBuildID w =
    (case rand_Read w of
       (None, w1) \<Rightarrow> (Inl (ErrorText ''rand''), w1)
     | (Some buf, w1) \<Rightarrow> (Inr (hex_EncodeToString buf), w1))"

text \<open>The answer is the new job's id and the unit its goroutine builds.\<close>

definition StartBuild :: "goerr + string \<Rightarrow> string \<Rightarrow> string \<Rightarrow> build_service \<Rightarrow> world
    \<Rightarrow> (status + string \<times> string) \<times> build_service \<times> world" where
  "StartBuild getwd req_UnitPath req_Target s w =
    (if \<not> s_RemoteEnabled s
     then (Inl (failedPrecondition ''remote build is disabled by server configuration''), s, w)
     else if req_UnitPath = [] then (Inl (invalidArgument ''unit_path is required''), s, w)
     else
       (case NormalizeProjectPath getwd (s_RootDir s) req_UnitPath of
          Inl e \<Rightarrow> (Inl (invalidArgument (err_Error e)), s, w)
        | Inr unitPath \<Rightarrow>
          (case resolveUnitPath getwd s unitPath of
             Inl e \<Rightarrow> (Inl (invalidArgument (err_Error e)), s, w)
           | Inr unitAbs \<Rightarrow>
             (case newBuildID w of
                (Inl e, w1) \<Rightarrow> (Inl (Status Internal (err_Error e)), s, w1)
              | (Inr buildID, w1) \<Rightarrow>
                (case time_Now w1 of
                   (now, w2) \<Rightarrow>
                   (Inr (buildID, unitAbs),
                    s\<lparr>s_jobs := row_upsert j_id (newJob buildID unitPath req_Target now (s_maxLogBytes s)) (s_jobs s)\<rparr>,
                    w2))))))"

definition getJob :: "string \<Rightarrow> build_service \<Rightarrow> status + buildJob" where
  "getJob buildID s =
    (if buildID = [] then Inl (invalidArgument ''build_id is required'')
     else (case row_find j_id buildID (s_jobs s) of
       None \<Rightarrow> Inl (Status NotFound ''build_id not found'')
     | Some job \<Rightarrow> Inr job))"

record BuildStatus =
  st_Status :: string
  st_Error :: string
  st_StartedAtUnix :: int
  st_FinishedAtUnix :: int
  st_ProductName :: string

definition unix_or_zero :: "gotime \<Rightarrow> int" where
  "unix_or_zero t = (if time_IsZero t then 0 else time_Unix t)"

definition GetBuildStatus :: "string \<Rightarrow> build_service \<Rightarrow> status + BuildStatus" where
  "GetBuildStatus buildID s =
    (case getJob buildID s of
       Inl e \<Rightarrow> Inl e
     | Inr job \<Rightarrow> Inr
       \<lparr>st_Status = j_status job,
        st_Error = (case j_err job of None \<Rightarrow> [] | Some e \<Rightarrow> err_Error e),
        st_StartedAtUnix = unix_or_zero (j_startedAt job),
        st_FinishedAtUnix = unix_or_zero (j_finishedAt job),
        st_ProductName = (if j_productPath job \<noteq> [] then filepath_Base (j_productPath job) else [])\<rparr>)"

definition FetchBuildLog :: "string \<Rightarrow> build_service \<Rightarrow> status + string" where
  "FetchBuildLog buildID s =
    (case getJob buildID s of
       Inl e \<Rightarrow> Inl e
     | Inr job \<Rightarrow>
       Inr (''[status='' @ j_status job @ '']'' @ newline @ j_logBuf job @
         (case j_err job of None \<Rightarrow> [] | Some e \<Rightarrow> newline @ ''[error] '' @ err_Error e)))"

definition GetBuildProduct :: "string \<Rightarrow> build_service \<Rightarrow> (string \<times> bytes) rpc" where
  "GetBuildProduct buildID s w =
    (case getJob buildID s of
       Inl e \<Rightarrow> (Inl e, w)
     | Inr job \<Rightarrow>
       if j_status job = ''queued'' \<or> j_status job = ''running''
       then (Inl (failedPrecondition ''build is still running''), w)
       else if j_status job = ''failed''
       then (Inl (failedPrecondition (case j_err job of
               None \<Rightarrow> ''build failed'' | Some e \<Rightarrow> ''build failed: '' @ err_Error e)), w)
       else if j_productPath job = []
       then (Inl (Status NotFound ''build finished but no product found''), w)
       else
         (case os_ReadFile (j_productPath job) w of
            (Inl e, w1) \<Rightarrow> (Inl (toGrpcError e), w1)
          | (Inr data, w1) \<Rightarrow> (Inr (filepath_Base (j_productPath job), data), w1)))"

section \<open>Removing finished jobs\<close>

text \<open>Oldest first: by end, then by creation.\<close>

definition oldest_jobs :: "buildJob list \<Rightarrow> buildJob list" where
  "oldest_jobs = sort_key (\<lambda>j. (j_finishedAt j, j_createdAt j))"

definition job_expired :: "duration \<Rightarrow> gotime \<Rightarrow> buildJob \<Rightarrow> bool" where
  "job_expired jobTTL now j \<longleftrightarrow>
    jobTTL > 0 \<and> \<not> time_IsZero (j_finishedAt j) \<and> time_Sub now (j_finishedAt j) > jobTTL"

fun take_over_bytes :: "(buildJob \<Rightarrow> int) \<Rightarrow> int \<Rightarrow> int \<Rightarrow> buildJob list \<Rightarrow> buildJob list" where
  "take_over_bytes pathSize maxBytes totalBytes [] = []"
| "take_over_bytes pathSize maxBytes totalBytes (j # js) =
    (if totalBytes \<le> maxBytes then []
     else j # take_over_bytes pathSize maxBytes (totalBytes - pathSize j) js)"

text \<open>\<open>size\<close> is \<open>buildPathSize\<close> of the work directory.\<close>

definition buildRemovalsForByteLimit :: "(buildJob \<Rightarrow> int) \<Rightarrow> buildJob list \<Rightarrow> int \<Rightarrow> buildJob list" where
  "buildRemovalsForByteLimit pathSize snapshots maxRetainedBytes =
    (if maxRetainedBytes \<le> 0 \<or> snapshots = [] then []
     else
       let totalBytes = sum_list (map pathSize snapshots) in
       if totalBytes \<le> maxRetainedBytes then []
       else take_over_bytes pathSize maxRetainedBytes totalBytes (oldest_jobs snapshots))"

fun nextDue_from :: "gotime \<Rightarrow> duration \<Rightarrow> buildJob list \<Rightarrow> gotime" where
  "nextDue_from nextDue jobTTL [] = nextDue"
| "nextDue_from nextDue jobTTL (j # js) =
    (if time_IsZero (j_finishedAt j) then nextDue_from nextDue jobTTL js
     else
       (let expireAt = j_finishedAt j + jobTTL in
        nextDue_from (if time_IsZero nextDue \<or> expireAt < nextDue then expireAt else nextDue) jobTTL js))"

definition nextBuildCleanupDue :: "buildJob list \<Rightarrow> duration \<Rightarrow> gotime" where
  "nextBuildCleanupDue snapshots jobTTL =
    (if jobTTL \<le> 0 \<or> snapshots = [] then zero_time else nextDue_from zero_time jobTTL snapshots)"

text \<open>
  The jobs to remove: those that expired, then the oldest finished ones above the number to keep,
  then the oldest above the bytes to keep. The second list are the finished jobs that stay.
\<close>

definition cleanup_choice :: "(buildJob \<Rightarrow> int) \<Rightarrow> gotime \<Rightarrow> build_service \<Rightarrow> buildJob list \<times> buildJob list" where
  "cleanup_choice pathSize now s =
    (let terminal = filter (\<lambda>j. isTerminalBuildStatus (j_status j)) (s_jobs s);
         expired = filter (job_expired (s_jobTTL s) now) terminal;
         terminalJobs = filter (\<lambda>j. \<not> job_expired (s_jobTTL s) now j) terminal;
         remaining = length (s_jobs s) - length expired;
         over = s_maxRetainedJobs s > 0 \<and> int remaining > s_maxRetainedJobs s;
         ordered = (if over then oldest_jobs terminalJobs else terminalJobs);
         extra = (if over then remaining - nat (s_maxRetainedJobs s) else 0);
         candidates = drop extra ordered;
         heavy = (if s_maxRetainedBytes s > 0
                  then buildRemovalsForByteLimit pathSize candidates (s_maxRetainedBytes s) else []) in
     (expired @ take extra ordered @ heavy,
      filter (\<lambda>j. j_id j \<notin> j_id ` set heavy) candidates))"

definition cleanupJobs :: "(buildJob \<Rightarrow> int) \<Rightarrow> gotime \<Rightarrow> build_service \<Rightarrow> gotime \<times> string list \<times> build_service" where
  "cleanupJobs pathSize now s =
    (if s_jobs s = [] then (zero_time, [], s)
     else
       (case cleanup_choice pathSize now s of
          (removals, retained) \<Rightarrow>
          (nextBuildCleanupDue retained (s_jobTTL s),
           filter (\<lambda>d. d \<noteq> []) (map j_workDir removals),
           s\<lparr>s_jobs := filter (\<lambda>j. j_id j \<notin> j_id ` set removals) (s_jobs s)\<rparr>)))"

section \<open>CMake targets and products\<close>

definition isCMakeDefaultTargetAlias :: "string \<Rightarrow> bool" where
  "isCMakeDefaultTargetAlias target =
    (strings_ToLower (strings_TrimSpace target) \<in> set [[], ''all'', ''default''])"

definition isHiddenCMakeMetaTarget :: "string \<Rightarrow> bool" where
  "isHiddenCMakeMetaTarget target =
    (strings_ToUpper (strings_TrimSpace target) \<in> set [''ZERO_CHECK'', ''INSTALL'', ''RUN_TESTS'',
       ''PACKAGE'', ''PACKAGE_SOURCE'', ''EDIT_CACHE'', ''REBUILD_CACHE''])"

fun dedupe_targets :: "string list \<Rightarrow> string set \<Rightarrow> string list" where
  "dedupe_targets [] seen = []"
| "dedupe_targets (t # ts) seen =
    (let key = strings_ToLower (strings_TrimSpace t) in
     if key = [] then dedupe_targets ts seen
     else if key \<in> seen then dedupe_targets ts seen
     else strings_TrimSpace t # dedupe_targets ts (insert key seen))"

definition dedupeSortedTargets :: "string list \<Rightarrow> string list" where
  "dedupeSortedTargets targets = sort_key strings_ToLower (dedupe_targets targets {})"

definition formatAvailableCMakeTargets :: "string list \<Rightarrow> string" where
  "formatAvailableCMakeTargets targets =
    (let shown = filter (\<lambda>t. \<not> isHiddenCMakeMetaTarget t) (dedupeSortedTargets targets);
         display = (if shown = [] then dedupeSortedTargets targets else shown) in
     if display = [] then ''(unavailable)''
     else if length display > 12 then strings_Join (take 12 display) '', '' @ '', ...''
     else strings_Join display '', '')"

text \<open>\<open>quote\<close> is the verb \<open>%q\<close>.\<close>

definition resolveCMakeBuildTarget :: "(string \<Rightarrow> string) \<Rightarrow> string \<Rightarrow> string list \<Rightarrow> string result" where
  "resolveCMakeBuildTarget quote requested0 available =
    (let requested = strings_TrimSpace requested0 in
     if requested = [] \<or> isCMakeDefaultTargetAlias requested then Inr []
     else if available = [] then Inr requested
     else if requested \<in> set available then Inr requested
     else
       (case find (\<lambda>c. strings_EqualFold c requested) available of
          Some candidate \<Rightarrow> Inr candidate
        | None \<Rightarrow> Inl (ErrorText (''cmake target '' @ quote requested @ '' not found; available targets: ''
            @ formatAvailableCMakeTargets available))))"

definition flattenCMakeTargets :: "string list list \<Rightarrow> string list" where
  "flattenCMakeTargets configurations =
    filter (\<lambda>t. t \<noteq> []) (map strings_TrimSpace (concat configurations))"

text \<open>Outside Windows.\<close>

definition looksLikeProduct :: "string \<Rightarrow> bool" where
  "looksLikeProduct path =
    (let base = strings_ToLower (filepath_Base path) in
     if strings_HasSuffix base ''.obj'' \<or> strings_HasSuffix base ''.o'' \<or> strings_HasSuffix base ''.pdb''
     then False
     else strings_ToLower (filepath_Ext path) \<in> set [[], ''.so'', ''.a'', ''.dylib''])"

text \<open>The files of the tree under the root, in the order of the walk, with their times.\<close>

definition findLatestProduct :: "(string \<times> gotime) list \<Rightarrow> string" where
  "findLatestProduct files =
    (case sort_key (\<lambda>(path, mt). Desc mt) (filter (\<lambda>(path, mt). looksLikeProduct path) files) of
       [] \<Rightarrow> [] | (path, mt) # _ \<Rightarrow> path)"

end
