(* ===== verification/BuildRun.thy ===== *)
theory BuildRun
  imports BuildService
begin

text \<open>
  The life of builds: the log of a job against what was written to it, what a cleanup removes,
  and the goroutines of \<open>runBuild\<close> as a step relation over the lock of each unit and the slots.
\<close>

section \<open>The log\<close>

text \<open>What the log of a job shows of all that was written to it.\<close>

definition shown_log :: "int \<Rightarrow> string \<Rightarrow> string" where
  "shown_log limit written =
    (if limit \<le> 0 \<or> int (length written) \<le> limit then written
     else if limit \<le> int (length logTruncationMarker) then last_n (nat limit) written
     else logTruncationMarker @ last_n (nat limit - length logTruncationMarker) written)"

lemma appendLogWithLimit_shown:
  "appendLogWithLimit existing entry limit = shown_log limit (existing @ entry)"
  by (auto simp: appendLogWithLimit_def shown_log_def last_n_def Let_def)

lemma shown_log_append: "shown_log limit (shown_log limit t @ e) = shown_log limit (t @ e)"
proof (cases "limit \<le> 0 \<or> int (length t) \<le> limit")
  case True
  then show ?thesis by (simp add: shown_log_def)
next
  case over: False
  show ?thesis
  proof (cases "limit \<le> int (length logTruncationMarker)")
    case True
    with over have shown: "shown_log limit t = last_n (nat limit) t" "nat limit \<le> length t"
      by (auto simp: shown_log_def)
    show ?thesis
    proof (cases "e = []")
      case True
      with shown show ?thesis by (simp add: shown_log_def last_n_def)
    next
      case False
      with shown over True show ?thesis by (simp add: shown_log_def last_n_append)
    qed
  next
    case False
    let ?k = "nat limit - length logTruncationMarker"
    have shown: "shown_log limit t = logTruncationMarker @ last_n ?k t" "?k \<le> length t"
      using over False by (auto simp: shown_log_def)
    have len: "length (shown_log limit t) = nat limit" using shown False by simp
    show ?thesis
    proof (cases "e = []")
      case True
      with len shown(1) show ?thesis using over by (simp add: shown_log_def)
    next
      case e: False
      then have "\<not> int (length (shown_log limit t @ e)) \<le> limit" using len over by simp
      then have "shown_log limit (shown_log limit t @ e)
          = logTruncationMarker @ last_n ?k (shown_log limit t @ e)"
        using over False unfolding shown_log_def [of limit "shown_log limit t @ e"] by simp
      also have "\<dots> = logTruncationMarker @ last_n ?k (t @ e)"
        unfolding shown(1) append_assoc using shown(2) by (simp add: last_n_skip)
      also have "\<dots> = shown_log limit (t @ e)" using over False by (simp add: shown_log_def)
      finally show ?thesis .
    qed
  qed
qed

definition write_log :: "int \<Rightarrow> string list \<Rightarrow> string \<Rightarrow> string" where
  "write_log limit entries b = fold (\<lambda>e b. appendLogWithLimit b e limit) entries b"

lemma write_log_shown: "write_log limit entries (shown_log limit t) = shown_log limit (t @ concat entries)"
proof (induction entries arbitrary: t)
  case Nil
  then show ?case by (simp add: write_log_def)
next
  case (Cons e es)
  have "write_log limit (e # es) (shown_log limit t) = write_log limit es (shown_log limit (t @ e))"
    by (simp add: write_log_def appendLogWithLimit_shown shown_log_append)
  with Cons [of "t @ e"] show ?case by simp
qed

lemma shown_log_length: "0 < limit \<Longrightarrow> int (length (shown_log limit t)) \<le> limit"
  by (auto simp: shown_log_def)

text \<open>
  A job's log shows exactly what was written to it, however it was split into entries,
  while that fits the limit, and from then on the marker followed by as many of the last bytes
  written as fit; it is never longer than the limit.
\<close>

theorem build_log_exact:
  "write_log limit entries [] = shown_log limit (concat entries)
    \<and> (0 < limit \<longrightarrow> int (length (write_log limit entries [])) \<le> limit)"
proof -
  have "shown_log limit [] = []" by (auto simp: shown_log_def)
  then have "write_log limit entries [] = shown_log limit (concat entries)"
    using write_log_shown [of limit entries "[]"] by simp
  with shown_log_length show ?thesis by auto
qed

theorem build_log_exact_witness:
  "int (length (write_log 40 [replicate 30 CHR ''a'', replicate 30 CHR ''b''] [])) \<le> 40
    \<and> write_log 40 [replicate 30 CHR ''a'', replicate 30 CHR ''b''] []
      = logTruncationMarker @ replicate 10 CHR ''b''"
proof -
  have "shown_log 40 (concat [replicate 30 CHR ''a'', replicate 30 CHR ''b''])
      = logTruncationMarker @ replicate 10 CHR ''b''" by code_simp
  moreover have "(0::int) < 40" by simp
  ultimately show ?thesis
    using build_log_exact [of 40 "[replicate 30 CHR ''a'', replicate 30 CHR ''b'']"] by metis
qed

section \<open>Cleanup\<close>

abbreviation job_age :: "buildJob \<Rightarrow> gotime \<times> gotime" where
  "job_age j \<equiv> (j_finishedAt j, j_createdAt j)"

lemma oldest_jobs_set [simp]: "set (oldest_jobs js) = set js" "length (oldest_jobs js) = length js"
  by (simp_all add: oldest_jobs_def)

lemma oldest_split:
  "x \<in> set (take n (oldest_jobs js)) \<Longrightarrow> y \<in> set (drop n (oldest_jobs js)) \<Longrightarrow> job_age x \<le> job_age y"
proof -
  assume x: "x \<in> set (take n (oldest_jobs js))" and y: "y \<in> set (drop n (oldest_jobs js))"
  have "sorted (map job_age (take n (oldest_jobs js)) @ map job_age (drop n (oldest_jobs js)))"
    by (simp add: oldest_jobs_def flip: map_append)
  with x y show ?thesis unfolding sorted_append by auto
qed

lemma sum_list_mset_cong:
  fixes f :: "'a \<Rightarrow> int"
  assumes "mset xs = mset ys"
  shows "sum_list (map f xs) = sum_list (map f ys)"
proof -
  have "mset (map f xs) = mset (map f ys)" using assms by (simp only: mset_map)
  then have "sum_mset (mset (map f xs)) = sum_mset (mset (map f ys))" by (rule arg_cong)
  then show ?thesis by (simp only: sum_mset_sum_list)
qed

lemma oldest_jobs_mset: "mset (oldest_jobs js) = mset js"
  by (simp add: oldest_jobs_def)

lemma take_over_bytes_take:
  assumes "0 \<le> m"
  shows "\<exists>n. take_over_bytes f m (sum_list (map f js)) js = take n js
    \<and> sum_list (map f (drop n js)) \<le> m"
proof (induction js)
  case Nil
  with assms show ?case by auto
next
  case (Cons j js)
  then obtain n where n: "take_over_bytes f m (sum_list (map f js)) js = take n js"
    "sum_list (map f (drop n js)) \<le> m" by blast
  show ?case
  proof (cases "sum_list (map f (j # js)) \<le> m")
    case True
    then show ?thesis by (intro exI [of _ 0]) simp
  next
    case False
    with n show ?thesis by (intro exI [of _ "Suc n"]) simp
  qed
qed

text \<open>The jobs that go for their bytes are the oldest, and what stays is within the limit.\<close>

lemma heavy_jobs:
  assumes "0 < m"
  obtains n where "set (buildRemovalsForByteLimit f js m) = set (take n (oldest_jobs js))"
    "sum_list (map f (drop n (oldest_jobs js))) \<le> m"
proof -
  have sum: "sum_list (map f (oldest_jobs js)) = sum_list (map f js)"
    by (rule sum_list_mset_cong) (rule oldest_jobs_mset)
  show thesis
  proof (cases "js = [] \<or> sum_list (map f js) \<le> m")
    case True
    then have "buildRemovalsForByteLimit f js m = []"
      unfolding buildRemovalsForByteLimit_def Let_def by (elim disjE) simp_all
    moreover have "sum_list (map f (oldest_jobs js)) \<le> m" using True assms unfolding sum by auto
    ultimately show thesis by (intro that [of 0]) simp_all
  next
    case False
    obtain n where n: "take_over_bytes f m (sum_list (map f (oldest_jobs js))) (oldest_jobs js)
        = take n (oldest_jobs js)" "sum_list (map f (drop n (oldest_jobs js))) \<le> m"
      using take_over_bytes_take [of m f "oldest_jobs js"] assms by auto
    have "buildRemovalsForByteLimit f js m = take n (oldest_jobs js)"
      using False assms n(1) by (simp add: buildRemovalsForByteLimit_def Let_def sum)
    with n(2) show thesis by (intro that) simp_all
  qed
qed

lemma sum_filter_ids:
  fixes f :: "buildJob \<Rightarrow> int"
  assumes "distinct (map j_id js)"
  shows "sum_list (map f (filter (\<lambda>j. j_id j \<notin> j_id ` set (take n (oldest_jobs js))) js))
    = sum_list (map f (drop n (oldest_jobs js)))"
proof -
  let ?o = "oldest_jobs js"
  note same = oldest_jobs_mset [of js]
  then have dist: "distinct (map j_id ?o)"
    using assms same by (metis mset_map mset_eq_imp_distinct_iff)
  then have "distinct (map j_id (take n ?o) @ map j_id (drop n ?o))" by (simp flip: map_append)
  then have apart: "j_id ` set (take n ?o) \<inter> j_id ` set (drop n ?o) = {}" by simp
  have "filter (\<lambda>j. j_id j \<notin> j_id ` set (take n ?o)) (take n ?o @ drop n ?o) = drop n ?o"
  proof -
    have "filter (\<lambda>j. j_id j \<notin> j_id ` set (take n ?o)) (take n ?o) = []"
      by (simp add: filter_empty_conv)
    moreover have "filter (\<lambda>j. j_id j \<notin> j_id ` set (take n ?o)) (drop n ?o) = drop n ?o"
      by (rule filter_True) (use apart in blast)
    ultimately show ?thesis unfolding filter_append by simp
  qed
  then have "filter (\<lambda>j. j_id j \<notin> j_id ` set (take n ?o)) ?o = drop n ?o" by simp
  then have "mset (filter (\<lambda>j. j_id j \<notin> j_id ` set (take n ?o)) js) = mset (drop n ?o)"
    using same by (metis mset_filter)
  then show ?thesis by (rule sum_list_mset_cong)
qed


definition terminal_jobs :: "build_service \<Rightarrow> buildJob list" where
  "terminal_jobs s = filter (\<lambda>j. isTerminalBuildStatus (j_status j)) (s_jobs s)"

lemma cleanup_choice_split:
  assumes ids: "distinct (map j_id (s_jobs s))"
    and choice: "cleanup_choice f now s = (removals, retained)"
  shows "set removals \<union> set retained = set (terminal_jobs s)"
    and "set removals \<inter> set retained = {}"
    and "\<forall>j\<in>set retained. \<not> job_expired (s_jobTTL s) now j"
    and "\<forall>j\<in>set retained. \<forall>i\<in>set removals. \<not> job_expired (s_jobTTL s) now i \<longrightarrow> job_age i \<le> job_age j"
    and "0 < s_maxRetainedBytes s \<longrightarrow> sum_list (map f retained) \<le> s_maxRetainedBytes s"
    and "0 < s_maxRetainedJobs s \<longrightarrow>
      int (length (filter (\<lambda>j. \<not> isTerminalBuildStatus (j_status j)) (s_jobs s)) + length retained)
        \<le> max (s_maxRetainedJobs s)
            (int (length (filter (\<lambda>j. \<not> isTerminalBuildStatus (j_status j)) (s_jobs s))))"
    and "distinct (map j_id retained)"
proof -
  let ?P = "\<lambda>j. isTerminalBuildStatus (j_status j)" and ?X = "job_expired (s_jobTTL s) now"
  define live where "live = filter (\<lambda>j. \<not> ?X j) (terminal_jobs s)"
  define expired where "expired = filter ?X (terminal_jobs s)"
  define remaining where "remaining = length (s_jobs s) - length expired"
  define over where "over \<longleftrightarrow> s_maxRetainedJobs s > 0 \<and> int remaining > s_maxRetainedJobs s"
  define ordered where "ordered = (if over then oldest_jobs live else live)"
  define extra where "extra = (if over then remaining - nat (s_maxRetainedJobs s) else 0)"
  define candidates where "candidates = drop extra ordered"
  define heavy where "heavy = (if s_maxRetainedBytes s > 0
    then buildRemovalsForByteLimit f candidates (s_maxRetainedBytes s) else [])"
  have eqs: "removals = expired @ take extra ordered @ heavy"
    "retained = filter (\<lambda>j. j_id j \<notin> j_id ` set heavy) candidates"
    using choice unfolding cleanup_choice_def Let_def heavy_def candidates_def extra_def ordered_def
      over_def remaining_def expired_def live_def terminal_jobs_def by simp_all
  have inj: "i = j" if "i \<in> set (s_jobs s)" "j \<in> set (s_jobs s)" "j_id i = j_id j" for i j
    using ids that unfolding distinct_map by (meson inj_onD)
  have sub: "set live \<subseteq> set (s_jobs s)" by (auto simp: live_def terminal_jobs_def)
  have ord: "set ordered = set live" by (simp add: ordered_def)
  have parts: "set (take extra ordered) \<union> set candidates = set live"
    unfolding candidates_def ord [symmetric] by (metis append_take_drop_id set_append)
  have dl: "distinct (map j_id live)"
    using ids unfolding live_def terminal_jobs_def by (simp add: distinct_map_filter)
  have "mset (map j_id ordered) = mset (map j_id live)"
    by (simp add: ordered_def oldest_jobs_mset)
  then have do: "distinct (map j_id ordered)" using dl by (metis mset_eq_imp_distinct_iff)
  then have "distinct (map j_id (take extra ordered) @ map j_id candidates)"
    unfolding candidates_def by (simp flip: map_append)
  then have apart: "j_id ` set (take extra ordered) \<inter> j_id ` set candidates = {}"
    and dc: "distinct (map j_id candidates)" by simp_all
  obtain n where heavy: "set heavy = set (take n (oldest_jobs candidates))"
    "0 < s_maxRetainedBytes s \<Longrightarrow>
      sum_list (map f (drop n (oldest_jobs candidates))) \<le> s_maxRetainedBytes s"
  proof (cases "0 < s_maxRetainedBytes s")
    case True
    from heavy_jobs [OF this, of f candidates] True that show thesis unfolding heavy_def by (metis (full_types))
  next
    case False
    then show thesis by (intro that [of 0]) (simp_all add: heavy_def)
  qed
  have hc: "set heavy \<subseteq> set candidates"
    unfolding heavy(1) using set_take_subset [of n "oldest_jobs candidates"] by simp
  have ret: "set retained = set candidates - set heavy"
    using inj hc parts sub unfolding eqs by (auto; blast)
  show "distinct (map j_id retained)" unfolding eqs(2) using dc by (rule distinct_map_filter)
  show "set removals \<union> set retained = set (terminal_jobs s)"
    using parts hc unfolding ret eqs(1) live_def expired_def by auto
  show "set removals \<inter> set retained = {}"
    using apart parts unfolding ret eqs(1) live_def expired_def by auto
  show "\<forall>j\<in>set retained. \<not> ?X j"
    using parts unfolding ret live_def by auto
  show "\<forall>j\<in>set retained. \<forall>i\<in>set removals. \<not> ?X i \<longrightarrow> job_age i \<le> job_age j"
  proof (intro ballI impI)
    fix j i assume j: "j \<in> set retained" and i: "i \<in> set removals" "\<not> ?X i"
    have jc: "j \<in> set candidates" "j \<notin> set heavy" using j unfolding ret by auto
    from i have "i \<in> set (take extra ordered) \<or> i \<in> set heavy" by (auto simp: eqs(1) expired_def)
    then show "job_age i \<le> job_age j"
    proof
      assume a: "i \<in> set (take extra ordered)"
      then have over by (auto simp: extra_def split: if_splits)
      with a jc(1) show ?thesis
        using oldest_split [of i extra live j] by (simp add: ordered_def candidates_def)
    next
      assume a: "i \<in> set heavy"
      have "j \<in> set (take n (oldest_jobs candidates) @ drop n (oldest_jobs candidates))"
        using jc(1) by simp
      with jc(2) have "j \<in> set (drop n (oldest_jobs candidates))" unfolding heavy(1) set_append by blast
      with a show ?thesis using oldest_split [of i n candidates j] by (simp add: heavy(1))
    qed
  qed
  show "0 < s_maxRetainedBytes s \<longrightarrow> sum_list (map f retained) \<le> s_maxRetainedBytes s"
    using heavy(2) sum_filter_ids [OF dc, of f n] unfolding eqs(2) heavy(1) by simp
  let ?busy = "length (filter (\<lambda>j. \<not> ?P j) (s_jobs s))"
  have "length retained \<le> length candidates" by (simp add: eqs(2))
  also have "\<dots> = length live - extra" by (simp add: candidates_def ordered_def)
  finally have len: "length retained \<le> length live - extra" .
  have "length (s_jobs s) = ?busy + length (terminal_jobs s)"
    unfolding terminal_jobs_def using sum_length_filter_compl [of ?P "s_jobs s"] by simp
  moreover have "length (terminal_jobs s) = length expired + length live"
    unfolding expired_def live_def using sum_length_filter_compl [of ?X "terminal_jobs s"] by simp
  ultimately have rem: "remaining = ?busy + length live" by (simp add: remaining_def)
  show "0 < s_maxRetainedJobs s \<longrightarrow> int (?busy + length retained) \<le> max (s_maxRetainedJobs s) (int ?busy)"
    using len rem by (auto simp: extra_def over_def split: if_splits)
qed


lemma cleanupJobs_jobs:
  assumes "distinct (map j_id (s_jobs s))" and "cleanupJobs f now s = (due, dirs, s')"
    and "cleanup_choice f now s = (removals, retained)"
  shows "set (s_jobs s') = {j \<in> set (s_jobs s). \<not> isTerminalBuildStatus (j_status j)} \<union> set retained"
    and "terminal_jobs s' = filter (\<lambda>j. j \<in> set retained) (terminal_jobs s)"
    and "distinct (map j_id (s_jobs s'))"
    and "\<exists>P. s' = s\<lparr>s_jobs := filter P (s_jobs s)\<rparr>"
proof -
  note split = cleanup_choice_split [OF assms(1,3)]
  have inj: "i = j" if "i \<in> set (s_jobs s)" "j \<in> set (s_jobs s)" "j_id i = j_id j" for i j
    using assms(1) that unfolding distinct_map by (meson inj_onD)
  have sub: "set removals \<subseteq> set (s_jobs s)" using split(1) by (auto simp: terminal_jobs_def)
  have "cleanup_choice f now s = ([], [])" if "s_jobs s = []"
    using that by (simp add: cleanup_choice_def Let_def buildRemovalsForByteLimit_def oldest_jobs_def)
  then have js: "s_jobs s' = filter (\<lambda>j. j_id j \<notin> j_id ` set removals) (s_jobs s)"
    and s': "\<exists>P. s' = s\<lparr>s_jobs := filter P (s_jobs s)\<rparr>"
    using assms(2,3) by (auto simp: cleanupJobs_def split: if_splits intro: exI [of _ "\<lambda>_. True"])
  have cut: "s_jobs s' = filter (\<lambda>j. j \<notin> set removals) (s_jobs s)"
    unfolding js by (rule filter_cong [OF refl]) (use inj sub in blast)
  show "set (s_jobs s') = {j \<in> set (s_jobs s). \<not> isTerminalBuildStatus (j_status j)} \<union> set retained"
    unfolding cut using split(1,2) by (auto simp: terminal_jobs_def)
  show "terminal_jobs s' = filter (\<lambda>j. j \<in> set retained) (terminal_jobs s)"
    unfolding terminal_jobs_def cut filter_filter
    by (rule filter_cong [OF refl]) (use split(1,2) in \<open>auto simp: terminal_jobs_def\<close>)
  show "distinct (map j_id (s_jobs s'))" unfolding js using assms(1) by (rule distinct_map_filter)
  show "\<exists>P. s' = s\<lparr>s_jobs := filter P (s_jobs s)\<rparr>" by (rule s')
qed

text \<open>
  A cleanup never touches a job that is queued or running. Of the finished ones it
  removes all that are older than the time to live, and among the others the oldest first, until
  the number of jobs and the bytes of their work directories are within the limits (as far as
  unfinished jobs allow).
\<close>

theorem cleanup_removes_oldest_finished:
  assumes "distinct (map j_id (s_jobs s))" and "cleanupJobs f now s = (due, dirs, s')"
  shows "(\<forall>j\<in>set (s_jobs s). \<not> isTerminalBuildStatus (j_status j) \<longrightarrow> j \<in> set (s_jobs s'))
    \<and> set (s_jobs s') \<subseteq> set (s_jobs s)
    \<and> (\<forall>j\<in>set (terminal_jobs s'). \<not> job_expired (s_jobTTL s) now j)
    \<and> (\<forall>j\<in>set (terminal_jobs s'). \<forall>i\<in>set (s_jobs s) - set (s_jobs s').
        \<not> job_expired (s_jobTTL s) now i \<longrightarrow> job_age i \<le> job_age j)
    \<and> (0 < s_maxRetainedJobs s \<longrightarrow> int (length (s_jobs s')) \<le> max (s_maxRetainedJobs s)
        (int (length (filter (\<lambda>j. \<not> isTerminalBuildStatus (j_status j)) (s_jobs s)))))
    \<and> (0 < s_maxRetainedBytes s \<longrightarrow> sum_list (map f (terminal_jobs s')) \<le> s_maxRetainedBytes s)"
proof -
  obtain removals retained where choice: "cleanup_choice f now s = (removals, retained)" by force
  note split = cleanup_choice_split [OF assms(1) choice]
  note after = cleanupJobs_jobs [OF assms choice]
  have left: "set (terminal_jobs s') = set retained" unfolding after(2) using split(1) by auto
  have gone: "set (s_jobs s) - set (s_jobs s') = set removals"
    unfolding after(1) using split(1,2) by (auto simp: terminal_jobs_def)
  have "distinct (s_jobs s')" "distinct retained"
    using after(3) split(7) by (simp_all add: distinct_map)
  then have same: "mset (terminal_jobs s') = mset retained"
    using left set_eq_iff_mset_eq_distinct [of "terminal_jobs s'" retained] by (simp add: terminal_jobs_def)
  let ?busy = "filter (\<lambda>j. \<not> isTerminalBuildStatus (j_status j)) (s_jobs s)"
  have "length (s_jobs s') = card (set ?busy \<union> set retained)"
    using distinct_card [OF \<open>distinct (s_jobs s')\<close>] unfolding after(1) by simp
  also have "\<dots> \<le> card (set ?busy) + card (set retained)" by (rule card_Un_le)
  also have "\<dots> \<le> length ?busy + length retained" by (intro add_mono card_length)
  finally have "int (length (s_jobs s')) \<le> int (length ?busy + length retained)" by simp
  moreover have "sum_list (map f (terminal_jobs s')) = sum_list (map f retained)"
    by (rule sum_list_mset_cong [OF same])
  moreover have "set (s_jobs s') \<subseteq> set (s_jobs s)" using after(4) by auto
  ultimately show ?thesis
    using split(3-6) after(1) unfolding left gone by auto
qed

text \<open>Three finished jobs and a running one, with at most two to be kept.\<close>

definition sample_jobs :: build_service where
  "sample_jobs =
    (let job = (\<lambda>i st t. (newJob i ''u'' [] 0 100)\<lparr>j_status := st, j_finishedAt := t\<rparr>) in
     (NewBuildService 4 ''/tmp'' \<lparr>b_RootDir = ''/srv'', b_RemoteEnabled = True, b_MaxWorkers = 2,
        b_JobTTL = 100, b_MaxRetainedJobs = 2, b_MaxRetainedBytes = 15, b_CleanupInterval = 0,
        b_MaxLogBytes = 100, b_TempRoot = []\<rparr>)
      \<lparr>s_jobs := [job ''c'' ''success'' 70, job ''r'' ''running'' zero_time, job ''a'' ''failed'' 10,
                 job ''b'' ''success'' 60]\<rparr>)"

theorem cleanup_removes_oldest_finished_witness:
  "map j_id (s_jobs (snd (snd (cleanupJobs (\<lambda>_. 10) 150 sample_jobs)))) = [''c'', ''r'']
    \<and> sum_list (map (\<lambda>_. 10) (terminal_jobs (snd (snd (cleanupJobs (\<lambda>_. 10) 150 sample_jobs))))) \<le> (15::int)"
proof -
  let ?r = "cleanupJobs (\<lambda>_. 10) 150 sample_jobs"
  have ok: "map j_id (s_jobs (snd (snd ?r))) = [''c'', ''r'']" "distinct (map j_id (s_jobs sample_jobs))"
    "s_maxRetainedBytes sample_jobs = 15" by code_simp+
  have "?r = (fst ?r, fst (snd ?r), snd (snd ?r))" by simp
  from cleanup_removes_oldest_finished [OF ok(2) this] ok(1,3) show ?thesis by simp
qed

end
