(* ===== verification/BuildWorkers.thy ===== *)
theory BuildWorkers
  imports BuildRun
begin

text \<open>
  The goroutines of \<open>runBuild\<close>: one per job, which takes the lock of its unit, then a slot, runs,
  ends the job, and gives slot and lock back in the reverse order. What the build function does
  is left open: it may log anything, return any product or fail with any error, at any time.

  A job is ended in one step, although the code sets the status and appends the last log lines
  under two holds of the job's mutex.
\<close>

section \<open>Workers\<close>

datatype phase = WaitLock | WaitSlot | Working gotime | Ended | SlotFreed | Finished

record builders =
  bw_svc :: build_service
  bw_worker :: "string \<Rightarrow> (string \<times> phase) option"
  bw_owner :: "string \<Rightarrow> string option"
  bw_slots :: nat

fun holds_lock :: "phase \<Rightarrow> bool" where
  "holds_lock WaitLock = False"
| "holds_lock Finished = False"
| "holds_lock _ = True"

fun holds_slot :: "phase \<Rightarrow> bool" where
  "holds_slot (Working _) = True"
| "holds_slot Ended = True"
| "holds_slot _ = False"

fun phase_rank :: "phase \<Rightarrow> nat" where
  "phase_rank WaitLock = 0"
| "phase_rank WaitSlot = 1"
| "phase_rank (Working _) = 2"
| "phase_rank Ended = 3"
| "phase_rank SlotFreed = 4"
| "phase_rank Finished = 5"

definition update_job :: "string \<Rightarrow> (buildJob \<Rightarrow> buildJob) \<Rightarrow> build_service \<Rightarrow> build_service" where
  "update_job i f s = s\<lparr>s_jobs := map (\<lambda>j. if j_id j = i then f j else j) (s_jobs s)\<rparr>"

definition set_phase :: "string \<Rightarrow> string \<Rightarrow> phase \<Rightarrow> builders \<Rightarrow> builders" where
  "set_phase i u ph B = B\<lparr>bw_worker := (bw_worker B)(i \<mapsto> (u, ph))\<rparr>"

definition NewBuilders :: "build_service \<Rightarrow> builders" where
  "NewBuilders s = \<lparr>bw_svc = s, bw_worker = (\<lambda>_. None), bw_owner = (\<lambda>_. None), bw_slots = 0\<rparr>"

text \<open>
  A step is labelled with the job whose goroutine moves on, or with \<open>None\<close> for a request, a log
  line or a cleanup. The ids of new jobs, 64 random bits, are taken to be new.
\<close>

inductive build_step :: "(goerr + string) \<Rightarrow> (duration \<Rightarrow> string) \<Rightarrow> string option \<Rightarrow> builders \<Rightarrow> builders \<Rightarrow> bool"
  for getwd fmt where
  request: "StartBuild getwd unitPath target (bw_svc B) w = (Inr (i, u), s', w') \<Longrightarrow> bw_worker B i = None \<Longrightarrow>
    build_step getwd fmt None B (set_phase i u WaitLock (B\<lparr>bw_svc := s'\<rparr>))"
| take_lock: "bw_worker B i = Some (u, WaitLock) \<Longrightarrow> bw_owner B u = None \<Longrightarrow>
    build_step getwd fmt (Some i) B (set_phase i u WaitSlot (B\<lparr>bw_owner := (bw_owner B)(u \<mapsto> i)\<rparr>))"
| take_slot: "bw_worker B i = Some (u, WaitSlot) \<Longrightarrow> bw_slots B < s_workers (bw_svc B) \<Longrightarrow>
    build_step getwd fmt (Some i) B (set_phase i u (Working t)
      (B\<lparr>bw_slots := bw_slots B + 1,
        bw_svc := update_job i (startJob fmt (s_tempRoot (bw_svc B)) t) (bw_svc B)\<rparr>))"
| log_line: "bw_worker B i = Some (u, Working t) \<Longrightarrow>
    build_step getwd fmt None B (B\<lparr>bw_svc := update_job i (job_appendLog entry) (bw_svc B)\<rparr>)"
| complete: "bw_worker B i = Some (u, Working t) \<Longrightarrow>
    build_step getwd fmt (Some i) B (set_phase i u Ended
      (B\<lparr>bw_svc := update_job i (completeJob fmt t t' productPath) (bw_svc B)\<rparr>))"
| failed: "bw_worker B i = Some (u, Working t) \<Longrightarrow>
    build_step getwd fmt (Some i) B (set_phase i u Ended
      (B\<lparr>bw_svc := update_job i (failJob t' err) (bw_svc B)\<rparr>))"
| free_slot: "bw_worker B i = Some (u, Ended) \<Longrightarrow>
    build_step getwd fmt (Some i) B (set_phase i u SlotFreed (B\<lparr>bw_slots := bw_slots B - 1\<rparr>))"
| unlock: "bw_worker B i = Some (u, SlotFreed) \<Longrightarrow>
    build_step getwd fmt (Some i) B (set_phase i u Finished (B\<lparr>bw_owner := (bw_owner B)(u := None)\<rparr>))"
| cleanup: "cleanupJobs pathSize now (bw_svc B) = (due, dirs, s') \<Longrightarrow>
    build_step getwd fmt None B (B\<lparr>bw_svc := s'\<rparr>)"

inductive build_reach :: "(goerr + string) \<Rightarrow> (duration \<Rightarrow> string) \<Rightarrow> build_service \<Rightarrow> builders \<Rightarrow> bool"
  for getwd fmt s where
  start: "build_reach getwd fmt s (NewBuilders s)"
| step: "build_reach getwd fmt s B \<Longrightarrow> build_step getwd fmt l B B' \<Longrightarrow> build_reach getwd fmt s B'"

section \<open>The invariant\<close>

fun phase_status :: "phase \<Rightarrow> string \<Rightarrow> bool" where
  "phase_status WaitLock st = (st = ''queued'')"
| "phase_status WaitSlot st = (st = ''queued'')"
| "phase_status (Working _) st = (st = ''running'')"
| "phase_status _ st = isTerminalBuildStatus st"

definition job_ok :: "int \<Rightarrow> buildJob \<Rightarrow> bool" where
  "job_ok limit j \<longleftrightarrow> j_maxLogBytes j = limit \<and> int (length (j_logBuf j)) \<le> limit
    \<and> (j_productPath j \<noteq> [] \<longrightarrow> j_status j = ''success'') \<and> (j_err j \<noteq> None \<longleftrightarrow> j_status j = ''failed'')"

definition jobs_ok :: "builders \<Rightarrow> bool" where
  "jobs_ok B \<longleftrightarrow> distinct (map j_id (s_jobs (bw_svc B))) \<and> 0 < s_maxLogBytes (bw_svc B)
    \<and> (\<forall>j\<in>set (s_jobs (bw_svc B)). job_ok (s_maxLogBytes (bw_svc B)) j
        \<and> (\<exists>u ph. bw_worker B (j_id j) = Some (u, ph) \<and> phase_status ph (j_status j)))"

definition locks_ok :: "builders \<Rightarrow> bool" where
  "locks_ok B \<longleftrightarrow> (\<forall>u i. bw_owner B u = Some i \<longleftrightarrow> (\<exists>ph. bw_worker B i = Some (u, ph) \<and> holds_lock ph))"

definition in_slot :: "builders \<Rightarrow> string set" where
  "in_slot B = {i. \<exists>u ph. bw_worker B i = Some (u, ph) \<and> holds_slot ph}"

definition slots_ok :: "builders \<Rightarrow> bool" where
  "slots_ok B \<longleftrightarrow> finite (in_slot B) \<and> bw_slots B = card (in_slot B) \<and> bw_slots B \<le> s_workers (bw_svc B)"

lemma bw_simps [simp]:
  "bw_svc (set_phase i u ph B) = bw_svc B" "bw_owner (set_phase i u ph B) = bw_owner B"
  "bw_slots (set_phase i u ph B) = bw_slots B"
  "bw_worker (set_phase i u ph B) = (bw_worker B)(i \<mapsto> (u, ph))"
  by (simp_all add: set_phase_def)

lemma update_job_simps [simp]:
  "s_workers (update_job i f s) = s_workers s" "s_maxLogBytes (update_job i f s) = s_maxLogBytes s"
  "s_tempRoot (update_job i f s) = s_tempRoot s"
  by (simp_all add: update_job_def)

lemma in_slot_set_phase:
  "in_slot (set_phase i u ph B) = (if holds_slot ph then insert i (in_slot B) else in_slot B - {i})"
  by (auto simp: in_slot_def)

lemma in_slot_other [simp]:
  "in_slot (B\<lparr>bw_svc := s\<rparr>) = in_slot B" "in_slot (B\<lparr>bw_owner := l\<rparr>) = in_slot B"
  "in_slot (B\<lparr>bw_slots := n\<rparr>) = in_slot B"
  by (simp_all add: in_slot_def)

lemma in_slot_iff: "bw_worker B i = Some (u, ph) \<Longrightarrow> i \<in> in_slot B \<longleftrightarrow> holds_slot ph"
  by (auto simp: in_slot_def)

lemma StartBuild_Inr:
  assumes "StartBuild getwd unitPath target s w = (Inr (i, u), s', w')"
  shows "\<exists>p now. s' = s\<lparr>s_jobs := row_upsert j_id (newJob i p target now (s_maxLogBytes s)) (s_jobs s)\<rparr>"
  using assms by (auto simp: StartBuild_def split: if_splits sum.splits prod.splits)

lemma cleanupJobs_frame:
  "cleanupJobs f now s = (due, dirs, s') \<Longrightarrow> \<exists>P. s' = s\<lparr>s_jobs := filter P (s_jobs s)\<rparr>"
  by (auto simp: cleanupJobs_def split: if_splits prod.splits intro: exI [of _ "\<lambda>_. True"])

lemma locks_okD:
  "locks_ok B \<Longrightarrow> bw_owner B u = Some i \<longleftrightarrow> (\<exists>ph. bw_worker B i = Some (u, ph) \<and> holds_lock ph)"
  by (simp add: locks_ok_def)

lemma locks_ok_same:
  assumes "locks_ok B" and "bw_worker B' = bw_worker B" and "bw_owner B' = bw_owner B"
  shows "locks_ok B'"
  using assms by (simp add: locks_ok_def)

lemma locks_ok_phase:
  assumes "locks_ok B" and "bw_worker B i = Some (u, ph)" and "holds_lock ph' = holds_lock ph"
    and "bw_worker B' = (bw_worker B)(i \<mapsto> (u, ph'))" "bw_owner B' = bw_owner B"
  shows "locks_ok B'"
  unfolding locks_ok_def
proof (intro allI)
  fix v k
  show "bw_owner B' v = Some k \<longleftrightarrow> (\<exists>ph. bw_worker B' k = Some (v, ph) \<and> holds_lock ph)"
    using locks_okD [OF assms(1), of v k] assms(2-5) by (cases "k = i") auto
qed

lemma locks_ok_new:
  assumes "locks_ok B" and "bw_worker B i = None"
    and "bw_worker B' = (bw_worker B)(i \<mapsto> (u, WaitLock))" "bw_owner B' = bw_owner B"
  shows "locks_ok B'"
  unfolding locks_ok_def
proof (intro allI)
  fix v k
  show "bw_owner B' v = Some k \<longleftrightarrow> (\<exists>ph. bw_worker B' k = Some (v, ph) \<and> holds_lock ph)"
    using locks_okD [OF assms(1), of v k] assms(2-) by (cases "k = i") auto
qed

lemma locks_ok_acquire:
  assumes "locks_ok B" and "bw_worker B i = Some (u, WaitLock)" and "bw_owner B u = None"
    and "bw_worker B' = (bw_worker B)(i \<mapsto> (u, WaitSlot))" "bw_owner B' = (bw_owner B)(u \<mapsto> i)"
  shows "locks_ok B'"
  unfolding locks_ok_def
proof (intro allI)
  fix v k
  show "bw_owner B' v = Some k \<longleftrightarrow> (\<exists>ph. bw_worker B' k = Some (v, ph) \<and> holds_lock ph)"
    using locks_okD [OF assms(1), of v k] assms(2-) by (cases "k = i"; cases "v = u") auto
qed

lemma locks_ok_release:
  assumes "locks_ok B" and "bw_worker B i = Some (u, SlotFreed)"
    and "bw_worker B' = (bw_worker B)(i \<mapsto> (u, Finished))" "bw_owner B' = (bw_owner B)(u := None)"
  shows "locks_ok B'"
  unfolding locks_ok_def
proof (intro allI)
  fix v k
  have "bw_owner B u = Some i" using locks_okD [OF assms(1), of u i] assms(2) by simp
  then show "bw_owner B' v = Some k \<longleftrightarrow> (\<exists>ph. bw_worker B' k = Some (v, ph) \<and> holds_lock ph)"
    using locks_okD [OF assms(1), of v k] assms(2-) by (cases "k = i"; cases "v = u") auto
qed

lemma locks_ok_step: "build_step getwd fmt l B B' \<Longrightarrow> locks_ok B \<Longrightarrow> locks_ok B'"
proof (induction rule: build_step.induct)
  case (request unitPath target B w i u s' w')
  show ?case by (rule locks_ok_new [OF request(3,2)]) simp_all
next
  case (take_lock B i u)
  show ?case by (rule locks_ok_acquire [OF take_lock(3,1,2)]) simp_all
next
  case (take_slot B i u t)
  show ?case by (rule locks_ok_phase [OF take_slot(3,1)]) simp_all
next
  case (log_line B i u t entry)
  show ?case by (rule locks_ok_same [OF log_line(2)]) simp_all
next
  case (complete B i u t t' p)
  show ?case by (rule locks_ok_phase [OF complete(2,1)]) simp_all
next
  case (failed B i u t t' e)
  show ?case by (rule locks_ok_phase [OF failed(2,1)]) simp_all
next
  case (free_slot B i u)
  show ?case by (rule locks_ok_phase [OF free_slot(2,1)]) simp_all
next
  case (unlock B i u)
  show ?case by (rule locks_ok_release [OF unlock(2,1)]) simp_all
next
  case (cleanup pathSize now B due dirs s')
  show ?case by (rule locks_ok_same [OF cleanup(2)]) simp_all
qed

lemma slots_ok_step: "build_step getwd fmt l B B' \<Longrightarrow> slots_ok B \<Longrightarrow> slots_ok B'"
proof (induction rule: build_step.induct)
  case (request unitPath target B w i u s' w')
  then have "i \<notin> in_slot B" by (auto simp: in_slot_def)
  with request show ?case by (auto simp: slots_ok_def in_slot_set_phase dest: StartBuild_Inr)
next
  case (take_slot B i u t)
  then show ?case by (auto simp: slots_ok_def in_slot_set_phase in_slot_iff)
next
  case (free_slot B i u)
  then have "i \<in> in_slot B" by (simp add: in_slot_iff)
  moreover from this free_slot have "0 < card (in_slot B)" by (auto simp: slots_ok_def card_gt_0_iff)
  ultimately show ?case using free_slot by (auto simp: slots_ok_def in_slot_set_phase)
next
  case (cleanup pathSize now B due dirs s')
  then show ?case by (auto simp: slots_ok_def dest!: cleanupJobs_frame)
qed (auto simp: slots_ok_def in_slot_set_phase in_slot_iff insert_absorb)

lemma job_appendLog_simps [simp]:
  "j_id (job_appendLog e j) = j_id j" "j_status (job_appendLog e j) = j_status j"
  "j_maxLogBytes (job_appendLog e j) = j_maxLogBytes j" "j_err (job_appendLog e j) = j_err j"
  "j_productPath (job_appendLog e j) = j_productPath j"
  by (simp_all add: job_appendLog_def)

lemma job_appendLog_bound [simp]:
  "0 < j_maxLogBytes j \<Longrightarrow> int (length (j_logBuf (job_appendLog e j))) \<le> j_maxLogBytes j"
  by (simp add: job_appendLog_def appendLogWithLimit_shown shown_log_length)

lemma job_appendLog_le:
  "0 < k \<Longrightarrow> j_maxLogBytes j = k \<Longrightarrow> int (length (j_logBuf (job_appendLog e j))) \<le> k"
  using job_appendLog_bound by blast

lemma job_appendLog_ok: "0 < limit \<Longrightarrow> job_ok limit j \<Longrightarrow> job_ok limit (job_appendLog e j)"
  using job_appendLog_bound [of j e] by (auto simp: job_ok_def)

lemma startJob_ok:
  "0 < limit \<Longrightarrow> job_ok limit j \<Longrightarrow> j_status j = ''queued'' \<Longrightarrow>
    job_ok limit (startJob fmt r t j) \<and> j_status (startJob fmt r t j) = ''running''"
  by (simp add: startJob_def Let_def job_ok_def) (auto intro!: job_appendLog_le)

lemma completeJob_ok:
  "0 < limit \<Longrightarrow> job_ok limit j \<Longrightarrow> j_status j = ''running'' \<Longrightarrow>
    job_ok limit (completeJob fmt t t' p j) \<and> j_status (completeJob fmt t t' p j) = ''success''"
  by (simp add: completeJob_def Let_def job_ok_def) (auto intro!: job_appendLog_le)

lemma failJob_ok:
  "0 < limit \<Longrightarrow> job_ok limit j \<Longrightarrow> j_status j = ''running'' \<Longrightarrow>
    job_ok limit (failJob t e j) \<and> j_status (failJob t e j) = ''failed''"
  by (simp add: failJob_def Let_def job_ok_def) (auto intro!: job_appendLog_le)

lemma end_job_id [simp]:
  "j_id (startJob fmt r t j) = j_id j" "j_id (completeJob fmt t t' p j) = j_id j"
  "j_id (failJob t e j) = j_id j"
  by (simp_all add: startJob_def completeJob_def failJob_def Let_def)

lemma end_job_status [simp]:
  "j_status (startJob fmt r t j) = ''running''" "j_status (completeJob fmt t t' p j) = ''success''"
  "j_status (failJob t e j) = ''failed''"
  by (simp_all add: startJob_def completeJob_def failJob_def Let_def)

lemma s_jobs_update_job:
  "s_jobs (update_job i f s) = map (\<lambda>j. if j_id j = i then f j else j) (s_jobs s)"
  by (simp add: update_job_def)

text \<open>An update of one job and of its worker's phase.\<close>

lemma jobs_ok_update:
  assumes ok: "jobs_ok B" and w: "bw_worker B i = Some (u, ph)"
    and f: "\<And>j. j_id (f j) = j_id j"
    and step: "\<And>j. job_ok (s_maxLogBytes (bw_svc B)) j \<Longrightarrow> phase_status ph (j_status j) \<Longrightarrow>
      job_ok (s_maxLogBytes (bw_svc B)) (f j) \<and> phase_status ph' (j_status (f j))"
    and B': "bw_svc B' = update_job i f (bw_svc B)" "bw_worker B' = (bw_worker B)(i \<mapsto> (u, ph'))"
  shows "jobs_ok B'"
proof -
  have ids: "map j_id (s_jobs (bw_svc B')) = map j_id (s_jobs (bw_svc B))"
    by (simp add: B' s_jobs_update_job f)
  have "job_ok (s_maxLogBytes (bw_svc B)) j'
      \<and> (\<exists>u ph. bw_worker B' (j_id j') = Some (u, ph) \<and> phase_status ph (j_status j'))"
    if j': "j' \<in> set (s_jobs (bw_svc B'))" for j'
  proof -
    from j' obtain j where j: "j \<in> set (s_jobs (bw_svc B))" "j' = (if j_id j = i then f j else j)"
      by (auto simp: B' s_jobs_update_job)
    from ok j(1) obtain v q where old: "job_ok (s_maxLogBytes (bw_svc B)) j"
      "bw_worker B (j_id j) = Some (v, q)" "phase_status q (j_status j)"
      by (auto simp: jobs_ok_def)
    show ?thesis
    proof (cases "j_id j = i")
      case True
      with old(2) w have "q = ph" by simp
      with old step [of j] True j(2) show ?thesis by (simp add: B' f)
    next
      case False
      with old j(2) show ?thesis by (simp add: B')
    qed
  qed
  moreover have "distinct (map j_id (s_jobs (bw_svc B')))" using ok unfolding ids jobs_ok_def by blast
  moreover have "s_maxLogBytes (bw_svc B') = s_maxLogBytes (bw_svc B)" by (simp add: B'(1))
  ultimately show ?thesis using ok unfolding jobs_ok_def by simp
qed

lemma jobs_ok_phase:
  assumes "jobs_ok B" and "bw_worker B i = Some (u, ph)"
    and "\<And>st. phase_status ph st \<Longrightarrow> phase_status ph' st"
    and "bw_svc B' = bw_svc B" "bw_worker B' = (bw_worker B)(i \<mapsto> (u, ph'))"
  shows "jobs_ok B'"
  using assms by (fastforce simp: jobs_ok_def)

lemma jobs_ok_request:
  assumes ok: "jobs_ok B" and i: "bw_worker B i = None"
    and B': "bw_svc B' = (bw_svc B)\<lparr>s_jobs :=
      row_upsert j_id (newJob i p target now (s_maxLogBytes (bw_svc B))) (s_jobs (bw_svc B))\<rparr>"
      "bw_worker B' = (bw_worker B)(i \<mapsto> (u, WaitLock))"
  shows "jobs_ok B'"
proof -
  let ?j = "newJob i p target now (s_maxLogBytes (bw_svc B))"
  have new: "i \<notin> j_id ` set (s_jobs (bw_svc B))" using ok i by (auto simp: jobs_ok_def)
  have id: "j_id ?j = i" by (simp add: newJob_def)
  then have jobs: "set (s_jobs (bw_svc B')) = insert ?j (set (s_jobs (bw_svc B)))"
    using new by (auto simp: B' row_upsert_def)
  have "distinct (map j_id (s_jobs (bw_svc B')))"
    using ok by (simp add: B' jobs_ok_def row_upsert_keys)
  moreover have "job_ok (s_maxLogBytes (bw_svc B)) ?j"
    using ok by (simp add: job_ok_def newJob_def jobs_ok_def)
  moreover have "phase_status WaitLock (j_status ?j)" by (simp add: newJob_def)
  moreover have "j_id j \<noteq> i" if "j \<in> set (s_jobs (bw_svc B))" for j using that new by auto
  ultimately show ?thesis using ok unfolding jobs_ok_def jobs by (simp add: B' id)
qed

lemma jobs_ok_cleanup:
  assumes "jobs_ok B" and "bw_svc B' = (bw_svc B)\<lparr>s_jobs := filter P (s_jobs (bw_svc B))\<rparr>"
    and "bw_worker B' = bw_worker B"
  shows "jobs_ok B'"
  using assms(1) unfolding jobs_ok_def assms(2,3) by (simp add: distinct_map_filter del: filter_map_key)

text \<open>The steps of a worker on its own job.\<close>

lemma jobs_ok_work:
  assumes "jobs_ok B" and "bw_worker B i = Some (u, ph)"
    and "\<And>j. j_id (f j) = j_id j"
    and "\<And>limit j. 0 < limit \<Longrightarrow> job_ok limit j \<Longrightarrow> phase_status ph (j_status j) \<Longrightarrow>
      job_ok limit (f j) \<and> phase_status ph' (j_status (f j))"
  shows "jobs_ok (set_phase i u ph' (B\<lparr>bw_slots := n, bw_svc := update_job i f (bw_svc B)\<rparr>))"
  by (rule jobs_ok_update [OF assms(1,2,3)]) (use assms(1,4) in \<open>auto simp: jobs_ok_def\<close>)

lemma jobs_ok_step: "build_step getwd fmt l B B' \<Longrightarrow> jobs_ok B \<Longrightarrow> jobs_ok B'"
proof (induction rule: build_step.induct)
  case (request unitPath target B w i u s' w')
  then obtain p now where s': "s' = (bw_svc B)\<lparr>s_jobs :=
      row_upsert j_id (newJob i p target now (s_maxLogBytes (bw_svc B))) (s_jobs (bw_svc B))\<rparr>"
    using StartBuild_Inr by blast
  show ?case by (rule jobs_ok_request [OF request(3,2)]) (simp_all add: s')
next
  case (take_lock B i u)
  show ?case by (rule jobs_ok_phase [OF take_lock(3,1)]) simp_all
next
  case (take_slot B i u t)
  show ?case by (rule jobs_ok_work [OF take_slot(3,1)]) (simp_all add: startJob_ok)
next
  case (log_line B i u t entry)
  show ?case
    by (rule jobs_ok_update [OF log_line(2,1), of "job_appendLog entry" "Working t"])
      (use log_line in \<open>auto simp: jobs_ok_def intro: job_appendLog_ok\<close>)
next
  case (complete B i u t t' p)
  have "jobs_ok (set_phase i u Ended (B\<lparr>bw_slots := bw_slots B,
      bw_svc := update_job i (completeJob fmt t t' p) (bw_svc B)\<rparr>))"
    by (rule jobs_ok_work [OF complete(2,1)]) (simp_all add: completeJob_ok isTerminalBuildStatus_def)
  then show ?case by simp
next
  case (failed B i u t t' e)
  have "jobs_ok (set_phase i u Ended (B\<lparr>bw_slots := bw_slots B,
      bw_svc := update_job i (failJob t' e) (bw_svc B)\<rparr>))"
    by (rule jobs_ok_work [OF failed(2,1)]) (simp_all add: failJob_ok isTerminalBuildStatus_def)
  then show ?case by simp
next
  case (free_slot B i u)
  show ?case by (rule jobs_ok_phase [OF free_slot(2,1)]) simp_all
next
  case (unlock B i u)
  show ?case by (rule jobs_ok_phase [OF unlock(2,1)]) simp_all
next
  case (cleanup pathSize now B due dirs s')
  from cleanupJobs_frame [OF cleanup(1)] show ?case
    by (elim exE) (rule jobs_ok_cleanup [OF cleanup(2)], simp_all)
qed

section \<open>Reachable states\<close>

lemma build_reach_inv:
  assumes "build_reach getwd fmt (NewBuildService n tmp cfg) B"
  shows "jobs_ok B \<and> locks_ok B \<and> slots_ok B"
  using assms
proof induction
  case start
  have "jobs_ok (NewBuilders (NewBuildService n tmp cfg))"
    by (simp add: jobs_ok_def NewBuilders_def NewBuildService_def positive_or_def)
  then show ?case by (simp add: locks_ok_def slots_ok_def in_slot_def NewBuilders_def)
next
  case (step B l B')
  then show ?case using jobs_ok_step locks_ok_step slots_ok_step by blast
qed

lemma s_workers_step: "build_step getwd fmt l B B' \<Longrightarrow> s_workers (bw_svc B') = s_workers (bw_svc B)"
  by (induction rule: build_step.induct) (auto dest!: StartBuild_Inr cleanupJobs_frame)

lemma s_workers_reach: "build_reach getwd fmt s B \<Longrightarrow> s_workers (bw_svc B) = s_workers s"
  by (induction rule: build_reach.induct) (simp_all add: NewBuilders_def s_workers_step)

lemma s_workers_pos: "0 < s_workers (NewBuildService n tmp cfg)"
  by (simp add: NewBuildService_def positive_or_def defaultBuildWorkers_def Let_def)

definition running_jobs :: "builders \<Rightarrow> buildJob set" where
  "running_jobs B = {j \<in> set (s_jobs (bw_svc B)). j_status j = ''running''}"

lemma running_phase:
  assumes "jobs_ok B" and "j \<in> running_jobs B"
  obtains u t where "bw_worker B (j_id j) = Some (u, Working t)"
proof -
  from assms obtain u ph where "bw_worker B (j_id j) = Some (u, ph)" "phase_status ph ''running''"
    by (fastforce simp: jobs_ok_def running_jobs_def)
  then show thesis using that by (cases ph) (auto simp: isTerminalBuildStatus_def)
qed

text \<open>One build of unit \<open>u\<close> under the root \<open>/srv\<close>, up to each phase of its goroutine.\<close>

definition sample_build_config :: BuildConfig where
  "sample_build_config = \<lparr>b_RootDir = ''/srv'', b_RemoteEnabled = True, b_MaxWorkers = 1, b_JobTTL = 0,
     b_MaxRetainedJobs = 0, b_MaxRetainedBytes = 0, b_CleanupInterval = 0, b_MaxLogBytes = 100,
     b_TempRoot = ''/tmp''\<rparr>"

abbreviation sample_service :: build_service where
  "sample_service \<equiv> NewBuildService 2 [] sample_build_config"

abbreviation sample_request where
  "sample_request \<equiv> StartBuild (Inr ''/'') ''u'' [] sample_service
     ((quiet_world [] empty_db)\<lparr>w_rand := [Some [1]]\<rparr>)"

abbreviation sample_fmt :: "duration \<Rightarrow> string" where "sample_fmt \<equiv> (\<lambda>_. [])"

definition builders_queued :: builders where
  "builders_queued = set_phase ''01'' ''/srv/u'' WaitLock
    ((NewBuilders sample_service)\<lparr>bw_svc := fst (snd sample_request)\<rparr>)"

definition builders_locked :: builders where
  "builders_locked = set_phase ''01'' ''/srv/u'' WaitSlot
    (builders_queued\<lparr>bw_owner := (bw_owner builders_queued)(''/srv/u'' \<mapsto> ''01'')\<rparr>)"

definition builders_working :: builders where
  "builders_working = set_phase ''01'' ''/srv/u'' (Working 5)
    (builders_locked\<lparr>bw_slots := bw_slots builders_locked + 1,
      bw_svc := update_job ''01'' (startJob sample_fmt (s_tempRoot (bw_svc builders_locked)) 5) (bw_svc builders_locked)\<rparr>)"

definition builders_done :: builders where
  "builders_done = set_phase ''01'' ''/srv/u'' Ended
    (builders_working\<lparr>bw_svc := update_job ''01'' (completeJob sample_fmt 5 9 ''/tmp/01/p'') (bw_svc builders_working)\<rparr>)"

lemma sample_steps:
  "build_step (Inr ''/'') sample_fmt None (NewBuilders sample_service) builders_queued"
  "build_step (Inr ''/'') sample_fmt (Some ''01'') builders_queued builders_locked"
  "build_step (Inr ''/'') sample_fmt (Some ''01'') builders_locked builders_working"
  "build_step (Inr ''/'') sample_fmt (Some ''01'') builders_working builders_done"
proof -
  have "fst sample_request = Inr (''01'', ''/srv/u'')" by code_simp
  then have "StartBuild (Inr ''/'') ''u'' [] (bw_svc (NewBuilders sample_service))
      ((quiet_world [] empty_db)\<lparr>w_rand := [Some [1]]\<rparr>)
    = (Inr (''01'', ''/srv/u''), fst (snd sample_request), snd (snd sample_request))"
    by (simp add: NewBuilders_def prod_eq_iff)
  then show "build_step (Inr ''/'') sample_fmt None (NewBuilders sample_service) builders_queued"
    unfolding builders_queued_def by (rule build_step.request) (simp add: NewBuilders_def)
  show "build_step (Inr ''/'') sample_fmt (Some ''01'') builders_queued builders_locked"
    unfolding builders_locked_def
    by (rule build_step.take_lock) (simp_all add: builders_queued_def NewBuilders_def)
  have "0 < s_workers (fst (snd sample_request))" by code_simp
  then show "build_step (Inr ''/'') sample_fmt (Some ''01'') builders_locked builders_working"
    unfolding builders_working_def
    by (intro build_step.take_slot) (simp_all add: builders_locked_def builders_queued_def NewBuilders_def)
  show "build_step (Inr ''/'') sample_fmt (Some ''01'') builders_working builders_done"
    unfolding builders_done_def by (rule build_step.complete) (simp add: builders_working_def)
qed

lemma sample_jobs_done:
  "s_jobs (bw_svc builders_working) = [startJob sample_fmt ''/tmp'' 5 (newJob ''01'' ''u'' [] 0 100)]"
  "s_jobs (bw_svc builders_done) = [completeJob sample_fmt 5 9 ''/tmp/01/p''
    (startJob sample_fmt ''/tmp'' 5 (newJob ''01'' ''u'' [] 0 100))]"
proof -
  have "s_jobs (fst (snd sample_request)) = [newJob ''01'' ''u'' [] 0 100]"
    "s_tempRoot (fst (snd sample_request)) = ''/tmp''" by code_simp+
  then show "s_jobs (bw_svc builders_working) = [startJob sample_fmt ''/tmp'' 5 (newJob ''01'' ''u'' [] 0 100)]"
    unfolding builders_working_def builders_locked_def builders_queued_def
    by (simp add: s_jobs_update_job) (simp add: newJob_def)
  then show "s_jobs (bw_svc builders_done) = [completeJob sample_fmt 5 9 ''/tmp/01/p''
      (startJob sample_fmt ''/tmp'' 5 (newJob ''01'' ''u'' [] 0 100))]"
    unfolding builders_done_def by (simp add: s_jobs_update_job) (simp add: newJob_def)
qed

lemma builders_sample_reach:
  "build_reach (Inr ''/'') sample_fmt sample_service builders_working"
  "build_reach (Inr ''/'') sample_fmt sample_service builders_done"
proof -
  note queued = build_reach.step [OF build_reach.start sample_steps(1)]
  note locked = build_reach.step [OF queued sample_steps(2)]
  show "build_reach (Inr ''/'') sample_fmt sample_service builders_working"
    by (rule build_reach.step [OF locked sample_steps(3)])
  then show "build_reach (Inr ''/'') sample_fmt sample_service builders_done"
    by (rule build_reach.step [OF _ sample_steps(4)])
qed

text \<open>
  Claim C17. However requests, goroutines, log lines and cleanups interleave, no more jobs run at a
  time than the configuration allows, no two of them build the same unit, a log is never longer
  than its limit, and a job has an error exactly when it failed and a product only when it
  succeeded.
\<close>

theorem builds_bounded_and_exclusive:
  assumes "build_reach getwd fmt (NewBuildService n tmp cfg) B"
  shows "card (running_jobs B) \<le> nat (positive_or (defaultBuildWorkers n) (b_MaxWorkers cfg))
    \<and> (\<forall>i\<in>running_jobs B. \<forall>j\<in>running_jobs B.
        map_option fst (bw_worker B (j_id i)) = map_option fst (bw_worker B (j_id j)) \<longrightarrow> i = j)
    \<and> (\<forall>j\<in>set (s_jobs (bw_svc B)). int (length (j_logBuf j)) \<le> j_maxLogBytes j
        \<and> (j_err j \<noteq> None \<longleftrightarrow> j_status j = ''failed'')
        \<and> (j_productPath j \<noteq> [] \<longrightarrow> j_status j = ''success''))"
proof -
  from build_reach_inv [OF assms] have inv: "jobs_ok B" "locks_ok B" "slots_ok B" by auto
  have inj: "inj_on j_id (set (s_jobs (bw_svc B)))" using inv(1) by (simp add: jobs_ok_def distinct_map)
  have sub: "running_jobs B \<subseteq> set (s_jobs (bw_svc B))" by (auto simp: running_jobs_def)
  have slot: "j_id ` running_jobs B \<subseteq> in_slot B"
    by (auto simp: in_slot_def elim!: running_phase [OF inv(1)])
  have "card (running_jobs B) = card (j_id ` running_jobs B)"
    using card_image [OF inj_on_subset [OF inj sub]] by simp
  also have "\<dots> \<le> card (in_slot B)" using inv(3) slot by (intro card_mono) (auto simp: slots_ok_def)
  also have "\<dots> \<le> s_workers (bw_svc B)" using inv(3) by (simp add: slots_ok_def)
  finally have "card (running_jobs B) \<le> nat (positive_or (defaultBuildWorkers n) (b_MaxWorkers cfg))"
    by (simp add: s_workers_reach [OF assms] NewBuildService_def)
  moreover have "i = j" if "i \<in> running_jobs B" "j \<in> running_jobs B"
    "map_option fst (bw_worker B (j_id i)) = map_option fst (bw_worker B (j_id j))" for i j
  proof -
    from that obtain u t t' where "bw_worker B (j_id i) = Some (u, Working t)"
      "bw_worker B (j_id j) = Some (u, Working t')"
      by (elim running_phase [OF inv(1)]) auto
    then have "bw_owner B u = Some (j_id i)" "bw_owner B u = Some (j_id j)"
      using locks_okD [OF inv(2)] by auto
    then have "j_id i = j_id j" by simp
    with that(1,2) sub inj show ?thesis by (meson inj_onD subsetD)
  qed
  moreover have "\<forall>j\<in>set (s_jobs (bw_svc B)). job_ok (s_maxLogBytes (bw_svc B)) j"
    using inv(1) by (simp add: jobs_ok_def)
  ultimately show ?thesis by (auto simp: job_ok_def)
qed

theorem builds_bounded_and_exclusive_witness:
  "map j_status (s_jobs (bw_svc builders_working)) = [''running''] \<and> card (running_jobs builders_working) \<le> 1"
proof -
  have "map j_status (s_jobs (bw_svc builders_working)) = [''running'']" by (simp add: sample_jobs_done)
  moreover have "positive_or (defaultBuildWorkers 2) (b_MaxWorkers sample_build_config) = 1" by code_simp
  moreover note conjunct1 [OF builds_bounded_and_exclusive [OF builders_sample_reach(1)]]
  ultimately show ?thesis by (simp only: nat_1 simp_thms)
qed

section \<open>Finished jobs\<close>

definition build_next :: "(goerr + string) \<Rightarrow> (duration \<Rightarrow> string) \<Rightarrow> builders \<Rightarrow> builders \<Rightarrow> bool" where
  "build_next getwd fmt B B' \<longleftrightarrow> (\<exists>l. build_step getwd fmt l B B')"

text \<open>The job is over, and no other one will have its id.\<close>

definition over_ph :: "phase \<Rightarrow> bool" where
  "over_ph ph \<longleftrightarrow> ph \<in> {Ended, SlotFreed, Finished}"

definition only_job :: "buildJob \<Rightarrow> builders \<Rightarrow> bool" where
  "only_job j B \<longleftrightarrow> (\<forall>j'\<in>set (s_jobs (bw_svc B)). j_id j' = j_id j \<longrightarrow> j' = j)
    \<and> (\<exists>u ph. bw_worker B (j_id j) = Some (u, ph) \<and> over_ph ph)"

lemma only_job_update:
  assumes "only_job j B" and "bw_worker B i = Some (u, ph)" and "\<not> over_ph ph"
    and "\<And>j. j_id (f j) = j_id j"
    and "bw_svc B' = update_job i f (bw_svc B)" and "bw_worker B' = (bw_worker B)(i \<mapsto> (u, ph'))"
  shows "only_job j B'"
proof -
  have "j_id j \<noteq> i" using assms(1-3) by (auto simp: only_job_def)
  with assms(1) show ?thesis by (auto simp: assms(4-6) only_job_def s_jobs_update_job)
qed

lemma only_job_phase:
  assumes "only_job j B" and "bw_worker B i = Some (u, ph)" and "over_ph ph \<Longrightarrow> over_ph ph'"
    and "bw_svc B' = bw_svc B" and "bw_worker B' = (bw_worker B)(i \<mapsto> (u, ph'))"
  shows "only_job j B'"
  using assms by (cases "j_id j = i") (auto simp: only_job_def)

lemma only_job_step: "build_step getwd fmt l B B' \<Longrightarrow> only_job j B \<Longrightarrow> only_job j B'"
proof (induction rule: build_step.induct)
  case (request unitPath target B w i u s' w')
  then obtain p now where s': "s' = (bw_svc B)\<lparr>s_jobs :=
      row_upsert j_id (newJob i p target now (s_maxLogBytes (bw_svc B))) (s_jobs (bw_svc B))\<rparr>"
    using StartBuild_Inr by blast
  have "j_id j \<noteq> i" using request(2,3) by (auto simp: only_job_def)
  moreover have "j_id (newJob i p target now (s_maxLogBytes (bw_svc B))) = i" by (simp add: newJob_def)
  ultimately show ?case using request(3) by (auto simp: only_job_def s' row_upsert_def split: if_splits)
next
  case (take_lock B i u)
  show ?case by (rule only_job_phase [OF take_lock(3,1)]) (simp_all add: over_ph_def)
next
  case (take_slot B i u t)
  show ?case by (rule only_job_update [OF take_slot(3,1)]) (simp_all add: over_ph_def)
next
  case (log_line B i u t entry)
  show ?case by (rule only_job_update [OF log_line(2,1), of "job_appendLog entry" _ "Working t"])
      (use log_line in \<open>auto simp: over_ph_def\<close>)
next
  case (complete B i u t t' p)
  show ?case by (rule only_job_update [OF complete(2,1)]) (simp_all add: over_ph_def)
next
  case (failed B i u t t' e)
  show ?case by (rule only_job_update [OF failed(2,1)]) (simp_all add: over_ph_def)
next
  case (free_slot B i u)
  show ?case by (rule only_job_phase [OF free_slot(2,1)]) (simp_all add: over_ph_def)
next
  case (unlock B i u)
  show ?case by (rule only_job_phase [OF unlock(2,1)]) (simp_all add: over_ph_def)
next
  case (cleanup pathSize now B due dirs s')
  from cleanupJobs_frame [OF cleanup(1)] cleanup(2) show ?case by (auto simp: only_job_def)
qed

lemma only_job_run: "(build_next getwd fmt)\<^sup>*\<^sup>* B B' \<Longrightarrow> only_job j B \<Longrightarrow> only_job j B'"
  by (induction rule: rtranclp_induct) (auto simp: build_next_def dest: only_job_step)

text \<open>
  Once a build has succeeded or failed, its status, error, times, log and product stay as
  they are until a cleanup removes the job; its id then stays unknown.
\<close>

theorem finished_build_never_changes:
  assumes "build_reach getwd fmt (NewBuildService n tmp cfg) B" and "(build_next getwd fmt)\<^sup>*\<^sup>* B B'"
    and "j \<in> set (s_jobs (bw_svc B))" and "isTerminalBuildStatus (j_status j)"
  shows "getJob (j_id j) (bw_svc B') \<in> {getJob (j_id j) (bw_svc B), Inl (Status NotFound ''build_id not found'')}"
proof -
  from build_reach_inv [OF assms(1)] have ok: "jobs_ok B" by simp
  then obtain u ph where w: "bw_worker B (j_id j) = Some (u, ph)" "phase_status ph (j_status j)"
    using assms(3) by (auto simp: jobs_ok_def)
  then have "over_ph ph" using assms(4) by (cases ph) (auto simp: over_ph_def isTerminalBuildStatus_def)
  moreover have "j' = j" if "j' \<in> set (s_jobs (bw_svc B))" "j_id j' = j_id j" for j'
    using ok assms(3) that by (auto simp: jobs_ok_def distinct_map dest: inj_onD)
  ultimately have one: "only_job j B" using w by (auto simp: only_job_def)
  have found: "row_find j_id (j_id j) (s_jobs (bw_svc C)) \<in> {None, Some j}" if "only_job j C" for C
    using that by (cases "row_find j_id (j_id j) (s_jobs (bw_svc C))")
      (auto simp: row_find_def only_job_def dest: find_Some_set)
  have "row_find j_id (j_id j) (s_jobs (bw_svc B)) \<noteq> None"
    using assms(3) by (auto simp: row_find_def find_None_all)
  then show ?thesis using found [OF one] found [OF only_job_run [OF assms(2) one]]
    by (auto simp: getJob_def)
qed

theorem finished_build_never_changes_witness:
  "\<exists>j. getJob ''01'' (bw_svc builders_done) = Inr j \<and> j_status j = ''success'' \<and>
    getJob ''01'' (bw_svc (set_phase ''01'' ''/srv/u'' SlotFreed (builders_done\<lparr>bw_slots := bw_slots builders_done - 1\<rparr>)))
      \<in> {Inr j, Inl (Status NotFound ''build_id not found'')}"
proof -
  let ?B = "set_phase ''01'' ''/srv/u'' SlotFreed (builders_done\<lparr>bw_slots := bw_slots builders_done - 1\<rparr>)"
  let ?j = "completeJob sample_fmt 5 9 ''/tmp/01/p'' (startJob sample_fmt ''/tmp'' 5 (newJob ''01'' ''u'' [] 0 100))"
  note jobs = sample_jobs_done(2)
  have ok: "j_id ?j = ''01''" "j_status ?j = ''success''" by (simp_all add: newJob_def)
  have "row_find j_id ''01'' (s_jobs (bw_svc builders_done)) = Some ?j"
    unfolding jobs row_find_def by (simp only: find.simps(2) ok simp_thms if_True)
  then have found: "getJob ''01'' (bw_svc builders_done) = Inr ?j" by (simp add: getJob_def)
  have "build_step (Inr ''/'') sample_fmt (Some ''01'') builders_done ?B"
    by (rule build_step.free_slot) (simp add: builders_done_def)
  then have run: "(build_next (Inr ''/'') sample_fmt)\<^sup>*\<^sup>* builders_done ?B"
    unfolding build_next_def by blast
  have mem: "?j \<in> set (s_jobs (bw_svc builders_done))" unfolding jobs by (rule list.set_intros(1))
  have over: "isTerminalBuildStatus (j_status ?j)" unfolding ok by (simp add: isTerminalBuildStatus_def)
  note stays = finished_build_never_changes [OF builders_sample_reach(2) run mem over]
  show ?thesis
    by (intro exI [of _ ?j] conjI found ok(2)) (rule stays [unfolded ok(1) found])
qed

section \<open>Progress\<close>

definition build_work :: "(goerr + string) \<Rightarrow> (duration \<Rightarrow> string) \<Rightarrow> builders \<Rightarrow> builders \<Rightarrow> bool" where
  "build_work getwd fmt B B' \<longleftrightarrow> (\<exists>i. build_step getwd fmt (Some i) B B')"

definition work_left :: "builders \<Rightarrow> nat" where
  "work_left B = (\<Sum>i\<in>dom (bw_worker B). 5 - phase_rank (snd (the (bw_worker B i))))"

lemma work_left_phase:
  assumes "finite (dom (bw_worker B))" and "bw_worker B i = Some (u, ph)"
    and "phase_rank ph < phase_rank ph'" and "bw_worker B' = (bw_worker B)(i \<mapsto> (u, ph'))"
  shows "work_left B' < work_left B"
proof -
  have dom: "dom (bw_worker B') = dom (bw_worker B)" using assms(2,4) by auto
  have "phase_rank ph' \<le> 5" by (cases ph') auto
  then show ?thesis unfolding work_left_def dom
    using assms by (intro sum_strict_mono_ex1) (auto intro!: bexI [of _ i])
qed

lemma work_left_set_phase:
  "bw_worker B i = Some (u, ph) \<Longrightarrow> finite (dom (bw_worker B)) \<Longrightarrow> phase_rank ph < phase_rank ph' \<Longrightarrow>
    bw_worker C = bw_worker B \<Longrightarrow> work_left (set_phase i u ph' C) < work_left B"
  by (rule work_left_phase) simp_all

lemma build_work_less:
  "build_step getwd fmt l B B' \<Longrightarrow> l = Some k \<Longrightarrow> finite (dom (bw_worker B)) \<Longrightarrow>
    work_left B' < work_left B \<and> dom (bw_worker B') = dom (bw_worker B)"
  by (induction rule: build_step.induct) (auto, (erule work_left_set_phase; simp)+)

lemma finite_workers: "build_reach getwd fmt s B \<Longrightarrow> finite (dom (bw_worker B))"
proof (induction rule: build_reach.induct)
  case start
  then show ?case by (simp add: NewBuilders_def)
next
  case (step B l B')
  from step(2,3) show ?case by (induction rule: build_step.induct) simp_all
qed

text \<open>Some goroutine can go on as long as one has not finished.\<close>

lemma build_progress:
  assumes inv: "locks_ok B" "slots_ok B" "0 < s_workers (bw_svc B)"
    and w: "bw_worker B i = Some (u, ph)" "ph \<noteq> Finished"
  shows "\<exists>B'. build_work getwd fmt B B'"
proof (rule ccontr)
  assume stuck: "\<nexists>B'. build_work getwd fmt B B'"
  then have no: "\<not> build_step getwd fmt (Some k) B B'" for k B' by (auto simp: build_work_def)
  have waiting: "q \<in> {WaitLock, WaitSlot, Finished}" if "bw_worker B k = Some (v, q)" for k v q
    using no that by (cases q) (blast intro: build_step.complete build_step.free_slot build_step.unlock)+
  then have "in_slot B = {}" by (fastforce simp: in_slot_def)
  with inv have "bw_slots B < s_workers (bw_svc B)" by (simp add: slots_ok_def)
  then have lockless: "q \<in> {WaitLock, Finished}" if "bw_worker B k = Some (v, q)" for k v q
    using waiting [OF that] that no by (blast intro: build_step.take_slot)
  have "bw_owner B u = None"
  proof (cases "bw_owner B u")
    case (Some k)
    then obtain q where "bw_worker B k = Some (u, q)" "holds_lock q" using locks_okD [OF inv(1)] by blast
    with lockless [of k u q] show ?thesis by auto
  qed simp
  moreover have "ph = WaitLock" using lockless [OF w(1)] w(2) by simp
  ultimately show False using no w(1) by (blast intro: build_step.take_lock)
qed

lemma build_work_run:
  "((build_work getwd fmt) ^^ k) B B' \<Longrightarrow> build_reach getwd fmt s B \<Longrightarrow>
    build_reach getwd fmt s B' \<and> k + work_left B' \<le> work_left B \<and> dom (bw_worker B') = dom (bw_worker B)"
proof (induction k arbitrary: B')
  case 0
  then show ?case by simp
next
  case (Suc k)
  from Suc.prems(1) obtain C where C0: "((build_work getwd fmt) ^^ k) B C" "build_work getwd fmt C B'"
    by (rule relpowp_Suc_E)
  then obtain i where C: "((build_work getwd fmt) ^^ k) B C" "build_step getwd fmt (Some i) C B'"
    unfolding build_work_def by blast
  with Suc have IH: "build_reach getwd fmt s C" "k + work_left C \<le> work_left B"
    "dom (bw_worker C) = dom (bw_worker B)" by blast+
  with build_work_less [OF C(2) refl finite_workers [OF IH(1)]] build_reach.step [OF IH(1) C(2)]
  show ?case by simp
qed

lemma work_left_le: "finite (dom (bw_worker B)) \<Longrightarrow> work_left B \<le> 5 * card (dom (bw_worker B))"
  unfolding work_left_def by (rule order_trans [OF sum_bounded_above [of _ _ 5]]) simp_all

text \<open>
  Claim C18. Builds never block each other for good, as long as the build commands themselves end:
  from any reachable state, in whatever order the goroutines go on, each job takes at most five
  steps, and when none can go on every job has ended.
\<close>

theorem every_build_ends:
  assumes "build_reach getwd fmt (NewBuildService n tmp cfg) B" and "((build_work getwd fmt) ^^ k) B B'"
  shows "k \<le> 5 * card (dom (bw_worker B))
    \<and> ((\<nexists>B''. build_work getwd fmt B' B'') \<longrightarrow> (\<forall>j\<in>set (s_jobs (bw_svc B')). isTerminalBuildStatus (j_status j)))"
proof -
  note run = build_work_run [OF assms(2,1)]
  then have reach: "build_reach getwd fmt (NewBuildService n tmp cfg) B'" by simp
  from build_reach_inv [OF this] have inv: "jobs_ok B'" "locks_ok B'" "slots_ok B'" by auto
  have pos: "0 < s_workers (bw_svc B')" by (simp add: s_workers_reach [OF reach] s_workers_pos)
  have "isTerminalBuildStatus (j_status j)"
    if stuck: "\<nexists>B''. build_work getwd fmt B' B''" and j: "j \<in> set (s_jobs (bw_svc B'))" for j
  proof -
    from inv(1) j obtain u ph where w: "bw_worker B' (j_id j) = Some (u, ph)" "phase_status ph (j_status j)"
      by (auto simp: jobs_ok_def)
    with build_progress [OF inv(2,3) pos w(1)] stuck have "ph = Finished" by blast
    with w(2) show ?thesis by simp
  qed
  moreover have "k \<le> 5 * card (dom (bw_worker B))"
    using run work_left_le [OF finite_workers [OF assms(1)]] by linarith
  ultimately show ?thesis by blast
qed

theorem every_build_ends_witness:
  "build_work (Inr ''/'') sample_fmt builders_working builders_done \<and> 1 \<le> 5 * card (dom (bw_worker builders_working))"
proof -
  have step: "build_work (Inr ''/'') sample_fmt builders_working builders_done"
    using sample_steps(4) unfolding build_work_def by blast
  then have "((build_work (Inr ''/'') sample_fmt) ^^ 1) builders_working builders_done"
    by (simp add: eq_OO)
  from every_build_ends [OF builders_sample_reach(1) this] step show ?thesis by blast
qed

end
