(* ===== verification/AppConfig.thy ===== *)
theory AppConfig
  imports ControlPlane BuildService
begin

text \<open>
  \<open>internal/appconfig/config.go\<close>: the configuration of the server, read from a JSON file over
  the defaults, overridden by environment variables and normalised.

  A record per struct, with its fields in their order. Go's \<open>int\<close> and \<open>int64\<close> are
  integers (no arithmetic is done on them). \<open>encoding/json\<close> on these structs is a parameter of
  \<open>Load\<close> and \<open>Save\<close>; \<open>path.Clean\<close> is \<open>filepath_Clean\<close> of a Unix build.
\<close>

section \<open>strconv\<close>

definition digit_val :: "char \<Rightarrow> nat option" where
  "digit_val c = (let n = (of_char c :: nat) in if 48 \<le> n \<and> n \<le> 57 then Some (n - 48) else None)"

fun parse_digits :: "nat \<Rightarrow> string \<Rightarrow> nat option" where
  "parse_digits acc [] = Some acc"
| "parse_digits acc (c # cs) =
    (case digit_val c of None \<Rightarrow> None | Some d \<Rightarrow> parse_digits (10 * acc + d) cs)"

text \<open>\<open>strconv.ParseUint(s, 10, bits)\<close>; \<open>None\<close> is an error.\<close>

definition strconv_ParseUint :: "nat \<Rightarrow> string \<Rightarrow> nat option" where
  "strconv_ParseUint bits s =
    (if s = [] then None
     else (case parse_digits 0 s of None \<Rightarrow> None | Some n \<Rightarrow> if n < 2 ^ bits then Some n else None))"

definition strconv_ParseInt :: "nat \<Rightarrow> string \<Rightarrow> int option" where
  "strconv_ParseInt bits s =
    (let neg = (take 1 s = ''-'');
         digits = (if take 1 s = ''-'' \<or> take 1 s = ''+'' then drop 1 s else s) in
     if digits = [] then None
     else (case parse_digits 0 digits of
        None \<Rightarrow> None
      | Some n \<Rightarrow>
        if neg then (if int n \<le> 2 ^ (bits - 1) then Some (- int n) else None)
        else if int n < 2 ^ (bits - 1) then Some (int n) else None))"

definition strconv_Atoi :: "string \<Rightarrow> int option" where
  "strconv_Atoi = strconv_ParseInt 64"

definition strconv_ParseBool :: "string \<Rightarrow> bool option" where
  "strconv_ParseBool s =
    (if s \<in> set [''1'', ''t'', ''T'', ''true'', ''TRUE'', ''True''] then Some True
     else if s \<in> set [''0'', ''f'', ''F'', ''false'', ''FALSE'', ''False''] then Some False
     else None)"

declare digit_val_def [go_defs] strconv_ParseUint_def [go_defs] strconv_ParseInt_def [go_defs]
  strconv_Atoi_def [go_defs] strconv_ParseBool_def [go_defs]

section \<open>The configuration\<close>

record WindowsServiceConfig =
  ws_Name :: string
  ws_DisplayName :: string
  ws_Description :: string
  ws_StartType :: string

record RuntimeConfig =
  rt_BinaryPath :: string
  rt_StateDir :: string
  rt_PIDFile :: string
  rt_LogDir :: string
  rt_StdoutLogName :: string
  rt_StderrLogName :: string
  rt_GracefulStopTimeoutSeconds :: int
  rt_WindowsService :: WindowsServiceConfig

record DatabaseConfig =
  dc_CheckpointIntervalSeconds :: int
  dc_CheckpointMode :: string
  dc_BackupDir :: string
  dc_BackupIntervalSeconds :: int
  dc_BackupKeepLatest :: int

record ClientAssignedConfig =
  ga_MountPath :: string
  ga_SyncRoots :: "string list"
  ga_ConflictPolicy :: string
  ga_ReadOnly :: bool
  ga_AutoConnect :: bool
  ga_BandwidthLimit :: int
  ga_LogLevel :: string
  ga_LargeFileThreshold :: int

record ServiceDiscoverySettings =
  ds_Mode :: string
  ds_Host :: string
  ds_Port :: "32 word"
  ds_UseTLS :: bool
  ds_TLSServerName :: string

record JoinBundleControlConfig =
  jc_OverlayProvider :: string
  jc_OverlayJoinConfigJSON :: string
  jc_ServiceDiscovery :: ServiceDiscoverySettings

record ControlPlaneSettings =
  cs_ServerID :: string
  cs_DefaultDeviceGroup :: string
  cs_HeartbeatIntervalSeconds :: int
  cs_DefaultPolicyRevision :: "64 word"
  cs_AvailableActions :: "string list"
  cs_DiagnosticsKeepLatest :: int
  cs_AssignedConfig :: ClientAssignedConfig
  cs_JoinBundle :: JoinBundleControlConfig

record ArtifactCleanupConfig =
  ta_Enabled :: bool
  ta_IntervalSeconds :: int
  ta_RetentionSeconds :: int
  ta_MaxBytes :: int
  ta_Prefixes :: "string list"

record BuildCleanupConfig =
  bd_IntervalSeconds :: int
  bd_RetentionSeconds :: int
  bd_MaxBytes :: int

record ConflictCleanupConfig =
  cf_Enabled :: bool
  cf_IntervalSeconds :: int
  cf_RetentionSeconds :: int
  cf_MaxBytes :: int
  cf_MaxCopiesPerPath :: int

record LogCleanupConfig =
  lf_Enabled :: bool
  lf_Dir :: string
  lf_Patterns :: "string list"
  lf_IntervalSeconds :: int
  lf_RetentionSeconds :: int
  lf_MaxBytes :: int

record CleanupConfig =
  cl_TempArtifacts :: ArtifactCleanupConfig
  cl_BuildWorkdirs :: BuildCleanupConfig
  cl_ConflictFiles :: ConflictCleanupConfig
  cl_LogFiles :: LogCleanupConfig

record Config =
  c_Addr :: string
  c_DataRoot :: string
  c_RootDir :: string
  c_DBPath :: string
  c_Runtime :: RuntimeConfig
  c_RemoteBuildEnabled :: bool
  c_BuildToolDirs :: "string list"
  c_RequiredBuildTools :: "string list"
  c_AuthEnabled :: bool
  c_SharedSecret :: string
  c_TLSEnabled :: bool
  c_TLSCertPath :: string
  c_TLSKeyPath :: string
  c_Database :: DatabaseConfig
  c_ControlPlane :: ControlPlaneSettings
  c_Cleanup :: CleanupConfig
text \<open>The constants of the file that the code uses more than once.\<close>

abbreviation defaultAddr :: string where "defaultAddr \<equiv> '':50051''"
abbreviation defaultRootDir :: string where "defaultRootDir \<equiv> ''D:/RoodoxShare''"
abbreviation defaultDBPath :: string where "defaultDBPath \<equiv> ''roodox.db''"
abbreviation defaultTLSCertPath :: string where "defaultTLSCertPath \<equiv> ''certs/roodox-server-cert.pem''"
abbreviation defaultTLSKeyPath :: string where "defaultTLSKeyPath \<equiv> ''certs/roodox-server-key.pem''"
abbreviation defaultRuntimeBinaryPath :: string where "defaultRuntimeBinaryPath \<equiv> ''roodox_server.exe''"
abbreviation defaultRuntimeStateDir :: string where "defaultRuntimeStateDir \<equiv> ''runtime''"
abbreviation defaultRuntimePIDFile :: string where "defaultRuntimePIDFile \<equiv> ''runtime/roodox_server.pid''"
abbreviation defaultRuntimeLogDir :: string where "defaultRuntimeLogDir \<equiv> ''runtime/logs''"
abbreviation defaultRuntimeStdoutLogName :: string where "defaultRuntimeStdoutLogName \<equiv> ''server.stdout.log''"
abbreviation defaultRuntimeStderrLogName :: string where "defaultRuntimeStderrLogName \<equiv> ''server.stderr.log''"
abbreviation defaultWindowsServiceName :: string where "defaultWindowsServiceName \<equiv> ''RoodoxServer''"
abbreviation defaultWindowsServiceDisplayName :: string where "defaultWindowsServiceDisplayName \<equiv> ''Roodox Server''"
abbreviation defaultWindowsServiceDescription :: string where
  "defaultWindowsServiceDescription \<equiv> ''Roodox gRPC server''"
abbreviation defaultDBBackupDir :: string where "defaultDBBackupDir \<equiv> ''backups''"

definition defaultRequiredBuildTools :: "string list" where
  "defaultRequiredBuildTools = [''cmake'', ''make'', ''build-essential'']"

definition defaultAvailableActions :: "string list" where
  "defaultAvailableActions = [''reconnect_overlay'', ''resync'', ''remount'', ''collect_diagnostics'']"

definition defaultArtifactPrefixes :: "string list" where
  "defaultArtifactPrefixes = [''roodox-suite-'', ''roodox-suite-build-'', ''roodox-stress-'']"

definition Default :: Config where
  "Default =
    \<lparr>c_Addr = defaultAddr, c_DataRoot = [], c_RootDir = defaultRootDir, c_DBPath = defaultDBPath,
     c_Runtime =
       \<lparr>rt_BinaryPath = defaultRuntimeBinaryPath, rt_StateDir = defaultRuntimeStateDir,
        rt_PIDFile = defaultRuntimePIDFile, rt_LogDir = defaultRuntimeLogDir,
        rt_StdoutLogName = defaultRuntimeStdoutLogName, rt_StderrLogName = defaultRuntimeStderrLogName,
        rt_GracefulStopTimeoutSeconds = 10,
        rt_WindowsService =
          \<lparr>ws_Name = defaultWindowsServiceName, ws_DisplayName = defaultWindowsServiceDisplayName,
           ws_Description = defaultWindowsServiceDescription, ws_StartType = ''auto''\<rparr>\<rparr>,
     c_RemoteBuildEnabled = False, c_BuildToolDirs = [], c_RequiredBuildTools = defaultRequiredBuildTools,
     c_AuthEnabled = False, c_SharedSecret = [], c_TLSEnabled = False,
     c_TLSCertPath = defaultTLSCertPath, c_TLSKeyPath = defaultTLSKeyPath,
     c_Database =
       \<lparr>dc_CheckpointIntervalSeconds = 300, dc_CheckpointMode = ''truncate'',
        dc_BackupDir = defaultDBBackupDir, dc_BackupIntervalSeconds = 86400, dc_BackupKeepLatest = 7\<rparr>,
     c_ControlPlane =
       \<lparr>cs_ServerID = [], cs_DefaultDeviceGroup = ''default'', cs_HeartbeatIntervalSeconds = 15,
        cs_DefaultPolicyRevision = 1, cs_AvailableActions = defaultAvailableActions,
        cs_DiagnosticsKeepLatest = 20,
        cs_AssignedConfig =
          \<lparr>ga_MountPath = [], ga_SyncRoots = [''.''], ga_ConflictPolicy = ''manual'',
           ga_ReadOnly = False, ga_AutoConnect = True, ga_BandwidthLimit = 0, ga_LogLevel = ''info'',
           ga_LargeFileThreshold = 67108864\<rparr>,
        cs_JoinBundle =
          \<lparr>jc_OverlayProvider = [], jc_OverlayJoinConfigJSON = [],
           jc_ServiceDiscovery =
             \<lparr>ds_Mode = ''static'', ds_Host = [], ds_Port = 0, ds_UseTLS = False,
              ds_TLSServerName = []\<rparr>\<rparr>\<rparr>,
     c_Cleanup =
       \<lparr>cl_TempArtifacts =
          \<lparr>ta_Enabled = True, ta_IntervalSeconds = 300, ta_RetentionSeconds = 86400,
           ta_MaxBytes = 536870912, ta_Prefixes = defaultArtifactPrefixes\<rparr>,
        cl_BuildWorkdirs =
          \<lparr>bd_IntervalSeconds = 60, bd_RetentionSeconds = 1800, bd_MaxBytes = 2147483648\<rparr>,
        cl_ConflictFiles =
          \<lparr>cf_Enabled = True, cf_IntervalSeconds = 3600, cf_RetentionSeconds = 604800,
           cf_MaxBytes = 268435456, cf_MaxCopiesPerPath = 20\<rparr>,
        cl_LogFiles =
          \<lparr>lf_Enabled = True, lf_Dir = defaultRuntimeLogDir, lf_Patterns = [''server*.log''],
           lf_IntervalSeconds = 900, lf_RetentionSeconds = 604800, lf_MaxBytes = 268435456\<rparr>\<rparr>\<rparr>"

section \<open>Paths of a configuration\<close>

definition toSlashes :: "string \<Rightarrow> string" where
  "toSlashes s = strings_ReplaceAll1 s (CHR 0x5C) ''/''"

definition strings_TrimPrefix :: "string \<Rightarrow> string \<Rightarrow> string" where
  "strings_TrimPrefix s p = (if strings_HasPrefix s p then drop (length p) s else s)"

text \<open>\<open>path.Clean\<close>: \<open>filepath.Clean\<close> with the separator \<open>/\<close>.\<close>

definition joinConfigPath :: "string \<Rightarrow> string \<Rightarrow> string" where
  "joinConfigPath base0 rel0 =
    (let base = strings_TrimSpace (toSlashes base0); rel = strings_TrimSpace (toSlashes rel0) in
     if base = [] then rel
     else if rel = [] then base
     else filepath_Clean (strings_TrimPrefix base ''./'' @ ''/'' @ strings_TrimPrefix rel ''./''))"

definition deriveDataPath :: "string \<Rightarrow> string \<Rightarrow> string" where
  "deriveDataPath dataRoot0 fallback =
    (let dataRoot = strings_TrimSpace dataRoot0 in
     if dataRoot = [] then fallback else joinConfigPath dataRoot fallback)"

definition cleanConfigPath :: "string \<Rightarrow> string" where
  "cleanConfigPath v0 =
    (let v = strings_TrimSpace (toSlashes v0) in if v = [] then [] else filepath_Clean v)"

definition sameConfigPath :: "string \<Rightarrow> string \<Rightarrow> bool" where
  "sameConfigPath a b \<longleftrightarrow> strings_EqualFold (cleanConfigPath a) (cleanConfigPath b)"

section \<open>Normalising\<close>

definition normalizeList :: "string list \<Rightarrow> string list" where
  "normalizeList values = dedupe_trimmed values {}"

definition list_or :: "string list \<Rightarrow> string list \<Rightarrow> string list" where
  "list_or fallback values = (let vs = normalizeList values in if vs = [] then fallback else vs)"

definition trim_or :: "string \<Rightarrow> string \<Rightarrow> string" where
  "trim_or fallback s = or_else (strings_TrimSpace s) fallback"

text \<open>\<open>if strings.TrimSpace(s) == "" { s = fallback }\<close>\<close>

definition blank_or :: "string \<Rightarrow> string \<Rightarrow> string" where
  "blank_or fallback s = (if strings_TrimSpace s = [] then fallback else s)"

definition one_of :: "string list \<Rightarrow> string \<Rightarrow> string \<Rightarrow> string" where
  "one_of modes fallback s =
    (let t = strings_ToLower (strings_TrimSpace s) in if t \<in> set modes then t else fallback)"

text \<open>A path that keeps its default follows the data root or the state directory.\<close>

definition follow_root :: "string \<Rightarrow> string \<Rightarrow> string \<Rightarrow> string" where
  "follow_root dataRoot fallback v =
    (let p = strings_TrimSpace v in
     if p = [] \<or> (dataRoot \<noteq> [] \<and> sameConfigPath p fallback) then deriveDataPath dataRoot fallback else p)"

definition follow_dir :: "string \<Rightarrow> string \<Rightarrow> string \<Rightarrow> string" where
  "follow_dir derived fallback v =
    (let p = strings_TrimSpace v in if p = [] \<or> sameConfigPath p fallback then derived else p)"

definition normalizeWindowsService :: "WindowsServiceConfig \<Rightarrow> WindowsServiceConfig" where
  "normalizeWindowsService ws = ws\<lparr>
     ws_Name := trim_or defaultWindowsServiceName (ws_Name ws),
     ws_DisplayName := trim_or defaultWindowsServiceDisplayName (ws_DisplayName ws),
     ws_Description := trim_or defaultWindowsServiceDescription (ws_Description ws),
     ws_StartType := one_of [''auto'', ''manual'', ''disabled''] ''auto'' (ws_StartType ws)\<rparr>"

definition normalizeRuntime :: "string \<Rightarrow> RuntimeConfig \<Rightarrow> RuntimeConfig" where
  "normalizeRuntime dataRoot rt =
    (let stateDir = follow_root dataRoot defaultRuntimeStateDir (rt_StateDir rt) in
     rt\<lparr>rt_StateDir := stateDir,
       rt_PIDFile := follow_dir (joinConfigPath stateDir ''roodox_server.pid'') defaultRuntimePIDFile (rt_PIDFile rt),
       rt_LogDir := follow_dir (joinConfigPath stateDir ''logs'') defaultRuntimeLogDir (rt_LogDir rt),
       rt_StdoutLogName := trim_or defaultRuntimeStdoutLogName (rt_StdoutLogName rt),
       rt_StderrLogName := trim_or defaultRuntimeStderrLogName (rt_StderrLogName rt),
       rt_GracefulStopTimeoutSeconds := positive_or 10 (rt_GracefulStopTimeoutSeconds rt),
       rt_WindowsService := normalizeWindowsService (rt_WindowsService rt)\<rparr>)"

definition normalizeStoragePaths :: "Config \<Rightarrow> Config" where
  "normalizeStoragePaths cfg =
    (let d = c_DataRoot cfg; db = c_Database cfg; cl = c_Cleanup cfg; lf = cl_LogFiles cl in
     cfg\<lparr>c_DBPath := follow_root d defaultDBPath (c_DBPath cfg),
       c_TLSCertPath := follow_root d defaultTLSCertPath (c_TLSCertPath cfg),
       c_TLSKeyPath := follow_root d defaultTLSKeyPath (c_TLSKeyPath cfg),
       c_Database := db\<lparr>dc_BackupDir := follow_root d defaultDBBackupDir (dc_BackupDir db)\<rparr>,
       c_Cleanup := cl\<lparr>cl_LogFiles := lf\<lparr>lf_Dir :=
         follow_dir (rt_LogDir (c_Runtime cfg)) defaultRuntimeLogDir (lf_Dir lf)\<rparr>\<rparr>\<rparr>)"

definition normalizeDatabase :: "DatabaseConfig \<Rightarrow> DatabaseConfig" where
  "normalizeDatabase db = db\<lparr>
     dc_CheckpointIntervalSeconds := positive_or 300 (dc_CheckpointIntervalSeconds db),
     dc_CheckpointMode := one_of [''passive'', ''full'', ''restart'', ''truncate''] ''truncate'' (dc_CheckpointMode db),
     dc_BackupIntervalSeconds := positive_or 86400 (dc_BackupIntervalSeconds db),
     dc_BackupKeepLatest := positive_or 7 (dc_BackupKeepLatest db)\<rparr>"

definition normalizeClientAssigned :: "ClientAssignedConfig \<Rightarrow> ClientAssignedConfig" where
  "normalizeClientAssigned ga = ga\<lparr>
     ga_MountPath := strings_TrimSpace (ga_MountPath ga),
     ga_SyncRoots := list_or [''.''] (ga_SyncRoots ga),
     ga_ConflictPolicy := trim_or ''manual'' (ga_ConflictPolicy ga),
     ga_LogLevel := trim_or ''info'' (ga_LogLevel ga),
     ga_LargeFileThreshold := positive_or 67108864 (ga_LargeFileThreshold ga)\<rparr>"

definition normalizeJoinBundleControl :: "JoinBundleControlConfig \<Rightarrow> JoinBundleControlConfig" where
  "normalizeJoinBundleControl jc =
    (let ds = jc_ServiceDiscovery jc in
     jc\<lparr>jc_OverlayProvider := strings_TrimSpace (jc_OverlayProvider jc),
       jc_OverlayJoinConfigJSON := strings_TrimSpace (jc_OverlayJoinConfigJSON jc),
       jc_ServiceDiscovery := ds\<lparr>
         ds_Mode := trim_or ''static'' (ds_Mode ds),
         ds_Host := strings_TrimSpace (ds_Host ds),
         ds_TLSServerName := strings_TrimSpace (ds_TLSServerName ds)\<rparr>\<rparr>)"

definition normalizeControlPlane :: "ControlPlaneSettings \<Rightarrow> ControlPlaneSettings" where
  "normalizeControlPlane cs = cs\<lparr>
     cs_ServerID := strings_TrimSpace (cs_ServerID cs),
     cs_DefaultDeviceGroup := trim_or ''default'' (cs_DefaultDeviceGroup cs),
     cs_HeartbeatIntervalSeconds := positive_or 15 (cs_HeartbeatIntervalSeconds cs),
     cs_DefaultPolicyRevision := (if cs_DefaultPolicyRevision cs = 0 then 1 else cs_DefaultPolicyRevision cs),
     cs_AvailableActions := list_or defaultAvailableActions (cs_AvailableActions cs),
     cs_DiagnosticsKeepLatest := positive_or 20 (cs_DiagnosticsKeepLatest cs),
     cs_AssignedConfig := normalizeClientAssigned (cs_AssignedConfig cs),
     cs_JoinBundle := normalizeJoinBundleControl (cs_JoinBundle cs)\<rparr>"

definition normalizeArtifacts :: "ArtifactCleanupConfig \<Rightarrow> ArtifactCleanupConfig" where
  "normalizeArtifacts ta = ta\<lparr>
     ta_IntervalSeconds := positive_or 300 (ta_IntervalSeconds ta),
     ta_RetentionSeconds := positive_or 86400 (ta_RetentionSeconds ta),
     ta_MaxBytes := max 0 (ta_MaxBytes ta),
     ta_Prefixes := list_or defaultArtifactPrefixes (ta_Prefixes ta)\<rparr>"

definition normalizeBuildWorkdirs :: "BuildCleanupConfig \<Rightarrow> BuildCleanupConfig" where
  "normalizeBuildWorkdirs bd = bd\<lparr>
     bd_IntervalSeconds := positive_or 60 (bd_IntervalSeconds bd),
     bd_RetentionSeconds := positive_or 1800 (bd_RetentionSeconds bd),
     bd_MaxBytes := max 0 (bd_MaxBytes bd)\<rparr>"

definition normalizeConflictFiles :: "ConflictCleanupConfig \<Rightarrow> ConflictCleanupConfig" where
  "normalizeConflictFiles cf =
    (let copies = max 0 (cf_MaxCopiesPerPath cf) in
     cf\<lparr>cf_IntervalSeconds := positive_or 3600 (cf_IntervalSeconds cf),
       cf_RetentionSeconds := positive_or 604800 (cf_RetentionSeconds cf),
       cf_MaxBytes := max 0 (cf_MaxBytes cf),
       cf_MaxCopiesPerPath := (if cf_Enabled cf \<and> copies = 0 then 20 else copies)\<rparr>)"

definition normalizeLogFiles :: "string \<Rightarrow> LogCleanupConfig \<Rightarrow> LogCleanupConfig" where
  "normalizeLogFiles logDir lf = lf\<lparr>
     lf_Dir := blank_or logDir (lf_Dir lf),
     lf_Patterns := list_or [''server*.log''] (lf_Patterns lf),
     lf_IntervalSeconds := positive_or 900 (lf_IntervalSeconds lf),
     lf_RetentionSeconds := positive_or 604800 (lf_RetentionSeconds lf),
     lf_MaxBytes := max 0 (lf_MaxBytes lf)\<rparr>"

definition normalizeCleanup :: "string \<Rightarrow> CleanupConfig \<Rightarrow> CleanupConfig" where
  "normalizeCleanup logDir cl = cl\<lparr>
     cl_TempArtifacts := normalizeArtifacts (cl_TempArtifacts cl),
     cl_BuildWorkdirs := normalizeBuildWorkdirs (cl_BuildWorkdirs cl),
     cl_ConflictFiles := normalizeConflictFiles (cl_ConflictFiles cl),
     cl_LogFiles := normalizeLogFiles logDir (cl_LogFiles cl)\<rparr>"

definition normalize :: "Config \<Rightarrow> Config" where
  "normalize cfg0 =
    (let dataRoot = strings_TrimSpace (c_DataRoot cfg0); rt = c_Runtime cfg0;
         cfg1 = cfg0\<lparr>c_DataRoot := dataRoot,
           c_Addr := blank_or defaultAddr (c_Addr cfg0),
           c_RootDir := blank_or defaultRootDir (c_RootDir cfg0),
           c_Runtime := normalizeRuntime dataRoot
             (rt\<lparr>rt_BinaryPath := trim_or defaultRuntimeBinaryPath (rt_BinaryPath rt)\<rparr>),
           c_BuildToolDirs := normalizeList (c_BuildToolDirs cfg0),
           c_RequiredBuildTools := list_or defaultRequiredBuildTools (c_RequiredBuildTools cfg0)\<rparr>;
         cfg = normalizeStoragePaths cfg1 in
     cfg\<lparr>c_Database := normalizeDatabase (c_Database cfg),
       c_SharedSecret := strings_TrimSpace (c_SharedSecret cfg),
       c_ControlPlane := normalizeControlPlane (c_ControlPlane cfg),
       c_Cleanup := normalizeCleanup (rt_LogDir (c_Runtime cfg)) (c_Cleanup cfg)\<rparr>)"

section \<open>Environment variables\<close>

text \<open>
  \<open>os.Getenv\<close> gives the empty string for a variable that is not set. A value that does not
  parse leaves the field as it is. Lists of directories are separated by a colon, the
  \<open>PathListSeparator\<close> of a Unix build.
\<close>

definition env_str :: "(string \<Rightarrow> string) \<Rightarrow> string \<Rightarrow> string \<Rightarrow> string" where
  "env_str getenv name old = (let v = strings_TrimSpace (getenv name) in if v \<noteq> [] then v else old)"

definition env_opt :: "(string \<Rightarrow> 'a option) \<Rightarrow> (string \<Rightarrow> string) \<Rightarrow> string \<Rightarrow> 'a \<Rightarrow> 'a" where
  "env_opt parse getenv name old =
    (let v = strings_TrimSpace (getenv name) in
     if v \<noteq> [] then (case parse v of None \<Rightarrow> old | Some x \<Rightarrow> x) else old)"

definition env_word :: "(string \<Rightarrow> nat option) \<Rightarrow> (string \<Rightarrow> string) \<Rightarrow> string \<Rightarrow> 'w::len word \<Rightarrow> 'w word" where
  "env_word parse = env_opt (\<lambda>v. map_option of_nat (parse v))"

definition env_list :: "char \<Rightarrow> (string \<Rightarrow> string) \<Rightarrow> string \<Rightarrow> string list \<Rightarrow> string list" where
  "env_list sep getenv name old =
    (let v = strings_TrimSpace (getenv name) in
     if v \<noteq> [] then normalizeList (strings_Split v sep) else old)"

abbreviation pathListSeparator :: char where "pathListSeparator \<equiv> CHR '':''"

definition env_windows_service :: "(string \<Rightarrow> string) \<Rightarrow> WindowsServiceConfig \<Rightarrow> WindowsServiceConfig" where
  "env_windows_service getenv ws = ws\<lparr>
     ws_Name := env_str getenv ''ROODOX_WINDOWS_SERVICE_NAME'' (ws_Name ws),
     ws_DisplayName := env_str getenv ''ROODOX_WINDOWS_SERVICE_DISPLAY_NAME'' (ws_DisplayName ws),
     ws_Description := env_str getenv ''ROODOX_WINDOWS_SERVICE_DESCRIPTION'' (ws_Description ws),
     ws_StartType := env_str getenv ''ROODOX_WINDOWS_SERVICE_START_TYPE'' (ws_StartType ws)\<rparr>"

definition env_runtime :: "(string \<Rightarrow> string) \<Rightarrow> RuntimeConfig \<Rightarrow> RuntimeConfig" where
  "env_runtime getenv rt = rt\<lparr>
     rt_BinaryPath := env_str getenv ''ROODOX_RUNTIME_BINARY_PATH'' (rt_BinaryPath rt),
     rt_StateDir := env_str getenv ''ROODOX_RUNTIME_STATE_DIR'' (rt_StateDir rt),
     rt_PIDFile := env_str getenv ''ROODOX_RUNTIME_PID_FILE'' (rt_PIDFile rt),
     rt_LogDir := env_str getenv ''ROODOX_RUNTIME_LOG_DIR'' (rt_LogDir rt),
     rt_StdoutLogName := env_str getenv ''ROODOX_RUNTIME_STDOUT_LOG_NAME'' (rt_StdoutLogName rt),
     rt_StderrLogName := env_str getenv ''ROODOX_RUNTIME_STDERR_LOG_NAME'' (rt_StderrLogName rt),
     rt_GracefulStopTimeoutSeconds :=
       env_opt strconv_Atoi getenv ''ROODOX_RUNTIME_GRACEFUL_STOP_TIMEOUT_SECONDS'' (rt_GracefulStopTimeoutSeconds rt),
     rt_WindowsService := env_windows_service getenv (rt_WindowsService rt)\<rparr>"

definition env_database :: "(string \<Rightarrow> string) \<Rightarrow> DatabaseConfig \<Rightarrow> DatabaseConfig" where
  "env_database getenv dc = dc\<lparr>
     dc_CheckpointIntervalSeconds :=
       env_opt strconv_Atoi getenv ''ROODOX_DB_CHECKPOINT_INTERVAL_SECONDS'' (dc_CheckpointIntervalSeconds dc),
     dc_CheckpointMode := env_str getenv ''ROODOX_DB_CHECKPOINT_MODE'' (dc_CheckpointMode dc),
     dc_BackupDir := env_str getenv ''ROODOX_DB_BACKUP_DIR'' (dc_BackupDir dc),
     dc_BackupIntervalSeconds :=
       env_opt strconv_Atoi getenv ''ROODOX_DB_BACKUP_INTERVAL_SECONDS'' (dc_BackupIntervalSeconds dc),
     dc_BackupKeepLatest :=
       env_opt strconv_Atoi getenv ''ROODOX_DB_BACKUP_KEEP_LATEST'' (dc_BackupKeepLatest dc)\<rparr>"

definition env_assigned :: "(string \<Rightarrow> string) \<Rightarrow> ClientAssignedConfig \<Rightarrow> ClientAssignedConfig" where
  "env_assigned getenv ga = ga\<lparr>
     ga_MountPath := env_str getenv ''ROODOX_CLIENT_MOUNT_PATH'' (ga_MountPath ga),
     ga_SyncRoots := env_list (CHR '','') getenv ''ROODOX_SYNC_ROOTS'' (ga_SyncRoots ga),
     ga_ConflictPolicy := env_str getenv ''ROODOX_CONFLICT_POLICY'' (ga_ConflictPolicy ga),
     ga_ReadOnly := env_opt strconv_ParseBool getenv ''ROODOX_READ_ONLY'' (ga_ReadOnly ga),
     ga_AutoConnect := env_opt strconv_ParseBool getenv ''ROODOX_AUTO_CONNECT'' (ga_AutoConnect ga),
     ga_BandwidthLimit :=
       env_opt (strconv_ParseInt 64) getenv ''ROODOX_BANDWIDTH_LIMIT'' (ga_BandwidthLimit ga),
     ga_LogLevel := env_str getenv ''ROODOX_LOG_LEVEL'' (ga_LogLevel ga),
     ga_LargeFileThreshold :=
       env_opt (strconv_ParseInt 64) getenv ''ROODOX_LARGE_FILE_THRESHOLD'' (ga_LargeFileThreshold ga)\<rparr>"

definition env_discovery :: "(string \<Rightarrow> string) \<Rightarrow> ServiceDiscoverySettings \<Rightarrow> ServiceDiscoverySettings" where
  "env_discovery getenv ds = ds\<lparr>
     ds_Mode := env_str getenv ''ROODOX_BUNDLE_SERVICE_DISCOVERY_MODE'' (ds_Mode ds),
     ds_Host := env_str getenv ''ROODOX_BUNDLE_SERVICE_HOST'' (ds_Host ds),
     ds_Port := env_word (strconv_ParseUint 32) getenv ''ROODOX_BUNDLE_SERVICE_PORT'' (ds_Port ds),
     ds_UseTLS := env_opt strconv_ParseBool getenv ''ROODOX_BUNDLE_USE_TLS'' (ds_UseTLS ds),
     ds_TLSServerName := env_str getenv ''ROODOX_BUNDLE_TLS_SERVER_NAME'' (ds_TLSServerName ds)\<rparr>"

definition env_join_bundle :: "(string \<Rightarrow> string) \<Rightarrow> JoinBundleControlConfig \<Rightarrow> JoinBundleControlConfig" where
  "env_join_bundle getenv jc = jc\<lparr>
     jc_OverlayProvider := env_str getenv ''ROODOX_BUNDLE_OVERLAY_PROVIDER'' (jc_OverlayProvider jc),
     jc_OverlayJoinConfigJSON :=
       env_str getenv ''ROODOX_BUNDLE_OVERLAY_JOIN_CONFIG_JSON'' (jc_OverlayJoinConfigJSON jc),
     jc_ServiceDiscovery := env_discovery getenv (jc_ServiceDiscovery jc)\<rparr>"

definition env_control_plane :: "(string \<Rightarrow> string) \<Rightarrow> ControlPlaneSettings \<Rightarrow> ControlPlaneSettings" where
  "env_control_plane getenv cs = cs\<lparr>
     cs_ServerID := env_str getenv ''ROODOX_SERVER_ID'' (cs_ServerID cs),
     cs_DefaultDeviceGroup := env_str getenv ''ROODOX_DEVICE_GROUP'' (cs_DefaultDeviceGroup cs),
     cs_HeartbeatIntervalSeconds :=
       env_opt strconv_Atoi getenv ''ROODOX_HEARTBEAT_INTERVAL_SECONDS'' (cs_HeartbeatIntervalSeconds cs),
     cs_DefaultPolicyRevision :=
       env_word (strconv_ParseUint 64) getenv ''ROODOX_POLICY_REVISION'' (cs_DefaultPolicyRevision cs),
     cs_AvailableActions :=
       env_list (CHR '','') getenv ''ROODOX_AVAILABLE_ACTIONS'' (cs_AvailableActions cs),
     cs_DiagnosticsKeepLatest :=
       env_opt strconv_Atoi getenv ''ROODOX_DIAGNOSTICS_KEEP_LATEST'' (cs_DiagnosticsKeepLatest cs),
     cs_AssignedConfig := env_assigned getenv (cs_AssignedConfig cs),
     cs_JoinBundle := env_join_bundle getenv (cs_JoinBundle cs)\<rparr>"

definition env_artifacts :: "(string \<Rightarrow> string) \<Rightarrow> ArtifactCleanupConfig \<Rightarrow> ArtifactCleanupConfig" where
  "env_artifacts getenv ta = ta\<lparr>
     ta_Enabled := env_opt strconv_ParseBool getenv ''ROODOX_ARTIFACT_CLEANUP_ENABLED'' (ta_Enabled ta),
     ta_IntervalSeconds :=
       env_opt strconv_Atoi getenv ''ROODOX_ARTIFACT_CLEANUP_INTERVAL_SECONDS'' (ta_IntervalSeconds ta),
     ta_RetentionSeconds :=
       env_opt (strconv_ParseInt 64) getenv ''ROODOX_ARTIFACT_RETENTION_SECONDS'' (ta_RetentionSeconds ta),
     ta_MaxBytes := env_opt (strconv_ParseInt 64) getenv ''ROODOX_ARTIFACT_MAX_BYTES'' (ta_MaxBytes ta),
     ta_Prefixes := env_list (CHR '','') getenv ''ROODOX_ARTIFACT_PREFIXES'' (ta_Prefixes ta)\<rparr>"

definition env_build_workdirs :: "(string \<Rightarrow> string) \<Rightarrow> BuildCleanupConfig \<Rightarrow> BuildCleanupConfig" where
  "env_build_workdirs getenv bd = bd\<lparr>
     bd_IntervalSeconds :=
       env_opt strconv_Atoi getenv ''ROODOX_BUILD_CLEANUP_INTERVAL_SECONDS'' (bd_IntervalSeconds bd),
     bd_RetentionSeconds :=
       env_opt (strconv_ParseInt 64) getenv ''ROODOX_BUILD_RETENTION_SECONDS'' (bd_RetentionSeconds bd),
     bd_MaxBytes := env_opt (strconv_ParseInt 64) getenv ''ROODOX_BUILD_MAX_BYTES'' (bd_MaxBytes bd)\<rparr>"

definition env_conflict_files :: "(string \<Rightarrow> string) \<Rightarrow> ConflictCleanupConfig \<Rightarrow> ConflictCleanupConfig" where
  "env_conflict_files getenv cf = cf\<lparr>
     cf_Enabled := env_opt strconv_ParseBool getenv ''ROODOX_CONFLICT_CLEANUP_ENABLED'' (cf_Enabled cf),
     cf_IntervalSeconds :=
       env_opt strconv_Atoi getenv ''ROODOX_CONFLICT_CLEANUP_INTERVAL_SECONDS'' (cf_IntervalSeconds cf),
     cf_RetentionSeconds :=
       env_opt (strconv_ParseInt 64) getenv ''ROODOX_CONFLICT_RETENTION_SECONDS'' (cf_RetentionSeconds cf),
     cf_MaxBytes := env_opt (strconv_ParseInt 64) getenv ''ROODOX_CONFLICT_MAX_BYTES'' (cf_MaxBytes cf),
     cf_MaxCopiesPerPath :=
       env_opt strconv_Atoi getenv ''ROODOX_CONFLICT_MAX_COPIES_PER_PATH'' (cf_MaxCopiesPerPath cf)\<rparr>"

definition env_log_files :: "(string \<Rightarrow> string) \<Rightarrow> LogCleanupConfig \<Rightarrow> LogCleanupConfig" where
  "env_log_files getenv lf = lf\<lparr>
     lf_Enabled := env_opt strconv_ParseBool getenv ''ROODOX_LOG_CLEANUP_ENABLED'' (lf_Enabled lf),
     lf_Dir := env_str getenv ''ROODOX_LOG_CLEANUP_DIR'' (lf_Dir lf),
     lf_Patterns := env_list (CHR '','') getenv ''ROODOX_LOG_CLEANUP_PATTERNS'' (lf_Patterns lf),
     lf_IntervalSeconds :=
       env_opt strconv_Atoi getenv ''ROODOX_LOG_CLEANUP_INTERVAL_SECONDS'' (lf_IntervalSeconds lf),
     lf_RetentionSeconds :=
       env_opt (strconv_ParseInt 64) getenv ''ROODOX_LOG_RETENTION_SECONDS'' (lf_RetentionSeconds lf),
     lf_MaxBytes := env_opt (strconv_ParseInt 64) getenv ''ROODOX_LOG_MAX_BYTES'' (lf_MaxBytes lf)\<rparr>"

definition env_cleanup :: "(string \<Rightarrow> string) \<Rightarrow> CleanupConfig \<Rightarrow> CleanupConfig" where
  "env_cleanup getenv cl = cl\<lparr>
     cl_TempArtifacts := env_artifacts getenv (cl_TempArtifacts cl),
     cl_BuildWorkdirs := env_build_workdirs getenv (cl_BuildWorkdirs cl),
     cl_ConflictFiles := env_conflict_files getenv (cl_ConflictFiles cl),
     cl_LogFiles := env_log_files getenv (cl_LogFiles cl)\<rparr>"

definition env_overrides :: "(string \<Rightarrow> string) \<Rightarrow> Config \<Rightarrow> Config" where
  "env_overrides getenv c = c\<lparr>
     c_Addr := env_str getenv ''ROODOX_ADDR'' (c_Addr c),
     c_DataRoot := env_str getenv ''ROODOX_DATA_ROOT'' (c_DataRoot c),
     c_RootDir := env_str getenv ''ROODOX_ROOT_DIR'' (c_RootDir c),
     c_DBPath := env_str getenv ''ROODOX_DB_PATH'' (c_DBPath c),
     c_RemoteBuildEnabled :=
       env_opt strconv_ParseBool getenv ''ROODOX_REMOTE_BUILD_ENABLED'' (c_RemoteBuildEnabled c),
     c_BuildToolDirs :=
       env_list pathListSeparator getenv ''ROODOX_BUILD_TOOL_DIRS'' (c_BuildToolDirs c),
     c_RequiredBuildTools :=
       env_list (CHR '','') getenv ''ROODOX_BUILD_REQUIRED_TOOLS'' (c_RequiredBuildTools c),
     c_AuthEnabled := env_opt strconv_ParseBool getenv ''ROODOX_AUTH_ENABLED'' (c_AuthEnabled c),
     c_SharedSecret := env_str getenv ''ROODOX_SHARED_SECRET'' (c_SharedSecret c),
     c_TLSEnabled := env_opt strconv_ParseBool getenv ''ROODOX_TLS_ENABLED'' (c_TLSEnabled c),
     c_TLSCertPath := env_str getenv ''ROODOX_TLS_CERT_PATH'' (c_TLSCertPath c),
     c_TLSKeyPath := env_str getenv ''ROODOX_TLS_KEY_PATH'' (c_TLSKeyPath c),
     c_Runtime := env_runtime getenv (c_Runtime c),
     c_Database := env_database getenv (c_Database c),
     c_ControlPlane := env_control_plane getenv (c_ControlPlane c),
     c_Cleanup := env_cleanup getenv (c_Cleanup c)\<rparr>"

definition applyEnvOverrides :: "(string \<Rightarrow> string) \<Rightarrow> Config \<Rightarrow> Config" where
  "applyEnvOverrides getenv cfg = normalize (env_overrides getenv cfg)"

section \<open>Load and Save\<close>

text \<open>
  \<open>contents\<close> is the result of \<open>os.ReadFile\<close>. \<open>unmarshal b cfg\<close> is \<open>json.Unmarshal\<close> of
  \<open>b\<close> into \<open>cfg\<close>, which overwrites the fields the text names, and \<open>marshal\<close> is
  \<open>json.MarshalIndent\<close>.
\<close>

definition Load_Config :: "(bytes \<Rightarrow> Config \<Rightarrow> Config result) \<Rightarrow> (string \<Rightarrow> string) \<Rightarrow> bytes result \<Rightarrow> Config result" where
  "Load_Config unmarshal getenv contents =
    (case contents of
       Inl e \<Rightarrow> if errors_Is e ErrNotExist then Inr (applyEnvOverrides getenv Default) else Inl e
     | Inr b \<Rightarrow>
       (case unmarshal b Default of Inl e \<Rightarrow> Inl e | Inr cfg \<Rightarrow> Inr (applyEnvOverrides getenv cfg)))"

definition Save_Config :: "(Config \<Rightarrow> bytes result) \<Rightarrow> string \<Rightarrow> Config \<Rightarrow> unit io" where
  "Save_Config marshal path cfg w =
    (case marshal (normalize cfg) of Inl e \<Rightarrow> (Inl e, w) | Inr b \<Rightarrow> os_WriteFile path b w)"

end
