(* ===== verification/AppConfigLaws.thy ===== *)
theory AppConfigLaws
  imports AppConfig ControlProps
begin

text \<open>
  What \<open>Load\<close> promises: whatever the file and the environment hold, the configuration is
  complete and within its bounds; and saving a configuration and loading it again gives what
  normalising gave.
\<close>

section \<open>Values\<close>

lemma positive_or_pos: "0 < fb \<Longrightarrow> 0 < positive_or fb n"
  by (simp add: positive_or_def)

lemma positive_or_idem [simp]: "positive_or fb (positive_or fb n) = positive_or fb n"
  by (simp add: positive_or_def)

definition trimmed :: "string \<Rightarrow> bool" where
  "trimmed s \<longleftrightarrow> strings_TrimSpace s = s"

definition clean_list :: "string list \<Rightarrow> bool" where
  "clean_list vs \<longleftrightarrow> (\<forall>v\<in>set vs. v \<noteq> [] \<and> trimmed v) \<and> distinct (map strings_ToLower vs)"

lemma normalizeList_clean: "clean_list (normalizeList vs)"
  using dedupe_trimmed_props [of vs "{}"] by (auto simp: clean_list_def normalizeList_def trimmed_def)

lemma normalizeList_idem [simp]: "normalizeList (normalizeList vs) = normalizeList vs"
  by (simp add: normalizeList_def dedupe_trimmed_idem)

lemma dedupe_clean:
  "clean_list vs \<Longrightarrow> \<forall>v\<in>set vs. strings_ToLower v \<notin> seen \<Longrightarrow> dedupe_trimmed vs seen = vs"
proof (induction vs arbitrary: seen)
  case (Cons v vs)
  have "dedupe_trimmed vs (insert (strings_ToLower v) seen) = vs"
    by (rule Cons.IH) (use Cons.prems in \<open>auto simp: clean_list_def image_iff\<close>)
  with Cons.prems show ?case by (simp add: clean_list_def trimmed_def Let_def)
qed simp

lemma normalizeList_id: "clean_list vs \<Longrightarrow> normalizeList vs = vs"
  by (simp add: normalizeList_def dedupe_clean)

lemma default_lists_clean:
  "clean_list defaultRequiredBuildTools" "clean_list defaultAvailableActions"
  "clean_list defaultArtifactPrefixes" "clean_list [''server*.log'']" "clean_list [''.'']"
  unfolding clean_list_def trimmed_def by code_simp+

lemma list_or_clean: "clean_list fb \<Longrightarrow> clean_list (list_or fb vs)"
  using normalizeList_clean [of vs] by (simp add: list_or_def Let_def)

lemma list_or_not_Nil: "fb \<noteq> [] \<Longrightarrow> list_or fb vs \<noteq> []"
  by (simp add: list_or_def Let_def)

lemma list_or_idem: "clean_list fb \<Longrightarrow> list_or fb (list_or fb vs) = list_or fb vs"
  by (simp add: list_or_def Let_def normalizeList_id normalizeList_clean)

lemma trim_or_not_Nil: "fb \<noteq> [] \<Longrightarrow> trim_or fb s \<noteq> []"
  by (simp add: trim_or_def or_else_def)

lemma trim_or_trimmed: "trimmed fb \<Longrightarrow> trimmed (trim_or fb s)"
  by (simp add: trim_or_def or_else_def trimmed_def)

lemma trim_or_idem: "trimmed fb \<Longrightarrow> trim_or fb (trim_or fb s) = trim_or fb s"
  by (simp add: trim_or_def or_else_def trimmed_def)

lemma one_of_mem: "fb \<in> set modes \<Longrightarrow> one_of modes fb s \<in> set modes"
  by (simp add: one_of_def Let_def)

lemma one_of_idem:
  "\<forall>m\<in>set modes. strings_ToLower (strings_TrimSpace m) = m \<Longrightarrow> fb \<in> set modes \<Longrightarrow>
    one_of modes fb (one_of modes fb s) = one_of modes fb s"
  by (simp add: one_of_def Let_def)

lemma blank_or_not_blank: "strings_TrimSpace fb \<noteq> [] \<Longrightarrow> strings_TrimSpace (blank_or fb s) \<noteq> []"
  by (simp add: blank_or_def)

lemma blank_or_idem: "blank_or fb (blank_or fb s) = blank_or fb s"
  by (simp add: blank_or_def)

section \<open>Derived paths\<close>

lemma Clean_not_Nil [simp]: "filepath_Clean p \<noteq> []"
proof -
  have "path_elems p \<noteq> [] \<Longrightarrow> hd (path_elems p) \<noteq> []"
    using clean_form_elem [OF path_elems_form] by (meson hd_in_set)
  then show ?thesis
    by (cases "path_elems p"; cases "tl (path_elems p)") (auto simp: filepath_Clean_def render_path_def Join_Cons)
qed

lemma joinConfigPath_not_Nil: "strings_TrimSpace (toSlashes rel) \<noteq> [] \<Longrightarrow> joinConfigPath base rel \<noteq> []"
  by (auto simp: joinConfigPath_def Let_def)

definition own_path :: "string \<Rightarrow> bool" where
  "own_path p \<longleftrightarrow> p \<noteq> [] \<and> strings_TrimSpace (toSlashes p) = p \<and> \<not> strings_HasPrefix p ''./''"

lemma own_path_trimmed: "own_path p \<Longrightarrow> strings_TrimSpace p = p"
  by (metis own_path_def TrimSpace_idem)

lemma default_paths_own:
  "own_path defaultDBPath" "own_path defaultTLSCertPath" "own_path defaultTLSKeyPath"
  "own_path defaultDBBackupDir" "own_path defaultRuntimeStateDir" "own_path ''logs''"
  "own_path ''roodox_server.pid''"
  unfolding own_path_def by code_simp+

lemma follow_root_not_Nil: "own_path fb \<Longrightarrow> follow_root d fb v \<noteq> []"
  using joinConfigPath_not_Nil [of fb] by (auto simp: follow_root_def deriveDataPath_def Let_def own_path_def)

lemma follow_dir_not_Nil: "derived \<noteq> [] \<Longrightarrow> follow_dir derived fb v \<noteq> []"
  by (auto simp: follow_dir_def Let_def)

section \<open>A valid configuration\<close>

definition windows_service_ok :: "WindowsServiceConfig \<Rightarrow> bool" where
  "windows_service_ok ws \<longleftrightarrow> ws_Name ws \<noteq> [] \<and> ws_DisplayName ws \<noteq> [] \<and> ws_Description ws \<noteq> []
    \<and> ws_StartType ws \<in> set [''auto'', ''manual'', ''disabled'']"

definition runtime_ok :: "RuntimeConfig \<Rightarrow> bool" where
  "runtime_ok rt \<longleftrightarrow> rt_BinaryPath rt \<noteq> [] \<and> rt_StateDir rt \<noteq> [] \<and> rt_PIDFile rt \<noteq> [] \<and> rt_LogDir rt \<noteq> []
    \<and> rt_StdoutLogName rt \<noteq> [] \<and> rt_StderrLogName rt \<noteq> [] \<and> 0 < rt_GracefulStopTimeoutSeconds rt
    \<and> windows_service_ok (rt_WindowsService rt)"

definition database_ok :: "DatabaseConfig \<Rightarrow> bool" where
  "database_ok db \<longleftrightarrow> 0 < dc_CheckpointIntervalSeconds db
    \<and> dc_CheckpointMode db \<in> set [''passive'', ''full'', ''restart'', ''truncate''] \<and> dc_BackupDir db \<noteq> []
    \<and> 0 < dc_BackupIntervalSeconds db \<and> 0 < dc_BackupKeepLatest db"

definition assigned_ok :: "ClientAssignedConfig \<Rightarrow> bool" where
  "assigned_ok ga \<longleftrightarrow> clean_list (ga_SyncRoots ga) \<and> ga_SyncRoots ga \<noteq> [] \<and> ga_ConflictPolicy ga \<noteq> []
    \<and> ga_LogLevel ga \<noteq> [] \<and> 0 < ga_LargeFileThreshold ga"

definition control_plane_ok :: "ControlPlaneSettings \<Rightarrow> bool" where
  "control_plane_ok cs \<longleftrightarrow> cs_DefaultDeviceGroup cs \<noteq> [] \<and> 0 < cs_HeartbeatIntervalSeconds cs
    \<and> cs_DefaultPolicyRevision cs \<noteq> 0 \<and> clean_list (cs_AvailableActions cs) \<and> cs_AvailableActions cs \<noteq> []
    \<and> 0 < cs_DiagnosticsKeepLatest cs \<and> assigned_ok (cs_AssignedConfig cs)
    \<and> ds_Mode (jc_ServiceDiscovery (cs_JoinBundle cs)) \<noteq> []"

definition cleanup_ok :: "CleanupConfig \<Rightarrow> bool" where
  "cleanup_ok cl \<longleftrightarrow>
    (let ta = cl_TempArtifacts cl; bd = cl_BuildWorkdirs cl; cf = cl_ConflictFiles cl; lf = cl_LogFiles cl in
     0 < ta_IntervalSeconds ta \<and> 0 < ta_RetentionSeconds ta \<and> 0 \<le> ta_MaxBytes ta
     \<and> clean_list (ta_Prefixes ta) \<and> ta_Prefixes ta \<noteq> []
     \<and> 0 < bd_IntervalSeconds bd \<and> 0 < bd_RetentionSeconds bd \<and> 0 \<le> bd_MaxBytes bd
     \<and> 0 < cf_IntervalSeconds cf \<and> 0 < cf_RetentionSeconds cf \<and> 0 \<le> cf_MaxBytes cf
     \<and> 0 \<le> cf_MaxCopiesPerPath cf \<and> (cf_Enabled cf \<longrightarrow> 0 < cf_MaxCopiesPerPath cf)
     \<and> lf_Dir lf \<noteq> [] \<and> clean_list (lf_Patterns lf) \<and> lf_Patterns lf \<noteq> []
     \<and> 0 < lf_IntervalSeconds lf \<and> 0 < lf_RetentionSeconds lf \<and> 0 \<le> lf_MaxBytes lf)"

definition config_ok :: "Config \<Rightarrow> bool" where
  "config_ok c \<longleftrightarrow> strings_TrimSpace (c_Addr c) \<noteq> [] \<and> strings_TrimSpace (c_RootDir c) \<noteq> [] \<and> c_DBPath c \<noteq> []
    \<and> c_TLSCertPath c \<noteq> [] \<and> c_TLSKeyPath c \<noteq> [] \<and> trimmed (c_DataRoot c) \<and> trimmed (c_SharedSecret c)
    \<and> clean_list (c_BuildToolDirs c) \<and> clean_list (c_RequiredBuildTools c) \<and> c_RequiredBuildTools c \<noteq> []
    \<and> runtime_ok (c_Runtime c) \<and> database_ok (c_Database c) \<and> control_plane_ok (c_ControlPlane c)
    \<and> cleanup_ok (c_Cleanup c)"

lemma windows_service_ok_normalize: "windows_service_ok (normalizeWindowsService ws)"
  unfolding windows_service_ok_def normalizeWindowsService_def
  using one_of_mem [of "''auto''" "[''auto'', ''manual'', ''disabled'']"] by (simp add: trim_or_not_Nil)

lemma runtime_ok_normalize: "rt_BinaryPath rt \<noteq> [] \<Longrightarrow> runtime_ok (normalizeRuntime d rt)"
  unfolding runtime_ok_def normalizeRuntime_def Let_def
  using default_paths_own
  by (simp add: trim_or_not_Nil positive_or_pos windows_service_ok_normalize follow_root_not_Nil
      follow_dir_not_Nil joinConfigPath_not_Nil own_path_def)

lemma database_ok_normalize: "dc_BackupDir db \<noteq> [] \<Longrightarrow> database_ok (normalizeDatabase db)"
  unfolding database_ok_def normalizeDatabase_def
  using one_of_mem [of "''truncate''" "[''passive'', ''full'', ''restart'', ''truncate'']"]
  by (simp add: positive_or_pos)

lemma assigned_ok_normalize: "assigned_ok (normalizeClientAssigned ga)"
  unfolding assigned_ok_def normalizeClientAssigned_def
  by (simp add: list_or_clean list_or_not_Nil trim_or_not_Nil positive_or_pos default_lists_clean)

lemma control_plane_ok_normalize: "control_plane_ok (normalizeControlPlane cs)"
  unfolding control_plane_ok_def normalizeControlPlane_def normalizeJoinBundleControl_def Let_def
  by (simp add: list_or_clean list_or_not_Nil trim_or_not_Nil positive_or_pos default_lists_clean
      assigned_ok_normalize defaultAvailableActions_def [symmetric])
    (simp add: defaultAvailableActions_def list_or_not_Nil)

lemma cleanup_ok_normalize: "d \<noteq> [] \<Longrightarrow> lf_Dir (cl_LogFiles cl) \<noteq> [] \<Longrightarrow> cleanup_ok (normalizeCleanup d cl)"
  unfolding cleanup_ok_def normalizeCleanup_def normalizeArtifacts_def normalizeBuildWorkdirs_def
    normalizeConflictFiles_def normalizeLogFiles_def Let_def
  by (simp add: list_or_clean list_or_not_Nil positive_or_pos default_lists_clean blank_or_def)
    (auto simp: defaultArtifactPrefixes_def list_or_not_Nil)

lemma rt_LogDir_not_Nil: "rt_LogDir (normalizeRuntime d rt) \<noteq> []"
  using default_paths_own
  by (simp add: normalizeRuntime_def Let_def follow_dir_not_Nil joinConfigPath_not_Nil own_path_def)

lemma config_ok_normalize: "config_ok (normalize cfg)"
proof -
  have blank: "strings_TrimSpace defaultAddr \<noteq> []" "strings_TrimSpace defaultRootDir \<noteq> []" by code_simp+
  have tools: "list_or defaultRequiredBuildTools vs \<noteq> []" for vs
    by (rule list_or_not_Nil) (simp add: defaultRequiredBuildTools_def)
  note own = default_paths_own
  show ?thesis
    unfolding config_ok_def normalize_def Let_def normalizeStoragePaths_def
    by (simp add: blank blank_or_not_blank tools follow_root_not_Nil own normalizeList_clean list_or_clean
        default_lists_clean trimmed_def runtime_ok_normalize trim_or_not_Nil database_ok_normalize
        control_plane_ok_normalize cleanup_ok_normalize rt_LogDir_not_Nil follow_dir_not_Nil)
qed

text \<open>
  Claim C19. Loading a configuration fails only when the file cannot be read or is not JSON for
  it; otherwise the result is valid, whatever the file and the environment say: no interval,
  retention, limit or name is missing or out of range, modes are among the known ones, and lists
  have no blanks and no duplicates up to case.
\<close>

theorem Load_valid:
  "case Load_Config unmarshal getenv contents of
     Inl e \<Rightarrow> (contents = Inl e \<and> \<not> errors_Is e ErrNotExist) \<or> (\<exists>b. contents = Inr b \<and> unmarshal b Default = Inl e)
   | Inr c \<Rightarrow> config_ok c"
  by (auto simp: Load_Config_def applyEnvOverrides_def config_ok_normalize split: sum.splits)

section \<open>Normalising twice\<close>

definition tidy :: "string \<Rightarrow> bool" where
  "tidy p \<longleftrightarrow> (\<forall>w\<in>set (strings_Split (toSlashes p) slash). w \<noteq> [] \<longrightarrow> \<not> is_space (hd w))"

lemma TrimSpace_self:
  assumes "s \<noteq> []" and "\<not> is_space (hd s)" and "\<not> is_space (last s)"
  shows "strings_TrimSpace s = s"
proof -
  have "dropWhile is_space s = s" using assms(1,2) by (cases s) simp_all
  moreover have "dropWhile is_space (rev s) = rev s"
    using assms(1,3) by (cases s rule: rev_cases) simp_all
  ultimately show ?thesis by (simp add: strings_TrimSpace_def trim_left_def trim_right_def)
qed

lemma foldl_clean_set: "set (foldl (clean_step r) out cs) \<subseteq> set out \<union> set cs \<union> {''..''}"
proof (induction cs arbitrary: out)
  case (Cons c cs)
  have "set (clean_step r out c) \<subseteq> set out \<union> {c, ''..''}" by (auto split: list.splits)
  with Cons [of "clean_step r out c"] show ?case by (auto simp del: clean_step.simps)
qed auto

lemma Join_not_Nil: "ws \<noteq> [] \<Longrightarrow> last ws \<noteq> [] \<Longrightarrow> strings_Join ws sep \<noteq> []"
proof (induction ws)
  case (Cons w ws)
  then show ?case by (cases "ws = []") (simp_all add: Join_Cons)
qed simp

lemma last_Join: "ws \<noteq> [] \<Longrightarrow> last ws \<noteq> [] \<Longrightarrow> last (strings_Join ws sep) = last (last ws)"
  by (induction ws) (auto simp: Join_Cons last_append Join_not_Nil)

lemma hd_Join: "ws \<noteq> [] \<Longrightarrow> hd ws \<noteq> [] \<Longrightarrow> hd (strings_Join ws sep) = hd (hd ws)"
  by (cases ws; cases "tl ws") auto

lemma Split_snoc_sep: "strings_Split (p @ c # q) c = strings_Split p c @ strings_Split q c"
proof (induction p)
  case (Cons x p)
  then show ?case by (cases "strings_Split p c") auto
qed simp

text \<open>A clean path whose elements do not begin with white space, and that ends with a plain one.\<close>

lemma Clean_trimmed:
  assumes lead: "\<forall>w\<in>set (strings_Split p slash). w \<noteq> [] \<longrightarrow> \<not> is_space (hd w)"
    and split: "strings_Split p slash = us @ [w]" and w: "plain_elem w" "\<not> is_space (last w)"
  shows "strings_TrimSpace (filepath_Clean p) = filepath_Clean p"
proof -
  have last: "path_elems p \<noteq> [] \<and> last (path_elems p) = w"
    using w(1) by (auto simp: path_elems_def clean_comps_def split plain_elem_def)
  have "set (path_elems p) \<subseteq> set (strings_Split p slash) \<union> {''..''}"
    unfolding path_elems_def clean_comps_def using foldl_clean_set [of _ "[]"] by fastforce
  then have "hd (path_elems p) \<in> set (strings_Split p slash) \<union> {''..''}"
    using last hd_in_set by blast
  moreover have ne: "hd (path_elems p) \<noteq> []"
    using last clean_form_elem [OF path_elems_form] by (meson hd_in_set)
  ultimately have hd: "\<not> is_space (hd (hd (path_elems p)))"
    using lead by (auto simp: is_space_def)
  have "w \<noteq> []" using w(1) by (simp add: plain_elem_def)
  with last ne have "hd (strings_Join (path_elems p) ''/'') = hd (hd (path_elems p))"
    and "last (strings_Join (path_elems p) ''/'') = last w" and "strings_Join (path_elems p) ''/'' \<noteq> []"
    using hd_Join [of "path_elems p"] last_Join [of "path_elems p"] Join_not_Nil [of "path_elems p"]
    by simp_all
  then show ?thesis
    using last hd w(2)
    by (intro TrimSpace_self) (auto simp: filepath_Clean_def render_path_def is_space_def)
qed

definition tidy_rel :: "string \<Rightarrow> bool" where
  "tidy_rel rel \<longleftrightarrow> own_path rel
    \<and> list_all (\<lambda>w. w \<noteq> [] \<longrightarrow> \<not> is_space (hd w)) (strings_Split rel slash)
    \<and> plain_elem (last (strings_Split rel slash)) \<and> \<not> is_space (last (last (strings_Split rel slash)))"

lemma default_paths_tidy:
  "tidy_rel defaultDBPath" "tidy_rel defaultTLSCertPath" "tidy_rel defaultTLSKeyPath"
  "tidy_rel defaultDBBackupDir" "tidy_rel defaultRuntimeStateDir" "tidy_rel ''logs''"
  "tidy_rel ''roodox_server.pid''"
  unfolding tidy_rel_def own_path_def plain_elem_def by code_simp+

lemma Split_drop_prefix: "set (strings_Split (strings_TrimPrefix p ''./'') slash) \<subseteq> set (strings_Split p slash)"
proof (cases "strings_HasPrefix p ''./''")
  case True
  then obtain q where "p = CHR ''.'' # slash # q" by (auto simp: HasPrefix_iff)
  then show ?thesis by (auto simp: strings_TrimPrefix_def)
qed (simp add: strings_TrimPrefix_def)

lemma toSlashes_map: "toSlashes s = map (\<lambda>c. if c = CHR 0x5C then slash else c) s"
  by (induction s) (auto simp: toSlashes_def strings_ReplaceAll1_def)

lemma TrimSpace_toSlashes: "strings_TrimSpace (toSlashes s) = toSlashes (strings_TrimSpace s)"
proof -
  have "is_space \<circ> (\<lambda>c. if c = CHR 0x5C then slash else c) = is_space"
    by (auto simp: fun_eq_iff is_space_def)
  then show ?thesis
    by (simp add: strings_TrimSpace_def trim_left_def trim_right_def toSlashes_map dropWhile_map rev_map)
qed

lemma trimmed_toSlashes: "trimmed d \<Longrightarrow> trimmed (toSlashes d)"
  by (simp add: trimmed_def TrimSpace_toSlashes)

lemma joinConfigPath_trimmed:
  assumes d: "tidy d" "trimmed (toSlashes d)" and rel: "tidy_rel rel"
  shows "strings_TrimSpace (joinConfigPath d rel) = joinConfigPath d rel"
proof (cases "toSlashes d = []")
  case True
  with rel own_path_trimmed [of rel] show ?thesis
    by (simp add: joinConfigPath_def tidy_rel_def own_path_def Let_def)
next
  case False
  let ?base = "strings_TrimPrefix (toSlashes d) ''./''"
  let ?p = "?base @ slash # rel"
  have split: "strings_Split ?p slash = strings_Split ?base slash @ strings_Split rel slash"
    by (rule Split_snoc_sep)
  have join: "joinConfigPath d rel = filepath_Clean ?p"
    using False d(2) rel
    by (simp add: joinConfigPath_def Let_def tidy_rel_def own_path_def trimmed_def strings_TrimPrefix_def)
  have lead: "\<forall>w\<in>set (strings_Split ?p slash). w \<noteq> [] \<longrightarrow> \<not> is_space (hd w)"
    using d(1) rel Split_drop_prefix [of "toSlashes d"]
    unfolding split tidy_def tidy_rel_def list_all_iff by auto
  have snoc: "strings_Split ?p slash
      = (strings_Split ?base slash @ butlast (strings_Split rel slash)) @ [last (strings_Split rel slash)]"
    unfolding split by simp
  have end_: "plain_elem (last (strings_Split rel slash))" "\<not> is_space (last (last (strings_Split rel slash)))"
    using rel by (simp_all add: tidy_rel_def)
  show ?thesis unfolding join by (rule Clean_trimmed [OF lead snoc end_])
qed

lemma follow_root_idem:
  assumes "tidy d" "trimmed d" and "tidy_rel fb"
  shows "follow_root d fb (follow_root d fb v) = follow_root d fb v" and "trimmed (follow_root d fb v)"
proof -
  have fb: "strings_TrimSpace fb = fb"
    using assms(3) by (simp add: tidy_rel_def own_path_trimmed)
  have "strings_TrimSpace (deriveDataPath d fb) = deriveDataPath d fb"
    using joinConfigPath_trimmed [OF assms(1) trimmed_toSlashes [OF assms(2)] assms(3)] assms(2) fb
    by (simp add: deriveDataPath_def Let_def trimmed_def)
  then show "follow_root d fb (follow_root d fb v) = follow_root d fb v" "trimmed (follow_root d fb v)"
    by (auto simp: follow_root_def Let_def deriveDataPath_def trimmed_def)
qed

lemma follow_dir_idem:
  assumes "trimmed derived"
  shows "follow_dir derived fb (follow_dir derived fb v) = follow_dir derived fb v"
    and "trimmed (follow_dir derived fb v)"
  using assms by (auto simp: follow_dir_def Let_def trimmed_def)

lemma default_names_trimmed:
  "trimmed defaultWindowsServiceName" "trimmed defaultWindowsServiceDisplayName"
  "trimmed defaultWindowsServiceDescription" "trimmed defaultRuntimeStdoutLogName"
  "trimmed defaultRuntimeStderrLogName" "trimmed defaultRuntimeBinaryPath" "trimmed ''manual''"
  "trimmed ''info''" "trimmed ''static''" "trimmed ''default''"
  unfolding trimmed_def by code_simp+

lemma one_of_modes_idem:
  "one_of [''auto'', ''manual'', ''disabled''] ''auto'' (one_of [''auto'', ''manual'', ''disabled''] ''auto'' s)
    = one_of [''auto'', ''manual'', ''disabled''] ''auto'' s"
  "one_of [''passive'', ''full'', ''restart'', ''truncate''] ''truncate''
      (one_of [''passive'', ''full'', ''restart'', ''truncate''] ''truncate'' s)
    = one_of [''passive'', ''full'', ''restart'', ''truncate''] ''truncate'' s"
  by (rule one_of_idem; code_simp)+

lemmas config_idem = trim_or_idem default_names_trimmed list_or_idem default_lists_clean
  one_of_modes_idem blank_or_idem

lemma normalizeWindowsService_idem:
  "normalizeWindowsService (normalizeWindowsService ws) = normalizeWindowsService ws"
  by (simp add: normalizeWindowsService_def config_idem)

lemma normalizeRuntime_idem:
  assumes "tidy d" "trimmed d" and "tidy (rt_StateDir (normalizeRuntime d rt))"
  shows "normalizeRuntime d (normalizeRuntime d rt) = normalizeRuntime d rt"
    and "trimmed (rt_LogDir (normalizeRuntime d rt))"
proof -
  let ?s = "follow_root d defaultRuntimeStateDir (rt_StateDir rt)"
  note root = follow_root_idem [OF assms(1,2) default_paths_tidy(5)]
  have "tidy ?s" using assms(3) by (simp add: normalizeRuntime_def Let_def)
  then have "trimmed (joinConfigPath ?s ''roodox_server.pid'')" "trimmed (joinConfigPath ?s ''logs'')"
    using joinConfigPath_trimmed [of ?s] trimmed_toSlashes [OF root(2)] default_paths_tidy(6,7)
    unfolding trimmed_def by blast+
  then show "normalizeRuntime d (normalizeRuntime d rt) = normalizeRuntime d rt"
    "trimmed (rt_LogDir (normalizeRuntime d rt))"
    by (simp_all add: normalizeRuntime_def Let_def root follow_dir_idem config_idem normalizeWindowsService_idem)
qed

lemma normalizeDatabase_idem: "normalizeDatabase (normalizeDatabase db) = normalizeDatabase db"
  by (simp add: normalizeDatabase_def config_idem)

lemma normalizeControlPlane_idem: "normalizeControlPlane (normalizeControlPlane cs) = normalizeControlPlane cs"
  by (simp add: normalizeControlPlane_def normalizeClientAssigned_def normalizeJoinBundleControl_def Let_def config_idem)

lemma normalizeCleanup_idem: "normalizeCleanup d (normalizeCleanup d cl) = normalizeCleanup d cl"
  by (simp add: normalizeCleanup_def normalizeArtifacts_def normalizeBuildWorkdirs_def
      normalizeConflictFiles_def normalizeLogFiles_def Let_def config_idem)

text \<open>The fields that \<open>normalize\<close> sets around the sections.\<close>

lemma normalizeRuntime_BinaryPath [simp]:
  "normalizeRuntime d (rt\<lparr>rt_BinaryPath := p\<rparr>) = (normalizeRuntime d rt)\<lparr>rt_BinaryPath := p\<rparr>"
  "rt_BinaryPath (normalizeRuntime d rt) = rt_BinaryPath rt"
  by (simp_all add: normalizeRuntime_def Let_def)

lemma normalizeDatabase_BackupDir [simp]:
  "normalizeDatabase (db\<lparr>dc_BackupDir := p\<rparr>) = (normalizeDatabase db)\<lparr>dc_BackupDir := p\<rparr>"
  "dc_BackupDir (normalizeDatabase db) = dc_BackupDir db"
  by (simp_all add: normalizeDatabase_def)

definition log_dir_of :: "string \<Rightarrow> CleanupConfig \<Rightarrow> CleanupConfig" where
  "log_dir_of logDir cl = normalizeCleanup logDir
    (cl\<lparr>cl_LogFiles := (cl_LogFiles cl)\<lparr>lf_Dir := follow_dir logDir defaultRuntimeLogDir (lf_Dir (cl_LogFiles cl))\<rparr>\<rparr>)"

lemma log_dir_of_idem:
  assumes "trimmed logDir" and "logDir \<noteq> []"
  shows "log_dir_of logDir (log_dir_of logDir cl) = log_dir_of logDir cl"
proof -
  have "blank_or logDir (follow_dir logDir fb v) = follow_dir logDir fb v" for fb v
    using assms by (auto simp: blank_or_def follow_dir_def Let_def)
  then show ?thesis using follow_dir_idem(1) [OF assms(1)]
    by (simp add: log_dir_of_def normalizeCleanup_def normalizeArtifacts_def normalizeBuildWorkdirs_def
        normalizeConflictFiles_def normalizeLogFiles_def Let_def config_idem)
qed

lemma normalize_eq:
  "normalize cfg =
    (let d = strings_TrimSpace (c_DataRoot cfg); rt = normalizeRuntime d (c_Runtime cfg) in
     cfg\<lparr>c_DataRoot := d, c_Addr := blank_or defaultAddr (c_Addr cfg),
       c_RootDir := blank_or defaultRootDir (c_RootDir cfg),
       c_Runtime := rt\<lparr>rt_BinaryPath := trim_or defaultRuntimeBinaryPath (rt_BinaryPath (c_Runtime cfg))\<rparr>,
       c_BuildToolDirs := normalizeList (c_BuildToolDirs cfg),
       c_RequiredBuildTools := list_or defaultRequiredBuildTools (c_RequiredBuildTools cfg),
       c_DBPath := follow_root d defaultDBPath (c_DBPath cfg),
       c_TLSCertPath := follow_root d defaultTLSCertPath (c_TLSCertPath cfg),
       c_TLSKeyPath := follow_root d defaultTLSKeyPath (c_TLSKeyPath cfg),
       c_Database := (normalizeDatabase (c_Database cfg))
         \<lparr>dc_BackupDir := follow_root d defaultDBBackupDir (dc_BackupDir (c_Database cfg))\<rparr>,
       c_SharedSecret := strings_TrimSpace (c_SharedSecret cfg),
       c_ControlPlane := normalizeControlPlane (c_ControlPlane cfg),
       c_Cleanup := log_dir_of (rt_LogDir rt) (c_Cleanup cfg)\<rparr>)"
  by (simp add: normalize_def normalizeStoragePaths_def Let_def log_dir_of_def)

lemma normalize_idem:
  assumes tidy: "tidy (c_DataRoot (normalize cfg))" "tidy (rt_StateDir (c_Runtime (normalize cfg)))"
  shows "normalize (normalize cfg) = normalize cfg"
proof -
  let ?d = "strings_TrimSpace (c_DataRoot cfg)"
  let ?rt = "normalizeRuntime ?d (c_Runtime cfg)"
  have d: "tidy ?d" "trimmed ?d" using tidy(1) by (simp_all add: normalize_eq Let_def trimmed_def)
  have "tidy (rt_StateDir ?rt)" using tidy(2) by (simp add: normalize_eq Let_def)
  note rt = normalizeRuntime_idem [OF d this]
  note logs = log_dir_of_idem [OF rt(2) rt_LogDir_not_Nil]
  note roots = follow_root_idem(1) [OF d] default_paths_tidy
  show ?thesis
    unfolding normalize_eq [of "normalize cfg"] unfolding normalize_eq [of cfg]
    by (simp add: Let_def rt logs roots config_idem normalizeDatabase_idem normalizeControlPlane_idem)
qed

section \<open>Save and Load\<close>

lemma env_unset [simp]:
  "env_str (\<lambda>_. []) name s = s" "env_opt parse (\<lambda>_. []) name x = x" "env_word parse' (\<lambda>_. []) name n = n"
  "env_list sep (\<lambda>_. []) name vs = vs"
  by (simp_all add: env_str_def env_opt_def env_word_def env_list_def)

lemma env_overrides_unset: "env_overrides (\<lambda>_. []) cfg = cfg"
  by (simp add: env_overrides_def env_runtime_def env_windows_service_def env_database_def
      env_control_plane_def env_assigned_def env_join_bundle_def env_discovery_def env_cleanup_def
      env_artifacts_def env_build_workdirs_def env_conflict_files_def env_log_files_def)

text \<open>
  Claim C20. With no environment variable set, loading what was saved gives the normalised
  configuration, and saving that again writes the same file, provided JSON decoding inverts
  encoding on it and no element of its data root and state directory begins with white space.
\<close>

theorem Save_then_Load:
  assumes "marshal (normalize cfg) = Inr b" and "unmarshal b Default = Inr (normalize cfg)"
    and "tidy (c_DataRoot (normalize cfg))" and "tidy (rt_StateDir (c_Runtime (normalize cfg)))"
  shows "Load_Config unmarshal (\<lambda>_. []) (Inr b) = Inr (normalize cfg)
    \<and> Save_Config marshal path cfg w = os_WriteFile path b w
    \<and> Save_Config marshal path (normalize cfg) w = os_WriteFile path b w"
  using assms normalize_idem [of cfg]
  by (simp add: Load_Config_def Save_Config_def applyEnvOverrides_def env_overrides_unset)

definition sample_settings :: Config where
  "sample_settings = Default\<lparr>c_DataRoot := '' /srv/roodox '', c_Addr := [],
     c_RequiredBuildTools := [''make'', ''MAKE'', '' ''], c_AuthEnabled := True\<rparr>"

theorem Save_then_Load_witness:
  "Load_Config (\<lambda>_ _. Inr (normalize sample_settings)) (\<lambda>_. []) (Inr [123]) = Inr (normalize sample_settings)
    \<and> c_DBPath (normalize sample_settings) = ''/srv/roodox/roodox.db''
    \<and> c_RequiredBuildTools (normalize sample_settings) = [''make'']"
proof -
  have "c_DataRoot (normalize sample_settings) = ''/srv/roodox''"
    "rt_StateDir (c_Runtime (normalize sample_settings)) = ''/srv/roodox/runtime''"
    "c_DBPath (normalize sample_settings) = ''/srv/roodox/roodox.db''"
    "c_RequiredBuildTools (normalize sample_settings) = [''make'']" by code_simp+
  moreover have "tidy ''/srv/roodox''" "tidy ''/srv/roodox/runtime''" unfolding tidy_def by code_simp+
  moreover have "(\<lambda>_. Inr [123]) (normalize sample_settings) = (Inr [123] :: bytes result)"
    "(\<lambda>_ _. Inr (normalize sample_settings)) [123] Default = (Inr (normalize sample_settings) :: Config result)"
    by simp_all
  ultimately show ?thesis
    using Save_then_Load [of "\<lambda>_. Inr [123]" sample_settings "[123]" "\<lambda>_ _. Inr (normalize sample_settings)"]
    by metis
qed

end
