(* ===== verification/ServerConfig.thy ===== *)
theory ServerConfig
  imports AppConfigLaws
begin

text \<open>
  \<open>internal/serverapp/control_plane_config.go\<close>: from the configuration of the process to the
  configuration of the control plane services.
\<close>

section \<open>net.SplitHostPort\<close>

definition index_of :: "char \<Rightarrow> string \<Rightarrow> nat option" where
  "index_of c s = (if c \<in> set s then Some (length (takeWhile (\<lambda>x. x \<noteq> c) s)) else None)"

definition last_index_of :: "char \<Rightarrow> string \<Rightarrow> nat option" where
  "last_index_of c s =
    (if c \<in> set s then Some (length s - 1 - length (takeWhile (\<lambda>x. x \<noteq> c) (rev s))) else None)"

text \<open>\<open>None\<close> is an error.\<close>

definition net_SplitHostPort :: "string \<Rightarrow> (string \<times> string) option" where
  "net_SplitHostPort hostport =
    (case last_index_of (CHR '':'') hostport of
       None \<Rightarrow> None
     | Some i \<Rightarrow>
       if take 1 hostport = ''[''
       then
         (case index_of (CHR '']'') hostport of
            None \<Rightarrow> None
          | Some e \<Rightarrow>
            if e + 1 \<noteq> i then None
            else if CHR ''['' \<in> set (drop 1 hostport) \<or> CHR '']'' \<in> set (drop (e + 1) hostport) then None
            else Some (take (e - 1) (drop 1 hostport), drop (i + 1) hostport))
       else
         (let host = take i hostport in
          if CHR '':'' \<in> set host then None
          else if CHR ''['' \<in> set hostport \<or> CHR '']'' \<in> set hostport then None
          else Some (host, drop (i + 1) hostport)))"

section \<open>Server id and address\<close>

text \<open>The port is a 32-bit word: the loop does not check for overflow.\<close>

fun port_digits :: "32 word \<Rightarrow> string \<Rightarrow> 32 word option" where
  "port_digits port [] = Some port"
| "port_digits port (r # rs) =
    (case digit_val r of None \<Rightarrow> None | Some d \<Rightarrow> port_digits (port * 10 + of_nat d) rs)"

definition parseServiceDiscoveryAddress :: "string \<Rightarrow> string \<times> 32 word" where
  "parseServiceDiscoveryAddress addr =
    (case net_SplitHostPort (strings_TrimSpace addr) of
       None \<Rightarrow> ([], 0)
     | Some (host0, portText) \<Rightarrow>
       (let host1 = strings_Trim (strings_TrimSpace host0) ''[]'';
            host = (if host1 = [] \<or> host1 = ''0.0.0.0'' \<or> host1 = ''::'' then [] else host1) in
        if strings_TrimSpace portText = [] then (host, 0)
        else (case port_digits 0 portText of None \<Rightarrow> (host, 0) | Some port \<Rightarrow> (host, port))))"

definition letter_or_digit :: "char \<Rightarrow> bool" where
  "letter_or_digit c \<longleftrightarrow>
    (let n = (of_char c :: nat) in (48 \<le> n \<and> n \<le> 57) \<or> (65 \<le> n \<and> n \<le> 90) \<or> (97 \<le> n \<and> n \<le> 122))"

fun server_id_runes :: "bool \<Rightarrow> string \<Rightarrow> string" where
  "server_id_runes lastDash [] = []"
| "server_id_runes lastDash (r # rs) =
    (if letter_or_digit r then r # server_id_runes False rs
     else if \<not> lastDash then CHR ''-'' # server_id_runes True rs
     else server_id_runes lastDash rs)"

text \<open>\<open>hostname\<close> is the result of \<open>os.Hostname\<close>.\<close>

definition resolveServerID :: "(string \<Rightarrow> string) \<Rightarrow> string result \<Rightarrow> string" where
  "resolveServerID getenv hostname =
    (let value = strings_TrimSpace (getenv ''ROODOX_SERVER_ID'') in
     if value \<noteq> [] then value
     else
       (case hostname of
          Inl e \<Rightarrow> ''srv-main''
        | Inr h \<Rightarrow>
          (let host = strings_TrimSpace h in
           if host = [] then ''srv-main''
           else
             (let value = strings_Trim (server_id_runes False (strings_ToLower host)) ''-'' in
              if value = [] then ''srv-main'' else value))))"

section \<open>The configuration of the control plane\<close>

definition assigned_of :: "ClientAssignedConfig \<Rightarrow> AssignedConfig" where
  "assigned_of ga =
    \<lparr>ac_MountPath = ga_MountPath ga, ac_SyncRoots = ga_SyncRoots ga, ac_ConflictPolicy = ga_ConflictPolicy ga,
     ac_ReadOnly = ga_ReadOnly ga, ac_AutoConnect = ga_AutoConnect ga, ac_BandwidthLimit = ga_BandwidthLimit ga,
     ac_LogLevel = ga_LogLevel ga, ac_LargeFileThreshold = ga_LargeFileThreshold ga\<rparr>"

definition BuildControlPlaneConfig ::
    "(string \<Rightarrow> string) \<Rightarrow> string result \<Rightarrow> Config \<Rightarrow> ControlPlaneConfig" where
  "BuildControlPlaneConfig getenv hostname cfg =
    (case parseServiceDiscoveryAddress (c_Addr cfg) of
       (serviceHost, servicePort) \<Rightarrow>
       (let cs = c_ControlPlane cfg; joinBundle = cs_JoinBundle cs; discovery = jc_ServiceDiscovery joinBundle;
            serverID = strings_TrimSpace (cs_ServerID cs);
            defaultDeviceGroup = strings_TrimSpace (cs_DefaultDeviceGroup cs) in
        \<lparr>cp_ServerID = (if serverID = [] then resolveServerID getenv hostname else serverID),
         cp_DefaultDeviceGroup = (if defaultDeviceGroup = [] then ''default'' else defaultDeviceGroup),
         cp_HeartbeatIntervalSeconds = word_of_int (cs_HeartbeatIntervalSeconds cs),
         cp_DefaultPolicyRevision = cs_DefaultPolicyRevision cs,
         cp_DefaultAssignedConfig = assigned_of (cs_AssignedConfig cs),
         cp_JoinBundle =
           \<lparr>jb_OverlayProvider = jc_OverlayProvider joinBundle,
            jb_OverlayJoinConfigJSON = jc_OverlayJoinConfigJSON joinBundle,
            jb_ServiceDiscovery =
              \<lparr>sd_Mode = ds_Mode discovery,
               sd_Host = (if strings_TrimSpace (ds_Host discovery) = [] then serviceHost else ds_Host discovery),
               sd_Port = (if ds_Port discovery = 0 then servicePort else ds_Port discovery),
               sd_UseTLS = (if \<not> ds_UseTLS discovery then c_TLSEnabled cfg else ds_UseTLS discovery),
               sd_TLSServerName = ds_TLSServerName discovery\<rparr>,
            jb_SharedSecret = (if c_AuthEnabled cfg then strings_TrimSpace (c_SharedSecret cfg) else [])\<rparr>,
         cp_AvailableActions = cs_AvailableActions cs,
         cp_DiagnosticsKeepLatest = cs_DiagnosticsKeepLatest cs\<rparr>))"

section \<open>Laws\<close>

lemma port_digits_parse:
  "port_digits (of_nat acc) s = map_option of_nat (parse_digits acc s)"
proof (induction s arbitrary: acc)
  case (Cons c cs)
  show ?case
  proof (cases "digit_val c")
    case (Some d)
    have "(of_nat acc :: 32 word) * 10 + of_nat d = of_nat (10 * acc + d)" by (simp add: algebra_simps)
    with Some Cons.IH [of "10 * acc + d"] show ?thesis by (simp only: port_digits.simps parse_digits.simps option.case)
  qed simp
qed simp

lemma parse_digits_no_space: "parse_digits acc s = Some n \<Longrightarrow> \<forall>c\<in>set s. \<not> is_space c"
  by (induction acc s rule: parse_digits.induct)
    (auto simp: digit_val_def is_space_def Let_def split: option.splits if_splits)

lemma trim_right_set: "set (trim_right P s) \<subseteq> set s"
  unfolding trim_right_def by (metis set_dropWhileD set_rev subsetI)

lemma TrimSpace_set: "set (strings_TrimSpace s) \<subseteq> set s"
  unfolding strings_TrimSpace_def trim_left_def using trim_right_set set_dropWhileD by fastforce

lemma trim_none: "\<forall>c\<in>set s. \<not> P c \<Longrightarrow> trim_right P (trim_left P s) = s"
proof -
  assume a: "\<forall>c\<in>set s. \<not> P c"
  then have "dropWhile P s = s" by (cases s) auto
  moreover from a have "dropWhile P (rev s) = rev s" by (cases s rule: rev_cases) auto
  ultimately show ?thesis by (simp add: trim_left_def trim_right_def)
qed

lemma SplitHostPort_host:
  assumes "net_SplitHostPort hp = Some (host, port)"
  shows "CHR '']'' \<notin> set host \<and> CHR ''['' \<notin> set host"
proof (cases "take 1 hp = ''[''")
  case True
  with assms obtain e where e: "index_of (CHR '']'') hp = Some e" "CHR ''['' \<notin> set (drop 1 hp)"
    "host = take (e - 1) (drop 1 hp)"
    by (auto simp: net_SplitHostPort_def split: option.splits if_splits)
  have "CHR '']'' \<notin> set (take e hp)"
    using e(1) by (auto simp: index_of_def takeWhile_eq_take [symmetric] dest: set_takeWhileD split: if_splits)
  moreover have "set host \<subseteq> set (take e hp)"
    unfolding e(3) by (cases hp; cases e) (auto dest: in_set_takeD)
  moreover have "set host \<subseteq> set (drop 1 hp)" unfolding e(3) by (auto dest: in_set_takeD)
  ultimately show ?thesis using e(2) by blast
next
  case False
  with assms show ?thesis
    by (auto simp: net_SplitHostPort_def Let_def split: option.splits if_splits dest: in_set_takeD)
qed

lemma discovery_host_trimmed: "trimmed (fst (parseServiceDiscoveryAddress addr))"
proof (cases "net_SplitHostPort (strings_TrimSpace addr)")
  case None
  then show ?thesis by (simp add: parseServiceDiscoveryAddress_def trimmed_def)
next
  case (Some hp)
  obtain host port where hp: "hp = (host, port)" by (cases hp)
  from SplitHostPort_host Some hp have "CHR '']'' \<notin> set host \<and> CHR ''['' \<notin> set host" by blast
  then have "\<forall>c\<in>set (strings_TrimSpace host). \<not> c \<in> set ''[]''" using TrimSpace_set [of host] by auto
  then have "strings_Trim (strings_TrimSpace host) ''[]'' = strings_TrimSpace host"
    unfolding strings_Trim_def by (rule trim_none)
  then show ?thesis
    using Some hp by (simp add: parseServiceDiscoveryAddress_def Let_def trimmed_def split: option.splits)
qed

lemma server_id_runes_no_space: "c \<in> set (server_id_runes b s) \<Longrightarrow> \<not> is_space c"
  by (induction b s rule: server_id_runes.induct)
    (auto simp: letter_or_digit_def is_space_def Let_def split: if_splits)

lemma resolveServerID_trimmed: "trimmed (resolveServerID getenv hostname)"
proof -
  have "trimmed (strings_Trim (server_id_runes False h) ''-'')" for h
  proof -
    have "set (strings_Trim (server_id_runes False h) ''-'') \<subseteq> set (server_id_runes False h)"
      unfolding strings_Trim_def trim_left_def using trim_right_set set_dropWhileD by fastforce
    then have "\<forall>c\<in>set (strings_Trim (server_id_runes False h) ''-''). \<not> is_space c"
      using server_id_runes_no_space by blast
    then show ?thesis unfolding trimmed_def strings_TrimSpace_def by (rule trim_none)
  qed
  moreover have "trimmed ''srv-main''" unfolding trimmed_def by code_simp
  ultimately show ?thesis by (simp add: resolveServerID_def Let_def trimmed_def split: sum.splits)
qed

lemma normalizeStringList_id: "clean_list vs \<Longrightarrow> normalizeStringList vs = vs"
  using normalizeList_id [of vs] by (simp add: normalizeStringList_def normalizeList_def)

lemma assigned_of_canonical:
  "normalizeAssigned (assigned_of (normalizeClientAssigned ga)) = assigned_of (normalizeClientAssigned ga)"
  using list_or_clean [OF default_lists_clean(5), of "ga_SyncRoots ga"] list_or_not_Nil [of "[''.'']" "ga_SyncRoots ga"]
  by (simp add: normalizeAssigned_def assigned_of_def normalizeClientAssigned_def Let_def normalizeStringList_id
      trim_or_def or_else_def positive_or_def trimmed_constants)

lemma word32_not_0: "0 < n \<Longrightarrow> n < 2 ^ 32 \<Longrightarrow> (word_of_int n :: 32 word) \<noteq> 0"
  by (simp add: word_of_int_eq_0_iff zdvd_not_zless)

lemma BuildControlPlaneConfig_canonical:
  assumes "cs_HeartbeatIntervalSeconds (c_ControlPlane (normalize cfg)) < 2 ^ 32"
  shows "normalizeControlPlaneConfig (BuildControlPlaneConfig getenv hostname (normalize cfg))
    = BuildControlPlaneConfig getenv hostname (normalize cfg)"
proof -
  let ?cs = "normalizeControlPlane (c_ControlPlane cfg)"
  have cs: "c_ControlPlane (normalize cfg) = ?cs" by (simp add: normalize_eq Let_def)
  have ok: "control_plane_ok ?cs" by (rule control_plane_ok_normalize)
  have beat: "(word_of_int (cs_HeartbeatIntervalSeconds ?cs) :: 32 word) \<noteq> 0"
    using assms ok unfolding cs by (intro word32_not_0) (simp_all add: control_plane_ok_def)
  have acts: "normalizeStringList (cs_AvailableActions ?cs) = cs_AvailableActions ?cs" "cs_AvailableActions ?cs \<noteq> []"
    using ok by (simp_all add: control_plane_ok_def normalizeStringList_id)
  have ga: "normalizeAssigned (assigned_of (cs_AssignedConfig ?cs)) = assigned_of (cs_AssignedConfig ?cs)"
    by (simp add: normalizeControlPlane_def assigned_of_canonical)
  obtain host port where addr: "parseServiceDiscoveryAddress (c_Addr (normalize cfg)) = (host, port)"
    by force
  then have host: "strings_TrimSpace host = host"
    using discovery_host_trimmed [of "c_Addr (normalize cfg)"] by (simp add: trimmed_def)
  have group: "or_else (strings_TrimSpace (if g = [] then ''default'' else g)) ''default'' = (if g = [] then ''default'' else g)"
    if "strings_TrimSpace g = g" for g
    using that by (simp add: or_else_def trimmed_constants)
  have mode: "or_else (strings_TrimSpace (ds_Mode (jc_ServiceDiscovery (cs_JoinBundle ?cs)))) ''static''
      = ds_Mode (jc_ServiceDiscovery (cs_JoinBundle ?cs))"
    by (simp add: normalizeControlPlane_def normalizeJoinBundleControl_def Let_def trim_or_def or_else_def trimmed_constants)
  have joined: "strings_TrimSpace (jc_OverlayProvider (cs_JoinBundle ?cs)) = jc_OverlayProvider (cs_JoinBundle ?cs)"
    "strings_TrimSpace (jc_OverlayJoinConfigJSON (cs_JoinBundle ?cs)) = jc_OverlayJoinConfigJSON (cs_JoinBundle ?cs)"
    "strings_TrimSpace (ds_Host (jc_ServiceDiscovery (cs_JoinBundle ?cs))) = ds_Host (jc_ServiceDiscovery (cs_JoinBundle ?cs))"
    "strings_TrimSpace (ds_TLSServerName (jc_ServiceDiscovery (cs_JoinBundle ?cs)))
      = ds_TLSServerName (jc_ServiceDiscovery (cs_JoinBundle ?cs))"
    by (simp_all add: normalizeControlPlane_def normalizeJoinBundleControl_def Let_def)
  have ok': "cs_DefaultPolicyRevision ?cs \<noteq> 0" "0 < cs_DiagnosticsKeepLatest ?cs"
    using ok by (simp_all add: control_plane_ok_def)
  note id = resolveServerID_trimmed [of getenv hostname, unfolded trimmed_def]
  show ?thesis
    using beat acts ga host mode joined ok' group [of "strings_TrimSpace (cs_DefaultDeviceGroup ?cs)"] id
    by (simp add: BuildControlPlaneConfig_def cs addr normalizeControlPlaneConfig_def normalizeJoinBundle_def Let_def)
qed

text \<open>
  The configuration of the control plane that the process builds from whatever it loaded
  is already in the normal form of the services, so that what they use is what the file and the
  environment say; only a heartbeat interval of more than 32 bits is cut.
\<close>

theorem loaded_configuration_is_served:
  assumes "Load_Config unmarshal getenv contents = Inr cfg"
    and "cs_HeartbeatIntervalSeconds (c_ControlPlane cfg) < 2 ^ 32"
  shows "normalizeControlPlaneConfig (BuildControlPlaneConfig getenv hostname cfg) = BuildControlPlaneConfig getenv hostname cfg
    \<and> uint (cp_HeartbeatIntervalSeconds (BuildControlPlaneConfig getenv hostname cfg))
      = cs_HeartbeatIntervalSeconds (c_ControlPlane cfg)"
proof -
  from assms(1) obtain c where c: "cfg = normalize c"
    by (auto simp: Load_Config_def applyEnvOverrides_def split: sum.splits if_splits)
  have "0 < cs_HeartbeatIntervalSeconds (c_ControlPlane cfg)"
    using config_ok_normalize [of c] by (simp add: c config_ok_def control_plane_ok_def)
  with assms(2) have "uint (word_of_int (cs_HeartbeatIntervalSeconds (c_ControlPlane cfg)) :: 32 word)
      = cs_HeartbeatIntervalSeconds (c_ControlPlane cfg)" by (simp add: uint_word_of_int take_bit_eq_mod)
  with BuildControlPlaneConfig_canonical [of c getenv hostname] assms(2) show ?thesis
    by (simp add: c BuildControlPlaneConfig_def Let_def split: prod.splits)
qed

theorem loaded_configuration_is_served_witness:
  "normalizeControlPlaneConfig (BuildControlPlaneConfig (\<lambda>_. []) (Inr ''Build Box 7'') (normalize Default))
      = BuildControlPlaneConfig (\<lambda>_. []) (Inr ''Build Box 7'') (normalize Default)
    \<and> cp_ServerID (BuildControlPlaneConfig (\<lambda>_. []) (Inr ''Build Box 7'') (normalize Default)) = ''build-box-7''
    \<and> sd_Port (jb_ServiceDiscovery (cp_JoinBundle
        (BuildControlPlaneConfig (\<lambda>_. []) (Inr ''Build Box 7'') (normalize Default)))) = 50051"
proof -
  have load: "Load_Config (\<lambda>_ _. Inl (Sentinel ErrInvalid)) (\<lambda>_. []) (Inl (Sentinel ErrNotExist)) = Inr (normalize Default)"
    by (simp add: Load_Config_def applyEnvOverrides_def env_overrides_unset)
  have "cs_HeartbeatIntervalSeconds (c_ControlPlane (normalize Default)) < 2 ^ 32"
    "cp_ServerID (BuildControlPlaneConfig (\<lambda>_. []) (Inr ''Build Box 7'') (normalize Default)) = ''build-box-7''"
    "sd_Port (jb_ServiceDiscovery (cp_JoinBundle
        (BuildControlPlaneConfig (\<lambda>_. []) (Inr ''Build Box 7'') (normalize Default)))) = 50051"
    by code_simp+
  with loaded_configuration_is_served [OF load, of "Inr ''Build Box 7''"] show ?thesis by simp
qed

end
