(* ===== verification/Observability.thy ===== *)
theory Observability
  imports GoErrors
begin

text \<open>
  \<open>internal/observability/recorder.go\<close>: the counters, latency samples and small-write bursts of
  the metrics. The maps of the recorder are association lists with one entry per key; their order
  does not show, because \<open>Snapshot\<close> sorts. The recorder exists (the code's tests for a nil
  receiver are left out), and counters are integers that do not reach the end of \<open>int64\<close>.
\<close>

section \<open>Duration samples\<close>

record durationSampler =
  ds_values :: "int list"
  ds_limit :: int
  ds_next :: nat
  ds_count :: int

definition empty_sampler :: "int \<Rightarrow> durationSampler" where
  "empty_sampler limit = \<lparr>ds_values = [], ds_limit = limit, ds_next = 0, ds_count = 0\<rparr>"

definition duration_Milliseconds :: "duration \<Rightarrow> int" where
  "duration_Milliseconds d = (if d < 0 then - ((- d) div millisecond) else d div millisecond)"

definition sampler_Add :: "duration \<Rightarrow> durationSampler \<Rightarrow> durationSampler" where
  "sampler_Add d s =
    (let ms = duration_Milliseconds (if d < 0 then 0 else d); s1 = s\<lparr>ds_count := ds_count s + 1\<rparr> in
     if ds_limit s \<le> 0 then s1\<lparr>ds_values := ds_values s @ [ms]\<rparr>
     else if int (length (ds_values s)) < ds_limit s then s1\<lparr>ds_values := ds_values s @ [ms]\<rparr>
     else s1\<lparr>ds_values := (ds_values s)[ds_next s := ms], ds_next := (ds_next s + 1) mod nat (ds_limit s)\<rparr>)"

definition percentile :: "int list \<Rightarrow> int \<Rightarrow> int" where
  "percentile values p =
    (if values = [] then 0
     else if p \<le> 0 then values ! 0
     else if p \<ge> 100 then values ! (length values - 1)
     else
       (let index = (int (length values) * p + 99) div 100;
            index1 = (if index \<le> 0 then 1 else index);
            index2 = (if index1 > int (length values) then int (length values) else index1) in
        values ! nat (index2 - 1)))"

record DurationStats =
  du_Count :: int
  du_P50Ms :: int
  du_P95Ms :: int
  du_P99Ms :: int

definition sampler_Snapshot :: "durationSampler \<Rightarrow> DurationStats" where
  "sampler_Snapshot s =
    (let values = sort (ds_values s) in
     if values = [] then \<lparr>du_Count = ds_count s, du_P50Ms = 0, du_P95Ms = 0, du_P99Ms = 0\<rparr>
     else \<lparr>du_Count = ds_count s, du_P50Ms = percentile values 50, du_P95Ms = percentile values 95,
           du_P99Ms = percentile values 99\<rparr>)"

section \<open>The recorder\<close>

record RecorderConfig =
  rc_RPCLatencySampleSize :: int
  rc_SmallWriteThreshold :: int
  rc_SmallWriteWindow :: duration
  rc_SmallWriteBurstMinimum :: int

record smallWriteWindow =
  sw_start :: gotime
  sw_last :: gotime
  sw_count :: int

record rpcStats =
  rs_count :: int
  rs_errorCount :: int
  rs_latency :: durationSampler

record Recorder =
  r_cfg :: RecorderConfig
  r_rangeWriteCalls :: int
  r_rangeWriteBytes :: int
  r_rangeWriteConflictCalls :: int
  r_smallWriteBursts :: int
  r_smallWriteState :: "(string \<times> smallWriteWindow) list"
  r_smallWritePathCounts :: "(string \<times> int) list"
  r_buildSuccessCount :: int
  r_buildFailureCount :: int
  r_buildLogBytes :: int
  r_buildQueueWait :: durationSampler
  r_buildDuration :: durationSampler
  r_rpc :: "(string \<times> rpcStats) list"

definition NewRecorder :: "RecorderConfig \<Rightarrow> Recorder" where
  "NewRecorder cfg0 =
    (let cfg = cfg0\<lparr>
       rc_RPCLatencySampleSize := (if rc_RPCLatencySampleSize cfg0 \<le> 0 then 256 else rc_RPCLatencySampleSize cfg0),
       rc_SmallWriteThreshold := (if rc_SmallWriteThreshold cfg0 \<le> 0 then 65536 else rc_SmallWriteThreshold cfg0),
       rc_SmallWriteWindow := (if rc_SmallWriteWindow cfg0 \<le> 0 then second else rc_SmallWriteWindow cfg0),
       rc_SmallWriteBurstMinimum := (if rc_SmallWriteBurstMinimum cfg0 \<le> 1 then 4 else rc_SmallWriteBurstMinimum cfg0)\<rparr> in
     \<lparr>r_cfg = cfg, r_rangeWriteCalls = 0, r_rangeWriteBytes = 0, r_rangeWriteConflictCalls = 0,
      r_smallWriteBursts = 0, r_smallWriteState = [], r_smallWritePathCounts = [],
      r_buildSuccessCount = 0, r_buildFailureCount = 0, r_buildLogBytes = 0,
      r_buildQueueWait = empty_sampler (rc_RPCLatencySampleSize cfg),
      r_buildDuration = empty_sampler (rc_RPCLatencySampleSize cfg), r_rpc = []\<rparr>)"

definition RecordRPC :: "string \<Rightarrow> bool \<Rightarrow> duration \<Rightarrow> Recorder \<Rightarrow> Recorder" where
  "RecordRPC method ok d r =
    (if strings_TrimSpace method = [] then r
     else
       (let stats = (case map_of (r_rpc r) method of
              None \<Rightarrow> \<lparr>rs_count = 0, rs_errorCount = 0,
                rs_latency = empty_sampler (rc_RPCLatencySampleSize (r_cfg r))\<rparr>
            | Some s \<Rightarrow> s) in
        r\<lparr>r_rpc := AList.update method
          \<lparr>rs_count = rs_count stats + 1, rs_errorCount = rs_errorCount stats + (if ok then 0 else 1),
           rs_latency = sampler_Add d (rs_latency stats)\<rparr> (r_rpc r)\<rparr>))"

text \<open>A path without a window has the zero window, whose start is the zero time.\<close>

definition window_of :: "string \<Rightarrow> Recorder \<Rightarrow> smallWriteWindow" where
  "window_of path r = (case map_of (r_smallWriteState r) path of
     None \<Rightarrow> \<lparr>sw_start = zero_time, sw_last = zero_time, sw_count = 0\<rparr> | Some w \<Rightarrow> w)"

definition path_count :: "string \<Rightarrow> Recorder \<Rightarrow> int" where
  "path_count path r = (case map_of (r_smallWritePathCounts r) path of None \<Rightarrow> 0 | Some n \<Rightarrow> n)"

definition recordRangeWriteAt :: "string \<Rightarrow> int \<Rightarrow> bool \<Rightarrow> gotime \<Rightarrow> Recorder \<Rightarrow> Recorder" where
  "recordRangeWriteAt path bytes0 conflicted now r =
    (let bytes = (if bytes0 < 0 then 0 else bytes0);
         r1 = r\<lparr>r_rangeWriteCalls := r_rangeWriteCalls r + 1, r_rangeWriteBytes := r_rangeWriteBytes r + bytes,
           r_rangeWriteConflictCalls := r_rangeWriteConflictCalls r + (if conflicted then 1 else 0)\<rparr> in
     if strings_TrimSpace path = [] \<or> bytes = 0 \<or> bytes > rc_SmallWriteThreshold (r_cfg r) then r1
     else
       (let window = window_of path r in
        if time_IsZero (sw_start window) \<or> time_Sub now (sw_last window) > rc_SmallWriteWindow (r_cfg r)
        then r1\<lparr>r_smallWriteState :=
          AList.update path \<lparr>sw_start = now, sw_last = now, sw_count = 1\<rparr> (r_smallWriteState r)\<rparr>
        else
          (let window1 = window\<lparr>sw_last := now, sw_count := sw_count window + 1\<rparr>;
               r2 = (if sw_count window1 = rc_SmallWriteBurstMinimum (r_cfg r)
                     then r1\<lparr>r_smallWriteBursts := r_smallWriteBursts r + 1,
                       r_smallWritePathCounts :=
                         AList.update path (path_count path r + 1) (r_smallWritePathCounts r)\<rparr>
                     else r1) in
           r2\<lparr>r_smallWriteState := AList.update path window1 (r_smallWriteState r)\<rparr>)))"

definition RecordBuildQueueWait :: "duration \<Rightarrow> Recorder \<Rightarrow> Recorder" where
  "RecordBuildQueueWait wait r = r\<lparr>r_buildQueueWait := sampler_Add wait (r_buildQueueWait r)\<rparr>"

definition RecordBuildCompletion :: "bool \<Rightarrow> duration \<Rightarrow> int \<Rightarrow> Recorder \<Rightarrow> Recorder" where
  "RecordBuildCompletion success d logBytes r =
    r\<lparr>r_buildSuccessCount := r_buildSuccessCount r + (if success then 1 else 0),
      r_buildFailureCount := r_buildFailureCount r + (if success then 0 else 1),
      r_buildLogBytes := r_buildLogBytes r + (if logBytes < 0 then 0 else logBytes),
      r_buildDuration := sampler_Add d (r_buildDuration r)\<rparr>"

section \<open>Snapshots\<close>

record RPCLatency =
  rl_Method :: string
  rl_Count :: int
  rl_ErrorCount :: int
  rl_P50Ms :: int
  rl_P95Ms :: int
  rl_P99Ms :: int

record Snapshot =
  sn_RangeWriteCalls :: int
  sn_RangeWriteBytes :: int
  sn_RangeWriteConflictCalls :: int
  sn_SmallWriteBursts :: int
  sn_SmallWriteHotPaths :: "(string \<times> int) list"
  sn_BuildSuccessCount :: int
  sn_BuildFailureCount :: int
  sn_BuildLogBytes :: int
  sn_BuildQueueWait :: DurationStats
  sn_BuildDuration :: DurationStats
  sn_RPCLatencies :: "RPCLatency list"

definition rpc_latency :: "string \<times> rpcStats \<Rightarrow> RPCLatency" where
  "rpc_latency ms =
    (case ms of (method, stats) \<Rightarrow>
     (let latency = sampler_Snapshot (rs_latency stats) in
      \<lparr>rl_Method = method, rl_Count = rs_count stats, rl_ErrorCount = rs_errorCount stats,
       rl_P50Ms = du_P50Ms latency, rl_P95Ms = du_P95Ms latency, rl_P99Ms = du_P99Ms latency\<rparr>))"

definition Recorder_Snapshot :: "Recorder \<Rightarrow> Snapshot" where
  "Recorder_Snapshot r =
    \<lparr>sn_RangeWriteCalls = r_rangeWriteCalls r, sn_RangeWriteBytes = r_rangeWriteBytes r,
     sn_RangeWriteConflictCalls = r_rangeWriteConflictCalls r, sn_SmallWriteBursts = r_smallWriteBursts r,
     sn_SmallWriteHotPaths = sort_key (\<lambda>(p, n). (Desc n, p)) (r_smallWritePathCounts r),
     sn_BuildSuccessCount = r_buildSuccessCount r, sn_BuildFailureCount = r_buildFailureCount r,
     sn_BuildLogBytes = r_buildLogBytes r, sn_BuildQueueWait = sampler_Snapshot (r_buildQueueWait r),
     sn_BuildDuration = sampler_Snapshot (r_buildDuration r),
     sn_RPCLatencies = sort_key rl_Method (map rpc_latency (r_rpc r))\<rparr>"

definition Snapshot_isZero :: "Snapshot \<Rightarrow> bool" where
  "Snapshot_isZero s \<longleftrightarrow> sn_RangeWriteCalls s = 0 \<and> sn_RangeWriteBytes s = 0
    \<and> sn_RangeWriteConflictCalls s = 0 \<and> sn_SmallWriteBursts s = 0 \<and> sn_BuildSuccessCount s = 0
    \<and> sn_BuildFailureCount s = 0 \<and> sn_BuildLogBytes s = 0 \<and> sn_RPCLatencies s = []"

definition formatHotPaths :: "(string \<times> int) list \<Rightarrow> int \<Rightarrow> string" where
  "formatHotPaths paths limit =
    (if paths = [] \<or> limit = 0 then []
     else
       (let n = (if limit < 0 \<or> limit > int (length paths) then length paths else nat limit) in
        strings_Join (map fst (take n paths)) '',''))"

section \<open>Samples\<close>

definition sample_ms :: "duration \<Rightarrow> int" where
  "sample_ms d = max 0 d div millisecond"

lemma sampler_Add_ms: "duration_Milliseconds (if d < 0 then 0 else d) = sample_ms d"
  by (simp add: duration_Milliseconds_def sample_ms_def)

text \<open>The sampler as a queue of the last samples, oldest first.\<close>

definition ring :: "durationSampler \<Rightarrow> int list" where
  "ring s = drop (ds_next s) (ds_values s) @ take (ds_next s) (ds_values s)"

definition sampler_ok :: "durationSampler \<Rightarrow> bool" where
  "sampler_ok s \<longleftrightarrow> 0 < ds_limit s \<and> int (length (ds_values s)) \<le> ds_limit s
    \<and> int (ds_next s) < ds_limit s \<and> (int (length (ds_values s)) < ds_limit s \<longrightarrow> ds_next s = 0)"

lemma sampler_Add_ring:
  assumes "sampler_ok s"
  shows "sampler_ok (sampler_Add d s)" and "ds_limit (sampler_Add d s) = ds_limit s"
    and "ds_count (sampler_Add d s) = ds_count s + 1"
    and "ring (sampler_Add d s) = last_n (nat (ds_limit s)) (ring s @ [sample_ms d])"
proof -
  let ?n = "ds_next s" and ?v = "ds_values s" and ?l = "nat (ds_limit s)"
  have "ring (sampler_Add d s) = last_n ?l (ring s @ [sample_ms d]) \<and> sampler_ok (sampler_Add d s)
    \<and> ds_limit (sampler_Add d s) = ds_limit s \<and> ds_count (sampler_Add d s) = ds_count s + 1"
  proof (cases "int (length ?v) < ds_limit s")
    case True
    with assms show ?thesis
      by (auto simp: sampler_Add_def Let_def sampler_Add_ms sampler_ok_def ring_def last_n_def)
  next
    case full: False
    with assms have len: "length ?v = ?l" "?n < ?l" "0 < ?l" by (auto simp: sampler_ok_def)
    have new: "sampler_Add d s = s\<lparr>ds_count := ds_count s + 1, ds_values := ?v[?n := sample_ms d],
        ds_next := (?n + 1) mod ?l\<rparr>"
      using full assms by (simp add: sampler_Add_def Let_def sampler_Add_ms sampler_ok_def)
    have split: "?v[?n := sample_ms d] = take ?n ?v @ sample_ms d # drop (Suc ?n) ?v"
      using len by (simp add: upd_conv_take_nth_drop)
    have "drop ?n ?v = (?v ! ?n) # drop (Suc ?n) ?v" using len by (simp add: Cons_nth_drop_Suc)
    then have want: "last_n ?l (ring s @ [sample_ms d]) = drop (Suc ?n) ?v @ take ?n ?v @ [sample_ms d]"
      using len by (simp add: last_n_def ring_def)
    have "ring (sampler_Add d s) = drop (Suc ?n) ?v @ take ?n ?v @ [sample_ms d]"
    proof (cases "Suc ?n = ?l")
      case True
      with len show ?thesis by (simp add: new ring_def split)
    next
      case False
      then have "(?n + 1) mod ?l = Suc ?n" using len by simp
      with len show ?thesis by (simp add: new ring_def split)
    qed
    moreover have "int ((?n + 1) mod ?l) < ds_limit s"
      using len mod_less_divisor [of ?l "?n + 1"] by linarith
    ultimately show ?thesis using assms len full want
      by (auto simp: new sampler_ok_def)
  qed
  then show "sampler_ok (sampler_Add d s)" "ds_limit (sampler_Add d s) = ds_limit s"
    "ds_count (sampler_Add d s) = ds_count s + 1"
    "ring (sampler_Add d s) = last_n ?l (ring s @ [sample_ms d])" by auto
qed

lemma sampler_run:
  assumes "sampler_ok s"
  shows "sampler_ok (fold sampler_Add ds s)
    \<and> ring (fold sampler_Add ds s) = last_n (nat (ds_limit s)) (ring s @ map sample_ms ds)
    \<and> ds_count (fold sampler_Add ds s) = ds_count s + int (length ds)
    \<and> ds_limit (fold sampler_Add ds s) = ds_limit s"
proof (induction ds rule: rev_induct)
  case Nil
  with assms show ?case by (auto simp: last_n_def ring_def sampler_ok_def)
next
  case (snoc d ds)
  then show ?case
    using sampler_Add_ring [of "fold sampler_Add ds s" d]
    by (simp add: last_n_snoc flip: append_assoc)
qed

text \<open>The nearest rank: the least sample with at least \<open>p\<close> percent of the samples at or below it.\<close>

definition nearest_rank :: "int list \<Rightarrow> int \<Rightarrow> int \<Rightarrow> bool" where
  "nearest_rank vs p r \<longleftrightarrow> r \<in> set vs
    \<and> int (length vs) * p \<le> 100 * int (length (filter (\<lambda>v. v \<le> r) vs))
    \<and> 100 * int (length (filter (\<lambda>v. v < r) vs)) < int (length vs) * p"

lemma nearest_rank_mset:
  assumes "mset vs = mset ws"
  shows "nearest_rank vs p r = nearest_rank ws p r"
proof -
  have "length (filter P vs) = length (filter P ws)" for P
    using assms by (metis mset_filter size_mset)
  moreover have "length vs = length ws" "set vs = set ws"
    using assms by (metis size_mset, metis set_mset_mset)
  ultimately show ?thesis by (simp add: nearest_rank_def)
qed

lemma sorted_nth_counts:
  assumes "sorted vs" and "i < length vs"
  shows "i < length (filter (\<lambda>v. v \<le> vs ! i) vs)" and "length (filter (\<lambda>v. v < vs ! i) vs) \<le> i"
proof -
  let ?r = "vs ! i"
  have vs: "vs = take (Suc i) vs @ drop (Suc i) vs" by simp
  have "\<forall>v\<in>set (take (Suc i) vs). v \<le> ?r"
    using assms by (auto simp: in_set_conv_nth less_Suc_eq_le sorted_nth_mono)
  then have "filter (\<lambda>v. v \<le> ?r) (take (Suc i) vs) = take (Suc i) vs" by simp
  then have "length (filter (\<lambda>v. v \<le> ?r) vs) = Suc i + length (filter (\<lambda>v. v \<le> ?r) (drop (Suc i) vs))"
    using assms(2) by (subst vs, subst filter_append) simp
  then show "i < length (filter (\<lambda>v. v \<le> ?r) vs)" by simp
  have "\<forall>v\<in>set (drop i vs). \<not> v < ?r"
    using assms by (auto simp: in_set_conv_nth not_less less_diff_conv add.commute intro!: sorted_nth_mono)
  then have "filter (\<lambda>v. v < ?r) (drop i vs) = []" by (simp add: filter_empty_conv)
  moreover have "filter (\<lambda>v. v < ?r) vs = filter (\<lambda>v. v < ?r) (take i vs) @ filter (\<lambda>v. v < ?r) (drop i vs)"
    by (simp flip: filter_append)
  moreover have "length (filter (\<lambda>v. v < ?r) (take i vs)) \<le> i"
    using length_filter_le [of _ "take i vs"] assms(2) by (metis le_trans length_take min.cobounded2)
  ultimately show "length (filter (\<lambda>v. v < ?r) vs) \<le> i" by simp
qed

lemma percentile_nearest_rank:
  assumes "sorted vs" and "vs \<noteq> []" and "0 < p" and "p < 100"
  shows "nearest_rank vs p (percentile vs p)"
proof -
  define n where "n = int (length vs)"
  define k where "k = (n * p + 99) div 100"
  have n: "0 < n" using assms(2) by (simp add: n_def)
  then have np: "0 < n * p" "n * p < n * 100" using assms(3,4) by simp_all
  define x where "x = n * p"
  have x: "0 < x" "x < n * 100" using np by (simp_all add: x_def)
  define m where "m = (x + 99) mod 100"
  have "100 * k + m = x + 99" unfolding k_def x_def [symmetric] m_def by (rule mult_div_mod_eq)
  moreover have "0 \<le> m" "m < 100" by (simp_all add: m_def)
  ultimately have "1 \<le> k" "k \<le> n" "x \<le> 100 * k" "100 * k - 100 < x" using x by linarith+
  then have k: "1 \<le> k" "k \<le> n" "n * p \<le> 100 * k" "100 * (k - 1) < n * p"
    by (simp_all add: x_def right_diff_distrib)
  have per: "percentile vs p = vs ! nat (k - 1)"
    using assms k unfolding percentile_def Let_def n_def [symmetric] k_def [symmetric] by simp
  have lt: "nat (k - 1) < length vs" using k(1,2) by (simp add: n_def)
  note counts = sorted_nth_counts [OF assms(1) lt]
  show ?thesis
    unfolding nearest_rank_def per using counts lt k n_def by auto
qed

text \<open>
  Claim C21. A latency snapshot counts every call and reports the nearest-rank percentiles of the
  last recorded durations, as many as the configured sample size, in whole milliseconds; a
  negative duration counts as zero.
\<close>

theorem latency_snapshot_exact:
  assumes "0 < limit" and "ds \<noteq> []"
  shows "let s = sampler_Snapshot (fold sampler_Add ds (empty_sampler limit));
             recent = last_n (nat limit) (map sample_ms ds) in
    du_Count s = int (length ds) \<and> nearest_rank recent 50 (du_P50Ms s)
    \<and> nearest_rank recent 95 (du_P95Ms s) \<and> nearest_rank recent 99 (du_P99Ms s)"
proof -
  let ?s = "fold sampler_Add ds (empty_sampler limit)"
  let ?recent = "last_n (nat limit) (map sample_ms ds)"
  have "sampler_ok (empty_sampler limit)" using assms by (simp add: sampler_ok_def empty_sampler_def)
  from sampler_run [OF this, of ds] have run: "ring ?s = ?recent" "ds_count ?s = int (length ds)"
    by (simp_all add: empty_sampler_def ring_def)
  have "mset (ds_values ?s) = mset (ring ?s)"
    unfolding ring_def by (metis append_take_drop_id mset_append union_commute)
  then have same: "mset (sort (ds_values ?s)) = mset ?recent" by (simp add: run)
  have "0 < length ds" "0 < nat limit" using assms by simp_all
  then have "?recent \<noteq> []" unfolding last_n_def by (simp add: not_le)
  with same have ne: "sort (ds_values ?s) \<noteq> []" by (metis mset_zero_iff)
  have "nearest_rank ?recent p (percentile (sort (ds_values ?s)) p)" if "0 < p" "p < 100" for p
    using percentile_nearest_rank [OF sorted_sort ne that] nearest_rank_mset [OF same] by simp
  then show ?thesis using ne by (simp add: sampler_Snapshot_def Let_def run(2))
qed

theorem latency_snapshot_exact_witness:
  "let s = sampler_Snapshot (fold sampler_Add [9000000, 1000000, 5000000, 3500000] (empty_sampler 3)) in
    du_Count s = 4 \<and> du_P50Ms s = 3 \<and> nearest_rank [1, 5, 3] 99 (du_P99Ms s)"
proof -
  have "du_P50Ms (sampler_Snapshot (fold sampler_Add [9000000, 1000000, 5000000, 3500000] (empty_sampler 3))) = 3"
    "last_n (nat 3) (map sample_ms [9000000, 1000000, 5000000, 3500000]) = [1, 5, 3]" by code_simp+
  with latency_snapshot_exact [of 3 "[9000000, 1000000, 5000000, 3500000]"] show ?thesis
    unfolding Let_def by simp
qed

section \<open>Bursts of small writes\<close>

text \<open>The lengths of the maximal runs of times that follow each other within the window.\<close>

fun write_runs :: "duration \<Rightarrow> gotime list \<Rightarrow> int list" where
  "write_runs gap [] = []"
| "write_runs gap [t] = [1]"
| "write_runs gap (t # t' # ts) =
    (case write_runs gap (t' # ts) of
       [] \<Rightarrow> []
     | n # ns \<Rightarrow> if time_Sub t' t > gap then 1 # n # ns else (n + 1) # ns)"

definition burst_count :: "duration \<Rightarrow> int \<Rightarrow> gotime list \<Rightarrow> int" where
  "burst_count gap m ts = int (length (filter (\<lambda>n. m \<le> n) (write_runs gap ts)))"

lemma write_runs_not_Nil [simp]: "write_runs gap (t # ts) \<noteq> []"
  by (induction ts arbitrary: t) (auto split: list.splits)

lemma write_runs_snoc:
  "write_runs gap ((ts @ [u]) @ [t]) =
    (if time_Sub t u > gap then write_runs gap (ts @ [u]) @ [1]
     else butlast (write_runs gap (ts @ [u])) @ [last (write_runs gap (ts @ [u])) + 1])"
proof (induction ts)
  case Nil
  then show ?case by simp
next
  case (Cons a ts)
  obtain v vs where v: "ts @ [u] = v # vs" by (cases ts) auto
  obtain n ns where n: "write_runs gap (v # vs) = n # ns" by (cases "write_runs gap (v # vs)") auto
  have "vs @ [t] \<noteq> []" by simp
  have grow: "write_runs gap (v # vs @ [t]) =
      (if time_Sub t u > gap then (n # ns) @ [1] else butlast (n # ns) @ [last (n # ns) + 1])"
    using Cons.IH unfolding v n append_Cons .
  show ?case
  proof (cases ns)
    case Nil
    with grow n v show ?thesis by simp
  next
    case (Cons m ms)
    with grow n v show ?thesis by simp
  qed
qed

record range_write =
  rw_path :: string
  rw_bytes :: int
  rw_conflicted :: bool
  rw_time :: gotime

definition record_write :: "range_write \<Rightarrow> Recorder \<Rightarrow> Recorder" where
  "record_write e = recordRangeWriteAt (rw_path e) (rw_bytes e) (rw_conflicted e) (rw_time e)"

definition is_small :: "RecorderConfig \<Rightarrow> range_write \<Rightarrow> bool" where
  "is_small cfg e \<longleftrightarrow> strings_TrimSpace (rw_path e) \<noteq> [] \<and> 0 < rw_bytes e \<and> rw_bytes e \<le> rc_SmallWriteThreshold cfg"

definition small_times :: "RecorderConfig \<Rightarrow> string \<Rightarrow> range_write list \<Rightarrow> gotime list" where
  "small_times cfg p es = map rw_time (filter (\<lambda>e. rw_path e = p \<and> is_small cfg e) es)"

definition window_ok :: "duration \<Rightarrow> gotime list \<Rightarrow> smallWriteWindow \<Rightarrow> bool" where
  "window_ok gap ts w \<longleftrightarrow>
    (if ts = [] then sw_start w = zero_time
     else sw_start w \<noteq> zero_time \<and> sw_last w = last ts \<and> sw_count w = last (write_runs gap ts))"

lemma window_ok_snoc:
  assumes "window_ok gap ts w" and "t \<noteq> zero_time"
  shows "if time_IsZero (sw_start w) \<or> time_Sub t (sw_last w) > gap
    then write_runs gap (ts @ [t]) = write_runs gap ts @ [1]
      \<and> window_ok gap (ts @ [t]) \<lparr>sw_start = t, sw_last = t, sw_count = 1\<rparr>
    else ts \<noteq> [] \<and> write_runs gap (ts @ [t]) = butlast (write_runs gap ts) @ [last (write_runs gap ts) + 1]
      \<and> window_ok gap (ts @ [t]) (w\<lparr>sw_last := t, sw_count := sw_count w + 1\<rparr>)"
proof (cases ts rule: rev_cases)
  case Nil
  with assms show ?thesis by (simp add: window_ok_def time_IsZero_def)
next
  case (snoc us u)
  with assms write_runs_snoc [of gap us u t] show ?thesis
    by (auto simp: window_ok_def time_IsZero_def)
qed

lemma burst_count_snoc:
  assumes "2 \<le> m"
  shows "write_runs gap ts' = write_runs gap ts @ [1] \<Longrightarrow> burst_count gap m ts' = burst_count gap m ts"
    and "ts \<noteq> [] \<Longrightarrow> write_runs gap ts' = butlast (write_runs gap ts) @ [last (write_runs gap ts) + 1] \<Longrightarrow>
      burst_count gap m ts' = burst_count gap m ts + (if last (write_runs gap ts) + 1 = m then 1 else 0)"
proof -
  show "write_runs gap ts' = write_runs gap ts @ [1] \<Longrightarrow> burst_count gap m ts' = burst_count gap m ts"
    using assms by (simp add: burst_count_def)
  assume "ts \<noteq> []" and runs: "write_runs gap ts' = butlast (write_runs gap ts) @ [last (write_runs gap ts) + 1]"
  then have "write_runs gap ts \<noteq> []" by (cases ts) auto
  then obtain ns l where ns: "write_runs gap ts = ns @ [l]" by (cases "write_runs gap ts" rule: rev_cases) auto
  with runs have "write_runs gap ts' = ns @ [l + 1]" by simp
  with ns show "burst_count gap m ts' = burst_count gap m ts + (if last (write_runs gap ts) + 1 = m then 1 else 0)"
    by (simp add: burst_count_def)
qed

text \<open>The counters after some writes, as sums over them.\<close>

definition writes_counted :: "Recorder \<Rightarrow> range_write list \<Rightarrow> Recorder \<Rightarrow> bool" where
  "writes_counted r0 es r \<longleftrightarrow> r_cfg r = r_cfg r0
    \<and> r_rangeWriteCalls r = int (length es)
    \<and> r_rangeWriteBytes r = sum_list (map (\<lambda>e. max 0 (rw_bytes e)) es)
    \<and> r_rangeWriteConflictCalls r = int (length (filter rw_conflicted es))"

definition paths_counted :: "Recorder \<Rightarrow> range_write list \<Rightarrow> string \<Rightarrow> bool" where
  "paths_counted r es p \<longleftrightarrow>
    (let cfg = r_cfg r; ts = small_times cfg p es in
     window_ok (rc_SmallWriteWindow cfg) ts (window_of p r)
     \<and> path_count p r = burst_count (rc_SmallWriteWindow cfg) (rc_SmallWriteBurstMinimum cfg) ts)"

lemma record_write_sums:
  "writes_counted r0 es r \<Longrightarrow> writes_counted r0 (es @ [e]) (record_write e r)"
  by (auto simp: writes_counted_def record_write_def recordRangeWriteAt_def Let_def)

lemma record_write_other:
  assumes "p \<noteq> rw_path e \<or> \<not> is_small (r_cfg r) e"
  shows "window_of p (record_write e r) = window_of p r" "path_count p (record_write e r) = path_count p r"
    "small_times (r_cfg r) p (es @ [e]) = small_times (r_cfg r) p es"
  using assms
  by (auto simp: record_write_def recordRangeWriteAt_def Let_def window_of_def path_count_def update_conv'
      is_small_def small_times_def)

lemma record_write_small:
  assumes "is_small (r_cfg r) e"
  shows "record_write e r =
    (let r1 = r\<lparr>r_rangeWriteCalls := r_rangeWriteCalls r + 1, r_rangeWriteBytes := r_rangeWriteBytes r + rw_bytes e,
           r_rangeWriteConflictCalls := r_rangeWriteConflictCalls r + (if rw_conflicted e then 1 else 0)\<rparr>;
         w = window_of (rw_path e) r; w1 = w\<lparr>sw_last := rw_time e, sw_count := sw_count w + 1\<rparr>;
         hit = (sw_count w + 1 = rc_SmallWriteBurstMinimum (r_cfg r)) in
     if time_IsZero (sw_start w) \<or> time_Sub (rw_time e) (sw_last w) > rc_SmallWriteWindow (r_cfg r)
     then r1\<lparr>r_smallWriteState := AList.update (rw_path e)
       \<lparr>sw_start = rw_time e, sw_last = rw_time e, sw_count = 1\<rparr> (r_smallWriteState r)\<rparr>
     else r1\<lparr>r_smallWriteBursts := r_smallWriteBursts r + (if hit then 1 else 0),
       r_smallWritePathCounts := (if hit then AList.update (rw_path e) (path_count (rw_path e) r + 1)
         (r_smallWritePathCounts r) else r_smallWritePathCounts r),
       r_smallWriteState := AList.update (rw_path e) w1 (r_smallWriteState r)\<rparr>)"
  using assms by (simp add: record_write_def recordRangeWriteAt_def Let_def is_small_def)

lemma record_write_hit:
  assumes m: "2 \<le> rc_SmallWriteBurstMinimum (r_cfg r)" and t: "rw_time e \<noteq> zero_time"
    and small: "is_small (r_cfg r) e" and old: "paths_counted r es (rw_path e)"
  shows "paths_counted (record_write e r) (es @ [e]) (rw_path e)"
    and "r_smallWriteBursts (record_write e r) - r_smallWriteBursts r
      = path_count (rw_path e) (record_write e r) - path_count (rw_path e) r"
proof -
  let ?p = "rw_path e" and ?gap = "rc_SmallWriteWindow (r_cfg r)" and ?m = "rc_SmallWriteBurstMinimum (r_cfg r)"
  let ?ts = "small_times (r_cfg r) ?p es" and ?w = "window_of ?p r"
  have ts: "small_times (r_cfg r) ?p (es @ [e]) = ?ts @ [rw_time e]" using small by (simp add: small_times_def)
  have win: "window_ok ?gap ?ts ?w" "path_count ?p r = burst_count ?gap ?m ?ts"
    using old by (simp_all add: paths_counted_def Let_def)
  note next_win = window_ok_snoc [OF win(1) t]
  define r' where "r' = record_write e r"
  note r' = r'_def [unfolded record_write_small [OF small] Let_def]
  have cfg: "r_cfg r' = r_cfg r" by (simp add: r')
  have "paths_counted r' (es @ [e]) ?p \<and> r_smallWriteBursts r' - r_smallWriteBursts r = path_count ?p r' - path_count ?p r"
  proof (cases "time_IsZero (sw_start ?w) \<or> time_Sub (rw_time e) (sw_last ?w) > ?gap")
    case True
    have w': "window_of ?p r' = \<lparr>sw_start = rw_time e, sw_last = rw_time e, sw_count = 1\<rparr>"
      "path_count ?p r' = path_count ?p r" "r_smallWriteBursts r' = r_smallWriteBursts r"
      unfolding r' if_P [OF True] by (simp_all add: window_of_def path_count_def update_conv')
    from next_win [unfolded if_P [OF True]] burst_count_snoc(1) [OF m] win(2) show ?thesis
      by (simp add: paths_counted_def cfg ts w')
  next
    case False
    let ?hit = "sw_count ?w + 1 = ?m"
    have w': "window_of ?p r' = ?w\<lparr>sw_last := rw_time e, sw_count := sw_count ?w + 1\<rparr>"
      "path_count ?p r' = path_count ?p r + (if ?hit then 1 else 0)"
      "r_smallWriteBursts r' = r_smallWriteBursts r + (if ?hit then 1 else 0)"
      unfolding r' if_not_P [OF False] by (simp_all add: window_of_def path_count_def update_conv')
    note step = next_win [unfolded if_not_P [OF False]]
    then have "sw_count ?w = last (write_runs ?gap ?ts)" using win(1) by (simp add: window_ok_def)
    with step burst_count_snoc(2) [OF m, of ?ts ?gap "?ts @ [rw_time e]"] win(2) show ?thesis
      by (simp add: paths_counted_def cfg ts w')
  qed
  then show "paths_counted (record_write e r) (es @ [e]) ?p"
    "r_smallWriteBursts (record_write e r) - r_smallWriteBursts r
      = path_count ?p (record_write e r) - path_count ?p r" by (simp_all add: r'_def)
qed

lemma record_write_bursts_other:
  "\<not> is_small (r_cfg r) e \<Longrightarrow> r_smallWriteBursts (record_write e r) = r_smallWriteBursts r"
  by (auto simp: record_write_def recordRangeWriteAt_def Let_def is_small_def)

lemma record_write_cfg: "r_cfg (record_write e r) = r_cfg r"
  by (simp add: record_write_def recordRangeWriteAt_def Let_def)

definition recorded :: "RecorderConfig \<Rightarrow> range_write list \<Rightarrow> Recorder" where
  "recorded cfg es = fold record_write es (NewRecorder cfg)"

lemma recorded_cfg: "r_cfg (recorded cfg es) = r_cfg (NewRecorder cfg)"
  by (induction es rule: rev_induct) (simp_all add: recorded_def record_write_cfg)

lemma recorded_inv:
  assumes "\<forall>e\<in>set es. rw_time e \<noteq> zero_time" and "finite P" and "rw_path ` set es \<subseteq> P"
  shows "writes_counted (NewRecorder cfg) es (recorded cfg es) \<and> (\<forall>p. paths_counted (recorded cfg es) es p)
    \<and> r_smallWriteBursts (recorded cfg es) = (\<Sum>p\<in>P. path_count p (recorded cfg es))"
  using assms
proof (induction es rule: rev_induct)
  case Nil
  then show ?case
    by (simp add: recorded_def writes_counted_def paths_counted_def NewRecorder_def Let_def small_times_def
        window_ok_def window_of_def path_count_def burst_count_def)
next
  case (snoc e es)
  let ?r = "recorded cfg es" and ?r' = "recorded cfg (es @ [e])"
  have r': "?r' = record_write e ?r" by (simp add: recorded_def)
  have IH: "writes_counted (NewRecorder cfg) es ?r" "\<And>p. paths_counted ?r es p"
    "r_smallWriteBursts ?r = (\<Sum>p\<in>P. path_count p ?r)" using snoc by auto
  have m: "2 \<le> rc_SmallWriteBurstMinimum (r_cfg ?r)" by (simp add: recorded_cfg NewRecorder_def)
  have t: "rw_time e \<noteq> zero_time" and P: "rw_path e \<in> P" using snoc.prems by auto
  have cfg: "r_cfg ?r' = r_cfg ?r" by (simp add: recorded_cfg)
  have other: "paths_counted ?r' (es @ [e]) p" "path_count p ?r' = path_count p ?r"
    if "p \<noteq> rw_path e \<or> \<not> is_small (r_cfg ?r) e" for p
    using record_write_other [OF that] IH(2) [of p] by (auto simp: paths_counted_def r' record_write_cfg)
  show ?case
  proof (cases "is_small (r_cfg ?r) e")
    case True
    note hit = record_write_hit [OF m t True IH(2), folded r']
    have "(\<Sum>p\<in>P. path_count p ?r') = path_count (rw_path e) ?r' + (\<Sum>p\<in>P - {rw_path e}. path_count p ?r)"
      using P snoc.prems(2) other(2) by (simp add: sum.remove)
    moreover have "(\<Sum>p\<in>P. path_count p ?r) = path_count (rw_path e) ?r + (\<Sum>p\<in>P - {rw_path e}. path_count p ?r)"
      using P snoc.prems(2) by (simp add: sum.remove)
    ultimately have "r_smallWriteBursts ?r' = (\<Sum>p\<in>P. path_count p ?r')" using hit(2) IH(3) by simp
    moreover have "paths_counted ?r' (es @ [e]) p" for p using hit(1) other(1) by (cases "p = rw_path e") auto
    ultimately show ?thesis using record_write_sums [OF IH(1)] by (simp add: r')
  next
    case False
    then show ?thesis
      using other record_write_sums [OF IH(1)] IH(3) record_write_bursts_other [OF False] by (simp add: r')
  qed
qed

text \<open>
  Claim C22. The counters of range writes are exact: all calls, their bytes and conflicts, and, for
  each path, the number of bursts, which are the maximal runs of small writes that follow each
  other within the window and are at least as many as the minimum; the total is their sum.
\<close>

theorem write_counters_exact:
  assumes "\<forall>e\<in>set es. rw_time e \<noteq> zero_time"
  shows "let r = recorded cfg es; c = r_cfg (NewRecorder cfg) in
    r_rangeWriteCalls r = int (length es)
    \<and> r_rangeWriteBytes r = sum_list (map (\<lambda>e. max 0 (rw_bytes e)) es)
    \<and> r_rangeWriteConflictCalls r = int (length (filter rw_conflicted es))
    \<and> (\<forall>p. path_count p r = burst_count (rc_SmallWriteWindow c) (rc_SmallWriteBurstMinimum c) (small_times c p es))
    \<and> r_smallWriteBursts r = (\<Sum>p\<in>rw_path ` set es. path_count p r)"
  using recorded_inv [OF assms, of "rw_path ` set es" cfg] recorded_cfg [of cfg es]
  by (simp add: writes_counted_def paths_counted_def Let_def)

definition sample_writes :: "range_write list" where
  "sample_writes = map (\<lambda>(p, b, t). \<lparr>rw_path = p, rw_bytes = b, rw_conflicted = False, rw_time = t\<rparr>)
    [(''a'', 10, 1), (''a'', 20, 5), (''b'', 10, 6), (''a'', 500, 7), (''a'', 5, 90), (''a'', 5, 95), (''b'', 1, 200)]"

definition sample_recorder_config :: RecorderConfig where
  "sample_recorder_config = \<lparr>rc_RPCLatencySampleSize = 8, rc_SmallWriteThreshold = 100, rc_SmallWriteWindow = 10,
    rc_SmallWriteBurstMinimum = 2\<rparr>"

theorem write_counters_exact_witness:
  "let r = recorded sample_recorder_config sample_writes in
    r_rangeWriteBytes r = 551 \<and> path_count ''a'' r = 2 \<and> path_count ''b'' r = 0 \<and> r_smallWriteBursts r = 2"
proof -
  have ok: "\<forall>e\<in>set sample_writes. rw_time e \<noteq> zero_time" by (simp add: sample_writes_def zero_time_def)
  have cfg: "r_cfg (NewRecorder sample_recorder_config) = sample_recorder_config"
    by (simp add: NewRecorder_def sample_recorder_config_def)
  have "sum_list (map (\<lambda>e. max 0 (rw_bytes e)) sample_writes) = 551"
    "burst_count 10 2 (small_times sample_recorder_config ''a'' sample_writes) = 2"
    "burst_count 10 2 (small_times sample_recorder_config ''b'' sample_writes) = 0" by code_simp+
  moreover have "rw_path ` set sample_writes = {''a'', ''b''}" by (auto simp: sample_writes_def)
  ultimately show ?thesis
    using write_counters_exact [OF ok, of sample_recorder_config]
    by (simp add: Let_def cfg) (simp add: sample_recorder_config_def)
qed

end
