(* ===== verification/Runner.thy ===== *)
theory Runner
  imports Prelude
begin

text \<open>
  \<open>internal/cleanup/runner.go\<close>: the background loop behind every periodic task. It runs a
  function now and then: when it is triggered, but not before an interval has passed since the
  last run, and when the time comes that the last run asked for.

  The loop is a step relation. A step takes one case of its \<open>select\<close>: a trigger from the
  channel (which holds one), or the timer. The function it runs is left open; a run is the label
  \<open>Ran now nextAt\<close> with the time it started at and the time it asked for, the zero time for none.
\<close>

section \<open>The loop\<close>

record runner =
  rn_interval :: duration
  rn_triggered :: bool
  rn_lastRun :: gotime
  rn_scheduledAt :: gotime

definition runner_Trigger :: "runner \<Rightarrow> runner" where
  "runner_Trigger r = r\<lparr>rn_triggered := True\<rparr>"

definition stopTimer :: "runner \<Rightarrow> runner" where
  "stopTimer r = r\<lparr>rn_scheduledAt := zero_time\<rparr>"

definition scheduleAt :: "gotime \<Rightarrow> runner \<Rightarrow> runner" where
  "scheduleAt at r =
    (if time_IsZero at then stopTimer r
     else if \<not> time_IsZero (rn_scheduledAt r) \<and> \<not> at < rn_scheduledAt r then r
     else r\<lparr>rn_scheduledAt := at\<rparr>)"

definition runNow :: "gotime \<Rightarrow> gotime \<Rightarrow> runner \<Rightarrow> runner" where
  "runNow now nextAt r =
    (let r1 = (stopTimer r)\<lparr>rn_lastRun := now\<rparr> in
     if time_IsZero nextAt then r1
     else scheduleAt (if nextAt < now then now else nextAt) r1)"

text \<open>The allowed time of a trigger that comes too early.\<close>

definition too_early :: "gotime \<Rightarrow> runner \<Rightarrow> bool" where
  "too_early now r \<longleftrightarrow> rn_interval r > 0 \<and> \<not> time_IsZero (rn_lastRun r) \<and> now < rn_lastRun r + rn_interval r"

definition NewRunner :: "duration \<Rightarrow> runner" where
  "NewRunner interval =
    \<lparr>rn_interval = interval, rn_triggered = False, rn_lastRun = zero_time, rn_scheduledAt = zero_time\<rparr>"

datatype runner_event = Triggered | Deferred gotime | Ran gotime gotime

inductive runner_step :: "runner_event \<Rightarrow> runner \<Rightarrow> runner \<Rightarrow> bool" where
  trigger: "runner_step Triggered r (runner_Trigger r)"
| put_off: "rn_triggered r \<Longrightarrow> too_early now r \<Longrightarrow>
    runner_step (Deferred now) r (scheduleAt (rn_lastRun r + rn_interval r) (r\<lparr>rn_triggered := False\<rparr>))"
| run_trigger: "rn_triggered r \<Longrightarrow> \<not> too_early now r \<Longrightarrow>
    runner_step (Ran now nextAt) r (runNow now nextAt (r\<lparr>rn_triggered := False\<rparr>))"
| run_timer: "\<not> time_IsZero (rn_scheduledAt r) \<Longrightarrow> rn_scheduledAt r \<le> now \<Longrightarrow>
    runner_step (Ran now nextAt) r (runNow now nextAt r)"

inductive_cases stepE: "runner_step ev r r'"
inductive_cases deferE: "runner_step (Deferred now) r r'"
inductive_cases ranE: "runner_step (Ran now nextAt) r r'"

fun runner_run :: "runner_event list \<Rightarrow> runner \<Rightarrow> runner \<Rightarrow> bool" where
  "runner_run [] r r' = (r' = r)"
| "runner_run (ev # evs) r r' = (\<exists>q. runner_step ev r q \<and> runner_run evs q r')"

fun is_run :: "runner_event \<Rightarrow> bool" where
  "is_run (Ran now nextAt) = True"
| "is_run _ = False"

section \<open>Laws\<close>

lemma scheduleAt_simps [simp]:
  "rn_interval (scheduleAt at r) = rn_interval r" "rn_lastRun (scheduleAt at r) = rn_lastRun r"
  "rn_triggered (scheduleAt at r) = rn_triggered r"
  "rn_scheduledAt (scheduleAt at r) = (if at = zero_time then zero_time
    else if rn_scheduledAt r \<noteq> zero_time \<and> \<not> at < rn_scheduledAt r then rn_scheduledAt r else at)"
  by (simp_all add: scheduleAt_def stopTimer_def time_IsZero_def)

lemma runNow_simps [simp]:
  "rn_interval (runNow now nextAt r) = rn_interval r" "rn_lastRun (runNow now nextAt r) = now"
  "rn_triggered (runNow now nextAt r) = rn_triggered r"
  "rn_scheduledAt (runNow now nextAt r) = (if nextAt = zero_time then zero_time else max now nextAt)"
  by (auto simp: runNow_def stopTimer_def scheduleAt_def Let_def time_IsZero_def max_def)

lemma run_append: "runner_run (xs @ ys) r r' \<longleftrightarrow> (\<exists>q. runner_run xs r q \<and> runner_run ys q r')"
  by (induction xs arbitrary: r) auto

text \<open>A run is on its way: a trigger is in the channel, or the timer is set for no later than the interval allows.\<close>

definition run_due :: "runner \<Rightarrow> bool" where
  "run_due r \<longleftrightarrow> rn_triggered r
    \<or> (\<not> time_IsZero (rn_scheduledAt r) \<and> rn_scheduledAt r \<le> rn_lastRun r + rn_interval r)"

lemma run_due_step:
  assumes "runner_step ev r r'" and "\<not> is_run ev"
  shows "rn_lastRun r' = rn_lastRun r \<and> rn_interval r' = rn_interval r
    \<and> (zero_time < rn_lastRun r \<longrightarrow> run_due r \<or> ev = Triggered \<longrightarrow> run_due r')"
  using assms by (cases rule: stepE)
    (auto simp: runner_Trigger_def run_due_def too_early_def time_IsZero_def split: if_splits)

lemma run_due_run:
  "runner_run evs r r' \<Longrightarrow> \<not> list_ex is_run evs \<Longrightarrow>
    rn_lastRun r' = rn_lastRun r \<and> rn_interval r' = rn_interval r
    \<and> (zero_time < rn_lastRun r \<longrightarrow> run_due r \<longrightarrow> run_due r')"
proof (induction evs arbitrary: r)
  case (Cons ev evs)
  then obtain q where "runner_step ev r q" "runner_run evs q r'" by auto
  with Cons run_due_step [of ev r q] show ?case by fastforce
qed simp

text \<open>The timer after a run, until the next: what the run asked for, or the end of the interval.\<close>

definition timer_ok :: "gotime \<Rightarrow> gotime \<Rightarrow> runner \<Rightarrow> bool" where
  "timer_ok t asked r \<longleftrightarrow> rn_lastRun r = t \<and> (time_IsZero (rn_scheduledAt r)
    \<or> (\<not> time_IsZero asked \<and> rn_scheduledAt r = max t asked) \<or> rn_scheduledAt r = t + rn_interval r)"

lemma timer_ok_step:
  "runner_step ev r r' \<Longrightarrow> \<not> is_run ev \<Longrightarrow> timer_ok t asked r \<Longrightarrow> timer_ok t asked r'"
  by (cases rule: stepE) (auto simp: runner_Trigger_def timer_ok_def time_IsZero_def split: if_splits)

lemma timer_ok_run:
  "runner_run evs r r' \<Longrightarrow> \<not> list_ex is_run evs \<Longrightarrow> timer_ok t asked r \<Longrightarrow> timer_ok t asked r'"
  by (induction evs arbitrary: r) (auto dest: timer_ok_step)

text \<open>
  A trigger is never lost and never too early: after it, and until the next run, a run
  can start at any time from the end of the interval since the last one on; and of two consecutive
  runs the second starts after the interval, or when the first asked for it.
\<close>

theorem runner_serves_triggers:
  assumes "runner_run (Ran t asked # evs) r r'" and "\<not> list_ex is_run evs" and "zero_time < t"
  shows "(Triggered \<in> set evs \<longrightarrow> t + rn_interval r \<le> now \<longrightarrow> (\<exists>r''. runner_step (Ran now nextAt) r' r''))
    \<and> (runner_step (Ran now nextAt) r' r'' \<longrightarrow> 0 < rn_interval r \<longrightarrow>
        t + rn_interval r \<le> now \<or> (\<not> time_IsZero asked \<and> max t asked \<le> now))"
proof -
  from assms(1) obtain q where q: "runner_step (Ran t asked) r q" "runner_run evs q r'" by auto
  have q0: "rn_lastRun q = t" "rn_interval q = rn_interval r" "timer_ok t asked q"
    using q(1) by (auto elim!: ranE simp: timer_ok_def time_IsZero_def)
  note rest = run_due_run [OF q(2) assms(2)]
  have late: "rn_lastRun r' = t" "rn_interval r' = rn_interval r" using rest q0 by auto
  have "\<exists>r''. runner_step (Ran now nextAt) r' r''" if "Triggered \<in> set evs" "t + rn_interval r \<le> now"
  proof -
    from that(1) obtain xs ys where evs: "evs = xs @ Triggered # ys" by (meson split_list)
    with q(2) obtain u v where u: "runner_run xs q u" "runner_step Triggered u v" "runner_run ys v r'"
      by (auto simp: run_append)
    have runs: "\<not> list_ex is_run xs" "\<not> list_ex is_run ys" using assms(2) evs by auto
    have "rn_lastRun u = t" using run_due_run [OF u(1) runs(1)] q0 by simp
    with run_due_step [OF u(2)] have "run_due v" "rn_lastRun v = t" using assms(3) by auto
    with run_due_run [OF u(3) runs(2)] assms(3) have due: "run_due r'" by simp
    show ?thesis
    proof (cases "rn_triggered r'")
      case True
      moreover have "\<not> too_early now r'" using late that(2) by (simp add: too_early_def)
      ultimately show ?thesis by (blast intro: run_trigger)
    next
      case False
      with due late that(2) have "\<not> time_IsZero (rn_scheduledAt r')" "rn_scheduledAt r' \<le> now"
        by (auto simp: run_due_def)
      then show ?thesis by (blast intro: run_timer)
    qed
  qed
  moreover have "t + rn_interval r \<le> now \<or> (\<not> time_IsZero asked \<and> max t asked \<le> now)"
    if "runner_step (Ran now nextAt) r' r''" "0 < rn_interval r"
    using that(1) timer_ok_run [OF q(2) assms(2) q0(3)] late that(2) assms(3)
    by (auto elim!: ranE simp: timer_ok_def too_early_def time_IsZero_def)
  ultimately show ?thesis by blast
qed

theorem runner_serves_triggers_witness:
  "\<exists>r' r''. runner_run [Ran 5 zero_time, Triggered, Deferred 8] (NewRunner 10\<lparr>rn_triggered := True\<rparr>) r'
    \<and> runner_step (Ran 15 zero_time) r' r''"
proof -
  let ?r = "NewRunner 10\<lparr>rn_triggered := True\<rparr>"
  let ?q = "runNow 5 zero_time (?r\<lparr>rn_triggered := False\<rparr>)"
  let ?u = "runner_Trigger ?q"
  let ?v = "scheduleAt (rn_lastRun ?u + rn_interval ?u) (?u\<lparr>rn_triggered := False\<rparr>)"
  have "runner_step (Ran 5 zero_time) ?r ?q"
    by (rule run_trigger) (simp_all add: NewRunner_def too_early_def time_IsZero_def)
  moreover have "runner_step Triggered ?q ?u" by (rule trigger)
  moreover have "runner_step (Deferred 8) ?u ?v"
    by (rule put_off) (simp_all add: NewRunner_def too_early_def time_IsZero_def runner_Trigger_def zero_time_def)
  ultimately have run: "runner_run [Ran 5 zero_time, Triggered, Deferred 8] ?r ?v"
    unfolding runner_run.simps by blast
  have "\<not> list_ex is_run [Triggered, Deferred 8]" "zero_time < 5" by (simp_all add: zero_time_def)
  from runner_serves_triggers [OF run this, of 15 zero_time] have "\<exists>r''. runner_step (Ran 15 zero_time) ?v r''"
    by (simp add: NewRunner_def)
  with run show ?thesis by blast
qed

end
