(* ===== verification/GoGlob.thy ===== *)
theory GoGlob
  imports Mutations
begin

text \<open>
  \<open>filepath.Match\<close> with its classes and escapes, and \<open>filepath.Glob\<close> for a pattern in the last
  element of a path.
\<close>

text \<open>\<open>filepath.Match\<close> with a pattern that is malformed counts as no match.\<close>

definition get_esc :: "string \<Rightarrow> (char \<times> string) option" where
  "get_esc chunk =
    (case chunk of
       [] \<Rightarrow> None
     | c # cs \<Rightarrow>
       if c = CHR ''-'' \<or> c = CHR '']'' then None
       else
         (case (if c = CHR 0x5C then cs else c # cs) of
            [] \<Rightarrow> None
          | d # ds \<Rightarrow> if ds = [] then None else Some (d, ds)))"

lemma get_esc_length: "get_esc chunk = Some (c, rest) \<Longrightarrow> length rest < length chunk"
  by (auto simp: get_esc_def split: list.splits if_splits)

function class_ranges :: "bool \<Rightarrow> bool \<Rightarrow> char \<Rightarrow> string \<Rightarrow> (bool \<times> string) option" where
  "class_ranges first found r chunk =
    (if \<not> first \<and> chunk \<noteq> [] \<and> hd chunk = CHR '']'' then Some (found, tl chunk)
     else
       (case get_esc chunk of
          None \<Rightarrow> None
        | Some (lo, rest) \<Rightarrow>
          if hd rest = CHR ''-'' then
            (case get_esc (tl rest) of
               None \<Rightarrow> None
             | Some (hi, rest2) \<Rightarrow> class_ranges False (found \<or> lo \<le> r \<and> r \<le> hi) r rest2)
          else class_ranges False (found \<or> lo = r) r rest))"
  by pat_completeness auto

termination
proof (relation "measure (\<lambda>(first, found, r, chunk). length chunk)"; clarsimp)
  fix chunk rest rest2 :: string and lo hi :: char
  assume "get_esc chunk = Some (lo, rest)" and "get_esc (tl rest) = Some (hi, rest2)"
  then show "length rest2 < length chunk" by (auto dest!: get_esc_length)
qed (auto dest: get_esc_length)

declare class_ranges.simps [simp del]

definition match_class :: "char \<Rightarrow> string \<Rightarrow> (bool \<times> string) option" where
  "match_class r chunk =
    (let negated = (chunk \<noteq> [] \<and> hd chunk = CHR ''^'') in
     map_option (\<lambda>(found, rest). (found \<noteq> negated, rest)) (class_ranges True False r (if negated then tl chunk else chunk)))"

lemma class_ranges_length: "class_ranges first found r chunk = Some (b, rest) \<Longrightarrow> length rest \<le> length chunk"
proof (induction first found r chunk rule: class_ranges.induct)
  case (1 first found r chunk)
  show ?case
  proof (cases "\<not> first \<and> chunk \<noteq> [] \<and> hd chunk = CHR '']''")
    case True
    with "1.prems" show ?thesis by (subst (asm) class_ranges.simps) auto
  next
    case False
    with "1.prems" obtain lo mid where mid: "get_esc chunk = Some (lo, mid)"
      by (subst (asm) class_ranges.simps) (auto split: option.splits)
    note shorter = get_esc_length [OF mid]
    show ?thesis
    proof (cases "hd mid = CHR ''-''")
      case True
      with "1.prems" False mid obtain hi rest2 where hi: "get_esc (tl mid) = Some (hi, rest2)"
        "class_ranges False (found \<or> lo \<le> r \<and> r \<le> hi) r rest2 = Some (b, rest)"
        by (subst (asm) class_ranges.simps) (auto split: option.splits)
      with "1.IH"(1) [OF False mid refl True hi(1) refl] get_esc_length [OF hi(1)] shorter show ?thesis by simp
    next
      case dash: False
      with "1.prems" False mid have "class_ranges False (found \<or> lo = r) r mid = Some (b, rest)"
        by (subst (asm) class_ranges.simps) (auto split: option.splits)
      with "1.IH"(2) [OF False mid refl dash] shorter show ?thesis by simp
    qed
  qed
qed

lemma match_class_length: "match_class r chunk = Some (b, rest) \<Longrightarrow> length rest \<le> length chunk"
  by (cases chunk) (auto simp: match_class_def Let_def split: if_splits dest!: class_ranges_length)

function glob_match :: "string \<Rightarrow> string \<Rightarrow> bool" where
  "glob_match [] name = (name = [])"
| "glob_match (p # ps) name =
    (if p = CHR ''*'' then
       glob_match ps name \<or> (if name = [] \<or> hd name = slash then False else glob_match (p # ps) (tl name))
     else if name = [] then False
     else if p = CHR ''?'' then hd name \<noteq> slash \<and> glob_match ps (tl name)
     else if p = CHR ''['' then
       (case match_class (hd name) ps of
          None \<Rightarrow> False
        | Some (ok, rest) \<Rightarrow> ok \<and> glob_match rest (tl name))
     else if p = CHR 0x5C then ps \<noteq> [] \<and> hd ps = hd name \<and> glob_match (tl ps) (tl name)
     else p = hd name \<and> glob_match ps (tl name))"
  by pat_completeness auto

termination
  by (relation "measure (\<lambda>(ps, name). length ps + length name)")
    (auto dest!: match_class_length simp: less_Suc_eq_le neq_Nil_conv)

text \<open>\<open>filepath.Glob\<close> of a pattern in a directory without metacharacters: errors of I/O give nothing.\<close>

definition filepath_Glob :: "string \<Rightarrow> string \<Rightarrow> world \<Rightarrow> string list \<times> world" where
  "filepath_Glob dir pattern w =
    (case os_Stat dir w of
       (Inl e, w1) \<Rightarrow> ([], w1)
     | (Inr info, w1) \<Rightarrow>
       if \<not> is_dir info then ([], w1)
       else
         (case os_ReadDir dir w1 of
            (Inl e, w2) \<Rightarrow> ([], w2)
          | (Inr entries, w2) \<Rightarrow>
            (map (\<lambda>name. filepath_Join [dir, name]) (filter (glob_match pattern) (map fst entries)), w2)))"

text \<open>The modification time of a path, for callers that sort by it.\<close>

definition path_mtime :: "world \<Rightarrow> string \<Rightarrow> gotime" where
  "path_mtime w p = (case tree_get (w_fs w) (path_elems p) of None \<Rightarrow> 0 | Some n \<Rightarrow> node_mtime n)"

end
