(* ===== verification/Janitors.thy ===== *)
theory Janitors
  imports SyncService Runner GoGlob
begin

text \<open>
  \<open>internal/serverapp/artifact_janitor.go\<close> and \<open>file_janitors.go\<close>: the background tasks that
  remove temporary artifacts, conflict copies and log files by age and by total size. Each is the
  function a cleanup runner runs; it answers with the time of its next run.

  A janitor collects items, and \<open>cleanupFilesByPolicy\<close> removes some of them. Symbolic links do
  not occur in the file tree, and server log lines are left out.
\<close>

section \<open>The policy\<close>

record cleanupItem =
  ci_path :: string
  ci_name :: string
  ci_size :: int
  ci_modTime :: gotime

definition item_age :: "cleanupItem \<Rightarrow> gotime \<times> string" where
  "item_age i = (ci_modTime i, ci_name i)"

definition item_expired :: "gotime \<Rightarrow> duration \<Rightarrow> cleanupItem \<Rightarrow> bool" where
  "item_expired now retention i \<longleftrightarrow> retention > 0 \<and> time_Sub now (ci_modTime i) > retention"

text \<open>The first loop: the items that are kept, the number and the bytes removed.\<close>

fun remove_by_age :: "(cleanupItem \<Rightarrow> 's \<Rightarrow> bool \<times> 's) \<Rightarrow> gotime \<Rightarrow> duration \<Rightarrow> cleanupItem list \<Rightarrow> 's
    \<Rightarrow> cleanupItem list \<times> int \<times> int \<times> 's" where
  "remove_by_age remove now retention [] s = ([], 0, 0, s)"
| "remove_by_age remove now retention (i # items) s =
    (if item_expired now retention i then
       (case remove i s of (ok, s1) \<Rightarrow>
         (case remove_by_age remove now retention items s1 of (kept, n, b, s2) \<Rightarrow>
           if ok then (kept, n + 1, b + ci_size i, s2) else (kept, n, b, s2)))
     else
       (case remove_by_age remove now retention items s of (kept, n, b, s1) \<Rightarrow> (i # kept, n, b, s1)))"

fun remove_by_size :: "(cleanupItem \<Rightarrow> 's \<Rightarrow> bool \<times> 's) \<Rightarrow> int \<Rightarrow> int \<Rightarrow> cleanupItem list \<Rightarrow> 's
    \<Rightarrow> cleanupItem list \<times> int \<times> int \<times> 's" where
  "remove_by_size remove maxBytes totalBytes [] s = ([], 0, 0, s)"
| "remove_by_size remove maxBytes totalBytes (i # items) s =
    (if totalBytes \<le> maxBytes then
       (case remove_by_size remove maxBytes totalBytes items s of (kept, n, b, s1) \<Rightarrow> (i # kept, n, b, s1))
     else
       (case remove i s of (ok, s1) \<Rightarrow>
         if ok then
           (case remove_by_size remove maxBytes (totalBytes - ci_size i) items s1 of (kept, n, b, s2) \<Rightarrow>
             (kept, n + 1, b + ci_size i, s2))
         else
           (case remove_by_size remove maxBytes totalBytes items s1 of (kept, n, b, s2) \<Rightarrow> (i # kept, n, b, s2))))"

fun next_expiry :: "duration \<Rightarrow> gotime \<Rightarrow> cleanupItem list \<Rightarrow> gotime" where
  "next_expiry retention nextDue [] = nextDue"
| "next_expiry retention nextDue (i # items) =
    (let expireAt = ci_modTime i + retention in
     next_expiry retention (if time_IsZero nextDue \<or> expireAt < nextDue then expireAt else nextDue) items)"

definition cleanupFilesByPolicy :: "cleanupItem list \<Rightarrow> gotime \<Rightarrow> duration \<Rightarrow> int
    \<Rightarrow> (cleanupItem \<Rightarrow> 's \<Rightarrow> bool \<times> 's) \<Rightarrow> 's \<Rightarrow> (int \<times> int \<times> gotime) \<times> 's" where
  "cleanupFilesByPolicy items now retention maxBytes remove s =
    (if items = [] then ((0, 0, zero_time), s)
     else
       (case remove_by_age remove now retention (sort_key item_age items) s of
          (kept, n, b, s1) \<Rightarrow>
          (case (if maxBytes > 0
                 then remove_by_size remove maxBytes (sum_list (map ci_size kept)) kept s1
                 else (kept, 0, 0, s1)) of
             (kept2, n2, b2, s2) \<Rightarrow>
               ((n + n2, b + b2, if retention > 0 then next_expiry retention zero_time kept2 else zero_time), s2))))"

section \<open>Items\<close>

definition hasArtifactPrefix :: "string \<Rightarrow> string list \<Rightarrow> bool" where
  "hasArtifactPrefix name pres \<longleftrightarrow> list_ex (strings_HasPrefix name) pres"

definition matchesLogPattern :: "string \<Rightarrow> string list \<Rightarrow> bool" where
  "matchesLogPattern name patterns \<longleftrightarrow>
    list_ex (\<lambda>pattern. glob_match pattern name \<or> strings_EqualFold pattern name) patterns"

section \<open>The janitors\<close>

record janitor =
  jn_dir :: string
  jn_retention :: duration
  jn_maxBytes :: int
  jn_patterns :: "string list"
  jn_runner :: runner

record CleanupRuntimeConfig =
  cc_Enabled :: bool
  cc_Interval :: duration
  cc_Retention :: duration
  cc_MaxBytes :: int
  cc_Patterns :: "string list"

text \<open>
  The three constructors; \<open>None\<close> is a janitor that is switched off. The prefixes of an artifact
  janitor and the patterns of a log janitor are in the same field, which conflict files lack.
\<close>

definition new_janitor :: "string \<Rightarrow> CleanupRuntimeConfig \<Rightarrow> janitor option" where
  "new_janitor dir cfg =
    (if strings_TrimSpace dir = [] \<or> \<not> cc_Enabled cfg then None
     else if cc_Retention cfg \<le> 0 \<and> cc_MaxBytes cfg \<le> 0 then None
     else Some \<lparr>jn_dir = dir, jn_retention = cc_Retention cfg, jn_maxBytes = cc_MaxBytes cfg,
       jn_patterns = cc_Patterns cfg, jn_runner = NewRunner (max 0 (cc_Interval cfg))\<rparr>)"

definition newConflictFileJanitor :: "string \<Rightarrow> CleanupRuntimeConfig \<Rightarrow> janitor option" where
  "newConflictFileJanitor = new_janitor"

definition newLogFileJanitor :: "string \<Rightarrow> CleanupRuntimeConfig \<Rightarrow> janitor option" where
  "newLogFileJanitor dir cfg = (if cc_Patterns cfg = [] then None else new_janitor dir cfg)"

definition newArtifactJanitor :: "string \<Rightarrow> CleanupRuntimeConfig \<Rightarrow> janitor option" where
  "newArtifactJanitor dir cfg = (if cc_Patterns cfg = [] then None else new_janitor dir cfg)"

definition node_bytes :: "node \<Rightarrow> int" where
  "node_bytes n = (case n of File d _ \<Rightarrow> int (length d) | Directory _ \<Rightarrow> 0)"

text \<open>
  \<open>pathSize\<close>: \<open>Lstat\<close> of the path, then \<open>filepath.Walk\<close>, which stops at the first error. The
  walk reads a directory after its own \<open>Lstat\<close>, and descends at most as deep as the tree.
\<close>

fun walk_size :: "nat \<Rightarrow> string \<Rightarrow> (string \<times> node) list \<Rightarrow> int io" where
  "walk_size fuel dir [] w = (Inr 0, w)"
| "walk_size 0 dir (e # es) w = (Inr 0, w)"
| "walk_size (Suc fuel) dir ((name, n) # es) w =
    (case os_Stat (filepath_Join [dir, name]) w of
       (Inl e, w1) \<Rightarrow> (Inl e, w1)
     | (Inr info, w1) \<Rightarrow>
       (case (if is_dir info
              then (case os_ReadDir (filepath_Join [dir, name]) w1 of
                      (Inl e, w2) \<Rightarrow> (Inl e, w2)
                    | (Inr entries, w2) \<Rightarrow> walk_size fuel (filepath_Join [dir, name]) entries w2)
              else (Inr (node_bytes info), w1)) of
          (Inl e, w2) \<Rightarrow> (Inl e, w2)
        | (Inr bytes, w2) \<Rightarrow>
          (case walk_size (Suc fuel) dir es w2 of
             (Inl e, w3) \<Rightarrow> (Inl e, w3) | (Inr rest, w3) \<Rightarrow> (Inr (bytes + rest), w3))))"

definition pathSize :: "string \<Rightarrow> int io" where
  "pathSize path w =
    (case os_Stat path w of
       (Inl e, w1) \<Rightarrow> (Inl e, w1)
     | (Inr info, w1) \<Rightarrow>
       if \<not> is_dir info then (Inr (node_bytes info), w1)
       else
         (case os_Stat path w1 of
            (Inl e, w2) \<Rightarrow> (Inl e, w2)
          | (Inr info2, w2) \<Rightarrow>
            (case os_ReadDir path w2 of
               (Inl e, w3) \<Rightarrow> (Inl e, w3)
             | (Inr entries, w3) \<Rightarrow> walk_size (tree_depth (w_fs w3) + 1) path entries w3)))"

definition os_RemoveAll :: "string \<Rightarrow> unit io" where
  "os_RemoveAll p = with_fault (\<lambda>w. let k = path_elems p in
    (case lookup_node (w_fs w) k of
       Inl ENOENT \<Rightarrow> (Inr (), w)
     | Inl e \<Rightarrow> (Inl (PathError ''unlinkat'' p e), w)
     | Inr _ \<Rightarrow>
       if k = [] then (Inl (PathError ''unlinkat'' p EINVAL), w)
       else (Inr (), w\<lparr>w_fs := filter (\<lambda>(q, n). \<not> prefix k q) (w_fs w)\<rparr>)))"

fun artifact_items :: "string \<Rightarrow> string list \<Rightarrow> (string \<times> node) list \<Rightarrow> world \<Rightarrow> cleanupItem list \<times> world" where
  "artifact_items dir pres [] w = ([], w)"
| "artifact_items dir pres ((name, n) # es) w =
    (if \<not> hasArtifactPrefix name pres then artifact_items dir pres es w
     else
       (case entry_Info n w of
          (Inl e, w1) \<Rightarrow> artifact_items dir pres es w1
        | (Inr info, w1) \<Rightarrow>
          (case pathSize (filepath_Join [dir, name]) w1 of
             (Inl e, w2) \<Rightarrow> artifact_items dir pres es w2
           | (Inr bytes, w2) \<Rightarrow>
             (case artifact_items dir pres es w2 of
                (items, w3) \<Rightarrow>
                  (\<lparr>ci_path = filepath_Join [dir, name], ci_name = name, ci_size = bytes,
                    ci_modTime = node_mtime info\<rparr> # items, w3)))))"

definition file_item :: "string \<Rightarrow> string \<Rightarrow> node \<Rightarrow> cleanupItem" where
  "file_item path name info =
    \<lparr>ci_path = path, ci_name = name, ci_size = node_bytes info, ci_modTime = node_mtime info\<rparr>"

fun log_items :: "string \<Rightarrow> string list \<Rightarrow> (string \<times> node) list \<Rightarrow> world \<Rightarrow> cleanupItem list \<times> world" where
  "log_items dir patterns [] w = ([], w)"
| "log_items dir patterns ((name, n) # es) w =
    (if is_dir n \<or> \<not> matchesLogPattern name patterns then log_items dir patterns es w
     else
       (case entry_Info n w of
          (Inl e, w1) \<Rightarrow> log_items dir patterns es w1
        | (Inr info, w1) \<Rightarrow>
          (case log_items dir patterns es w1 of
             (items, w2) \<Rightarrow> (file_item (filepath_Join [dir, name]) name info # items, w2))))"

text \<open>\<open>os.ReadDir\<close> of the directory; a directory that is not there has no items.\<close>

definition dir_items :: "string \<Rightarrow> ((string \<times> node) list \<Rightarrow> world \<Rightarrow> cleanupItem list \<times> world)
    \<Rightarrow> cleanupItem list io" where
  "dir_items dir collect w =
    (case os_ReadDir dir w of
       (Inl e, w1) \<Rightarrow> if errors_Is e ErrNotExist then (Inr [], w1) else (Inl e, w1)
     | (Inr entries, w1) \<Rightarrow> (case collect entries w1 of (items, w2) \<Rightarrow> (Inr items, w2)))"

definition artifact_collectItems :: "janitor \<Rightarrow> cleanupItem list io" where
  "artifact_collectItems j = dir_items (jn_dir j) (artifact_items (jn_dir j) (jn_patterns j))"

definition log_collectItems :: "janitor \<Rightarrow> cleanupItem list io" where
  "log_collectItems j = dir_items (jn_dir j) (log_items (jn_dir j) (jn_patterns j))"

text \<open>\<open>filepath.WalkDir\<close> over the shared root; what cannot be read is passed over.\<close>

fun conflict_items :: "nat \<Rightarrow> string \<Rightarrow> (string \<times> node) list \<Rightarrow> world \<Rightarrow> cleanupItem list \<times> world" where
  "conflict_items fuel dir [] w = ([], w)"
| "conflict_items 0 dir (e # es) w = ([], w)"
| "conflict_items (Suc fuel) dir ((name, n) # es) w =
    (let path = filepath_Join [dir, name] in
     case (if is_dir n then
             if ShouldIgnore name then ([], w)
             else (case os_ReadDir path w of
                     (Inl e, w1) \<Rightarrow> ([], w1) | (Inr entries, w1) \<Rightarrow> conflict_items fuel path entries w1)
           else if \<not> IsConflictPath name then ([], w)
           else (case entry_Info n w of
                   (Inl e, w1) \<Rightarrow> ([], w1) | (Inr info, w1) \<Rightarrow> ([file_item path name info], w1))) of
       (items, w1) \<Rightarrow>
       (case conflict_items (Suc fuel) dir es w1 of (rest, w2) \<Rightarrow> (items @ rest, w2)))"

definition conflict_collectItems :: "janitor \<Rightarrow> cleanupItem list io" where
  "conflict_collectItems j w =
    (case os_Stat (jn_dir j) w of
       (Inl e, w1) \<Rightarrow> (Inr [], w1)
     | (Inr root, w1) \<Rightarrow>
       if \<not> is_dir root then
         (if \<not> IsConflictPath (filepath_Base (jn_dir j)) then (Inr [], w1)
          else (case entry_Info root w1 of
                  (Inl e, w2) \<Rightarrow> (Inr [], w2)
                | (Inr info, w2) \<Rightarrow> (Inr [file_item (jn_dir j) (filepath_Base (jn_dir j)) info], w2)))
       else
         (case os_ReadDir (jn_dir j) w1 of
            (Inl e, w2) \<Rightarrow> (Inr [], w2)
          | (Inr entries, w2) \<Rightarrow>
            (case conflict_items (tree_depth (w_fs w2) + 1) (jn_dir j) entries w2 of
               (items, w3) \<Rightarrow> (Inr items, w3))))"

definition remove_with :: "(string \<Rightarrow> unit io) \<Rightarrow> cleanupItem \<Rightarrow> world \<Rightarrow> bool \<times> world" where
  "remove_with rm item w =
    (case rm (ci_path item) w of
       (Inl e, w1) \<Rightarrow> (errors_Is e ErrNotExist, w1) | (Inr _, w1) \<Rightarrow> (True, w1))"

text \<open>A run of a janitor answers with the time of the next run.\<close>

definition janitor_cleanup :: "(janitor \<Rightarrow> cleanupItem list io) \<Rightarrow> (string \<Rightarrow> unit io) \<Rightarrow> janitor \<Rightarrow> gotime
    \<Rightarrow> world \<Rightarrow> gotime \<times> world" where
  "janitor_cleanup collect rm j now w =
    (case collect j w of
       (Inl e, w1) \<Rightarrow> (zero_time, w1)
     | (Inr items, w1) \<Rightarrow>
       (case cleanupFilesByPolicy items now (jn_retention j) (jn_maxBytes j) (remove_with rm) w1 of
          ((removedCount, removedBytes, nextDue), w2) \<Rightarrow> (nextDue, w2)))"

definition artifact_cleanup :: "janitor \<Rightarrow> gotime \<Rightarrow> world \<Rightarrow> gotime \<times> world" where
  "artifact_cleanup = janitor_cleanup artifact_collectItems os_RemoveAll"

definition conflict_cleanup :: "janitor \<Rightarrow> gotime \<Rightarrow> world \<Rightarrow> gotime \<times> world" where
  "conflict_cleanup = janitor_cleanup conflict_collectItems os_Remove"

definition log_cleanup :: "janitor \<Rightarrow> gotime \<Rightarrow> world \<Rightarrow> gotime \<times> world" where
  "log_cleanup = janitor_cleanup log_collectItems os_Remove"

section \<open>Laws of the policy\<close>

text \<open>Removals that work for some items and fail for others, and the list of those tried.\<close>

definition try_remove :: "(cleanupItem \<Rightarrow> bool) \<Rightarrow> cleanupItem \<Rightarrow> cleanupItem list \<Rightarrow> bool \<times> cleanupItem list" where
  "try_remove ok i tried = (ok i, tried @ [i])"

lemma try_remove_simps:
  "ok i \<Longrightarrow> try_remove ok i tried = (True, tried @ [i])"
  "\<not> ok i \<Longrightarrow> try_remove ok i tried = (False, tried @ [i])"
  by (simp_all add: try_remove_def)

abbreviation sizes :: "cleanupItem list \<Rightarrow> int" where
  "sizes items \<equiv> sum_list (map ci_size items)"

lemma remove_by_age_eq:
  "remove_by_age (try_remove ok) now r items tried =
    (filter (\<lambda>i. \<not> item_expired now r i) items, int (length (filter ok (filter (item_expired now r) items))),
     sizes (filter ok (filter (item_expired now r) items)), tried @ filter (item_expired now r) items)"
  by (induction items arbitrary: tried) (auto simp: try_remove_def split: prod.splits)

lemma remove_by_size_keep:
  "t \<le> m \<Longrightarrow> remove_by_size remove m t items s = (items, 0, 0, s)"
  by (induction items) auto

lemma remove_by_size_eq:
  "\<exists>k\<le>length items. remove_by_size (try_remove ok) m t items tried =
      (filter (\<lambda>i. \<not> ok i) (take k items) @ drop k items, int (length (filter ok (take k items))),
       sizes (filter ok (take k items)), tried @ take k items)
    \<and> (k < length items \<longrightarrow> t - sizes (filter ok (take k items)) \<le> m)
    \<and> (\<forall>j<k. m < t - sizes (filter ok (take j items)))"
proof (induction items arbitrary: t tried)
  case Nil
  then show ?case by simp
next
  case (Cons i items)
  show ?case
  proof (cases "t \<le> m")
    case True
    then show ?thesis by (intro exI [of _ 0]) (simp add: remove_by_size_keep del: remove_by_size.simps)
  next
    case over: False
    from Cons.IH [of "if ok i then t - ci_size i else t" "tried @ [i]"] obtain k where k: "k \<le> length items"
      "remove_by_size (try_remove ok) m (if ok i then t - ci_size i else t) items (tried @ [i]) =
        (filter (\<lambda>i. \<not> ok i) (take k items) @ drop k items, int (length (filter ok (take k items))),
         sizes (filter ok (take k items)), (tried @ [i]) @ take k items)"
      "k < length items \<longrightarrow> (if ok i then t - ci_size i else t) - sizes (filter ok (take k items)) \<le> m"
      "\<forall>j<k. m < (if ok i then t - ci_size i else t) - sizes (filter ok (take j items))"
      by blast
    have "\<forall>j<Suc k. m < t - sizes (filter ok (take j (i # items)))"
    proof (intro allI impI)
      fix j assume "j < Suc k"
      then show "m < t - sizes (filter ok (take j (i # items)))"
        using over k(4) by (cases j) (auto split: if_splits simp: algebra_simps)
    qed
    moreover have "Suc k < length (i # items) \<longrightarrow> t - sizes (filter ok (take (Suc k) (i # items))) \<le> m"
      using k(3) by (auto split: if_splits simp: algebra_simps)
    ultimately show ?thesis
      using over k(1,2) by (intro exI [of _ "Suc k"]) (auto simp: try_remove_simps split: if_splits)
  qed
qed

lemma next_expiry_Min:
  assumes "\<forall>i\<in>set items. zero_time < ci_modTime i" and "0 < r" and "nd = zero_time \<or> zero_time < nd"
  shows "next_expiry r nd items =
    (if nd = zero_time then (if items = [] then zero_time else Min ((\<lambda>i. ci_modTime i + r) ` set items))
     else Min (insert nd ((\<lambda>i. ci_modTime i + r) ` set items)))"
  using assms
proof (induction items arbitrary: nd)
  case Nil
  then show ?case by simp
next
  case (Cons i items)
  let ?e = "ci_modTime i + r"
  have e: "zero_time < ?e" using Cons.prems by (auto intro: add_strict_increasing2)
  show ?case
  proof (cases "nd = zero_time")
    case True
    with e Cons.IH [of ?e] Cons.prems show ?thesis by (simp add: time_IsZero_def)
  next
    case False
    with Cons.prems(3) have nd: "zero_time < nd" by simp
    let ?S = "(\<lambda>i. ci_modTime i + r) ` set items"
    have "next_expiry r nd (i # items) = next_expiry r (min ?e nd) items"
      using False by (auto simp: Let_def time_IsZero_def min_def)
    also have "\<dots> = Min (insert (min ?e nd) ?S)"
      using Cons.IH [of "min ?e nd"] Cons.prems e nd by (auto simp: min_def)
    also have "\<dots> = Min (insert nd (insert ?e ?S))"
      by (cases "items = []") (simp_all add: min.commute min.left_commute)
    finally show ?thesis using False by simp
  qed
qed

lemma sorted_ages: "sorted (map item_age (sort_key item_age items))"
  by simp



end
