(* ===== verification/JanitorLaws.thy ===== *)
theory JanitorLaws
  imports Janitors ServiceLaws
begin

text \<open>
  What a run of a janitor can touch, whatever fails. A locale states the interface of a janitor,
  that collecting only reads and that removing a collected item touches only certain paths, and
  is interpreted for conflict copies, log files and artifacts.
\<close>

section \<open>Removals\<close>

definition spares :: "(cleanupItem \<Rightarrow> world \<Rightarrow> bool \<times> world) \<Rightarrow> string list set \<Rightarrow> cleanupItem list \<Rightarrow> bool" where
  "spares remove K items \<longleftrightarrow> (\<forall>i\<in>set items. \<forall>w. fs_step K w (snd (remove i w)))"

lemma spares_Cons: "spares remove K (i # items) \<Longrightarrow> remove i w = (ok, w') \<Longrightarrow> fs_step K w w' \<and> spares remove K items"
  by (auto simp: spares_def) (metis snd_conv)

lemma spares_subset: "spares remove K items \<Longrightarrow> set kept \<subseteq> set items \<Longrightarrow> spares remove K kept"
  by (auto simp: spares_def)

lemma fs_step_then: "fs_step K w w1 \<Longrightarrow> fs_step K w1 w2 \<Longrightarrow> fs_step K w w2"
  using fs_step_trans [of K w w1 K w2] by simp

lemma remove_by_age_step:
  "remove_by_age remove now r items w = (kept, n, b, w') \<Longrightarrow> spares remove K items \<Longrightarrow>
    fs_step K w w' \<and> set kept \<subseteq> set items"
proof (induction items arbitrary: w w' kept n b)
  case (Cons i items)
  show ?case
  proof (cases "item_expired now r i")
    case True
    obtain ok w1 where 1: "remove i w = (ok, w1)" by force
    obtain kept' n' b' w2 where 2: "remove_by_age remove now r items w1 = (kept', n', b', w2)"
      by (metis prod_cases4)
    note step = spares_Cons [OF Cons.prems(2) 1]
    from Cons.IH [OF 2] step have "fs_step K w1 w2 \<and> set kept' \<subseteq> set items" by blast
    moreover have "w' = w2" "kept = kept'" using Cons.prems(1) True 1 2 by (auto split: if_splits)
    ultimately show ?thesis using step fs_step_then by auto
  next
    case False
    obtain kept' n' b' w2 where 2: "remove_by_age remove now r items w = (kept', n', b', w2)"
      by (metis prod_cases4)
    have "spares remove K items" by (rule spares_subset [OF Cons.prems(2)]) auto
    note ih = Cons.IH [OF 2 this]
    have "w' = w2" "kept = i # kept'" using Cons.prems(1) False 2 by auto
    with ih show ?thesis by auto
  qed
qed simp

lemma remove_by_size_step:
  "remove_by_size remove m t items w = (kept, n, b, w') \<Longrightarrow> spares remove K items \<Longrightarrow> fs_step K w w'"
proof (induction items arbitrary: t w w' kept n b)
  case (Cons i items)
  show ?case
  proof (cases "t \<le> m")
    case True
    obtain kept' n' b' w2 where 2: "remove_by_size remove m t items w = (kept', n', b', w2)"
      by (metis prod_cases4)
    have "spares remove K items" by (rule spares_subset [OF Cons.prems(2)]) auto
    note ih = Cons.IH [OF 2 this]
    have "w' = w2" using Cons.prems(1) True 2 by simp
    with ih show ?thesis by simp
  next
    case False
    obtain ok w1 where 1: "remove i w = (ok, w1)" by force
    obtain kept' n' b' w2 where 2: "remove_by_size remove m (if ok then t - ci_size i else t) items w1 = (kept', n', b', w2)"
      by (metis prod_cases4)
    note step = spares_Cons [OF Cons.prems(2) 1]
    from Cons.IH [OF 2] step have "fs_step K w1 w2" by blast
    moreover have "w' = w2" using Cons.prems(1) False 1 2 by (auto split: if_splits)
    ultimately show ?thesis using step fs_step_then by blast
  qed
qed simp

lemma cleanupFilesByPolicy_step:
  assumes "cleanupFilesByPolicy items now r m remove w = (x, w')" and "spares remove K items"
  shows "fs_step K w w'"
proof (cases "items = []")
  case True
  with assms(1) show ?thesis by (simp add: cleanupFilesByPolicy_def)
next
  case False
  obtain kept n b w1 where 1: "remove_by_age remove now r (sort_key item_age items) w = (kept, n, b, w1)"
    by (metis prod_cases4)
  obtain kept2 n2 b2 w2 where 2: "remove_by_size remove m (sum_list (map ci_size kept)) kept w1 = (kept2, n2, b2, w2)"
    by (metis prod_cases4)
  have "spares remove K (sort_key item_age items)" using assms(2) by (simp add: spares_def)
  from remove_by_age_step [OF 1 this] have s1: "fs_step K w w1" and "set kept \<subseteq> set items" by auto
  from remove_by_size_step [OF 2 spares_subset [OF assms(2) this(2)]] have s2: "fs_step K w1 w2" .
  from assms(1) False 1 2 have "w' = w2 \<or> w' = w1"
    by (auto simp: cleanupFilesByPolicy_def split: if_splits)
  with s1 fs_step_then [OF s1 s2] show ?thesis by blast
qed

lemma spares_remove_with:
  assumes "\<And>i v r v'. i \<in> set items \<Longrightarrow> rm (ci_path i) v = (r, v') \<Longrightarrow> fs_step K v v'"
  shows "spares (remove_with rm) K items"
  unfolding spares_def
proof (intro ballI allI)
  fix i v assume i: "i \<in> set items"
  obtain r v' where "rm (ci_path i) v = (r, v')" by force
  with assms [OF i this] show "fs_step K v (snd (remove_with rm i v))"
    by (cases r) (simp_all add: remove_with_def)
qed

section \<open>The interface of a janitor\<close>

locale janitor_files =
  fixes collect :: "janitor \<Rightarrow> cleanupItem list io"
    and rm :: "string \<Rightarrow> unit io"
    and touches :: "janitor \<Rightarrow> string list set"
  assumes collect_reads: "filepath_IsAbs (jn_dir j) \<Longrightarrow> filepath_Clean (jn_dir j) = jn_dir j \<Longrightarrow> tree_ok (w_fs w) \<Longrightarrow>
      collect j w = (r, w') \<Longrightarrow> fs_step {} w w'"
    and rm_touches: "filepath_IsAbs (jn_dir j) \<Longrightarrow> filepath_Clean (jn_dir j) = jn_dir j \<Longrightarrow> tree_ok (w_fs w) \<Longrightarrow>
      collect j w = (Inr items, w') \<Longrightarrow> i \<in> set items \<Longrightarrow> rm (ci_path i) v = (q, v') \<Longrightarrow> fs_step (touches j) v v'"
begin

lemma cleanup_touches:
  assumes "filepath_IsAbs (jn_dir j)" and "filepath_Clean (jn_dir j) = jn_dir j" and "tree_ok (w_fs w)"
  shows "fs_step (touches j) w (snd (janitor_cleanup collect rm j now w))"
proof (cases "collect j w")
  case (Pair r w1)
  have 1: "fs_step (touches j) w w1" by (rule fs_step_mono [OF collect_reads [OF assms Pair]]) simp
  show ?thesis
  proof (cases r)
    case (Inl e)
    with Pair 1 show ?thesis by (simp add: janitor_cleanup_def)
  next
    case (Inr items)
    have sp: "spares (remove_with rm) (touches j) items"
      by (rule spares_remove_with) (rule rm_touches [OF assms Pair [unfolded Inr]])
    obtain n b due w2 where 2: "cleanupFilesByPolicy items now (jn_retention j) (jn_maxBytes j) (remove_with rm) w1
        = ((n, b, due), w2)" by (metis prod_cases4 surj_pair)
    from fs_step_then [OF 1 cleanupFilesByPolicy_step [OF 2 sp]] Pair Inr 2
    show ?thesis by (simp add: janitor_cleanup_def)
  qed
qed

end

section \<open>Collecting\<close>

lemma entry_Info_step: "entry_Info n w = (r, w') \<Longrightarrow> fs_step {} w w'"
  unfolding entry_Info_def by (erule with_fault_fs_step) auto

lemma log_items_step:
  "log_items dir patterns es w = (items, w') \<Longrightarrow> fs_step {} w w' \<and>
    (\<forall>i\<in>set items. \<exists>name. name \<in> fst ` set es \<and> matchesLogPattern name patterns \<and> ci_path i = filepath_Join [dir, name])"
proof (induction es arbitrary: w w' items)
  case (Cons e es)
  obtain name n where e: "e = (name, n)" by force
  show ?case
  proof (cases "is_dir n \<or> \<not> matchesLogPattern name patterns")
    case True
    with Cons.prems e have "log_items dir patterns es w = (items, w')" by simp
    from Cons.IH [OF this] show ?thesis by auto
  next
    case False
    obtain r w1 where 1: "entry_Info n w = (r, w1)" by force
    obtain rest w2 where 2: "log_items dir patterns es w1 = (rest, w2)" by force
    note ih = Cons.IH [OF 2]
    have s: "fs_step {} w w2" using ih entry_Info_step [OF 1] fs_step_then by blast
    have w': "w' = w2" using Cons.prems e False 1 2 by (cases r) simp_all
    have items: "i \<in> set items \<Longrightarrow> i \<in> set rest \<or> ci_path i = filepath_Join [dir, name]" for i
      using Cons.prems e False 1 2 by (cases r) (auto simp: file_item_def)
    show ?thesis
    proof (intro conjI ballI)
      fix i assume "i \<in> set items"
      from items [OF this] show "\<exists>nm. nm \<in> fst ` set (e # es) \<and> matchesLogPattern nm patterns \<and> ci_path i = filepath_Join [dir, nm]"
      proof
        assume "i \<in> set rest"
        with ih show ?thesis by (metis (no_types) image_insert insertI2 list.simps(15))
      next
        assume "ci_path i = filepath_Join [dir, name]"
        with e False show ?thesis by (intro exI [of _ name]) simp
      qed
    qed (simp add: w' s)
  qed
qed simp

lemma walk_size_step: "walk_size fuel dir es w = (r, w') \<Longrightarrow> fs_step {} w w'"
proof (induction fuel arbitrary: dir es w r w')
  case 0
  then show ?case by (cases es) auto
next
  case (Suc fuel)
  note deeper = Suc.IH
  from Suc.prems show ?case
  proof (induction es arbitrary: w r w')
    case (Cons e es)
    obtain name n where e: "e = (name, n)" by force
    let ?p = "filepath_Join [dir, name]"
    obtain r1 w1 where 1: "os_Stat ?p w = (r1, w1)" by force
    note s1 = os_Stat_step [OF 1]
    show ?case
    proof (cases r1)
      case (Inl x)
      with Cons.prems e 1 s1 show ?thesis by simp
    next
      case (Inr info)
      define sub where "sub = (if is_dir info
        then (case os_ReadDir ?p w1 of (Inl e, w2) \<Rightarrow> (Inl e, w2)
          | (Inr entries, w2) \<Rightarrow> walk_size fuel ?p entries w2) else (Inr (node_bytes info), w1))"
      obtain r2 w2 where 2: "sub = (r2, w2)" by force
      obtain r3 w3 where 3: "os_ReadDir ?p w1 = (r3, w3)" by force
      have s2: "fs_step {} w1 w2"
        using 2 3 os_ReadDir_step [OF 3] deeper [of ?p _ w3 r2 w2] fs_step_then
        by (cases r3) (auto simp: sub_def split: if_splits)
      note s12 = fs_step_then [OF s1 s2]
      obtain r4 w4 where 4: "walk_size (Suc fuel) dir es w2 = (r4, w4)" by force
      have run: "walk_size (Suc fuel) dir ((name, n) # es) w =
          (case sub of (Inl e, w2) \<Rightarrow> (Inl e, w2) | (Inr bytes, w2) \<Rightarrow>
            (case walk_size (Suc fuel) dir es w2 of (Inl e, w3) \<Rightarrow> (Inl e, w3) | (Inr rest, w3) \<Rightarrow> (Inr (bytes + rest), w3)))"
        using 1 Inr by (simp add: sub_def)
      then have "w' = w2 \<or> w' = w4"
        using Cons.prems e 2 4 by (cases r2; cases r4) auto
      with s12 fs_step_then [OF s12 Cons.IH [OF 4]] show ?thesis by blast
    qed
  qed simp
qed

lemma pathSize_step: "pathSize p w = (r, w') \<Longrightarrow> fs_step {} w w'"
proof -
  assume run: "pathSize p w = (r, w')"
  obtain r1 w1 where 1: "os_Stat p w = (r1, w1)" by force
  obtain r2 w2 where 2: "os_Stat p w1 = (r2, w2)" by force
  obtain r3 w3 where 3: "os_ReadDir p w2 = (r3, w3)" by force
  note s1 = os_Stat_step [OF 1]
  note s2 = fs_step_then [OF s1 os_Stat_step [OF 2]]
  note s3 = fs_step_then [OF s2 os_ReadDir_step [OF 3]]
  have "w' = w1 \<or> w' = w2 \<or> w' = w3 \<or> (\<exists>es. walk_size (tree_depth (w_fs w3) + 1) p es w3 = (r, w'))"
    using run 1 2 3 unfolding pathSize_def by (cases r1; cases r2; cases r3) (auto split: if_splits)
  then show "fs_step {} w w'"
    using s1 s2 s3 fs_step_then [OF s3] walk_size_step by blast
qed

lemma artifact_items_step:
  "artifact_items dir pres es w = (items, w') \<Longrightarrow> fs_step {} w w' \<and>
    (\<forall>i\<in>set items. \<exists>name. name \<in> fst ` set es \<and> hasArtifactPrefix name pres \<and> ci_path i = filepath_Join [dir, name])"
proof (induction es arbitrary: w w' items)
  case (Cons e es)
  obtain name n where e: "e = (name, n)" by force
  show ?case
  proof (cases "hasArtifactPrefix name pres")
    case False
    with Cons.prems e have "artifact_items dir pres es w = (items, w')" by simp
    from Cons.IH [OF this] show ?thesis by auto
  next
    case True
    obtain r1 w1 where 1: "entry_Info n w = (r1, w1)" by force
    obtain r2 w2 where 2: "pathSize (filepath_Join [dir, name]) w1 = (r2, w2)" by force
    note s1 = entry_Info_step [OF 1]
    note s2 = fs_step_then [OF s1 pathSize_step [OF 2]]
    obtain v where v: "fs_step {} w v" "artifact_items dir pres es v = (items, w') \<or>
        (\<exists>bytes info rest. artifact_items dir pres es v = (rest, w') \<and> items = \<lparr>ci_path = filepath_Join [dir, name], ci_name = name,
          ci_size = bytes, ci_modTime = node_mtime info\<rparr> # rest)"
    proof (cases r1)
      case (Inl x)
      with Cons.prems e True 1 that [OF s1] show ?thesis by simp
    next
      case (Inr info)
      obtain rest w3 where 3: "artifact_items dir pres es w2 = (rest, w3)" by force
      with Inr Cons.prems e True 1 2 that [OF s2] show ?thesis by (cases r2) auto
    qed
    then obtain rest where rest: "artifact_items dir pres es v = (rest, w')"
      and items: "\<forall>i\<in>set items. i \<in> set rest \<or> ci_path i = filepath_Join [dir, name]" by auto
    note ih = Cons.IH [OF rest]
    have s: "fs_step {} w w'" using fs_step_then [OF v(1)] ih by blast
    show ?thesis
    proof (intro conjI ballI)
      fix i assume "i \<in> set items"
      with items have "i \<in> set rest \<or> ci_path i = filepath_Join [dir, name]" by blast
      then show "\<exists>nm. nm \<in> fst ` set (e # es) \<and> hasArtifactPrefix nm pres \<and> ci_path i = filepath_Join [dir, nm]"
      proof
        assume "i \<in> set rest"
        with ih show ?thesis by (metis (no_types) image_insert insertI2 list.simps(15))
      next
        assume "ci_path i = filepath_Join [dir, name]"
        with e True show ?thesis by (intro exI [of _ name]) simp
      qed
    qed (rule s)
  qed
qed simp

text \<open>Steps that only read: nothing but the fault script changes.\<close>

definition reads :: "world \<Rightarrow> world \<Rightarrow> bool" where
  "reads w w' \<longleftrightarrow> fs_step {} w w' \<and> w_fs w' = w_fs w"

lemma reads_refl [simp]: "reads w w"
  by (simp add: reads_def)

lemma reads_trans: "reads w w1 \<Longrightarrow> reads w1 w2 \<Longrightarrow> reads w w2"
  using fs_step_then by (auto simp: reads_def)

lemma os_ReadDir_reads: "os_ReadDir p w = (r, w') \<Longrightarrow> reads w w'"
  by (simp add: reads_def os_ReadDir_step os_ReadDir_same)

lemma os_Stat_reads: "os_Stat p w = (r, w') \<Longrightarrow> reads w w'"
  by (simp add: reads_def os_Stat_step os_Stat_same)

lemma entry_Info_reads: "entry_Info n w = (r, w') \<Longrightarrow> reads w w'"
  using entry_Info_keeps by (simp add: reads_def entry_Info_step)

abbreviation conflict_only :: "cleanupItem list \<Rightarrow> bool" where
  "conflict_only items \<equiv> \<forall>i\<in>set items. conflict_key (path_elems (ci_path i))"

lemma conflict_items_step:
  "conflict_items fuel dir es w = (items, w') \<Longrightarrow> filepath_IsAbs dir \<Longrightarrow> \<forall>x\<in>set es. plain_elem (fst x) \<Longrightarrow>
    tree_ok (w_fs w) \<Longrightarrow> reads w w' \<and> conflict_only items"
proof (induction fuel arbitrary: dir es w items w')
  case 0
  then show ?case by (cases es) auto
next
  case (Suc fuel)
  note deeper = Suc.IH
  from Suc.prems show ?case
  proof (induction es arbitrary: w items w')
    case (Cons e es)
    obtain name n where e: "e = (name, n)" by force
    let ?p = "filepath_Join [dir, name]"
    have pl: "plain_elem name" using Cons.prems(3) e by simp
    note ja = path_elems_Join_abs [OF Cons.prems(2) pl]
    define here where "here = (if is_dir n then
        if ShouldIgnore name then ([], w)
        else (case os_ReadDir ?p w of
                (Inl e, w1) \<Rightarrow> ([], w1) | (Inr entries, w1) \<Rightarrow> conflict_items fuel ?p entries w1)
      else if \<not> IsConflictPath name then ([], w)
      else (case entry_Info n w of
              (Inl e, w1) \<Rightarrow> ([], w1) | (Inr info, w1) \<Rightarrow> ([file_item ?p name info], w1)))"
    obtain its w1 where h: "here = (its, w1)" by force
    have w1: "reads w w1 \<and> conflict_only its"
    proof (cases "is_dir n")
      case True
      show ?thesis
      proof (cases "ShouldIgnore name")
        case True
        with h \<open>is_dir n\<close> show ?thesis by (simp add: here_def)
      next
        case False
        obtain r v where rd: "os_ReadDir ?p w = (r, v)" by force
        note rv = os_ReadDir_reads [OF rd]
        show ?thesis
        proof (cases r)
          case (Inl x)
          with h True False rd rv show ?thesis by (simp add: here_def)
        next
          case (Inr entries)
          with h True False rd have "conflict_items fuel ?p entries v = (its, w1)" by (simp add: here_def)
          from deeper [OF this] ja os_ReadDir_entries [OF rd [unfolded Inr] Cons.prems(4)] Cons.prems(4) rv
          show ?thesis using reads_trans by (auto simp: reads_def)
        qed
      qed
    next
      case False
      obtain r v where 1: "entry_Info n w = (r, v)" by force
      from h False 1 entry_Info_reads [OF 1] ja show ?thesis
        by (cases r) (auto simp: here_def file_item_def conflict_key_def split: if_splits)
    qed
    obtain rest w2 where 2: "conflict_items (Suc fuel) dir es w1 = (rest, w2)" by force
    have run: "conflict_items (Suc fuel) dir ((name, n) # es) w =
        (case here of (items, w1) \<Rightarrow> (case conflict_items (Suc fuel) dir es w1 of (rest, w2) \<Rightarrow> (items @ rest, w2)))"
      by (simp only: conflict_items.simps Let_def here_def)
    have "w' = w2" "items = its @ rest" using Cons.prems(1) e run h 2 by simp_all
    moreover have "tree_ok (w_fs w1)" using w1 Cons.prems(4) by (simp add: reads_def)
    then have "reads w1 w2 \<and> conflict_only rest" using Cons.IH [OF 2 Cons.prems(2)] Cons.prems(3) by simp
    ultimately show ?case using w1 reads_trans by auto
  qed simp
qed

lemma conflict_collect:
  assumes "conflict_collectItems j w = (r, w')" and dir: "filepath_IsAbs (jn_dir j)"
    and "filepath_Clean (jn_dir j) = jn_dir j" and "tree_ok (w_fs w)"
  shows "reads w w' \<and> (\<forall>items. r = Inr items \<longrightarrow> conflict_only items)"
proof -
  obtain r1 w1 where 1: "os_Stat (jn_dir j) w = (r1, w1)" by force
  note s1 = os_Stat_reads [OF 1]
  show ?thesis
  proof (cases r1)
    case (Inl x)
    with assms(1) 1 s1 show ?thesis by (auto simp: conflict_collectItems_def)
  next
    case root: (Inr root)
    show ?thesis
    proof (cases "is_dir root")
      case False
      obtain r2 w2 where 2: "entry_Info root w1 = (r2, w2)" by force
      note s2 = reads_trans [OF s1 entry_Info_reads [OF 2]]
      define cs where "cs = path_elems (jn_dir j)"
      have cs: "plain_elems cs" "jn_dir j = render_path True cs"
        using dir assms(3) by (simp_all add: cs_def path_elems_abs_plain filepath_Clean_def)
      have key: "conflict_key cs" if "IsConflictPath (filepath_Base (jn_dir j))"
      proof (cases "cs = []")
        case True
        with that cs show ?thesis by (simp add: render_path_def) code_simp
      next
        case False
        with that cs Base_render [OF cs(1) False, of True] show ?thesis by (simp add: conflict_key_def)
      qed
      from assms(1) 1 2 root False s1 s2 key show ?thesis
        by (cases r2) (auto simp: conflict_collectItems_def file_item_def cs_def split: if_splits)
    next
      case True
      obtain r2 w2 where 2: "os_ReadDir (jn_dir j) w1 = (r2, w2)" by force
      note s2 = reads_trans [OF s1 os_ReadDir_reads [OF 2]]
      show ?thesis
      proof (cases r2)
        case (Inl x)
        with assms(1) 1 2 root True s2 show ?thesis by (auto simp: conflict_collectItems_def)
      next
        case (Inr entries)
        obtain items w3 where 3: "conflict_items (tree_depth (w_fs w2) + 1) (jn_dir j) entries w2 = (items, w3)" by force
        have t: "tree_ok (w_fs w1)" "tree_ok (w_fs w2)" using s1 s2 assms(4) by (simp_all add: reads_def)
        note step = conflict_items_step [OF 3 dir os_ReadDir_entries [OF 2 [unfolded Inr] t(1)] t(2)]
        have "r = Inr items" "w' = w3" using assms(1) 1 2 3 root True Inr by (simp_all add: conflict_collectItems_def)
        with step reads_trans [OF s2] show ?thesis by auto
      qed
    qed
  qed
qed

lemma dir_items_step:
  assumes run: "dir_items dir collect w = (r, w')"
    and collect: "\<And>es v items v'. collect es v = (items, v') \<Longrightarrow>
      fs_step {} v v' \<and> (\<forall>i\<in>set items. \<exists>name. name \<in> fst ` set es \<and> P name \<and> ci_path i = filepath_Join [dir, name])"
  shows "fs_step {} w w'"
    and "filepath_IsAbs dir \<Longrightarrow> tree_ok (w_fs w) \<Longrightarrow> r = Inr items \<Longrightarrow> i \<in> set items \<Longrightarrow>
      \<exists>name. P name \<and> path_elems (ci_path i) = path_elems dir @ [name]"
proof -
  obtain r1 w1 where 1: "os_ReadDir dir w = (r1, w1)" by force
  note s1 = os_ReadDir_step [OF 1]
  have "fs_step {} w w' \<and> (r = Inr items \<longrightarrow> i \<in> set items \<longrightarrow> filepath_IsAbs dir \<longrightarrow> tree_ok (w_fs w) \<longrightarrow>
      (\<exists>name. P name \<and> path_elems (ci_path i) = path_elems dir @ [name]))"
  proof (cases r1)
    case (Inl x)
    with run 1 s1 show ?thesis by (auto simp: dir_items_def split: if_splits)
  next
    case (Inr es)
    obtain its w2 where 2: "collect es w1 = (its, w2)" by force
    note step = collect [OF 2]
    have r: "r = Inr its" "w' = w2" using run 1 2 Inr by (simp_all add: dir_items_def)
    have "\<exists>name. P name \<and> path_elems (ci_path i) = path_elems dir @ [name]"
      if "i \<in> set its" "filepath_IsAbs dir" "tree_ok (w_fs w)"
    proof -
      from step that(1) obtain name where n: "name \<in> fst ` set es" "P name" "ci_path i = filepath_Join [dir, name]" by blast
      then have "plain_elem name" using os_ReadDir_entries [OF 1 [unfolded Inr] that(3)] by auto
      from path_elems_Join_abs [OF that(2) this] n show ?thesis by auto
    qed
    with r step fs_step_then [OF s1] show ?thesis by auto
  qed
  then show "fs_step {} w w'" and "filepath_IsAbs dir \<Longrightarrow> tree_ok (w_fs w) \<Longrightarrow> r = Inr items \<Longrightarrow> i \<in> set items \<Longrightarrow>
      \<exists>name. P name \<and> path_elems (ci_path i) = path_elems dir @ [name]" by auto
qed

lemma log_collect:
  assumes "dir_items dir (log_items dir patterns) w = (r, w')"
  shows "fs_step {} w w'"
    and "filepath_IsAbs dir \<Longrightarrow> tree_ok (w_fs w) \<Longrightarrow> r = Inr items \<Longrightarrow> i \<in> set items \<Longrightarrow>
      \<exists>name. matchesLogPattern name patterns \<and> path_elems (ci_path i) = path_elems dir @ [name]"
proof -
  note step = dir_items_step [where P = "\<lambda>name. matchesLogPattern name patterns", OF assms log_items_step]
  show "fs_step {} w w'" by (rule step)
  show "filepath_IsAbs dir \<Longrightarrow> tree_ok (w_fs w) \<Longrightarrow> r = Inr items \<Longrightarrow> i \<in> set items \<Longrightarrow>
      \<exists>name. matchesLogPattern name patterns \<and> path_elems (ci_path i) = path_elems dir @ [name]" by (rule step)
qed

lemma artifact_collect:
  assumes "dir_items dir (artifact_items dir pres) w = (r, w')"
  shows "fs_step {} w w'"
    and "filepath_IsAbs dir \<Longrightarrow> tree_ok (w_fs w) \<Longrightarrow> r = Inr items \<Longrightarrow> i \<in> set items \<Longrightarrow>
      \<exists>name. hasArtifactPrefix name pres \<and> path_elems (ci_path i) = path_elems dir @ [name]"
proof -
  note step = dir_items_step [where P = "\<lambda>name. hasArtifactPrefix name pres", OF assms artifact_items_step]
  show "fs_step {} w w'" by (rule step)
  show "filepath_IsAbs dir \<Longrightarrow> tree_ok (w_fs w) \<Longrightarrow> r = Inr items \<Longrightarrow> i \<in> set items \<Longrightarrow>
      \<exists>name. hasArtifactPrefix name pres \<and> path_elems (ci_path i) = path_elems dir @ [name]" by (rule step)
qed

lemma tree_get_filter:
  assumes "\<not> prefix q k"
  shows "tree_get (filter (\<lambda>(p, n). \<not> prefix q p) t) k = tree_get t k"
proof -
  have "map_of (filter (\<lambda>(p, n). \<not> prefix q p) t) k = map_of t k"
    using assms by (induction t) auto
  then show ?thesis by (simp add: tree_get_def)
qed

lemma os_RemoveAll_step: "os_RemoveAll p w = (r, w') \<Longrightarrow> fs_step {k. prefix (path_elems p) k} w w'"
  unfolding os_RemoveAll_def
  by (erule with_fault_fs_step)
    (auto simp: Let_def fs_step_def tree_get_filter split: sum.splits errno.splits if_splits)

section \<open>The three janitors\<close>

definition conflict_files :: "janitor \<Rightarrow> string list set" where
  "conflict_files j = {k. conflict_key k}"

definition log_files :: "janitor \<Rightarrow> string list set" where
  "log_files j = {k. \<exists>name. matchesLogPattern name (jn_patterns j) \<and> k = path_elems (jn_dir j) @ [name]}"

definition artifact_files :: "janitor \<Rightarrow> string list set" where
  "artifact_files j = {k. \<exists>name. hasArtifactPrefix name (jn_patterns j) \<and> prefix (path_elems (jn_dir j) @ [name]) k}"

interpretation conflicts: janitor_files conflict_collectItems os_Remove conflict_files
proof
  fix j w r w'
  assume j: "filepath_IsAbs (jn_dir j)" "filepath_Clean (jn_dir j) = jn_dir j" "tree_ok (w_fs w)"
    and run: "conflict_collectItems j w = (r, w')"
  from conflict_collect [OF run j] show "fs_step {} w w'" by (simp add: reads_def)
next
  fix j w items w' i v q v'
  assume j: "filepath_IsAbs (jn_dir j)" "filepath_Clean (jn_dir j) = jn_dir j" "tree_ok (w_fs w)"
    and run: "conflict_collectItems j w = (Inr items, w')" and i: "i \<in> set items"
    and rm: "os_Remove (ci_path i) v = (q, v')"
  from conflict_collect [OF run j] i have "conflict_key (path_elems (ci_path i))" by blast
  with os_Remove_step [OF rm] show "fs_step (conflict_files j) v v'"
    by (auto simp: conflict_files_def intro: fs_step_mono)
qed

interpretation logs: janitor_files log_collectItems os_Remove log_files
proof
  fix j w r w'
  assume "log_collectItems j w = (r, w')"
  then show "fs_step {} w w'" unfolding log_collectItems_def by (rule log_collect)
next
  fix j w items w' i v q v'
  assume j: "filepath_IsAbs (jn_dir j)" "tree_ok (w_fs w)"
    and run: "log_collectItems j w = (Inr items, w')" and i: "i \<in> set items"
    and rm: "os_Remove (ci_path i) v = (q, v')"
  from log_collect(2) [OF run [unfolded log_collectItems_def] j refl i]
  have "path_elems (ci_path i) \<in> log_files j" by (auto simp: log_files_def)
  with os_Remove_step [OF rm] show "fs_step (log_files j) v v'" by (auto intro: fs_step_mono)
qed

interpretation artifacts: janitor_files artifact_collectItems os_RemoveAll artifact_files
proof
  fix j w r w'
  assume "artifact_collectItems j w = (r, w')"
  then show "fs_step {} w w'" unfolding artifact_collectItems_def by (rule artifact_collect)
next
  fix j w items w' i v q v'
  assume j: "filepath_IsAbs (jn_dir j)" "tree_ok (w_fs w)"
    and run: "artifact_collectItems j w = (Inr items, w')" and i: "i \<in> set items"
    and rm: "os_RemoveAll (ci_path i) v = (q, v')"
  from artifact_collect(2) [OF run [unfolded artifact_collectItems_def] j refl i]
  have "{k. prefix (path_elems (ci_path i)) k} \<subseteq> artifact_files j" by (auto simp: artifact_files_def)
  with os_RemoveAll_step [OF rm] show "fs_step (artifact_files j) v v'" by (rule fs_step_mono)
qed

section \<open>A sample janitor\<close>

definition janitor_world :: world where
  "janitor_world = quiet_world [([''srv''], Directory 0), ([''srv'', ''a.txt''], File [104] 0),
     ([''srv'', ''a.txt.roodox-conflict-1''], File [1] 0)] empty_db"

definition sample_janitor :: janitor where
  "sample_janitor = \<lparr>jn_dir = ''/srv'', jn_retention = 5, jn_maxBytes = 0, jn_patterns = [''*.log''],
     jn_runner = NewRunner 0\<rparr>"

lemma janitor_world_ok:
  "filepath_IsAbs (jn_dir sample_janitor)" "filepath_Clean (jn_dir sample_janitor) = jn_dir sample_janitor"
  "tree_ok (w_fs janitor_world)"
proof -
  have "filepath_IsAbs ''/srv''" "filepath_Clean ''/srv'' = ''/srv''" by code_simp+
  then show "filepath_IsAbs (jn_dir sample_janitor)" "filepath_Clean (jn_dir sample_janitor) = jn_dir sample_janitor"
    by (simp_all add: sample_janitor_def)
  show "tree_ok (w_fs janitor_world)"
    by (simp add: tree_ok_def janitor_world_def quiet_world_def plain_elem_def)
qed

lemma sample_janitor_removes:
  "tree_get (w_fs (snd (conflict_cleanup sample_janitor 100 janitor_world))) [''srv'', ''a.txt.roodox-conflict-1''] = None"
  by code_simp

section \<open>Properties\<close>

text \<open>
  Claim C24. A janitor touches only its own files, whatever fails: a run of the conflict janitor
  changes nothing at paths whose last element is no conflict name, a run of the log janitor
  nothing but the entries of its directory that match a pattern, a run of the artifact janitor
  nothing but what lies under the prefixed entries of its directory. None of them touches the
  tables, and live files of the share are never removed.
\<close>

theorem janitors_touch_only_their_files:
  assumes "filepath_IsAbs (jn_dir j)" and "filepath_Clean (jn_dir j) = jn_dir j" and "tree_ok (w_fs w)"
  shows "fs_step {k. k \<noteq> [] \<and> IsConflictPath (last k)} w (snd (conflict_cleanup j now w))
    \<and> fs_step {k. \<exists>name. matchesLogPattern name (jn_patterns j) \<and> k = path_elems (jn_dir j) @ [name]}
        w (snd (log_cleanup j now w))
    \<and> fs_step {k. \<exists>name. hasArtifactPrefix name (jn_patterns j) \<and> prefix (path_elems (jn_dir j) @ [name]) k}
        w (snd (artifact_cleanup j now w))"
  using conflicts.cleanup_touches [OF assms, of now] logs.cleanup_touches [OF assms, of now]
    artifacts.cleanup_touches [OF assms, of now]
  by (simp add: conflict_cleanup_def log_cleanup_def artifact_cleanup_def conflict_files_def
      conflict_key_def log_files_def artifact_files_def)

theorem janitors_touch_only_their_files_witness:
  "tree_get (w_fs (snd (conflict_cleanup sample_janitor 100 janitor_world))) [''srv'', ''a.txt''] = Some (File [104] 0)
    \<and> tree_get (w_fs (snd (conflict_cleanup sample_janitor 100 janitor_world))) [''srv'', ''a.txt.roodox-conflict-1''] = None"
proof -
  have "\<not> IsConflictPath ''a.txt''" by code_simp
  with fs_step_get [OF conjunct1 [OF janitors_touch_only_their_files [OF janitor_world_ok, of 100]], of "[''srv'', ''a.txt'']"]
  have "tree_get (w_fs (snd (conflict_cleanup sample_janitor 100 janitor_world))) [''srv'', ''a.txt'']
      = tree_get (w_fs janitor_world) [''srv'', ''a.txt'']" by simp
  then show ?thesis using sample_janitor_removes by (simp add: janitor_world_def quiet_world_def tree_get_def)
qed

end
