(* ===== verification/DbMaintenance.thy ===== *)
theory DbMaintenance
  imports Janitors
begin

text \<open>
  \<open>internal/serverapp/database_maintenance.go\<close>, and of \<open>internal/db/db.go\<close> the operations it
  calls: WAL checkpoints and backups, now and then or on request.

  What SQLite does for \<open>PRAGMA wal_checkpoint\<close> and \<open>VACUUM INTO\<close> is a parameter, the record
  \<open>sqlite\<close>, and so are the two formats of the time in a backup's name. The path of the database
  and the backup directory hold no metacharacters of \<open>filepath.Glob\<close>, and the times of the
  backups that \<open>cleanupOldBackups\<close> sorts can be read.
\<close>

section \<open>The database handle\<close>

record sqlite =
  sq_path :: string
  sq_wal_checkpoint :: "string \<Rightarrow> (int \<times> int \<times> int) io"
  sq_vacuum_into :: "string \<Rightarrow> unit io"
  sq_stamp :: "gotime \<Rightarrow> string"
  sq_stamp_nano :: "gotime \<Rightarrow> string"

definition normalizeCheckpointMode :: "string \<Rightarrow> string" where
  "normalizeCheckpointMode mode =
    (let m = strings_ToLower (strings_TrimSpace mode) in
     if m \<in> set [''full'', ''restart'', ''truncate''] then m else ''passive'')"

record CheckpointResult =
  ck_Mode :: string
  ck_BusyReaders :: int
  ck_LogFrames :: int
  ck_CheckpointedFrames :: int
  ck_CompletedAtUnix :: int

text \<open>The time is taken before the result of the pragma is read.\<close>

definition DB_Checkpoint :: "sqlite \<Rightarrow> string \<Rightarrow> CheckpointResult io" where
  "DB_Checkpoint D mode0 w =
    (let mode = normalizeCheckpointMode mode0 in
     case sq_wal_checkpoint D (strings_ToUpper mode) w of
       (r, w1) \<Rightarrow>
       (case time_Now w1 of
          (now, w2) \<Rightarrow>
          (case r of
             Inl e \<Rightarrow> (Inl e, w2)
           | Inr (busy, frames, done) \<Rightarrow>
             (Inr \<lparr>ck_Mode = mode, ck_BusyReaders = busy, ck_LogFrames = frames, ck_CheckpointedFrames = done,
                ck_CompletedAtUnix = time_Unix now\<rparr>, w2))))"

definition DB_BackupInto :: "sqlite \<Rightarrow> string \<Rightarrow> unit io" where
  "DB_BackupInto D destPath w =
    (if strings_TrimSpace destPath = [] then (Inl (ErrorText ''backup destination path is empty''), w)
     else
       (case os_MkdirAll (filepath_Dir destPath) w of
          (Inl e, w1) \<Rightarrow> (Inl e, w1)
        | (Inr _, w1) \<Rightarrow>
          (case os_Stat destPath w1 of
             (Inr info, w2) \<Rightarrow> (Inl (ErrorText (''backup destination already exists: '' @ destPath)), w2)
           | (Inl e, w2) \<Rightarrow>
             if \<not> errors_Is e ErrNotExist then (Inl e, w2) else sq_vacuum_into D destPath w2)))"

section \<open>The manager\<close>

record MaintenanceConfig =
  mc_CheckpointInterval :: duration
  mc_CheckpointMode :: string
  mc_BackupDir :: string
  mc_BackupInterval :: duration
  mc_BackupKeepLatest :: int

record DatabaseCheckpointSnapshot =
  cs_Mode :: string
  cs_LastCheckpointAtUnix :: int
  cs_BusyReaders :: int
  cs_LogFrames :: int
  cs_CheckpointedFrames :: int
  cs_LastError :: string

record DatabaseBackupSnapshot =
  bs_Dir :: string
  bs_IntervalSeconds :: int
  bs_KeepLatest :: int
  bs_LastBackupAtUnix :: int
  bs_LastBackupPath :: string
  bs_LastError :: string

record maintenance =
  mm_database :: sqlite
  mm_cfg :: MaintenanceConfig
  mm_checkpoint :: DatabaseCheckpointSnapshot
  mm_backup :: DatabaseBackupSnapshot
  mm_runner :: "runner option"

definition newDatabaseMaintenanceManager :: "sqlite \<Rightarrow> MaintenanceConfig \<Rightarrow> maintenance" where
  "newDatabaseMaintenanceManager D cfg0 =
    (let mode = strings_ToLower (strings_TrimSpace (mc_CheckpointMode cfg0));
         cfg = cfg0\<lparr>mc_CheckpointMode := (if mode = [] then ''truncate'' else mode),
           mc_BackupKeepLatest := max 0 (mc_BackupKeepLatest cfg0)\<rparr> in
     \<lparr>mm_database = D, mm_cfg = cfg,
      mm_checkpoint = \<lparr>cs_Mode = mc_CheckpointMode cfg, cs_LastCheckpointAtUnix = 0, cs_BusyReaders = 0,
        cs_LogFrames = 0, cs_CheckpointedFrames = 0, cs_LastError = []\<rparr>,
      mm_backup = \<lparr>bs_Dir = mc_BackupDir cfg, bs_IntervalSeconds = mc_BackupInterval cfg div second,
        bs_KeepLatest = mc_BackupKeepLatest cfg mod 2 ^ 32, bs_LastBackupAtUnix = 0, bs_LastBackupPath = [],
        bs_LastError = []\<rparr>,
      mm_runner =
        (if mc_CheckpointInterval cfg > 0 \<or> (mc_BackupInterval cfg > 0 \<and> strings_TrimSpace (mc_BackupDir cfg) \<noteq> [])
         then Some (NewRunner 0) else None)\<rparr>)"

definition checkpointNow :: "maintenance \<Rightarrow> world \<Rightarrow> goerr option \<times> maintenance \<times> world" where
  "checkpointNow m w =
    (case DB_Checkpoint (mm_database m) (mc_CheckpointMode (mm_cfg m)) w of
       (r, w1) \<Rightarrow>
       (let c = (mm_checkpoint m)\<lparr>cs_Mode := mc_CheckpointMode (mm_cfg m)\<rparr> in
        case r of
          Inl e \<Rightarrow> (Some e, m\<lparr>mm_checkpoint := c\<lparr>cs_LastError := err_Error e\<rparr>\<rparr>, w1)
        | Inr result \<Rightarrow>
          (None, m\<lparr>mm_checkpoint := c\<lparr>cs_LastCheckpointAtUnix := ck_CompletedAtUnix result,
             cs_BusyReaders := ck_BusyReaders result, cs_LogFrames := ck_LogFrames result,
             cs_CheckpointedFrames := ck_CheckpointedFrames result, cs_LastError := []\<rparr>\<rparr>, w1)))"

definition backup_base :: "sqlite \<Rightarrow> string" where
  "backup_base D = (let b = filepath_Base (sq_path D); ext = filepath_Ext (sq_path D) in
     if strings_HasSuffix b ext then take (length b - length ext) b else b)"

definition nextBackupPath :: "maintenance \<Rightarrow> (string \<times> gotime) io" where
  "nextBackupPath m w =
    (let dir = strings_TrimSpace (mc_BackupDir (mm_cfg m)); D = mm_database m in
     if dir = [] then (Inl (ErrorText ''database backup_dir is not configured''), w)
     else
       (case os_MkdirAll dir w of
          (Inl e, w1) \<Rightarrow> (Inl e, w1)
        | (Inr _, w1) \<Rightarrow>
          (case time_Now w1 of
             (now, w2) \<Rightarrow>
             (let base = (if backup_base D = [] then ''roodox'' else backup_base D);
                  path = filepath_Join [dir, base @ ''-backup-'' @ sq_stamp D now @ ''.db''] in
              case os_Stat path w2 of
                (Inr info, w3) \<Rightarrow>
                  (Inr (filepath_Join [dir, base @ ''-backup-'' @ sq_stamp_nano D now @ ''.db''], now), w3)
              | (Inl e, w3) \<Rightarrow> if \<not> errors_Is e ErrNotExist then (Inl e, w3) else (Inr (path, now), w3)))))"

definition newest_backups :: "world \<Rightarrow> string list \<Rightarrow> string list" where
  "newest_backups w = sort_key (\<lambda>p. Desc (path_mtime w p, p))"

fun remove_backups :: "string list \<Rightarrow> unit io" where
  "remove_backups [] w = (Inr (), w)"
| "remove_backups (p # ps) w =
    (case os_Remove p w of
       (Inr _, w1) \<Rightarrow> remove_backups ps w1
     | (Inl e, w1) \<Rightarrow> if \<not> errors_Is e ErrNotExist then (Inl e, w1) else remove_backups ps w1)"

definition cleanupOldBackups :: "maintenance \<Rightarrow> unit io" where
  "cleanupOldBackups m w =
    (let keep = mc_BackupKeepLatest (mm_cfg m); dir = mc_BackupDir (mm_cfg m) in
     if keep \<le> 0 \<or> strings_TrimSpace dir = [] then (Inr (), w)
     else
       (let pattern = filepath_Join [dir, backup_base (mm_database m) @ ''-backup-*.db''] in
        case filepath_Glob (filepath_Dir pattern) (filepath_Base pattern) w of
          (matches, w1) \<Rightarrow>
          if int (length matches) \<le> keep then (Inr (), w1)
          else remove_backups (drop (nat keep) (newest_backups w1 matches)) w1))"

definition setBackupError :: "goerr \<Rightarrow> maintenance \<Rightarrow> maintenance" where
  "setBackupError e m = m\<lparr>mm_backup := (mm_backup m)\<lparr>bs_LastError := err_Error e\<rparr>\<rparr>"

definition backupNow :: "maintenance \<Rightarrow> world \<Rightarrow> goerr option \<times> maintenance \<times> world" where
  "backupNow m w =
    (case nextBackupPath m w of
       (Inl e, w1) \<Rightarrow> (Some e, setBackupError e m, w1)
     | (Inr (backupPath, createdAt), w1) \<Rightarrow>
       (case DB_BackupInto (mm_database m) backupPath w1 of
          (Inl e, w2) \<Rightarrow> (Some e, setBackupError e m, w2)
        | (Inr _, w2) \<Rightarrow>
          (case cleanupOldBackups m w2 of
             (Inl e, w3) \<Rightarrow> (Some e, setBackupError e m, w3)
           | (Inr _, w3) \<Rightarrow>
             (None, m\<lparr>mm_backup := (mm_backup m)\<lparr>bs_LastBackupAtUnix := time_Unix createdAt,
                bs_LastBackupPath := backupPath, bs_LastError := []\<rparr>\<rparr>, w3))))"

definition BackupNow :: "maintenance \<Rightarrow> world \<Rightarrow> DatabaseBackupSnapshot result \<times> maintenance \<times> world" where
  "BackupNow m w =
    (if strings_TrimSpace (mc_BackupDir (mm_cfg m)) = []
     then (Inl (ErrorText ''database backup_dir is not configured''), m, w)
     else
       (case checkpointNow m w of
          (_, m1, w1) \<Rightarrow>
          (case backupNow m1 w1 of
             (Some e, m2, w2) \<Rightarrow> (Inl e, m2, w2)
           | (None, m2, w2) \<Rightarrow> (Inr (mm_backup m2), m2, w2))))"

definition next_due :: "gotime \<Rightarrow> duration \<Rightarrow> int \<Rightarrow> gotime \<times> bool" where
  "next_due now interval lastUnix =
    (if lastUnix = 0 then (now + interval, False)
     else (let due = lastUnix * second + interval in (due, \<not> now < due)))"

definition nextCheckpointDue :: "gotime \<Rightarrow> maintenance \<Rightarrow> gotime \<times> bool" where
  "nextCheckpointDue now m =
    (if mc_CheckpointInterval (mm_cfg m) \<le> 0 then (zero_time, False)
     else next_due now (mc_CheckpointInterval (mm_cfg m)) (cs_LastCheckpointAtUnix (mm_checkpoint m)))"

definition nextBackupDue :: "gotime \<Rightarrow> maintenance \<Rightarrow> gotime \<times> bool" where
  "nextBackupDue now m =
    (if mc_BackupInterval (mm_cfg m) \<le> 0 \<or> strings_TrimSpace (mc_BackupDir (mm_cfg m)) = [] then (zero_time, False)
     else next_due now (mc_BackupInterval (mm_cfg m)) (bs_LastBackupAtUnix (mm_backup m)))"

definition earliestTime :: "gotime \<Rightarrow> gotime \<Rightarrow> gotime" where
  "earliestTime current candidate =
    (if time_IsZero candidate then current
     else if time_IsZero current \<or> candidate < current then candidate else current)"

text \<open>The function of the runner: the time of its next run.\<close>

definition maintenance_run :: "gotime \<Rightarrow> maintenance \<Rightarrow> world \<Rightarrow> gotime \<times> maintenance \<times> world" where
  "maintenance_run now m w =
    (case nextCheckpointDue now m of
       (due1, run1) \<Rightarrow>
       (case (if time_IsZero due1 then (zero_time, m, w)
              else if run1 then
                (case checkpointNow m w of (_, m1, w1) \<Rightarrow>
                  (earliestTime zero_time (now + mc_CheckpointInterval (mm_cfg m)), m1, w1))
              else (earliestTime zero_time due1, m, w)) of
          (nextDue1, m1, w1) \<Rightarrow>
          (case nextBackupDue now m1 of
             (due2, run2) \<Rightarrow>
             if time_IsZero due2 then (nextDue1, m1, w1)
             else if run2 then
               (case backupNow m1 w1 of (_, m2, w2) \<Rightarrow>
                 (earliestTime nextDue1 (now + mc_BackupInterval (mm_cfg m)), m2, w2))
             else (earliestTime nextDue1 due2, m1, w1))))"

section \<open>Laws\<close>

text \<open>
  Runs of the manager alone never start the maintenance: with no checkpoint and no backup done
  yet, a run only asks to be run again later.
\<close>

fun maintenance_runs :: "gotime list \<Rightarrow> maintenance \<Rightarrow> world \<Rightarrow> maintenance \<times> world" where
  "maintenance_runs [] m w = (m, w)"
| "maintenance_runs (now # ts) m w = (case maintenance_run now m w of (_, m1, w1) \<Rightarrow> maintenance_runs ts m1 w1)"

lemma maintenance_run_idle:
  assumes "cs_LastCheckpointAtUnix (mm_checkpoint m) = 0" and "bs_LastBackupAtUnix (mm_backup m) = 0"
  shows "snd (maintenance_run now m w) = (m, w)"
  using assms by (simp add: maintenance_run_def nextCheckpointDue_def nextBackupDue_def next_due_def)

theorem maintenance_never_starts_by_itself:
  "maintenance_runs ts (newDatabaseMaintenanceManager D cfg) w = (newDatabaseMaintenanceManager D cfg, w)"
proof (induction ts)
  case (Cons now ts)
  have "snd (maintenance_run now (newDatabaseMaintenanceManager D cfg) w) = (newDatabaseMaintenanceManager D cfg, w)"
    by (rule maintenance_run_idle) (simp_all add: newDatabaseMaintenanceManager_def Let_def)
  with Cons show ?case by (cases "maintenance_run now (newDatabaseMaintenanceManager D cfg) w") simp
qed simp

end
