(* ===== verification/Interceptors.thy ===== *)
theory Interceptors
  imports Observability Mutations
begin

text \<open>
  The interceptors every call passes: \<open>internal/server/logging.go\<close>, which gives the call a
  request id and measures it, and of \<open>internal/server/security.go\<close> the check of the shared secret.

  A handler is a function of the call's context on the state of the process: the world and the
  recorder of the metrics, which may be absent. Streams are handlers without a response. The log
  lines are left out; the format of the time in a request id is a parameter.
\<close>

section \<open>Contexts and handlers\<close>

type_synonym metadata = "(string \<times> string list) list"

record rpc_context =
  cx_Metadata :: "metadata option"
  cx_RequestID :: string
  cx_Method :: string

type_synonym rpc_state = "world \<times> Recorder option"
type_synonym 'a handler = "rpc_context \<Rightarrow> rpc_state \<Rightarrow> (status + 'a) \<times> rpc_state"

text \<open>An interceptor knows the full name of the method it is called for.\<close>

type_synonym 'a interceptor = "string \<Rightarrow> 'a handler \<Rightarrow> 'a handler"

text \<open>\<open>MD.Get\<close>: the keys of incoming metadata are in lower case.\<close>

definition md_Get :: "metadata \<Rightarrow> string \<Rightarrow> string list" where
  "md_Get md k = (case map_of md (strings_ToLower k) of None \<Rightarrow> [] | Some vs \<Rightarrow> vs)"

section \<open>internal/server/logging.go\<close>

abbreviation requestIDHeader :: string where "requestIDHeader \<equiv> ''x-request-id''"

definition requestIDFromMetadata :: "rpc_context \<Rightarrow> string" where
  "requestIDFromMetadata ctx =
    (case cx_Metadata ctx of
       None \<Rightarrow> []
     | Some md \<Rightarrow> (case md_Get md requestIDHeader of [] \<Rightarrow> [] | v # vs \<Rightarrow> v))"

definition newRequestID :: "(gotime \<Rightarrow> string) \<Rightarrow> world \<Rightarrow> string \<times> world" where
  "newRequestID fmt w =
    (case rand_Read w of
       (None, w1) \<Rightarrow> (case time_Now w1 of (now, w2) \<Rightarrow> (fmt now, w2))
     | (Some buf, w1) \<Rightarrow> (hex_EncodeToString buf, w1))"

definition injectRequestContext :: "(gotime \<Rightarrow> string) \<Rightarrow> string \<Rightarrow> rpc_context \<Rightarrow> world \<Rightarrow> rpc_context \<times> world" where
  "injectRequestContext fmt meth ctx w =
    (case (if requestIDFromMetadata ctx = [] then newRequestID fmt w else (requestIDFromMetadata ctx, w)) of
       (requestID, w1) \<Rightarrow> (ctx\<lparr>cx_RequestID := requestID, cx_Method := meth\<rparr>, w1))"

fun is_ok :: "status + 'a \<Rightarrow> bool" where
  "is_ok (Inl e) = False"
| "is_ok (Inr x) = True"

text \<open>\<open>metrics\<close> tells whether the process records metrics; the recorder is part of the state.\<close>

definition loggingUnaryInterceptor :: "(gotime \<Rightarrow> string) \<Rightarrow> 'a interceptor" where
  "loggingUnaryInterceptor fmt meth handler ctx0 st =
    (case st of (w, rec0) \<Rightarrow>
     (case injectRequestContext fmt meth ctx0 w of
        (ctx, w1) \<Rightarrow>
        (case time_Now w1 of
           (start, w2) \<Rightarrow>
           (case handler ctx (w2, rec0) of
              (resp, (w3, rec1)) \<Rightarrow>
              (case time_Now w3 of
                 (end_time, w4) \<Rightarrow>
                   (resp, (w4, map_option (RecordRPC meth (is_ok resp) (time_Sub end_time start)) rec1)))))))"

definition loggingStreamInterceptor :: "(gotime \<Rightarrow> string) \<Rightarrow> unit interceptor" where
  "loggingStreamInterceptor fmt meth handler ctx0 st =
    (case st of (w, rec0) \<Rightarrow>
     (case injectRequestContext fmt meth ctx0 w of
        (ctx, w1) \<Rightarrow>
        (case time_Now w1 of
           (start, w2) \<Rightarrow>
           (case handler ctx (w2, rec0) of
              (resp, (w3, rec1)) \<Rightarrow>
              (case time_Now w3 of
                 (end_time, w4) \<Rightarrow>
                   (resp, (w4, map_option (RecordRPC meth (is_ok resp) (time_Sub end_time start)) rec1)))))))"

section \<open>The shared secret\<close>

abbreviation sharedSecretHeader :: string where "sharedSecretHeader \<equiv> ''x-roodox-secret''"

definition validateSharedSecret :: "rpc_context \<Rightarrow> string \<Rightarrow> status option" where
  "validateSharedSecret ctx expected =
    (case cx_Metadata ctx of
       None \<Rightarrow> Some (Status Unauthenticated ''missing metadata'')
     | Some md \<Rightarrow>
       (case md_Get md sharedSecretHeader of
          [] \<Rightarrow> Some (Status Unauthenticated ''missing shared secret'')
        | v # vs \<Rightarrow>
          if v \<noteq> expected then Some (Status Unauthenticated ''invalid shared secret'') else None))"

definition authUnaryInterceptor :: "string \<Rightarrow> 'a interceptor" where
  "authUnaryInterceptor expected meth handler ctx st =
    (case validateSharedSecret ctx expected of Some e \<Rightarrow> (Inl e, st) | None \<Rightarrow> handler ctx st)"

definition authStreamInterceptor :: "string \<Rightarrow> unit interceptor" where
  "authStreamInterceptor expected meth handler ctx st =
    (case validateSharedSecret ctx expected of Some e \<Rightarrow> (Inl e, st) | None \<Rightarrow> handler ctx st)"

text \<open>\<open>grpc.ChainUnaryInterceptor\<close>: the first interceptor is the outermost.\<close>

definition chain :: "'a interceptor list \<Rightarrow> 'a interceptor" where
  "chain interceptors meth handler = foldr (\<lambda>i h. i meth h) interceptors handler"

section \<open>BuildGRPCServerOptions\<close>

record SecurityConfig =
  sc_AuthEnabled :: bool
  sc_SharedSecret :: string
  sc_TLSEnabled :: bool
  sc_TLSCertPath :: string
  sc_TLSKeyPath :: string

text \<open>The options: the chains of both kinds of calls, and the credentials when TLS is on.\<close>

record ('a, 'c) server_options =
  so_unary :: "'a interceptor list"
  so_stream :: "unit interceptor list"
  so_creds :: "'c option"

text \<open>\<open>load\<close> is \<open>loadServerTLSCredentials\<close>.\<close>

definition BuildGRPCServerOptions :: "(gotime \<Rightarrow> string) \<Rightarrow> (string \<Rightarrow> string \<Rightarrow> 'c io) \<Rightarrow> SecurityConfig
    \<Rightarrow> ('a, 'c) server_options io" where
  "BuildGRPCServerOptions fmt load cfg w =
    (let secret = strings_TrimSpace (sc_SharedSecret cfg) in
     if sc_AuthEnabled cfg \<and> secret = []
     then (Inl (ErrorText ''auth is enabled but shared_secret is empty''), w)
     else
       (let unary = loggingUnaryInterceptor fmt # (if sc_AuthEnabled cfg then [authUnaryInterceptor secret] else []);
            stream = loggingStreamInterceptor fmt # (if sc_AuthEnabled cfg then [authStreamInterceptor secret] else []) in
        if sc_TLSEnabled cfg then
          (case load (sc_TLSCertPath cfg) (sc_TLSKeyPath cfg) w of
             (Inl e, w1) \<Rightarrow> (Inl e, w1)
           | (Inr creds, w1) \<Rightarrow> (Inr \<lparr>so_unary = unary, so_stream = stream, so_creds = Some creds\<rparr>, w1))
        else (Inr \<lparr>so_unary = unary, so_stream = stream, so_creds = None\<rparr>, w)))"

section \<open>Laws\<close>

text \<open>The call shows the secret: the first value of the header is it.\<close>

definition shows_secret :: "rpc_context \<Rightarrow> string \<Rightarrow> bool" where
  "shows_secret ctx secret \<longleftrightarrow>
    (\<exists>md vs. cx_Metadata ctx = Some md \<and> map_of md sharedSecretHeader = Some (secret # vs))"

lemma header_lower: "strings_ToLower sharedSecretHeader = sharedSecretHeader"
  by code_simp

lemma validate_iff: "validateSharedSecret ctx secret = None \<longleftrightarrow> shows_secret ctx secret"
  by (auto simp: validateSharedSecret_def shows_secret_def md_Get_def header_lower
      split: option.splits list.splits)

lemma validate_code: "validateSharedSecret ctx secret = Some e \<Longrightarrow> status_code e = Unauthenticated"
  by (auto simp: validateSharedSecret_def split: option.splits list.splits if_splits)

lemma inject_metadata:
  "injectRequestContext fmt meth ctx w = (ctx', w') \<Longrightarrow> cx_Metadata ctx' = cx_Metadata ctx \<and> cx_Method ctx' = meth
    \<and> (requestIDFromMetadata ctx \<noteq> [] \<longrightarrow> cx_RequestID ctx' = requestIDFromMetadata ctx \<and> w' = w)"
  by (auto simp: injectRequestContext_def split: prod.splits if_splits)

text \<open>
  What a chain promises: a call that shows the secret runs the handler exactly once, with its own
  metadata and the name of its method, and gets its answer; any other call gets \<open>Unauthenticated\<close> and
  leaves tree and tables alone. Both are recorded with their outcome.
\<close>

definition same_data :: "world \<Rightarrow> world \<Rightarrow> bool" where
  "same_data v w \<longleftrightarrow> w_fs v = w_fs w \<and> w_db v = w_db w"

definition guarded :: "string \<Rightarrow> 'a interceptor \<Rightarrow> bool" where
  "guarded secret i \<longleftrightarrow> (\<forall>meth handler ctx v r. \<exists>ctx1 v1 d w2.
    cx_Metadata ctx1 = cx_Metadata ctx \<and> cx_Method ctx1 = meth \<and> same_data v1 v \<and>
    (if shows_secret ctx secret
     then case handler ctx1 (v1, r) of (resp, (v2, r2)) \<Rightarrow> same_data w2 v2 \<and>
       i meth handler ctx (v, r) = (resp, (w2, map_option (RecordRPC meth (is_ok resp) d) r2))
     else same_data w2 v \<and> (\<exists>e. status_code e = Unauthenticated \<and>
       i meth handler ctx (v, r) = (Inl e, (w2, map_option (RecordRPC meth False d) r)))))"

lemma same_data_Now: "time_Now w = (t, w') \<Longrightarrow> same_data w' w"
  using time_Now_frame [of w] by (simp add: same_data_def)

lemma same_data_trans: "same_data w w1 \<Longrightarrow> same_data w1 w2 \<Longrightarrow> same_data w w2"
  by (simp add: same_data_def)

lemma same_data_inject: "injectRequestContext fmt meth ctx w = (ctx', w') \<Longrightarrow> same_data w' w"
proof -
  have "same_data w1 w" if "newRequestID fmt w = (i, w1)" for i w1
  proof -
    obtain b u where 1: "rand_Read w = (b, u)" by force
    obtain t v where 2: "time_Now u = (t, v)" by force
    have "same_data u w" using rand_Read_frame [of w] 1 by (simp add: same_data_def)
    with same_data_Now [OF 2] that 1 2 show ?thesis
      by (cases b) (auto simp: newRequestID_def same_data_def)
  qed
  then show "injectRequestContext fmt meth ctx w = (ctx', w') \<Longrightarrow> same_data w' w"
    by (auto simp: injectRequestContext_def same_data_def split: prod.splits if_splits)
qed

lemma shows_secret_inject:
  "injectRequestContext fmt meth ctx w = (ctx', w') \<Longrightarrow> shows_secret ctx' secret = shows_secret ctx secret"
  using inject_metadata by (simp add: shows_secret_def)

lemma guarded_chain: "guarded secret (chain [loggingUnaryInterceptor fmt, authUnaryInterceptor secret])"
  unfolding guarded_def
proof (intro allI)
  fix meth :: string and handler :: "'a handler" and ctx v r
  obtain ctx1 u where 1: "injectRequestContext fmt meth ctx v = (ctx1, u)" by force
  obtain t1 v1 where 2: "time_Now u = (t1, v1)" by force
  note d1 = same_data_trans [OF same_data_Now [OF 2] same_data_inject [OF 1]]
  obtain resp v2 r2 where 3: "authUnaryInterceptor secret meth handler ctx1 (v1, r) = (resp, (v2, r2))"
    by (metis surj_pair)
  obtain t2 w2 where 4: "time_Now v2 = (t2, w2)" by force
  note d2 = same_data_Now [OF 4]
  have run: "chain [loggingUnaryInterceptor fmt, authUnaryInterceptor secret] meth handler ctx (v, r) =
      (resp, (w2, map_option (RecordRPC meth (is_ok resp) (time_Sub t2 t1)) r2))"
    using 1 2 3 4 by (simp add: chain_def loggingUnaryInterceptor_def)
  show "\<exists>ctx1 v1 d w2. cx_Metadata ctx1 = cx_Metadata ctx \<and> cx_Method ctx1 = meth \<and> same_data v1 v \<and>
    (if shows_secret ctx secret
     then case handler ctx1 (v1, r) of (resp, (v2, r2)) \<Rightarrow> same_data w2 v2 \<and>
       chain [loggingUnaryInterceptor fmt, authUnaryInterceptor secret] meth handler ctx (v, r) =
         (resp, (w2, map_option (RecordRPC meth (is_ok resp) d) r2))
     else same_data w2 v \<and> (\<exists>e. status_code e = Unauthenticated \<and>
       chain [loggingUnaryInterceptor fmt, authUnaryInterceptor secret] meth handler ctx (v, r) =
         (Inl e, (w2, map_option (RecordRPC meth False d) r))))"
  proof (cases "shows_secret ctx secret")
    case True
    then have "validateSharedSecret ctx1 secret = None"
      using shows_secret_inject [OF 1] by (simp add: validate_iff)
    with 3 have "handler ctx1 (v1, r) = (resp, (v2, r2))" by (simp add: authUnaryInterceptor_def)
    with True run d1 d2 inject_metadata [OF 1] show ?thesis
      by (intro exI [of _ ctx1] exI [of _ v1] exI [of _ "time_Sub t2 t1"] exI [of _ w2]) simp
  next
    case False
    then obtain e where e: "validateSharedSecret ctx1 secret = Some e"
      using shows_secret_inject [OF 1] validate_iff by (metis option.exhaust)
    with 3 have "resp = Inl e" "v2 = v1" "r2 = r" by (simp_all add: authUnaryInterceptor_def)
    with False run d1 same_data_trans [OF d2] validate_code [OF e] inject_metadata [OF 1] show ?thesis
      by (intro exI [of _ ctx1] exI [of _ v1] exI [of _ "time_Sub t2 t1"] exI [of _ w2]) simp
  qed
qed

lemma stream_interceptors:
  "loggingStreamInterceptor = loggingUnaryInterceptor" "authStreamInterceptor = authUnaryInterceptor"
  by (intro ext, simp add: loggingStreamInterceptor_def loggingUnaryInterceptor_def)
    (intro ext, simp add: authStreamInterceptor_def authUnaryInterceptor_def)

section \<open>Properties\<close>

text \<open>
  Claim C25. With authentication on, no call without the shared secret reaches a handler. The
  server only starts with a secret that is not blank, and the chains it then installs for calls
  and for streams are guarded: a call that shows the secret runs its handler once and gets its
  answer, every other call gets \<open>Unauthenticated\<close> and changes neither files nor tables.
\<close>

theorem only_authenticated_calls_run:
  assumes "BuildGRPCServerOptions fmt load cfg w = (Inr opts, w')" and "sc_AuthEnabled cfg"
  shows "strings_TrimSpace (sc_SharedSecret cfg) \<noteq> []
    \<and> guarded (strings_TrimSpace (sc_SharedSecret cfg)) (chain (so_unary opts))
    \<and> guarded (strings_TrimSpace (sc_SharedSecret cfg)) (chain (so_stream opts))"
proof -
  let ?s = "strings_TrimSpace (sc_SharedSecret cfg)"
  have "so_unary opts = [loggingUnaryInterceptor fmt, authUnaryInterceptor ?s]"
    and "so_stream opts = [loggingUnaryInterceptor fmt, authUnaryInterceptor ?s]" and "?s \<noteq> []"
    using assms by (auto simp: BuildGRPCServerOptions_def Let_def stream_interceptors split: if_splits sum.splits prod.splits)
  then show ?thesis by (simp add: guarded_chain)
qed

definition sample_security :: SecurityConfig where
  "sample_security = \<lparr>sc_AuthEnabled = True, sc_SharedSecret = '' s3cret '', sc_TLSEnabled = False,
     sc_TLSCertPath = [], sc_TLSKeyPath = []\<rparr>"

lemma secret_trimmed: "strings_TrimSpace '' s3cret '' = ''s3cret''"
  by code_simp

theorem only_authenticated_calls_run_witness:
  "\<exists>opts. fst (BuildGRPCServerOptions (\<lambda>_. []) (\<lambda>c k w. (Inr (), w)) sample_security (quiet_world [] empty_db)) = Inr opts
    \<and> guarded ''s3cret'' (chain (so_unary (opts :: (nat, unit) server_options)))
    \<and> \<not> shows_secret \<lparr>cx_Metadata = None, cx_RequestID = [], cx_Method = []\<rparr> ''s3cret''"
proof -
  let ?w = "quiet_world [] empty_db"
  obtain opts :: "(nat, unit) server_options" and w' where
    run: "BuildGRPCServerOptions (\<lambda>_. []) (\<lambda>c k w. (Inr (), w)) sample_security ?w = (Inr opts, w')"
    by (simp add: BuildGRPCServerOptions_def sample_security_def secret_trimmed Let_def)
  from only_authenticated_calls_run [OF run] run show ?thesis
    by (simp add: sample_security_def secret_trimmed shows_secret_def)
qed

end
