(* ===== verification/GoIO.thy ===== *)
theory GoIO
  imports FileSys
begin

text \<open>
  Sequences of fallible calls: each returns an error or a value beside the new state, and the
  first error ends the sequence. The state is the world, or the world beside the log of a build.
\<close>

section \<open>Sequences of calls\<close>

text \<open>\<open>if err != nil { return err }\<close> between two calls, and \<open>fmt.Errorf("...: %w", err)\<close> around one.\<close>

definition io_then :: "('s \<Rightarrow> 'a result \<times> 's) \<Rightarrow> ('a \<Rightarrow> 's \<Rightarrow> 'b result \<times> 's) \<Rightarrow> 's \<Rightarrow> 'b result \<times> 's" where
  "io_then m f s = (case m s of (Inl e, s1) \<Rightarrow> (Inl e, s1) | (Inr x, s1) \<Rightarrow> f x s1)"

definition io_wrap :: "string \<Rightarrow> 'a io \<Rightarrow> 'a io" where
  "io_wrap what m w = (case m w of (Inl e, w1) \<Rightarrow> (Inl (Wrapf (what @ '': '') e []), w1) | (Inr x, w1) \<Rightarrow> (Inr x, w1))"

definition io_return :: "'a \<Rightarrow> 's \<Rightarrow> 'a result \<times> 's" where
  "io_return x w = (Inr x, w)"

definition io_fail :: "goerr \<Rightarrow> 's \<Rightarrow> 'a result \<times> 's" where
  "io_fail e w = (Inl e, w)"

definition io_lift :: "'a result \<Rightarrow> 'a io" where
  "io_lift r w = (r, w)"

definition io_now :: "gotime io" where
  "io_now w = (case time_Now w of (t, w1) \<Rightarrow> (Inr t, w1))"

definition io_rand :: "bytes io" where
  "io_rand w = (case rand_Read w of (None, w1) \<Rightarrow> (Inl (ErrorText ''rand''), w1) | (Some b, w1) \<Rightarrow> (Inr b, w1))"

lemma io_then_run: "m w = (Inr x, w1) \<Longrightarrow> io_then m f w = f x w1"
  by (simp add: io_then_def)

lemma io_wrap_run: "m w = (Inr x, w1) \<Longrightarrow> io_wrap what m w = (Inr x, w1)"
  by (simp add: io_wrap_def)

end
