(* ===== verification/TlsArtifacts.thy ===== *)
theory TlsArtifacts
  imports Interceptors FileLaws GoIO
begin

text \<open>
  \<open>internal/server/security.go\<close>, the certificates: checking, creating, rotating and exporting the
  files of the server's certificate and of the root authority that signs it.

  What \<open>crypto/rsa\<close>, \<open>crypto/x509\<close> and \<open>encoding/pem\<close> compute is a parameter, the record \<open>tls_env\<close>;
  the code relies on the laws \<open>tls_laws\<close>. Random bytes come from the world. File
  modes are not modelled.
\<close>

section \<open>Certificates and keys\<close>

text \<open>The fields the code reads; a public key is the modulus and the exponent, \<open>None\<close> if it is not RSA.\<close>

record certificate =
  ct_Raw :: bytes
  ct_Subject :: string
  ct_PublicKey :: "(nat \<times> nat) option"
  ct_IsCA :: bool
  ct_DNSNames :: "string list"
  ct_NotBefore :: gotime
  ct_NotAfter :: gotime

record rsa_key =
  rk_N :: nat
  rk_E :: nat
  rk_D :: nat

definition rsa_public :: "rsa_key \<Rightarrow> nat \<times> nat" where
  "rsa_public k = (rk_N k, rk_E k)"

text \<open>The template of a new certificate, as \<open>x509.Certificate\<close> literals give it.\<close>

record cert_template =
  tp_SerialNumber :: bytes
  tp_CommonName :: string
  tp_Organization :: "string list"
  tp_NotBefore :: gotime
  tp_NotAfter :: gotime
  tp_KeyUsage :: "string list"
  tp_ServerAuth :: bool
  tp_IsCA :: bool
  tp_MaxPathLenZero :: bool
  tp_DNSNames :: "string list"
  tp_IPAddresses :: "string list"

text \<open>
  \<open>x_CreateCertificate random template parent public signer\<close>, where \<open>parent\<close> is \<open>None\<close> for a
  certificate signed by itself; \<open>x_Verify now root cert\<close> is the error of a verification against the
  root alone, with the usage server authentication.
\<close>

record tls_env =
  x_PemDecode :: "bytes \<Rightarrow> bytes option"
  x_PemEncode :: "string \<Rightarrow> bytes \<Rightarrow> bytes"
  x_ParseCertificate :: "bytes \<Rightarrow> certificate result"
  x_ParsePKCS1 :: "bytes \<Rightarrow> rsa_key result"
  x_ParsePKCS8 :: "bytes \<Rightarrow> rsa_key option result"
  x_MarshalPKCS1 :: "rsa_key \<Rightarrow> bytes"
  x_KeyFrom :: "bytes \<Rightarrow> rsa_key"
  x_CreateCertificate :: "bytes \<Rightarrow> cert_template \<Rightarrow> certificate option \<Rightarrow> nat \<times> nat \<Rightarrow> rsa_key \<Rightarrow> bytes result"
  x_Verify :: "gotime \<Rightarrow> certificate \<Rightarrow> certificate \<Rightarrow> goerr option"
  x_AddYears :: "nat \<Rightarrow> gotime \<Rightarrow> gotime"
  x_Hostname :: "string result"
  x_TimeFormat :: "gotime \<Rightarrow> string"

section \<open>Files that exist\<close>

text \<open>\<open>fileExists\<close>: every error of \<open>Stat\<close> counts as no file.\<close>

definition fileExists :: "string \<Rightarrow> bool io" where
  "fileExists path w =
    (if strings_TrimSpace path = [] then (Inr False, w)
     else (case os_Stat path w of (Inl e, w1) \<Rightarrow> (Inr False, w1) | (Inr info, w1) \<Rightarrow> (Inr True, w1)))"

text \<open>Chains of \<open>&&\<close> and \<open>||\<close> over calls stop at the first call that decides them.\<close>

fun all_exist :: "string list \<Rightarrow> bool io" where
  "all_exist [] = io_return True"
| "all_exist (p # ps) = io_then (fileExists p) (\<lambda>b. if b then all_exist ps else io_return False)"

fun any_exists :: "string list \<Rightarrow> bool io" where
  "any_exists [] = io_return False"
| "any_exists (p # ps) = io_then (fileExists p) (\<lambda>b. if b then io_return True else any_exists ps)"

section \<open>Files\<close>

definition tempFilePath :: "string \<Rightarrow> gotime \<Rightarrow> string" where
  "tempFilePath path now =
    filepath_Join [filepath_Dir path, ''.'' @ filepath_Base path @ ''.tmp-'' @
      strconv_Itoa now]"

definition writeFileAtomically :: "string \<Rightarrow> bytes \<Rightarrow> unit io" where
  "writeFileAtomically path data =
    io_then (os_MkdirAll (filepath_Dir path)) (\<lambda>_.
    io_then io_now (\<lambda>now. let tempPath = tempFilePath path now in
    io_then (os_WriteFile tempPath data) (\<lambda>_ w.
      (case os_Remove path w of
         (Inl e, w1) \<Rightarrow>
           if \<not> os_IsNotExist e then (Inl e, snd (os_Remove tempPath w1))
           else (case os_Rename tempPath path w1 of
                   (Inl e2, w2) \<Rightarrow> (Inl e2, snd (os_Remove tempPath w2)) | (Inr _, w2) \<Rightarrow> (Inr (), w2))
       | (Inr _, w1) \<Rightarrow>
           (case os_Rename tempPath path w1 of
              (Inl e2, w2) \<Rightarrow> (Inl e2, snd (os_Remove tempPath w2)) | (Inr _, w2) \<Rightarrow> (Inr (), w2))))))"

definition copySmallFile :: "string \<Rightarrow> string \<Rightarrow> unit io" where
  "copySmallFile src dst =
    io_then (os_ReadFile src) (\<lambda>data. io_then (os_Stat src) (\<lambda>info. writeFileAtomically dst data))"

section \<open>Parsing\<close>

definition parsePEMCertificate :: "tls_env \<Rightarrow> bytes \<Rightarrow> certificate result" where
  "parsePEMCertificate X pemData =
    (case x_PemDecode X pemData of
       None \<Rightarrow> Inl (ErrorText ''missing pem certificate block'')
     | Some block \<Rightarrow> x_ParseCertificate X block)"

definition parsePEMRSAPrivateKey :: "tls_env \<Rightarrow> bytes \<Rightarrow> rsa_key result" where
  "parsePEMRSAPrivateKey X pemData =
    (case x_PemDecode X pemData of
       None \<Rightarrow> Inl (ErrorText ''missing pem private key block'')
     | Some block \<Rightarrow>
       (case x_ParsePKCS1 X block of
          Inr key \<Rightarrow> Inr key
        | Inl _ \<Rightarrow>
          (case x_ParsePKCS8 X block of
             Inl e \<Rightarrow> Inl e
           | Inr None \<Rightarrow> Inl (ErrorText ''private key is not rsa'')
           | Inr (Some key) \<Rightarrow> Inr key)))"

definition readCertificateFile :: "tls_env \<Rightarrow> string \<Rightarrow> certificate io" where
  "readCertificateFile X path = io_then (os_ReadFile path) (\<lambda>pemData. io_lift (parsePEMCertificate X pemData))"

definition readRSAPrivateKeyFile :: "tls_env \<Rightarrow> string \<Rightarrow> rsa_key io" where
  "readRSAPrivateKeyFile X path = io_then (os_ReadFile path) (\<lambda>pemData. io_lift (parsePEMRSAPrivateKey X pemData))"

definition verifyPrivateKeyMatchesCertificate :: "rsa_key \<Rightarrow> certificate \<Rightarrow> goerr option" where
  "verifyPrivateKeyMatchesCertificate key cert =
    (case ct_PublicKey cert of
       None \<Rightarrow> Some (ErrorText ''certificate public key is not rsa'')
     | Some (n, e) \<Rightarrow>
       if n \<noteq> rk_N key \<or> e \<noteq> rk_E key then Some (ErrorText ''certificate and private key do not match'') else None)"

section \<open>Creating\<close>

definition tlsRootCertPath :: "string \<Rightarrow> string" where
  "tlsRootCertPath certPath = filepath_Join [filepath_Dir certPath, ''roodox-ca-cert.pem'']"

definition tlsRootKeyPath :: "string \<Rightarrow> string" where
  "tlsRootKeyPath certPath = filepath_Join [filepath_Dir certPath, ''roodox-ca-key.pem'']"

definition containsString :: "string list \<Rightarrow> string \<Rightarrow> bool" where
  "containsString values target \<longleftrightarrow> list_ex (\<lambda>v. strings_EqualFold v target) values"

definition rootCATemplate :: "tls_env \<Rightarrow> cert_template io" where
  "rootCATemplate X =
    io_then (io_wrap ''generate tls root serial failed'' io_rand) (\<lambda>serialNumber.
    io_then io_now (\<lambda>t1. io_then io_now (\<lambda>t2.
      io_return \<lparr>tp_SerialNumber = serialNumber, tp_CommonName = ''Roodox Root CA'', tp_Organization = [''Roodox''],
        tp_NotBefore = t1 - 3600 * second, tp_NotAfter = x_AddYears X 10 t2,
        tp_KeyUsage = [''CertSign'', ''CRLSign'', ''DigitalSignature''], tp_ServerAuth = False,
        tp_IsCA = True, tp_MaxPathLenZero = True, tp_DNSNames = [], tp_IPAddresses = []\<rparr>)))"

definition server_dns_names :: "tls_env \<Rightarrow> string list" where
  "server_dns_names X =
    (case x_Hostname X of
       Inl e \<Rightarrow> [''localhost'']
     | Inr host0 \<Rightarrow>
       let host = strings_TrimSpace host0 in
       if host \<noteq> [] \<and> \<not> containsString [''localhost''] host then [''localhost'', host] else [''localhost''])"

definition serverCertificateTemplate :: "tls_env \<Rightarrow> cert_template io" where
  "serverCertificateTemplate X =
    io_then (io_wrap ''generate tls serial failed'' io_rand) (\<lambda>serialNumber.
    io_then io_now (\<lambda>t1. io_then io_now (\<lambda>t2.
      io_return \<lparr>tp_SerialNumber = serialNumber, tp_CommonName = ''Roodox Server'', tp_Organization = [''Roodox''],
        tp_NotBefore = t1 - 3600 * second, tp_NotAfter = x_AddYears X 3 t2,
        tp_KeyUsage = [''DigitalSignature'', ''KeyEncipherment''], tp_ServerAuth = True,
        tp_IsCA = False, tp_MaxPathLenZero = False, tp_DNSNames = server_dns_names X,
        tp_IPAddresses = [''127.0.0.1'', ''::1'']\<rparr>)))"

definition encode_pair :: "tls_env \<Rightarrow> bytes \<Rightarrow> rsa_key \<Rightarrow> bytes \<times> bytes" where
  "encode_pair X certDER key =
    (x_PemEncode X ''CERTIFICATE'' certDER, x_PemEncode X ''RSA PRIVATE KEY'' (x_MarshalPKCS1 X key))"

definition generateRootCA :: "tls_env \<Rightarrow> (bytes \<times> bytes) io" where
  "generateRootCA X =
    io_then (io_wrap ''generate tls root key failed'' io_rand) (\<lambda>seed. let privateKey = x_KeyFrom X seed in
    io_then (rootCATemplate X) (\<lambda>template.
    io_then io_rand (\<lambda>r.
    io_then (io_wrap ''create tls root certificate failed''
        (io_lift (x_CreateCertificate X r template None (rsa_public privateKey) privateKey))) (\<lambda>certDER.
      io_return (encode_pair X certDER privateKey)))))"

definition generateServerCertificate :: "tls_env \<Rightarrow> certificate \<Rightarrow> rsa_key \<Rightarrow> (bytes \<times> bytes) io" where
  "generateServerCertificate X rootCert rootKey =
    io_then (io_wrap ''generate tls key failed'' io_rand) (\<lambda>seed. let privateKey = x_KeyFrom X seed in
    io_then (serverCertificateTemplate X) (\<lambda>template.
    io_then io_rand (\<lambda>r.
    io_then (io_wrap ''create tls certificate failed''
        (io_lift (x_CreateCertificate X r template (Some rootCert) (rsa_public privateKey) rootKey))) (\<lambda>certDER.
      io_return (encode_pair X certDER privateKey)))))"

definition generated_root :: "tls_env \<Rightarrow> bytes \<Rightarrow> bytes \<Rightarrow> (certificate \<times> rsa_key) io" where
  "generated_root X rootCertPEM rootKeyPEM =
    io_then (io_wrap ''parse generated tls root certificate failed'' (io_lift (parsePEMCertificate X rootCertPEM))) (\<lambda>cert.
    io_then (io_wrap ''parse generated tls root key failed'' (io_lift (parsePEMRSAPrivateKey X rootKeyPEM))) (\<lambda>key.
      io_return (cert, key)))"

text \<open>The authority on disk, if both files are there and the certificate is an authority's.\<close>

definition stored_root :: "tls_env \<Rightarrow> string \<Rightarrow> string \<Rightarrow> (certificate \<times> rsa_key) option io" where
  "stored_root X certPath keyPath =
    io_then (all_exist [certPath, keyPath]) (\<lambda>b.
      if b then
        io_then (io_wrap ''read tls root certificate failed'' (readCertificateFile X certPath)) (\<lambda>cert.
        io_then (io_wrap ''read tls root key failed'' (readRSAPrivateKeyFile X keyPath)) (\<lambda>key.
          io_return (if ct_IsCA cert then Some (cert, key) else None)))
      else io_return None)"

definition store_new_root :: "tls_env \<Rightarrow> string \<Rightarrow> string \<Rightarrow> (certificate \<times> rsa_key) io" where
  "store_new_root X certPath keyPath =
    io_then (generateRootCA X) (\<lambda>(rootCertPEM, rootKeyPEM).
    io_then (io_wrap ''write tls root certificate failed'' (os_WriteFile certPath rootCertPEM)) (\<lambda>_.
    io_then (io_wrap ''write tls root key failed'' (os_WriteFile keyPath rootKeyPEM)) (\<lambda>_.
      generated_root X rootCertPEM rootKeyPEM)))"

definition loadOrCreateRootCA :: "tls_env \<Rightarrow> string \<Rightarrow> string \<Rightarrow> (certificate \<times> rsa_key) io" where
  "loadOrCreateRootCA X certPath keyPath =
    io_then (stored_root X certPath keyPath) (\<lambda>found.
      (case found of Some root \<Rightarrow> io_return root | None \<Rightarrow> store_new_root X certPath keyPath))"

section \<open>Checking\<close>

definition verify_against :: "tls_env \<Rightarrow> certificate \<Rightarrow> certificate \<Rightarrow> goerr option io" where
  "verify_against X root cert = io_then io_now (\<lambda>now. io_return (x_Verify X now root cert))"

definition hasValidTLSArtifacts :: "tls_env \<Rightarrow> string \<Rightarrow> string \<Rightarrow> string \<Rightarrow> bool io" where
  "hasValidTLSArtifacts X certPath keyPath rootCertPath =
    io_then (all_exist [certPath, keyPath, rootCertPath]) (\<lambda>b.
    if \<not> b then io_return False
    else
      io_then (io_wrap ''read existing tls certificate failed'' (readCertificateFile X certPath)) (\<lambda>serverCert.
      io_then (io_wrap ''read existing tls root certificate failed'' (readCertificateFile X rootCertPath)) (\<lambda>rootCert.
      io_then (io_wrap ''read existing tls key failed'' (readRSAPrivateKeyFile X keyPath)) (\<lambda>serverKey.
        if \<not> ct_IsCA rootCert then io_return False
        else if ct_IsCA serverCert then io_return False
        else if verifyPrivateKeyMatchesCertificate serverKey serverCert \<noteq> None then io_return False
        else io_then (verify_against X rootCert serverCert) (\<lambda>err. io_return (err = None))))))"

definition ensureServerCertificate :: "tls_env \<Rightarrow> string \<Rightarrow> string \<Rightarrow> unit io" where
  "ensureServerCertificate X certPath keyPath =
    (let rootCertPath = tlsRootCertPath certPath; rootKeyPath = tlsRootKeyPath certPath in
     io_then (hasValidTLSArtifacts X certPath keyPath rootCertPath) (\<lambda>valid.
     if valid then io_return ()
     else
       io_then (io_wrap ''create cert dir failed'' (os_MkdirAll (filepath_Dir certPath))) (\<lambda>_.
       io_then (io_wrap ''create key dir failed'' (os_MkdirAll (filepath_Dir keyPath))) (\<lambda>_.
       io_then (io_wrap ''create root cert dir failed'' (os_MkdirAll (filepath_Dir rootCertPath))) (\<lambda>_.
       io_then (io_wrap ''create root key dir failed'' (os_MkdirAll (filepath_Dir rootKeyPath))) (\<lambda>_.
       io_then (loadOrCreateRootCA X rootCertPath rootKeyPath) (\<lambda>(rootCert, rootKey).
       io_then (generateServerCertificate X rootCert rootKey) (\<lambda>(serverCertPEM, serverKeyPEM).
       io_then (io_wrap ''write tls certificate failed'' (os_WriteFile certPath serverCertPEM)) (\<lambda>_.
         io_wrap ''write tls key failed'' (os_WriteFile keyPath serverKeyPEM))))))))))"

text \<open>\<open>creds\<close> is \<open>credentials.NewServerTLSFromFile\<close>.\<close>

definition loadServerTLSCredentials :: "tls_env \<Rightarrow> (string \<Rightarrow> string \<Rightarrow> 'c io) \<Rightarrow> string \<Rightarrow> string \<Rightarrow> 'c io" where
  "loadServerTLSCredentials X creds certPath0 keyPath0 =
    (let certPath = strings_TrimSpace certPath0; keyPath = strings_TrimSpace keyPath0 in
     if certPath = [] \<or> keyPath = [] then io_fail (ErrorText ''tls is enabled but cert/key path is empty'')
     else
       io_then (ensureServerCertificate X certPath keyPath) (\<lambda>_.
         io_wrap ''load tls certificate failed'' (creds certPath keyPath)))"

section \<open>Inspecting\<close>

record TLSArtifactsStatus =
  ts_CertPath :: string
  ts_KeyPath :: string
  ts_RootCertPath :: string
  ts_RootKeyPath :: string
  ts_ServerCertExists :: bool
  ts_ServerKeyExists :: bool
  ts_RootCertExists :: bool
  ts_RootKeyExists :: bool
  ts_ServerSubject :: string
  ts_RootSubject :: string
  ts_ServerDNSNames :: "string list"
  ts_ServerNotBeforeUnix :: int
  ts_ServerNotAfterUnix :: int
  ts_RootNotBeforeUnix :: int
  ts_RootNotAfterUnix :: int
  ts_RootIsCA :: bool
  ts_ServerValid :: bool
  ts_RootValid :: bool
  ts_OverallValid :: bool

definition no_tls_status :: TLSArtifactsStatus where
  "no_tls_status = \<lparr>ts_CertPath = [], ts_KeyPath = [], ts_RootCertPath = [], ts_RootKeyPath = [],
     ts_ServerCertExists = False, ts_ServerKeyExists = False, ts_RootCertExists = False, ts_RootKeyExists = False,
     ts_ServerSubject = [], ts_RootSubject = [], ts_ServerDNSNames = [], ts_ServerNotBeforeUnix = 0,
     ts_ServerNotAfterUnix = 0, ts_RootNotBeforeUnix = 0, ts_RootNotAfterUnix = 0, ts_RootIsCA = False,
     ts_ServerValid = False, ts_RootValid = False, ts_OverallValid = False\<rparr>"

text \<open>Reading a file that exists; a failure becomes one of the collected messages.\<close>

definition try_read :: "bool \<Rightarrow> string \<Rightarrow> 'a io \<Rightarrow> ('a option \<times> string list) io" where
  "try_read there what m w =
    (if \<not> there then (Inr (None, []), w)
     else (case m w of
             (Inl e, w1) \<Rightarrow> (Inr (None, [what @ '': '' @ err_Error e]), w1)
           | (Inr x, w1) \<Rightarrow> (Inr (Some x, []), w1)))"

text \<open>Whether the server's certificate is valid, with the message when it is not.\<close>

definition check_server :: "tls_env \<Rightarrow> certificate option \<Rightarrow> certificate option \<Rightarrow> rsa_key option \<Rightarrow> (bool \<times> string list) io" where
  "check_server X serverCert rootCert serverKey =
    (case (serverCert, serverKey, rootCert) of
       (Some sc, Some sk, Some rc) \<Rightarrow>
         if \<not> ct_IsCA rc then io_return (False, [])
         else
           (case verifyPrivateKeyMatchesCertificate sk sc of
              None \<Rightarrow>
                if ct_IsCA sc then io_return (False, [])
                else io_then (verify_against X rc sc) (\<lambda>err.
                  (case err of
                     None \<Rightarrow> io_return (True, [])
                   | Some e \<Rightarrow> io_return (False, [''verify server cert: '' @ err_Error e])))
            | Some e \<Rightarrow> io_return (False, [''match server cert/key: '' @ err_Error e]))
     | _ \<Rightarrow> io_return (False, []))"

text \<open>The status is returned beside the error, which the first component of the sum leaves open.\<close>

definition InspectTLSArtifacts :: "tls_env \<Rightarrow> string \<Rightarrow> string \<Rightarrow> (TLSArtifactsStatus \<times> goerr option) io" where
  "InspectTLSArtifacts X certPath0 keyPath0 =
    (let certPath = strings_TrimSpace certPath0; keyPath = strings_TrimSpace keyPath0;
         rootCertPath = tlsRootCertPath certPath; rootKeyPath = tlsRootKeyPath certPath in
     if certPath = [] \<or> keyPath = [] then io_return (no_tls_status, Some (ErrorText ''tls cert/key path is empty''))
     else
       io_then (fileExists certPath) (\<lambda>hasCert.
       io_then (fileExists keyPath) (\<lambda>hasKey.
       io_then (fileExists rootCertPath) (\<lambda>hasRoot.
       io_then (fileExists rootKeyPath) (\<lambda>hasRootKey.
       io_then (try_read hasCert ''read server cert'' (readCertificateFile X certPath)) (\<lambda>(serverCert, errs1).
       io_then (try_read hasRoot ''read root cert'' (readCertificateFile X rootCertPath)) (\<lambda>(rootCert, errs2).
       io_then (try_read hasKey ''read server key'' (readRSAPrivateKeyFile X keyPath)) (\<lambda>(serverKey, errs3).
       io_then (check_server X serverCert rootCert serverKey) (\<lambda>(valid, errs4).
       let errs = errs1 @ errs2 @ errs3 @ errs4;
           rootIsCA = (case rootCert of None \<Rightarrow> False | Some c \<Rightarrow> ct_IsCA c) in
       io_return (\<lparr>ts_CertPath = certPath, ts_KeyPath = keyPath, ts_RootCertPath = rootCertPath, ts_RootKeyPath = rootKeyPath,
           ts_ServerCertExists = hasCert, ts_ServerKeyExists = hasKey, ts_RootCertExists = hasRoot, ts_RootKeyExists = hasRootKey,
           ts_ServerSubject = (case serverCert of None \<Rightarrow> [] | Some c \<Rightarrow> ct_Subject c),
           ts_RootSubject = (case rootCert of None \<Rightarrow> [] | Some c \<Rightarrow> ct_Subject c),
           ts_ServerDNSNames = (case serverCert of None \<Rightarrow> [] | Some c \<Rightarrow> ct_DNSNames c),
           ts_ServerNotBeforeUnix = (case serverCert of None \<Rightarrow> 0 | Some c \<Rightarrow> time_Unix (ct_NotBefore c)),
           ts_ServerNotAfterUnix = (case serverCert of None \<Rightarrow> 0 | Some c \<Rightarrow> time_Unix (ct_NotAfter c)),
           ts_RootNotBeforeUnix = (case rootCert of None \<Rightarrow> 0 | Some c \<Rightarrow> time_Unix (ct_NotBefore c)),
           ts_RootNotAfterUnix = (case rootCert of None \<Rightarrow> 0 | Some c \<Rightarrow> time_Unix (ct_NotAfter c)),
           ts_RootIsCA = rootIsCA, ts_ServerValid = valid, ts_RootValid = rootIsCA,
           ts_OverallValid = (valid \<and> rootIsCA \<and> hasKey)\<rparr>,
         if errs = [] then None else Some (ErrorText (strings_Join errs ''; ''))))))))))))"

section \<open>Rotating and exporting\<close>

fun copy_existing :: "string \<Rightarrow> string list \<Rightarrow> unit io" where
  "copy_existing backupDir [] = io_return ()"
| "copy_existing backupDir (path # paths) =
    io_then (fileExists path) (\<lambda>there.
      if \<not> there then copy_existing backupDir paths
      else io_then (copySmallFile path (filepath_Join [backupDir, filepath_Base path])) (\<lambda>_.
        copy_existing backupDir paths))"

definition backupTLSArtifacts :: "tls_env \<Rightarrow> string \<Rightarrow> string \<Rightarrow> string \<Rightarrow> string \<Rightarrow> string \<Rightarrow> string io" where
  "backupTLSArtifacts X certPath keyPath rootCertPath rootKeyPath backupDir0 =
    (let paths = [certPath, keyPath, rootCertPath, rootKeyPath] in
     io_then (any_exists paths) (\<lambda>hasAny.
     if \<not> hasAny then io_return []
     else
       io_then (if strings_TrimSpace backupDir0 = []
           then io_then io_now (\<lambda>now. io_return
             (filepath_Join [filepath_Dir certPath, ''archive'', ''tls-rotation-'' @ x_TimeFormat X now]))
           else io_return (strings_TrimSpace backupDir0)) (\<lambda>backupDir.
       io_then (os_MkdirAll backupDir) (\<lambda>_.
       io_then (copy_existing backupDir paths) (\<lambda>_. io_return backupDir)))))"

record TLSRotateOptions =
  ro_RotateRootCA :: bool
  ro_BackupDir :: string

record TLSRotateResult =
  rr_RotatedRootCA :: bool
  rr_BackupDir :: string
  rr_Status :: TLSArtifactsStatus

text \<open>The root that signs the new certificate, with the files of a new root (\<open>None\<close> to keep the old).\<close>

definition rotation_root :: "tls_env \<Rightarrow> bool \<Rightarrow> string \<Rightarrow> string \<Rightarrow> (certificate \<times> rsa_key \<times> (bytes \<times> bytes) option) io" where
  "rotation_root X renew rootCertPath rootKeyPath =
    (if renew then
       io_then (generateRootCA X) (\<lambda>(rootCertPEM, rootKeyPEM).
       io_then (generated_root X rootCertPEM rootKeyPEM) (\<lambda>(rootCert, rootKey).
         io_return (rootCert, rootKey, Some (rootCertPEM, rootKeyPEM))))
     else
       io_then (all_exist [rootCertPath, rootKeyPath]) (\<lambda>b.
       if \<not> b then io_fail (ErrorText ''existing root ca artifacts are missing; rotate root ca instead'')
       else
         io_then (io_wrap ''read tls root certificate failed'' (readCertificateFile X rootCertPath)) (\<lambda>rootCert.
         io_then (io_wrap ''read tls root key failed'' (readRSAPrivateKeyFile X rootKeyPath)) (\<lambda>rootKey.
         if \<not> ct_IsCA rootCert
         then io_fail (ErrorText ''existing root certificate is not a ca; rotate root ca instead'')
         else io_return (rootCert, rootKey, None)))))"

definition write_root :: "string \<Rightarrow> string \<Rightarrow> (bytes \<times> bytes) option \<Rightarrow> unit io" where
  "write_root rootCertPath rootKeyPath new_root =
    (case new_root of
       None \<Rightarrow> io_return ()
     | Some (rootCertPEM, rootKeyPEM) \<Rightarrow>
       io_then (io_wrap ''write tls root certificate failed'' (writeFileAtomically rootCertPath rootCertPEM)) (\<lambda>_.
         io_wrap ''write tls root key failed'' (writeFileAtomically rootKeyPath rootKeyPEM)))"

definition RotateTLSArtifacts :: "tls_env \<Rightarrow> string \<Rightarrow> string \<Rightarrow> TLSRotateOptions \<Rightarrow> TLSRotateResult io" where
  "RotateTLSArtifacts X certPath0 keyPath0 options =
    (let certPath = strings_TrimSpace certPath0; keyPath = strings_TrimSpace keyPath0;
         rootCertPath = tlsRootCertPath certPath; rootKeyPath = tlsRootKeyPath certPath in
     if certPath = [] \<or> keyPath = [] then io_fail (ErrorText ''tls cert/key path is empty'')
     else
       io_then (io_wrap ''create cert dir failed'' (os_MkdirAll (filepath_Dir certPath))) (\<lambda>_.
       io_then (io_wrap ''create key dir failed'' (os_MkdirAll (filepath_Dir keyPath))) (\<lambda>_.
       io_then (io_wrap ''create root cert dir failed'' (os_MkdirAll (filepath_Dir rootCertPath))) (\<lambda>_.
       io_then (io_wrap ''create root key dir failed'' (os_MkdirAll (filepath_Dir rootKeyPath))) (\<lambda>_.
       io_then (backupTLSArtifacts X certPath keyPath rootCertPath rootKeyPath (ro_BackupDir options)) (\<lambda>backupDir.
       io_then (rotation_root X (ro_RotateRootCA options) rootCertPath rootKeyPath) (\<lambda>(rootCert, rootKey, new_root).
       io_then (generateServerCertificate X rootCert rootKey) (\<lambda>(serverCertPEM, serverKeyPEM).
       io_then (write_root rootCertPath rootKeyPath new_root) (\<lambda>_.
       io_then (io_wrap ''write tls certificate failed'' (writeFileAtomically certPath serverCertPEM)) (\<lambda>_.
       io_then (io_wrap ''write tls key failed'' (writeFileAtomically keyPath serverKeyPEM)) (\<lambda>_.
       io_then (InspectTLSArtifacts X certPath keyPath) (\<lambda>(status, err).
       (case err of
          Some e \<Rightarrow> io_fail e
        | None \<Rightarrow> io_return \<lparr>rr_RotatedRootCA = ro_RotateRootCA options, rr_BackupDir = backupDir,
            rr_Status = status\<rparr>)))))))))))))"

definition ExportTLSRootCertificate :: "string \<Rightarrow> string \<Rightarrow> unit io" where
  "ExportTLSRootCertificate certPath0 destPath0 =
    (let certPath = strings_TrimSpace certPath0; destPath = strings_TrimSpace destPath0 in
     if certPath = [] \<or> destPath = [] then io_fail (ErrorText ''tls cert path and destination path are required'')
     else
       io_then (io_wrap ''read tls root certificate failed'' (os_ReadFile (tlsRootCertPath certPath))) (\<lambda>rootPEM.
         writeFileAtomically destPath rootPEM))"

end
