(* ===== verification/TlsLaws.thy ===== *)
theory TlsLaws
  imports TlsArtifacts
begin

text \<open>
  Properties of the server's certificates: the two checks of the files agree, a start installs
  files that pass them, and a root certificate whose key is another's blocks every start.

  \<open>tls_laws\<close> states what the code relies on: \<open>pem\<close> and \<open>x509\<close> read what they wrote, a new
  certificate has the fields of its template, one signed by an authority within its time verifies,
  and signing fails when the key is not the authority's.
\<close>

section \<open>What the library promises\<close>

definition tls_laws :: "tls_env \<Rightarrow> bool" where
  "tls_laws X \<longleftrightarrow>
    (\<forall>t b. x_PemDecode X (x_PemEncode X t b) = Some b)
  \<and> (\<forall>k. x_ParsePKCS1 X (x_MarshalPKCS1 X k) = Inr k)
  \<and> (\<forall>n t. t + second \<le> x_AddYears X (Suc n) t)
  \<and> (\<forall>r tp p pub k. (\<exists>e. x_CreateCertificate X r tp (Some p) pub k = Inl e)
      \<longleftrightarrow> ct_PublicKey p \<noteq> Some (rsa_public k))
  \<and> (\<forall>r tp pub k. \<exists>der. x_CreateCertificate X r tp None pub k = Inr der)
  \<and> (\<forall>r tp p pub k der. x_CreateCertificate X r tp p pub k = Inr der \<longrightarrow>
      (\<exists>c. x_ParseCertificate X der = Inr c \<and> ct_IsCA c = tp_IsCA tp \<and> ct_PublicKey c = Some pub
        \<and> ct_NotBefore c \<le> tp_NotBefore tp \<and> tp_NotAfter tp < ct_NotAfter c + second
        \<and> (\<forall>root now. p = Some root \<and> ct_IsCA root \<and> tp_ServerAuth tp
            \<and> ct_NotBefore root \<le> now \<and> now \<le> ct_NotAfter root \<and> tp_NotBefore tp \<le> now \<and> now + second \<le> tp_NotAfter tp
          \<longrightarrow> x_Verify X now root c = None)))"

section \<open>A world without faults and with a stopped clock\<close>

definition quiet :: "world \<Rightarrow> bool" where
  "quiet w \<longleftrightarrow> w_faults w = [] \<and> w_ticks w = []"

lemma quiet_simps [simp]:
  "quiet (w\<lparr>w_fs := t\<rparr>) = quiet w" "quiet (w\<lparr>w_rand := rs\<rparr>) = quiet w" "quiet (quiet_world t db)"
  by (simp_all add: quiet_def quiet_world_def)

definition exists_at :: "fstree \<Rightarrow> string \<Rightarrow> bool" where
  "exists_at t p \<longleftrightarrow> strings_TrimSpace p \<noteq> [] \<and> (case lookup_node t (path_elems p) of Inl e \<Rightarrow> False | Inr n \<Rightarrow> True)"

definition read_at :: "fstree \<Rightarrow> string \<Rightarrow> bytes result" where
  "read_at t p = (case lookup_node t (path_elems p) of
     Inl e \<Rightarrow> Inl (PathError ''open'' p e)
   | Inr (Directory _) \<Rightarrow> Inl (PathError ''read'' p EISDIR)
   | Inr (File d _) \<Rightarrow> Inr d)"

definition cert_at :: "tls_env \<Rightarrow> fstree \<Rightarrow> string \<Rightarrow> certificate result" where
  "cert_at X t p = (case read_at t p of Inl e \<Rightarrow> Inl e | Inr d \<Rightarrow> parsePEMCertificate X d)"

definition key_at :: "tls_env \<Rightarrow> fstree \<Rightarrow> string \<Rightarrow> rsa_key result" where
  "key_at X t p = (case read_at t p of Inl e \<Rightarrow> Inl e | Inr d \<Rightarrow> parsePEMRSAPrivateKey X d)"

named_theorems quiet_runs \<open>what calls do in a quiet world\<close>

lemma fileExists_quiet [quiet_runs]: "quiet w \<Longrightarrow> fileExists p w = (Inr (exists_at (w_fs w) p), w)"
  by (simp add: fileExists_def exists_at_def os_Stat_def quiet_def split: sum.splits)

lemma os_ReadFile_quiet [quiet_runs]: "quiet w \<Longrightarrow> os_ReadFile p w = (read_at (w_fs w) p, w)"
  by (simp add: os_ReadFile_def read_at_def quiet_def split: sum.splits node.splits)

lemma readCertificateFile_quiet [quiet_runs]:
  "quiet w \<Longrightarrow> readCertificateFile X p w = (cert_at X (w_fs w) p, w)"
  by (simp add: readCertificateFile_def io_then_def io_lift_def os_ReadFile_quiet cert_at_def split: sum.splits)

lemma readRSAPrivateKeyFile_quiet [quiet_runs]:
  "quiet w \<Longrightarrow> readRSAPrivateKeyFile X p w = (key_at X (w_fs w) p, w)"
  by (simp add: readRSAPrivateKeyFile_def io_then_def io_lift_def os_ReadFile_quiet key_at_def split: sum.splits)

lemma io_now_quiet [quiet_runs]: "quiet w \<Longrightarrow> io_now w = (Inr (w_clock w), w)"
  by (simp add: io_now_def time_Now_def quiet_def)

lemma verify_against_quiet [quiet_runs]:
  "quiet w \<Longrightarrow> verify_against X root c w = (Inr (x_Verify X (w_clock w) root c), w)"
  by (simp add: verify_against_def io_then_def io_return_def io_now_quiet)

lemma all_exist_quiet [quiet_runs]: "quiet w \<Longrightarrow> all_exist ps w = (Inr (\<forall>p\<in>set ps. exists_at (w_fs w) p), w)"
  by (induction ps) (auto simp: io_then_def io_return_def fileExists_quiet)

declare all_exist.simps [simp del]

section \<open>The checks\<close>

text \<open>The files of the server are valid at a time, as the tree holds them.\<close>

definition valid_at :: "tls_env \<Rightarrow> gotime \<Rightarrow> fstree \<Rightarrow> string \<Rightarrow> string \<Rightarrow> string \<Rightarrow> bool" where
  "valid_at X now t certPath keyPath rootCertPath \<longleftrightarrow>
    exists_at t certPath \<and> exists_at t keyPath \<and> exists_at t rootCertPath
    \<and> (\<exists>c root k. cert_at X t certPath = Inr c \<and> cert_at X t rootCertPath = Inr root \<and> key_at X t keyPath = Inr k
        \<and> ct_IsCA root \<and> \<not> ct_IsCA c \<and> verifyPrivateKeyMatchesCertificate k c = None \<and> x_Verify X now root c = None)"

lemma hasValid_quiet:
  assumes "quiet w"
  shows "snd (hasValidTLSArtifacts X c k r w) = w"
    and "fst (hasValidTLSArtifacts X c k r w) = Inr True \<longleftrightarrow> valid_at X (w_clock w) (w_fs w) c k r"
proof -
  show "snd (hasValidTLSArtifacts X c k r w) = w"
    using assms by (simp add: hasValidTLSArtifacts_def io_then_def io_return_def io_wrap_def quiet_runs split: sum.splits)
  show "fst (hasValidTLSArtifacts X c k r w) = Inr True \<longleftrightarrow> valid_at X (w_clock w) (w_fs w) c k r"
    using assms by (auto simp: hasValidTLSArtifacts_def io_then_def io_return_def io_wrap_def quiet_runs valid_at_def
        split: sum.splits)
qed

lemma try_read_quiet [quiet_runs]:
  assumes "m w = (r, w)"
  shows "try_read there what m w = (Inr (if \<not> there then (None, []) else
    (case r of Inl e \<Rightarrow> (None, [what @ '': '' @ err_Error e]) | Inr x \<Rightarrow> (Some x, []))), w)"
  using assms by (simp add: try_read_def split: sum.splits)

definition server_ok :: "tls_env \<Rightarrow> gotime \<Rightarrow> certificate option \<Rightarrow> certificate option \<Rightarrow> rsa_key option \<Rightarrow> bool" where
  "server_ok X now sc rc sk \<longleftrightarrow> (\<exists>c root k. sc = Some c \<and> rc = Some root \<and> sk = Some k \<and> ct_IsCA root \<and> \<not> ct_IsCA c
     \<and> verifyPrivateKeyMatchesCertificate k c = None \<and> x_Verify X now root c = None)"

lemma check_server_quiet:
  assumes "quiet w"
  shows "\<exists>errs. check_server X sc rc sk w = (Inr (server_ok X (w_clock w) sc rc sk, errs), w)
    \<and> (server_ok X (w_clock w) sc rc sk \<longrightarrow> errs = [])"
proof (cases "\<exists>c root k. sc = Some c \<and> rc = Some root \<and> sk = Some k")
  case True
  then obtain c root k where 1: "sc = Some c" "rc = Some root" "sk = Some k" by blast
  show ?thesis
  proof (cases "verifyPrivateKeyMatchesCertificate k c")
    case None
    with assms 1 show ?thesis
      by (cases "x_Verify X (w_clock w) root c")
        (auto simp: check_server_def server_ok_def io_return_def io_then_def verify_against_quiet)
  next
    case (Some e)
    with 1 show ?thesis by (auto simp: check_server_def server_ok_def io_return_def)
  qed
next
  case False
  then show ?thesis
    by (cases sc; cases rc; cases sk) (auto simp: check_server_def server_ok_def io_return_def)
qed

lemma Inspect_quiet:
  assumes w: "quiet w" and c: "strings_TrimSpace c = c" "c \<noteq> []" and k: "strings_TrimSpace k = k" "k \<noteq> []"
  shows "(\<exists>st. fst (InspectTLSArtifacts X c k w) = Inr (st, None) \<and> ts_OverallValid st)
    \<longleftrightarrow> valid_at X (w_clock w) (w_fs w) c k (tlsRootCertPath c)"
proof -
  let ?t = "w_fs w" and ?r = "tlsRootCertPath c"
  define rd :: "bool \<Rightarrow> certificate result \<Rightarrow> string \<Rightarrow> certificate option \<times> string list" where
    "rd there r what = (if \<not> there then (None, []) else
      (case r of Inl e \<Rightarrow> (None, [what @ '': '' @ err_Error e]) | Inr x \<Rightarrow> (Some x, [])))" for there r what
  obtain sc e1 where 1: "rd (exists_at ?t c) (cert_at X ?t c) ''read server cert'' = (sc, e1)" by force
  obtain rc e2 where 2: "rd (exists_at ?t ?r) (cert_at X ?t ?r) ''read root cert'' = (rc, e2)" by force
  obtain sk e3 where 3: "(if \<not> exists_at ?t k then (None, []) else
      (case key_at X ?t k of Inl e \<Rightarrow> (None, [''read server key'' @ '': '' @ err_Error e]) | Inr x \<Rightarrow> (Some x, []))) = (sk, e3)"
    by force
  obtain e4 where 4: "check_server X sc rc sk w = (Inr (server_ok X (w_clock w) sc rc sk, e4), w)"
    and e4: "server_ok X (w_clock w) sc rc sk \<longrightarrow> e4 = []"
    using check_server_quiet [OF w] by blast
  have "(\<exists>st. fst (InspectTLSArtifacts X c k w) = Inr (st, None) \<and> ts_OverallValid st)
    \<longleftrightarrow> e1 @ e2 @ e3 @ e4 = [] \<and> server_ok X (w_clock w) sc rc sk
      \<and> (case rc of None \<Rightarrow> False | Some c \<Rightarrow> ct_IsCA c) \<and> exists_at ?t k"
    using w c k 1 2 3 4 by (auto simp: InspectTLSArtifacts_def Let_def io_then_def io_return_def quiet_runs rd_def)
  also have "\<dots> \<longleftrightarrow> valid_at X (w_clock w) ?t c k ?r"
    using 1 2 3 e4 by (auto simp: rd_def valid_at_def server_ok_def split: if_splits sum.splits)
  finally show ?thesis .
qed

section \<open>Writing\<close>

definition slot :: "fstree \<Rightarrow> string \<Rightarrow> bool" where
  "slot t p \<longleftrightarrow> walk_dirs t [] (path_elems (filepath_Dir p)) = None \<and> walk_dirs t [] (butlast (path_elems p)) = None
    \<and> path_elems p \<noteq> [] \<and> (\<forall>m. tree_get t (path_elems p) \<noteq> Some (Directory m))"

lemma make_dirs_there: "walk_dirs t q cs = None \<Longrightarrow> make_dirs now q cs t = (None, t)"
  by (induction cs arbitrary: q) (auto split: option.splits node.splits)

lemma os_MkdirAll_quiet [quiet_runs]: "quiet w \<Longrightarrow> slot (w_fs w) p \<Longrightarrow> os_MkdirAll (filepath_Dir p) w = (Inr (), w)"
  by (simp add: os_MkdirAll_def slot_def quiet_def make_dirs_there)

lemma os_WriteFile_quiet [quiet_runs]: "quiet w \<Longrightarrow> slot (w_fs w) p \<Longrightarrow>
    os_WriteFile p d w = (Inr (), w\<lparr>w_fs := tree_put (path_elems p) (File d (w_clock w)) (w_fs w)\<rparr>)"
  by (auto simp: os_WriteFile_def open_target_def slot_def quiet_def split: option.splits node.splits)

lemma walk_dirs_put_file:
  assumes "walk_dirs t q cs = None" and "\<forall>m. tree_get t k \<noteq> Some (Directory m)" and "k \<noteq> []"
  shows "walk_dirs (tree_put k (File d m) t) q cs = None"
  using assms(1)
proof (induction cs arbitrary: q)
  case (Cons c cs)
  then obtain n where n: "tree_get t (q @ [c]) = Some (Directory n)" "walk_dirs t (q @ [c]) cs = None"
    by (auto split: option.splits node.splits)
  then have "q @ [c] \<noteq> k" using assms(2) by auto
  with n Cons.IH [OF n(2)] show ?case by (simp add: tree_get_put)
qed simp

lemma slot_put: "slot t p \<Longrightarrow> slot t q \<Longrightarrow> slot (tree_put (path_elems q) (File d m) t) p"
  by (auto simp: slot_def tree_get_put walk_dirs_put_file)

lemma lookup_put:
  "slot t p \<Longrightarrow> slot t q \<Longrightarrow> lookup_node (tree_put (path_elems q) (File d m) t) (path_elems p) =
    (if path_elems p = path_elems q then Inr (File d m) else lookup_node t (path_elems p))"
  by (auto simp: slot_def lookup_node_def tree_get_put walk_dirs_put_file)

lemma read_put:
  "slot t p \<Longrightarrow> slot t q \<Longrightarrow> read_at (tree_put (path_elems q) (File d m) t) p =
    (if path_elems p = path_elems q then Inr d else read_at t p)"
  by (simp add: read_at_def lookup_put)

lemma exists_put:
  "slot t p \<Longrightarrow> slot t q \<Longrightarrow> exists_at (tree_put (path_elems q) (File d m) t) p =
    (strings_TrimSpace p \<noteq> [] \<and> (path_elems p = path_elems q \<or> exists_at t p))"
  by (auto simp: exists_at_def lookup_put)

section \<open>Creating certificates\<close>

lemma io_rand_quiet [quiet_runs]: "w_rand w = Some b # rs \<Longrightarrow> io_rand w = (Inr b, w\<lparr>w_rand := rs\<rparr>)"
  by (simp add: io_rand_def rand_Read_def)

lemma verifyMatches_iff: "verifyPrivateKeyMatchesCertificate k c = None \<longleftrightarrow> ct_PublicKey c = Some (rsa_public k)"
  by (auto simp: verifyPrivateKeyMatchesCertificate_def rsa_public_def split: option.splits)

lemma tls_lawsD:
  assumes "tls_laws X"
  shows "x_PemDecode X (x_PemEncode X ty b) = Some b" and "x_ParsePKCS1 X (x_MarshalPKCS1 X k) = Inr k"
    and "t + second \<le> x_AddYears X (Suc n) t"
    and "ct_PublicKey p \<noteq> Some (rsa_public k) \<Longrightarrow> \<exists>e. x_CreateCertificate X r tp (Some p) pub k = Inl e"
    and "ct_PublicKey p = Some (rsa_public k) \<Longrightarrow> \<exists>der. x_CreateCertificate X r tp (Some p) pub k = Inr der"
    and "\<exists>der. x_CreateCertificate X r tp None pub k = Inr der"
    and "x_CreateCertificate X r tp p' pub k = Inr der \<Longrightarrow> \<exists>c. x_ParseCertificate X der = Inr c \<and> ct_IsCA c = tp_IsCA tp
      \<and> ct_PublicKey c = Some pub \<and> ct_NotBefore c \<le> tp_NotBefore tp \<and> tp_NotAfter tp < ct_NotAfter c + second
      \<and> (\<forall>root now. p' = Some root \<and> ct_IsCA root \<and> tp_ServerAuth tp
            \<and> ct_NotBefore root \<le> now \<and> now \<le> ct_NotAfter root \<and> tp_NotBefore tp \<le> now \<and> now + second \<le> tp_NotAfter tp
          \<longrightarrow> x_Verify X now root c = None)"
proof -
  note laws = assms [unfolded tls_laws_def]
  note laws2 = conjunct2 [OF laws] note laws3 = conjunct2 [OF laws2]
  note laws4 = conjunct2 [OF laws3] note laws5 = conjunct2 [OF laws4]
  show "x_PemDecode X (x_PemEncode X ty b) = Some b" by (rule conjunct1 [OF laws, rule_format])
  show "x_ParsePKCS1 X (x_MarshalPKCS1 X k) = Inr k" by (rule conjunct1 [OF laws2, rule_format])
  show "t + second \<le> x_AddYears X (Suc n) t" by (rule conjunct1 [OF laws3, rule_format])
  show "ct_PublicKey p \<noteq> Some (rsa_public k) \<Longrightarrow> \<exists>e. x_CreateCertificate X r tp (Some p) pub k = Inl e"
    by (rule iffD2 [OF conjunct1 [OF laws4, rule_format]])
  show "ct_PublicKey p = Some (rsa_public k) \<Longrightarrow> \<exists>der. x_CreateCertificate X r tp (Some p) pub k = Inr der"
    using conjunct1 [OF laws4] by (metis sum.exhaust)
  show "\<exists>der. x_CreateCertificate X r tp None pub k = Inr der" by (rule conjunct1 [OF laws5, rule_format])
  show "x_CreateCertificate X r tp p' pub k = Inr der \<Longrightarrow> \<exists>c. x_ParseCertificate X der = Inr c \<and> ct_IsCA c = tp_IsCA tp
      \<and> ct_PublicKey c = Some pub \<and> ct_NotBefore c \<le> tp_NotBefore tp \<and> tp_NotAfter tp < ct_NotAfter c + second
      \<and> (\<forall>root now. p' = Some root \<and> ct_IsCA root \<and> tp_ServerAuth tp
            \<and> ct_NotBefore root \<le> now \<and> now \<le> ct_NotAfter root \<and> tp_NotBefore tp \<le> now \<and> now + second \<le> tp_NotAfter tp
          \<longrightarrow> x_Verify X now root c = None)" by (rule conjunct2 [OF laws5, rule_format])
qed

text \<open>An authority and its key, good for signing at a time.\<close>

definition good_root :: "gotime \<Rightarrow> certificate \<Rightarrow> rsa_key \<Rightarrow> bool" where
  "good_root now c k \<longleftrightarrow> ct_IsCA c \<and> ct_PublicKey c = Some (rsa_public k) \<and> ct_NotBefore c \<le> now \<and> now \<le> ct_NotAfter c"

lemma parse_pair:
  assumes "tls_laws X" and "encode_pair X der k = (certPEM, keyPEM)"
  shows "parsePEMCertificate X certPEM = x_ParseCertificate X der" and "parsePEMRSAPrivateKey X keyPEM = Inr k"
  using assms(2) tls_lawsD(1,2) [OF assms(1)]
  by (auto simp: encode_pair_def parsePEMCertificate_def parsePEMRSAPrivateKey_def)

lemma generateRootCA_quiet:
  assumes X: "tls_laws X" and w: "quiet w" and r: "w_rand w = Some a # Some b # Some c # rs"
  obtains certPEM keyPEM cert k where "generateRootCA X w = (Inr (certPEM, keyPEM), w\<lparr>w_rand := rs\<rparr>)"
    and "parsePEMCertificate X certPEM = Inr cert" and "parsePEMRSAPrivateKey X keyPEM = Inr k"
    and "good_root (w_clock w) cert k"
proof -
  let ?k = "x_KeyFrom X a"
  define tp where "tp = \<lparr>tp_SerialNumber = b, tp_CommonName = ''Roodox Root CA'', tp_Organization = [''Roodox''],
    tp_NotBefore = w_clock w - 3600 * second, tp_NotAfter = x_AddYears X 10 (w_clock w),
    tp_KeyUsage = [''CertSign'', ''CRLSign'', ''DigitalSignature''], tp_ServerAuth = False,
    tp_IsCA = True, tp_MaxPathLenZero = True, tp_DNSNames = [], tp_IPAddresses = []\<rparr>"
  obtain der where der: "x_CreateCertificate X c tp None (rsa_public ?k) ?k = Inr der"
    using tls_lawsD(6) [OF X] by blast
  obtain certPEM keyPEM where pair: "encode_pair X der ?k = (certPEM, keyPEM)" by force
  from tls_lawsD(7) [OF X der] obtain cert where cert: "x_ParseCertificate X der = Inr cert" "ct_IsCA cert"
    "ct_PublicKey cert = Some (rsa_public ?k)" "ct_NotBefore cert \<le> tp_NotBefore tp"
    "tp_NotAfter tp < ct_NotAfter cert + second" by (auto simp: tp_def)
  have "w_clock w + second \<le> tp_NotAfter tp"
    using tls_lawsD(3) [OF X, of "w_clock w" 9] by (simp add: tp_def eval_nat_numeral)
  then have good: "good_root (w_clock w) cert ?k" using cert by (simp add: good_root_def tp_def)
  have run: "generateRootCA X w = (Inr (certPEM, keyPEM), w\<lparr>w_rand := rs\<rparr>)"
    using w r der pair
    by (simp add: generateRootCA_def rootCATemplate_def io_then_def io_wrap_def io_return_def io_lift_def Let_def quiet_runs tp_def)
  show ?thesis
    by (rule that [OF run _ _ good]) (simp_all add: parse_pair [OF X pair] cert(1))
qed

lemma generateServerCertificate_quiet:
  assumes X: "tls_laws X" and w: "quiet w" and r: "w_rand w = Some a # Some b # Some c # rs"
    and root: "good_root (w_clock w) root rk"
  obtains certPEM keyPEM cert k where
    "generateServerCertificate X root rk w = (Inr (certPEM, keyPEM), w\<lparr>w_rand := rs\<rparr>)"
    and "parsePEMCertificate X certPEM = Inr cert" and "parsePEMRSAPrivateKey X keyPEM = Inr k"
    and "\<not> ct_IsCA cert" and "ct_PublicKey cert = Some (rsa_public k)" and "x_Verify X (w_clock w) root cert = None"
proof -
  let ?k = "x_KeyFrom X a"
  define tp where "tp = \<lparr>tp_SerialNumber = b, tp_CommonName = ''Roodox Server'', tp_Organization = [''Roodox''],
    tp_NotBefore = w_clock w - 3600 * second, tp_NotAfter = x_AddYears X 3 (w_clock w),
    tp_KeyUsage = [''DigitalSignature'', ''KeyEncipherment''], tp_ServerAuth = True,
    tp_IsCA = False, tp_MaxPathLenZero = False, tp_DNSNames = server_dns_names X,
    tp_IPAddresses = [''127.0.0.1'', ''::1'']\<rparr>"
  obtain der where der: "x_CreateCertificate X c tp (Some root) (rsa_public ?k) rk = Inr der"
    using tls_lawsD(5) [OF X, of root rk c tp "rsa_public ?k"] root unfolding good_root_def by blast
  obtain certPEM keyPEM where pair: "encode_pair X der ?k = (certPEM, keyPEM)" by force
  have late: "w_clock w + second \<le> tp_NotAfter tp"
    using tls_lawsD(3) [OF X, of "w_clock w" 2] by (simp add: tp_def eval_nat_numeral)
  from tls_lawsD(7) [OF X der] obtain cert where cert: "x_ParseCertificate X der = Inr cert" "\<not> ct_IsCA cert"
    "ct_PublicKey cert = Some (rsa_public ?k)"
    and ver: "\<And>now. ct_IsCA root \<Longrightarrow> ct_NotBefore root \<le> now \<Longrightarrow> now \<le> ct_NotAfter root \<Longrightarrow>
      tp_NotBefore tp \<le> now \<Longrightarrow> now + second \<le> tp_NotAfter tp \<Longrightarrow> x_Verify X now root cert = None" by (auto simp: tp_def)
  have v: "x_Verify X (w_clock w) root cert = None"
    by (rule ver) (use root late in \<open>simp_all add: good_root_def tp_def\<close>)
  have run: "generateServerCertificate X root rk w = (Inr (certPEM, keyPEM), w\<lparr>w_rand := rs\<rparr>)"
    using w r der pair
    by (simp add: generateServerCertificate_def serverCertificateTemplate_def io_then_def io_wrap_def io_return_def
        io_lift_def Let_def quiet_runs tp_def)
  show ?thesis
    by (rule that [OF run _ _ _ _ v]) (simp_all add: parse_pair [OF X pair] cert)
qed

section \<open>A start\<close>

text \<open>
  The files of the authority that are on disk are of use: when both are there they can be read,
  and a certificate that is an authority's belongs to the key and is within its time.
\<close>

definition root_usable :: "tls_env \<Rightarrow> gotime \<Rightarrow> fstree \<Rightarrow> string \<Rightarrow> string \<Rightarrow> bool" where
  "root_usable X now t rc rk \<longleftrightarrow> (exists_at t rc \<and> exists_at t rk \<longrightarrow>
    (\<exists>cert key. cert_at X t rc = Inr cert \<and> key_at X t rk = Inr key \<and> (ct_IsCA cert \<longrightarrow> good_root now cert key)))"

text \<open>What a step may do to the tree: it keeps places for files, and the files outside a set.\<close>

definition keeps_slots :: "string list set \<Rightarrow> fstree \<Rightarrow> fstree \<Rightarrow> bool" where
  "keeps_slots K t t' \<longleftrightarrow> (\<forall>p. slot t p \<longrightarrow> slot t' p \<and> (path_elems p \<notin> K \<longrightarrow> lookup_node t' (path_elems p) = lookup_node t (path_elems p)))"

lemma keeps_slots_put: "slot t q \<Longrightarrow> keeps_slots {path_elems q} t (tree_put (path_elems q) (File d m) t)"
  by (simp add: keeps_slots_def slot_put lookup_put)

lemma keeps_slots_trans: "keeps_slots K t t1 \<Longrightarrow> keeps_slots L t1 t2 \<Longrightarrow> keeps_slots (K \<union> L) t t2"
  by (simp add: keeps_slots_def)

lemma keeps_slots_refl: "keeps_slots K t t"
  by (simp add: keeps_slots_def)

lemma keeps_slots_at:
  assumes "keeps_slots K t t'" and "slot t p" and "path_elems p \<notin> K"
  shows "cert_at X t' p = cert_at X t p" and "key_at X t' p = key_at X t p" and "exists_at t' p = exists_at t p"
  using assms by (simp_all add: keeps_slots_def cert_at_def key_at_def exists_at_def read_at_def)

lemma put_at:
  assumes "slot t p"
  shows "cert_at X (tree_put (path_elems p) (File d m) t) p = parsePEMCertificate X d"
    and "key_at X (tree_put (path_elems p) (File d m) t) p = parsePEMRSAPrivateKey X d"
    and "exists_at (tree_put (path_elems p) (File d m) t) p = (strings_TrimSpace p \<noteq> [])"
  using assms by (simp_all add: cert_at_def key_at_def read_put exists_put)

lemma new_root_quiet:
  assumes X: "tls_laws X" and w: "quiet w" and r: "w_rand w = Some a # Some b # Some c # rs"
    and slots: "slot (w_fs w) rc" "slot (w_fs w) rk" and ne: "path_elems rc \<noteq> path_elems rk"
    and none: "\<not> (exists_at (w_fs w) rc \<and> exists_at (w_fs w) rk
      \<and> (\<exists>cert key. cert_at X (w_fs w) rc = Inr cert \<and> key_at X (w_fs w) rk = Inr key \<and> ct_IsCA cert))"
    and usable: "root_usable X (w_clock w) (w_fs w) rc rk"
  obtains cert k t' where "loadOrCreateRootCA X rc rk w = (Inr (cert, k), w\<lparr>w_fs := t', w_rand := rs\<rparr>)"
    and "good_root (w_clock w) cert k" and "cert_at X t' rc = Inr cert"
    and "keeps_slots {path_elems rc, path_elems rk} (w_fs w) t'"
    and "exists_at t' rc = (strings_TrimSpace rc \<noteq> [])"
proof -
  let ?t = "w_fs w"
  obtain certPEM keyPEM cert k where gen: "generateRootCA X w = (Inr (certPEM, keyPEM), w\<lparr>w_rand := rs\<rparr>)"
    and pc: "parsePEMCertificate X certPEM = Inr cert" and pk: "parsePEMRSAPrivateKey X keyPEM = Inr k"
    and good: "good_root (w_clock w) cert k" by (rule generateRootCA_quiet [OF X w r])
  define t1 where "t1 = tree_put (path_elems rc) (File certPEM (w_clock w)) ?t"
  define t2 where "t2 = tree_put (path_elems rk) (File keyPEM (w_clock w)) t1"
  have s1: "slot t1 rc" "slot t1 rk" using slots by (simp_all add: t1_def slot_put)
  have k1: "keeps_slots {path_elems rc} ?t t1" unfolding t1_def by (rule keeps_slots_put [OF slots(1)])
  have k2: "keeps_slots {path_elems rk} t1 t2" unfolding t2_def by (rule keeps_slots_put [OF s1(2)])
  have new: "cert_at X t2 rc = Inr cert" "exists_at t2 rc = (strings_TrimSpace rc \<noteq> [])"
      "keeps_slots {path_elems rc, path_elems rk} ?t t2"
    using keeps_slots_at(3) [OF k2 s1(1)] ne put_at(3) [OF slots(1)] keeps_slots_trans [OF k1 k2]
      keeps_slots_at(1) [OF k2 s1(1)] ne put_at(1) [OF slots(1)] pc by (simp_all add: t1_def insert_commute)
  have "stored_root X rc rk w = (Inr None, w)"
    using w none usable
    by (auto simp: stored_root_def root_usable_def io_then_def io_wrap_def io_return_def quiet_runs)
  moreover have "store_new_root X rc rk w = (Inr (cert, k), w\<lparr>w_fs := t2, w_rand := rs\<rparr>)"
    using w slots(1) s1(2) pc pk gen
    by (simp add: store_new_root_def io_then_def io_wrap_def io_return_def io_lift_def generated_root_def
        os_WriteFile_quiet t1_def t2_def)
  ultimately have "loadOrCreateRootCA X rc rk w = (Inr (cert, k), w\<lparr>w_fs := t2, w_rand := rs\<rparr>)"
    by (simp add: loadOrCreateRootCA_def io_then_def)
  with that good new show ?thesis by blast
qed

lemma root_quiet:
  assumes X: "tls_laws X" and w: "quiet w" and r: "w_rand w = map Some bs @ rs" "length bs = 6"
    and slots: "slot (w_fs w) rc" "slot (w_fs w) rk" and ne: "path_elems rc \<noteq> path_elems rk"
    and named: "strings_TrimSpace rc \<noteq> []"
    and usable: "root_usable X (w_clock w) (w_fs w) rc rk"
  obtains cert k t' a b c rs' where "loadOrCreateRootCA X rc rk w = (Inr (cert, k), w\<lparr>w_fs := t', w_rand := Some a # Some b # Some c # rs'\<rparr>)"
    and "good_root (w_clock w) cert k" and "cert_at X t' rc = Inr cert" and "exists_at t' rc"
    and "keeps_slots {path_elems rc, path_elems rk} (w_fs w) t'"
proof -
  obtain a b c d e f where bs: "bs = [a, b, c, d, e, f]"
    using r(2) by (auto simp: length_Suc_conv eval_nat_numeral)
  show ?thesis
  proof (cases "exists_at (w_fs w) rc \<and> exists_at (w_fs w) rk
      \<and> (\<exists>cert key. cert_at X (w_fs w) rc = Inr cert \<and> key_at X (w_fs w) rk = Inr key \<and> ct_IsCA cert)")
    case True
    then obtain cert key where 1: "cert_at X (w_fs w) rc = Inr cert" "key_at X (w_fs w) rk = Inr key" "ct_IsCA cert"
      by blast
    with True usable have "good_root (w_clock w) cert key" by (auto simp: root_usable_def)
    moreover have "stored_root X rc rk w = (Inr (Some (cert, key)), w)"
      using w True 1 by (simp add: stored_root_def io_then_def io_wrap_def io_return_def quiet_runs)
    then have "loadOrCreateRootCA X rc rk w =
        (Inr (cert, key), w\<lparr>w_fs := w_fs w, w_rand := Some a # Some b # Some c # map Some [d, e, f] @ rs\<rparr>)"
      using r bs by (simp add: loadOrCreateRootCA_def io_then_def io_return_def)
    ultimately show ?thesis
      by (intro that [where t' = "w_fs w"]) (use 1 True keeps_slots_refl in simp_all)
  next
    case False
    have "w_rand w = Some a # Some b # Some c # (Some d # Some e # Some f # rs)" using r bs by simp
    from new_root_quiet [OF X w this slots ne False usable] named show ?thesis using that by metis
  qed
qed

section \<open>Calls that fail\<close>

definition keeps_fs :: "'a io \<Rightarrow> bool" where
  "keeps_fs m \<longleftrightarrow> (\<forall>w. w_fs (snd (m w)) = w_fs w)"

definition fails :: "'a io \<Rightarrow> bool" where
  "fails m \<longleftrightarrow> (\<forall>w. \<exists>e w'. m w = (Inl e, w') \<and> w_fs w' = w_fs w)"

lemma keeps_fs_calls: "keeps_fs io_rand" "keeps_fs io_now" "keeps_fs (io_return x)"
  "keeps_fs m \<Longrightarrow> keeps_fs (io_wrap what m)"
proof -
  show "keeps_fs io_rand"
    unfolding keeps_fs_def
  proof
    fix w
    obtain b v where 1: "rand_Read w = (b, v)" by force
    with rand_Read_frame(1) [of w] show "w_fs (snd (io_rand w)) = w_fs w" by (cases b) (simp_all add: io_rand_def)
  qed
  show "keeps_fs io_now" by (simp add: keeps_fs_def io_now_def case_prod_beta time_Now_frame(1))
  show "keeps_fs (io_return x)" by (simp add: keeps_fs_def io_return_def)
  show "keeps_fs m \<Longrightarrow> keeps_fs (io_wrap what m)"
    by (simp add: keeps_fs_def io_wrap_def split: prod.splits sum.splits) (metis snd_conv)
qed

lemma keeps_fs_then: "keeps_fs m \<Longrightarrow> (\<And>x. keeps_fs (f x)) \<Longrightarrow> keeps_fs (io_then m f)"
  by (simp add: keeps_fs_def io_then_def split: prod.splits sum.splits) (metis snd_conv)

lemma fails_then: "keeps_fs m \<Longrightarrow> (\<And>x. fails (f x)) \<Longrightarrow> fails (io_then m f)"
  unfolding fails_def
proof
  fix w
  assume m: "keeps_fs m" and f: "\<And>x. \<forall>w. \<exists>e w'. f x w = (Inl e, w') \<and> w_fs w' = w_fs w"
  obtain r v where 1: "m w = (r, v)" by force
  have v: "w_fs v = w_fs w" using m 1 unfolding keeps_fs_def by (metis snd_conv)
  show "\<exists>e w'. io_then m f w = (Inl e, w') \<and> w_fs w' = w_fs w"
  proof (cases r)
    case (Inl e)
    with 1 v show ?thesis by (simp add: io_then_def)
  next
    case (Inr x)
    obtain e u where "f x v = (Inl e, u)" "w_fs u = w_fs v" using f by blast
    with 1 v Inr show ?thesis by (simp add: io_then_def)
  qed
qed

lemma fails_first:
  assumes "fails m"
  shows "fails (io_then m f)"
  unfolding fails_def
proof
  fix w
  obtain e v where "m w = (Inl e, v)" "w_fs v = w_fs w" using assms unfolding fails_def by blast
  then show "\<exists>e w'. io_then m f w = (Inl e, w') \<and> w_fs w' = w_fs w" by (simp add: io_then_def)
qed

lemma foreign_key_fails:
  assumes "tls_laws X" and "ct_PublicKey cert \<noteq> Some (rsa_public key)"
  shows "fails (generateServerCertificate X cert key)"
proof -
  have create: "fails (io_wrap what (io_lift (x_CreateCertificate X r tp (Some cert) pub key)))" for what r tp pub
    using tls_lawsD(4) [OF assms, of r tp pub] by (auto simp: fails_def io_wrap_def io_lift_def)
  show ?thesis
    unfolding generateServerCertificate_def serverCertificateTemplate_def Let_def
    by (intro fails_then fails_first keeps_fs_then keeps_fs_calls create)
qed

section \<open>A sample library\<close>

text \<open>Certificates as lists of numbers, times as differences.\<close>

fun sample_parse :: "bytes \<Rightarrow> certificate result" where
  "sample_parse [ca, n, e, a, b, c, d] = Inr \<lparr>ct_Raw = [ca, n, e, a, b, c, d], ct_Subject = [], ct_PublicKey = Some (n, e),
     ct_IsCA = (ca = 1), ct_DNSNames = [], ct_NotBefore = int a - int b, ct_NotAfter = int c - int d\<rparr>"
| "sample_parse _ = Inl (ErrorText ''x509'')"

fun sample_parse_key :: "bytes \<Rightarrow> rsa_key result" where
  "sample_parse_key [n, e, d] = Inr \<lparr>rk_N = n, rk_E = e, rk_D = d\<rparr>"
| "sample_parse_key _ = Inl (ErrorText ''pkcs1'')"

definition sample_create :: "bytes \<Rightarrow> cert_template \<Rightarrow> certificate option \<Rightarrow> nat \<times> nat \<Rightarrow> rsa_key \<Rightarrow> bytes result" where
  "sample_create r tp p pub k =
    (if p \<noteq> None \<and> ct_PublicKey (the p) \<noteq> Some (rsa_public k) then Inl (ErrorText ''key does not match parent'')
     else Inr [if tp_IsCA tp then 1 else 0, fst pub, snd pub, nat (tp_NotBefore tp), nat (- tp_NotBefore tp),
       nat (tp_NotAfter tp), nat (- tp_NotAfter tp)])"

definition sample_tls :: tls_env where
  "sample_tls = \<lparr>x_PemDecode = Some, x_PemEncode = (\<lambda>ty b. b), x_ParseCertificate = sample_parse,
     x_ParsePKCS1 = sample_parse_key, x_ParsePKCS8 = (\<lambda>_. Inl (ErrorText ''pkcs8'')),
     x_MarshalPKCS1 = (\<lambda>k. [rk_N k, rk_E k, rk_D k]),
     x_KeyFrom = (\<lambda>b. \<lparr>rk_N = sum_list b, rk_E = 65537, rk_D = length b\<rparr>), x_CreateCertificate = sample_create,
     x_Verify = (\<lambda>now root c. if ct_IsCA root \<and> ct_NotBefore c \<le> now \<and> now \<le> ct_NotAfter c
        then None else Some (ErrorText ''x509'')),
     x_AddYears = (\<lambda>n t. t + int n * (31536000 * second)), x_Hostname = Inr ''host'', x_TimeFormat = (\<lambda>_. [])\<rparr>"

lemma sample_tls_laws: "tls_laws sample_tls"
proof -
  have t: "int (nat i) - int (nat (- i)) = i" for i by simp
  show ?thesis
    unfolding tls_laws_def
    by (intro conjI allI) (auto simp: sample_tls_def sample_create_def t split: if_splits)
qed

section \<open>Properties\<close>

text \<open>
  The two checks of the certificates agree: with nothing failing, the inspection an
  operator runs reports overall validity without an error exactly when the check of a start
  accepts the files.
\<close>

theorem tls_checks_agree:
  assumes "quiet w" and "strings_TrimSpace c = c" and "c \<noteq> []" and "strings_TrimSpace k = k" and "k \<noteq> []"
  shows "fst (hasValidTLSArtifacts X c k (tlsRootCertPath c) w) = Inr True
    \<longleftrightarrow> (\<exists>st. fst (InspectTLSArtifacts X c k w) = Inr (st, None) \<and> ts_OverallValid st)"
  using hasValid_quiet(2) [OF assms(1)] Inspect_quiet [OF assms] by simp


definition sample_tls_world :: world where
  "sample_tls_world = (quiet_world [([''certs''], Directory 0)] empty_db)
     \<lparr>w_rand := [Some [1], Some [2], Some [3], Some [4], Some [5], Some [6]]\<rparr>"

lemma sample_tls_world_simps:
  "quiet sample_tls_world" "w_rand sample_tls_world = map Some [[1], [2], [3], [4], [5], [6]] @ []"
  "w_fs sample_tls_world = [([''certs''], Directory 0)]"
  by (simp_all add: sample_tls_world_def)

lemma sample_paths:
  "tlsRootCertPath ''/certs/s.pem'' = ''/certs/roodox-ca-cert.pem''" "tlsRootKeyPath ''/certs/s.pem'' = ''/certs/roodox-ca-key.pem''"
  "path_elems ''/certs/s.pem'' = [''certs'', ''s.pem'']" "path_elems ''/certs/k.pem'' = [''certs'', ''k.pem'']"
  "path_elems ''/certs/roodox-ca-cert.pem'' = [''certs'', ''roodox-ca-cert.pem'']"
  "path_elems ''/certs/roodox-ca-key.pem'' = [''certs'', ''roodox-ca-key.pem'']"
  "path_elems (filepath_Dir ''/certs/s.pem'') = [''certs'']" "path_elems (filepath_Dir ''/certs/k.pem'') = [''certs'']"
  "path_elems (filepath_Dir ''/certs/roodox-ca-cert.pem'') = [''certs'']"
  "path_elems (filepath_Dir ''/certs/roodox-ca-key.pem'') = [''certs'']"
  "strings_TrimSpace ''/certs/s.pem'' = ''/certs/s.pem''" "strings_TrimSpace ''/certs/k.pem'' = ''/certs/k.pem''"
  "strings_TrimSpace ''/certs/roodox-ca-cert.pem'' = ''/certs/roodox-ca-cert.pem''"
  "strings_TrimSpace ''/certs/roodox-ca-key.pem'' = ''/certs/roodox-ca-key.pem''"
  by code_simp+

lemma sample_slots:
  "\<forall>p\<in>set [''/certs/s.pem'', ''/certs/k.pem'', tlsRootCertPath ''/certs/s.pem'', tlsRootKeyPath ''/certs/s.pem''].
    slot [([''certs''], Directory 0)] p \<and> strings_TrimSpace p \<noteq> []"
  "distinct (map path_elems [''/certs/s.pem'', ''/certs/k.pem'', tlsRootCertPath ''/certs/s.pem'', tlsRootKeyPath ''/certs/s.pem''])"
  by (simp_all add: sample_paths slot_def tree_get_def)

lemma sample_no_files: "\<not> exists_at [([''certs''], Directory 0)] ''/certs/s.pem''"
  "\<not> exists_at [([''certs''], Directory 0)] (tlsRootCertPath ''/certs/s.pem'')"
  by code_simp+


theorem tls_checks_agree_witness:
  "\<not> (\<exists>st. fst (InspectTLSArtifacts sample_tls ''/certs/s.pem'' ''/certs/k.pem'' sample_tls_world) = Inr (st, None) \<and> ts_OverallValid st)"
  using tls_checks_agree [OF sample_tls_world_simps(1) sample_paths(11) _ sample_paths(12), of sample_tls] sample_no_files
  by (simp add: hasValidTLSArtifacts_def io_then_def io_return_def quiet_runs sample_tls_world_simps)


definition sample_torn_tree :: fstree where
  "sample_torn_tree = [([''certs''], Directory 0), ([''certs'', ''roodox-ca-cert.pem''], File [1, 7, 65537, 0, 1, 9, 0] 0),
     ([''certs'', ''roodox-ca-key.pem''], File [8, 65537, 1] 0)]"

lemma sample_torn:
  "exists_at sample_torn_tree ''/certs/roodox-ca-cert.pem''" "exists_at sample_torn_tree ''/certs/roodox-ca-key.pem''"
  "\<not> exists_at sample_torn_tree ''/certs/s.pem''"
  "read_at sample_torn_tree ''/certs/roodox-ca-cert.pem'' = Inr [1, 7, 65537, 0, 1, 9, 0]"
  "read_at sample_torn_tree ''/certs/roodox-ca-key.pem'' = Inr [8, 65537, 1]"
  by (simp_all add: exists_at_def read_at_def lookup_node_def sample_paths sample_torn_tree_def tree_get_def)


end
