(* ===== verification/BuildCommands.thy ===== *)
theory BuildCommands
  imports BuildService SyncService GoGlob GoIO
begin

text \<open>
  \<open>internal/server/build_service.go\<close>, the build itself: which kind of project a directory holds,
  the isolated copy it is built in, the tools that are run, the CMake file API, and the product.

  A tool is a parameter: it prints chunks of output, ends well or with an error, and may change the
  tree. So are the two JSON decoders and the verb \<open>%q\<close>. Paths hold no metacharacters of
  \<open>filepath.Glob\<close>, and the times of the replies that CMake wrote can be read.
\<close>

section \<open>The state of a build\<close>

record build_tools =
  bt_run :: "string \<Rightarrow> string \<Rightarrow> string list \<Rightarrow> world \<Rightarrow> (string list \<times> goerr option) \<times> world"
  bt_index :: "bytes \<Rightarrow> (string \<times> string) list result"
  bt_codemodel :: "bytes \<Rightarrow> string list list result"
  bt_quote :: "string \<Rightarrow> string"

text \<open>The world, and the entries appended to the log so far.\<close>

type_synonym build_state = "world \<times> string list"
type_synonym 'a build = "build_state \<Rightarrow> 'a result \<times> build_state"

definition on_world :: "'a io \<Rightarrow> 'a build" where
  "on_world m s = (case s of (w, entries) \<Rightarrow> (case m w of (r, w1) \<Rightarrow> (r, (w1, entries))))"

definition appendLog :: "string list \<Rightarrow> unit build" where
  "appendLog new s = (case s of (w, entries) \<Rightarrow> (Inr (), (w, entries @ new)))"

section \<open>Files\<close>

definition file_exists :: "string \<Rightarrow> bool io" where
  "file_exists path w = (case os_Stat path w of (Inl e, w1) \<Rightarrow> (Inr False, w1) | (Inr info, w1) \<Rightarrow> (Inr True, w1))"

definition firstMatch :: "string \<Rightarrow> string \<Rightarrow> string io" where
  "firstMatch root pattern w =
    (case filepath_Glob root pattern w of (matches, w1) \<Rightarrow> (Inr (case matches of [] \<Rightarrow> [] | m # ms \<Rightarrow> m), w1))"

definition detectBuildKind :: "string \<Rightarrow> string io" where
  "detectBuildKind unitAbs =
    io_then (file_exists (filepath_Join [unitAbs, ''CMakeLists.txt''])) (\<lambda>b. if b then io_return ''cmake'' else
    io_then (file_exists (filepath_Join [unitAbs, ''Makefile''])) (\<lambda>b. if b then io_return ''make'' else
    io_then (firstMatch unitAbs ''*.sln'') (\<lambda>sln. io_return (if sln \<noteq> [] then ''msbuild'' else []))))"

text \<open>\<open>os.Open\<close> to read, \<open>os.OpenFile\<close> with \<open>O_CREATE|O_WRONLY|O_TRUNC\<close>, and \<open>io.Copy\<close>.\<close>

definition os_Open :: "string \<Rightarrow> unit io" where
  "os_Open p = with_fault (\<lambda>w.
    (case lookup_node (w_fs w) (path_elems p) of
       Inl e \<Rightarrow> (Inl (PathError ''open'' p e), w) | Inr n \<Rightarrow> (Inr (), w)))"

definition os_OpenTrunc :: "string \<Rightarrow> unit io" where
  "os_OpenTrunc p = with_fault (\<lambda>w.
    (case open_target (w_fs w) (path_elems p) of
       Inl e \<Rightarrow> (Inl (PathError ''open'' p e), w)
     | Inr _ \<Rightarrow> (Inr (), w\<lparr>w_fs := tree_put (path_elems p) (File [] (w_clock w)) (w_fs w)\<rparr>)))"

definition io_Copy :: "string \<Rightarrow> string \<Rightarrow> unit io" where
  "io_Copy src dst = with_fault (\<lambda>w.
    (case tree_get (w_fs w) (path_elems src) of
       Some (File d _) \<Rightarrow> (Inr (), w\<lparr>w_fs := tree_put (path_elems dst) (File d (w_clock w)) (w_fs w)\<rparr>)
     | _ \<Rightarrow> (Inl (PathError ''read'' src EISDIR), w)))"

definition copyFile :: "string \<Rightarrow> string \<Rightarrow> unit io" where
  "copyFile src dst =
    io_then (os_MkdirAll (filepath_Dir dst)) (\<lambda>_.
    io_then (os_Open src) (\<lambda>_.
    io_then (os_OpenTrunc dst) (\<lambda>_ w.
      (case io_Copy src dst w of
         (copyErr, w1) \<Rightarrow>
         (case file_Close w1 of
            (closeErr, w2) \<Rightarrow> (case copyErr of Inl e \<Rightarrow> (Inl e, w2) | Inr _ \<Rightarrow> (closeErr, w2)))))))"

text \<open>
  \<open>filepath.WalkDir\<close> over the source: the callback makes a directory before the walk reads it. The
  walk descends at most as deep as the tree; a destination inside the source, which the program would
  copy into itself until a path is too long, is cut at that depth.
\<close>

fun copy_entries :: "nat \<Rightarrow> string \<Rightarrow> string \<Rightarrow> string \<Rightarrow> (string \<times> node) list \<Rightarrow> unit io" where
  "copy_entries fuel src dst dir [] = io_return ()"
| "copy_entries 0 src dst dir (e # es) = io_return ()"
| "copy_entries (Suc fuel) src dst dir ((name, n) # es) =
    io_then (case filepath_Rel src (filepath_Join [dir, name]) of
        Inl e \<Rightarrow> io_fail e
      | Inr rel \<Rightarrow>
        if rel \<noteq> ''.'' \<and> ShouldIgnoreInProjectScan name then io_return ()
        else
          io_then (entry_Info n) (\<lambda>info.
          let path = filepath_Join [dir, name]; targetPath = (if rel \<noteq> ''.'' then filepath_Join [dst, rel] else dst) in
          if is_dir n then
            io_then (os_MkdirAll targetPath) (\<lambda>_.
            io_then (os_ReadDir path) (\<lambda>entries. copy_entries fuel src dst path entries))
          else copyFile path targetPath)) (\<lambda>_.
    copy_entries (Suc fuel) src dst dir es)"

definition copyDir :: "string \<Rightarrow> string \<Rightarrow> unit io" where
  "copyDir src dst =
    io_then (os_Stat src) (\<lambda>root.
      if is_dir root then
        io_then (os_MkdirAll dst) (\<lambda>_.
        io_then (os_ReadDir src) (\<lambda>entries w. copy_entries (tree_depth (w_fs w) + 1) src dst src entries w))
      else copyFile src dst)"

definition prepareIsolatedBuildWorkspace :: "string \<Rightarrow> string \<Rightarrow> string io" where
  "prepareIsolatedBuildWorkspace unitAbs buildRoot =
    io_then (copyDir unitAbs (filepath_Join [buildRoot, ''workspace''])) (\<lambda>_.
      io_return (filepath_Join [buildRoot, ''workspace'']))"

section \<open>Sizes and products\<close>

text \<open>\<open>filepath.Walk\<close> that passes over what cannot be read.\<close>

fun walk_bytes :: "nat \<Rightarrow> string \<Rightarrow> (string \<times> node) list \<Rightarrow> world \<Rightarrow> int \<times> world" where
  "walk_bytes fuel dir [] w = (0, w)"
| "walk_bytes 0 dir (e # es) w = (0, w)"
| "walk_bytes (Suc fuel) dir ((name, n) # es) w =
    (let path = filepath_Join [dir, name] in
     case (case os_Stat path w of
             (Inl e, w1) \<Rightarrow> (0, w1)
           | (Inr (File d m), w1) \<Rightarrow> (int (length d), w1)
           | (Inr (Directory m), w1) \<Rightarrow>
             (case os_ReadDir path w1 of (Inl e, w2) \<Rightarrow> (0, w2) | (Inr entries, w2) \<Rightarrow> walk_bytes fuel path entries w2)) of
       (b, w3) \<Rightarrow> (case walk_bytes (Suc fuel) dir es w3 of (bs, w4) \<Rightarrow> (b + bs, w4)))"

definition buildPathSize :: "string \<Rightarrow> world \<Rightarrow> int \<times> world" where
  "buildPathSize path w =
    (if strings_TrimSpace path = [] then (0, w)
     else
       (case os_Stat path w of
          (Inl e, w1) \<Rightarrow> (0, w1)
        | (Inr (File d m), w1) \<Rightarrow> (int (length d), w1)
        | (Inr (Directory m), w1) \<Rightarrow>
          (case os_Stat path w1 of
             (Inl e, w2) \<Rightarrow> (0, w2)
           | (Inr (File d m), w2) \<Rightarrow> (int (length d), w2)
           | (Inr (Directory m), w2) \<Rightarrow>
             (case os_ReadDir path w2 of
                (Inl e, w3) \<Rightarrow> (0, w3)
              | (Inr entries, w3) \<Rightarrow> walk_bytes (tree_depth (w_fs w3) + 1) path entries w3))))"

fun product_files :: "nat \<Rightarrow> string \<Rightarrow> (string \<times> node) list \<Rightarrow> world \<Rightarrow> (string \<times> gotime) list \<times> world" where
  "product_files fuel dir [] w = ([], w)"
| "product_files 0 dir (e # es) w = ([], w)"
| "product_files (Suc fuel) dir ((name, n) # es) w =
    (let path = filepath_Join [dir, name] in
     case (if is_dir n then
             (case os_ReadDir path w of (Inl e, w1) \<Rightarrow> ([], w1) | (Inr entries, w1) \<Rightarrow> product_files fuel path entries w1)
           else if \<not> looksLikeProduct path then ([], w)
           else (case entry_Info n w of (Inl e, w1) \<Rightarrow> ([], w1) | (Inr info, w1) \<Rightarrow> ([(path, node_mtime info)], w1))) of
       (files, w1) \<Rightarrow> (case product_files (Suc fuel) dir es w1 of (rest, w2) \<Rightarrow> (files @ rest, w2)))"

definition latest_product :: "string \<Rightarrow> string io" where
  "latest_product root w =
    (case os_Stat root w of
       (Inl e, w1) \<Rightarrow> (Inr [], w1)
     | (Inr (File d m), w1) \<Rightarrow> (Inr (findLatestProduct [(root, m)]), w1)
     | (Inr (Directory m), w1) \<Rightarrow>
       (case os_ReadDir root w1 of
          (Inl e, w2) \<Rightarrow> (Inr [], w2)
        | (Inr entries, w2) \<Rightarrow>
          (case product_files (tree_depth (w_fs w2) + 1) root entries w2 of
             (files, w3) \<Rightarrow> (Inr (findLatestProduct files), w3))))"

section \<open>The CMake file API\<close>

definition ensureCMakeFileAPIQuery :: "string \<Rightarrow> unit io" where
  "ensureCMakeFileAPIQuery buildDir =
    (let queryFile = filepath_Join [buildDir, ''.cmake'', ''api'', ''v1'', ''query'', ''codemodel-v2''] in
     io_then (os_MkdirAll (filepath_Dir queryFile)) (\<lambda>_.
     io_then (file_exists queryFile) (\<lambda>b. if b then io_return () else os_WriteFile queryFile [])))"

definition latestCMakeFileAPIIndex :: "string \<Rightarrow> string io" where
  "latestCMakeFileAPIIndex replyDir w =
    (case filepath_Glob replyDir ''index-*.json'' w of
       (matches, w1) \<Rightarrow>
       (case sort_key (\<lambda>p. (Desc (path_mtime w1 p), Desc p)) matches of
          [] \<Rightarrow> (Inl (Sentinel ErrNotExist), w1) | m # ms \<Rightarrow> (Inr m, w1)))"

definition listCMakeTargetsFromFileAPI :: "build_tools \<Rightarrow> string \<Rightarrow> string list io" where
  "listCMakeTargetsFromFileAPI T buildDir =
    (let replyDir = filepath_Join [buildDir, ''.cmake'', ''api'', ''v1'', ''reply''] in
     io_then (latestCMakeFileAPIIndex replyDir) (\<lambda>indexPath.
     io_then (os_ReadFile indexPath) (\<lambda>indexData.
     io_then (io_lift (bt_index T indexData)) (\<lambda>objects.
     case find (\<lambda>(kind, jsonFile). kind = ''codemodel'' \<and> strings_TrimSpace jsonFile \<noteq> []) objects of
       None \<Rightarrow> io_fail (ErrorText ''cmake codemodel reply not found'')
     | Some (kind, codemodelFile) \<Rightarrow>
       io_then (os_ReadFile (filepath_Join [replyDir, codemodelFile])) (\<lambda>codemodelData.
       io_then (io_lift (bt_codemodel T codemodelData)) (\<lambda>configurations.
         io_return (dedupeSortedTargets (flattenCMakeTargets configurations))))))))"

definition listCMakeTargetsFromVisualStudioProjects :: "string \<Rightarrow> string list io" where
  "listCMakeTargetsFromVisualStudioProjects buildDir w =
    (case filepath_Glob buildDir ''*.vcxproj'' w of
       (matches, w1) \<Rightarrow>
         (Inr (dedupeSortedTargets (filter (\<lambda>t. t \<noteq> []) (map (\<lambda>m.
            let b = filepath_Base m; ext = filepath_Ext m in
            strings_TrimSpace (if strings_HasSuffix b ext then take (length b - length ext) b else b)) matches))), w1))"

text \<open>The targets, and the error that is returned beside them.\<close>

definition listCMakeTargets :: "build_tools \<Rightarrow> string \<Rightarrow> world \<Rightarrow> (string list \<times> goerr option) \<times> world" where
  "listCMakeTargets T buildDir w =
    (case listCMakeTargetsFromFileAPI T buildDir w of
       (Inr (t # ts), w1) \<Rightarrow> ((t # ts, None), w1)
     | (r, w1) \<Rightarrow>
       (case listCMakeTargetsFromVisualStudioProjects buildDir w1 of
          (Inr (t # ts), w2) \<Rightarrow> ((t # ts, None), w2)
        | (fallback, w2) \<Rightarrow>
          (case (r, fallback) of
             (Inl err, Inl fallbackErr) \<Rightarrow>
               (([], Some (ErrorText (''file_api='' @ err_Error err @ ''; vcxproj_scan='' @ err_Error fallbackErr))), w2)
           | (Inl err, Inr _) \<Rightarrow> (([], Some err), w2)
           | (Inr _, Inl fallbackErr) \<Rightarrow> (([], Some fallbackErr), w2)
           | (Inr _, Inr targets) \<Rightarrow> ((targets, None), w2))))"

section \<open>Running the tools\<close>

definition runCmd :: "build_tools \<Rightarrow> string \<Rightarrow> string \<Rightarrow> string list \<Rightarrow> unit build" where
  "runCmd T dir name args =
    io_then (appendLog [''run: '' @ name @ '' '' @ strings_Join args '' '' @ newline]) (\<lambda>_ s.
      (case s of (w, entries) \<Rightarrow>
       (case bt_run T dir name args w of
          ((chunks, err), w1) \<Rightarrow>
            (case err of None \<Rightarrow> Inr () | Some e \<Rightarrow> Inl e, (w1, entries @ chunks)))))"

definition listed_targets :: "build_tools \<Rightarrow> string \<Rightarrow> string list build" where
  "listed_targets T buildDir s =
    (case s of (w, entries) \<Rightarrow>
     (case listCMakeTargets T buildDir w of
        ((targets, err), w1) \<Rightarrow>
          (Inr targets, (w1, entries @ (case err of None \<Rightarrow> []
             | Some e \<Rightarrow> [''warn: list cmake targets failed: '' @ err_Error e @ newline])))))"

definition build_cmake :: "build_tools \<Rightarrow> string \<Rightarrow> string \<Rightarrow> string \<Rightarrow> string build" where
  "build_cmake T unitAbs buildRoot target =
    (let buildDir = filepath_Join [buildRoot, ''build''] in
     io_then (on_world (os_MkdirAll buildDir)) (\<lambda>_.
     io_then (on_world (ensureCMakeFileAPIQuery buildDir)) (\<lambda>_.
     io_then (runCmd T unitAbs ''cmake'' [''-S'', ''.'', ''-B'', buildDir]) (\<lambda>_.
     io_then (listed_targets T buildDir) (\<lambda>targets.
     io_then (\<lambda>s. (resolveCMakeBuildTarget (bt_quote T) target targets, s)) (\<lambda>resolvedTarget.
     io_then (if resolvedTarget = [] \<and> strings_TrimSpace target \<noteq> []
         then appendLog [''info: normalize cmake target '' @ bt_quote T target @ '' to default build'' @ newline]
         else io_return ()) (\<lambda>_.
     io_then (runCmd T unitAbs ''cmake''
         ([''--build'', buildDir] @ (if resolvedTarget \<noteq> [] then [''--target'', resolvedTarget] else []))) (\<lambda>_.
       on_world (latest_product buildDir)))))))))"

definition build_make :: "build_tools \<Rightarrow> string \<Rightarrow> string \<Rightarrow> string \<Rightarrow> string build" where
  "build_make T unitAbs buildRoot target =
    io_then (on_world (prepareIsolatedBuildWorkspace unitAbs buildRoot)) (\<lambda>workDir.
    io_then (runCmd T workDir ''make'' (if target \<noteq> [] then [target] else [])) (\<lambda>_.
      on_world (latest_product workDir)))"

definition build_msbuild :: "build_tools \<Rightarrow> string \<Rightarrow> string \<Rightarrow> string \<Rightarrow> string build" where
  "build_msbuild T unitAbs buildRoot target =
    io_then (on_world (prepareIsolatedBuildWorkspace unitAbs buildRoot)) (\<lambda>workDir.
    io_then (on_world (firstMatch workDir ''*.sln'')) (\<lambda>sln.
    if sln = [] then io_fail (ErrorText ''no .sln found under unit_path'')
    else
      io_then (runCmd T workDir ''msbuild'' (sln # (if target \<noteq> [] then [''/t:'' @ target] else []))) (\<lambda>_.
        on_world (latest_product workDir))))"

definition runBuildCommands :: "build_tools \<Rightarrow> string \<Rightarrow> string \<Rightarrow> string \<Rightarrow> string build" where
  "runBuildCommands T unitAbs buildRoot target =
    io_then (on_world (detectBuildKind unitAbs)) (\<lambda>detected.
      if detected = ''cmake'' then build_cmake T unitAbs buildRoot target
      else if detected = ''make'' then build_make T unitAbs buildRoot target
      else if detected = ''msbuild'' then build_msbuild T unitAbs buildRoot target
      else io_fail (ErrorText ''unsupported build unit: need CMakeLists.txt, Makefile, or .sln''))"

end
