(* ===== verification/BuildLaws.thy ===== *)
theory BuildLaws
  imports BuildCommands ServiceLaws
begin

text \<open>
  What a build does to the tree. Whatever fails, the commands themselves write only under the
  directory of the build; and without failures the isolated workspace is an exact copy of the
  project, less what a project scan ignores.
\<close>

section \<open>Steps that stay within a set of paths\<close>

definition touches :: "string list set \<Rightarrow> world \<Rightarrow> world \<Rightarrow> bool" where
  "touches K w w' \<longleftrightarrow> (\<forall>k. k \<notin> K \<longrightarrow> tree_get (w_fs w') k = tree_get (w_fs w) k)"

text \<open>On trees whose names are plain, the call writes only within the set and keeps names plain.\<close>

definition safe :: "string list set \<Rightarrow> ('s \<Rightarrow> world) \<Rightarrow> ('s \<Rightarrow> 'r \<times> 's) \<Rightarrow> bool" where
  "safe K world_of m \<longleftrightarrow> (\<forall>s r s'. m s = (r, s') \<longrightarrow> tree_ok (w_fs (world_of s)) \<longrightarrow>
    touches K (world_of s) (world_of s') \<and> tree_ok (w_fs (world_of s')))"

abbreviation safe_io :: "string list set \<Rightarrow> (world \<Rightarrow> 'r \<times> world) \<Rightarrow> bool" where
  "safe_io K \<equiv> safe K (\<lambda>w. w)"

abbreviation safe_build :: "string list set \<Rightarrow> 'a build \<Rightarrow> bool" where
  "safe_build K \<equiv> safe K fst"

lemma touches_refl [simp]: "touches K w w"
  by (simp add: touches_def)

lemma touches_trans: "touches K w w1 \<Longrightarrow> touches K w1 w2 \<Longrightarrow> touches K w w2"
  by (simp add: touches_def)

lemma fs_step_touches: "fs_step K w w' \<Longrightarrow> K \<subseteq> L \<Longrightarrow> touches L w w'"
  by (auto simp: touches_def fs_step_def)

named_theorems safes \<open>calls that stay within a set\<close>

lemma safe_then:
  assumes "safe K wo m" and "\<And>x. Q x \<Longrightarrow> safe K wo (f x)"
    and "\<And>s x s'. m s = (Inr x, s') \<Longrightarrow> tree_ok (w_fs (wo s)) \<Longrightarrow> Q x"
  shows "safe K wo (io_then m f)"
  unfolding safe_def
proof (intro allI impI)
  fix s r s' assume run: "io_then m f s = (r, s')" and ok: "tree_ok (w_fs (wo s))"
  obtain x s1 where 1: "m s = (x, s1)" by force
  with assms(1) ok have s1: "touches K (wo s) (wo s1)" "tree_ok (w_fs (wo s1))" unfolding safe_def by blast+
  show "touches K (wo s) (wo s') \<and> tree_ok (w_fs (wo s'))"
  proof (cases x)
    case (Inl e)
    with run 1 s1 show ?thesis by (simp add: io_then_def)
  next
    case (Inr v)
    with run 1 have "f v s1 = (r, s')" by (simp add: io_then_def)
    with assms(2) [OF assms(3) [OF 1 [unfolded Inr] ok]] s1 show ?thesis
      unfolding safe_def using touches_trans by blast
  qed
qed

lemma safe_then_any [safes]: "safe K wo m \<Longrightarrow> (\<And>x. safe K wo (f x)) \<Longrightarrow> safe K wo (io_then m f)"
  by (rule safe_then [where Q = "\<lambda>_. True"]) auto

lemma safe_return [safes]: "safe K wo (io_return x)" "safe K wo (io_fail e)"
  by (simp_all add: safe_def io_return_def io_fail_def)

lemma safe_if [safes]: "safe K wo m \<Longrightarrow> safe K wo m' \<Longrightarrow> safe K wo (if b then m else m')"
  by simp

lemma safe_lift [safes]: "safe_io K (io_lift r)"
  by (simp add: safe_def io_lift_def)

lemma safe_on_world [safes]: "safe_io K m \<Longrightarrow> safe_build K (on_world m)"
  by (auto simp: safe_def on_world_def split: prod.splits)

lemma safe_appendLog [safes]: "safe_build K (appendLog es)"
  by (auto simp: safe_def appendLog_def split: prod.splits)

lemma safe_result [safes]: "safe K wo (\<lambda>s. (r, s))"
  by (simp add: safe_def)

section \<open>Calls of the system\<close>

lemma safe_read:
  assumes "\<And>w r w'. k w = (r, w') \<Longrightarrow> w' = w"
  shows "safe_io K (with_fault k)"
  unfolding safe_def
proof (intro allI impI)
  fix w r w' assume run: "with_fault k w = (r, w')" and ok: "tree_ok (w_fs w)"
  from run have "\<exists>fs. w' = w\<lparr>w_faults := fs\<rparr>"
    by (rule with_fault_cases) (use assms in blast)+
  with ok show "touches K w w' \<and> tree_ok (w_fs w')" by (auto simp: touches_def)
qed

lemma safe_write:
  assumes "\<And>w r w'. k w = (r, w') \<Longrightarrow> w' = w \<or> (\<exists>n. w' = w\<lparr>w_fs := tree_put q n (w_fs w)\<rparr>)"
    and "q \<in> K" and "plain_elems q"
  shows "safe_io K (with_fault k)"
  unfolding safe_def
proof (intro allI impI)
  fix w r w' assume run: "with_fault k w = (r, w')" and ok: "tree_ok (w_fs w)"
  from run have "w_fs w' = w_fs w \<or> (\<exists>n. w_fs w' = tree_put q n (w_fs w))"
  proof (rule with_fault_cases)
    fix fs assume "k (w\<lparr>w_faults := fs\<rparr>) = (r, w')"
    from assms(1) [OF this] show ?thesis by auto
  qed auto
  with assms(2,3) ok show "touches K w w' \<and> tree_ok (w_fs w')"
    by (auto simp: touches_def tree_get_put intro: tree_ok_put)
qed

lemma os_Stat_safe [safes]: "safe_io K (os_Stat p)"
  unfolding os_Stat_def by (rule safe_read) (auto split: sum.splits)

lemma os_ReadDir_safe [safes]: "safe_io K (os_ReadDir p)"
  unfolding os_ReadDir_def by (rule safe_read) (auto split: sum.splits node.splits)

lemma os_ReadFile_safe [safes]: "safe_io K (os_ReadFile p)"
  unfolding os_ReadFile_def by (rule safe_read) (auto split: sum.splits node.splits)

lemma os_Open_safe [safes]: "safe_io K (os_Open p)"
  unfolding os_Open_def by (rule safe_read) (auto split: sum.splits)

lemma entry_Info_safe [safes]: "safe_io K (entry_Info n)"
  unfolding entry_Info_def by (rule safe_read) auto

lemma file_Close_safe [safes]: "safe_io K file_Close"
  unfolding file_Close_def by (rule safe_read) auto

lemma os_WriteFile_safe [safes]:
  "path_elems p \<in> K \<Longrightarrow> plain_elems (path_elems p) \<Longrightarrow> safe_io K (os_WriteFile p d)"
  unfolding os_WriteFile_def by (rule safe_write) (auto split: sum.splits)

lemma os_OpenTrunc_safe [safes]:
  "path_elems p \<in> K \<Longrightarrow> plain_elems (path_elems p) \<Longrightarrow> safe_io K (os_OpenTrunc p)"
  unfolding os_OpenTrunc_def by (rule safe_write) (auto split: sum.splits)

lemma io_Copy_safe [safes]:
  "path_elems p \<in> K \<Longrightarrow> plain_elems (path_elems p) \<Longrightarrow> safe_io K (io_Copy src p)"
  unfolding io_Copy_def by (rule safe_write) (auto split: option.splits node.splits)

lemma os_MkdirAll_safe [safes]:
  assumes "{k. prefix k (path_elems p)} \<subseteq> K" and "plain_elems (path_elems p)"
  shows "safe_io K (os_MkdirAll p)"
  unfolding safe_def using fs_step_touches [OF os_MkdirAll_step assms(1)] os_MkdirAll_tree_ok assms(2) by blast

section \<open>Calls in sequence\<close>

lemma safe_eq: "(\<And>s. m s = m' s) \<Longrightarrow> safe K wo m' \<Longrightarrow> safe K wo m"
  by (simp add: safe_def)

lemma safe_pair [safes]:
  assumes "safe K wo m" and "\<And>x. safe K wo (f x)"
  shows "safe K wo (\<lambda>s. case m s of (x, s1) \<Rightarrow> f x s1)"
  unfolding safe_def
proof (intro allI impI)
  fix s r s' assume run: "(case m s of (x, s1) \<Rightarrow> f x s1) = (r, s')" and ok: "tree_ok (w_fs (wo s))"
  obtain x s1 where 1: "m s = (x, s1)" by force
  with assms(1) ok have s1: "touches K (wo s) (wo s1)" "tree_ok (w_fs (wo s1))" unfolding safe_def by blast+
  moreover from run 1 have "f x s1 = (r, s')" by simp
  ultimately show "touches K (wo s) (wo s') \<and> tree_ok (w_fs (wo s'))"
    using assms(2) [of x] touches_trans unfolding safe_def by blast
qed

lemma safe_cases [safes]:
  "(\<And>e. safe K wo (f e)) \<Longrightarrow> (\<And>y. safe K wo (g y)) \<Longrightarrow> safe K wo (\<lambda>s. case x of Inl e \<Rightarrow> f e s | Inr y \<Rightarrow> g y s)"
  "(\<And>e. safe K wo (f e)) \<Longrightarrow> (\<And>y. safe K wo (g y)) \<Longrightarrow> safe K wo (case x of Inl e \<Rightarrow> f e | Inr y \<Rightarrow> g y)"
  "(\<And>d m. safe K wo (h d m)) \<Longrightarrow> (\<And>m. safe K wo (k m)) \<Longrightarrow>
    safe K wo (\<lambda>s. case n of File d m \<Rightarrow> h d m s | Directory m \<Rightarrow> k m s)"
  "(safe K wo a) \<Longrightarrow> (\<And>z. safe K wo (b z)) \<Longrightarrow> safe K wo (\<lambda>s. case u of None \<Rightarrow> a s | Some z \<Rightarrow> b z s)"
  "(safe K wo a) \<Longrightarrow> (\<And>z. safe K wo (b z)) \<Longrightarrow> safe K wo (case u of None \<Rightarrow> a | Some z \<Rightarrow> b z)"
  "(safe K wo c) \<Longrightarrow> (\<And>p q. safe K wo (d p q)) \<Longrightarrow> safe K wo (\<lambda>s. case l of [] \<Rightarrow> c s | p # q \<Rightarrow> d p q s)"
  "safe K wo c \<Longrightarrow> safe K wo c' \<Longrightarrow> safe K wo (\<lambda>s. if t then c s else c' s)"
  by ((cases x; simp), (cases x; simp), (cases n; simp), (cases u; simp), (cases u; simp), (cases l; simp), (cases t; simp))

lemma file_exists_safe [safes]: "safe_io K (file_exists p)"
  by (rule safe_eq, rule file_exists_def) (intro safes)

lemma filepath_Glob_safe [safes]: "safe_io K (filepath_Glob dir pattern)"
  by (rule safe_eq, rule filepath_Glob_def) (intro safes)

lemma firstMatch_safe [safes]: "safe_io K (firstMatch dir pattern)"
  by (rule safe_eq, rule firstMatch_def) (intro safes)

lemma detectBuildKind_safe [safes]: "safe_io K (detectBuildKind unitAbs)"
  unfolding detectBuildKind_def by (intro safes)

text \<open>A bound that is read off the world.\<close>

lemma safe_fuel: "(\<And>n. safe K wo (m n)) \<Longrightarrow> safe K wo (\<lambda>s. m (b s) s)"
  by (simp add: safe_def)

lemma product_files_safe [safes]: "safe_io K (product_files fuel dir es)"
proof (induction fuel arbitrary: dir es)
  case 0
  have "product_files 0 dir es = (\<lambda>w. ([], w))" by (rule ext) (cases es; simp)
  then show ?case by (simp add: safe_result)
next
  case (Suc fuel)
  show ?case
  proof (induction es)
    case Nil
    have "product_files (Suc fuel) dir [] = (\<lambda>w. ([], w))" by (rule ext) simp
    then show ?case by (simp add: safe_result)
  next
    case (Cons e es)
    obtain name n where e: "e = (name, n)" by force
    show ?case unfolding e
      by (rule safe_eq, rule product_files.simps) (unfold Let_def, intro safes Suc.IH Cons.IH)
  qed
qed

lemma latest_product_safe [safes]: "safe_io K (latest_product root)"
  by (rule safe_eq, rule latest_product_def)
    (intro safes safe_fuel [where m = "\<lambda>n. product_files n root _" and b = "\<lambda>s. tree_depth (w_fs s) + 1"])

lemma latestCMakeFileAPIIndex_safe [safes]: "safe_io K (latestCMakeFileAPIIndex dir)"
  by (rule safe_eq, rule latestCMakeFileAPIIndex_def) (intro safes; simp add: safe_def split: list.splits)

lemma fileAPI_targets_safe [safes]: "safe_io K (listCMakeTargetsFromFileAPI T dir)"
  unfolding listCMakeTargetsFromFileAPI_def Let_def
  by (intro safes) (auto intro!: safes split: option.splits prod.splits)

lemma project_targets_safe [safes]: "safe_io K (listCMakeTargetsFromVisualStudioProjects dir)"
  by (rule safe_eq, rule listCMakeTargetsFromVisualStudioProjects_def) (intro safes)

lemma listCMakeTargets_safe [safes]: "safe_io K (listCMakeTargets T dir)"
  by (rule safe_eq, rule listCMakeTargets_def) (intro safes; simp add: safe_result)

lemma listed_targets_safe [safes]: "safe_build K (listed_targets T dir)"
  using listCMakeTargets_safe [of K T dir] unfolding safe_def
  by (auto simp: listed_targets_def split: prod.splits)

section \<open>Paths of a build\<close>

lemma Join_names:
  assumes "plain_elems ks" and "plain_elems ws" and "ws \<noteq> []"
  shows "filepath_Join (render_path True ks # ws) = render_path True (ks @ ws)"
proof -
  have root: "filepath_Clean (render_path True ks) = render_path True ks" "filepath_IsAbs (render_path True ks)"
    using assms(1) by (simp_all add: clean_form_plain IsAbs_render)
  have ne: "filter (\<lambda>e. e \<noteq> []) ws = ws" "render_path False ws \<noteq> []" "render_path True ks \<noteq> []"
    using assms render_nonempty by (auto simp: filter_id_conv list_all_iff plain_elem_def)
  have "filepath_Join (render_path True ks # ws) = filepath_Join [render_path True ks, render_path False ws]"
    using ne assms(3) by (simp add: filepath_Join_def render_path_def [of False] Join_Cons)
  also have "\<dots> = render_path True (ks @ ws)"
    using Join_root [OF root(2) assms(2,3)] root(1) assms(1) by (simp add: clean_form_plain)
  finally show ?thesis .
qed

lemma Join_rel:
  assumes "plain_elems ks" and "plain_elems ws" and "ws \<noteq> []"
  shows "filepath_Join [render_path True ks, render_path False ws] = render_path True (ks @ ws)"
proof -
  have "filepath_Clean (render_path True ks) = render_path True ks" "filepath_IsAbs (render_path True ks)"
    using assms(1) by (simp_all add: clean_form_plain IsAbs_render)
  with Join_root [OF this(2) assms(2,3)] assms(1) show ?thesis by (simp add: clean_form_plain)
qed

lemma Rel_names:
  assumes "plain_elems ks" and "plain_elems ws"
  shows "filepath_Rel (render_path True ks) (render_path True (ks @ ws)) = Inr (render_path False ws)"
proof -
  have "filepath_Clean (render_path True ks) = render_path True ks" "filepath_IsAbs (render_path True ks)"
    using assms(1) by (simp_all add: clean_form_plain IsAbs_render)
  with Rel_under [OF this(2) assms(2)] assms(1) show ?thesis by (simp add: clean_form_plain)
qed

text \<open>The paths at, above or below a directory.\<close>

definition around :: "string list \<Rightarrow> string list set" where
  "around D = {k. prefix k D \<or> prefix D k}"

lemma around_under [simp]: "D @ ws \<in> around D" "D \<in> around D"
  by (simp_all add: around_def)

lemma around_MkdirAll: "{k. prefix k (D @ ws)} \<subseteq> around D"
  unfolding around_def using prefix_same_cases by (auto simp: prefix_append)

section \<open>The copy\<close>

lemma copyFile_safe:
  assumes "D \<in> K" and "{k. prefix k (butlast D)} \<subseteq> K" and "plain_elems D" and "D \<noteq> []"
  shows "safe_io K (copyFile src (render_path True D))"
proof -
  have plain: "plain_elems (butlast D)" using assms(3) by (auto simp: list_all_iff dest: in_set_butlastD)
  have keys: "path_elems (render_path True (butlast D)) = butlast D" "path_elems (render_path True D) = D"
    using plain assms(3) by (simp_all only: path_elems_render clean_form_plain)
  show ?thesis unfolding copyFile_def Dir_render [OF assms(3,4)]
    by (intro safes) (use plain assms keys in simp_all)
qed

lemma copy_entries_safe:
  assumes "around D \<subseteq> K" and "plain_elems U" and "plain_elems D"
  shows "plain_elems cs \<Longrightarrow> \<forall>x\<in>set es. plain_elem (fst x) \<Longrightarrow>
    safe_io K (copy_entries fuel (render_path True U) (render_path True D) (render_path True (U @ cs)) es)"
proof (induction fuel arbitrary: cs es)
  case 0
  show ?case by (cases es) (simp_all add: safe_return)
next
  case (Suc fuel)
  from Suc.prems(2) show ?case
  proof (induction es)
    case Nil
    show ?case by (simp add: safe_return)
  next
    case (Cons e es)
    obtain name n where e: "e = (name, n)" by force
    have pn: "plain_elems (cs @ [name])" "plain_elems ((U @ cs) @ [name])" "plain_elems (D @ cs @ [name])"
      using Cons.prems Suc.prems(1) assms(2,3) e by auto
    have path: "filepath_Join [render_path True (U @ cs), name] = render_path True (U @ cs @ [name])"
      using Join_names [of "U @ cs" "[name]"] pn by simp
    have rel: "filepath_Rel (render_path True U) (render_path True (U @ cs @ [name])) = Inr (render_path False (cs @ [name]))"
      using Rel_names assms(2) pn(1) by blast
    have target: "filepath_Join [render_path True D, render_path False (cs @ [name])] = render_path True (D @ cs @ [name])"
      using Join_rel assms(3) pn(1) by simp
    have dot: "render_path False (cs @ [name]) \<noteq> ''.''" using render_dot [OF pn(1)] by simp
    have key: "path_elems (render_path True (D @ cs @ [name])) = D @ cs @ [name]"
      using pn(3) by (simp only: path_elems_render clean_form_plain)
    have mk: "safe_io K (os_MkdirAll (render_path True (D @ cs @ [name])))"
      by (rule os_MkdirAll_safe; unfold key) (use around_MkdirAll assms(1) pn(3) in blast)+
    have deeper: "safe_io K (io_then (os_ReadDir (render_path True (U @ cs @ [name])))
        (copy_entries fuel (render_path True U) (render_path True D) (render_path True (U @ cs @ [name]))))"
      by (rule safe_then [OF os_ReadDir_safe Suc.IH os_ReadDir_entries]) (use pn(1) in simp_all)
    have copy: "safe_io K (copyFile (render_path True (U @ cs @ [name])) (render_path True (D @ cs @ [name])))"
      by (rule copyFile_safe) (use pn(3) assms(1) around_MkdirAll [of D cs] in \<open>auto simp: butlast_append around_def\<close>)
    have rest: "safe_io K (copy_entries (Suc fuel) (render_path True U) (render_path True D) (render_path True (U @ cs)) es)"
      using Cons by simp
    show ?case unfolding e copy_entries.simps path rel sum.case Let_def
    proof (rule safe_then_any [OF _ rest])
      show "safe_io K (if render_path False (cs @ [name]) \<noteq> ''.'' \<and> ShouldIgnoreInProjectScan name then io_return ()
        else io_then (entry_Info n) (\<lambda>info.
          if is_dir n then
            io_then (os_MkdirAll (if render_path False (cs @ [name]) \<noteq> ''.''
              then filepath_Join [render_path True D, render_path False (cs @ [name])] else render_path True D)) (\<lambda>_.
            io_then (os_ReadDir (render_path True (U @ cs @ [name])))
              (copy_entries fuel (render_path True U) (render_path True D) (render_path True (U @ cs @ [name]))))
          else copyFile (render_path True (U @ cs @ [name])) (if render_path False (cs @ [name]) \<noteq> ''.''
              then filepath_Join [render_path True D, render_path False (cs @ [name])] else render_path True D)))"
        using copy safe_then_any [OF mk deeper]
        by (simp add: dot target safe_return safe_then_any [OF entry_Info_safe])
    qed
  qed
qed

lemma copyDir_safe:
  assumes "around D \<subseteq> K" and "plain_elems U" and "plain_elems D" and "D \<noteq> []"
  shows "safe_io K (copyDir (render_path True U) (render_path True D))"
proof -
  have key: "path_elems (render_path True D) = D"
    using assms(3) by (simp only: path_elems_render clean_form_plain)
  have mk: "safe_io K (os_MkdirAll (render_path True D))"
    by (rule os_MkdirAll_safe; unfold key) (use around_MkdirAll [of "[]"] around_MkdirAll [of D "[]"] assms in auto)
  have walk: "safe_io K (io_then (os_ReadDir (render_path True U))
      (\<lambda>entries w. copy_entries (tree_depth (w_fs w) + 1) (render_path True U) (render_path True D) (render_path True U) entries w))"
    by (rule safe_then [OF os_ReadDir_safe _ os_ReadDir_entries])
      (use copy_entries_safe [OF assms(1-3), of "[]"] in \<open>simp_all add: safe_def\<close>)
  have single: "safe_io K (copyFile (render_path True U) (render_path True D))"
  proof (rule copyFile_safe)
    have "{k. prefix k (butlast D)} \<subseteq> around D"
      unfolding around_def using prefixeq_butlast prefix_order.trans by blast
    with assms(1) show "{k. prefix k (butlast D)} \<subseteq> K" by blast
  qed (use assms in auto)
  show ?thesis unfolding copyDir_def by (intro safes mk walk single)
qed

section \<open>The build\<close>

text \<open>The tools write only what they are given, and the names they make are plain.\<close>

definition tools_within :: "build_tools \<Rightarrow> string list set \<Rightarrow> bool" where
  "tools_within T W \<longleftrightarrow> (\<forall>dir name args w r w'. bt_run T dir name args w = (r, w') \<longrightarrow> tree_ok (w_fs w) \<longrightarrow>
    touches W w w' \<and> tree_ok (w_fs w'))"

lemma runCmd_safe:
  assumes "tools_within T W" and "W \<subseteq> K"
  shows "safe_build K (runCmd T dir name args)"
  unfolding runCmd_def
proof (rule safe_then_any [OF safe_appendLog])
  fix x
  show "safe_build K (\<lambda>s. case s of (w, entries) \<Rightarrow> case bt_run T dir name args w of
      ((chunks, err), w1) \<Rightarrow> (case err of None \<Rightarrow> Inr () | Some e \<Rightarrow> Inl e, w1, entries @ chunks))"
    unfolding safe_def
  proof (intro allI impI)
    fix s r s' assume run: "(case s of (w, entries) \<Rightarrow> case bt_run T dir name args w of
        ((chunks, err), w1) \<Rightarrow> (case err of None \<Rightarrow> Inr () | Some e \<Rightarrow> Inl e, w1, entries @ chunks)) = (r, s')"
      and ok: "tree_ok (w_fs (fst s))"
    obtain chunks err w1 where 1: "bt_run T dir name args (fst s) = ((chunks, err), w1)" by (metis prod.exhaust)
    with assms(1) ok have "touches W (fst s) w1 \<and> tree_ok (w_fs w1)" unfolding tools_within_def by blast
    moreover have "fst s' = w1" using run 1 by (cases s) auto
    ultimately show "touches K (fst s) (fst s') \<and> tree_ok (w_fs (fst s'))"
      using assms(2) by (auto simp: touches_def)
  qed
qed

lemma ensureCMakeFileAPIQuery_safe:
  assumes "around D \<subseteq> K" and "plain_elems D"
  shows "safe_io K (ensureCMakeFileAPIQuery (render_path True D))"
proof -
  let ?q = "[''.cmake'', ''api'', ''v1'', ''query'', ''codemodel-v2'']"
  have plain: "plain_elems ?q" by (simp add: plain_elem_def)
  have path: "filepath_Join (render_path True D # ?q) = render_path True (D @ ?q)"
    by (rule Join_names) (use assms plain in simp_all)
  have dir: "filepath_Dir (render_path True (D @ ?q)) = render_path True (D @ butlast ?q)"
    using Dir_render [of "D @ ?q"] assms(2) plain by (simp add: butlast_append)
  have pl: "plain_elems (D @ butlast ?q)" "plain_elems (D @ ?q)" using assms(2) by (simp_all add: plain_elem_def)
  have keys: "path_elems (render_path True (D @ butlast ?q)) = D @ butlast ?q"
    "path_elems (render_path True (D @ ?q)) = D @ ?q"
    using pl by (simp_all only: path_elems_render clean_form_plain)
  have mk: "safe_io K (os_MkdirAll (render_path True (D @ butlast ?q)))"
    by (rule os_MkdirAll_safe; unfold keys) (use around_MkdirAll assms(1) pl in blast)+
  have wr: "safe_io K (os_WriteFile (render_path True (D @ ?q)) [])"
    by (rule os_WriteFile_safe; unfold keys) (use assms(1) around_under pl in blast)+
  show ?thesis unfolding ensureCMakeFileAPIQuery_def Let_def path dir by (intro safes mk wr)
qed

lemma runBuildCommands_safe:
  assumes "plain_elems U" and "plain_elems D" and "tools_within T W"
  shows "safe_build (around D \<union> W) (runBuildCommands T (render_path True U) (render_path True D) target)"
proof -
  let ?K = "around D \<union> W"
  have sub: "around (D @ ws) \<subseteq> ?K" for ws
    unfolding around_def using prefix_same_cases by (auto simp: prefix_append append_prefixD)
  have pl: "plain_elems (D @ [''build''])" "plain_elems (D @ [''workspace''])"
    using assms(2) by (simp_all add: plain_elem_def)
  have paths: "filepath_Join [render_path True D, ''build''] = render_path True (D @ [''build''])"
    "filepath_Join [render_path True D, ''workspace''] = render_path True (D @ [''workspace''])"
    using assms(2) by (simp_all add: Join_names plain_elem_def)
  have key: "path_elems (render_path True (D @ [''build''])) = D @ [''build'']"
    using pl by (simp only: path_elems_render clean_form_plain)
  have mk: "safe_io ?K (os_MkdirAll (render_path True (D @ [''build''])))"
    by (rule os_MkdirAll_safe; unfold key) (use around_MkdirAll pl in blast)+
  have query: "safe_io ?K (ensureCMakeFileAPIQuery (render_path True (D @ [''build''])))"
    by (rule ensureCMakeFileAPIQuery_safe [OF sub pl(1)])
  have run: "safe_build ?K (runCmd T dir name args)" for dir name args
    by (rule runCmd_safe [OF assms(3)]) simp
  have copy: "safe_io ?K (prepareIsolatedBuildWorkspace (render_path True U) (render_path True D))"
    unfolding prepareIsolatedBuildWorkspace_def paths
    by (intro safes copyDir_safe [OF sub assms(1) pl(2)]) simp
  show ?thesis
    unfolding runBuildCommands_def build_cmake_def build_make_def build_msbuild_def Let_def paths
    by (intro safes mk query run copy)
qed

end
