(* ===== verification/BuildCopy.thy ===== *)
theory BuildCopy
  imports BuildLaws
begin

text \<open>
  The isolated workspace of a build: when no call fails, \<open>copyDir\<close> makes an exact copy of the
  project, less what a project scan ignores, and changes nothing else.
\<close>

section \<open>Well-formed trees\<close>

text \<open>Keys are unique, names are plain, and what is in the tree is in a directory.\<close>

definition tree_wf :: "fstree \<Rightarrow> bool" where
  "tree_wf t \<longleftrightarrow> distinct (map fst t) \<and> tree_ok t
    \<and> (\<forall>k c n. tree_get t (k @ [c]) = Some n \<longrightarrow> (\<exists>m. tree_get t k = Some (Directory m)))"

lemma tree_wf_parent: "tree_wf t \<Longrightarrow> tree_get t (k @ [c]) = Some n \<Longrightarrow> \<exists>m. tree_get t k = Some (Directory m)"
  unfolding tree_wf_def by blast

lemma walk_dirs_append:
  "walk_dirs t q (xs @ ys) = (case walk_dirs t q xs of None \<Rightarrow> walk_dirs t (q @ xs) ys | Some e \<Rightarrow> Some e)"
  by (induction xs arbitrary: q) (auto split: option.splits node.splits)

lemma walk_dirs_wf: "tree_wf t \<Longrightarrow> tree_get t k = Some (Directory m) \<Longrightarrow> walk_dirs t [] k = None"
proof (induction k arbitrary: m rule: rev_induct)
  case Nil
  show ?case by simp
next
  case (snoc c k)
  obtain m' where "tree_get t k = Some (Directory m')" using tree_wf_parent [OF snoc.prems] by blast
  with snoc show ?case by (simp add: walk_dirs_append)
qed

lemma walk_dirs_parent: "tree_wf t \<Longrightarrow> tree_get t k = Some n \<Longrightarrow> walk_dirs t [] (butlast k) = None"
  by (cases k rule: rev_cases) (auto dest: tree_wf_parent walk_dirs_wf)

lemma lookup_node_wf: "tree_wf t \<Longrightarrow> tree_get t k = Some n \<Longrightarrow> lookup_node t k = Inr n"
  by (simp add: lookup_node_def walk_dirs_parent)

lemma tree_wf_none: "tree_wf t \<Longrightarrow> tree_get t k = None \<Longrightarrow> tree_get t (k @ x) = None"
proof (induction x rule: rev_induct)
  case (snoc c x)
  then show ?case using tree_wf_parent [of t "k @ x" c] by (cases "tree_get t (k @ x @ [c])") auto
qed simp

lemma tree_wf_file: "tree_wf t \<Longrightarrow> tree_get t k = Some (File d m) \<Longrightarrow> x \<noteq> [] \<Longrightarrow> tree_get t (k @ x) = None"
proof (induction x rule: rev_induct)
  case (snoc c x)
  have "\<nexists>m. tree_get t (k @ x) = Some (Directory m)" using snoc by (cases "x = []") auto
  then show ?case using tree_wf_parent [OF snoc.prems(1), of "k @ x" c] by (cases "tree_get t (k @ x @ [c])") auto
qed simp

lemma tree_wf_put:
  assumes wf: "tree_wf t" and parent: "tree_get t k = Some (Directory m)" and plain: "plain_elems (k @ [c])"
    and over: "is_dir n \<or> (\<nexists>m. tree_get t (k @ [c]) = Some (Directory m))"
  shows "tree_wf (tree_put (k @ [c]) n t)"
  unfolding tree_wf_def
proof (intro conjI allI impI)
  show "distinct (map fst (tree_put (k @ [c]) n t))"
    using wf by (simp add: tree_wf_def tree_put_def distinct_update)
  show "tree_ok (tree_put (k @ [c]) n t)" using wf plain tree_ok_put by (simp add: tree_wf_def)
  fix k' c' n' assume "tree_get (tree_put (k @ [c]) n t) (k' @ [c']) = Some n'"
  then consider "k' = k" | "tree_get t (k' @ [c']) = Some n'" by (auto simp: tree_get_put split: if_splits)
  then obtain m' where dir: "tree_get t k' = Some (Directory m')"
    using parent tree_wf_parent [OF wf] by cases blast+
  show "\<exists>m. tree_get (tree_put (k @ [c]) n t) k' = Some (Directory m)"
  proof (cases "k' = k @ [c]")
    case True
    with dir over have "is_dir n" by auto
    with True show ?thesis by (cases n) (auto simp: tree_get_put is_dir_def)
  qed (use dir in \<open>simp add: tree_get_put\<close>)
qed

lemma children_wf:
  assumes "tree_wf t"
  shows "set (children t k) = {(c, n). tree_get t (k @ [c]) = Some n}" and "distinct (map fst (children t k))"
proof -
  have d: "distinct (map fst t)" using assms by (simp add: tree_wf_def)
  have key: "k' \<noteq> [] \<and> butlast k' = k \<longleftrightarrow> k' = k @ [last k']" for k' :: "string list"
    by (cases k' rule: rev_cases) auto
  have mem: "(c, n) \<in> set (children t k) \<longleftrightarrow> (k @ [c], n) \<in> set t" for c n
    by (force simp: children_def key)
  have "(k @ [c], n) \<in> set t \<longleftrightarrow> tree_get t (k @ [c]) = Some n" for c n
    using d by (simp add: tree_get_def)
  with mem show "set (children t k) = {(c, n). tree_get t (k @ [c]) = Some n}" by auto
  have "distinct (map fst (filter (\<lambda>(k', n). k' \<noteq> [] \<and> butlast k' = k) t))"
    using d by (simp add: distinct_map_filter)
  moreover have "inj_on last (fst ` set (filter (\<lambda>(k', n). k' \<noteq> [] \<and> butlast k' = k) t))"
    by (auto intro!: inj_onI) (metis append_butlast_last_id)
  moreover have "map fst (children t k) = map last (map fst (filter (\<lambda>(k', n). k' \<noteq> [] \<and> butlast k' = k) t))"
    by (simp add: children_def case_prod_unfold)
  ultimately show "distinct (map fst (children t k))" by (simp only: distinct_map set_map simp_thms)
qed

section \<open>Calls that do not fail\<close>

lemma quiet_run: "w_faults w = [] \<Longrightarrow> with_fault k w = k w"
  by (simp add: with_fault_def)

lemma os_Stat_quiet:
  "w_faults w = [] \<Longrightarrow> tree_wf (w_fs w) \<Longrightarrow> tree_get (w_fs w) (path_elems p) = Some n \<Longrightarrow> os_Stat p w = (Inr n, w)"
  by (simp add: os_Stat_def quiet_run lookup_node_wf)

lemma os_ReadDir_quiet:
  "w_faults w = [] \<Longrightarrow> tree_wf (w_fs w) \<Longrightarrow> tree_get (w_fs w) (path_elems p) = Some (Directory m) \<Longrightarrow>
    os_ReadDir p w = (Inr (sort_key fst (children (w_fs w) (path_elems p))), w)"
  by (simp add: os_ReadDir_def quiet_run lookup_node_wf)

lemma make_dirs_old: "walk_dirs t q cs = None \<Longrightarrow> make_dirs now q cs t = (None, t)"
  by (induction cs arbitrary: q) (auto split: option.splits node.splits)

lemma make_dirs_new:
  "walk_dirs t q cs = None \<Longrightarrow> tree_get t (q @ cs @ [c]) = None \<Longrightarrow>
    make_dirs now q (cs @ [c]) t = (None, tree_put (q @ cs @ [c]) (Directory now) t)"
  by (induction cs arbitrary: q) (auto split: option.splits node.splits)

lemma os_MkdirAll_old:
  assumes "w_faults w = []" and "tree_wf (w_fs w)" and "tree_get (w_fs w) (path_elems p) = Some (Directory m)"
  shows "os_MkdirAll p w = (Inr (), w)"
  using make_dirs_old [OF walk_dirs_wf [OF assms(2,3)]] assms(1) by (simp add: os_MkdirAll_def quiet_run)

lemma os_MkdirAll_new:
  assumes "w_faults w = []" and "tree_wf (w_fs w)" and "path_elems p = k @ [c]"
    and "tree_get (w_fs w) k = Some (Directory m)" and "tree_get (w_fs w) (k @ [c]) = None"
  shows "os_MkdirAll p w = (Inr (), w\<lparr>w_fs := tree_put (k @ [c]) (Directory (w_clock w)) (w_fs w)\<rparr>)"
  using make_dirs_new [OF walk_dirs_wf [OF assms(2,4)], of c] assms(1,3,5) by (simp add: os_MkdirAll_def quiet_run)

lemma copyFile_quiet:
  assumes q: "w_faults w = []" and wf: "tree_wf (w_fs w)" and source: "tree_get (w_fs w) (path_elems src) = Some (File d m)"
    and dir: "tree_get (w_fs w) k = Some (Directory m')" and new: "tree_get (w_fs w) (k @ [c]) = None"
    and plain: "plain_elems (k @ [c])"
  shows "\<exists>t. copyFile src (render_path True (k @ [c])) w = (Inr (), w\<lparr>w_fs := t\<rparr>) \<and> tree_wf t
    \<and> tree_get t (k @ [c]) = Some (File d (w_clock w)) \<and> (\<forall>x. x \<noteq> k @ [c] \<longrightarrow> tree_get t x = tree_get (w_fs w) x)"
proof -
  let ?t1 = "tree_put (k @ [c]) (File [] (w_clock w)) (w_fs w)"
  let ?t2 = "tree_put (k @ [c]) (File d (w_clock w)) ?t1"
  have keys: "path_elems (render_path True (k @ [c])) = k @ [c]" "path_elems (render_path True k) = k"
    using plain by (simp_all add: clean_form_plain)
  have par: "filepath_Dir (render_path True (k @ [c])) = render_path True k" using Dir_render plain by simp
  have mk: "os_MkdirAll (render_path True k) w = (Inr (), w)"
    using os_MkdirAll_old [OF q wf] dir keys(2) by simp
  have op: "os_Open src w = (Inr (), w)" by (simp add: os_Open_def quiet_run q lookup_node_wf [OF wf source])
  have tr: "os_OpenTrunc (render_path True (k @ [c])) w = (Inr (), w\<lparr>w_fs := ?t1\<rparr>)"
    by (simp add: os_OpenTrunc_def quiet_run q keys open_target_def walk_dirs_wf [OF wf dir] new)
  have ne: "path_elems src \<noteq> k @ [c]" using source new by auto
  have cp: "io_Copy src (render_path True (k @ [c])) (w\<lparr>w_fs := ?t1\<rparr>) = (Inr (), w\<lparr>w_fs := ?t2\<rparr>)"
    using source ne by (simp add: io_Copy_def quiet_run q keys tree_get_put)
  have "copyFile src (render_path True (k @ [c])) w = (Inr (), w\<lparr>w_fs := ?t2\<rparr>)"
    unfolding copyFile_def par by (simp add: io_then_def mk op tr cp file_Close_def quiet_run q)
  moreover have "tree_wf ?t1" by (rule tree_wf_put [OF wf dir plain]) (simp add: new)
  then have "tree_wf ?t2" by (rule tree_wf_put [OF _ _ plain]) (simp_all add: tree_get_put dir)
  ultimately show ?thesis by (intro exI [of _ ?t2]) (simp add: tree_get_put)
qed

section \<open>The copy\<close>

text \<open>What a node holds, its times apart; and what the copy of a path holds.\<close>

definition node_content :: "node \<Rightarrow> bytes option" where
  "node_content n = (case n of File d _ \<Rightarrow> Some d | Directory _ \<Rightarrow> None)"

abbreviation content_at :: "fstree \<Rightarrow> string list \<Rightarrow> bytes option option" where
  "content_at t k \<equiv> map_option node_content (tree_get t k)"

definition mirrored :: "string list \<Rightarrow> string list \<Rightarrow> fstree \<Rightarrow> fstree \<Rightarrow> string list \<Rightarrow> bool" where
  "mirrored U D t0 t ks \<longleftrightarrow>
    content_at t (D @ ks) = (if list_ex ShouldIgnoreInProjectScan ks then None else content_at t0 (U @ ks))"

text \<open>The source \<open>U\<close> is as it was in \<open>t0\<close>, and the copy of the directory \<open>cs\<close> is there to be filled.\<close>

definition copying :: "string list \<Rightarrow> string list \<Rightarrow> fstree \<Rightarrow> string list \<Rightarrow> world \<Rightarrow> bool" where
  "copying U D t0 cs w \<longleftrightarrow> w_faults w = [] \<and> tree_wf (w_fs w)
    \<and> (\<forall>k. tree_get (w_fs w) (U @ k) = tree_get t0 (U @ k))
    \<and> (\<exists>m. tree_get (w_fs w) (D @ cs) = Some (Directory m))
    \<and> plain_elems (U @ cs) \<and> plain_elems (D @ cs) \<and> \<not> list_ex ShouldIgnoreInProjectScan cs"

text \<open>The entries named were copied, and nothing else changed.\<close>

definition copied :: "string list \<Rightarrow> string list \<Rightarrow> fstree \<Rightarrow> string list \<Rightarrow> string set \<Rightarrow> fstree \<Rightarrow> fstree \<Rightarrow> bool" where
  "copied U D t0 cs names t t' \<longleftrightarrow> tree_wf t'
    \<and> (\<forall>k. (\<forall>c\<in>names. \<not> prefix (D @ cs @ [c]) k) \<longrightarrow> tree_get t' k = tree_get t k)
    \<and> (\<forall>c\<in>names. \<forall>ks. mirrored U D t0 t' (cs @ c # ks))"

definition fresh_entries :: "string list \<Rightarrow> string list \<Rightarrow> fstree \<Rightarrow> string list \<Rightarrow> (string \<times> node) list \<Rightarrow> fstree \<Rightarrow> bool" where
  "fresh_entries U D t0 cs es t \<longleftrightarrow> distinct (map fst es)
    \<and> (\<forall>(c, n)\<in>set es. plain_elem c \<and> tree_get t0 (U @ cs @ [c]) = Some n \<and> tree_get t (D @ cs @ [c]) = None)"

lemma apart_keys: "\<not> prefix U D \<Longrightarrow> \<not> prefix D U \<Longrightarrow> U @ x \<noteq> D @ y"
  by (metis prefixI prefix_same_cases)

lemma apart_prefix: "\<not> prefix U D \<Longrightarrow> \<not> prefix D U \<Longrightarrow> \<not> prefix (D @ y) (U @ x)"
  by (metis append.assoc apart_keys prefix_def)

lemma copied_none:
  assumes "copying U D t0 cs w" shows "copied U D t0 cs {} (w_fs w) (w_fs w)"
  using assms by (simp add: copied_def copying_def)

lemma copied_first:
  assumes "\<not> prefix U D" and "\<not> prefix D U" and "copying U D t0 cs w" and "fresh_entries U D t0 cs ((c, n) # es) (w_fs w)"
    and one: "copied U D t0 cs {c} (w_fs w) t1"
  shows "copying U D t0 cs (w\<lparr>w_fs := t1\<rparr>)" and "fresh_entries U D t0 cs es t1"
    and "copied U D t0 cs (fst ` set es) t1 t2 \<Longrightarrow> copied U D t0 cs (fst ` set ((c, n) # es)) (w_fs w) t2"
proof -
  have out: "tree_get t1 k = tree_get (w_fs w) k" if "\<not> prefix (D @ cs @ [c]) k" for k
    using one that by (simp add: copied_def)
  have src: "tree_get t1 (U @ k) = tree_get (w_fs w) (U @ k)" for k
    using out apart_prefix [OF assms(1,2), of "cs @ [c]" k] by simp
  have here: "tree_get t1 (D @ cs) = tree_get (w_fs w) (D @ cs)" by (rule out) (auto simp: prefix_def)
  have "tree_wf t1" using one by (simp add: copied_def)
  with assms(3) src here show "copying U D t0 cs (w\<lparr>w_fs := t1\<rparr>)" by (simp add: copying_def)
  have c: "c \<notin> fst ` set es" and es: "distinct (map fst es)"
    using assms(4) by (simp_all add: fresh_entries_def)
  have entry: "plain_elem c' \<and> tree_get t0 (U @ cs @ [c']) = Some n' \<and> tree_get t1 (D @ cs @ [c']) = None"
    if "(c', n') \<in> set es" for c' n'
  proof -
    have "c' \<noteq> c" using that c by force
    then have "tree_get t1 (D @ cs @ [c']) = tree_get (w_fs w) (D @ cs @ [c'])" by (intro out) simp
    with that assms(4) show ?thesis by (auto simp: fresh_entries_def)
  qed
  with es show "fresh_entries U D t0 cs es t1" unfolding fresh_entries_def by blast
  assume rest: "copied U D t0 cs (fst ` set es) t1 t2"
  have keep: "tree_get t2 (D @ cs @ c # ks) = tree_get t1 (D @ cs @ c # ks)" for ks
  proof -
    have "\<forall>c'\<in>fst ` set es. \<not> prefix (D @ cs @ [c']) (D @ cs @ c # ks)" using c by auto
    with rest show ?thesis unfolding copied_def by blast
  qed
  show "copied U D t0 cs (fst ` set ((c, n) # es)) (w_fs w) t2"
    unfolding copied_def
  proof (intro conjI allI impI ballI)
    show "tree_wf t2" using rest by (simp add: copied_def)
    show "tree_get t2 k = tree_get (w_fs w) k"
      if "\<forall>c'\<in>fst ` set ((c, n) # es). \<not> prefix (D @ cs @ [c']) k" for k
      using that rest out [of k] by (simp add: copied_def)
    show "mirrored U D t0 t2 (cs @ c' # ks)" if "c' \<in> fst ` set ((c, n) # es)" for c' ks
    proof (cases "c' = c")
      case True
      with one keep show ?thesis by (simp add: copied_def mirrored_def)
    next
      case False
      with that have "c' \<in> fst ` set es" by simp
      with rest show ?thesis unfolding copied_def by blast
    qed
  qed
qed

text \<open>An entry that is ignored.\<close>

lemma copied_ignored:
  assumes "copying U D t0 cs w" and "fresh_entries U D t0 cs ((c, n) # es) (w_fs w)" and "ShouldIgnoreInProjectScan c"
  shows "copied U D t0 cs {c} (w_fs w) (w_fs w)"
  using assms tree_wf_none [of "w_fs w" "D @ cs @ [c]"]
  by (auto simp: copied_def copying_def fresh_entries_def mirrored_def)

text \<open>A file.\<close>

lemma copied_file:
  assumes "copying U D t0 cs w" and "fresh_entries U D t0 cs ((c, File d m) # es) (w_fs w)" and "\<not> ShouldIgnoreInProjectScan c"
  shows "\<exists>t. copyFile (render_path True (U @ cs @ [c])) (render_path True (D @ cs @ [c])) w = (Inr (), w\<lparr>w_fs := t\<rparr>)
    \<and> copied U D t0 cs {c} (w_fs w) t"
proof -
  have wf: "tree_wf (w_fs w)" and q: "w_faults w = []" using assms(1) by (simp_all add: copying_def)
  obtain m' where dir: "tree_get (w_fs w) (D @ cs) = Some (Directory m')" using assms(1) by (auto simp: copying_def)
  have new: "tree_get (w_fs w) ((D @ cs) @ [c]) = None" using assms(2) by (simp add: fresh_entries_def)
  have plain: "plain_elems ((D @ cs) @ [c])" "plain_elems (U @ cs @ [c])"
    using assms(1,2) by (simp_all add: copying_def fresh_entries_def)
  have src: "tree_get (w_fs w) (U @ cs @ [c]) = Some (File d m)"
    using assms(1,2) by (simp add: copying_def fresh_entries_def)
  have key: "path_elems (render_path True (U @ cs @ [c])) = U @ cs @ [c]"
    using plain(2) by (simp only: path_elems_render clean_form_plain)
  from copyFile_quiet [OF q wf _ dir new plain(1), of "render_path True (U @ cs @ [c])" d m] src key
  obtain t where t: "copyFile (render_path True (U @ cs @ [c])) (render_path True (D @ cs @ [c])) w = (Inr (), w\<lparr>w_fs := t\<rparr>)"
    "tree_wf t" "tree_get t (D @ cs @ [c]) = Some (File d (w_clock w))"
    "\<forall>x. x \<noteq> D @ cs @ [c] \<longrightarrow> tree_get t x = tree_get (w_fs w) x" by auto
  have "mirrored U D t0 t (cs @ c # ks)" for ks
  proof (cases "ks = []")
    case True
    with t(3) assms src show ?thesis by (simp add: mirrored_def copying_def node_content_def)
  next
    case False
    have "tree_get t ((D @ cs @ [c]) @ ks) = None" "tree_get (w_fs w) ((U @ cs @ [c]) @ ks) = None"
      using tree_wf_file [OF t(2,3) False] tree_wf_file [OF wf src False] by simp_all
    with assms(1) show ?thesis by (simp add: mirrored_def copying_def)
  qed
  with t show ?thesis by (intro exI [of _ t]) (auto simp: copied_def)
qed

lemma distinct_map_sort_key: "distinct (map f (sort_key g xs)) = distinct (map f xs)"
  by (intro mset_eq_imp_distinct_iff) simp

text \<open>A directory: it is made, read, and its entries are copied.\<close>

lemma copied_directory:
  assumes apart: "\<not> prefix U D" "\<not> prefix D U" and "copying U D t0 cs w"
    and "fresh_entries U D t0 cs ((c, Directory m) # es) (w_fs w)" and "\<not> ShouldIgnoreInProjectScan c"
  defines "t1 \<equiv> tree_put (D @ cs @ [c]) (Directory (w_clock w)) (w_fs w)"
  defines "es1 \<equiv> sort_key fst (children t1 (U @ cs @ [c]))"
  shows "os_MkdirAll (render_path True (D @ cs @ [c])) w = (Inr (), w\<lparr>w_fs := t1\<rparr>)"
    and "os_ReadDir (render_path True (U @ cs @ [c])) (w\<lparr>w_fs := t1\<rparr>) = (Inr es1, w\<lparr>w_fs := t1\<rparr>)"
    and "copying U D t0 (cs @ [c]) (w\<lparr>w_fs := t1\<rparr>)" and "fresh_entries U D t0 (cs @ [c]) es1 t1"
    and "copied U D t0 (cs @ [c]) (fst ` set es1) t1 t2 \<Longrightarrow> copied U D t0 cs {c} (w_fs w) t2"
proof -
  have wf: "tree_wf (w_fs w)" and q: "w_faults w = []" using assms(3) by (simp_all add: copying_def)
  obtain m' where dir: "tree_get (w_fs w) (D @ cs) = Some (Directory m')" using assms(3) by (auto simp: copying_def)
  have new: "tree_get (w_fs w) ((D @ cs) @ [c]) = None" using assms(4) by (simp add: fresh_entries_def)
  have plain: "plain_elems ((D @ cs) @ [c])" "plain_elems (U @ cs @ [c])"
    using assms(3,4) by (simp_all add: copying_def fresh_entries_def)
  have keys: "path_elems (render_path True ((D @ cs) @ [c])) = (D @ cs) @ [c]"
    "path_elems (render_path True (U @ cs @ [c])) = U @ cs @ [c]"
    using plain by (simp_all only: path_elems_render clean_form_plain)
  show "os_MkdirAll (render_path True (D @ cs @ [c])) w = (Inr (), w\<lparr>w_fs := t1\<rparr>)"
    using os_MkdirAll_new [OF q wf keys(1) dir new] by (simp add: t1_def)
  have wf1: "tree_wf t1"
    unfolding t1_def using tree_wf_put [OF wf dir plain(1), of "Directory (w_clock w)"] new by (simp add: is_dir_def)
  have src: "tree_get t1 (U @ k) = tree_get t0 (U @ k)" for k
    using assms(3) apart_keys [OF apart, of k "cs @ [c]"] by (simp add: t1_def tree_get_put copying_def)
  have here: "tree_get t1 (U @ cs @ [c]) = Some (Directory m)"
    using assms(4) by (simp add: src fresh_entries_def)
  show "os_ReadDir (render_path True (U @ cs @ [c])) (w\<lparr>w_fs := t1\<rparr>) = (Inr es1, w\<lparr>w_fs := t1\<rparr>)"
    using os_ReadDir_quiet [of "w\<lparr>w_fs := t1\<rparr>" "render_path True (U @ cs @ [c])" m] q wf1 here keys(2)
    by (simp add: es1_def)
  have made: "tree_get t1 (D @ cs @ [c]) = Some (Directory (w_clock w))" by (simp add: t1_def tree_get_put)
  show "copying U D t0 (cs @ [c]) (w\<lparr>w_fs := t1\<rparr>)"
    using q wf1 src made plain assms(3,5) by (simp add: copying_def)
  have es1: "set es1 = {(c', n). tree_get t0 (U @ cs @ [c] @ [c']) = Some n}" "distinct (map fst es1)"
    using children_wf [OF wf1, of "U @ cs @ [c]"] src by (simp_all add: es1_def distinct_map_sort_key)
  have none: "tree_get t1 (D @ cs @ c # c' # x) = None" for c' x
    using tree_wf_none [OF wf new, of "c' # x"] by (simp add: t1_def tree_get_put)
  have plain1: "plain_elem c'" if "tree_get t0 (U @ cs @ [c, c']) = Some n'" for c' n'
  proof -
    have "tree_get t1 (U @ cs @ [c, c']) = Some n'" using src that by simp
    then have "(U @ cs @ [c, c'], n') \<in> set t1" by (simp add: tree_get_def map_of_SomeD split: if_splits)
    moreover have "tree_ok t1" using wf1 by (simp add: tree_wf_def)
    ultimately show ?thesis by (force simp: tree_ok_def)
  qed
  show "fresh_entries U D t0 (cs @ [c]) es1 t1"
    unfolding fresh_entries_def using es1 none plain1 by auto
  assume rest: "copied U D t0 (cs @ [c]) (fst ` set es1) t1 t2"
  show "copied U D t0 cs {c} (w_fs w) t2"
    unfolding copied_def
  proof (intro conjI allI impI ballI)
    show "tree_wf t2" using rest by (simp add: copied_def)
    show "tree_get t2 k = tree_get (w_fs w) k" if "\<forall>c'\<in>{c}. \<not> prefix (D @ cs @ [c']) k" for k
    proof -
      have k: "\<not> prefix (D @ cs @ [c]) k" using that by simp
      then have "\<not> prefix (D @ (cs @ [c]) @ [c']) k" for c' by (auto dest: append_prefixD [of "D @ cs @ [c]" "[c']", simplified])
      with rest have "tree_get t2 k = tree_get t1 k" by (simp add: copied_def)
      also have "\<dots> = tree_get (w_fs w) k" using k by (auto simp: t1_def tree_get_put)
      finally show ?thesis .
    qed
    show "mirrored U D t0 t2 (cs @ c' # ks)" if "c' \<in> {c}" for c' ks
    proof (cases ks)
      case Nil
      have "tree_get t2 (D @ cs @ [c]) = tree_get t1 (D @ cs @ [c])"
        using rest by (simp add: copied_def)
      with Nil that made here src assms(3,5) show ?thesis by (simp add: mirrored_def node_content_def copying_def)
    next
      case (Cons x xs)
      show ?thesis
      proof (cases "x \<in> fst ` set es1")
        case True
        with rest have "mirrored U D t0 t2 ((cs @ [c]) @ x # xs)" unfolding copied_def by blast
        with Cons that show ?thesis by simp
      next
        case False
        then have "tree_get t1 (U @ cs @ [c, x]) = None"
          using es1(1) src by (cases "tree_get t0 (U @ cs @ [c, x])") force+
        then have "tree_get t0 (U @ cs @ c # x # xs) = None"
          using tree_wf_none [OF wf1, of "U @ cs @ [c, x]" xs] src by simp
        moreover have "tree_get t2 (D @ cs @ c # x # xs) = None"
        proof -
          have "\<forall>c'\<in>fst ` set es1. \<not> prefix (D @ (cs @ [c]) @ [c']) (D @ cs @ c # x # xs)" using False by auto
          with rest none show ?thesis unfolding copied_def by metis
        qed
        ultimately show ?thesis using Cons that by (simp add: mirrored_def)
      qed
    qed
  qed
qed

lemma copy_entries_exact:
  assumes apart: "\<not> prefix U D" "\<not> prefix D U"
  shows "copying U D t0 cs w \<Longrightarrow> fresh_entries U D t0 cs es (w_fs w) \<Longrightarrow>
    (\<And>x. tree_get t0 (U @ x) \<noteq> None \<Longrightarrow> length x \<le> length cs + fuel) \<Longrightarrow>
    \<exists>t. copy_entries fuel (render_path True U) (render_path True D) (render_path True (U @ cs)) es w
        = (Inr (), w\<lparr>w_fs := t\<rparr>) \<and> copied U D t0 cs (fst ` set es) (w_fs w) t"
proof (induction fuel arbitrary: cs es w)
  case 0
  have "es = []"
  proof (rule ccontr)
    assume "es \<noteq> []"
    then obtain c n where "(c, n) \<in> set es" by (cases es) auto
    with 0(2) have "tree_get t0 (U @ cs @ [c]) = Some n" by (auto simp: fresh_entries_def)
    with 0(3) [of "cs @ [c]"] show False by simp
  qed
  with copied_none [OF 0(1)] show ?case by (intro exI [of _ "w_fs w"]) (simp add: io_return_def)
next
  case (Suc fuel)
  from Suc.prems(1,2) show ?case
  proof (induction es arbitrary: w)
    case Nil
    from copied_none [OF Nil(1)] show ?case by (intro exI [of _ "w_fs w"]) (simp add: io_return_def)
  next
    case (Cons e es)
    obtain c n where e: "e = (c, n)" by force
    note fresh = Cons.prems(2) [unfolded e]
    let ?src = "render_path True (U @ cs @ [c])" and ?dst = "render_path True (D @ cs @ [c])"
    let ?body = "if ShouldIgnoreInProjectScan c then io_return () else
      io_then (entry_Info n) (\<lambda>info. if is_dir n then io_then (os_MkdirAll ?dst) (\<lambda>_.
        io_then (os_ReadDir ?src) (copy_entries fuel (render_path True U) (render_path True D) ?src))
      else copyFile ?src ?dst)"
    have pn: "plain_elems (cs @ [c])" "plain_elems ((U @ cs) @ [c])" "plain_elems (D @ cs @ [c])" "plain_elems U" "plain_elems D"
      using Cons.prems(1) fresh by (auto simp: copying_def fresh_entries_def)
    have step: "copy_entries (Suc fuel) (render_path True U) (render_path True D) (render_path True (U @ cs)) ((c, n) # es)
      = io_then ?body (\<lambda>_. copy_entries (Suc fuel) (render_path True U) (render_path True D) (render_path True (U @ cs)) es)"
      using Join_names [of "U @ cs" "[c]"] Rel_names [OF pn(4,1)] Join_rel [OF pn(5,1)] render_dot [OF pn(1)] pn
      by (simp add: Let_def cong: if_cong)
    have info: "entry_Info n w = (Inr n, w)"
      using Cons.prems(1) by (simp add: entry_Info_def quiet_run copying_def)
    obtain t1 where t1: "?body w = (Inr (), w\<lparr>w_fs := t1\<rparr>)" "copied U D t0 cs {c} (w_fs w) t1"
    proof (cases "ShouldIgnoreInProjectScan c")
      case True
      from that [of "w_fs w"] copied_ignored [OF Cons.prems(1) fresh True] True show ?thesis by (simp add: io_return_def)
    next
      case keep: False
      show ?thesis
      proof (cases n)
        case (File d m)
        from copied_file [OF Cons.prems(1) fresh [unfolded File] keep] that keep File info
        show ?thesis by (auto simp: io_then_def is_dir_def)
      next
        case (Directory m)
        note sub = copied_directory [OF apart Cons.prems(1) fresh [unfolded Directory] keep]
        obtain t2 where "copy_entries fuel (render_path True U) (render_path True D) ?src
            (sort_key fst (children (tree_put (D @ cs @ [c]) (Directory (w_clock w)) (w_fs w)) (U @ cs @ [c])))
            (w\<lparr>w_fs := tree_put (D @ cs @ [c]) (Directory (w_clock w)) (w_fs w)\<rparr>) = (Inr (), w\<lparr>w_fs := t2\<rparr>)"
          and "copied U D t0 cs {c} (w_fs w) t2"
          using Suc.IH [OF sub(3)] sub(4,5) Suc.prems(3) by fastforce
        with that keep Directory info sub(1,2) show ?thesis by (simp add: io_then_def is_dir_def)
      qed
    qed
    note rest = copied_first [OF apart Cons.prems(1) fresh t1(2)]
    obtain t2 where "copy_entries (Suc fuel) (render_path True U) (render_path True D) (render_path True (U @ cs)) es (w\<lparr>w_fs := t1\<rparr>)
        = (Inr (), w\<lparr>w_fs := t2\<rparr>)" "copied U D t0 cs (fst ` set es) t1 t2"
      using Cons.IH [OF rest(1)] rest(2) by auto
    with rest(3) t1(1) show ?case unfolding e step by (auto simp: io_then_def)
  qed
qed

lemma tree_depth_bound: "tree_get t k = Some n \<Longrightarrow> length k \<le> tree_depth t"
proof (cases "k = []")
  case False
  assume "tree_get t k = Some n"
  with False have "(k, n) \<in> set t" by (simp add: tree_get_def map_of_SomeD)
  then show ?thesis unfolding tree_depth_def by (induction t) auto
qed simp

lemma tree_wf_plain: "tree_wf t \<Longrightarrow> tree_get t k = Some n \<Longrightarrow> plain_elems k"
  by (cases "k = []") (auto simp: tree_wf_def tree_ok_def tree_get_def dest!: map_of_SomeD)

lemma copyDir_quiet:
  assumes q: "w_faults w = []" and wf: "tree_wf (w_fs w)"
    and src: "tree_get (w_fs w) U = Some (Directory m)" and dir: "tree_get (w_fs w) B = Some (Directory m')"
    and new: "tree_get (w_fs w) (B @ [c]) = None" and plain: "plain_elem c" and apart: "\<not> prefix U (B @ [c])"
  shows "\<exists>t. copyDir (render_path True U) (render_path True (B @ [c])) w = (Inr (), w\<lparr>w_fs := t\<rparr>) \<and> tree_wf t
    \<and> (\<forall>k. \<not> prefix (B @ [c]) k \<longrightarrow> tree_get t k = tree_get (w_fs w) k)
    \<and> (\<forall>ks. mirrored U (B @ [c]) (w_fs w) t ks)"
proof -
  let ?D = "B @ [c]"
  let ?t1 = "tree_put ?D (Directory (w_clock w)) (w_fs w)"
  let ?w1 = "w\<lparr>w_fs := ?t1\<rparr>"
  let ?es = "sort_key fst (children ?t1 U)"
  have apart2: "\<not> prefix ?D U"
    using tree_wf_none [OF wf new] src by (auto simp: prefix_def)
  have pl: "plain_elems U" "plain_elems ?D" using tree_wf_plain [OF wf src] tree_wf_plain [OF wf dir] plain by auto
  have keys: "path_elems (render_path True U) = U" "path_elems (render_path True ?D) = ?D"
    using pl by (simp_all only: path_elems_render clean_form_plain)
  have wf1: "tree_wf ?t1"
    using tree_wf_put [OF wf dir pl(2), of "Directory (w_clock w)"] by (simp add: is_dir_def)
  have same: "tree_get ?t1 (U @ k) = tree_get (w_fs w) (U @ k)" for k
    using apart_keys [OF apart apart2, of k "[]"] by (simp add: tree_get_put)
  have stat: "os_Stat (render_path True U) w = (Inr (Directory m), w)" using os_Stat_quiet q wf src keys(1) by simp
  have mk: "os_MkdirAll (render_path True ?D) w = (Inr (), ?w1)" by (rule os_MkdirAll_new [OF q wf keys(2) dir new])
  have rd: "os_ReadDir (render_path True U) ?w1 = (Inr ?es, ?w1)"
    using os_ReadDir_quiet [of ?w1 "render_path True U" m] q wf1 keys(1) same [of "[]"] src by simp
  have start: "copying U ?D (w_fs w) [] ?w1"
    using q wf1 same pl by (simp add: copying_def tree_get_put)
  have es: "set ?es = {(x, n). tree_get (w_fs w) (U @ [x]) = Some n}" "distinct (map fst ?es)"
    using children_wf [OF wf1, of U] same by (simp_all add: distinct_map_sort_key)
  have below: "tree_get ?t1 (?D @ x # xs) = None" for x xs
    using tree_wf_none [OF wf new, of "x # xs"] by (simp add: tree_get_put)
  have fresh: "fresh_entries U ?D (w_fs w) [] ?es ?t1"
    unfolding fresh_entries_def using es below tree_wf_plain [OF wf] by force
  have bound: "length x \<le> length [] + (tree_depth ?t1 + 1)" if "tree_get (w_fs w) (U @ x) \<noteq> None" for x
    using that same [of x] tree_depth_bound [of ?t1 "U @ x"] by auto
  obtain t where t: "copy_entries (tree_depth ?t1 + 1) (render_path True U) (render_path True ?D) (render_path True U) ?es ?w1
      = (Inr (), w\<lparr>w_fs := t\<rparr>)" "copied U ?D (w_fs w) [] (fst ` set ?es) ?t1 t"
    using copy_entries_exact [OF apart apart2 start _ bound, of ?es, simplified] fresh by auto
  have "copyDir (render_path True U) (render_path True ?D) w = (Inr (), w\<lparr>w_fs := t\<rparr>)"
    using t(1) unfolding copyDir_def by (simp add: io_then_def stat mk rd is_dir_def)
  moreover have "tree_get t k = tree_get (w_fs w) k" if "\<not> prefix ?D k" for k
  proof -
    have "\<forall>x\<in>fst ` set ?es. \<not> prefix (?D @ [] @ [x]) k" using that append_prefixD by fastforce
    with t(2) have "tree_get t k = tree_get ?t1 k" unfolding copied_def by blast
    also have "\<dots> = tree_get (w_fs w) k" using that by (auto simp: tree_get_put)
    finally show ?thesis .
  qed
  moreover have "mirrored U ?D (w_fs w) t ks" for ks
  proof (cases ks)
    case Nil
    have "tree_get t ?D = tree_get ?t1 ?D" using t(2) by (auto simp: copied_def)
    with Nil src show ?thesis by (simp add: mirrored_def node_content_def tree_get_put)
  next
    case (Cons x xs)
    show ?thesis
    proof (cases "x \<in> fst ` set ?es")
      case True
      with t(2) Cons show ?thesis unfolding copied_def by auto
    next
      case False
      then have "tree_get (w_fs w) (U @ [x]) = None" using es(1) by (cases "tree_get (w_fs w) (U @ [x])") force+
      then have "tree_get (w_fs w) (U @ x # xs) = None" using tree_wf_none [OF wf, of "U @ [x]" xs] by simp
      moreover have "tree_get t (?D @ x # xs) = None"
      proof -
        have "\<forall>y\<in>fst ` set ?es. \<not> prefix (?D @ [] @ [y]) (?D @ x # xs)" using False by auto
        with t(2) below show ?thesis unfolding copied_def by metis
      qed
      ultimately show ?thesis using Cons by (simp add: mirrored_def)
    qed
  qed
  moreover have "tree_wf t" using t(2) by (simp add: copied_def)
  ultimately show ?thesis by blast
qed

section \<open>Properties\<close>


text \<open>
  Claim C29. The isolated workspace of a build is an exact copy. When no call fails, the unit is a
  directory and the workspace, which is not inside it, does not exist yet, the call succeeds; every
  path of the workspace holds what the unit holds there, or nothing when an element of the path is
  ignored by a project scan; and nothing outside the workspace changes.
\<close>

theorem isolated_workspace_exact:
  assumes "w_faults w = []" and "tree_wf (w_fs w)" and "tree_get (w_fs w) U = Some (Directory m)"
    and "tree_get (w_fs w) B = Some (Directory m')" and "tree_get (w_fs w) (B @ [''workspace'']) = None"
    and "\<not> prefix U (B @ [''workspace''])"
  shows "\<exists>t. prepareIsolatedBuildWorkspace (render_path True U) (render_path True B) w
      = (Inr (render_path True (B @ [''workspace''])), w\<lparr>w_fs := t\<rparr>)
    \<and> (\<forall>k. \<not> prefix (B @ [''workspace'']) k \<longrightarrow> tree_get t k = tree_get (w_fs w) k)
    \<and> (\<forall>ks. content_at t (B @ ''workspace'' # ks) =
        (if list_ex ShouldIgnoreInProjectScan ks then None else content_at (w_fs w) (U @ ks)))"
proof -
  have "plain_elem ''workspace''" by (simp add: plain_elem_def)
  from copyDir_quiet [OF assms(1-5) this assms(6)] obtain t where
    t: "copyDir (render_path True U) (render_path True (B @ [''workspace''])) w = (Inr (), w\<lparr>w_fs := t\<rparr>)"
    "\<forall>k. \<not> prefix (B @ [''workspace'']) k \<longrightarrow> tree_get t k = tree_get (w_fs w) k"
    "\<forall>ks. mirrored U (B @ [''workspace'']) (w_fs w) t ks" by blast
  have "filepath_Join [render_path True B, ''workspace''] = render_path True (B @ [''workspace''])"
    using tree_wf_plain [OF assms(2,4)] by (simp add: Join_names plain_elem_def)
  with t show ?thesis
    by (intro exI [of _ t]) (simp add: prepareIsolatedBuildWorkspace_def io_then_def io_return_def mirrored_def)
qed

section \<open>Witnesses\<close>

definition project_world :: world where
  "project_world = quiet_world [([''u''], Directory 0), ([''u'', ''Makefile''], File [1] 0), ([''u'', ''a~''], File [2] 0),
     ([''b''], Directory 0)] empty_db"

definition project_tools :: build_tools where
  "project_tools = \<lparr>bt_run = (\<lambda>dir name args w. (([''cc''], None),
      w\<lparr>w_fs := tree_put [''b'', ''workspace'', ''app''] (File [3] 6) (w_fs w)\<rparr>)),
    bt_index = (\<lambda>d. Inr []), bt_codemodel = (\<lambda>d. Inr []), bt_quote = (\<lambda>s. s)\<rparr>"

lemma project_tree: "tree_wf (w_fs project_world)"
  unfolding tree_wf_def
proof (intro conjI allI impI)
  show "distinct (map fst (w_fs project_world))" by (simp add: project_world_def quiet_world_def)
  show "tree_ok (w_fs project_world)" by (simp add: project_world_def quiet_world_def tree_ok_def plain_elem_def)
  fix k c n assume "tree_get (w_fs project_world) (k @ [c]) = Some n"
  then have "k = [] \<or> k = [''u'']"
    by (auto simp: project_world_def quiet_world_def tree_get_def append_eq_Cons_conv split: if_splits)
  then show "\<exists>m. tree_get (w_fs project_world) k = Some (Directory m)"
    by (auto simp: project_world_def quiet_world_def tree_get_def)
qed


theorem isolated_workspace_exact_witness:
  "\<exists>t. prepareIsolatedBuildWorkspace ''/u'' ''/b'' project_world = (Inr ''/b/workspace'', project_world\<lparr>w_fs := t\<rparr>)
    \<and> content_at t [''b'', ''workspace'', ''Makefile''] = Some (Some [1])
    \<and> content_at t [''b'', ''workspace'', ''a~''] = None"
proof -
  have "w_faults project_world = []" "tree_get (w_fs project_world) [''u''] = Some (Directory 0)"
    "tree_get (w_fs project_world) [''b''] = Some (Directory 0)"
    "tree_get (w_fs project_world) ([''b''] @ [''workspace'']) = None" "\<not> prefix [''u''] ([''b''] @ [''workspace''])"
    by (simp_all add: project_world_def quiet_world_def tree_get_def)
  from isolated_workspace_exact [OF this(1) project_tree this(2-5)] obtain t where
    t: "prepareIsolatedBuildWorkspace (render_path True [''u'']) (render_path True [''b'']) project_world
      = (Inr (render_path True ([''b''] @ [''workspace''])), project_world\<lparr>w_fs := t\<rparr>)"
    "\<And>ks. content_at t ([''b''] @ ''workspace'' # ks) =
      (if list_ex ShouldIgnoreInProjectScan ks then None else content_at (w_fs project_world) ([''u''] @ ks))" by blast
  have "\<not> ShouldIgnoreInProjectScan ''Makefile''" "ShouldIgnoreInProjectScan ''a~''" by code_simp+
  with t(2) [of "[''Makefile'']"] t(2) [of "[''a~'']"] have
    "content_at t [''b'', ''workspace'', ''Makefile''] = Some (Some [1])" "content_at t [''b'', ''workspace'', ''a~''] = None"
    by (simp_all add: project_world_def quiet_world_def tree_get_def node_content_def)
  with t(1) show ?thesis by (intro exI [of _ t]) (simp add: render_path_def)
qed

end
