(* ===== verification/Migrations.thy ===== *)
theory Migrations
  imports GoIO Sql
begin

text \<open>
  \<open>internal/db/migrations.go\<close> with \<open>ensureTableColumns\<close> of \<open>internal/db/device_registry_admin.go\<close>
  and \<open>Open\<close> of \<open>internal/db/db.go\<close>: how a database file reaches the current schema.

  The state is the schema of the file (user version, tables with their columns, indexes) and a
  script of faults from which every statement takes its next entry. SQLite compares the names of
  tables, columns and indexes without case. Names and definitions are those of the statements in
  the source; rows are not part of the schema.
\<close>

section \<open>Schemas\<close>

record table_info =
  ti_name :: string
  ti_columns :: "(string \<times> string) list"

record index_info =
  ii_name :: string
  ii_table :: string
  ii_columns :: "string list"

record schema =
  sc_user_version :: int
  sc_tables :: "table_info list"
  sc_indexes :: "index_info list"

definition same_name :: "string \<Rightarrow> string \<Rightarrow> bool" where
  "same_name a b = (strings_ToLower a = strings_ToLower b)"

definition find_table :: "string \<Rightarrow> schema \<Rightarrow> table_info option" where
  "find_table name s = find (\<lambda>t. same_name (ti_name t) name) (sc_tables s)"

definition has_column :: "table_info \<Rightarrow> string \<Rightarrow> bool" where
  "has_column t c = list_ex (\<lambda>(name, definition). same_name name c) (ti_columns t)"

definition has_index :: "string \<Rightarrow> schema \<Rightarrow> bool" where
  "has_index name s = list_ex (\<lambda>i. same_name (ii_name i) name) (sc_indexes s)"

section \<open>Statements\<close>

datatype ddl =
    CreateTable string "(string \<times> string) list"
  | CreateIndex string string "string list"
  | AddColumn string string string
  | SetUserVersion int

text \<open>Both \<open>CREATE\<close> statements say \<open>IF NOT EXISTS\<close>.\<close>

fun run_ddl :: "ddl \<Rightarrow> schema \<Rightarrow> schema result" where
  "run_ddl (CreateTable name columns) s =
    (if find_table name s \<noteq> None then Inr s
     else if has_index name s then Inl (ErrorText (''there is already an index named '' @ name))
     else Inr (s\<lparr>sc_tables := sc_tables s @ [\<lparr>ti_name = name, ti_columns = columns\<rparr>]\<rparr>))"
| "run_ddl (CreateIndex name table columns) s =
    (if has_index name s then Inr s
     else if find_table name s \<noteq> None then Inl (ErrorText (''there is already a table named '' @ name))
     else
       (case find_table table s of
          None \<Rightarrow> Inl (ErrorText (''no such table: '' @ table))
        | Some t \<Rightarrow>
          if list_all (has_column t) columns
          then Inr (s\<lparr>sc_indexes := sc_indexes s @ [\<lparr>ii_name = name, ii_table = table, ii_columns = columns\<rparr>]\<rparr>)
          else Inl (ErrorText (''no such column in '' @ table))))"
| "run_ddl (AddColumn table column definition) s =
    (case find_table table s of
       None \<Rightarrow> Inl (ErrorText (''no such table: '' @ table))
     | Some t \<Rightarrow>
       if has_column t column then Inl (ErrorText (''duplicate column name: '' @ column))
       else Inr (s\<lparr>sc_tables := map (\<lambda>u. if same_name (ti_name u) table
              then u\<lparr>ti_columns := ti_columns u @ [(column, definition)]\<rparr> else u) (sc_tables s)\<rparr>))"
| "run_ddl (SetUserVersion v) s = Inr (s\<lparr>sc_user_version := v\<rparr>)"

type_synonym conn = "schema \<times> goerr option list"
type_synonym 'a sql_io = "conn \<Rightarrow> 'a result \<times> conn"

text \<open>A statement that the fault script lets run, or that fails and changes nothing.\<close>

definition stmt :: "(schema \<Rightarrow> ('a \<times> schema) result) \<Rightarrow> 'a sql_io" where
  "stmt f c =
    (case c of (s, faults) \<Rightarrow>
     (case faults of
        Some e # fs \<Rightarrow> (Inl e, (s, fs))
      | _ \<Rightarrow> (case f s of Inl e \<Rightarrow> (Inl e, (s, tl faults)) | Inr (x, s1) \<Rightarrow> (Inr x, (s1, tl faults)))))"

definition sql_Exec :: "ddl \<Rightarrow> unit sql_io" where
  "sql_Exec d = stmt (\<lambda>s. map_sum id (Pair ()) (run_ddl d s))"

definition currentSchemaVersion :: "int sql_io" where
  "currentSchemaVersion = stmt (\<lambda>s. Inr (sc_user_version s, s))"

fun execStatements :: "ddl list \<Rightarrow> unit sql_io" where
  "execStatements [] = io_return ()"
| "execStatements (d # ds) = io_then (sql_Exec d) (\<lambda>_. execStatements ds)"

text \<open>\<open>PRAGMA table_info\<close> gives no rows for a table that is not there.\<close>

definition table_info_rows :: "string \<Rightarrow> schema \<Rightarrow> string list" where
  "table_info_rows table s = (case find_table table s of None \<Rightarrow> [] | Some t \<Rightarrow> map fst (ti_columns t))"

fun add_missing :: "string \<Rightarrow> string list \<Rightarrow> (string \<times> string) list \<Rightarrow> unit sql_io" where
  "add_missing table existing [] = io_return ()"
| "add_missing table existing ((name, definition) # cs) =
    (if strings_ToLower name \<in> set existing then add_missing table existing cs
     else io_then (sql_Exec (AddColumn table name definition)) (\<lambda>_. add_missing table existing cs))"

definition ensureTableColumns :: "string \<Rightarrow> (string \<times> string) list \<Rightarrow> unit sql_io" where
  "ensureTableColumns table columns =
    io_then (stmt (\<lambda>s. Inr (table_info_rows table s, s))) (\<lambda>names.
      add_missing table (map (\<lambda>n. strings_ToLower (strings_TrimSpace n)) names) columns)"

section \<open>The migrations\<close>

definition core_file_tables :: "ddl list" where
  "core_file_tables =
    [CreateTable ''meta''
       [(''path'', ''TEXT PRIMARY KEY''), (''is_dir'', ''INTEGER''), (''size'', ''INTEGER''),
        (''mtime_unix'', ''INTEGER''), (''hash'', ''TEXT''), (''version'', ''INTEGER'')],
     CreateTable ''version''
       [(''path'', ''TEXT''), (''version'', ''INTEGER''), (''mtime_unix'', ''INTEGER''), (''hash'', ''TEXT''),
        (''size'', ''INTEGER''), (''client_id'', ''TEXT''), (''change_type'', ''TEXT'')],
     CreateTable ''version_blob''
       [(''path'', ''TEXT''), (''version'', ''INTEGER''), (''data'', ''BLOB'')],
     CreateTable ''file_head''
       [(''path'', ''TEXT PRIMARY KEY''), (''current_version'', ''INTEGER NOT NULL'')]]"

definition migrateToSchemaV1 :: "unit sql_io" where
  "migrateToSchemaV1 = execStatements core_file_tables"

definition quoted :: "string \<Rightarrow> string" where
  "quoted v = CHR 0x27 # v @ [CHR 0x27]"

abbreviation text_column :: "string \<Rightarrow> string \<times> string" where
  "text_column name \<equiv> (name, ''TEXT NOT NULL DEFAULT '' @ quoted [])"

abbreviation list_column :: "string \<Rightarrow> string \<times> string" where
  "list_column name \<equiv> (name, ''TEXT NOT NULL DEFAULT '' @ quoted ''[]'')"

abbreviation int_column :: "string \<Rightarrow> string \<Rightarrow> string \<times> string" where
  "int_column name initial \<equiv> (name, ''INTEGER NOT NULL DEFAULT '' @ initial)"

definition control_plane_tables :: "ddl list" where
  "control_plane_tables =
    [CreateTable ''device_registry''
       [(''device_id'', ''TEXT PRIMARY KEY''), text_column ''device_name'', text_column ''device_role'',
        text_column ''assigned_device_label'', text_column ''client_version'', text_column ''platform'',
        text_column ''overlay_provider'', text_column ''overlay_address'',
        list_column ''capabilities_json'', text_column ''server_id'', text_column ''device_group'',
        text_column ''last_session_id'', int_column ''heartbeat_interval_seconds'' ''15'',
        int_column ''policy_revision'' ''1'', int_column ''requires_policy_pull'' ''1'',
        int_column ''overlay_connected'' ''0'', int_column ''grpc_connected'' ''0'',
        int_column ''last_sync_time_unix'' ''0'', text_column ''last_error'',
        text_column ''mount_state'', int_column ''mounted'' ''0'', text_column ''mount_path'',
        int_column ''last_mount_time_unix'' ''0'', text_column ''mount_last_error'',
        text_column ''sync_state_summary'', int_column ''current_task_count'' ''0'',
        int_column ''sync_last_success_time'' ''0'', text_column ''sync_last_error'',
        int_column ''conflict_count'' ''0'', int_column ''queue_depth'' ''0'',
        text_column ''sync_summary'', int_column ''created_at_unix'' ''0'',
        int_column ''updated_at_unix'' ''0'', int_column ''last_registered_at_unix'' ''0'',
        int_column ''last_heartbeat_at_unix'' ''0'', int_column ''last_sync_report_at_unix'' ''0'',
        int_column ''last_mount_report_at_unix'' ''0'', int_column ''last_seen_at_unix'' ''0''],
     CreateIndex ''idx_device_registry_last_seen'' ''device_registry'' [''last_seen_at_unix'', ''updated_at_unix''],
     CreateTable ''device_policy''
       [(''device_id'', ''TEXT PRIMARY KEY''), text_column ''mount_path'',
        list_column ''sync_roots_json'', text_column ''conflict_policy'',
        int_column ''read_only'' ''0'', int_column ''auto_connect'' ''1'',
        int_column ''bandwidth_limit'' ''0'', text_column ''log_level'',
        int_column ''large_file_threshold'' ''0'', int_column ''policy_revision'' ''1'',
        int_column ''updated_at_unix'' ''0''],
     CreateTable ''device_actions''
       [(''action_id'', ''TEXT PRIMARY KEY''), (''device_id'', ''TEXT NOT NULL''),
        (''action_type'', ''TEXT NOT NULL''), text_column ''payload_json'',
        (''status'', ''TEXT NOT NULL DEFAULT '' @ quoted ''pending''),
        int_column ''requested_at_unix'' ''0'', int_column ''delivered_at_unix'' ''0'',
        int_column ''completed_at_unix'' ''0''],
     CreateIndex ''idx_device_actions_pending'' ''device_actions'' [''device_id'', ''status'', ''requested_at_unix''],
     CreateTable ''device_diagnostics''
       [(''diagnostics_id'', ''TEXT PRIMARY KEY''), (''device_id'', ''TEXT NOT NULL''),
        text_column ''category'', text_column ''content_type'', text_column ''summary'',
        (''payload'', ''BLOB NOT NULL''), int_column ''size_bytes'' ''0'',
        int_column ''uploaded_at_unix'' ''0''],
     CreateIndex ''idx_device_diagnostics_recent'' ''device_diagnostics''
       [''device_id'', ''uploaded_at_unix'', ''diagnostics_id'']]"

definition mount_columns :: "(string \<times> string) list" where
  "mount_columns = [int_column ''mounted'' ''0'', text_column ''mount_path'', int_column ''last_mount_time_unix'' ''0'',
     text_column ''mount_last_error'', int_column ''last_mount_report_at_unix'' ''0'']"

definition migrateToSchemaV2 :: "unit sql_io" where
  "migrateToSchemaV2 =
    io_then (execStatements control_plane_tables) (\<lambda>_. ensureTableColumns ''device_registry'' mount_columns)"

record schemaMigration =
  mi_version :: int
  mi_name :: string
  mi_apply :: "unit sql_io"

definition schemaMigrations :: "schemaMigration list" where
  "schemaMigrations =
    [\<lparr>mi_version = 1, mi_name = ''core_file_tables'', mi_apply = migrateToSchemaV1\<rparr>,
     \<lparr>mi_version = 2, mi_name = ''control_plane_tables'', mi_apply = migrateToSchemaV2\<rparr>]"

definition CurrentSchemaVersion :: int where
  "CurrentSchemaVersion = 2"

text \<open>\<open>Begin\<close> and \<open>Commit\<close> can fail too; the deferred \<open>Rollback\<close> puts the schema back unless it was committed.\<close>

definition runMigration :: "schemaMigration \<Rightarrow> unit sql_io" where
  "runMigration m c =
    (case stmt (\<lambda>s. Inr ((), s)) c of
       (Inl e, c1) \<Rightarrow> (Inl e, c1)
     | (Inr _, c1) \<Rightarrow>
       (case io_then (mi_apply m) (\<lambda>_. io_then (sql_Exec (SetUserVersion (mi_version m))) (\<lambda>_. stmt (\<lambda>s. Inr ((), s)))) c1 of
          (Inl e, (s2, faults)) \<Rightarrow> (Inl e, (fst c1, faults))
        | (Inr _, c2) \<Rightarrow> (Inr (), c2)))"

fun apply_pending :: "int \<Rightarrow> schemaMigration list \<Rightarrow> unit sql_io" where
  "apply_pending version [] = io_return ()"
| "apply_pending version (m # ms) =
    (if version \<ge> mi_version m then apply_pending version ms
     else (\<lambda>c. case runMigration m c of
         (Inl e, c1) \<Rightarrow>
           (Inl (Wrapf (''apply schema migration v'' @ strconv_Itoa (mi_version m) @ '' ('' @ mi_name m @ ''): '') e []), c1)
       | (Inr _, c1) \<Rightarrow> apply_pending (mi_version m) ms c1))"

definition applyMigrations :: "unit sql_io" where
  "applyMigrations = io_then currentSchemaVersion (\<lambda>version. apply_pending version schemaMigrations)"

text \<open>\<open>Open\<close>: three pragmas, then the migrations.\<close>

definition DB_Open :: "unit sql_io" where
  "DB_Open =
    io_then (stmt (\<lambda>s. Inr ((), s))) (\<lambda>_.
    io_then (stmt (\<lambda>s. Inr ((), s))) (\<lambda>_.
    io_then (stmt (\<lambda>s. Inr ((), s))) (\<lambda>_. applyMigrations)))"

end
