(* ===== verification/MigrationLaws.thy ===== *)
theory MigrationLaws
  imports Migrations
begin

text \<open>
  What a migration makes of a schema: nothing is dropped, nothing stays half way, and whatever can
  be migrated is.
\<close>

section \<open>What statements do\<close>

lemma conn_cases: obtains r s fs where "x = (r, (s, fs))"
  by (cases x) auto

lemma stmt_cases:
  assumes "stmt f (s, fs) = (r, (s', fs'))"
  obtains (failed) e where "r = Inl e" and "s' = s" | (ran) x where "r = Inr x" and "f s = Inr (x, s')"
  using assms that by (auto simp: stmt_def split: list.splits option.splits sum.splits)

lemma sql_Exec_cases:
  assumes "sql_Exec d (s, fs) = (r, (s', fs'))"
  obtains (failed) e where "r = Inl e" and "s' = s" | (ran) "r = Inr ()" and "run_ddl d s = Inr s'"
  using assms unfolding sql_Exec_def
  by (rule stmt_cases) (use that in \<open>auto simp: map_sum_def split: sum.splits\<close>)

lemma io_then_stop: "m c = (Inl e, c1) \<Longrightarrow> io_then m f c = (Inl e, c1)"
  by (simp add: io_then_def)

text \<open>A script without faults, as a function on schemas.\<close>

fun run_all :: "ddl list \<Rightarrow> schema \<Rightarrow> schema result" where
  "run_all [] s = Inr s"
| "run_all (d # ds) s = (case run_ddl d s of Inl e \<Rightarrow> Inl e | Inr s1 \<Rightarrow> run_all ds s1)"

lemma execStatements_ok: "execStatements ds (s, fs) = (Inr u, (s', fs')) \<Longrightarrow> run_all ds s = Inr s'"
proof (induction ds arbitrary: s fs)
  case Nil
  then show ?case by (simp add: io_return_def)
next
  case (Cons d ds)
  obtain r s1 fs1 where 1: "sql_Exec d (s, fs) = (r, (s1, fs1))" by (rule conn_cases)
  from 1 show ?case
  proof (cases rule: sql_Exec_cases)
    case (failed e)
    with 1 Cons.prems show ?thesis by (simp add: io_then_def)
  next
    case ran
    with 1 Cons show ?thesis by (simp add: io_then_def)
  qed
qed

lemma add_missing_ok:
  "add_missing table existing cs (s, fs) = (Inr u, (s', fs')) \<Longrightarrow>
    run_all (map (\<lambda>(n, d). AddColumn table n d) (filter (\<lambda>(n, d). strings_ToLower n \<notin> set existing) cs)) s = Inr s'"
proof (induction cs arbitrary: s fs)
  case Nil
  then show ?case by (simp add: io_return_def)
next
  case (Cons c cs)
  obtain n d where c: "c = (n, d)" by force
  show ?case
  proof (cases "strings_ToLower n \<in> set existing")
    case True
    with Cons c show ?thesis by simp
  next
    case False
    obtain r s1 fs1 where 1: "sql_Exec (AddColumn table n d) (s, fs) = (r, (s1, fs1))" by (rule conn_cases)
    from 1 show ?thesis
    proof (cases rule: sql_Exec_cases)
      case (failed e)
      with 1 Cons.prems c False show ?thesis by (simp add: io_then_def)
    next
      case ran
      with 1 Cons c False show ?thesis by (simp add: io_then_def del: run_ddl.simps)
    qed
  qed
qed

lemma find_table_version [simp]: "find_table n (s\<lparr>sc_user_version := v\<rparr>) = find_table n s"
  "has_index n (s\<lparr>sc_user_version := v\<rparr>) = has_index n s"
  by (simp_all add: find_table_def has_index_def)

lemma find_table_append:
  "find_table n (s\<lparr>sc_tables := sc_tables s @ [t]\<rparr>)
    = (case find_table n s of Some u \<Rightarrow> Some u | None \<Rightarrow> if same_name (ti_name t) n then Some t else None)"
proof -
  have "find P (xs @ [t]) = (case find P xs of Some u \<Rightarrow> Some u | None \<Rightarrow> if P t then Some t else None)" for P xs
    by (induction xs) auto
  then show ?thesis by (simp add: find_table_def)
qed

fun script_table :: "ddl list \<Rightarrow> string \<Rightarrow> table_info option" where
  "script_table [] n = None"
| "script_table (CreateTable name columns # ds) n =
    (if same_name name n then Some \<lparr>ti_name = name, ti_columns = columns\<rparr> else script_table ds n)"
| "script_table (d # ds) n = script_table ds n"

fun script_index :: "ddl list \<Rightarrow> string \<Rightarrow> bool" where
  "script_index [] n = False"
| "script_index (CreateIndex name table columns # ds) n = (same_name name n \<or> script_index ds n)"
| "script_index (d # ds) n = script_index ds n"

fun is_create :: "ddl \<Rightarrow> bool" where
  "is_create (CreateTable name columns) = True"
| "is_create (CreateIndex name table columns) = True"
| "is_create d = False"

lemma find_table_same: "same_name a b \<Longrightarrow> find_table a s = find_table b s"
  by (simp add: find_table_def same_name_def)

lemma has_index_same: "same_name a b \<Longrightarrow> has_index a s = has_index b s"
  by (simp add: has_index_def same_name_def)

lemma run_create:
  assumes "run_ddl d s = Inr s1" and "is_create d"
  shows "find_table n s1 = (case find_table n s of Some u \<Rightarrow> Some u | None \<Rightarrow> script_table [d] n)"
    and "has_index n s1 \<longleftrightarrow> has_index n s \<or> script_index [d] n"
    and "set (sc_indexes s) \<subseteq> set (sc_indexes s1)" and "sc_user_version s1 = sc_user_version s"
proof -
  have tables: "find_table n (s\<lparr>sc_indexes := is\<rparr>) = find_table n s" for "is" by (simp add: find_table_def)
  have indexes: "has_index n (s\<lparr>sc_indexes := sc_indexes s @ [i]\<rparr>) \<longleftrightarrow> has_index n s \<or> same_name (ii_name i) n"
    "has_index n (s\<lparr>sc_tables := ts\<rparr>) = has_index n s" for i ts by (auto simp: has_index_def)
  show "find_table n s1 = (case find_table n s of Some u \<Rightarrow> Some u | None \<Rightarrow> script_table [d] n)"
  proof (cases d)
    case (CreateTable name columns)
    with assms show ?thesis using find_table_same [of name n s]
      by (cases "same_name name n") (auto simp: find_table_append split: if_splits option.splits)
  next
    case (CreateIndex name table columns)
    with assms have "find_table n s1 = find_table n s" by (auto simp: tables split: if_splits option.splits)
    with CreateIndex show ?thesis by (simp split: option.splits)
  qed (use assms in auto)
  show "has_index n s1 \<longleftrightarrow> has_index n s \<or> script_index [d] n"
  proof (cases d)
    case (CreateTable name columns)
    with assms show ?thesis by (auto simp: indexes split: if_splits)
  next
    case (CreateIndex name table columns)
    show ?thesis
    proof (cases "has_index name s")
      case True
      with CreateIndex assms has_index_same [of name n s] show ?thesis by auto
    next
      case False
      with CreateIndex assms show ?thesis by (auto simp: indexes split: if_splits option.splits)
    qed
  qed (use assms in auto)
  show "set (sc_indexes s) \<subseteq> set (sc_indexes s1)" "sc_user_version s1 = sc_user_version s"
    using assms by (cases d; auto split: if_splits option.splits)+
qed

lemma run_creates:
  assumes "run_all ds s = Inr s'" and "list_all is_create ds"
  shows "find_table n s' = (case find_table n s of Some u \<Rightarrow> Some u | None \<Rightarrow> script_table ds n)
    \<and> (has_index n s' \<longleftrightarrow> has_index n s \<or> script_index ds n)
    \<and> set (sc_indexes s) \<subseteq> set (sc_indexes s') \<and> sc_user_version s' = sc_user_version s"
  using assms
proof (induction ds arbitrary: s)
  case Nil
  then show ?case by (simp split: option.splits)
next
  case (Cons d ds)
  obtain s1 where 1: "run_ddl d s = Inr s1" and rest: "run_all ds s1 = Inr s'"
    using Cons.prems(1) by (auto split: sum.splits)
  have tab: "script_table (d # ds) n = (case script_table [d] n of Some u \<Rightarrow> Some u | None \<Rightarrow> script_table ds n)"
    and ind: "script_index (d # ds) n \<longleftrightarrow> script_index [d] n \<or> script_index ds n" by (cases d; simp)+
  have ok: "is_create d" "list_all is_create ds" using Cons.prems(2) by simp_all
  have tables: "find_table n s' = (case find_table n s of Some u \<Rightarrow> Some u | None \<Rightarrow> script_table (d # ds) n)"
    using Cons.IH [OF rest ok(2)] run_create(1) [OF 1 ok(1), of n] unfolding tab
    by (cases "find_table n s"; cases "script_table [d] n") simp_all
  have indexes: "has_index n s' \<longleftrightarrow> has_index n s \<or> script_index (d # ds) n"
    using Cons.IH [OF rest ok(2)] run_create(2) [OF 1 ok(1), of n] ind by blast
  show ?case
    using tables indexes Cons.IH [OF rest ok(2)] run_create(3,4) [OF 1 ok(1)] by (metis order_trans)
qed

lemma find_table_add:
  assumes "\<And>u. ti_name (f u) = ti_name u"
  shows "find_table n (s\<lparr>sc_tables := map (\<lambda>u. if same_name (ti_name u) table then f u else u) (sc_tables s)\<rparr>)
    = (if same_name table n then map_option f (find_table n s) else find_table n s)"
proof -
  have "find (\<lambda>t. same_name (ti_name t) n) (map (\<lambda>u. if same_name (ti_name u) table then f u else u) ts)
    = (if same_name table n then map_option f (find (\<lambda>t. same_name (ti_name t) n) ts) else find (\<lambda>t. same_name (ti_name t) n) ts)" for ts
    using assms by (induction ts) (auto simp: same_name_def)
  then show ?thesis by (simp add: find_table_def)
qed

lemma run_adds:
  "run_all (map (\<lambda>(c, d). AddColumn table c d) cs) s = Inr s' \<Longrightarrow>
    find_table n s' = (if same_name table n then map_option (\<lambda>t. t\<lparr>ti_columns := ti_columns t @ cs\<rparr>) (find_table n s)
      else find_table n s)
    \<and> sc_indexes s' = sc_indexes s \<and> sc_user_version s' = sc_user_version s"
proof (induction cs arbitrary: s)
  case Nil
  then show ?case by (simp add: option.map_ident)
next
  case (Cons c cs)
  obtain name d where c: "c = (name, d)" by force
  obtain s1 where 1: "run_ddl (AddColumn table name d) s = Inr s1"
    and rest: "run_all (map (\<lambda>(c, d). AddColumn table c d) cs) s1 = Inr s'"
    using Cons.prems c by (auto simp del: run_ddl.simps split: sum.splits)
  let ?f = "\<lambda>u. u\<lparr>ti_columns := ti_columns u @ [(name, d)]\<rparr>"
  have s1: "s1 = s\<lparr>sc_tables := map (\<lambda>u. if same_name (ti_name u) table then ?f u else u) (sc_tables s)\<rparr>"
    using 1 by (auto split: option.splits if_splits)
  have "find_table n s1 = (if same_name table n then map_option ?f (find_table n s) else find_table n s)"
    unfolding s1 by (rule find_table_add) simp
  with Cons.IH [OF rest] s1 c show ?case by (simp add: option.map_comp comp_def)
qed

section \<open>Schemas that are valid\<close>

text \<open>Nothing is dropped: tables keep their columns and may get more, indexes stay.\<close>

definition schema_kept :: "schema \<Rightarrow> schema \<Rightarrow> bool" where
  "schema_kept s s' \<longleftrightarrow>
    (\<forall>n t. find_table n s = Some t \<longrightarrow> (\<exists>more. find_table n s' = Some (t\<lparr>ti_columns := ti_columns t @ more\<rparr>)))
    \<and> set (sc_indexes s) \<subseteq> set (sc_indexes s')"

definition installed :: "ddl list \<Rightarrow> schema \<Rightarrow> bool" where
  "installed ds s \<longleftrightarrow> (\<forall>n. (script_table ds n \<noteq> None \<longrightarrow> find_table n s \<noteq> None) \<and> (script_index ds n \<longrightarrow> has_index n s))"

definition shows_column :: "table_info \<Rightarrow> string \<Rightarrow> bool" where
  "shows_column t c \<longleftrightarrow> (\<exists>x\<in>fst ` set (ti_columns t). strings_ToLower (strings_TrimSpace x) = strings_ToLower c)"

definition schema_valid :: "schema \<Rightarrow> bool" where
  "schema_valid s \<longleftrightarrow>
    (1 \<le> sc_user_version s \<longrightarrow> installed core_file_tables s)
    \<and> (2 \<le> sc_user_version s \<longrightarrow> installed control_plane_tables s
      \<and> (\<exists>t. find_table ''device_registry'' s = Some t \<and> (\<forall>c\<in>set mount_columns. shows_column t (fst c))))"

lemma kept_refl: "schema_kept s s"
  unfolding schema_kept_def by (intro conjI allI impI exI [of _ "[]"]; simp)

lemma kept_trans: "schema_kept s s1 \<Longrightarrow> schema_kept s1 s2 \<Longrightarrow> schema_kept s s2"
  unfolding schema_kept_def
proof (intro conjI allI impI, goal_cases)
  case (1 n t)
  then obtain m where "find_table n s1 = Some (t\<lparr>ti_columns := ti_columns t @ m\<rparr>)" by blast
  with 1 obtain m' where "find_table n s2 = Some (t\<lparr>ti_columns := ti_columns t @ m @ m'\<rparr>)"
    by (metis append_assoc table_info.select_convs(2) table_info.surjective table_info.update_convs(2))
  then show ?case by blast
qed blast

lemma kept_version [simp]: "schema_kept s (s'\<lparr>sc_user_version := v\<rparr>) = schema_kept s s'" "schema_kept (s\<lparr>sc_user_version := v\<rparr>) s' = schema_kept s s'"
  by (simp_all add: schema_kept_def)

lemma installed_version [simp]: "installed ds (s\<lparr>sc_user_version := v\<rparr>) = installed ds s"
  by (simp add: installed_def)

lemma kept_installed: "schema_kept s s' \<Longrightarrow> installed ds s \<Longrightarrow> installed ds s'"
  by (fastforce simp: schema_kept_def installed_def has_index_def list_ex_iff)

lemma creates_kept:
  assumes "run_all ds s = Inr s'" and "list_all is_create ds"
  shows "schema_kept s s'" and "installed ds s'"
proof -
  note eff = run_creates [OF assms]
  have "t\<lparr>ti_columns := ti_columns t @ []\<rparr> = t" for t :: table_info by simp
  with eff show "schema_kept s s'" unfolding schema_kept_def by (metis option.case(2))
  from eff show "installed ds s'" by (simp add: installed_def split: option.splits)
qed

lemma adds_kept: "run_all (map (\<lambda>(c, d). AddColumn table c d) cs) s = Inr s' \<Longrightarrow> schema_kept s s'"
proof -
  assume "run_all (map (\<lambda>(c, d). AddColumn table c d) cs) s = Inr s'"
  note eff = run_adds [OF this]
  have same: "t\<lparr>ti_columns := ti_columns t @ []\<rparr> = t" for t :: table_info by simp
  show "schema_kept s s'"
    unfolding schema_kept_def
  proof (intro conjI allI impI)
    fix n t assume "find_table n s = Some t"
    with eff [of n] show "\<exists>more. find_table n s' = Some (t\<lparr>ti_columns := ti_columns t @ more\<rparr>)"
      using same [of t] by (cases "same_name table n") (auto intro: exI [of _ "[]"])
  qed (use eff in simp)
qed

section \<open>The migrations\<close>

lemma migrate_V1:
  assumes "migrateToSchemaV1 (s, fs) = (Inr u, (s', fs'))"
  shows "schema_kept s s'" and "installed core_file_tables s'" and "sc_user_version s' = sc_user_version s"
proof -
  have run: "run_all core_file_tables s = Inr s'" using assms execStatements_ok by (simp add: migrateToSchemaV1_def)
  have c: "list_all is_create core_file_tables" by (simp add: core_file_tables_def)
  show "schema_kept s s'" "installed core_file_tables s'" by (rule creates_kept [OF run c])+
  show "sc_user_version s' = sc_user_version s" using run_creates [OF run c] by blast
qed

lemma mount_columns_trimmed: "c \<in> set mount_columns \<Longrightarrow> strings_TrimSpace (fst c) = fst c"
proof -
  have "list_all (\<lambda>c. strings_TrimSpace (fst c) = fst c) mount_columns" by code_simp
  then show "c \<in> set mount_columns \<Longrightarrow> strings_TrimSpace (fst c) = fst c" by (simp add: list_all_iff)
qed

lemma control_plane_creates: "list_all is_create control_plane_tables"
  "script_table control_plane_tables ''device_registry'' \<noteq> None"
  by (simp_all add: control_plane_tables_def same_name_def del: append.simps)

lemma migrate_V2:
  assumes "migrateToSchemaV2 (s, fs) = (Inr u, (s', fs'))"
  shows "schema_kept s s'" and "installed control_plane_tables s'" and "sc_user_version s' = sc_user_version s"
    and "\<exists>t. find_table ''device_registry'' s' = Some t \<and> (\<forall>c\<in>set mount_columns. shows_column t (fst c))"
proof -
  let ?reg = "''device_registry''"
  obtain r s1 fs1 where 1: "execStatements control_plane_tables (s, fs) = (r, (s1, fs1))" by (rule conn_cases)
  with assms obtain u1 where r: "r = Inr u1" and 2: "ensureTableColumns ?reg mount_columns (s1, fs1) = (Inr u, (s', fs'))"
    by (cases r) (simp_all add: migrateToSchemaV2_def io_then_def)
  have run: "run_all control_plane_tables s = Inr s1" using 1 r execStatements_ok by simp
  note c = control_plane_creates(1)
  note creates = creates_kept [OF run c] run_creates [OF run c]
  obtain names fs2 where names: "names = table_info_rows ?reg s1"
    and 3: "add_missing ?reg (map (\<lambda>n. strings_ToLower (strings_TrimSpace n)) names) mount_columns (s1, fs2) = (Inr u, (s', fs'))"
  proof -
    obtain r2 s2 fs2 where st: "stmt (\<lambda>s. Inr (table_info_rows ?reg s, s)) (s1, fs1) = (r2, (s2, fs2))" by (rule conn_cases)
    from st show thesis
    proof (cases rule: stmt_cases)
      case (failed e)
      have "ensureTableColumns ?reg mount_columns (s1, fs1) = (Inl e, (s2, fs2))"
        unfolding ensureTableColumns_def by (rule io_then_stop) (use st failed(1) in blast)
      with 2 show thesis by simp
    next
      case (ran x)
      then have x: "x = table_info_rows ?reg s1" "s2 = s1" by blast+
      have "ensureTableColumns ?reg mount_columns (s1, fs1)
          = add_missing ?reg (map (\<lambda>n. strings_ToLower (strings_TrimSpace n)) x) mount_columns (s2, fs2)"
        unfolding ensureTableColumns_def by (rule io_then_run) (use st ran(1) in blast)
      with 2 x that [of x fs2] show thesis by argo
    qed
  qed
  define cs where "cs = filter (\<lambda>(n, d). strings_ToLower n \<notin> set (map (\<lambda>n. strings_ToLower (strings_TrimSpace n)) names)) mount_columns"
  have adds: "run_all (map (\<lambda>(n, d). AddColumn ?reg n d) cs) s1 = Inr s'"
    using add_missing_ok [OF 3] by (simp add: cs_def)
  note added = run_adds [OF adds]
  show "schema_kept s s'" using creates(1) adds_kept [OF adds] by (rule kept_trans)
  show "installed control_plane_tables s'" using adds_kept [OF adds] creates(2) by (rule kept_installed)
  show "sc_user_version s' = sc_user_version s" using creates(3) added by simp
  from creates(2) control_plane_creates(2) have "find_table ?reg s1 \<noteq> None" unfolding installed_def by blast
  then obtain t where t: "find_table ?reg s1 = Some t" by blast
  with added [of ?reg] have t': "find_table ?reg s' = Some (t\<lparr>ti_columns := ti_columns t @ cs\<rparr>)" by (simp add: same_name_def)
  have "shows_column (t\<lparr>ti_columns := ti_columns t @ cs\<rparr>) (fst c)" if c: "c \<in> set mount_columns" for c
  proof (cases "c \<in> set cs")
    case True
    with mount_columns_trimmed [OF c] show ?thesis by (force simp: shows_column_def)
  next
    case False
    with c have "strings_ToLower (fst c) \<in> (\<lambda>n. strings_ToLower (strings_TrimSpace n)) ` set names"
      by (auto simp: cs_def case_prod_unfold)
    then show ?thesis using names t by (force simp: shows_column_def table_info_rows_def)
  qed
  with t' show "\<exists>t. find_table ?reg s' = Some t \<and> (\<forall>c\<in>set mount_columns. shows_column t (fst c))" by blast
qed

text \<open>A migration happens as a whole or not at all.\<close>

lemma runMigration_cases:
  assumes "runMigration m (s, fs) = (r, (s', fs'))"
  obtains (failed) e where "r = Inl e" and "s' = s"
  | (ran) s1 fs1 fs2 u where "r = Inr ()" and "mi_apply m (s, fs1) = (Inr u, (s1, fs2))"
    and "s' = s1\<lparr>sc_user_version := mi_version m\<rparr>"
proof -
  obtain r0 s0 fs0 where 0: "stmt (\<lambda>s. Inr ((), s)) (s, fs) = (r0, (s0, fs0))" by (rule conn_cases)
  from 0 show thesis
  proof (cases rule: stmt_cases)
    case (failed e)
    with 0 assms that(1) show thesis by (auto simp: runMigration_def)
  next
    case (ran x)
    then have s0: "s0 = s" by simp
    obtain r1 s1 fs1 where 1: "mi_apply m (s, fs0) = (r1, (s1, fs1))" by (rule conn_cases)
    obtain r2 s2 fs2 where 2: "sql_Exec (SetUserVersion (mi_version m)) (s1, fs1) = (r2, (s2, fs2))" by (rule conn_cases)
    obtain r3 s3 fs3 where 3: "stmt (\<lambda>s. Inr ((), s)) (s2, fs2) = (r3, (s3, fs3))" by (rule conn_cases)
    have run: "runMigration m (s, fs) = (case r1 of Inl e \<Rightarrow> (Inl e, (s, fs1)) | Inr _ \<Rightarrow>
        (case r2 of Inl e \<Rightarrow> (Inl e, (s, fs2)) | Inr _ \<Rightarrow>
        (case r3 of Inl e \<Rightarrow> (Inl e, (s, fs3)) | Inr _ \<Rightarrow> (Inr (), (s3, fs3)))))"
      using 0 1 2 3 ran(1) s0 by (simp add: runMigration_def io_then_def split: sum.split)
    show thesis
    proof (cases r1)
      case (Inl e)
      with run assms that(1) show thesis by auto
    next
      case u1: (Inr u)
      from 2 show thesis
      proof (cases rule: sql_Exec_cases)
        case (failed e)
        with run assms u1 that(1) show thesis by auto
      next
        case set: ran
        from 3 show thesis
        proof (cases rule: stmt_cases)
          case (failed e)
          with run assms u1 set that(1) show thesis by auto
        next
          case commit: (ran y)
          with run assms u1 set 1 that(2) show thesis by auto
        qed
      qed
    qed
  qed
qed

lemma run_first:
  assumes "runMigration \<lparr>mi_version = 1, mi_name = n, mi_apply = migrateToSchemaV1\<rparr> (s, fs) = (r, (s', fs'))"
    and "sc_user_version s < 1"
  shows "(\<exists>e. r = Inl e \<and> s' = s) \<or> r = Inr () \<and> schema_kept s s' \<and> schema_valid s' \<and> sc_user_version s' = 1"
  using assms(1)
proof (cases rule: runMigration_cases)
  case (ran s1 fs1 fs2 u)
  then have run: "migrateToSchemaV1 (s, fs1) = (Inr u, (s1, fs2))" by simp
  from migrate_V1 [OF this] ran show ?thesis by (simp add: schema_valid_def)
qed simp

lemma run_second:
  assumes "runMigration \<lparr>mi_version = 2, mi_name = n, mi_apply = migrateToSchemaV2\<rparr> (s, fs) = (r, (s', fs'))"
    and "schema_valid s" and "sc_user_version s = 1"
  shows "(\<exists>e. r = Inl e \<and> s' = s) \<or> r = Inr () \<and> schema_kept s s' \<and> schema_valid s' \<and> sc_user_version s' = 2"
  using assms(1)
proof (cases rule: runMigration_cases)
  case (ran s1 fs1 fs2 u)
  then have run: "migrateToSchemaV2 (s, fs1) = (Inr u, (s1, fs2))" by simp
  note eff = migrate_V2 [OF this]
  have "installed core_file_tables s1" using assms(2,3) eff(1) kept_installed by (simp add: schema_valid_def)
  with eff ran show ?thesis by (simp add: schema_valid_def)
qed simp

lemma applyMigrations_cases:
  assumes run: "apply_pending (sc_user_version s) schemaMigrations (s, fs) = (r, (s', fs'))" and valid: "schema_valid s"
  shows "schema_valid s' \<and> schema_kept s s' \<and> (\<forall>u. r = Inr u \<longrightarrow> sc_user_version s' = max (sc_user_version s) 2)
    \<and> (s' = s \<or> sc_user_version s < sc_user_version s' \<and> sc_user_version s' \<le> 2)"
proof -
  let ?m2 = "\<lparr>mi_version = 2, mi_name = ''control_plane_tables'', mi_apply = migrateToSchemaV2\<rparr>"
  have second: "schema_valid s2 \<and> schema_kept s1 s2 \<and> (\<forall>u. r2 = Inr u \<longrightarrow> sc_user_version s2 = 2) \<and> (s2 = s1 \<or> sc_user_version s2 = 2)"
    if "apply_pending 1 [?m2] (s1, fs1) = (r2, (s2, fs2))" "schema_valid s1" "sc_user_version s1 = 1" for s1 fs1 r2 s2 fs2
  proof -
    obtain q t gs where 2: "runMigration ?m2 (s1, fs1) = (q, (t, gs))" by (rule conn_cases)
    from run_second [OF this that(2,3)] 2 that show ?thesis
      using kept_refl by (auto simp: io_return_def split: sum.splits)
  qed
  consider "2 \<le> sc_user_version s" | "sc_user_version s = 1" | "sc_user_version s < 1" by linarith
  then show ?thesis
  proof cases
    case 1
    with run valid kept_refl show ?thesis by (auto simp: schemaMigrations_def io_return_def)
  next
    case 2
    with run have "apply_pending 1 [?m2] (s, fs) = (r, (s', fs'))" by (simp add: schemaMigrations_def)
    from second [OF this valid 2] 2 show ?thesis by auto
  next
    case 3
    let ?m1 = "\<lparr>mi_version = 1, mi_name = ''core_file_tables'', mi_apply = migrateToSchemaV1\<rparr>"
    obtain q t gs where 1: "runMigration ?m1 (s, fs) = (q, (t, gs))" by (rule conn_cases)
    from run_first [OF this 3] show ?thesis
    proof (elim disjE exE conjE)
      fix e assume "q = Inl e" "t = s"
      with 1 3 run valid kept_refl show ?thesis by (auto simp: schemaMigrations_def)
    next
      assume t: "q = Inr ()" "schema_kept s t" "schema_valid t" "sc_user_version t = 1"
      with 1 3 run have "apply_pending 1 [?m2] (t, gs) = (r, (s', fs'))" by (simp add: schemaMigrations_def)
      from second [OF this t(3,4)] t 3 kept_trans [of s t s'] show ?thesis by auto
    qed
  qed
qed

lemma pragma_then:
  assumes "io_then (stmt (\<lambda>s. Inr ((), s))) f (s, fs) = (r, (s', fs'))"
  obtains (failed) e where "r = Inl e" and "s' = s" | (ran) fs1 where "f () (s, fs1) = (r, (s', fs'))"
proof -
  obtain q t gs where 1: "stmt (\<lambda>s. Inr ((), s)) (s, fs) = (q, (t, gs))" by (rule conn_cases)
  from 1 show thesis
    by (cases rule: stmt_cases) (use assms 1 that in \<open>auto simp: io_then_def\<close>)
qed

lemma version_then:
  assumes "io_then currentSchemaVersion f (s, fs) = (r, (s', fs'))"
  obtains (failed) e where "r = Inl e" and "s' = s" | (ran) fs1 where "f (sc_user_version s) (s, fs1) = (r, (s', fs'))"
proof -
  obtain q t gs where 1: "currentSchemaVersion (s, fs) = (q, (t, gs))" by (rule conn_cases)
  from 1 show thesis unfolding currentSchemaVersion_def
    by (cases rule: stmt_cases) (use assms 1 that in \<open>auto simp: io_then_def\<close>)
qed

lemma DB_Open_cases:
  assumes "DB_Open (s, fs) = (r, (s', fs'))"
  obtains (failed) e where "r = Inl e" and "s' = s"
  | (ran) fs1 where "apply_pending (sc_user_version s) schemaMigrations (s, fs1) = (r, (s', fs'))"
proof -
  note steps = assms [unfolded DB_Open_def applyMigrations_def]
  from steps show thesis
  proof (cases rule: pragma_then)
    case 2: (ran fs1)
    from 2 show thesis
    proof (cases rule: pragma_then)
      case 3: (ran fs2)
      from 3 show thesis
      proof (cases rule: pragma_then)
        case 4: (ran fs3)
        from 4 show thesis by (cases rule: version_then) (use that in blast)+
      qed (rule that(1))
    qed (rule that(1))
  qed (rule that(1))
qed

text \<open>
  Claim C37. Opening a database migrates it, step by step and never half way. Whatever statements
  fail, a file whose schema has what its version promises still has it afterwards, no table, column
  or index is dropped, and either nothing changed or the version grew by whole migrations; when
  \<open>Open\<close> succeeds, the version is the current one, or the newer one that was there.
\<close>

theorem Open_migrates:
  assumes "DB_Open (s, fs) = (r, (s', fs'))" and "schema_valid s"
  shows "schema_valid s' \<and> schema_kept s s'
    \<and> (\<forall>u. r = Inr u \<longrightarrow> sc_user_version s' = max (sc_user_version s) CurrentSchemaVersion)
    \<and> (s' = s \<or> sc_user_version s < sc_user_version s' \<and> sc_user_version s' \<le> CurrentSchemaVersion)"
  using assms(1)
proof (cases rule: DB_Open_cases)
  case (failed e)
  with assms(2) kept_refl show ?thesis by simp
next
  case (ran fs1)
  from applyMigrations_cases [OF this assms(2)] show ?thesis by (simp add: CurrentSchemaVersion_def)
qed

section \<open>A script that runs\<close>

text \<open>
  The indexes of the script are on tables it makes, with columns it gives them, and no name is used
  twice; the schema has no object of the other kind under those names, and its own tables of those
  names have the indexed columns.
\<close>

fun script_ok :: "ddl list \<Rightarrow> ddl list \<Rightarrow> bool" where
  "script_ok before [] = True"
| "script_ok before (CreateTable name columns # ds) =
    (\<not> script_index before name \<and> script_ok (before @ [CreateTable name columns]) ds)"
| "script_ok before (CreateIndex name table columns # ds) =
    (script_table before name = None
     \<and> (case script_table before table of None \<Rightarrow> False | Some t \<Rightarrow> list_all (has_column t) columns)
     \<and> script_ok (before @ [CreateIndex name table columns]) ds)"
| "script_ok before (d # ds) = False"

definition fits :: "ddl list \<Rightarrow> schema \<Rightarrow> bool" where
  "fits ds s \<longleftrightarrow> list_all (\<lambda>d. case d of
      CreateTable name columns \<Rightarrow> \<not> has_index name s
    | CreateIndex name table columns \<Rightarrow> find_table name s = None
        \<and> (case find_table table s of None \<Rightarrow> True | Some t \<Rightarrow> list_all (has_column t) columns)
    | _ \<Rightarrow> True) ds"

text \<open>What a script has made of a schema.\<close>

definition after_script :: "ddl list \<Rightarrow> schema \<Rightarrow> schema \<Rightarrow> bool" where
  "after_script ds s0 s \<longleftrightarrow> (\<forall>n.
    find_table n s = (case find_table n s0 of Some u \<Rightarrow> Some u | None \<Rightarrow> script_table ds n)
    \<and> (has_index n s \<longleftrightarrow> has_index n s0 \<or> script_index ds n))"

lemma script_append:
  "script_table (ds @ es) n = (case script_table ds n of Some u \<Rightarrow> Some u | None \<Rightarrow> script_table es n)"
  "script_index (ds @ es) n \<longleftrightarrow> script_index ds n \<or> script_index es n"
proof -
  show "script_table (ds @ es) n = (case script_table ds n of Some u \<Rightarrow> Some u | None \<Rightarrow> script_table es n)"
    by (induction ds n rule: script_table.induct) simp_all
  show "script_index (ds @ es) n \<longleftrightarrow> script_index ds n \<or> script_index es n"
    by (induction ds n rule: script_index.induct) auto
qed

lemma after_script_Nil: "after_script [] s s"
  by (simp add: after_script_def split: option.splits)

lemma after_script_run:
  assumes "after_script before s0 s" and "run_all ds s = Inr s'" and "list_all is_create ds"
  shows "after_script (before @ ds) s0 s'"
  unfolding after_script_def
proof (intro allI conjI)
  fix n
  have s: "find_table n s = (case find_table n s0 of Some u \<Rightarrow> Some u | None \<Rightarrow> script_table before n)"
    "has_index n s \<longleftrightarrow> has_index n s0 \<or> script_index before n" using assms(1) by (simp_all add: after_script_def)
  note eff = run_creates [OF assms(2,3), of n]
  show "find_table n s' = (case find_table n s0 of Some u \<Rightarrow> Some u | None \<Rightarrow> script_table (before @ ds) n)"
    using s(1) eff by (simp add: script_append split: option.splits)
  show "has_index n s' \<longleftrightarrow> has_index n s0 \<or> script_index (before @ ds) n"
    using s(2) eff by (auto simp: script_append)
qed

lemma script_runs:
  "script_ok before ds \<Longrightarrow> fits ds s0 \<Longrightarrow> after_script before s0 s \<Longrightarrow> \<exists>s'. run_all ds s = Inr s' \<and> list_all is_create ds"
proof (induction before ds arbitrary: s rule: script_ok.induct)
  case (1 before)
  show ?case by simp
next
  case (2 before name columns ds)
  let ?d = "CreateTable name columns"
  have "\<not> has_index name s" using "2.prems" by (simp add: fits_def after_script_def)
  then have "\<exists>s1. run_ddl ?d s = Inr s1" by simp
  then obtain s1 where s1: "run_ddl ?d s = Inr s1" by blast
  then have "after_script (before @ [?d]) s0 s1"
    by (intro after_script_run [OF "2.prems"(3)]) (simp_all del: run_ddl.simps)
  with "2.IH" [of s1] "2.prems" s1 show ?case by (simp add: fits_def del: run_ddl.simps)
next
  case (3 before name table columns ds)
  let ?d = "CreateIndex name table columns"
  have "find_table name s = None" using "3.prems" by (simp add: fits_def after_script_def)
  moreover obtain t where "find_table table s = Some t" "list_all (has_column t) columns"
    using "3.prems" by (auto simp: fits_def after_script_def split: option.splits)
  ultimately have "\<exists>s1. run_ddl ?d s = Inr s1" by simp
  then obtain s1 where s1: "run_ddl ?d s = Inr s1" by blast
  then have "after_script (before @ [?d]) s0 s1"
    by (intro after_script_run [OF "3.prems"(3)]) (simp_all del: run_ddl.simps)
  with "3.IH" [of s1] "3.prems" s1 show ?case by (simp add: fits_def del: run_ddl.simps)
qed simp_all

lemma sql_Exec_quiet: "run_ddl d s = Inr s' \<Longrightarrow> sql_Exec d (s, []) = (Inr (), (s', []))"
  by (simp add: sql_Exec_def stmt_def)

lemma execStatements_quiet: "run_all ds s = Inr s' \<Longrightarrow> execStatements ds (s, []) = (Inr (), (s', []))"
  by (induction ds arbitrary: s) (auto simp: io_return_def io_then_def sql_Exec_quiet split: sum.splits simp del: run_ddl.simps)

lemma add_missing_quiet:
  "run_all (map (\<lambda>(n, d). AddColumn table n d) (filter (\<lambda>(n, d). strings_ToLower n \<notin> set existing) cs)) s = Inr s' \<Longrightarrow>
    add_missing table existing cs (s, []) = (Inr (), (s', []))"
  by (induction cs arbitrary: s)
    (auto simp: io_return_def io_then_def sql_Exec_quiet split: sum.splits if_splits simp del: run_ddl.simps)

lemma adds_run:
  "find_table table s = Some t \<Longrightarrow> \<forall>c\<in>set cs. \<not> has_column t (fst c) \<Longrightarrow> distinct (map (strings_ToLower o fst) cs) \<Longrightarrow>
    \<exists>s'. run_all (map (\<lambda>(n, d). AddColumn table n d) cs) s = Inr s'"
proof (induction cs arbitrary: s t)
  case Nil
  show ?case by simp
next
  case (Cons c cs)
  obtain n d where c: "c = (n, d)" by force
  let ?f = "\<lambda>u. u\<lparr>ti_columns := ti_columns u @ [(n, d)]\<rparr>"
  let ?s1 = "s\<lparr>sc_tables := map (\<lambda>u. if same_name (ti_name u) table then ?f u else u) (sc_tables s)\<rparr>"
  have one: "run_ddl (AddColumn table n d) s = Inr ?s1" using Cons.prems(1,2) c by simp
  have "find_table table ?s1 = Some (?f t)"
    using find_table_add [where f = ?f and n = table and s = s and table = table] Cons.prems(1) by (simp add: same_name_def)
  moreover have "\<forall>c\<in>set cs. \<not> has_column (?f t) (fst c)"
    using Cons.prems(2,3) c by (force simp: has_column_def same_name_def list_ex_iff)
  ultimately have "\<exists>s'. run_all (map (\<lambda>(n, d). AddColumn table n d) cs) ?s1 = Inr s'"
    using Cons.IH Cons.prems(3) by simp
  with one c show ?case by (simp del: run_ddl.simps)
qed

text \<open>The names of the columns of a table have no white space around them.\<close>

definition trimmed_columns :: "string \<Rightarrow> schema \<Rightarrow> bool" where
  "trimmed_columns table s \<longleftrightarrow> (case find_table table s of None \<Rightarrow> True
     | Some t \<Rightarrow> list_all (\<lambda>c. strings_TrimSpace (fst c) = fst c) (ti_columns t))"

definition migratable :: "schema \<Rightarrow> bool" where
  "migratable s \<longleftrightarrow> fits core_file_tables s \<and> fits control_plane_tables s \<and> trimmed_columns ''device_registry'' s"

lemma lower_names: "list_all (\<lambda>n. strings_ToLower n = n)
   [''meta'', ''path'', ''is_dir'', ''size'', ''mtime_unix'', ''hash'', ''version'',
    ''client_id'', ''change_type'', ''version_blob'', ''data'', ''file_head'',
    ''current_version'', ''device_registry'', ''device_id'', ''device_name'', ''device_role'',
    ''assigned_device_label'', ''client_version'', ''platform'', ''overlay_provider'',
    ''overlay_address'', ''capabilities_json'', ''server_id'', ''device_group'',
    ''last_session_id'', ''heartbeat_interval_seconds'', ''policy_revision'',
    ''requires_policy_pull'', ''overlay_connected'', ''grpc_connected'', ''last_sync_time_unix'',
    ''last_error'', ''mount_state'', ''mounted'', ''mount_path'', ''last_mount_time_unix'',
    ''mount_last_error'', ''sync_state_summary'', ''current_task_count'',
    ''sync_last_success_time'', ''sync_last_error'', ''conflict_count'', ''queue_depth'',
    ''sync_summary'', ''created_at_unix'', ''updated_at_unix'', ''last_registered_at_unix'',
    ''last_heartbeat_at_unix'', ''last_sync_report_at_unix'', ''last_mount_report_at_unix'',
    ''last_seen_at_unix'', ''idx_device_registry_last_seen'', ''device_policy'',
    ''sync_roots_json'', ''conflict_policy'', ''read_only'', ''auto_connect'',
    ''bandwidth_limit'', ''log_level'', ''large_file_threshold'', ''device_actions'',
    ''action_id'', ''action_type'', ''payload_json'', ''status'', ''pending'',
    ''requested_at_unix'', ''delivered_at_unix'', ''completed_at_unix'',
    ''idx_device_actions_pending'', ''device_diagnostics'', ''diagnostics_id'', ''category'',
    ''content_type'', ''summary'', ''payload'', ''size_bytes'', ''uploaded_at_unix'',
    ''idx_device_diagnostics_recent'']"
  by code_simp

lemma scripts_ok: "script_ok [] core_file_tables" "script_ok core_file_tables control_plane_tables"
  "script_ok [] control_plane_tables"
  by (simp_all add: core_file_tables_def control_plane_tables_def same_name_def has_column_def
      lower_names [simplified])

lemma mount_columns_distinct: "distinct (map (strings_ToLower o fst) mount_columns)"
  by (simp add: mount_columns_def lower_names [simplified])

lemma ensure_quiet:
  assumes "find_table ''device_registry'' s = Some t" and "list_all (\<lambda>c. strings_TrimSpace (fst c) = fst c) (ti_columns t)"
  shows "\<exists>s'. ensureTableColumns ''device_registry'' mount_columns (s, []) = (Inr (), (s', []))"
proof -
  let ?names = "map fst (ti_columns t)"
  let ?known = "map (\<lambda>n. strings_ToLower (strings_TrimSpace n)) ?names"
  let ?cs = "filter (\<lambda>(n, d). strings_ToLower n \<notin> set ?known) mount_columns"
  have "\<forall>c\<in>set ?cs. \<not> has_column t (fst c)"
    using assms(2) by (auto simp: has_column_def same_name_def list_ex_iff list_all_iff) (metis fst_conv image_eqI)
  moreover have "distinct (map (strings_ToLower o fst) ?cs)"
    using mount_columns_distinct by (rule distinct_map_filter)
  ultimately obtain s' where "run_all (map (\<lambda>(n, d). AddColumn ''device_registry'' n d) ?cs) s = Inr s'"
    using adds_run [OF assms(1)] by blast
  from add_missing_quiet [OF this] assms(1) have
    "add_missing ''device_registry'' ?known mount_columns (s, []) = (Inr (), (s', []))" by simp
  moreover have "stmt (\<lambda>s. Inr (table_info_rows ''device_registry'' s, s)) (s, []) = (Inr ?names, (s, []))"
    using assms(1) by (simp add: stmt_def table_info_rows_def)
  ultimately show ?thesis unfolding ensureTableColumns_def by (metis (no_types, lifting) io_then_run)
qed

lemma core_creates: "list_all is_create core_file_tables"
  by (simp add: core_file_tables_def)

lemma registry_columns: "script_table core_file_tables ''device_registry'' = None"
  "\<exists>t. script_table control_plane_tables ''device_registry'' = Some t
    \<and> list_all (\<lambda>c. strings_TrimSpace (fst c) = fst c) (ti_columns t)"
proof -
  show "script_table core_file_tables ''device_registry'' = None"
    by (simp add: core_file_tables_def same_name_def lower_names [simplified])
  have "case script_table control_plane_tables ''device_registry'' of None \<Rightarrow> False
    | Some t \<Rightarrow> list_all (\<lambda>c. strings_TrimSpace (fst c) = fst c) (ti_columns t)" by code_simp
  then show "\<exists>t. script_table control_plane_tables ''device_registry'' = Some t
    \<and> list_all (\<lambda>c. strings_TrimSpace (fst c) = fst c) (ti_columns t)" by (simp split: option.splits)
qed

lemma runMigration_quiet:
  "mi_apply m (s, []) = (Inr u, (s1, [])) \<Longrightarrow> runMigration m (s, []) = (Inr (), (s1\<lparr>sc_user_version := mi_version m\<rparr>, []))"
  by (simp add: runMigration_def io_then_def stmt_def sql_Exec_def)

lemma migrate_V1_quiet:
  assumes "fits core_file_tables s"
  shows "\<exists>s1. migrateToSchemaV1 (s, []) = (Inr (), (s1, [])) \<and> after_script core_file_tables s s1"
proof -
  obtain s1 where "run_all core_file_tables s = Inr s1"
    using script_runs [OF scripts_ok(1) assms after_script_Nil] by blast
  with execStatements_quiet after_script_run [OF after_script_Nil _ core_creates] show ?thesis
    by (fastforce simp: migrateToSchemaV1_def)
qed

lemma migrate_V2_quiet:
  assumes "migratable s0" and "before = [] \<or> before = core_file_tables" and "after_script before s0 s"
  shows "\<exists>s1. migrateToSchemaV2 (s, []) = (Inr (), (s1, []))"
proof -
  have "script_ok before control_plane_tables" using assms(2) scripts_ok(2,3) by blast
  from script_runs [OF this _ assms(3)] assms(1) obtain s1 where run: "run_all control_plane_tables s = Inr s1"
    by (auto simp: migratable_def)
  note eff = after_script_run [OF assms(3) run control_plane_creates(1)]
  obtain t where t: "script_table control_plane_tables ''device_registry'' = Some t"
    "list_all (\<lambda>c. strings_TrimSpace (fst c) = fst c) (ti_columns t)" using registry_columns(2) by blast
  have none: "script_table before ''device_registry'' = None" using assms(2) registry_columns(1) by auto
  have "find_table ''device_registry'' s1 = (case find_table ''device_registry'' s0 of Some u \<Rightarrow> Some u | None \<Rightarrow> Some t)"
    using eff t(1) none by (simp add: after_script_def script_append split: option.split)
  with t(2) assms(1) obtain t1 where t1: "find_table ''device_registry'' s1 = Some t1"
    "list_all (\<lambda>c. strings_TrimSpace (fst c) = fst c) (ti_columns t1)"
    by (cases "find_table ''device_registry'' s0") (simp_all add: migratable_def trimmed_columns_def)
  obtain s2 where s2: "ensureTableColumns ''device_registry'' mount_columns (s1, []) = (Inr (), (s2, []))"
    using ensure_quiet [OF t1] by blast
  have "migrateToSchemaV2 (s, []) = ensureTableColumns ''device_registry'' mount_columns (s1, [])"
    unfolding migrateToSchemaV2_def by (rule io_then_run) (rule execStatements_quiet [OF run])
  with s2 show ?thesis by auto
qed

text \<open>
  Claim C38. Every database that can be migrated is. When no statement fails, no table stands under
  the name of an index of the scripts nor an index under that of a table, tables that are already
  there have the indexed columns, and the columns of an older \<open>device_registry\<close> have no white space
  around their names, then \<open>Open\<close> succeeds, and the version is the current one, or the newer one
  that was there.
\<close>

theorem Open_succeeds:
  assumes "migratable s" and "schema_valid s"
  shows "\<exists>s'. DB_Open (s, []) = (Inr (), (s', [])) \<and> sc_user_version s' = max (sc_user_version s) CurrentSchemaVersion"
proof -
  let ?m1 = "\<lparr>mi_version = 1, mi_name = ''core_file_tables'', mi_apply = migrateToSchemaV1\<rparr>"
  let ?m2 = "\<lparr>mi_version = 2, mi_name = ''control_plane_tables'', mi_apply = migrateToSchemaV2\<rparr>"
  have second: "apply_pending 1 [?m2] (t, []) = (Inr (), (t'\<lparr>sc_user_version := 2\<rparr>, []))"
    if "migrateToSchemaV2 (t, []) = (Inr (), (t', []))" for t t'
    using runMigration_quiet [of ?m2 t "()" t'] that by (simp add: io_return_def)
  have start: "DB_Open (s, []) = apply_pending (sc_user_version s) schemaMigrations (s, [])"
    by (simp add: DB_Open_def applyMigrations_def io_then_def stmt_def currentSchemaVersion_def)
  consider "2 \<le> sc_user_version s" | "sc_user_version s = 1" | "sc_user_version s < 1" by linarith
  then have "\<exists>s'. DB_Open (s, []) = (Inr (), (s', [])) \<and> sc_user_version s' = max (sc_user_version s) 2"
  proof cases
    case 1
    then show ?thesis by (simp add: start schemaMigrations_def io_return_def)
  next
    case 2
    obtain t' where "migrateToSchemaV2 (s, []) = (Inr (), (t', []))"
      using migrate_V2_quiet [OF assms(1) _ after_script_Nil] by blast
    from second [OF this] 2 show ?thesis by (simp add: start schemaMigrations_def)
  next
    case 3
    obtain t where t: "migrateToSchemaV1 (s, []) = (Inr (), (t, []))" "after_script core_file_tables s t"
      using migrate_V1_quiet assms(1) by (auto simp: migratable_def)
    then have "after_script core_file_tables s (t\<lparr>sc_user_version := 1\<rparr>)" by (simp add: after_script_def)
    with migrate_V2_quiet [OF assms(1)] obtain t' where "migrateToSchemaV2 (t\<lparr>sc_user_version := 1\<rparr>, []) = (Inr (), (t', []))"
      by blast
    from second [OF this] runMigration_quiet [of ?m1 s "()" t] t(1) 3 show ?thesis
      by (simp add: start schemaMigrations_def)
  qed
  then show ?thesis by (simp add: CurrentSchemaVersion_def)
qed

text \<open>A new file.\<close>

definition new_schema :: schema where
  "new_schema = \<lparr>sc_user_version = 0, sc_tables = [], sc_indexes = []\<rparr>"

lemma new_schema_ok: "migratable new_schema" "schema_valid new_schema"
proof -
  have "find_table n new_schema = None" "\<not> has_index n new_schema" for n
    by (simp_all add: new_schema_def find_table_def has_index_def)
  then show "migratable new_schema" "schema_valid new_schema"
    by (auto simp: migratable_def fits_def trimmed_columns_def schema_valid_def list_all_iff new_schema_def split: ddl.splits)
qed

theorem Open_succeeds_witness: "\<exists>s'. DB_Open (new_schema, []) = (Inr (), (s', [])) \<and> sc_user_version s' = 2"
  using Open_succeeds [OF new_schema_ok] by (auto simp: new_schema_def CurrentSchemaVersion_def)

theorem Open_migrates_witness:
  "\<exists>e fs'. DB_Open (new_schema, [None, None, None, None, Some (ErrorText ''disk full'')]) = (Inl e, (new_schema, fs'))
    \<and> schema_kept new_schema new_schema"
proof -
  have run: "DB_Open (new_schema, [None, None, None, None, Some (ErrorText ''disk full'')])
    = (Inl (Wrapf ''apply schema migration v1 (core_file_tables): '' (ErrorText ''disk full'') []), (new_schema, []))" by code_simp
  from Open_migrates [OF this new_schema_ok(2)] run show ?thesis by blast
qed

end
