(* ===== verification/Restore.thy ===== *)
theory Restore
  imports BuildCopy
begin

text \<open>
  \<open>internal/db/restore.go\<close> with the lock of \<open>internal/db/resource_lock_other.go\<close>: an offline
  restore of the database from a backup, with a safety backup and a rollback.

  SQLite is a parameter: what \<open>PRAGMA quick_check\<close> answers for a file, what \<open>Open\<close> does to the
  file, and the version it finds. So is the stamp in the name of the safety backup.
\<close>

record sqlite_files =
  sf_quick_check :: "string \<Rightarrow> string io"
  sf_Open :: "string \<Rightarrow> unit io"
  sf_SchemaVersion :: "string \<Rightarrow> int io"
  sf_stamp :: "gotime \<Rightarrow> string"

definition strings_TrimSuffix :: "string \<Rightarrow> string \<Rightarrow> string" where
  "strings_TrimSuffix s ending = (if strings_HasSuffix s ending then take (length s - length ending) s else s)"

section \<open>The lock beside a file\<close>

text \<open>The lock is a file that must not be there; its path is what releasing removes.\<close>

definition acquireResourceLock :: "goerr + string \<Rightarrow> string \<Rightarrow> string io" where
  "acquireResourceLock getwd resourcePath w =
    (case filepath_Abs getwd resourcePath of
       Inl e \<Rightarrow> (Inl e, w)
     | Inr absPath \<Rightarrow>
       (let lockPath = absPath @ ''.lock'' in
        case os_OpenExcl lockPath w of
          (Inl e, w1) \<Rightarrow> (Inl (Wrapf (''resource lock already held for '' @ absPath @ '': '') e []), w1)
        | (Inr _, w1) \<Rightarrow> (Inr lockPath, snd (file_Close w1))))"

definition lock_Release :: "string \<Rightarrow> unit io" where
  "lock_Release path w =
    (if path = [] then (Inr (), w)
     else
       (case os_Remove path w of
          (Inl e, w1) \<Rightarrow> (if \<not> os_IsNotExist e then Inl e else Inr (), w1)
        | (Inr _, w1) \<Rightarrow> (Inr (), w1)))"

section \<open>Steps of a restore\<close>

definition statIfExists :: "string \<Rightarrow> node option io" where
  "statIfExists path w =
    (case os_Stat path w of
       (Inr info, w1) \<Rightarrow> (Inr (Some info), w1)
     | (Inl e, w1) \<Rightarrow> (if os_IsNotExist e then Inr None else Inl e, w1))"

definition removeIfExists :: "string \<Rightarrow> unit io" where
  "removeIfExists path w =
    (case os_Remove path w of
       (Inl e, w1) \<Rightarrow> (if \<not> os_IsNotExist e then Inl e else Inr (), w1)
     | (Inr _, w1) \<Rightarrow> (Inr (), w1))"

definition removeSQLiteSidecars :: "string \<Rightarrow> unit io" where
  "removeSQLiteSidecars targetPath =
    io_then (removeIfExists (targetPath @ ''-wal'')) (\<lambda>_.
    io_then (removeIfExists (targetPath @ ''-shm'')) (\<lambda>_.
      removeIfExists (targetPath @ ''-journal'')))"

definition db_copyFile :: "string \<Rightarrow> string \<Rightarrow> unit io" where
  "db_copyFile src dst =
    io_then (os_MkdirAll (filepath_Dir dst)) (\<lambda>_.
    io_then (os_Open src) (\<lambda>_.
    io_then (os_OpenTrunc dst) (\<lambda>_ w.
      (case io_Copy src dst w of
         (copyErr, w1) \<Rightarrow>
         (case file_Close w1 of
            (closeErr, w2) \<Rightarrow> (case copyErr of Inl e \<Rightarrow> (Inl e, w2) | Inr _ \<Rightarrow> (closeErr, w2)))))))"

lemma db_copyFile_eq: "db_copyFile = copyFile"
  by (intro ext) (simp add: db_copyFile_def copyFile_def)

definition samePath :: "string \<Rightarrow> string \<Rightarrow> bool" where
  "samePath left right = strings_EqualFold (filepath_Clean left) (filepath_Clean right)"

definition nextSafetyBackupPath :: "sqlite_files \<Rightarrow> string \<Rightarrow> string io" where
  "nextSafetyBackupPath S targetPath =
    (let dir = filepath_Dir targetPath;
         base0 = strings_TrimSuffix (filepath_Base targetPath) (filepath_Ext targetPath);
         base = (if base0 = [] then ''roodox'' else base0) in
     io_then io_now (\<lambda>now. io_return (filepath_Join [dir, base @ ''-pre-restore-'' @ sf_stamp S now @ ''.db''])))"

definition nextRestoreTempPath :: "string \<Rightarrow> string io" where
  "nextRestoreTempPath targetPath =
    (let dir = filepath_Dir targetPath; base = filepath_Base targetPath in
     io_then io_now (\<lambda>now. io_return (filepath_Join [dir, ''.'' @ base @ ''.restore-'' @ strconv_Itoa now @ ''.tmp''])))"

definition quick_check_ok :: "string \<Rightarrow> unit io" where
  "quick_check_ok result w =
    (if strings_ToLower (strings_TrimSpace result) \<noteq> ''ok''
     then (Inl (ErrorText (''sqlite quick_check failed: '' @ result)), w) else (Inr (), w))"

definition validateSQLiteFile :: "sqlite_files \<Rightarrow> string \<Rightarrow> unit io" where
  "validateSQLiteFile S path =
    io_then (os_Stat path) (\<lambda>info.
      if is_dir info then io_fail (ErrorText (''sqlite file path is a directory: '' @ path))
      else io_then (sf_quick_check S path) quick_check_ok)"

definition finalizeRestoredDatabase :: "sqlite_files \<Rightarrow> string \<Rightarrow> int io" where
  "finalizeRestoredDatabase S targetPath =
    io_then (sf_Open S targetPath) (\<lambda>_.
    io_then (io_then (sf_quick_check S targetPath) quick_check_ok) (\<lambda>_. sf_SchemaVersion S targetPath))"

definition rollbackRestore :: "string \<Rightarrow> string \<Rightarrow> unit io" where
  "rollbackRestore targetPath safetyBackupPath =
    (if strings_TrimSpace safetyBackupPath = [] then io_return ()
     else
       io_then (os_Stat safetyBackupPath) (\<lambda>info.
       io_then (removeSQLiteSidecars targetPath) (\<lambda>_.
       io_then (removeIfExists targetPath) (\<lambda>_. db_copyFile safetyBackupPath targetPath))))"

section \<open>The restore\<close>

record RestoreResult =
  rr_SourcePath :: string
  rr_TargetPath :: string
  rr_SafetyBackupPath :: string
  rr_SchemaVersion :: int

text \<open>What follows once the temporary path is chosen; the caller removes that path afterwards.\<close>

definition swap_in :: "sqlite_files \<Rightarrow> string \<Rightarrow> string \<Rightarrow> string \<Rightarrow> string \<Rightarrow> RestoreResult io" where
  "swap_in S targetAbs backupAbs safetyPath tmpPath =
    io_then (os_Stat backupAbs) (\<lambda>info.
    io_then (io_wrap ''stage restore file'' (db_copyFile backupAbs tmpPath)) (\<lambda>_.
    io_then (removeSQLiteSidecars targetAbs) (\<lambda>_.
    io_then (removeIfExists targetAbs) (\<lambda>_.
    io_then (os_Rename tmpPath targetAbs) (\<lambda>_ w.
      (case finalizeRestoredDatabase S targetAbs w of
         (Inl e, w1) \<Rightarrow>
           (case rollbackRestore targetAbs safetyPath w1 of
              (Inl re, w2) \<Rightarrow>
                (Inl (ErrorText (''finalize restored database: '' @ err_Error e @ ''; rollback failed: '' @ err_Error re)), w2)
            | (Inr _, w2) \<Rightarrow> (Inl (Wrapf ''finalize restored database: '' e []), w2))
       | (Inr version, w1) \<Rightarrow>
           (Inr \<lparr>rr_SourcePath = backupAbs, rr_TargetPath = targetAbs, rr_SafetyBackupPath = safetyPath,
              rr_SchemaVersion = version\<rparr>, w1)))))))"

text \<open>A deferred call whose error is dropped.\<close>

definition io_defer :: "'a io \<Rightarrow> 'b io \<Rightarrow> 'a io" where
  "io_defer m cleanup w = (case m w of (r, w1) \<Rightarrow> (r, snd (cleanup w1)))"

definition locked_restore :: "sqlite_files \<Rightarrow> bool \<Rightarrow> string \<Rightarrow> string \<Rightarrow> RestoreResult io" where
  "locked_restore S createSafetyBackup targetAbs backupAbs =
    io_then (io_wrap ''validate backup'' (validateSQLiteFile S backupAbs)) (\<lambda>_.
    io_then (statIfExists targetAbs) (\<lambda>target.
    io_then (os_MkdirAll (filepath_Dir targetAbs)) (\<lambda>_.
    io_then (if createSafetyBackup \<and> target \<noteq> None
        then io_then (nextSafetyBackupPath S targetAbs) (\<lambda>safetyPath.
          io_then (io_wrap ''create safety backup'' (db_copyFile targetAbs safetyPath)) (\<lambda>_. io_return safetyPath))
        else io_return []) (\<lambda>safetyPath.
    io_then (nextRestoreTempPath targetAbs) (\<lambda>tmpPath.
      io_defer (swap_in S targetAbs backupAbs safetyPath tmpPath) (os_Remove tmpPath))))))"

definition RestoreFromBackup :: "sqlite_files \<Rightarrow> goerr + string \<Rightarrow> string \<Rightarrow> string \<Rightarrow> bool \<Rightarrow> RestoreResult io" where
  "RestoreFromBackup S getwd targetPath backupPath createSafetyBackup =
    io_then (io_lift (filepath_Abs getwd (strings_TrimSpace targetPath))) (\<lambda>targetAbs.
    io_then (io_lift (filepath_Abs getwd (strings_TrimSpace backupPath))) (\<lambda>backupAbs.
      if targetAbs = [] \<or> backupAbs = [] then io_fail (ErrorText ''target and backup paths are required'')
      else if samePath targetAbs backupAbs then io_fail (ErrorText ''backup path must differ from target path'')
      else
        io_then (acquireResourceLock getwd targetAbs) (\<lambda>lock.
          io_defer (locked_restore S createSafetyBackup targetAbs backupAbs) (lock_Release lock))))"

end
