(* ===== verification/RestoreExact.thy ===== *)
theory RestoreExact
  imports RestoreLaws
begin

text \<open>
  A restore in which no call of the operating system fails: triples that say what a call answers
  and what it makes of the tree, seen as a function from paths to nodes.
\<close>

section \<open>Triples\<close>

definition gives :: "world \<Rightarrow> 'a io \<Rightarrow> (string list \<Rightarrow> node option) \<Rightarrow> 'a result \<Rightarrow> (string list \<Rightarrow> node option) \<Rightarrow> bool" where
  "gives w m g r h \<longleftrightarrow> (\<forall>t. tree_wf t \<longrightarrow> tree_get t = g \<longrightarrow>
    (\<exists>t'. m (w\<lparr>w_fs := t\<rparr>) = (r, w\<lparr>w_fs := t'\<rparr>) \<and> tree_wf t' \<and> tree_get t' = h))"

definition calm :: "world \<Rightarrow> bool" where
  "calm w \<longleftrightarrow> w_faults w = [] \<and> w_ticks w = []"

named_theorems triples

lemma givesI: "(\<And>t. tree_wf t \<Longrightarrow> tree_get t = g \<Longrightarrow> \<exists>t'. m (w\<lparr>w_fs := t\<rparr>) = (r, w\<lparr>w_fs := t'\<rparr>) \<and> tree_wf t' \<and> tree_get t' = h)
    \<Longrightarrow> gives w m g r h"
  by (simp add: gives_def)

lemma gives_same: "(\<And>t. tree_wf t \<Longrightarrow> tree_get t = g \<Longrightarrow> m (w\<lparr>w_fs := t\<rparr>) = (r, w\<lparr>w_fs := t\<rparr>)) \<Longrightarrow> gives w m g r g"
  by (rule givesI) blast

lemma givesE:
  assumes "gives w m g r h" and "tree_wf t" and "tree_get t = g"
  obtains t' where "m (w\<lparr>w_fs := t\<rparr>) = (r, w\<lparr>w_fs := t'\<rparr>)" and "tree_wf t'" and "tree_get t' = h"
  using assms unfolding gives_def by blast

lemma gives_then:
  assumes "gives w m g (Inr x) g1" and "gives w (f x) g1 r h" shows "gives w (io_then m f) g r h"
proof (rule givesI)
  fix t assume t: "tree_wf t" "tree_get t = g"
  from assms(1) t obtain t1 where 1: "m (w\<lparr>w_fs := t\<rparr>) = (Inr x, w\<lparr>w_fs := t1\<rparr>)" "tree_wf t1" "tree_get t1 = g1" by (rule givesE)
  from assms(2) 1(2,3) obtain t2 where "f x (w\<lparr>w_fs := t1\<rparr>) = (r, w\<lparr>w_fs := t2\<rparr>)" "tree_wf t2" "tree_get t2 = h" by (rule givesE)
  with 1(1) show "\<exists>t'. io_then m f (w\<lparr>w_fs := t\<rparr>) = (r, w\<lparr>w_fs := t'\<rparr>) \<and> tree_wf t' \<and> tree_get t' = h"
    by (intro exI [of _ t2]) (simp add: io_then_def)
qed

lemma gives_stop: assumes "gives w m g (Inl e) h" shows "gives w (io_then m f) g (Inl e) h"
proof (rule givesI)
  fix t assume t: "tree_wf t" "tree_get t = g"
  from assms t obtain t1 where "m (w\<lparr>w_fs := t\<rparr>) = (Inl e, w\<lparr>w_fs := t1\<rparr>)" "tree_wf t1" "tree_get t1 = h" by (rule givesE)
  then show "\<exists>t'. io_then m f (w\<lparr>w_fs := t\<rparr>) = (Inl e, w\<lparr>w_fs := t'\<rparr>) \<and> tree_wf t' \<and> tree_get t' = h"
    by (intro exI [of _ t1]) (simp add: io_then_def)
qed

lemma gives_wrap: assumes "gives w m g (Inr x) h" shows "gives w (io_wrap what m) g (Inr x) h"
proof (rule givesI)
  fix t assume t: "tree_wf t" "tree_get t = g"
  from assms t obtain t1 where "m (w\<lparr>w_fs := t\<rparr>) = (Inr x, w\<lparr>w_fs := t1\<rparr>)" "tree_wf t1" "tree_get t1 = h" by (rule givesE)
  then show "\<exists>t'. io_wrap what m (w\<lparr>w_fs := t\<rparr>) = (Inr x, w\<lparr>w_fs := t'\<rparr>) \<and> tree_wf t' \<and> tree_get t' = h"
    by (intro exI [of _ t1]) (simp add: io_wrap_def)
qed

lemma gives_defer:
  assumes "gives w m g r g1" and "gives w n g1 q h" shows "gives w (io_defer m n) g r h"
proof (rule givesI)
  fix t assume t: "tree_wf t" "tree_get t = g"
  from assms(1) t obtain t1 where 1: "m (w\<lparr>w_fs := t\<rparr>) = (r, w\<lparr>w_fs := t1\<rparr>)" "tree_wf t1" "tree_get t1 = g1" by (rule givesE)
  from assms(2) 1(2,3) obtain t2 where "n (w\<lparr>w_fs := t1\<rparr>) = (q, w\<lparr>w_fs := t2\<rparr>)" "tree_wf t2" "tree_get t2 = h" by (rule givesE)
  with 1(1) show "\<exists>t'. io_defer m n (w\<lparr>w_fs := t\<rparr>) = (r, w\<lparr>w_fs := t'\<rparr>) \<and> tree_wf t' \<and> tree_get t' = h"
    by (intro exI [of _ t2]) (simp add: io_defer_def)
qed

lemma gives_return: "gives w (io_return x) g (Inr x) g"
  by (rule gives_same) (simp add: io_return_def)

lemma gives_result: "gives w (\<lambda>v. (r, v)) g r g"
  by (rule gives_same) simp

lemma gives_bind:
  assumes "gives w m g q g1" and "gives w (f q) g1 r h" shows "gives w (\<lambda>v. case m v of (q, v1) \<Rightarrow> f q v1) g r h"
proof (rule givesI)
  fix t assume t: "tree_wf t" "tree_get t = g"
  from assms(1) t obtain t1 where 1: "m (w\<lparr>w_fs := t\<rparr>) = (q, w\<lparr>w_fs := t1\<rparr>)" "tree_wf t1" "tree_get t1 = g1" by (rule givesE)
  from assms(2) 1(2,3) obtain t2 where "f q (w\<lparr>w_fs := t1\<rparr>) = (r, w\<lparr>w_fs := t2\<rparr>)" "tree_wf t2" "tree_get t2 = h" by (rule givesE)
  with 1(1) show "\<exists>t'. (case m (w\<lparr>w_fs := t\<rparr>) of (q, v1) \<Rightarrow> f q v1) = (r, w\<lparr>w_fs := t'\<rparr>) \<and> tree_wf t' \<and> tree_get t' = h"
    by (intro exI [of _ t2]) simp
qed

lemma gives_run: "gives w m (tree_get (w_fs w)) r h \<Longrightarrow> tree_wf (w_fs w) \<Longrightarrow>
    \<exists>t'. m w = (r, w\<lparr>w_fs := t'\<rparr>) \<and> tree_get t' = h"
proof -
  assume a: "gives w m (tree_get (w_fs w)) r h" "tree_wf (w_fs w)"
  have "w\<lparr>w_fs := w_fs w\<rparr> = w" by simp
  with a show ?thesis unfolding gives_def by metis
qed

section \<open>Calls\<close>

lemma gives_Stat: "calm w \<Longrightarrow> g (path_elems p) = Some n \<Longrightarrow> gives w (os_Stat p) g (Inr n) g"
  by (rule gives_same) (auto simp: calm_def intro!: os_Stat_quiet)

lemma gives_MkdirAll: "calm w \<Longrightarrow> g (path_elems p) = Some (Directory m) \<Longrightarrow> gives w (os_MkdirAll p) g (Inr ()) g"
  by (rule gives_same) (auto simp: calm_def intro!: os_MkdirAll_old)

lemma gives_copyFile:
  assumes "calm w" and "g k = Some (File d m)" and "g D = Some (Directory m')" and "g (D @ [c]) = None"
    and "plain_elems k" and "plain_elems (D @ [c])"
  shows "gives w (db_copyFile (at_path k) (at_path (D @ [c]))) g (Inr ()) (g(D @ [c] \<mapsto> File d (w_clock w)))"
proof (rule givesI)
  fix t assume t: "tree_wf t" "tree_get t = g"
  have "\<exists>t'. copyFile (at_path k) (at_path (D @ [c])) (w\<lparr>w_fs := t\<rparr>) = (Inr (), (w\<lparr>w_fs := t\<rparr>)\<lparr>w_fs := t'\<rparr>) \<and> tree_wf t'
      \<and> tree_get t' (D @ [c]) = Some (File d (w_clock (w\<lparr>w_fs := t\<rparr>)))
      \<and> (\<forall>x. x \<noteq> D @ [c] \<longrightarrow> tree_get t' x = tree_get (w_fs (w\<lparr>w_fs := t\<rparr>)) x)"
    by (rule copyFile_quiet) (use assms t at_path_elems [OF assms(5)] in \<open>simp_all add: calm_def\<close>)
  then obtain t' where t': "copyFile (at_path k) (at_path (D @ [c])) (w\<lparr>w_fs := t\<rparr>) = (Inr (), w\<lparr>w_fs := t'\<rparr>)" "tree_wf t'"
    "tree_get t' (D @ [c]) = Some (File d (w_clock w))" "\<forall>x. x \<noteq> D @ [c] \<longrightarrow> tree_get t' x = tree_get t x" by auto
  have "tree_get t' = g(D @ [c] \<mapsto> File d (w_clock w))" using t' t(2) by auto
  with t'(1,2) show "\<exists>t'. db_copyFile (at_path k) (at_path (D @ [c])) (w\<lparr>w_fs := t\<rparr>) = (Inr (), w\<lparr>w_fs := t'\<rparr>) \<and> tree_wf t'
      \<and> tree_get t' = g(D @ [c] \<mapsto> File d (w_clock w))" unfolding db_copyFile_eq by blast
qed

lemma gives_OpenExcl:
  assumes "calm w" and "g D = Some (Directory m)" and "g (D @ [c]) = None" and "plain_elems (D @ [c])"
  shows "gives w (os_OpenExcl (at_path (D @ [c]))) g (Inr ()) (g(D @ [c] \<mapsto> File [] (w_clock w)))"
proof (rule givesI)
  fix t assume t: "tree_wf t" "tree_get t = g"
  let ?t = "tree_put (D @ [c]) (File [] (w_clock w)) t"
  have "tree_wf ?t" by (rule tree_wf_put [OF t(1) _ assms(4)]) (use t assms in simp_all)
  moreover have "tree_get ?t = g(D @ [c] \<mapsto> File [] (w_clock w))" using t(2) by (auto simp: tree_get_put)
  moreover have "walk_dirs t [] D = None" by (rule walk_dirs_wf [OF t(1)]) (use t assms in simp)
  ultimately show "\<exists>t'. os_OpenExcl (at_path (D @ [c])) (w\<lparr>w_fs := t\<rparr>) = (Inr (), w\<lparr>w_fs := t'\<rparr>) \<and> tree_wf t'
      \<and> tree_get t' = g(D @ [c] \<mapsto> File [] (w_clock w))"
    using assms t by (intro exI [of _ ?t]) (simp add: os_OpenExcl_def quiet_run calm_def at_path_elems)
qed

lemma tree_wf_del:
  assumes wf: "tree_wf t" and f: "tree_get t k = Some (File d m)"
  shows "tree_wf (tree_del k t)"
  unfolding tree_wf_def
proof (intro conjI allI impI)
  show "distinct (map fst (tree_del k t))" using wf by (simp add: tree_wf_def tree_del_def distinct_delete)
  show "tree_ok (tree_del k t)" using wf tree_ok_del by (simp add: tree_wf_def)
  fix k' c n assume "tree_get (tree_del k t) (k' @ [c]) = Some n"
  then have "tree_get t (k' @ [c]) = Some n" by (simp add: tree_get_del split: if_splits)
  then obtain m' where "tree_get t k' = Some (Directory m')" using tree_wf_parent [OF wf] by blast
  with f show "\<exists>m. tree_get (tree_del k t) k' = Some (Directory m)" by (auto simp: tree_get_del)
qed

lemma removeIfExists_there:
  assumes "calm w" and "g (D @ [c]) = Some (File d m)" and "plain_elems (D @ [c])"
  shows "gives w (os_Remove (at_path (D @ [c]))) g (Inr ()) (g(D @ [c] := None))"
proof (rule givesI)
  fix t assume t: "tree_wf t" "tree_get t = g"
  let ?t = "tree_del (D @ [c]) t"
  have f: "tree_get t (D @ [c]) = Some (File d m)" using t assms by simp
  have "tree_get ?t = g(D @ [c] := None)" using t(2) by (auto simp: tree_get_del)
  with tree_wf_del [OF t(1) f] lookup_node_wf [OF t(1) f] assms
  show "\<exists>t'. os_Remove (at_path (D @ [c])) (w\<lparr>w_fs := t\<rparr>) = (Inr (), w\<lparr>w_fs := t'\<rparr>) \<and> tree_wf t' \<and> tree_get t' = g(D @ [c] := None)"
    by (intro exI [of _ ?t]) (simp add: os_Remove_def quiet_run calm_def at_path_elems Let_def)
qed

lemma os_Remove_missing:
  assumes "calm w" and "g D = Some (Directory m)" and "g (D @ [c]) = None" and "plain_elems (D @ [c])"
  shows "gives w (os_Remove (at_path (D @ [c]))) g (Inl (PathError ''remove'' (at_path (D @ [c])) ENOENT)) g"
proof (rule gives_same)
  fix t assume t: "tree_wf t" "tree_get t = g"
  have "walk_dirs t [] D = None" by (rule walk_dirs_wf [OF t(1)]) (use t assms in simp)
  then show "os_Remove (at_path (D @ [c])) (w\<lparr>w_fs := t\<rparr>)
      = (Inl (PathError ''remove'' (at_path (D @ [c])) ENOENT), w\<lparr>w_fs := t\<rparr>)"
    using assms t by (simp add: os_Remove_def quiet_run calm_def at_path_elems Let_def lookup_node_def)
qed

definition no_directory :: "node option \<Rightarrow> bool" where
  "no_directory n \<longleftrightarrow> (\<forall>m. n \<noteq> Some (Directory m))"

lemma gives_removeIfExists:
  assumes "calm w" and "g D = Some (Directory m)" and "no_directory (g (D @ [c]))" and "plain_elems (D @ [c])"
  shows "gives w (removeIfExists (at_path (D @ [c]))) g (Inr ()) (g(D @ [c] := None))"
proof (cases "g (D @ [c])")
  case None
  then have "g(D @ [c] := None) = g" by auto
  with os_Remove_missing [OF assms(1,2) None assms(4)] show ?thesis
    unfolding gives_def removeIfExists_def by fastforce
next
  case (Some n)
  then obtain d m' where "n = File d m'" using assms(3) by (cases n) (auto simp: no_directory_def)
  with removeIfExists_there [OF assms(1) _ assms(4), of g d m'] Some show ?thesis
    unfolding gives_def removeIfExists_def by fastforce
qed

text \<open>Renaming a file to a free name of its directory.\<close>

lemma rename_file:
  assumes wf: "tree_wf t" and src: "tree_get t (D @ [x]) = Some (File d m)" and new: "tree_get t (D @ [y]) = None"
    and dir: "tree_get t D = Some (Directory m')" and pl: "plain_elems (D @ [y])"
  shows "tree_wf (rename_tree (D @ [x]) (D @ [y]) t)"
    and "tree_get (rename_tree (D @ [x]) (D @ [y]) t) = (tree_get t)(D @ [x] := None, D @ [y] \<mapsto> File d m)"
proof -
  let ?o = "D @ [x]" and ?n = "D @ [y]"
  let ?r = "rename_key ?o ?n"
  have d: "distinct (map fst t)" using wf by (simp add: tree_wf_def)
  have in_tree: "tree_get t k = Some n" if "(k, n) \<in> set t" "k \<noteq> []" for k n using that d by (simp add: tree_get_def)
  have keys: "k \<noteq> ?n \<and> (prefix ?o k \<longrightarrow> k = ?o)" if "(k, n) \<in> set t" for k n
  proof (cases "k = []")
    case False
    with that in_tree have g: "tree_get t k = Some n" by blast
    have "k = ?o" if pre: "prefix ?o k"
    proof (rule ccontr)
      assume "k \<noteq> ?o"
      obtain z where z: "k = ?o @ z" using pre by (rule prefixE)
      with \<open>k \<noteq> ?o\<close> have "z \<noteq> []" by auto
      with z tree_wf_file [OF wf src, of z] g show False by simp
    qed
    with g new show ?thesis by auto
  qed simp
  have t: "tree_del ?n t = t"
    unfolding tree_del_def by (rule delete_id) (use keys in force)
  have ren: "?r k = (if k = ?o then ?n else k)" if "(k, n) \<in> set t" for k n
    using keys [OF that] by (auto simp: rename_key_def)
  have look: "map_of (map (\<lambda>(k, n). (?r k, n)) u) k
      = (if k = ?n then map_of u ?o else if k = ?o then None else map_of u k)" if "set u \<subseteq> set t" "x \<noteq> y" for u :: fstree and k
    using that(1)
  proof (induction u)
    case (Cons e u)
    obtain k' n where e: "e = (k', n)" by force
    with Cons.prems have "(k', n) \<in> set t" by simp
    with Cons ren keys e that(2) show ?case by auto
  qed simp
  have xy: "x \<noteq> y" using src new by auto
  show get: "tree_get (rename_tree ?o ?n t) = (tree_get t)(?o := None, ?n \<mapsto> File d m)"
  proof
    fix k
    show "tree_get (rename_tree ?o ?n t) k = ((tree_get t)(?o := None, ?n \<mapsto> File d m)) k"
      using look [OF subset_refl xy, of k] src by (auto simp: rename_tree_def t tree_get_def)
  qed
  show "tree_wf (rename_tree ?o ?n t)"
    unfolding tree_wf_def
  proof (intro conjI allI impI)
    have "inj_on ?r (fst ` set t)"
    proof (rule inj_onI)
      fix a b assume a: "a \<in> fst ` set t" and b: "b \<in> fst ` set t" and eq: "?r a = ?r b"
      have "?r k = (if k = ?o then ?n else k) \<and> k \<noteq> ?n" if "k \<in> fst ` set t" for k
        using that ren keys by force
      with a b eq show "a = b" by (metis (full_types))
    qed
    moreover have "map fst (rename_tree ?o ?n t) = map ?r (map fst t)"
      by (simp add: rename_tree_def t case_prod_unfold)
    ultimately show "distinct (map fst (rename_tree ?o ?n t))" using d by (simp only: distinct_map set_map simp_thms)
    show "tree_ok (rename_tree ?o ?n t)" using wf pl rename_tree_ok by (simp add: tree_wf_def)
    fix k c n assume "tree_get (rename_tree ?o ?n t) (k @ [c]) = Some n"
    then have "k = D \<or> tree_get t (k @ [c]) = Some n" by (auto simp: get split: if_splits)
    then obtain m1 where "tree_get t k = Some (Directory m1)" using dir tree_wf_parent [OF wf] by blast
    with src new show "\<exists>m. tree_get (rename_tree ?o ?n t) k = Some (Directory m)" by (auto simp: get)
  qed
qed

lemma gives_Rename:
  assumes "calm w" and "g (D @ [x]) = Some (File d m)" and "g (D @ [y]) = None" and "g D = Some (Directory m')"
    and "plain_elems (D @ [x])" and "plain_elems (D @ [y])"
  shows "gives w (os_Rename (at_path (D @ [x])) (at_path (D @ [y]))) g (Inr ()) (g(D @ [x] := None, D @ [y] \<mapsto> File d m))"
proof (rule givesI)
  fix t assume t: "tree_wf t" "tree_get t = g"
  have f: "tree_get t (D @ [x]) = Some (File d m)" "tree_get t (D @ [y]) = None" "tree_get t D = Some (Directory m')"
    using t(2) assms by simp_all
  note ren = rename_file [OF t(1) f assms(6)]
  have ne: "D @ [x] \<noteq> D @ [y]" using f by auto
  have "os_Rename (at_path (D @ [x])) (at_path (D @ [y])) (w\<lparr>w_fs := t\<rparr>)
      = (Inr (), w\<lparr>w_fs := rename_tree (D @ [x]) (D @ [y]) t\<rparr>)"
    using assms(1) f ne at_path_elems [OF assms(5)] at_path_elems [OF assms(6)]
    by (simp add: os_Rename_def quiet_run calm_def Let_def lookup_node_wf [OF t(1) f(1)] walk_dirs_wf [OF t(1) f(3)])
  with ren t(2) show "\<exists>t'. os_Rename (at_path (D @ [x])) (at_path (D @ [y])) (w\<lparr>w_fs := t\<rparr>) = (Inr (), w\<lparr>w_fs := t'\<rparr>)
      \<and> tree_wf t' \<and> tree_get t' = g(D @ [x] := None, D @ [y] \<mapsto> File d m)" by blast
qed

lemma gives_Sidecars:
  assumes "calm w" and "g D = Some (Directory m)" and "plain_elems (D @ [b])"
    and "\<forall>n\<in>side_names b. no_directory (g (D @ [n]))"
  shows "gives w (removeSQLiteSidecars (at_path (D @ [b]))) g (Inr ())
    (g(D @ [b @ ''-wal''] := None, D @ [b @ ''-shm''] := None, D @ [b @ ''-journal''] := None))"
proof -
  have pl: "plain_elems (D @ [n])" if "n \<in> side_names b" for n using assms(3) side_plain [OF _ that] by simp
  have free: "no_directory (g (D @ [n]))" if "n \<in> side_names b" for n using assms(4) that by blast
  let ?g1 = "g(D @ [b @ ''-wal''] := None)" and ?s = "D @ [b @ ''-shm'']" and ?j = "D @ [b @ ''-journal'']"
  have in_sides: "b @ ''-wal'' \<in> side_names b" "b @ ''-shm'' \<in> side_names b" "b @ ''-journal'' \<in> side_names b"
    by (simp_all add: side_names_def)
  have 1: "gives w (removeIfExists (at_path (D @ [b @ ''-wal'']))) g (Inr ()) ?g1"
    by (rule gives_removeIfExists) (use assms(1,2) pl free in_sides in simp_all)
  have 2: "gives w (removeIfExists (at_path ?s)) ?g1 (Inr ()) (?g1(?s := None))"
    by (rule gives_removeIfExists) (use assms(1,2) pl free in_sides in simp_all)
  have 3: "gives w (removeIfExists (at_path ?j)) (?g1(?s := None)) (Inr ()) (?g1(?s := None, ?j := None))"
    by (rule gives_removeIfExists) (use assms(1,2) pl free in_sides in simp_all)
  show ?thesis unfolding removeSQLiteSidecars_def at_path_append
    by (rule gives_then, rule 1, rule gives_then, rule 2, rule 3)
qed

section \<open>The restore\<close>

lemma gives_world: "(\<And>t. tree_wf t \<Longrightarrow> tree_get t = g \<Longrightarrow> m (w\<lparr>w_fs := t\<rparr>) = m' (w\<lparr>w_fs := t\<rparr>)) \<Longrightarrow> gives w m' g r h \<Longrightarrow> gives w m g r h"
  by (simp add: gives_def)

lemma gives_lift: "gives w (io_lift r) g r g"
  by (rule gives_same) (simp add: io_lift_def)

lemma gives_names:
  assumes "calm w"
  shows "nextSafetyBackupPath S T w = (Inr p, w) \<Longrightarrow> gives w (nextSafetyBackupPath S T) g (Inr p) g"
    and "nextRestoreTempPath T w = (Inr p, w) \<Longrightarrow> gives w (nextRestoreTempPath T) g (Inr p) g"
  using assms by (auto intro!: gives_same
      simp: nextSafetyBackupPath_def nextRestoreTempPath_def io_then_def io_now_def io_return_def time_Now_def calm_def Let_def)

lemma gives_Close: "calm w \<Longrightarrow> gives w file_Close g (Inr ()) g"
  by (rule gives_same) (simp add: file_Close_def quiet_run calm_def)

text \<open>An engine that finds every file sound and of one version, and opens it or refuses to.\<close>

definition steady_engine :: "sqlite_files \<Rightarrow> int \<Rightarrow> goerr option \<Rightarrow> bool" where
  "steady_engine S version refusal \<longleftrightarrow> (\<forall>p v. sf_quick_check S p v = (Inr ''ok'', v)
    \<and> sf_SchemaVersion S p v = (Inr version, v)
    \<and> sf_Open S p v = (case refusal of None \<Rightarrow> Inr () | Some e \<Rightarrow> Inl e, v))"

lemma gives_check: "steady_engine S n z \<Longrightarrow> gives w (io_then (sf_quick_check S p) quick_check_ok) g (Inr ()) g"
proof -
  assume "steady_engine S n z"
  moreover have "strings_ToLower (strings_TrimSpace ''ok'') = ''ok''" by code_simp
  ultimately show ?thesis
    by (intro gives_same) (simp add: steady_engine_def io_then_def quick_check_ok_def)
qed

lemma gives_finalize:
  assumes "steady_engine S n z"
  shows "gives w (finalizeRestoredDatabase S p) g (case z of None \<Rightarrow> Inr n | Some e \<Rightarrow> Inl e) g"
proof (cases z)
  case None
  with assms have o: "gives w (sf_Open S p) g (Inr ()) g" "gives w (sf_SchemaVersion S p) g (Inr n) g"
    by (simp_all add: steady_engine_def gives_same)
  have "gives w (finalizeRestoredDatabase S p) g (Inr n) g"
    unfolding finalizeRestoredDatabase_def
    by (rule gives_then, rule o(1), rule gives_then, rule gives_check [OF assms], rule o(2))
  with None show ?thesis by simp
next
  case (Some e)
  with assms have "gives w (sf_Open S p) g (Inl e) g" by (simp add: steady_engine_def gives_same)
  with Some show ?thesis unfolding finalizeRestoredDatabase_def by (simp add: gives_stop)
qed

text \<open>The names of the files a restore uses.\<close>

definition restore_names :: "sqlite_files \<Rightarrow> string list \<Rightarrow> string \<Rightarrow> string \<Rightarrow> string \<Rightarrow> world \<Rightarrow> bool" where
  "restore_names S D b c p w \<longleftrightarrow>
    nextSafetyBackupPath S (at_path (D @ [b])) w = (Inr (at_path (D @ [c])), w)
    \<and> nextRestoreTempPath (at_path (D @ [b])) w = (Inr (at_path (D @ [p])), w)
    \<and> plain_elem c \<and> plain_elem p"

lemma at_path_inj: "plain_elems k \<Longrightarrow> plain_elems l \<Longrightarrow> at_path k = at_path l \<Longrightarrow> k = l"
  by (metis at_path_elems)

lemma restore_names_differ:
  assumes "restore_names S D b c p w" and "plain_elems (D @ [b])" and "stamps_plain S"
  shows "c \<notin> side_names b" "p \<notin> side_names b" "c \<noteq> b @ ''.lock''" "p \<noteq> b @ ''.lock''" "c \<noteq> p"
proof -
  obtain x where x: "plain_elem (x @ ''.db'')" "x @ ''.db'' \<noteq> b"
    "nextSafetyBackupPath S (at_path (D @ [b])) w = (Inr (at_path (D @ [x @ ''.db''])), snd (time_Now w))"
    using nextSafetyBackupPath_name [OF assms(2,3)] by blast
  obtain y where y: "plain_elem (y @ ''.tmp'')" "length b < length y"
    "nextRestoreTempPath (at_path (D @ [b])) w = (Inr (at_path (D @ [y @ ''.tmp''])), snd (time_Now w))"
    using nextRestoreTempPath_name [OF assms(2)] by blast
  have c: "c = x @ ''.db''" using at_path_inj [of "D @ [c]" "D @ [x @ ''.db'']"] assms(1,2) x by (simp add: restore_names_def)
  have p: "p = y @ ''.tmp''" using at_path_inj [of "D @ [p]" "D @ [y @ ''.tmp'']"] assms(1,2) y by (simp add: restore_names_def)
  show "c \<notin> side_names b" using x(2) unfolding c side_names_def by (auto dest: arg_cong [of _ _ last])
  show "p \<notin> side_names b" using y(2) unfolding p side_names_def by (auto dest: arg_cong [of _ _ last])
  show "c \<noteq> b @ ''.lock''" "p \<noteq> b @ ''.lock''" "c \<noteq> p" unfolding c p by (auto dest: arg_cong [of _ _ last])
qed

lemma TrimSpace_path: "strings_TrimSpace (at_path k) \<noteq> []"
proof -
  have "\<not> is_space slash" by code_simp
  then show ?thesis by (simp add: render_path_def strings_TrimSpace_def trim_left_def trim_right_def dropWhile_eq_Nil_conv)
qed

text \<open>What the swap makes of the tree, before and after the restored file is opened.\<close>

lemma swap_in_gives:
  assumes calm: "calm w" and S: "steady_engine S version refusal" and pl: "plain_elems (D @ [b])" "plain_elem p" "plain_elem c" "plain_elems B"
    and names: "p \<notin> side_names b" "c \<notin> side_names b" "c \<noteq> p" and B: "B \<notin> (\<lambda>n. D @ [n]) ` side_names b"
    and dir: "g D = Some (Directory m0)" and new: "g B = Some (File new m1)" and old: "g (D @ [c]) = Some (File old m2)"
    and free: "g (D @ [p]) = None" and sides: "\<forall>n\<in>side_names b. no_directory (g (D @ [n]))"
  shows "gives w (swap_in S (at_path (D @ [b])) (at_path B) (at_path (D @ [c])) (at_path (D @ [p]))) g
    (case refusal of None \<Rightarrow> Inr \<lparr>rr_SourcePath = at_path B, rr_TargetPath = at_path (D @ [b]),
        rr_SafetyBackupPath = at_path (D @ [c]), rr_SchemaVersion = version\<rparr>
      | Some e \<Rightarrow> Inl (Wrapf ''finalize restored database: '' e []))
    (g(D @ [b @ ''-wal''] := None, D @ [b @ ''-shm''] := None, D @ [b @ ''-journal''] := None,
      D @ [b] \<mapsto> File (if refusal = None then new else old) (w_clock w)))"
proof -
  let ?T = "D @ [b]" and ?P = "D @ [p]" and ?C = "D @ [c]"
  let ?clear = "\<lambda>g :: string list \<Rightarrow> node option. g(D @ [b @ ''-wal''] := None, D @ [b @ ''-shm''] := None, D @ [b @ ''-journal''] := None)"
  let ?new = "File new (w_clock w)" and ?old = "File old (w_clock w)"
  have ne: "b \<noteq> p" "b \<noteq> c" "b @ ''-wal'' \<noteq> p" "b @ ''-shm'' \<noteq> p" "b @ ''-journal'' \<noteq> p"
    "b @ ''-wal'' \<noteq> c" "b @ ''-shm'' \<noteq> c" "b @ ''-journal'' \<noteq> c" "p \<noteq> c" using names by (auto simp: side_names_def)
  have neB: "B \<noteq> ?T" "B \<noteq> D @ [b @ ''-wal'']" "B \<noteq> D @ [b @ ''-shm'']" "B \<noteq> D @ [b @ ''-journal'']" "B \<noteq> ?P" "?C \<noteq> ?P"
    using B new free ne by (auto simp: side_names_def)
  have plain: "plain_elems ?P" "plain_elems ?C" using pl by simp_all
  have files: "no_directory (g ?T)" "no_directory (g (D @ [b @ ''-wal'']))" "no_directory (g (D @ [b @ ''-shm'']))"
    "no_directory (g (D @ [b @ ''-journal'']))" using sides by (simp_all add: side_names_def)
  have none: "no_directory None" "no_directory (Some (File d m))" for d m by (simp_all add: no_directory_def)
  have clear: "gives w (removeSQLiteSidecars (at_path ?T)) h (Inr ()) (?clear h)"
    if "h D = Some (Directory m0)" "\<forall>n\<in>side_names b. no_directory (h (D @ [n]))" for h
    by (rule gives_Sidecars [OF calm that(1) pl(1) that(2)])
  let ?g1 = "g(?P \<mapsto> ?new)"
  let ?g2 = "?clear ?g1"
  let ?g3 = "?g2(?T := None)"
  let ?g4 = "?g3(?P := None, ?T \<mapsto> ?new)"
  have 1: "gives w (io_wrap ''stage restore file'' (db_copyFile (at_path B) (at_path ?P))) g (Inr ()) ?g1"
    by (intro gives_wrap gives_copyFile [OF calm new dir free pl(4) plain(1)])
  have 2: "gives w (removeSQLiteSidecars (at_path ?T)) ?g1 (Inr ()) ?g2"
    by (rule clear) (use dir files ne none in \<open>auto simp: side_names_def\<close>)
  have 3: "gives w (removeIfExists (at_path ?T)) ?g2 (Inr ()) ?g3"
    by (rule gives_removeIfExists [OF calm _ _ pl(1)]) (use dir files ne in simp_all)
  have 4: "gives w (os_Rename (at_path ?P) (at_path ?T)) ?g3 (Inr ()) ?g4"
    by (rule gives_Rename [OF calm _ _ _ plain(1) pl(1)]) (use dir ne in simp_all)
  have g4: "?g4 = (?clear g)(?T \<mapsto> ?new)" using ne free by (intro ext) simp
  have stat: "gives w (os_Stat (at_path B)) g (Inr (File new m1)) g"
    by (rule gives_Stat [OF calm]) (use new at_path_elems [OF pl(4)] in simp)
  note fin = gives_finalize [OF S, where p = "at_path ?T" and w = w and g = ?g4]
  let ?result = "case refusal of None \<Rightarrow> Inr \<lparr>rr_SourcePath = at_path B, rr_TargetPath = at_path ?T,
        rr_SafetyBackupPath = at_path ?C, rr_SchemaVersion = version\<rparr>
      | Some e \<Rightarrow> Inl (Wrapf ''finalize restored database: '' e [])"
  let ?h = "(?clear g)(?T \<mapsto> File (if refusal = None then new else old) (w_clock w))"
  have rollback: "gives w (rollbackRestore (at_path ?T) (at_path ?C)) ?g4 (Inr ()) ((?clear g)(?T \<mapsto> ?old))"
  proof -
    have named: "strings_TrimSpace (at_path ?C) \<noteq> []" by (rule TrimSpace_path)
    let ?g5 = "?clear ?g4"
    have 5: "gives w (os_Stat (at_path ?C)) ?g4 (Inr (File old m2)) ?g4"
      by (rule gives_Stat [OF calm]) (use old ne at_path_elems [OF plain(2)] in simp)
    have 6: "gives w (removeSQLiteSidecars (at_path ?T)) ?g4 (Inr ()) ?g5"
      by (rule clear) (use dir files ne none in \<open>auto simp: side_names_def\<close>)
    have 7: "gives w (removeIfExists (at_path ?T)) ?g5 (Inr ()) (?g5(?T := None))"
      by (rule gives_removeIfExists [OF calm _ _ pl(1)]) (use dir ne none in simp_all)
    have 8: "gives w (db_copyFile (at_path ?C) (at_path ?T)) (?g5(?T := None)) (Inr ()) (?g5(?T := None, ?T \<mapsto> ?old))"
      by (rule gives_copyFile [OF calm _ _ _ plain(2) pl(1)]) (use old dir ne in simp_all)
    have "?g5(?T := None, ?T \<mapsto> ?old) = (?clear g)(?T \<mapsto> ?old)" using ne free by (intro ext) simp
    with 8 have 9: "gives w (db_copyFile (at_path ?C) (at_path ?T)) (?g5(?T := None)) (Inr ()) ((?clear g)(?T \<mapsto> ?old))" by simp
    show ?thesis unfolding rollbackRestore_def if_not_P [OF named]
      by (rule gives_then, rule 5, rule gives_then, rule 6, rule gives_then, rule 7, rule 9)
  qed
  show ?thesis unfolding swap_in_def
  proof (rule gives_then, rule stat, rule gives_then, rule 1, rule gives_then, rule 2, rule gives_then, rule 3,
      rule gives_then, rule 4, rule gives_bind, rule fin, unfold g4)
    show "gives w (\<lambda>v. case case refusal of None \<Rightarrow> Inr version | Some e \<Rightarrow> Inl e of
         Inl e \<Rightarrow>
           (case rollbackRestore (at_path ?T) (at_path ?C) v of
              (Inl re, w2) \<Rightarrow>
                (Inl (ErrorText (''finalize restored database: '' @ err_Error e @ ''; rollback failed: '' @ err_Error re)), w2)
            | (Inr _, w2) \<Rightarrow> (Inl (Wrapf ''finalize restored database: '' e []), w2))
       | Inr version \<Rightarrow>
           (Inr \<lparr>rr_SourcePath = at_path B, rr_TargetPath = at_path ?T, rr_SafetyBackupPath = at_path ?C,
              rr_SchemaVersion = version\<rparr>, v)) ((?clear g)(?T \<mapsto> ?new)) ?result ?h"
    proof (cases refusal)
      case None
      then show ?thesis by (simp add: gives_result)
    next
      case (Some e)
      with rollback show ?thesis unfolding g4 by simp (rule gives_bind, assumption, simp add: gives_result)
    qed
  qed
qed

lemma gives_validate:
  assumes "calm w" and "steady_engine S version refusal" and "plain_elems B" and "g B = Some (File d m)"
  shows "gives w (validateSQLiteFile S (at_path B)) g (Inr ()) g"
proof -
  have st: "gives w (os_Stat (at_path B)) g (Inr (File d m)) g"
    by (rule gives_Stat [OF assms(1)]) (use assms(3,4) at_path_elems in simp)
  have ck: "gives w (if is_dir (File d m) then io_fail (ErrorText (''sqlite file path is a directory: '' @ at_path B))
    else io_then (sf_quick_check S (at_path B)) quick_check_ok) g (Inr ()) g"
    using gives_check [OF assms(2)] by (simp add: is_dir_def)
  show ?thesis unfolding validateSQLiteFile_def by (rule gives_then, rule st, rule ck)
qed

lemma gives_statIfExists:
  assumes "calm w" and "plain_elems k" and "g k = Some n"
  shows "gives w (statIfExists (at_path k)) g (Inr (Some n)) g"
proof (rule givesI)
  fix t assume t: "tree_wf t" "tree_get t = g"
  have "gives w (os_Stat (at_path k)) g (Inr n) g"
    by (rule gives_Stat [OF assms(1)]) (use assms(2,3) at_path_elems in simp)
  from this t obtain t' where "os_Stat (at_path k) (w\<lparr>w_fs := t\<rparr>) = (Inr n, w\<lparr>w_fs := t'\<rparr>)" "tree_wf t'" "tree_get t' = g"
    by (rule givesE)
  then show "\<exists>t'. statIfExists (at_path k) (w\<lparr>w_fs := t\<rparr>) = (Inr (Some n), w\<lparr>w_fs := t'\<rparr>) \<and> tree_wf t' \<and> tree_get t' = g"
    unfolding statIfExists_def by (intro exI [of _ t']) simp
qed

lemma filepath_Abs_path: "plain_elems k \<Longrightarrow> filepath_Abs getwd (at_path k) = Inr (at_path k)"
  by (simp add: filepath_Abs_def IsAbs_render clean_form_plain)

lemma lock_plain: "plain_elems (D @ [b]) \<Longrightarrow> plain_elems (D @ [b @ ''.lock''])"
  by (auto simp: plain_elem_def append_eq_Cons_conv)

lemma gives_acquire:
  assumes "calm w" and "plain_elems (D @ [b])" and "g D = Some (Directory m)" and "g (D @ [b @ ''.lock'']) = None"
  shows "gives w (acquireResourceLock getwd (at_path (D @ [b]))) g (Inr (at_path (D @ [b @ ''.lock''])))
    (g(D @ [b @ ''.lock''] \<mapsto> File [] (w_clock w)))"
proof (rule givesI)
  let ?L = "D @ [b @ ''.lock'']"
  fix t assume t: "tree_wf t" "tree_get t = g"
  from gives_OpenExcl [where g = g, OF assms(1,3,4) lock_plain [OF assms(2)]] t
  obtain t' where "os_OpenExcl (at_path ?L) (w\<lparr>w_fs := t\<rparr>) = (Inr (), w\<lparr>w_fs := t'\<rparr>)"
    "tree_wf t'" "tree_get t' = g(?L \<mapsto> File [] (w_clock w))" by (rule givesE)
  then show "\<exists>t'. acquireResourceLock getwd (at_path (D @ [b])) (w\<lparr>w_fs := t\<rparr>) = (Inr (at_path ?L), w\<lparr>w_fs := t'\<rparr>)
      \<and> tree_wf t' \<and> tree_get t' = g(?L \<mapsto> File [] (w_clock w))"
    using assms(1) by (intro exI [of _ t'])
      (simp add: acquireResourceLock_def filepath_Abs_path [OF assms(2)] Let_def at_path_append file_Close_def quiet_run calm_def)
qed

lemma gives_release:
  assumes "calm w" and "plain_elems (D @ [l])" and "g (D @ [l]) = Some (File d m)"
  shows "gives w (lock_Release (at_path (D @ [l]))) g (Inr ()) (g(D @ [l] := None))"
proof (rule givesI)
  fix t assume t: "tree_wf t" "tree_get t = g"
  from removeIfExists_there [where g = g, OF assms(1,3,2)] t obtain t' where "os_Remove (at_path (D @ [l])) (w\<lparr>w_fs := t\<rparr>) = (Inr (), w\<lparr>w_fs := t'\<rparr>)"
    "tree_wf t'" "tree_get t' = g(D @ [l] := None)" by (rule givesE)
  then show "\<exists>t'. lock_Release (at_path (D @ [l])) (w\<lparr>w_fs := t\<rparr>) = (Inr (), w\<lparr>w_fs := t'\<rparr>) \<and> tree_wf t'
      \<and> tree_get t' = g(D @ [l] := None)"
    unfolding lock_Release_def by (intro exI [of _ t']) (simp add: at_path_ne)
qed

text \<open>The restore while it holds the lock.\<close>

lemma locked_restore_gives:
  assumes calm: "calm w" and S: "steady_engine S version refusal" "stamps_plain S"
    and names: "restore_names S D b c p w" and pl: "plain_elems (D @ [b])" "plain_elems B"
    and dir: "g D = Some (Directory m0)" and old: "g (D @ [b]) = Some (File old m)" and new: "g B = Some (File new m')"
    and B: "B \<notin> (\<lambda>n. D @ [n]) ` side_names b" and sides: "\<forall>n\<in>side_names b. no_directory (g (D @ [n]))"
    and free: "g (D @ [c]) = None" "g (D @ [p]) = None"
  shows "gives w (locked_restore S True (at_path (D @ [b])) (at_path B)) g
    (case refusal of None \<Rightarrow> Inr \<lparr>rr_SourcePath = at_path B, rr_TargetPath = at_path (D @ [b]),
        rr_SafetyBackupPath = at_path (D @ [c]), rr_SchemaVersion = version\<rparr>
      | Some e \<Rightarrow> Inl (Wrapf ''finalize restored database: '' e []))
    (g(D @ [c] \<mapsto> File old (w_clock w), D @ [b @ ''-wal''] := None, D @ [b @ ''-shm''] := None,
      D @ [b @ ''-journal''] := None, D @ [b] \<mapsto> File (if refusal = None then new else old) (w_clock w)))"
proof -
  let ?T = "D @ [b]" and ?C = "D @ [c]" and ?P = "D @ [p]"
  have pn: "plain_elem c" "plain_elem p" using names by (simp_all add: restore_names_def)
  note differ = restore_names_differ [OF names pl(1) S(2)]
  have ne: "b \<noteq> c" "b \<noteq> p" "c \<noteq> p" "b @ ''-wal'' \<noteq> c" "b @ ''-shm'' \<noteq> c" "b @ ''-journal'' \<noteq> c"
    "b @ ''-wal'' \<noteq> p" "b @ ''-shm'' \<noteq> p" "b @ ''-journal'' \<noteq> p" using differ by (auto simp: side_names_def)
  have BC: "B \<noteq> ?C" "B \<noteq> ?P" using free new by auto
  let ?g2 = "g(?C \<mapsto> File old (w_clock w))"
  note swap = swap_in_gives [OF calm S(1) pl(1) pn(2,1) pl(2) differ(2,1,5) B, where g = ?g2 and old = old and new = new
      and ?m0.0 = m0 and ?m1.0 = m' and ?m2.0 = "w_clock w"]
  have swap: "gives w (swap_in S (at_path ?T) (at_path B) (at_path ?C) (at_path ?P)) ?g2
      (case refusal of None \<Rightarrow> Inr \<lparr>rr_SourcePath = at_path B, rr_TargetPath = at_path (D @ [b]),
          rr_SafetyBackupPath = at_path (D @ [c]), rr_SchemaVersion = version\<rparr>
        | Some e \<Rightarrow> Inl (Wrapf ''finalize restored database: '' e []))
      (?g2(D @ [b @ ''-wal''] := None, D @ [b @ ''-shm''] := None,
        D @ [b @ ''-journal''] := None, D @ [b] \<mapsto> File (if refusal = None then new else old) (w_clock w)))"
    by (rule swap) (use dir new free BC ne sides in \<open>auto simp: side_names_def no_directory_def\<close>)
  have validate: "gives w (io_wrap ''validate backup'' (validateSQLiteFile S (at_path B))) g (Inr ()) g"
    by (rule gives_wrap, rule gives_validate [where g = g, OF calm S(1) pl(2) new])
  have par: "filepath_Dir (at_path ?T) = at_path D" using Dir_render [of ?T] pl(1) by simp
  have mk: "gives w (os_MkdirAll (at_path D)) g (Inr ()) g"
    by (rule gives_MkdirAll [OF calm]) (use dir at_path_elems [of D] pl(1) in simp)
  have name: "gives w (nextSafetyBackupPath S (at_path ?T)) g (Inr (at_path ?C)) g"
    "gives w (nextRestoreTempPath (at_path ?T)) ?g2 (Inr (at_path ?P)) ?g2"
    using gives_names [OF calm] names by (simp_all add: restore_names_def)
  have copy: "gives w (io_wrap ''create safety backup'' (db_copyFile (at_path ?T) (at_path ?C))) g (Inr ()) ?g2"
    by (rule gives_wrap, rule gives_copyFile [where g = g, OF calm old dir free(1) pl(1)]) (use pl(1) pn in simp)
  have safety: "gives w (if True \<and> Some (File old m) \<noteq> None
        then io_then (nextSafetyBackupPath S (at_path ?T)) (\<lambda>safetyPath.
          io_then (io_wrap ''create safety backup'' (db_copyFile (at_path ?T) safetyPath)) (\<lambda>_. io_return safetyPath))
        else io_return []) g (Inr (at_path ?C)) ?g2"
    by (simp, rule gives_then, rule name(1), rule gives_then, rule copy, rule gives_return)
  show ?thesis unfolding locked_restore_def par
    by (rule gives_then, rule validate, rule gives_then, rule gives_statIfExists [where g = g, OF calm pl(1) old], rule gives_then, rule mk,
        rule gives_then, rule safety, rule gives_then, rule name(2), rule gives_defer, rule swap,
        rule os_Remove_missing [OF calm]) (use dir free ne pl pn in simp_all)
qed


section \<open>A restore on a concrete tree\<close>

text \<open>A database, its backup, and an engine that leaves files alone.\<close>

definition sample_engine :: "goerr option \<Rightarrow> sqlite_files" where
  "sample_engine refusal = \<lparr>sf_quick_check = (\<lambda>p v. (Inr ''ok'', v)),
     sf_Open = (\<lambda>p v. (case refusal of None \<Rightarrow> Inr () | Some e \<Rightarrow> Inl e, v)),
     sf_SchemaVersion = (\<lambda>p v. (Inr 2, v)), sf_stamp = (\<lambda>t. ''2024'')\<rparr>"

definition restore_world :: world where
  "restore_world = quiet_world [([''d''], Directory 0), ([''d'', ''r.db''], File [1] 0), ([''b.db''], File [2] 0)] empty_db"

lemma restore_tree: "tree_wf (w_fs restore_world)"
  unfolding tree_wf_def
proof (intro conjI allI impI)
  show "distinct (map fst (w_fs restore_world))" by (simp add: restore_world_def quiet_world_def)
  show "tree_ok (w_fs restore_world)" by (simp add: restore_world_def quiet_world_def tree_ok_def plain_elem_def)
  fix k c n assume "tree_get (w_fs restore_world) (k @ [c]) = Some n"
  then have "k = [] \<or> k = [''d'']"
    by (auto simp: restore_world_def quiet_world_def tree_get_def append_eq_Cons_conv split: if_splits)
  then show "\<exists>m. tree_get (w_fs restore_world) k = Some (Directory m)"
    by (auto simp: restore_world_def quiet_world_def tree_get_def)
qed

lemma sample_engine_ok: "engine_within (sample_engine z)" "stamps_plain (sample_engine z)" "steady_engine (sample_engine z) 2 z"
  by (auto simp: engine_within_def stamps_plain_def steady_engine_def sample_engine_def touches_def)

lemma sample_names: "restore_names (sample_engine z) [''d''] ''r.db'' ''r-pre-restore-2024.db'' ''.r.db.restore-0.tmp'' restore_world"
proof -
  have "nextSafetyBackupPath (sample_engine z) (at_path [''d'', ''r.db'']) restore_world
      = (Inr (at_path [''d'', ''r-pre-restore-2024.db'']), restore_world)"
  proof -
    have "filepath_Dir (at_path [''d'', ''r.db'']) = ''/d''"
      "strings_TrimSuffix (filepath_Base (at_path [''d'', ''r.db''])) (filepath_Ext (at_path [''d'', ''r.db''])) = ''r''"
      "filepath_Join [''/d'', ''r-pre-restore-2024.db''] = at_path [''d'', ''r-pre-restore-2024.db'']" by code_simp+
    then show ?thesis by (simp add: nextSafetyBackupPath_def io_then_def io_now_def time_Now_def io_return_def restore_world_def
        quiet_world_def sample_engine_def)
  qed
  moreover have "nextRestoreTempPath (at_path [''d'', ''r.db'']) restore_world
      = (Inr (at_path [''d'', ''.r.db.restore-0.tmp'']), restore_world)" by code_simp
  ultimately show ?thesis by (simp add: restore_names_def plain_elem_def)
qed



end
