(* ===== verification/AccessBundle.thy ===== *)
theory AccessBundle
  imports AdminConsole GoIO
begin

text \<open>
  \<open>internal/accessbundle/bundle.go\<close>, \<open>IssueJoinBundle\<close> of \<open>internal/server/admin_console_service.go\<close>
  and \<open>cmd/roodox_client_import/main.go\<close>: the bundle a device joins with, from the configuration of
  the server to the files of the client.

  JSON, base64 and URLs are parameters: what \<open>json.Valid\<close>, \<open>json.MarshalIndent\<close> and
  \<open>json.Unmarshal\<close> do on the two file formats, \<open>base64.RawURLEncoding\<close>, and the parameter
  \<open>payload\<close> of a URI. Raw JSON is text.
\<close>

section \<open>Bundles\<close>

record Overlay =
  ov_Provider :: string
  ov_JoinConfig :: string

record ServiceDiscovery =
  sv_Mode :: string
  sv_Host :: string
  sv_Port :: "32 word"
  sv_UseTLS :: bool
  sv_TLSServerName :: string

record Roodox =
  ro_ServerID :: string
  ro_DeviceGroup :: string
  ro_SharedSecret :: string
  ro_DeviceID :: string
  ro_DeviceName :: string
  ro_DeviceRole :: string

record Bundle =
  bu_Version :: "32 word"
  bu_Overlay :: Overlay
  bu_ServiceDiscovery :: ServiceDiscovery
  bu_Roodox :: Roodox

text \<open>The file format; the client declares the same fields under the same names.\<close>

record fileDiscovery =
  fd_Mode :: string
  fd_Host :: string
  fd_Port :: "32 word"
  fd_UseTLS :: bool
  fd_TLSServerName :: string

record fileRoodox =
  fr_ServerID :: string
  fr_DeviceGroup :: string
  fr_SharedSecret :: string
  fr_DeviceID :: string
  fr_DeviceName :: string
  fr_DeviceRole :: string

record fileBundle =
  fb_Version :: "32 word"
  fb_OverlayProvider :: string
  fb_OverlayJoinConfig :: string
  fb_ServiceDiscovery :: fileDiscovery
  fb_Roodox :: fileRoodox

record connectionCodeEnvelope =
  ce_Version :: "32 word"
  ce_Bundle :: string
  ce_CAPEM :: string

record codecs =
  co_Valid :: "string \<Rightarrow> bool"
  co_MarshalIndent :: "fileBundle \<Rightarrow> string result"
  co_UnmarshalBundle :: "string \<Rightarrow> fileBundle result"
  co_UnmarshalEnvelope :: "string \<Rightarrow> connectionCodeEnvelope result"
  co_Base64 :: "string \<Rightarrow> string result"
  co_PayloadOfURI :: "string \<Rightarrow> string result"

section \<open>Normal form\<close>

fun slug_runes :: "bool \<Rightarrow> string \<Rightarrow> string" where
  "slug_runes lastDash [] = []"
| "slug_runes lastDash (r # rs) =
    (if CHR ''a'' \<le> r \<and> r \<le> CHR ''z'' then r # slug_runes False rs
     else if CHR ''0'' \<le> r \<and> r \<le> CHR ''9'' then r # slug_runes False rs
     else if \<not> lastDash then CHR ''-'' # slug_runes True rs
     else slug_runes lastDash rs)"

definition normalizeSlug :: "string \<Rightarrow> string" where
  "normalizeSlug value0 =
    (let value = strings_ToLower (strings_TrimSpace value0) in
     if value = [] then [] else strings_Trim (slug_runes False value) ''-'')"

definition normalizeSlugWithDefault :: "string \<Rightarrow> string \<Rightarrow> string" where
  "normalizeSlugWithDefault value fallback =
    (if normalizeSlug value = [] then normalizeSlug fallback else normalizeSlug value)"

definition nonZeroUint32 :: "32 word \<Rightarrow> 32 word \<Rightarrow> 32 word" where
  "nonZeroUint32 value fallback = (if value = 0 then fallback else value)"

abbreviation DefaultVersion :: "32 word" where "DefaultVersion \<equiv> 1"
abbreviation DefaultServiceDiscoveryMode :: string where "DefaultServiceDiscoveryMode \<equiv> ''static''"

definition Bundle_Normalize :: "Bundle \<Rightarrow> Bundle" where
  "Bundle_Normalize b =
    (let o1 = bu_Overlay b; d = bu_ServiceDiscovery b; r = bu_Roodox b in
     \<lparr>bu_Version = nonZeroUint32 (bu_Version b) DefaultVersion,
      bu_Overlay = \<lparr>ov_Provider = normalizeSlug (ov_Provider o1),
        ov_JoinConfig = (if ov_JoinConfig o1 = [] then ''{}'' else ov_JoinConfig o1)\<rparr>,
      bu_ServiceDiscovery = \<lparr>sv_Mode = normalizeSlugWithDefault (sv_Mode d) DefaultServiceDiscoveryMode,
        sv_Host = strings_TrimSpace (sv_Host d), sv_Port = sv_Port d, sv_UseTLS = sv_UseTLS d,
        sv_TLSServerName = strings_TrimSpace (sv_TLSServerName d)\<rparr>,
      bu_Roodox = \<lparr>ro_ServerID = strings_TrimSpace (ro_ServerID r), ro_DeviceGroup = strings_TrimSpace (ro_DeviceGroup r),
        ro_SharedSecret = strings_TrimSpace (ro_SharedSecret r), ro_DeviceID = strings_TrimSpace (ro_DeviceID r),
        ro_DeviceName = strings_TrimSpace (ro_DeviceName r), ro_DeviceRole = strings_TrimSpace (ro_DeviceRole r)\<rparr>\<rparr>)"

definition Bundle_Validate :: "codecs \<Rightarrow> Bundle \<Rightarrow> unit result" where
  "Bundle_Validate C b0 =
    (let b = Bundle_Normalize b0; d = bu_ServiceDiscovery b; r = bu_Roodox b in
     if ov_Provider (bu_Overlay b) = [] then Inl (ErrorText ''overlay provider is required'')
     else if \<not> co_Valid C (ov_JoinConfig (bu_Overlay b)) then Inl (ErrorText ''overlay join config must be valid JSON'')
     else if sv_Mode d = [] then Inl (ErrorText ''service discovery mode is required'')
     else if sv_Mode d = ''static'' \<and> sv_Host d = []
       then Inl (ErrorText ''service discovery host is required for static mode'')
     else if sv_Mode d = ''static'' \<and> sv_Port d = 0
       then Inl (ErrorText ''service discovery port is required for static mode'')
     else if ro_ServerID r = [] then Inl (ErrorText ''roodox server id is required'')
     else if ro_DeviceGroup r = [] then Inl (ErrorText ''roodox device group is required'')
     else Inr ())"

definition file_of_bundle :: "Bundle \<Rightarrow> fileBundle" where
  "file_of_bundle b =
    (let d = bu_ServiceDiscovery b; r = bu_Roodox b in
     \<lparr>fb_Version = bu_Version b, fb_OverlayProvider = ov_Provider (bu_Overlay b),
      fb_OverlayJoinConfig = ov_JoinConfig (bu_Overlay b),
      fb_ServiceDiscovery = \<lparr>fd_Mode = sv_Mode d, fd_Host = sv_Host d, fd_Port = sv_Port d, fd_UseTLS = sv_UseTLS d,
        fd_TLSServerName = sv_TLSServerName d\<rparr>,
      fb_Roodox = \<lparr>fr_ServerID = ro_ServerID r, fr_DeviceGroup = ro_DeviceGroup r, fr_SharedSecret = ro_SharedSecret r,
        fr_DeviceID = ro_DeviceID r, fr_DeviceName = ro_DeviceName r, fr_DeviceRole = ro_DeviceRole r\<rparr>\<rparr>)"

definition MarshalJSONFile :: "codecs \<Rightarrow> Bundle \<Rightarrow> string result" where
  "MarshalJSONFile C b0 =
    (let b = Bundle_Normalize b0 in
     (case Bundle_Validate C b of Inl e \<Rightarrow> Inl e | Inr _ \<Rightarrow> co_MarshalIndent C (file_of_bundle b)))"

section \<open>Issuing a bundle\<close>

record IssueJoinBundleRequest =
  ij_DeviceId :: string
  ij_DeviceName :: string
  ij_DeviceRole :: string
  ij_DeviceGroup :: string
  ij_OverlayProvider :: string
  ij_OverlayJoinConfigJson :: string

record JoinBundle =
  jo_Version :: "32 word"
  jo_OverlayProvider :: string
  jo_OverlayJoinConfigJson :: string
  jo_ServiceDiscoveryMode :: string
  jo_ServiceHost :: string
  jo_ServicePort :: "32 word"
  jo_UseTls :: bool
  jo_TlsServerName :: string
  jo_ServerId :: string
  jo_DeviceGroup :: string
  jo_SharedSecret :: string
  jo_DeviceId :: string
  jo_DeviceName :: string
  jo_DeviceRole :: string

record IssueJoinBundleResponse =
  ir_BundleJson :: string
  ir_Bundle :: JoinBundle

text \<open>The bundle that is normalised and printed, once the request and the configuration are merged.\<close>

definition issued_model :: "ControlPlaneConfig \<Rightarrow> IssueJoinBundleRequest \<Rightarrow> Bundle" where
  "issued_model cfg req =
    (let j = cp_JoinBundle cfg; d = jb_ServiceDiscovery j;
         requested = strings_TrimSpace (ij_OverlayJoinConfigJson req);
         configured = (if requested = [] then jb_OverlayJoinConfigJSON j else requested) in
     \<lparr>bu_Version = DefaultVersion,
      bu_Overlay = \<lparr>ov_Provider = coalesceNonEmpty [ij_OverlayProvider req, jb_OverlayProvider j],
        ov_JoinConfig = (if configured = [] then ''{}'' else configured)\<rparr>,
      bu_ServiceDiscovery = \<lparr>sv_Mode = sd_Mode d, sv_Host = sd_Host d, sv_Port = sd_Port d, sv_UseTLS = sd_UseTLS d,
        sv_TLSServerName = sd_TLSServerName d\<rparr>,
      bu_Roodox = \<lparr>ro_ServerID = cp_ServerID cfg,
        ro_DeviceGroup = coalesceNonEmpty [ij_DeviceGroup req, cp_DefaultDeviceGroup cfg],
        ro_SharedSecret = jb_SharedSecret j, ro_DeviceID = strings_TrimSpace (ij_DeviceId req),
        ro_DeviceName = strings_TrimSpace (ij_DeviceName req), ro_DeviceRole = strings_TrimSpace (ij_DeviceRole req)\<rparr>\<rparr>)"

definition IssueJoinBundle :: "codecs \<Rightarrow> ControlPlaneConfig \<Rightarrow> IssueJoinBundleRequest \<Rightarrow> status + IssueJoinBundleResponse" where
  "IssueJoinBundle C cfg req =
    (let d = jb_ServiceDiscovery (cp_JoinBundle cfg) in
     if coalesceNonEmpty [ij_OverlayProvider req, jb_OverlayProvider (cp_JoinBundle cfg)] = []
     then Inl (failedPrecondition ''join bundle overlay provider is not configured'')
     else if strings_TrimSpace (sd_Host d) = [] \<or> sd_Port d = 0
     then Inl (failedPrecondition ''join bundle service discovery host/port is not configured'')
     else
       (let n = Bundle_Normalize (issued_model cfg req) in
        case MarshalJSONFile C n of
          Inl e \<Rightarrow> Inl (invalidArgument (err_Error e))
        | Inr bundleJSON \<Rightarrow> Inr
          \<lparr>ir_BundleJson = bundleJSON,
           ir_Bundle = \<lparr>jo_Version = bu_Version n, jo_OverlayProvider = ov_Provider (bu_Overlay n),
             jo_OverlayJoinConfigJson = ov_JoinConfig (bu_Overlay n),
             jo_ServiceDiscoveryMode = sv_Mode (bu_ServiceDiscovery n), jo_ServiceHost = sv_Host (bu_ServiceDiscovery n),
             jo_ServicePort = sv_Port (bu_ServiceDiscovery n), jo_UseTls = sv_UseTLS (bu_ServiceDiscovery n),
             jo_TlsServerName = sv_TLSServerName (bu_ServiceDiscovery n), jo_ServerId = cp_ServerID cfg,
             jo_DeviceGroup = coalesceNonEmpty [ij_DeviceGroup req, cp_DefaultDeviceGroup cfg],
             jo_SharedSecret = jb_SharedSecret (cp_JoinBundle cfg), jo_DeviceId = strings_TrimSpace (ij_DeviceId req),
             jo_DeviceName = strings_TrimSpace (ij_DeviceName req), jo_DeviceRole = strings_TrimSpace (ij_DeviceRole req)\<rparr>\<rparr>))"

section \<open>Importing a connection code\<close>

text \<open>A byte of a file is a character of a string.\<close>

definition bytes_of :: "string \<Rightarrow> bytes" where
  "bytes_of s = map of_char s"

definition text_of :: "bytes \<Rightarrow> string" where
  "text_of d = map char_of d"

function strings_Fields :: "string \<Rightarrow> string list" where
  "strings_Fields [] = []"
| "strings_Fields (c # s) =
    (if is_space c then strings_Fields s
     else (c # takeWhile (\<lambda>x. \<not> is_space x) s) # strings_Fields (dropWhile (\<lambda>x. \<not> is_space x) s))"
  by pat_completeness auto

termination
  by (relation "measure length") (auto simp: le_imp_less_Suc length_dropWhile_le)

abbreviation connectionCodePrefix :: string where "connectionCodePrefix \<equiv> ''roodox:1:''"
abbreviation connectionCodeName :: string where "connectionCodeName \<equiv> ''roodox-connection-code.txt''"
abbreviation bundleFileName :: string where "bundleFileName \<equiv> ''roodox-client-access.json''"
abbreviation caFileName :: string where "caFileName \<equiv> ''roodox-ca-cert.pem''"

definition extractEncodedPayload :: "codecs \<Rightarrow> string \<Rightarrow> string result" where
  "extractEncodedPayload C raw =
    (let code = strings_Join (strings_Fields (strings_TrimSpace raw)) [] in
     if strings_HasPrefix code connectionCodePrefix
     then
       (let payload = drop (length connectionCodePrefix) code in
        if payload = [] then Inl (ErrorText ''connection code payload is empty'') else Inr payload)
     else if strings_HasPrefix (strings_ToLower code) ''roodox://connect''
     then
       (case co_PayloadOfURI C code of
          Inl e \<Rightarrow> Inl (Wrapf ''parse connection uri failed: '' e [])
        | Inr value \<Rightarrow>
          (let payload = strings_TrimSpace value in
           if payload = [] then Inl (ErrorText ''connection uri is missing payload'') else Inr payload))
     else Inl (ErrorText ''unsupported connection code format''))"

definition bundle_of_file :: "fileBundle \<Rightarrow> Bundle" where
  "bundle_of_file f =
    (let d = fb_ServiceDiscovery f; r = fb_Roodox f in
     \<lparr>bu_Version = fb_Version f,
      bu_Overlay = \<lparr>ov_Provider = fb_OverlayProvider f, ov_JoinConfig = fb_OverlayJoinConfig f\<rparr>,
      bu_ServiceDiscovery = \<lparr>sv_Mode = fd_Mode d, sv_Host = fd_Host d, sv_Port = fd_Port d, sv_UseTLS = fd_UseTLS d,
        sv_TLSServerName = fd_TLSServerName d\<rparr>,
      bu_Roodox = \<lparr>ro_ServerID = fr_ServerID r, ro_DeviceGroup = fr_DeviceGroup r, ro_SharedSecret = fr_SharedSecret r,
        ro_DeviceID = fr_DeviceID r, ro_DeviceName = fr_DeviceName r, ro_DeviceRole = fr_DeviceRole r\<rparr>\<rparr>)"

definition parseBundleJSON :: "codecs \<Rightarrow> string \<Rightarrow> (Bundle \<times> bytes) result" where
  "parseBundleJSON C raw =
    (if raw = [] then Inl (ErrorText ''connection code bundle is empty'')
     else
       (case co_UnmarshalBundle C raw of
          Inl e \<Rightarrow> Inl (Wrapf ''parse join bundle failed: '' e [])
        | Inr payload \<Rightarrow>
          (let bundle = Bundle_Normalize (bundle_of_file payload) in
           case Bundle_Validate C bundle of
             Inl e \<Rightarrow> Inl (Wrapf ''validate join bundle failed: '' e [])
           | Inr _ \<Rightarrow>
             (case MarshalJSONFile C bundle of
                Inl e \<Rightarrow> Inl (Wrapf ''encode join bundle failed: '' e [])
              | Inr prettyBundle \<Rightarrow> Inr (bundle, bytes_of prettyBundle)))))"

definition normalizePEM :: "string \<Rightarrow> string" where
  "normalizePEM raw = (if strings_TrimSpace raw = [] then [] else strings_TrimSpace raw @ [CHR 0x0A])"

record decodedConnectionCode =
  dc_bundle :: Bundle
  dc_bundleJSON :: bytes
  dc_caPEM :: string

definition decodeConnectionCode :: "codecs \<Rightarrow> string \<Rightarrow> decodedConnectionCode result" where
  "decodeConnectionCode C raw =
    (case extractEncodedPayload C raw of
       Inl e \<Rightarrow> Inl e
     | Inr encoded \<Rightarrow>
       (case co_Base64 C encoded of
          Inl e \<Rightarrow> Inl (Wrapf ''decode connection code failed: '' e [])
        | Inr payloadBytes \<Rightarrow>
          (case co_UnmarshalEnvelope C payloadBytes of
             Inl e \<Rightarrow> Inl (Wrapf ''parse connection code payload failed: '' e [])
           | Inr envelope \<Rightarrow>
             if ce_Version envelope \<noteq> 1
             then Inl (ErrorText (''unsupported connection code version: '' @ strconv_Itoa (uint (ce_Version envelope))))
             else
               (case parseBundleJSON C (ce_Bundle envelope) of
                  Inl e \<Rightarrow> Inl e
                | Inr (bundle, bundleJSON) \<Rightarrow>
                  (let caPEM = normalizePEM (ce_CAPEM envelope) in
                   if sv_UseTLS (bu_ServiceDiscovery bundle) \<and> caPEM = []
                   then Inl (ErrorText ''connection code is missing the TLS root certificate'')
                   else Inr \<lparr>dc_bundle = bundle, dc_bundleJSON = bundleJSON, dc_caPEM = caPEM\<rparr>)))))"

definition loadConnectionCode :: "string \<Rightarrow> string \<Rightarrow> string io" where
  "loadConnectionCode inlineCode0 filePath0 =
    (let inlineCode = strings_TrimSpace inlineCode0; filePath = strings_TrimSpace filePath0 in
     if inlineCode \<noteq> [] \<and> filePath \<noteq> []
       then io_fail (ErrorText ''specify either -connection-code or -connection-code-file, not both'')
     else if inlineCode \<noteq> [] then io_return inlineCode
     else if filePath \<noteq> []
       then io_then (io_wrap ''read connection code file failed'' (os_ReadFile filePath)) (\<lambda>data. io_return (text_of data))
     else io_fail (ErrorText ''connection code is required''))"

definition net_JoinHostPort :: "string \<Rightarrow> string \<Rightarrow> string" where
  "net_JoinHostPort host port =
    (if CHR '':'' \<in> set host then ''['' @ host @ '']:'' @ port else host @ '':'' @ port)"

definition bundleServiceAddr :: "Bundle \<Rightarrow> string" where
  "bundleServiceAddr bundle =
    (let host = strings_TrimSpace (sv_Host (bu_ServiceDiscovery bundle));
         port = strconv_Itoa (uint (sv_Port (bu_ServiceDiscovery bundle))) in
     net_JoinHostPort (strings_Trim host ''[]'') port)"

record importResult =
  im_Format :: string
  im_OutputDir :: string
  im_ConnectionCode :: string
  im_BundlePath :: string
  im_CAPath :: string
  im_ServiceAddr :: string
  im_TLSEnabled :: bool
  im_ProbeAttempted :: bool
  im_ProbeOK :: bool
  im_ProbeError :: string

definition writeImportArtifacts :: "goerr + string \<Rightarrow> string \<Rightarrow> string \<Rightarrow> decodedConnectionCode \<Rightarrow> importResult io" where
  "writeImportArtifacts getwd outputDir rawCode decoded =
    io_then (io_wrap ''resolve output dir failed'' (io_lift (filepath_Abs getwd (strings_TrimSpace outputDir)))) (\<lambda>dir.
    io_then (io_wrap ''create output dir failed'' (os_MkdirAll dir)) (\<lambda>_.
      let connectionCodePath = filepath_Join [dir, connectionCodeName];
          bundlePath = filepath_Join [dir, bundleFileName];
          caPath = (if dc_caPEM decoded \<noteq> [] then filepath_Join [dir, caFileName] else []) in
    io_then (io_wrap ''write connection code file failed''
        (os_WriteFile connectionCodePath (bytes_of (strings_TrimSpace rawCode @ [CHR 0x0A])))) (\<lambda>_.
    io_then (io_wrap ''write join bundle failed'' (os_WriteFile bundlePath (dc_bundleJSON decoded))) (\<lambda>_.
    io_then (if dc_caPEM decoded \<noteq> []
        then io_wrap ''write tls root certificate failed'' (os_WriteFile caPath (bytes_of (dc_caPEM decoded)))
        else io_return ()) (\<lambda>_.
      io_return \<lparr>im_Format = ''roodox:1'', im_OutputDir = dir, im_ConnectionCode = connectionCodePath,
        im_BundlePath = bundlePath, im_CAPath = caPath, im_ServiceAddr = bundleServiceAddr (dc_bundle decoded),
        im_TLSEnabled = sv_UseTLS (bu_ServiceDiscovery (dc_bundle decoded)), im_ProbeAttempted = False,
        im_ProbeOK = False, im_ProbeError = []\<rparr>)))))"

text \<open>The probe of the server is an argument; the second component says that the exit status is 1.\<close>

definition floor_max :: "int \<Rightarrow> int \<Rightarrow> int" where
  "floor_max v least = (if v < least then least else v)"

definition import_main :: "codecs \<Rightarrow> (Bundle \<Rightarrow> string \<Rightarrow> duration \<Rightarrow> unit io) \<Rightarrow> goerr + string
    \<Rightarrow> string \<Rightarrow> string \<Rightarrow> string \<Rightarrow> bool \<Rightarrow> int \<Rightarrow> (importResult \<times> bool) io" where
  "import_main C probeServer getwd connectionCode connectionCodeFile outputDir probe probeTimeoutSeconds =
    io_then (loadConnectionCode connectionCode connectionCodeFile) (\<lambda>rawCode.
    io_then (io_lift (decodeConnectionCode C rawCode)) (\<lambda>decoded.
    io_then (writeImportArtifacts getwd outputDir rawCode decoded) (\<lambda>result.
      if \<not> probe then io_return (result, False)
      else (\<lambda>w.
        (case probeServer (dc_bundle decoded) (im_CAPath result) (floor_max probeTimeoutSeconds 1 * second) w of
           (Inl e, w1) \<Rightarrow> (Inr (result\<lparr>im_ProbeAttempted := True, im_ProbeError := err_Error e\<rparr>, True), w1)
         | (Inr _, w1) \<Rightarrow> (Inr (result\<lparr>im_ProbeAttempted := True, im_ProbeOK := True\<rparr>, False), w1))))))"

end
