(* ===== verification/AccessLaws.thy ===== *)
theory AccessLaws
  imports AccessBundle RestoreLaws
begin

text \<open>
  The bundle of a device on its way from the server to the client: normal forms, the import of what
  was issued, and the files an import leaves.
\<close>

section \<open>Slugs\<close>

definition slug_char :: "char \<Rightarrow> bool" where
  "slug_char c \<longleftrightarrow> CHR ''a'' \<le> c \<and> c \<le> CHR ''z'' \<or> CHR ''0'' \<le> c \<and> c \<le> CHR ''9''"

fun single_dashes :: "bool \<Rightarrow> string \<Rightarrow> bool" where
  "single_dashes lastDash [] = True"
| "single_dashes lastDash (c # cs) =
    (if slug_char c then single_dashes False cs else c = CHR ''-'' \<and> \<not> lastDash \<and> single_dashes True cs)"

definition is_slug :: "string \<Rightarrow> bool" where
  "is_slug s \<longleftrightarrow> single_dashes False s \<and> (s \<noteq> [] \<longrightarrow> hd s \<noteq> CHR ''-'' \<and> last s \<noteq> CHR ''-'')"

lemma single_dashes_runes: "single_dashes b (slug_runes b s)"
  by (induction b s rule: slug_runes.induct) (auto simp: slug_char_def)

lemma slug_runes_id: "single_dashes b s \<Longrightarrow> slug_runes b s = s"
  by (induction b s rule: single_dashes.induct) (auto simp: slug_char_def split: if_splits)

lemma single_dashes_append: "single_dashes b (s @ t) \<Longrightarrow> single_dashes b s"
  by (induction b s rule: single_dashes.induct) (auto split: if_splits)

lemma single_dashes_weaken: "single_dashes True s \<Longrightarrow> single_dashes False s"
  by (cases s) (auto split: if_splits)

lemma single_dashes_dropWhile: "single_dashes b s \<Longrightarrow> single_dashes False (dropWhile P s)"
  by (induction b s rule: single_dashes.induct) (auto split: if_splits dest: single_dashes_weaken)

lemma single_dashes_trim: "single_dashes b s \<Longrightarrow> single_dashes False (strings_Trim s cutset)"
proof -
  assume s: "single_dashes b s"
  let ?P = "\<lambda>c. c \<in> set cutset"
  obtain t where t: "trim_left ?P s = strings_Trim s cutset @ t"
    using trim_right_prefix [of "trim_left ?P s" ?P] unfolding strings_Trim_def by blast
  have "single_dashes False (trim_left ?P s)" using single_dashes_dropWhile [OF s] by (simp add: trim_left_def)
  with t single_dashes_append show ?thesis by simp
qed

lemma trim_ends:
  assumes "strings_Trim s cutset \<noteq> []"
  shows "hd (strings_Trim s cutset) \<notin> set cutset \<and> last (strings_Trim s cutset) \<notin> set cutset"
proof -
  let ?P = "\<lambda>c. c \<in> set cutset"
  have l: "trim_left ?P (strings_Trim s cutset) = strings_Trim s cutset" unfolding strings_Trim_def by (rule trim_left_trim_right)
  have r: "trim_right ?P (strings_Trim s cutset) = strings_Trim s cutset" unfolding strings_Trim_def by (rule trim_right_idem)
  have "\<not> ?P (hd (strings_Trim s cutset))" using l assms unfolding trim_left_def by (metis hd_dropWhile)
  moreover have "\<not> ?P (hd (rev (strings_Trim s cutset)))"
    using r assms unfolding trim_right_def by (metis hd_dropWhile rev_is_Nil_conv rev_rev_ident)
  ultimately show ?thesis using assms by (simp add: hd_rev)
qed

lemma normalizeSlug_is_slug: "is_slug (normalizeSlug s)"
proof -
  have "is_slug (strings_Trim (slug_runes False v) ''-'')" for v
    using single_dashes_trim [OF single_dashes_runes] trim_ends by (fastforce simp: is_slug_def)
  then show ?thesis by (simp add: normalizeSlug_def Let_def is_slug_def)
qed

lemma slug_lower: "single_dashes b s \<Longrightarrow> strings_ToLower s = s"
proof (induction b s rule: single_dashes.induct)
  case (2 b c cs)
  then have "lower_char c = c" by (auto simp: slug_char_def lower_char_def less_eq_char_def split: if_splits)
  with 2 show ?case by (auto simp: strings_ToLower_def split: if_splits)
qed (simp add: strings_ToLower_def)

lemma trim_id:
  assumes "s \<noteq> [] \<longrightarrow> \<not> P (hd s) \<and> \<not> P (last s)" shows "trim_right P (trim_left P s) = s"
proof (cases s)
  case (Cons c cs)
  with assms have "trim_left P s = s" by (simp add: trim_left_def)
  moreover have "dropWhile P (rev s) = rev s"
    unfolding dropWhile_eq_self_iff hd_rev using assms by auto
  then have "trim_right P s = s" by (simp add: trim_right_def)
  ultimately show ?thesis by simp
qed (simp add: trim_left_def trim_right_def)

lemma single_dashes_chars: "single_dashes b s \<Longrightarrow> c \<in> set s \<Longrightarrow> slug_char c \<or> c = CHR ''-''"
  by (induction b s rule: single_dashes.induct) (auto split: if_splits)

lemma normalizeSlug_id: "is_slug s \<Longrightarrow> normalizeSlug s = s"
proof -
  assume s: "is_slug s"
  have "\<not> is_space c" if "c \<in> set s" for c
    using that s single_dashes_chars [of False s c] by (auto simp: is_slug_def slug_char_def is_space_def less_eq_char_def)
  then have "strings_TrimSpace s = s" unfolding strings_TrimSpace_def by (intro trim_id) simp
  moreover have "strings_ToLower s = s" "slug_runes False s = s"
    using s slug_lower [of False s] slug_runes_id [of False s] by (simp_all add: is_slug_def)
  moreover have "strings_Trim s ''-'' = s" unfolding strings_Trim_def by (rule trim_id) (use s in \<open>simp add: is_slug_def\<close>)
  ultimately show ?thesis by (simp add: normalizeSlug_def)
qed

lemma normalizeSlug_idem [simp]: "normalizeSlug (normalizeSlug s) = normalizeSlug s"
  by (rule normalizeSlug_id [OF normalizeSlug_is_slug])

lemma slug_default_idem [simp]:
  "normalizeSlugWithDefault (normalizeSlugWithDefault s f) f = normalizeSlugWithDefault s f"
  by (simp add: normalizeSlugWithDefault_def)

lemma nonZero_idem [simp]: "nonZeroUint32 (nonZeroUint32 v f) f = nonZeroUint32 v f"
  by (simp add: nonZeroUint32_def)

lemma Normalize_idem [simp]: "Bundle_Normalize (Bundle_Normalize b) = Bundle_Normalize b"
  by (simp add: Bundle_Normalize_def Let_def)

section \<open>From the server to the client\<close>

text \<open>
  What the program relies on: printing a file bundle and reading it back gives it back, with valid
  raw JSON of the same value, which can be printed again; the empty text is no JSON.
\<close>

definition json_ok :: "codecs \<Rightarrow> (string \<Rightarrow> string) \<Rightarrow> bool" where
  "json_ok C json_Compact \<longleftrightarrow> \<not> co_Valid C [] \<and>
    (\<forall>f s. co_MarshalIndent C f = Inr s \<longrightarrow> s \<noteq> [] \<and>
      (\<exists>j. co_UnmarshalBundle C s = Inr (f\<lparr>fb_OverlayJoinConfig := j\<rparr>) \<and> co_Valid C j
        \<and> json_Compact j = json_Compact (fb_OverlayJoinConfig f)
        \<and> (\<exists>s'. co_MarshalIndent C (f\<lparr>fb_OverlayJoinConfig := j\<rparr>) = Inr s')))"

lemma bundle_of_file [simp]: "bundle_of_file (file_of_bundle b) = b"
  by (simp add: bundle_of_file_def file_of_bundle_def Let_def)

definition with_config :: "string \<Rightarrow> Bundle \<Rightarrow> Bundle" where
  "with_config j b = b\<lparr>bu_Overlay := (bu_Overlay b)\<lparr>ov_JoinConfig := j\<rparr>\<rparr>"

lemma file_with_config: "(file_of_bundle b)\<lparr>fb_OverlayJoinConfig := j\<rparr> = file_of_bundle (with_config j b)"
  by (simp add: file_of_bundle_def with_config_def Let_def)

lemma Normalize_with_config: "j \<noteq> [] \<Longrightarrow> Bundle_Normalize (with_config j b) = with_config j (Bundle_Normalize b)"
  by (simp add: Bundle_Normalize_def with_config_def Let_def)

lemma Validate_with_config:
  assumes "Bundle_Validate C b = Inr ()" and "co_Valid C j" and "j \<noteq> []"
  shows "Bundle_Validate C (with_config j b) = Inr ()"
  using assms by (simp add: Bundle_Validate_def Normalize_with_config Let_def split: if_splits)
    (simp_all add: with_config_def)

lemma printed_bundle_is_read:
  assumes J: "json_ok C json_Compact" and M: "MarshalJSONFile C b = Inr s"
  obtains j s' where "parseBundleJSON C s = Inr (with_config j (Bundle_Normalize b), bytes_of s')"
    and "json_Compact j = json_Compact (ov_JoinConfig (bu_Overlay (Bundle_Normalize b)))"
    and "MarshalJSONFile C (with_config j (Bundle_Normalize b)) = Inr s'"
proof -
  let ?n = "Bundle_Normalize b"
  have n: "Bundle_Validate C ?n = Inr ()" "co_MarshalIndent C (file_of_bundle ?n) = Inr s"
    using M by (simp_all add: MarshalJSONFile_def Let_def split: sum.splits)
  from J n(2) obtain j s' where j: "s \<noteq> []" "co_UnmarshalBundle C s = Inr (file_of_bundle (with_config j ?n))" "co_Valid C j"
    "json_Compact j = json_Compact (fb_OverlayJoinConfig (file_of_bundle ?n))"
    "co_MarshalIndent C (file_of_bundle (with_config j ?n)) = Inr s'"
    unfolding json_ok_def by (metis file_with_config)
  have "j \<noteq> []" using j(3) J unfolding json_ok_def by blast
  with n(1) j have v: "Bundle_Normalize (with_config j ?n) = with_config j ?n" "Bundle_Validate C (with_config j ?n) = Inr ()"
    using Validate_with_config by (simp_all add: Normalize_with_config)
  then have m: "MarshalJSONFile C (with_config j ?n) = Inr s'" using j(5) by (simp add: MarshalJSONFile_def)
  have "parseBundleJSON C s = Inr (with_config j ?n, bytes_of s')"
    using j(1,2) v m by (simp add: parseBundleJSON_def Let_def)
  with j(4) m show thesis using that by (simp add: file_of_bundle_def Let_def)
qed

text \<open>White space inside a code is ignored.\<close>

definition letters :: "string \<Rightarrow> string" where
  "letters s = filter (\<lambda>c. \<not> is_space c) s"

lemma Join_Nil: "strings_Join ws [] = concat ws"
  by (induction ws "[] :: string" rule: strings_Join.induct) simp_all

lemma Fields_letters: "concat (strings_Fields s) = letters s"
proof (induction s rule: strings_Fields.induct)
  case (2 c s)
  let ?P = "\<lambda>x. \<not> is_space x"
  have "letters s = letters (takeWhile ?P s) @ letters (dropWhile ?P s)"
    by (simp add: letters_def flip: filter_append)
  also have "letters (takeWhile ?P s) = takeWhile ?P s" by (simp add: letters_def filter_id_conv) (blast dest: set_takeWhileD)
  finally show ?case using 2 by (simp add: letters_def)
qed (simp add: letters_def)

lemma letters_append [simp]: "letters (s @ t) = letters s @ letters t"
  by (simp add: letters_def)

lemma letters_trim [simp]: "letters (strings_TrimSpace s) = letters s"
proof -
  obtain t where t: "trim_left is_space s = strings_TrimSpace s @ t" "\<forall>c\<in>set t. is_space c"
    using trim_right_prefix [of "trim_left is_space s" is_space] unfolding strings_TrimSpace_def by blast
  have "letters t = []" using t(2) by (simp add: letters_def filter_empty_conv)
  moreover have "letters (trim_left is_space s) = letters s"
    by (induction s) (auto simp: letters_def trim_left_def)
  ultimately show ?thesis using t(1) by (metis append_Nil2 filter_append letters_def)
qed

lemma code_letters: "strings_Join (strings_Fields (strings_TrimSpace raw)) [] = letters raw"
  by (simp add: Join_Nil Fields_letters)

lemma extract_letters: "letters raw = letters raw' \<Longrightarrow> extractEncodedPayload C raw = extractEncodedPayload C raw'"
  by (simp add: extractEncodedPayload_def code_letters)

lemma decode_letters: "letters raw = letters raw' \<Longrightarrow> decodeConnectionCode C raw = decodeConnectionCode C raw'"
  using extract_letters [of raw raw' C] by (simp add: decodeConnectionCode_def)

text \<open>The bundle of the answer, as the client sees it.\<close>

definition bundle_of_answer :: "string \<Rightarrow> JoinBundle \<Rightarrow> Bundle" where
  "bundle_of_answer config j =
    \<lparr>bu_Version = jo_Version j, bu_Overlay = \<lparr>ov_Provider = jo_OverlayProvider j, ov_JoinConfig = config\<rparr>,
     bu_ServiceDiscovery = \<lparr>sv_Mode = jo_ServiceDiscoveryMode j, sv_Host = jo_ServiceHost j, sv_Port = jo_ServicePort j,
       sv_UseTLS = jo_UseTls j, sv_TLSServerName = jo_TlsServerName j\<rparr>,
     bu_Roodox = \<lparr>ro_ServerID = jo_ServerId j, ro_DeviceGroup = jo_DeviceGroup j, ro_SharedSecret = jo_SharedSecret j,
       ro_DeviceID = jo_DeviceId j, ro_DeviceName = jo_DeviceName j, ro_DeviceRole = jo_DeviceRole j\<rparr>\<rparr>"

lemma coalesce_trimmed [simp]: "strings_TrimSpace (coalesceNonEmpty vs) = coalesceNonEmpty vs"
  by (induction vs) simp_all

lemma answer_shape:
  assumes "IssueJoinBundle C cfg req = Inr resp"
    and "strings_TrimSpace (cp_ServerID cfg) = cp_ServerID cfg"
    and "strings_TrimSpace (jb_SharedSecret (cp_JoinBundle cfg)) = jb_SharedSecret (cp_JoinBundle cfg)"
  shows "MarshalJSONFile C (Bundle_Normalize (issued_model cfg req)) = Inr (ir_BundleJson resp)"
    and "with_config j (Bundle_Normalize (issued_model cfg req)) = bundle_of_answer j (ir_Bundle resp)"
    and "ov_JoinConfig (bu_Overlay (Bundle_Normalize (issued_model cfg req))) = jo_OverlayJoinConfigJson (ir_Bundle resp)"
proof -
  define n where "n = Bundle_Normalize (issued_model cfg req)"
  have *: "MarshalJSONFile C n = Inr (ir_BundleJson resp) \<and> ir_Bundle resp
      = \<lparr>jo_Version = bu_Version n, jo_OverlayProvider = ov_Provider (bu_Overlay n),
         jo_OverlayJoinConfigJson = ov_JoinConfig (bu_Overlay n),
         jo_ServiceDiscoveryMode = sv_Mode (bu_ServiceDiscovery n), jo_ServiceHost = sv_Host (bu_ServiceDiscovery n),
         jo_ServicePort = sv_Port (bu_ServiceDiscovery n), jo_UseTls = sv_UseTLS (bu_ServiceDiscovery n),
         jo_TlsServerName = sv_TLSServerName (bu_ServiceDiscovery n), jo_ServerId = cp_ServerID cfg,
         jo_DeviceGroup = coalesceNonEmpty [ij_DeviceGroup req, cp_DefaultDeviceGroup cfg],
         jo_SharedSecret = jb_SharedSecret (cp_JoinBundle cfg), jo_DeviceId = strings_TrimSpace (ij_DeviceId req),
         jo_DeviceName = strings_TrimSpace (ij_DeviceName req), jo_DeviceRole = strings_TrimSpace (ij_DeviceRole req)\<rparr>"
    using assms(1) unfolding IssueJoinBundle_def Let_def n_def [symmetric] by (auto split: if_split_asm sum.splits)
  then show "MarshalJSONFile C (Bundle_Normalize (issued_model cfg req)) = Inr (ir_BundleJson resp)"
    "ov_JoinConfig (bu_Overlay (Bundle_Normalize (issued_model cfg req))) = jo_OverlayJoinConfigJson (ir_Bundle resp)"
    by (simp_all add: n_def)
  have "bu_Roodox n = \<lparr>ro_ServerID = cp_ServerID cfg, ro_DeviceGroup = coalesceNonEmpty [ij_DeviceGroup req, cp_DefaultDeviceGroup cfg],
      ro_SharedSecret = jb_SharedSecret (cp_JoinBundle cfg), ro_DeviceID = strings_TrimSpace (ij_DeviceId req),
      ro_DeviceName = strings_TrimSpace (ij_DeviceName req), ro_DeviceRole = strings_TrimSpace (ij_DeviceRole req)\<rparr>"
    using assms(2,3) by (simp add: n_def Bundle_Normalize_def issued_model_def Let_def del: coalesceNonEmpty.simps)
  with * show "with_config j (Bundle_Normalize (issued_model cfg req)) = bundle_of_answer j (ir_Bundle resp)"
    unfolding n_def [symmetric] by (simp add: with_config_def bundle_of_answer_def)
qed

lemma normalized_config_trimmed:
  "strings_TrimSpace (cp_ServerID (normalizeControlPlaneConfig cfg)) = cp_ServerID (normalizeControlPlaneConfig cfg)"
  "strings_TrimSpace (jb_SharedSecret (cp_JoinBundle (normalizeControlPlaneConfig cfg)))
    = jb_SharedSecret (cp_JoinBundle (normalizeControlPlaneConfig cfg))"
  by (simp_all add: normalizeControlPlaneConfig_def normalizeJoinBundle_def Let_def)


section \<open>The files of an import\<close>

lemma os_WriteFile_done:
  assumes "os_WriteFile (at_path (D @ [n])) d w = (Inr u, w')" and "plain_elems (D @ [n])"
  shows "lookup_node (w_fs w') (D @ [n]) = Inr (File d (w_clock w))" and "w_clock w' = w_clock w"
proof -
  have key: "path_elems (at_path (D @ [n])) = D @ [n]" by (rule at_path_elems [OF assms(2)])
  have w': "w_fs w' = tree_put (D @ [n]) (File d (w_clock w)) (w_fs w)" "w_clock w' = w_clock w"
    and "walk_dirs (w_fs w) [] D = None"
    using with_fault_Inr [OF assms(1) [unfolded os_WriteFile_def key]]
    by (auto simp: open_target_def split: sum.splits option.splits node.splits)
  have "walk_dirs (w_fs w') [] D = walk_dirs (w_fs w) [] D"
    unfolding w' by (rule walk_dirs_cong) (auto simp: tree_get_put prefix_def)
  with w' \<open>walk_dirs (w_fs w) [] D = None\<close>
  show "lookup_node (w_fs w') (D @ [n]) = Inr (File d (w_clock w))" "w_clock w' = w_clock w"
    by (simp_all add: lookup_node_def tree_get_put)
qed

lemma lookup_node_touches:
  assumes "lookup_node (w_fs w) k = Inr n" and "touches K w w'" and "\<And>k'. prefix k' k \<Longrightarrow> k' \<notin> K"
  shows "lookup_node (w_fs w') k = Inr n"
  using assms lookup_node_cong [of k "w_fs w'" "w_fs w"] by (simp add: touches_def)

lemma at_path_trimmed:
  assumes "n \<noteq> []" and "\<not> is_space (last n)" shows "strings_TrimSpace (at_path (D @ [n])) = at_path (D @ [n])"
proof -
  have "strings_Join (D @ [n]) ''/'' \<noteq> [] \<and> last (strings_Join (D @ [n]) ''/'') = last n" for D
    using assms(1) by (induction D) (simp_all add: Join_Cons last_append)
  then have "last (at_path (D @ [n])) = last n" "hd (at_path (D @ [n])) = CHR ''/''"
    by (simp_all add: render_path_def)
  moreover have "\<not> is_space (CHR ''/'')" by (simp add: is_space_def)
  ultimately show ?thesis unfolding strings_TrimSpace_def by (intro trim_id) (simp add: assms(2))
qed

lemma text_bytes [simp]: "text_of (bytes_of s) = s"
  by (simp add: text_of_def bytes_of_def comp_def)

abbreviation import_names :: "string set" where
  "import_names \<equiv> {connectionCodeName, bundleFileName, caFileName}"

lemma write_one:
  assumes "tree_ok (w_fs w)" and "plain_elems (D @ [n])" and "os_WriteFile (at_path (D @ [n])) d w = (Inr u, w')"
  shows "lookup_node (w_fs w') (D @ [n]) = Inr (File d (w_clock w))" and "touches {D @ [n]} w w'" and "tree_ok (w_fs w')"
proof -
  have "safe_io {D @ [n]} (os_WriteFile (at_path (D @ [n])) d)"
    by (rule os_WriteFile_safe) (use assms(2) at_path_elems in simp_all)
  from safe_run [OF this assms(3,1)] show "touches {D @ [n]} w w'" "tree_ok (w_fs w')" by simp_all
qed (rule os_WriteFile_done [OF assms(3,2)])

text \<open>
  Claim C35. An import leaves what it decoded, and can be repeated from what it left. Whatever calls
  fail on the way, when \<open>writeImportArtifacts\<close> succeeds, the bundle file holds the printed bundle,
  the certificate file the certificate if there is one, every other path outside the three files and
  the directories above them is as it was, and loading the connection code from the file it left
  gives a code that decodes to the same result.
\<close>

theorem import_leaves_what_it_decoded:
  assumes D: "plain_elems D" "strings_TrimSpace outputDir = at_path D" and ok: "tree_ok (w_fs w)"
    and run: "writeImportArtifacts getwd outputDir raw decoded w = (Inr result, w')"
  shows "im_BundlePath result = at_path (D @ [bundleFileName])
    \<and> (\<exists>m. lookup_node (w_fs w') (D @ [bundleFileName]) = Inr (File (dc_bundleJSON decoded) m))
    \<and> (dc_caPEM decoded \<noteq> [] \<longrightarrow> im_CAPath result = at_path (D @ [caFileName])
        \<and> (\<exists>m. lookup_node (w_fs w') (D @ [caFileName]) = Inr (File (bytes_of (dc_caPEM decoded)) m)))
    \<and> (\<forall>k. \<not> prefix k D \<and> k \<notin> (\<lambda>n. D @ [n]) ` import_names \<longrightarrow> tree_get (w_fs w') k = tree_get (w_fs w) k)
    \<and> (\<exists>code. loadConnectionCode [] (im_ConnectionCode result) (w'\<lparr>w_faults := []\<rparr>) = (Inr code, w'\<lparr>w_faults := []\<rparr>)
        \<and> decodeConnectionCode C code = decodeConnectionCode C raw)"
proof -
  have abs: "filepath_Abs getwd (at_path D) = Inr (at_path D)"
    using D(1) by (simp add: filepath_Abs_def IsAbs_render clean_form_plain)
  have pl: "plain_elems (D @ [n])" if "n \<in> import_names" for n using that D(1) by (auto simp: plain_elem_def)
  have pls: "plain_elems (D @ [connectionCodeName])" "plain_elems (D @ [bundleFileName])" "plain_elems (D @ [caFileName])"
    by (rule pl, simp)+
  have join: "filepath_Join [at_path D, n] = at_path (D @ [n])" if "n \<in> import_names" for n
    using Join_names [of D "[n]"] pl [OF that] by simp
  let ?code = "strings_TrimSpace raw @ [CHR 0x0A]" and ?res = "\<lparr>im_Format = ''roodox:1'', im_OutputDir = at_path D,
      im_ConnectionCode = at_path (D @ [connectionCodeName]), im_BundlePath = at_path (D @ [bundleFileName]),
      im_CAPath = (if dc_caPEM decoded \<noteq> [] then at_path (D @ [caFileName]) else []),
      im_ServiceAddr = bundleServiceAddr (dc_bundle decoded), im_TLSEnabled = sv_UseTLS (bu_ServiceDiscovery (dc_bundle decoded)),
      im_ProbeAttempted = False, im_ProbeOK = False, im_ProbeError = []\<rparr>"
  obtain r1 w1 where 1: "os_MkdirAll (at_path D) w = (r1, w1)" by force
  obtain r2 w2 where 2: "os_WriteFile (at_path (D @ [connectionCodeName])) (bytes_of ?code) w1 = (r2, w2)" by force
  obtain r3 w3 where 3: "os_WriteFile (at_path (D @ [bundleFileName])) (dc_bundleJSON decoded) w2 = (r3, w3)" by force
  obtain r4 w4 where 4: "os_WriteFile (at_path (D @ [caFileName])) (bytes_of (dc_caPEM decoded)) w3 = (r4, w4)" by force
  have r: "\<exists>u. r1 = Inr u" "\<exists>u. r2 = Inr u" "\<exists>u. r3 = Inr u" "dc_caPEM decoded \<noteq> [] \<Longrightarrow> \<exists>u. r4 = Inr u"
    and res: "result = ?res" and w': "w' = (if dc_caPEM decoded \<noteq> [] then w4 else w3)"
    using run D(2) abs 1 2 3 4 join
    by (auto simp: writeImportArtifacts_def io_then_def io_wrap_def io_lift_def io_return_def Let_def split: sum.splits if_splits)
  have s1: "touches {k. prefix k D} w w1" "tree_ok (w_fs w1)"
    using safe_run [OF os_MkdirAll_safe [of "at_path D" "{k. prefix k D}"] 1 ok] D(1) at_path_elems by simp_all
  obtain u2 u3 where u: "r2 = Inr u2" "r3 = Inr u3" using r by blast
  note s2 = write_one [OF s1(2) pls(1) 2 [unfolded u(1)]]
  note s3 = write_one [OF s2(3) pls(2) 3 [unfolded u(2)]]
  have one: "lookup_node (w_fs v') (D @ [n]) = Inr x" if "lookup_node (w_fs v) (D @ [n]) = Inr x" "touches {D @ [n']} v v'" "n \<noteq> n'" for v v' n n' x
    by (rule lookup_node_touches [OF that(1,2)]) (use that(3) in \<open>auto simp: prefix_def\<close>)
  have last: "touches {D @ [caFileName]} w3 w'
      \<and> (dc_caPEM decoded \<noteq> [] \<longrightarrow> lookup_node (w_fs w') (D @ [caFileName]) = Inr (File (bytes_of (dc_caPEM decoded)) (w_clock w3)))"
  proof (cases "dc_caPEM decoded = []")
    case False
    then obtain u4 where u4: "r4 = Inr u4" using r by blast
    have "w' = w4" using w' False by simp
    with write_one [OF s3(3) pls(3) 4 [unfolded u4]] show ?thesis by blast
  qed (simp add: w' touches_def)
  have code: "lookup_node (w_fs w') (D @ [connectionCodeName]) = Inr (File (bytes_of ?code) (w_clock w1))"
    by (rule one [OF one [OF s2(1) s3(2)] last [THEN conjunct1]]) simp_all
  have printed: "lookup_node (w_fs w') (D @ [bundleFileName]) = Inr (File (dc_bundleJSON decoded) (w_clock w2))"
    by (rule one [OF s3(1) last [THEN conjunct1]]) simp
  have frame: "tree_get (w_fs w') k = tree_get (w_fs w) k" if "\<not> prefix k D" "k \<notin> (\<lambda>n. D @ [n]) ` import_names" for k
    using that s1(1) s2 s3 last by (auto simp: touches_def)
  have read: "os_ReadFile (at_path (D @ [connectionCodeName])) (w'\<lparr>w_faults := []\<rparr>) = (Inr (bytes_of ?code), w'\<lparr>w_faults := []\<rparr>)"
    unfolding os_ReadFile_def at_path_elems [OF pls(1)] using code by (simp add: with_fault_def)
  have "loadConnectionCode [] (at_path (D @ [connectionCodeName])) (w'\<lparr>w_faults := []\<rparr>) = (Inr ?code, w'\<lparr>w_faults := []\<rparr>)"
    using at_path_trimmed [of connectionCodeName D] read at_path_ne
    by (simp add: loadConnectionCode_def io_then_def io_wrap_def io_return_def is_space_def Let_def)
  moreover have "decodeConnectionCode C ?code = decodeConnectionCode C raw"
    by (rule decode_letters, simp) (simp add: letters_def is_space_def)
  ultimately show ?thesis using printed last frame res by auto
qed

section \<open>A device joins\<close>

definition join_config :: ControlPlaneConfig where
  "join_config = \<lparr>cp_ServerID = '' srv '', cp_DefaultDeviceGroup = ''team'', cp_HeartbeatIntervalSeconds = 0, cp_DefaultPolicyRevision = 0,
     cp_DefaultAssignedConfig = \<lparr>ac_MountPath = [], ac_SyncRoots = [], ac_ConflictPolicy = [], ac_ReadOnly = False,
       ac_AutoConnect = False, ac_BandwidthLimit = 0, ac_LogLevel = [], ac_LargeFileThreshold = 0\<rparr>,
     cp_JoinBundle = \<lparr>jb_OverlayProvider = ''Tail Scale'', jb_OverlayJoinConfigJSON = [],
       jb_ServiceDiscovery = \<lparr>sd_Mode = [], sd_Host = ''h'', sd_Port = 9, sd_UseTLS = True, sd_TLSServerName = []\<rparr>,
       jb_SharedSecret = ''s''\<rparr>,
     cp_AvailableActions = [], cp_DiagnosticsKeepLatest = 0\<rparr>"

definition join_request :: IssueJoinBundleRequest where
  "join_request = \<lparr>ij_DeviceId = ''d1'', ij_DeviceName = [], ij_DeviceRole = [], ij_DeviceGroup = [], ij_OverlayProvider = [],
     ij_OverlayJoinConfigJson = []\<rparr>"

definition join_file :: fileBundle where
  "join_file = \<lparr>fb_Version = 1, fb_OverlayProvider = ''tail-scale'', fb_OverlayJoinConfig = ''{}'',
     fb_ServiceDiscovery = \<lparr>fd_Mode = ''static'', fd_Host = ''h'', fd_Port = 9, fd_UseTLS = True, fd_TLSServerName = []\<rparr>,
     fb_Roodox = \<lparr>fr_ServerID = ''srv'', fr_DeviceGroup = ''team'', fr_SharedSecret = ''s'', fr_DeviceID = ''d1'', fr_DeviceName = [],
       fr_DeviceRole = []\<rparr>\<rparr>"

definition join_codecs :: codecs where
  "join_codecs = \<lparr>co_Valid = (\<lambda>j. j = ''{}''),
     co_MarshalIndent = (\<lambda>f. if f = join_file then Inr ''bundle'' else Inl (ErrorText ''no'')),
     co_UnmarshalBundle = (\<lambda>s. if s = ''bundle'' then Inr join_file else Inl (ErrorText ''no'')),
     co_UnmarshalEnvelope = (\<lambda>s. if s = ''envelope'' then Inr \<lparr>ce_Version = 1, ce_Bundle = ''bundle'', ce_CAPEM = ''pem''\<rparr>
       else Inl (ErrorText ''no'')),
     co_Base64 = (\<lambda>s. Inr s), co_PayloadOfURI = (\<lambda>s. Inr s)\<rparr>"

lemma join_codecs_ok: "json_ok join_codecs (\<lambda>j. j)"
  by (auto simp: json_ok_def join_codecs_def join_file_def split: if_splits)

definition join_code :: string where
  "join_code = '' roodox:1: enve lope ''"


definition join_world :: world where
  "join_world = quiet_world [([''c''], Directory 0)] empty_db"

definition joined :: decodedConnectionCode where
  "joined = \<lparr>dc_bundle = bundle_of_file join_file, dc_bundleJSON = bytes_of ''bundle'', dc_caPEM = ''pem''\<rparr>"

theorem import_leaves_what_it_decoded_witness:
  "\<exists>result w' m. writeImportArtifacts (Inl (ErrorText ''no'')) ''/c'' join_code joined join_world = (Inr result, w')
    \<and> lookup_node (w_fs w') ([''c''] @ [bundleFileName]) = Inr (File (bytes_of ''bundle'') m)"
proof -
  have "case writeImportArtifacts (Inl (ErrorText ''no'')) ''/c'' join_code joined join_world of (Inl e, w') \<Rightarrow> False | (Inr r, w') \<Rightarrow> True"
    by code_simp
  then obtain result w' where run: "writeImportArtifacts (Inl (ErrorText ''no'')) ''/c'' join_code joined join_world = (Inr result, w')"
    by (auto split: sum.splits prod.splits)
  have "tree_ok (w_fs join_world)" "plain_elems [''c'']" "strings_TrimSpace ''/c'' = at_path [''c'']"
    by (simp_all add: join_world_def tree_ok_def plain_elem_def) code_simp
  from import_leaves_what_it_decoded [OF this(2,3,1) run] run show ?thesis by (auto simp: joined_def)
qed

end
