(* ===== verification/AdminRuntime.thy ===== *)
theory AdminRuntime
  imports DbMaintenance ServerConfig Observability AdminConsole
begin

text \<open>
  What the console sees of the running process: the snapshots of \<open>internal/server/admin_runtime.go\<close>,
  their providers in \<open>internal/serverapp/runtime_admin.go\<close>, \<open>Path\<close>, \<open>Ping\<close> and \<open>Stats\<close> of
  \<open>internal/db/db.go\<close>, and the handlers of \<open>internal/server/admin_console_service.go\<close> that pass them
  on. A nil runtime is \<open>None\<close>; so is the zero time of a shutdown that was not requested.
\<close>

section \<open>Files of the database\<close>

record FileStat =
  fs_Path :: string
  fs_Exists :: bool
  fs_SizeBytes :: int
  fs_ModifiedAtUnix :: int

definition stat_size :: "int \<Rightarrow> node \<Rightarrow> int" where
  "stat_size dirSize n = (case n of File d m \<Rightarrow> int (length d) | Directory m \<Rightarrow> dirSize)"

definition fileStat :: "int \<Rightarrow> string \<Rightarrow> world \<Rightarrow> FileStat \<times> world" where
  "fileStat dirSize path w =
    (case os_Stat path w of
       (Inl e, w1) \<Rightarrow> (\<lparr>fs_Path = path, fs_Exists = False, fs_SizeBytes = 0, fs_ModifiedAtUnix = 0\<rparr>, w1)
     | (Inr info, w1) \<Rightarrow>
         (\<lparr>fs_Path = path, fs_Exists = True, fs_SizeBytes = stat_size dirSize info,
           fs_ModifiedAtUnix = time_Unix (node_mtime info)\<rparr>, w1))"

record Stats =
  st_DBFile :: FileStat
  st_WALFile :: FileStat
  st_SHMFile :: FileStat

definition DB_Stats :: "int \<Rightarrow> string \<Rightarrow> world \<Rightarrow> Stats \<times> world" where
  "DB_Stats dirSize path w =
    (case fileStat dirSize path w of
       (db, w1) \<Rightarrow>
       (case fileStat dirSize (path @ ''-wal'') w1 of
          (wal, w2) \<Rightarrow>
          (case fileStat dirSize (path @ ''-shm'') w2 of
             (shm, w3) \<Rightarrow> (\<lparr>st_DBFile = db, st_WALFile = wal, st_SHMFile = shm\<rparr>, w3))))"

section \<open>Snapshots\<close>

record FileStatSnapshot =
  ff_Path :: string
  ff_Exists :: bool
  ff_SizeBytes :: int
  ff_ModifiedAtUnix :: int

definition fileStatToSnapshot :: "FileStat \<Rightarrow> FileStatSnapshot" where
  "fileStatToSnapshot item =
    \<lparr>ff_Path = fs_Path item, ff_Exists = fs_Exists item, ff_SizeBytes = fs_SizeBytes item,
     ff_ModifiedAtUnix = fs_ModifiedAtUnix item\<rparr>"

record ServerShutdownSnapshot =
  ss_Accepted :: bool
  ss_AlreadyInProgress :: bool
  ss_RequestedAtUnix :: int
  ss_Message :: string

record ServerRuntimeSnapshot =
  sr_ServerID :: string
  sr_ListenAddr :: string
  sr_RootDir :: string
  sr_DBPath :: string
  sr_TLSEnabled :: bool
  sr_AuthEnabled :: bool
  sr_StartedAtUnix :: int
  sr_HealthState :: string
  sr_HealthMessage :: string
  sr_DBFile :: FileStatSnapshot
  sr_WALFile :: FileStatSnapshot
  sr_SHMFile :: FileStatSnapshot
  sr_Checkpoint :: DatabaseCheckpointSnapshot
  sr_Backup :: DatabaseBackupSnapshot

record ServerObservabilitySnapshot =
  so_FileRangeWriteCalls :: int
  so_FileRangeWriteBytes :: int
  so_FileRangeWriteConflicts :: int
  so_SmallWriteBursts :: int
  so_SmallWriteHotPaths :: "(string \<times> int) list"
  so_BuildSuccessCount :: int
  so_BuildFailureCount :: int
  so_BuildLogBytes :: int
  so_BuildQueueWait :: DurationStats
  so_BuildDuration :: DurationStats
  so_RPCMetrics :: "RPCLatency list"

section \<open>The runtime as a provider\<close>

text \<open>
  The fields that the console reads and writes. \<open>run_pendingStops\<close> are the goroutines that will
  call \<open>Stop\<close>, by the time at which they do.
\<close>

record Runtime =
  run_lis :: "string option"
  run_database :: sqlite
  run_metrics :: "Recorder option"
  run_dbMaint :: "maintenance option"
  run_running :: bool
  run_lastErr :: string
  run_cfg :: Config
  run_startedAt :: gotime
  run_shutdownAt :: "gotime option"
  run_shutdownMsg :: string
  run_pendingStops :: "gotime list"

text \<open>The environment, the host name, the ping of the database and the size of a directory are parameters.\<close>

record runtime_env =
  re_getenv :: "string \<Rightarrow> string"
  re_hostname :: "string result"
  re_Ping :: "unit io"
  re_DirSize :: int

definition no_checkpoint :: DatabaseCheckpointSnapshot where
  "no_checkpoint = \<lparr>cs_Mode = [], cs_LastCheckpointAtUnix = 0, cs_BusyReaders = 0, cs_LogFrames = 0,
     cs_CheckpointedFrames = 0, cs_LastError = []\<rparr>"

definition no_backup :: DatabaseBackupSnapshot where
  "no_backup = \<lparr>bs_Dir = [], bs_IntervalSeconds = 0, bs_KeepLatest = 0, bs_LastBackupAtUnix = 0,
     bs_LastBackupPath = [], bs_LastError = []\<rparr>"

definition maintenance_Snapshot :: "maintenance option \<Rightarrow> DatabaseCheckpointSnapshot \<times> DatabaseBackupSnapshot" where
  "maintenance_Snapshot m = (case m of None \<Rightarrow> (no_checkpoint, no_backup) | Some m \<Rightarrow> (mm_checkpoint m, mm_backup m))"

definition health :: "bool \<Rightarrow> string \<Rightarrow> string \<times> string" where
  "health running lastErr =
    (if \<not> running then (''stopped'', ''runtime is not running'')
     else if lastErr \<noteq> [] then (''degraded'', lastErr)
     else (''serving'', ''ok''))"

definition GetServerRuntimeSnapshot :: "runtime_env \<Rightarrow> Runtime option \<Rightarrow> ServerRuntimeSnapshot io" where
  "GetServerRuntimeSnapshot E ro w =
    (case ro of
       None \<Rightarrow> (Inl (ErrorText ''runtime is not initialized''), w)
     | Some r \<Rightarrow>
       (let cfg = run_cfg r; path = sq_path (run_database r) in
        case DB_Stats (re_DirSize E) path w of
          (stats, w1) \<Rightarrow>
          (case re_Ping E w1 of
             (ping, w2) \<Rightarrow>
             (let lastErr = (case ping of Inl e \<Rightarrow> if run_lastErr r = [] then err_Error e else run_lastErr r | Inr _ \<Rightarrow> run_lastErr r) in
              (Inr \<lparr>sr_ServerID = cp_ServerID (BuildControlPlaneConfig (re_getenv E) (re_hostname E) cfg),
                 sr_ListenAddr = (case run_lis r of None \<Rightarrow> c_Addr cfg | Some a \<Rightarrow> a),
                 sr_RootDir = c_RootDir cfg, sr_DBPath = path, sr_TLSEnabled = c_TLSEnabled cfg,
                 sr_AuthEnabled = c_AuthEnabled cfg, sr_StartedAtUnix = time_Unix (run_startedAt r),
                 sr_HealthState = fst (health (run_running r) lastErr), sr_HealthMessage = snd (health (run_running r) lastErr),
                 sr_DBFile = fileStatToSnapshot (st_DBFile stats), sr_WALFile = fileStatToSnapshot (st_WALFile stats),
                 sr_SHMFile = fileStatToSnapshot (st_SHMFile stats),
                 sr_Checkpoint = fst (maintenance_Snapshot (run_dbMaint r)),
                 sr_Backup = snd (maintenance_Snapshot (run_dbMaint r))\<rparr>, w2)))))"

definition GetServerObservabilitySnapshot :: "Runtime option \<Rightarrow> ServerObservabilitySnapshot result" where
  "GetServerObservabilitySnapshot ro =
    (case Option.bind ro run_metrics of
       None \<Rightarrow> Inl (ErrorText ''observability recorder is not initialized'')
     | Some m \<Rightarrow>
       (let snap = Recorder_Snapshot m in
        Inr \<lparr>so_FileRangeWriteCalls = sn_RangeWriteCalls snap, so_FileRangeWriteBytes = sn_RangeWriteBytes snap,
          so_FileRangeWriteConflicts = sn_RangeWriteConflictCalls snap, so_SmallWriteBursts = sn_SmallWriteBursts snap,
          so_SmallWriteHotPaths = sn_SmallWriteHotPaths snap, so_BuildSuccessCount = sn_BuildSuccessCount snap,
          so_BuildFailureCount = sn_BuildFailureCount snap, so_BuildLogBytes = sn_BuildLogBytes snap,
          so_BuildQueueWait = sn_BuildQueueWait snap, so_BuildDuration = sn_BuildDuration snap,
          so_RPCMetrics = sn_RPCLatencies snap\<rparr>))"

definition TriggerServerBackup :: "Runtime option \<Rightarrow> world \<Rightarrow> DatabaseBackupSnapshot result \<times> Runtime option \<times> world" where
  "TriggerServerBackup ro w =
    (case ro of
       None \<Rightarrow> (Inl (ErrorText ''database maintenance is not configured''), ro, w)
     | Some r \<Rightarrow>
       (case run_dbMaint r of
          None \<Rightarrow> (Inl (ErrorText ''database maintenance is not configured''), ro, w)
        | Some m \<Rightarrow> (case BackupNow m w of (res, m1, w1) \<Rightarrow> (res, Some (r\<lparr>run_dbMaint := Some m1\<rparr>), w1))))"

abbreviation shutdownDelay :: duration where "shutdownDelay \<equiv> 200 * millisecond"

definition RequestServerShutdown :: "string \<Rightarrow> Runtime option \<Rightarrow> world
    \<Rightarrow> ServerShutdownSnapshot result \<times> Runtime option \<times> world" where
  "RequestServerShutdown reason0 ro w =
    (case ro of
       None \<Rightarrow> (Inl (ErrorText ''runtime is not initialized''), ro, w)
     | Some r \<Rightarrow>
       (let reason = (if strings_TrimSpace reason0 = [] then ''admin_console_shutdown'' else strings_TrimSpace reason0) in
        case time_Now w of
          (requestedAt, w1) \<Rightarrow>
          if \<not> run_running r
          then (Inr \<lparr>ss_Accepted = False, ss_AlreadyInProgress = False, ss_RequestedAtUnix = time_Unix requestedAt,
                 ss_Message = (if run_lastErr r \<noteq> [] then run_lastErr r else ''server is not running'')\<rparr>, ro, w1)
          else
            (case run_shutdownAt r of
               Some inFlightAt \<Rightarrow>
                 (Inr \<lparr>ss_Accepted = False, ss_AlreadyInProgress = True, ss_RequestedAtUnix = time_Unix inFlightAt,
                    ss_Message = (if run_shutdownMsg r = [] then ''shutdown already in progress'' else run_shutdownMsg r)\<rparr>, ro, w1)
             | None \<Rightarrow>
                 (Inr \<lparr>ss_Accepted = True, ss_AlreadyInProgress = False, ss_RequestedAtUnix = time_Unix requestedAt,
                    ss_Message = reason\<rparr>,
                  Some (r\<lparr>run_shutdownAt := Some requestedAt, run_shutdownMsg := reason,
                    run_pendingStops := run_pendingStops r @ [requestedAt + shutdownDelay]\<rparr>), w1))))"

section \<open>The handlers\<close>

text \<open>Messages; a message inside a message can be nil.\<close>

record FileStatSummary =
  fm_Path :: string
  fm_Exists :: bool
  fm_SizeBytes :: int
  fm_ModifiedAtUnix :: int

record DatabaseCheckpointStatus =
  kp_LastCheckpointAtUnix :: int
  kp_Mode :: string
  kp_BusyReaders :: int
  kp_LogFrames :: int
  kp_CheckpointedFrames :: int
  kp_LastError :: string

record DatabaseBackupStatus =
  bp_Dir :: string
  bp_IntervalSeconds :: int
  bp_KeepLatest :: int
  bp_LastBackupAtUnix :: int
  bp_LastBackupPath :: string
  bp_LastError :: string

record GetServerRuntimeResponse =
  gr_ServerId :: string
  gr_ListenAddr :: string
  gr_RootDir :: string
  gr_DbPath :: string
  gr_TlsEnabled :: bool
  gr_AuthEnabled :: bool
  gr_StartedAtUnix :: int
  gr_HealthState :: string
  gr_HealthMessage :: string
  gr_DbFile :: "FileStatSummary option"
  gr_WalFile :: "FileStatSummary option"
  gr_ShmFile :: "FileStatSummary option"
  gr_Checkpoint :: "DatabaseCheckpointStatus option"
  gr_Backup :: "DatabaseBackupStatus option"

definition fileStatSnapshotToProto :: "FileStatSnapshot \<Rightarrow> FileStatSummary option" where
  "fileStatSnapshotToProto item =
    Some \<lparr>fm_Path = ff_Path item, fm_Exists = ff_Exists item, fm_SizeBytes = ff_SizeBytes item,
      fm_ModifiedAtUnix = ff_ModifiedAtUnix item\<rparr>"

definition no_provider :: status where
  "no_provider = failedPrecondition ''server runtime provider is not configured''"

definition Admin_GetServerRuntime :: "runtime_env \<Rightarrow> Runtime option \<Rightarrow> GetServerRuntimeResponse rpc" where
  "Admin_GetServerRuntime E ro w =
    (if ro = None then (Inl no_provider, w)
     else
       (case GetServerRuntimeSnapshot E ro w of
          (Inl e, w1) \<Rightarrow> (Inl (toGrpcError e), w1)
        | (Inr snapshot, w1) \<Rightarrow>
          (let c = sr_Checkpoint snapshot; b = sr_Backup snapshot in
           (Inr \<lparr>gr_ServerId = sr_ServerID snapshot, gr_ListenAddr = sr_ListenAddr snapshot, gr_RootDir = sr_RootDir snapshot,
              gr_DbPath = sr_DBPath snapshot, gr_TlsEnabled = sr_TLSEnabled snapshot, gr_AuthEnabled = sr_AuthEnabled snapshot,
              gr_StartedAtUnix = sr_StartedAtUnix snapshot, gr_HealthState = sr_HealthState snapshot,
              gr_HealthMessage = sr_HealthMessage snapshot, gr_DbFile = fileStatSnapshotToProto (sr_DBFile snapshot),
              gr_WalFile = fileStatSnapshotToProto (sr_WALFile snapshot), gr_ShmFile = fileStatSnapshotToProto (sr_SHMFile snapshot),
              gr_Checkpoint = Some \<lparr>kp_LastCheckpointAtUnix = cs_LastCheckpointAtUnix c, kp_Mode = cs_Mode c,
                kp_BusyReaders = cs_BusyReaders c, kp_LogFrames = cs_LogFrames c,
                kp_CheckpointedFrames = cs_CheckpointedFrames c, kp_LastError = cs_LastError c\<rparr>,
              gr_Backup = Some \<lparr>bp_Dir = bs_Dir b, bp_IntervalSeconds = bs_IntervalSeconds b, bp_KeepLatest = bs_KeepLatest b,
                bp_LastBackupAtUnix = bs_LastBackupAtUnix b, bp_LastBackupPath = bs_LastBackupPath b,
                bp_LastError = bs_LastError b\<rparr>\<rparr>, w1))))"

record BuildObservability =
  bo_SuccessCount :: int
  bo_FailureCount :: int
  bo_LogBytes :: int
  bo_QueueWaitCount :: int
  bo_QueueWaitP50Ms :: int
  bo_QueueWaitP95Ms :: int
  bo_QueueWaitP99Ms :: int
  bo_DurationCount :: int
  bo_DurationP50Ms :: int
  bo_DurationP95Ms :: int
  bo_DurationP99Ms :: int

record HotPathMetric =
  hp_Path :: string
  hp_Count :: int

record RpcLatencyMetric =
  rm_Method :: string
  rm_Count :: int
  rm_ErrorCount :: int
  rm_P50Ms :: int
  rm_P95Ms :: int
  rm_P99Ms :: int

record GetServerObservabilityResponse =
  go_WriteFileRangeCalls :: int
  go_WriteFileRangeBytes :: int
  go_WriteFileRangeConflicts :: int
  go_SmallWriteBursts :: int
  go_SmallWriteHotPaths :: "HotPathMetric option list"
  go_Build :: "BuildObservability option"
  go_RpcMetrics :: "RpcLatencyMetric option list"

definition Admin_GetServerObservability :: "Runtime option \<Rightarrow> status + GetServerObservabilityResponse" where
  "Admin_GetServerObservability ro =
    (if ro = None then Inl no_provider
     else
       (case GetServerObservabilitySnapshot ro of
          Inl e \<Rightarrow> Inl (toGrpcError e)
        | Inr s \<Rightarrow>
          (let q = so_BuildQueueWait s; d = so_BuildDuration s in
           Inr \<lparr>go_WriteFileRangeCalls = so_FileRangeWriteCalls s, go_WriteFileRangeBytes = so_FileRangeWriteBytes s,
             go_WriteFileRangeConflicts = so_FileRangeWriteConflicts s, go_SmallWriteBursts = so_SmallWriteBursts s,
             go_SmallWriteHotPaths = map (\<lambda>(p, n). Some \<lparr>hp_Path = p, hp_Count = n\<rparr>) (so_SmallWriteHotPaths s),
             go_Build = Some \<lparr>bo_SuccessCount = so_BuildSuccessCount s, bo_FailureCount = so_BuildFailureCount s,
               bo_LogBytes = so_BuildLogBytes s, bo_QueueWaitCount = du_Count q, bo_QueueWaitP50Ms = du_P50Ms q,
               bo_QueueWaitP95Ms = du_P95Ms q, bo_QueueWaitP99Ms = du_P99Ms q, bo_DurationCount = du_Count d,
               bo_DurationP50Ms = du_P50Ms d, bo_DurationP95Ms = du_P95Ms d, bo_DurationP99Ms = du_P99Ms d\<rparr>,
             go_RpcMetrics = map (\<lambda>m. Some \<lparr>rm_Method = rl_Method m, rm_Count = rl_Count m, rm_ErrorCount = rl_ErrorCount m,
               rm_P50Ms = rl_P50Ms m, rm_P95Ms = rl_P95Ms m, rm_P99Ms = rl_P99Ms m\<rparr>) (so_RPCMetrics s)\<rparr>)))"

record TriggerServerBackupResponse =
  tb_CreatedAtUnix :: int
  tb_Path :: string

definition Admin_TriggerServerBackup :: "Runtime option \<Rightarrow> world
    \<Rightarrow> (status + TriggerServerBackupResponse) \<times> Runtime option \<times> world" where
  "Admin_TriggerServerBackup ro w =
    (if ro = None then (Inl no_provider, ro, w)
     else
       (case TriggerServerBackup ro w of
          (Inl e, ro1, w1) \<Rightarrow> (Inl (toGrpcError e), ro1, w1)
        | (Inr b, ro1, w1) \<Rightarrow> (Inr \<lparr>tb_CreatedAtUnix = bs_LastBackupAtUnix b, tb_Path = bs_LastBackupPath b\<rparr>, ro1, w1)))"

record ShutdownServerResponse =
  sh_Accepted :: bool
  sh_AlreadyInProgress :: bool
  sh_RequestedAtUnix :: int
  sh_Message :: string

definition Admin_ShutdownServer :: "string \<Rightarrow> Runtime option \<Rightarrow> world
    \<Rightarrow> (status + ShutdownServerResponse) \<times> Runtime option \<times> world" where
  "Admin_ShutdownServer reason ro w =
    (if ro = None then (Inl no_provider, ro, w)
     else
       (case RequestServerShutdown reason ro w of
          (Inl e, ro1, w1) \<Rightarrow> (Inl (toGrpcError e), ro1, w1)
        | (Inr s, ro1, w1) \<Rightarrow>
          (Inr \<lparr>sh_Accepted = ss_Accepted s, sh_AlreadyInProgress = ss_AlreadyInProgress s,
             sh_RequestedAtUnix = ss_RequestedAtUnix s, sh_Message = ss_Message s\<rparr>, ro1, w1)))"

end
