(* ===== verification/AdminRuntimeLaws.thy ===== *)
theory AdminRuntimeLaws
  imports AdminRuntime
begin

text \<open>
  The console and the runtime it asks: the interface between them as a locale, interpreted on the
  runtime of the process, and what administrators see of a shutdown and of the state of the server.
\<close>

section \<open>The interface\<close>

text \<open>
  A provider takes a request to shut down while it is open, is closed from then on, and answers
  every later request with the same answer and without a change.
\<close>

locale shutdown_provider =
  fixes request :: "string \<Rightarrow> 'r \<Rightarrow> 'w \<Rightarrow> 'q \<times> 'r \<times> 'w"
    and is_open :: "'r \<Rightarrow> bool"
    and closed_by :: "'q \<Rightarrow> 'r \<Rightarrow> bool"
    and again :: "'q \<Rightarrow> 'q"
  assumes taken: "is_open r \<Longrightarrow> request why r w = (q, r', w') \<Longrightarrow> closed_by q r'"
    and refused: "closed_by q r \<Longrightarrow> request why r w = (q', r', w') \<Longrightarrow> q' = again q \<and> r' = r"

fun serve_all :: "('a \<Rightarrow> 'r \<Rightarrow> 'w \<Rightarrow> 'q \<times> 'r \<times> 'w) \<Rightarrow> 'a list \<Rightarrow> 'r \<Rightarrow> 'w \<Rightarrow> 'q list \<times> 'r \<times> 'w" where
  "serve_all f [] r w = ([], r, w)"
| "serve_all f (x # xs) r w =
    (case f x r w of (q, r1, w1) \<Rightarrow> (case serve_all f xs r1 w1 of (qs, r2, w2) \<Rightarrow> (q # qs, r2, w2)))"

context shutdown_provider begin

lemma all_refused:
  "closed_by q r \<Longrightarrow> serve_all request xs r w = (qs, r', w') \<Longrightarrow> qs = replicate (length xs) (again q) \<and> r' = r"
proof (induction xs arbitrary: w qs w')
  case (Cons x xs)
  obtain q1 r1 w1 where 1: "request x r w = (q1, r1, w1)" by (metis prod.exhaust)
  with refused [OF Cons.prems(1) 1] Cons.prems(2) obtain qs2 where "serve_all request xs r w1 = (qs2, r', w')" "qs = again q # qs2"
    by (auto split: prod.splits)
  with Cons.IH [OF Cons.prems(1) this(1)] show ?case by simp
qed simp

lemma first_taken:
  assumes "is_open r" and "serve_all request (x # xs) r w = (qs, r', w')"
  shows "\<exists>q w1. request x r w = (q, r', w1) \<and> qs = q # replicate (length xs) (again q)"
proof -
  obtain q1 r1 w1 where 1: "request x r w = (q1, r1, w1)" by (metis prod.exhaust)
  with assms(2) obtain qs2 where "serve_all request xs r1 w1 = (qs2, r', w')" "qs = q1 # qs2" by (auto split: prod.splits)
  with all_refused [OF taken [OF assms(1) 1] this(1)] 1 show ?thesis by simp
qed

end

section \<open>The runtime\<close>

definition may_stop :: "Runtime option \<Rightarrow> bool" where
  "may_stop ro \<longleftrightarrow> (\<exists>r. ro = Some r \<and> run_running r \<and> run_shutdownAt r = None)"

definition stopping_since :: "status + ShutdownServerResponse \<Rightarrow> Runtime option \<Rightarrow> bool" where
  "stopping_since q ro \<longleftrightarrow> (\<exists>s r t. q = Inr s \<and> ro = Some r \<and> run_running r \<and> run_shutdownAt r = Some t
    \<and> sh_RequestedAtUnix s = time_Unix t \<and> sh_Message s = run_shutdownMsg r \<and> run_shutdownMsg r \<noteq> [])"

definition in_progress :: "status + ShutdownServerResponse \<Rightarrow> status + ShutdownServerResponse" where
  "in_progress q = (case q of Inl e \<Rightarrow> Inl e | Inr s \<Rightarrow> Inr (s\<lparr>sh_Accepted := False, sh_AlreadyInProgress := True\<rparr>))"

interpretation console: shutdown_provider Admin_ShutdownServer may_stop stopping_since in_progress
proof
  fix r why w q r' w'
  assume "may_stop r" "Admin_ShutdownServer why r w = (q, r', w')"
  then show "stopping_since q r'"
    by (auto simp: may_stop_def stopping_since_def Admin_ShutdownServer_def RequestServerShutdown_def Let_def split: prod.splits if_splits)
next
  fix q r why w q' r' w'
  assume "stopping_since q r" "Admin_ShutdownServer why r w = (q', r', w')"
  then show "q' = in_progress q \<and> r' = r"
    by (auto simp: in_progress_def stopping_since_def Admin_ShutdownServer_def RequestServerShutdown_def split: prod.splits)
qed

section \<open>The properties\<close>

text \<open>
  Claim C33. A running server accepts exactly one request to shut down. However many administrators
  ask and in whatever order, the first is told so, one stop is planned, 200 milliseconds later, and
  everyone else gets the time and the reason of the first.
\<close>

theorem shutdown_accepted_once:
  assumes "run_running r" and "run_shutdownAt r = None"
    and "serve_all Admin_ShutdownServer (reason # reasons) (Some r) w = (qs, ro, w')"
  shows "\<exists>t why r'. qs = Inr \<lparr>sh_Accepted = True, sh_AlreadyInProgress = False, sh_RequestedAtUnix = time_Unix t, sh_Message = why\<rparr>
        # replicate (length reasons) (Inr \<lparr>sh_Accepted = False, sh_AlreadyInProgress = True, sh_RequestedAtUnix = time_Unix t, sh_Message = why\<rparr>)
    \<and> why = (if strings_TrimSpace reason = [] then ''admin_console_shutdown'' else strings_TrimSpace reason)
    \<and> ro = Some r' \<and> run_pendingStops r' = run_pendingStops r @ [t + shutdownDelay] \<and> run_running r'"
proof -
  have "may_stop (Some r)" using assms(1,2) by (simp add: may_stop_def)
  from console.first_taken [OF this assms(3)] obtain q w1
    where 1: "Admin_ShutdownServer reason (Some r) w = (q, ro, w1)" "qs = q # replicate (length reasons) (in_progress q)" by blast
  obtain t v where now: "time_Now w = (t, v)" by force
  show ?thesis using 1 assms(1,2) now
    by (auto simp: Admin_ShutdownServer_def RequestServerShutdown_def in_progress_def Let_def)
qed

text \<open>
  The page of the server tells the truth about its health: it says \<open>serving\<close> exactly when
  the server runs, has no recorded error and its database answers, \<open>stopped\<close> exactly when it does not
  run, and otherwise \<open>degraded\<close> with the recorded error, or the database's when there is none; and
  asking changes nothing of the server.
\<close>

theorem runtime_page_is_truthful:
  assumes "GetServerRuntimeSnapshot E (Some r) w = (res, w')"
    and "DB_Stats (re_DirSize E) (sq_path (run_database r)) w = (stats, v)" and "re_Ping E v = (ping, v')"
  shows "\<exists>s. res = Inr s \<and> w' = v'
    \<and> (sr_HealthState s = ''serving'' \<longleftrightarrow> run_running r \<and> run_lastErr r = [] \<and> (\<forall>e. ping = Inl e \<longrightarrow> err_Error e = []))
    \<and> (sr_HealthState s = ''stopped'' \<longleftrightarrow> \<not> run_running r)
    \<and> (sr_HealthState s = ''degraded'' \<longrightarrow>
        sr_HealthMessage s = (if run_lastErr r \<noteq> [] then run_lastErr r else (case ping of Inl e \<Rightarrow> err_Error e | Inr u \<Rightarrow> [])))"
  using assms by (cases ping) (auto simp: GetServerRuntimeSnapshot_def health_def Let_def)

section \<open>Witnesses\<close>

definition sample_runtime :: Runtime where
  "sample_runtime = \<lparr>run_lis = Some ''127.0.0.1:1'',
     run_database = \<lparr>sq_path = ''/r.db'', sq_wal_checkpoint = (\<lambda>m w. (Inr (0, 0, 0), w)), sq_vacuum_into = (\<lambda>d w. (Inr (), w)),
       sq_stamp = (\<lambda>t. ''2024''), sq_stamp_nano = (\<lambda>t. ''2024'')\<rparr>,
     run_metrics = None, run_dbMaint = None, run_running = True, run_lastErr = [], run_cfg = Default, run_startedAt = 0,
     run_shutdownAt = None, run_shutdownMsg = [], run_pendingStops = []\<rparr>"

definition page_env :: runtime_env where
  "page_env = \<lparr>re_getenv = (\<lambda>n. []), re_hostname = Inr ''h'', re_Ping = (\<lambda>w. (Inl (ErrorText ''locked''), w)), re_DirSize = 4096\<rparr>"

theorem shutdown_accepted_once_witness:
  "\<exists>qs ro w. serve_all Admin_ShutdownServer ['' update '', ''now''] (Some sample_runtime) (quiet_world [] empty_db) = (qs, ro, w)
    \<and> length qs = 2 \<and> (\<exists>r. ro = Some r \<and> length (run_pendingStops r) = 1)"
proof -
  obtain qs ro w where run: "serve_all Admin_ShutdownServer ['' update '', ''now''] (Some sample_runtime) (quiet_world [] empty_db) = (qs, ro, w)"
    by (metis prod.exhaust)
  have "run_running sample_runtime" "run_shutdownAt sample_runtime = None" by (simp_all add: sample_runtime_def)
  from shutdown_accepted_once [OF this run] run show ?thesis by (auto simp: sample_runtime_def)
qed

theorem runtime_page_is_truthful_witness:
  "\<exists>s w. GetServerRuntimeSnapshot page_env (Some sample_runtime) (quiet_world [] empty_db) = (Inr s, w)
    \<and> sr_HealthState s \<noteq> ''serving'' \<and> sr_HealthState s \<noteq> ''stopped''"
proof -
  obtain res w where run: "GetServerRuntimeSnapshot page_env (Some sample_runtime) (quiet_world [] empty_db) = (res, w)" by force
  obtain stats v where stats: "DB_Stats (re_DirSize page_env) (sq_path (run_database sample_runtime)) (quiet_world [] empty_db) = (stats, v)"
    by force
  have ping: "re_Ping page_env v = (Inl (ErrorText ''locked''), v)" by (simp add: page_env_def)
  from runtime_page_is_truthful [OF run stats ping] run show ?thesis by (auto simp: sample_runtime_def)
qed

end
