(* ===== verification/Preflight.thy ===== *)
theory Preflight
  imports BuildCopy RestoreLaws
begin

text \<open>
  \<open>internal/server/preflight.go\<close>: what must hold before the server starts. The state is the world
  beside the environment variables of the process. The operating system, the user, \<open>exec.LookPath\<close>
  for a given \<open>PATH\<close>, the output of commands and the random part of temporary names are parameters.
  \<open>fmt_q\<close> is \<open>%q\<close> for texts without quotes, backslashes and control characters.
\<close>

record host =
  ho_GOOS :: string
  ho_Getwd :: "goerr + string"
  ho_CurrentUser :: "string result"
  ho_LookPath :: "string \<Rightarrow> string \<Rightarrow> string result"
  ho_CombinedOutput :: "string list \<Rightarrow> string \<times> goerr option"
  ho_random :: "nat \<Rightarrow> string"

type_synonym environ = "string \<Rightarrow> string"
type_synonym 'a startup = "world \<times> environ \<Rightarrow> 'a result \<times> world \<times> environ"

definition lift_world :: "'a io \<Rightarrow> 'a startup" where
  "lift_world m s = (case m (fst s) of (r, w) \<Rightarrow> (r, w, snd s))"

definition startup_wrap :: "string \<Rightarrow> 'a startup \<Rightarrow> 'a startup" where
  "startup_wrap what m s = (case m s of (Inl e, s1) \<Rightarrow> (Inl (Wrapf (what @ '': '') e []), s1) | (Inr x, s1) \<Rightarrow> (Inr x, s1))"

definition os_Getenv :: "string \<Rightarrow> string startup" where
  "os_Getenv name s = (Inr (snd s name), s)"

definition os_Setenv :: "string \<Rightarrow> string \<Rightarrow> unit startup" where
  "os_Setenv name value s = (Inr (), fst s, (snd s)(name := value))"

abbreviation envBuildToolDirs :: string where "envBuildToolDirs \<equiv> ''ROODOX_BUILD_TOOL_DIRS''"
abbreviation envRequiredBuildTools :: string where "envRequiredBuildTools \<equiv> ''ROODOX_BUILD_REQUIRED_TOOLS''"

definition fmt_q :: "string \<Rightarrow> string" where
  "fmt_q s = CHR 0x22 # s @ [CHR 0x22]"

section \<open>The root directory\<close>

text \<open>\<open>os.CreateTemp\<close>: names are tried until one is free, ten thousand times at most.\<close>

fun os_CreateTemp :: "host \<Rightarrow> nat \<Rightarrow> nat \<Rightarrow> string \<Rightarrow> string \<Rightarrow> string \<Rightarrow> string io" where
  "os_CreateTemp H 0 i dir before after w = (Inl (PathError ''createtemp'' (dir @ ''/'' @ before @ ''*'' @ after) EEXIST), w)"
| "os_CreateTemp H (Suc fuel) i dir before after w =
    (let name = (if dir \<noteq> [] \<and> last dir = CHR ''/'' then dir else dir @ ''/'') @ before @ ho_random H i @ after in
     case os_OpenExcl name w of
       (Inr _, w1) \<Rightarrow> (Inr name, w1)
     | (Inl e, w1) \<Rightarrow> if errors_Is e ErrExist then os_CreateTemp H fuel (Suc i) dir before after w1 else (Inl e, w1))"

definition ensureRootDirWritable :: "host \<Rightarrow> string \<Rightarrow> unit io" where
  "ensureRootDirWritable H rootDir =
    (if rootDir = [] then io_fail (ErrorText ''root dir is empty'')
     else
       io_then (os_MkdirAll rootDir) (\<lambda>_.
       io_then (os_CreateTemp H 10000 0 rootDir ''.roodox-write-check-'' ''.tmp'') (\<lambda>tmp.
       io_then file_Close (\<lambda>_. os_Remove tmp))))"

section \<open>The path of the build tools\<close>

definition filepath_SplitList :: "string \<Rightarrow> string list" where
  "filepath_SplitList s = (if s = [] then [] else strings_Split s CHR '':'')"

definition windowsToolDirs :: "string list" where
  "windowsToolDirs = [''C:'' @ [CHR 0x5C] @ ''Program Files'' @ [CHR 0x5C] @ ''CMake'' @ [CHR 0x5C] @ ''bin'',
     ''C:'' @ [CHR 0x5C] @ ''Program Files (x86)'' @ [CHR 0x5C] @ ''GnuWin32'' @ [CHR 0x5C] @ ''bin'']"

fun existing_dirs :: "string list \<Rightarrow> string list io" where
  "existing_dirs [] w = (Inr [], w)"
| "existing_dirs (dir # dirs) w =
    (case os_Stat dir w of
       (r, w1) \<Rightarrow>
       (case existing_dirs dirs w1 of
          (Inl e, w2) \<Rightarrow> (Inl e, w2)
        | (Inr rest, w2) \<Rightarrow> (Inr (case r of Inl e \<Rightarrow> rest | Inr info \<Rightarrow> if is_dir info then dir # rest else rest), w2)))"

definition recommendedBuildToolDirs :: "host \<Rightarrow> string list io" where
  "recommendedBuildToolDirs H = (if ho_GOOS H \<noteq> ''windows'' then io_return [] else existing_dirs windowsToolDirs)"

definition dir_key :: "string \<Rightarrow> string" where
  "dir_key dir = strings_ToLower (filepath_Clean dir)"

fun add_configured :: "host \<Rightarrow> string list \<Rightarrow> string set \<Rightarrow> string list \<Rightarrow> (string set \<times> string list) io" where
  "add_configured H [] seen merged w = (Inr (seen, merged), w)"
| "add_configured H (dir # dirs) seen merged w =
    (let trimmed = strings_TrimSpace dir in
     if trimmed = [] then add_configured H dirs seen merged w
     else
       (case filepath_Abs (ho_Getwd H) trimmed of
          Inl e \<Rightarrow> (Inl (Wrapf (''startup check failed: resolve '' @ envBuildToolDirs @ '' entry '' @ fmt_q trimmed @ '': '') e []), w)
        | Inr absDir \<Rightarrow>
          (case os_Stat absDir w of
             (r, w1) \<Rightarrow>
             if (case r of Inl e \<Rightarrow> True | Inr st \<Rightarrow> \<not> is_dir st)
             then (Inl (ErrorText (''startup check failed: build tool directory '' @ fmt_q absDir @ '' is invalid'')), w1)
             else if dir_key absDir \<in> seen then add_configured H dirs seen merged w1
             else add_configured H dirs (insert (dir_key absDir) seen) (absDir # merged) w1)))"

fun add_recommended :: "string list \<Rightarrow> string set \<Rightarrow> string list \<Rightarrow> string list" where
  "add_recommended [] seen merged = merged"
| "add_recommended (dir # dirs) seen merged =
    (if dir_key dir \<in> seen then add_recommended dirs seen merged
     else add_recommended dirs (insert (dir_key dir) seen) (dir # merged))"

definition ensureBuildToolPath :: "host \<Rightarrow> unit startup" where
  "ensureBuildToolPath H =
    io_then (os_Getenv envBuildToolDirs) (\<lambda>raw0. let raw = strings_TrimSpace raw0 in
    io_then (if raw = [] then lift_world (recommendedBuildToolDirs H) else io_return []) (\<lambda>recommended.
      if raw = [] \<and> recommended = [] then io_return ()
      else
        io_then (os_Getenv ''PATH'') (\<lambda>current.
        let seen = set (map (\<lambda>p. dir_key (strings_TrimSpace p)) (filepath_SplitList current)) in
        io_then (lift_world (add_configured H (filepath_SplitList raw) seen (filepath_SplitList current))) (\<lambda>(seen1, merged).
        io_then (lift_world (recommendedBuildToolDirs H)) (\<lambda>recommended.
          os_Setenv ''PATH'' (strings_Join (add_recommended recommended seen1 merged) '':''))))))"

section \<open>Tools and user\<close>

fun parse_names :: "string list \<Rightarrow> string set \<Rightarrow> string list" where
  "parse_names [] seen = []"
| "parse_names (p # ps) seen =
    (let name = strings_TrimSpace (strings_ToLower p) in
     if name = [] \<or> name \<in> seen then parse_names ps seen else name # parse_names ps (insert name seen))"

definition parseCommaList :: "string \<Rightarrow> string list" where
  "parseCommaList v = parse_names (strings_Split v CHR '','') {}"

definition requiredBuildTools :: "string list startup" where
  "requiredBuildTools =
    io_then (os_Getenv envRequiredBuildTools) (\<lambda>raw.
      io_return (if strings_TrimSpace raw \<noteq> [] then parseCommaList (strings_TrimSpace raw)
        else [''cmake'', ''make'', ''build-essential'']))"

definition LookPath :: "host \<Rightarrow> string \<Rightarrow> string startup" where
  "LookPath H tool = io_then (os_Getenv ''PATH'') (\<lambda>path s. (ho_LookPath H path tool, s))"

fun first_missing :: "host \<Rightarrow> string \<Rightarrow> string list \<Rightarrow> goerr option" where
  "first_missing H path [] = None"
| "first_missing H path (tool # tools) =
    (case ho_LookPath H path tool of
       Inl e \<Rightarrow> Some (ErrorText (''startup check failed: '' @ fmt_q tool @ '' not found; install build-essential/toolchain first''))
     | Inr _ \<Rightarrow> first_missing H path tools)"

definition debian_installed :: "host \<Rightarrow> string \<Rightarrow> bool" where
  "debian_installed H path \<longleftrightarrow>
    (case ho_LookPath H path ''dpkg-query'' of
       Inl e \<Rightarrow> False
     | Inr _ \<Rightarrow>
       (case ho_CombinedOutput H [''dpkg-query'', ''-W'', ''-f=${Status}'', ''build-essential''] of
          (out, None) \<Rightarrow> strings_Contains (strings_ToLower out) ''install ok installed''
        | (out, Some e) \<Rightarrow> False))"

definition verifyBuildEssential :: "host \<Rightarrow> unit startup" where
  "verifyBuildEssential H =
    (if ho_GOOS H \<noteq> ''linux'' then io_return ()
     else
       io_then (os_Getenv ''PATH'') (\<lambda>path.
         if debian_installed H path then io_return ()
         else (case first_missing H path [''gcc'', ''g++'', ''make''] of None \<Rightarrow> io_return () | Some e \<Rightarrow> io_fail e)))"

definition normalizeUser :: "string \<Rightarrow> string" where
  "normalizeUser v =
    (let name = strings_ReplaceAll1 (strings_TrimSpace (strings_ToLower v)) (CHR 0x5C) ''/'' in
     rev (takeWhile (\<lambda>c. c \<noteq> CHR ''/'') (rev name)))"

definition isWindowsLocalSystemIdentity :: "string \<Rightarrow> string \<Rightarrow> bool" where
  "isWindowsLocalSystemIdentity userName computerName \<longleftrightarrow>
    (let name = normalizeUser userName; hostName = normalizeUser computerName in
     name = ''system'' \<or> name = ''localsystem'' \<or> hostName \<noteq> [] \<and> name = hostName @ ''$'')"

definition sameNormalizedUser :: "string \<Rightarrow> string \<Rightarrow> string \<Rightarrow> string \<Rightarrow> bool" where
  "sameNormalizedUser expected actual goos computerName \<longleftrightarrow>
    expected = actual
    \<or> goos = ''windows'' \<and> isWindowsLocalSystemIdentity expected computerName \<and> isWindowsLocalSystemIdentity actual computerName"

definition detectExecUser :: "host \<Rightarrow> string result" where
  "detectExecUser H =
    (case ho_CombinedOutput H (if ho_GOOS H = ''windows'' then [''whoami''] else [''id'', ''-un'']) of
       (out, None) \<Rightarrow> Inr (strings_TrimSpace out)
     | (out, Some e) \<Rightarrow> Inl e)"

definition verifySameUser :: "host \<Rightarrow> string \<Rightarrow> unit startup" where
  "verifySameUser H expected =
    (case detectExecUser H of
       Inl e \<Rightarrow> io_fail (Wrapf ''startup check failed: detect exec user: '' e [])
     | Inr name \<Rightarrow>
       io_then (os_Getenv ''COMPUTERNAME'') (\<lambda>computer.
         if sameNormalizedUser expected (normalizeUser name) (ho_GOOS H) computer then io_return ()
         else io_fail (ErrorText (''startup check failed: process user mismatch, expected='' @ fmt_q expected @ '' actual=''
           @ fmt_q (normalizeUser name)))))"

section \<open>All checks\<close>

record StartupCheckResult =
  su_CurrentUser :: string
  su_Effective :: "(string \<times> string) list"

fun check_tools :: "host \<Rightarrow> string list \<Rightarrow> (string \<times> string) list startup" where
  "check_tools H [] = io_return []"
| "check_tools H (tool # tools) =
    io_then (if tool = ''build-essential'' then io_then (verifyBuildEssential H) (\<lambda>_. io_return ''ok'')
       else (\<lambda>s. (case LookPath H tool s of
         (Inl e, s1) \<Rightarrow> (Inl (ErrorText (''startup check failed: required tool '' @ fmt_q tool @ '' not found in PATH'')), s1)
       | (Inr path, s1) \<Rightarrow> (Inr path, s1)))) (\<lambda>path.
    io_then (check_tools H tools) (\<lambda>rest. io_return ((tool, path) # rest)))"

definition RunStartupChecks :: "host \<Rightarrow> string \<Rightarrow> bool \<Rightarrow> StartupCheckResult startup" where
  "RunStartupChecks H rootDir remoteBuildEnabled =
    io_then (startup_wrap ''startup check failed: root dir is not writable'' (lift_world (ensureRootDirWritable H rootDir))) (\<lambda>_.
    io_then (startup_wrap ''startup check failed: resolve current user'' (\<lambda>s. (ho_CurrentUser H, s))) (\<lambda>username.
      let user = normalizeUser username in
      if \<not> remoteBuildEnabled then io_return \<lparr>su_CurrentUser = user, su_Effective = []\<rparr>
      else
        io_then (ensureBuildToolPath H) (\<lambda>_.
        io_then (verifySameUser H user) (\<lambda>_.
        io_then requiredBuildTools (\<lambda>tools.
        io_then (check_tools H tools) (\<lambda>effective.
          io_return \<lparr>su_CurrentUser = user, su_Effective = effective\<rparr>))))))"

end
