(* ===== verification/PreflightLaws.thy ===== *)
theory PreflightLaws
  imports Preflight
begin

text \<open>
  What a passed check of the start means: the root is there and as it was, the configured build
  tools are found first, and every required tool is found on the path the builds will use.
\<close>

section \<open>The files\<close>

definition temp_name :: "host \<Rightarrow> nat \<Rightarrow> string" where
  "temp_name H i = ''.roodox-write-check-'' @ ho_random H i @ ''.tmp''"

lemma os_OpenExcl_new:
  assumes "os_OpenExcl p w = (r, w')"
  shows "r \<noteq> Inr () \<and> w_fs w' = w_fs w
    \<or> tree_get (w_fs w) (path_elems p) = None \<and> w_fs w' = tree_put (path_elems p) (File [] (w_clock w)) (w_fs w)"
  using assms unfolding os_OpenExcl_def by (rule with_fault_cases) (auto split: option.splits)

lemma os_CreateTemp_new:
  assumes "os_CreateTemp H fuel i dir before after w = (r, w')"
  shows "(\<exists>e. r = Inl e) \<and> w_fs w' = w_fs w
    \<or> (\<exists>j. r = Inr ((if dir \<noteq> [] \<and> last dir = CHR ''/'' then dir else dir @ ''/'') @ before @ ho_random H j @ after))
      \<and> (\<exists>name m. r = Inr name \<and> tree_get (w_fs w) (path_elems name) = None \<and> w_fs w' = tree_put (path_elems name) (File [] m) (w_fs w))"
  using assms
proof (induction H fuel i dir before after w arbitrary: r w' rule: os_CreateTemp.induct)
  case (2 H fuel i dir before after w)
  let ?name = "(if dir \<noteq> [] \<and> last dir = CHR ''/'' then dir else dir @ ''/'') @ before @ ho_random H i @ after"
  obtain q w1 where 1: "os_OpenExcl ?name w = (q, w1)" by force
  show ?case
  proof (cases q)
    case (Inl e)
    with os_OpenExcl_new [OF 1] have same: "w_fs w1 = w_fs w" using 1
      by (auto simp: os_OpenExcl_def elim!: with_fault_cases split: option.splits)
    show ?thesis
    proof (cases "errors_Is e ErrExist")
      case True
      have "os_CreateTemp H fuel (Suc i) dir before after w1 = (r, w')" using "2.prems" 1 Inl True by (simp add: Let_def)
      from "2.IH" [OF refl 1 [symmetric] Inl True this] same show ?thesis by simp
    next
      case False
      have "r = Inl e \<and> w' = w1" using "2.prems" 1 Inl False by (simp add: Let_def)
      with same show ?thesis by blast
    qed
  next
    case (Inr u)
    with os_OpenExcl_new [OF 1] "2.prems" 1 show ?thesis by (auto simp: Let_def)
  qed
qed simp

lemma os_Remove_fs:
  assumes "os_Remove p w = (r, w')"
  shows "(\<exists>e. r = Inl e) \<and> w_fs w' = w_fs w \<or> r = Inr () \<and> w_fs w' = tree_del (path_elems p) (w_fs w)"
  using assms unfolding os_Remove_def by (rule with_fault_cases) (auto simp: Let_def split: sum.splits node.splits if_splits)

lemma temp_path:
  assumes "plain_elems (D @ [temp_name H i])"
  shows "path_elems ((if at_path D \<noteq> [] \<and> last (at_path D) = CHR ''/'' then at_path D else at_path D @ ''/'')
      @ ''.roodox-write-check-'' @ ho_random H i @ ''.tmp'') = D @ [temp_name H i]"
proof -
  have "(if at_path D \<noteq> [] \<and> last (at_path D) = CHR ''/'' then at_path D else at_path D @ ''/'') @ n = at_path (D @ [n])"
    if "plain_elems D" for n
  proof (cases D rule: rev_cases)
    case (snoc E e)
    with that have "e \<noteq> []" "CHR ''/'' \<notin> set e" by (simp_all add: plain_elem_def)
    then have "last e \<noteq> CHR ''/''" using last_in_set by metis
    with \<open>e \<noteq> []\<close> have "last (at_path (E @ [e])) \<noteq> CHR ''/''"
      by (cases "E = []") (simp_all add: render_path_def Join_snoc last_append)
    with snoc Join_snoc [of "E @ [e]" n] show ?thesis by (simp add: render_path_def)
  qed (simp add: render_path_def)
  with assms show ?thesis using at_path_elems [OF assms] by (simp add: temp_name_def)
qed

text \<open>Every path outside the root's own directories is as it was, but for a left-over of a failed check.\<close>

lemma root_check:
  assumes names: "\<And>i. plain_elems (D @ [temp_name H i])" and run: "ensureRootDirWritable H (at_path D) w = (r, w')"
  shows "(\<forall>k. \<not> prefix k D \<longrightarrow> tree_get (w_fs w') k = tree_get (w_fs w) k
      \<or> r \<noteq> Inr () \<and> tree_get (w_fs w) k = None \<and> (\<exists>i. k = D @ [temp_name H i]))
    \<and> (r = Inr () \<longrightarrow> walk_dirs (w_fs w') [] D = None)"
proof -
  have D: "plain_elems D" using names [of 0] by simp
  obtain r1 w1 where 1: "os_MkdirAll (at_path D) w = (r1, w1)" by force
  obtain r2 w2 where 2: "os_CreateTemp H 10000 0 (at_path D) ''.roodox-write-check-'' ''.tmp'' w1 = (r2, w2)" by force
  have mk: "tree_get (w_fs w1) k = tree_get (w_fs w) k" if "\<not> prefix k D" for k
    using os_MkdirAll_step [OF 1] that at_path_elems [OF D] by (simp add: fs_step_def)
  show ?thesis
  proof (cases "\<exists>u name. r1 = Inr u \<and> r2 = Inr name")
    case False
    then have "r \<noteq> Inr () \<and> w_fs w' = w_fs w1" using run 1 2 os_CreateTemp_new [OF 2] at_path_ne
      by (auto simp: ensureRootDirWritable_def io_then_def split: sum.splits)
    with mk show ?thesis by simp
  next
    case True
    then obtain u name where rs: "r1 = Inr u" "r2 = Inr name" by blast
    obtain r3 w3 where 3: "file_Close w2 = (r3, w3)" by force
    obtain r4 w4 where 4: "os_Remove name w3 = (r4, w4)" by force
    from os_CreateTemp_new [OF 2] rs temp_path [OF names] obtain i m where new: "path_elems name = D @ [temp_name H i]"
      "tree_get (w_fs w1) (D @ [temp_name H i]) = None" "w_fs w2 = tree_put (D @ [temp_name H i]) (File [] m) (w_fs w1)" by auto
    have w3: "w_fs w3 = w_fs w2" using file_Close_same [OF 3] .
    have walk: "walk_dirs (w_fs w1) [] D = None" using os_MkdirAll_ok [OF 1 [unfolded rs]] at_path_elems [OF D] by simp
    have out: "(r, w') = (case r3 of Inl e \<Rightarrow> (Inl e, w3) | Inr _ \<Rightarrow> (r4, w4))" using run 1 2 3 4 rs at_path_ne
      by (cases r3) (auto simp: ensureRootDirWritable_def io_then_def)
    show ?thesis
    proof (cases "r = Inr ()")
      case True
      with out os_Remove_fs [OF 4] new(1) w3 new(3) have t: "w_fs w' = tree_del (D @ [temp_name H i]) (w_fs w2)"
        by (auto split: sum.splits)
      have get: "tree_get (w_fs w') k = tree_get (w_fs w1) k" for k
        using new(2,3) by (simp add: t tree_get_del tree_get_put)
      then have "walk_dirs (w_fs w') [] D = None" using walk walk_dirs_cong [of "[]" D "w_fs w'" "w_fs w1"] by simp
      with get mk show ?thesis by simp
    next
      case False
      have "tree_get (w_fs w') k = tree_get (w_fs w1) k" if "k \<noteq> D @ [temp_name H i]" for k
        using that out os_Remove_fs [OF 4] new w3 by (auto simp: tree_get_del tree_get_put split: sum.splits)
      moreover have "tree_get (w_fs w) (D @ [temp_name H i]) = None" using new(2) mk [of "D @ [temp_name H i]"]
        by (metis not_Cons_self2 prefix_order.dual_order.trans prefix_snoc same_prefix_nil snoc_eq_iff_butlast)
      ultimately show ?thesis using False mk by metis
    qed
  qed
qed

section \<open>Checks that only look\<close>

definition looked :: "world \<Rightarrow> world \<Rightarrow> bool" where
  "looked w w' \<longleftrightarrow> w_fs w' = w_fs w \<and> (w_faults w = [] \<longrightarrow> w_faults w' = [])"

lemma looked_refl [simp]: "looked w w"
  by (simp add: looked_def)

lemma looked_trans: "looked w w1 \<Longrightarrow> looked w1 w' \<Longrightarrow> looked w w'"
  by (simp add: looked_def)

lemma os_Stat_looked: "os_Stat p w = (r, w') \<Longrightarrow> looked w w'"
  using os_Stat_same [of p w r w'] by (auto simp: looked_def os_Stat_def with_fault_def split: sum.splits)

definition looks :: "'a startup \<Rightarrow> bool" where
  "looks m \<longleftrightarrow> (\<forall>s r s'. m s = (r, s') \<longrightarrow> looked (fst s) (fst s'))"

named_theorems looking

lemma looks_then [looking]: "looks m \<Longrightarrow> (\<And>x. looks (f x)) \<Longrightarrow> looks (io_then m f)"
  unfolding looks_def io_then_def by (fastforce split: prod.splits sum.splits intro: looked_trans)

lemma looks_simple [looking]: "looks (io_return x)" "looks (io_fail e)" "looks (os_Getenv n)" "looks (os_Setenv n v)"
    "looks (\<lambda>s. (q, s))"
  by (auto simp: looks_def io_return_def io_fail_def os_Getenv_def os_Setenv_def)

lemma looks_wrap [looking]: "looks m \<Longrightarrow> looks (startup_wrap what m)"
  unfolding looks_def startup_wrap_def by (fastforce split: prod.splits sum.splits)

lemma looks_world [looking]: "(\<And>w r w'. m w = (r, w') \<Longrightarrow> looked w w') \<Longrightarrow> looks (lift_world m)"
  by (auto simp: looks_def lift_world_def split: prod.splits)

lemma existing_dirs_looks: "existing_dirs dirs w = (r, w') \<Longrightarrow> looked w w' \<and> (\<exists>ds. r = Inr ds)"
proof (induction dirs arbitrary: w r w')
  case (Cons d dirs)
  obtain q w1 where 1: "os_Stat d w = (q, w1)" by force
  obtain q2 w2 where 2: "existing_dirs dirs w1 = (q2, w2)" by force
  from Cons.IH [OF 2] os_Stat_looked [OF 1] looked_trans [of w w1 w2] Cons.prems 1 2 show ?case by (auto split: sum.splits)
qed simp

lemma recommended_looks [looking]: "looks (lift_world (recommendedBuildToolDirs H))"
  by (rule looks_world) (auto simp: recommendedBuildToolDirs_def io_return_def dest: existing_dirs_looks split: if_splits)

lemma check_tools_looks [looking]: "looks (check_tools H tools)"
proof (induction tools)
  case (Cons t ts)
  have "looks (verifyBuildEssential H)" unfolding verifyBuildEssential_def
    by (cases "ho_GOOS H = ''linux''") (auto intro!: looking split: option.splits)
  moreover have "looks (\<lambda>s. (case LookPath H t s of (Inl e, s1) \<Rightarrow> (Inl x, s1) | (Inr path, s1) \<Rightarrow> (Inr path, s1)))" for x
    by (auto simp: looks_def LookPath_def io_then_def os_Getenv_def split: sum.splits)
  ultimately show ?case using Cons by (auto intro!: looking)
qed (simp add: looking)

section \<open>The path\<close>

definition new_dirs :: "world \<Rightarrow> string list \<Rightarrow> bool" where
  "new_dirs w ds \<longleftrightarrow> (\<forall>d\<in>set ds. \<exists>m. lookup_node (w_fs w) (path_elems d) = Inr (Directory m))"

lemma os_Stat_dir:
  assumes "os_Stat p w = (Inr n, w')" shows "lookup_node (w_fs w) (path_elems p) = Inr n" and "w_fs w' = w_fs w"
  using assms os_Stat_same [OF assms] unfolding os_Stat_def by (auto elim!: with_fault_cases split: sum.splits)

lemma add_configured_done:
  assumes "add_configured H dirs seen merged w = (Inr (seen', merged'), w')"
  shows "w_fs w' = w_fs w \<and> (\<exists>ds. merged' = ds @ merged \<and> new_dirs w ds \<and> seen' = seen \<union> dir_key ` set ds
      \<and> distinct (map dir_key ds) \<and> (\<forall>d\<in>set ds. dir_key d \<notin> seen \<and> (\<exists>x\<in>set dirs. filepath_Abs (ho_Getwd H) (strings_TrimSpace x) = Inr d)))
    \<and> (\<forall>d\<in>set dirs. strings_TrimSpace d \<noteq> [] \<longrightarrow>
        (\<exists>a. filepath_Abs (ho_Getwd H) (strings_TrimSpace d) = Inr a \<and> dir_key a \<in> seen'))"
  using assms
proof (induction H dirs seen merged w arbitrary: seen' merged' w' rule: add_configured.induct)
  case (2 H dir dirs seen merged w)
  let ?t = "strings_TrimSpace dir"
  show ?case
  proof (cases "?t = []")
    case True
    with "2.prems" "2.IH"(1) [OF refl True] show ?thesis by (simp add: Let_def) blast
  next
    case False
    then obtain a where a: "filepath_Abs (ho_Getwd H) ?t = Inr a" using "2.prems" by (auto simp: Let_def split: sum.splits)
    obtain q w1 where 1: "os_Stat a w = (q, w1)" by force
    with "2.prems" False a obtain m where q: "q = Inr (Directory m)"
      by (auto simp: Let_def is_dir_def split: sum.splits if_splits node.splits)
    note look = os_Stat_dir [OF 1 [unfolded q]]
    show ?thesis
    proof (cases "dir_key a \<in> seen")
      case True
      have run: "add_configured H dirs seen merged w1 = (Inr (seen', merged'), w')"
        using "2.prems" False a 1 q True by (simp add: Let_def is_dir_def)
      from "2.IH"(2) [OF refl False a 1 [symmetric] _ True run] q a look True show ?thesis
        by (auto simp: is_dir_def new_dirs_def)
    next
      case fresh: False
      have run: "add_configured H dirs (insert (dir_key a) seen) (a # merged) w1 = (Inr (seen', merged'), w')"
        using "2.prems" False a 1 q fresh by (simp add: Let_def is_dir_def)
      from "2.IH"(3) [OF refl False a 1 [symmetric] _ fresh run] q obtain ds where ds: "w_fs w' = w_fs w1"
        "merged' = ds @ a # merged" "new_dirs w1 ds" "seen' = insert (dir_key a) seen \<union> dir_key ` set ds"
        "distinct (map dir_key ds)" "\<forall>d\<in>set ds. dir_key d \<notin> insert (dir_key a) seen
          \<and> (\<exists>x\<in>set dirs. filepath_Abs (ho_Getwd H) (strings_TrimSpace x) = Inr d)"
        "\<forall>d\<in>set dirs. strings_TrimSpace d \<noteq> [] \<longrightarrow> (\<exists>b. filepath_Abs (ho_Getwd H) (strings_TrimSpace d) = Inr b \<and> dir_key b \<in> seen')"
        by (auto simp: is_dir_def)
      then show ?thesis using a fresh look
        by (intro conjI exI [of _ "ds @ [a]"]) (auto simp: new_dirs_def image_iff)
    qed
  qed
qed (simp add: new_dirs_def)

text \<open>No list separator gets into a cleaned path that was not in it before.\<close>

lemma Split_chars: "w \<in> set (strings_Split s c) \<Longrightarrow> set w \<subseteq> set s"
proof (induction s arbitrary: w)
  case (Cons x s)
  obtain v vs where v: "strings_Split s c = v # vs" by (cases "strings_Split s c") auto
  with Cons show ?case by (fastforce split: if_splits)
qed simp

lemma Join_chars: "set (strings_Join ws sep) \<subseteq> (\<Union>w\<in>set ws. set w) \<union> set sep"
  by (induction ws sep rule: strings_Join.induct) auto

lemma clean_chars: "c \<in> set w \<Longrightarrow> w \<in> set (clean_comps b cs) \<Longrightarrow> c = CHR ''.'' \<or> (\<exists>v\<in>set cs. c \<in> set v)"
proof -
  have "set (foldl (clean_step b) out cs) \<subseteq> set out \<union> set cs \<union> {''..''}" for out
    by (induction cs arbitrary: out) (fastforce split: list.splits if_splits)+
  from this [of "[]"] show "c \<in> set w \<Longrightarrow> w \<in> set (clean_comps b cs) \<Longrightarrow> c = CHR ''.'' \<or> (\<exists>v\<in>set cs. c \<in> set v)"
    by (fastforce simp: clean_comps_def)
qed

lemma Clean_chars: "c \<in> set (filepath_Clean p) \<Longrightarrow> c \<in> set p \<or> c = CHR ''/'' \<or> c = CHR ''.''"
proof -
  assume c: "c \<in> set (filepath_Clean p)"
  then have "c = CHR ''/'' \<or> c = CHR ''.'' \<or> (\<exists>w\<in>set (path_elems p). c \<in> set w)"
    using Join_chars [of "path_elems p" "''/''"] by (auto simp: filepath_Clean_def render_path_def split: if_splits)
  then show ?thesis using clean_chars Split_chars unfolding path_elems_def by blast
qed

lemma Abs_chars:
  assumes "filepath_Abs getwd p = Inr d" and "c \<in> set d"
  shows "c \<in> set p \<or> c = CHR ''/'' \<or> c = CHR ''.'' \<or> (\<exists>wd. getwd = Inr wd \<and> c \<in> set wd)"
  using assms Clean_chars [of c p] Clean_chars [of c] Join_chars [of "filter (\<lambda>e. e \<noteq> []) [wd, p]" "''/''" for wd]
  by (fastforce simp: filepath_Abs_def filepath_Join_def Let_def split: if_splits sum.splits)

lemma TrimSpace_chars: "set (strings_TrimSpace s) \<subseteq> set s"
  unfolding strings_TrimSpace_def trim_right_def trim_left_def
  by (metis set_dropWhileD set_rev subsetI)

lemma SplitList_Join:
  assumes "\<forall>d\<in>set ds. CHR '':'' \<notin> set d" and "current \<noteq> []"
  shows "filepath_SplitList (strings_Join (ds @ filepath_SplitList current) '':'') = ds @ filepath_SplitList current"
proof -
  let ?all = "ds @ strings_Split current CHR '':''"
  have "\<forall>w\<in>set ?all. CHR '':'' \<notin> set w" using assms(1) Split_no_sep by auto
  then have split: "strings_Split (strings_Join ?all '':'') CHR '':'' = ?all" by (intro Split_Join) simp_all
  moreover have "strings_Join ?all '':'' \<noteq> []"
  proof (cases ds)
    case Nil
    then show ?thesis using Join_Split [of current "CHR '':''"] assms(2) by simp
  next
    case (Cons d ds')
    then show ?thesis by (simp add: Join_Cons)
  qed
  ultimately show ?thesis using assms(2) by (simp add: filepath_SplitList_def)
qed

lemma io_then_Inr: "io_then m f s = (Inr y, s2) \<Longrightarrow> \<exists>x s1. m s = (Inr x, s1) \<and> f x s1 = (Inr y, s2)"
  by (auto simp: io_then_def split: prod.splits sum.splits)

lemma build_path_done:
  assumes linux: "ho_GOOS H \<noteq> ''windows''" and wd: "\<And>x. ho_Getwd H = Inr x \<Longrightarrow> CHR '':'' \<notin> set x"
    and env: "env ''PATH'' \<noteq> []" "strings_TrimSpace (env envBuildToolDirs) \<noteq> []"
    and run: "ensureBuildToolPath H (w, env) = (Inr u, (w', env'))"
  obtains ds where "env' = env(''PATH'' := strings_Join (ds @ filepath_SplitList (env ''PATH'')) '':'')"
    and "filepath_SplitList (env' ''PATH'') = ds @ filepath_SplitList (env ''PATH'')"
    and "new_dirs w ds" and "distinct (map dir_key ds)" and "w_fs w' = w_fs w"
    and "\<forall>d\<in>set (filepath_SplitList (strings_TrimSpace (env envBuildToolDirs))). strings_TrimSpace d \<noteq> [] \<longrightarrow>
        (\<exists>a. filepath_Abs (ho_Getwd H) (strings_TrimSpace d) = Inr a
          \<and> dir_key a \<in> dir_key ` set ds \<union> (\<lambda>p. dir_key (strings_TrimSpace p)) ` set (filepath_SplitList (env ''PATH'')))"
proof -
  let ?raw = "strings_TrimSpace (env envBuildToolDirs)" and ?old = "filepath_SplitList (env ''PATH'')"
  let ?seen = "set (map (\<lambda>p. dir_key (strings_TrimSpace p)) ?old)"
  have rec: "lift_world (recommendedBuildToolDirs H) v = (Inr [], v)" for v
    using linux by (cases v) (simp add: lift_world_def recommendedBuildToolDirs_def io_return_def)
  obtain seen1 merged w1 where 1: "add_configured H (filepath_SplitList ?raw) ?seen ?old w = (Inr (seen1, merged), w1)"
    and fin: "w' = w1" "env' = env(''PATH'' := strings_Join merged '':'')"
    using run env(2) rec
    by (auto simp: ensureBuildToolPath_def io_then_def os_Getenv_def os_Setenv_def io_return_def lift_world_def Let_def
        split: prod.splits sum.splits)
  have gen: "w_fs w1 = w_fs w \<and> (\<exists>ds. merged = ds @ ?old \<and> new_dirs w ds \<and> seen1 = ?seen \<union> dir_key ` set ds
      \<and> distinct (map dir_key ds) \<and> (\<forall>d\<in>set ds. dir_key d \<notin> ?seen
        \<and> (\<exists>x\<in>set (filepath_SplitList ?raw). filepath_Abs (ho_Getwd H) (strings_TrimSpace x) = Inr d)))
    \<and> (\<forall>d\<in>set (filepath_SplitList ?raw). strings_TrimSpace d \<noteq> [] \<longrightarrow>
        (\<exists>a. filepath_Abs (ho_Getwd H) (strings_TrimSpace d) = Inr a \<and> dir_key a \<in> seen1))"
    using add_configured_done [OF 1] by simp
  then obtain ds where ds: "merged = ds @ ?old" "new_dirs w ds" "seen1 = ?seen \<union> dir_key ` set ds" "distinct (map dir_key ds)"
    "\<forall>d\<in>set ds. \<exists>x\<in>set (filepath_SplitList ?raw). filepath_Abs (ho_Getwd H) (strings_TrimSpace x) = Inr d" by blast
  have colon: "CHR '':'' \<notin> set d" if "d \<in> set ds" for d
  proof -
    from ds(5) that obtain x where x: "x \<in> set (filepath_SplitList ?raw)" "filepath_Abs (ho_Getwd H) (strings_TrimSpace x) = Inr d"
      by blast
    then have "x \<in> set (strings_Split ?raw CHR '':'')" using env(2) by (simp add: filepath_SplitList_def)
    then have "CHR '':'' \<notin> set (strings_TrimSpace x)" using Split_no_sep TrimSpace_chars by blast
    with Abs_chars [OF x(2), of "CHR '':''"] wd show ?thesis by auto
  qed
  have "filepath_SplitList (strings_Join (ds @ ?old) '':'') = ds @ ?old"
    by (rule SplitList_Join) (use colon env(1) in auto)
  with gen ds fin show thesis by (intro that [of ds]) auto
qed

section \<open>All checks\<close>

lemma verifySameUser_done:
  assumes "verifySameUser H u s = (Inr x, s')"
  shows "s' = s \<and> (\<exists>n. detectExecUser H = Inr n \<and> sameNormalizedUser u (normalizeUser n) (ho_GOOS H) (snd s ''COMPUTERNAME''))"
  using assms by (auto simp: verifySameUser_def io_fail_def io_then_def os_Getenv_def io_return_def split: sum.splits if_splits)

lemma verifyBuildEssential_env: "verifyBuildEssential H s = (r, s') \<Longrightarrow> s' = s"
  by (auto simp: verifyBuildEssential_def io_return_def io_fail_def io_then_def os_Getenv_def split: if_splits option.splits)

lemma check_tools_done:
  "check_tools H tools s = (Inr eff, s') \<Longrightarrow> s' = s \<and> map fst eff = tools
    \<and> (\<forall>(t, path)\<in>set eff. t \<noteq> ''build-essential'' \<longrightarrow> ho_LookPath H (snd s ''PATH'') t = Inr path)"
proof (induction tools arbitrary: eff)
  case (Cons t ts)
  let ?one = "if t = ''build-essential'' then io_then (verifyBuildEssential H) (\<lambda>_. io_return ''ok'')
       else (\<lambda>s. (case LookPath H t s of
         (Inl e, s1) \<Rightarrow> (Inl (ErrorText (''startup check failed: required tool '' @ fmt_q t @ '' not found in PATH'')), s1)
       | (Inr path, s1) \<Rightarrow> (Inr path, s1)))"
  obtain path s1 rest where 1: "?one s = (Inr path, s1)" and 2: "check_tools H ts s1 = (Inr rest, s')" "eff = (t, path) # rest"
    using Cons.prems by (auto simp: io_return_def dest!: io_then_Inr)
  have "s1 = s \<and> (t \<noteq> ''build-essential'' \<longrightarrow> ho_LookPath H (snd s ''PATH'') t = Inr path)"
    using 1 by (auto simp: LookPath_def os_Getenv_def io_then_def io_return_def dest: verifyBuildEssential_env
        split: if_splits prod.splits sum.splits)
  with Cons.IH [OF 2(1) [unfolded conjunct1 [OF this]]] 2 show ?case by auto
qed (simp add: io_return_def)

lemma startup_wrap_Inr: "startup_wrap what m s = (Inr x, s1) \<Longrightarrow> m s = (Inr x, s1)"
  by (auto simp: startup_wrap_def split: prod.splits sum.splits)

lemma startup_parts:
  assumes "RunStartupChecks H root True s = (Inr res, s')"
  obtains s1 u s2 where "lift_world (ensureRootDirWritable H root) s = (Inr (), s1)" and "ho_CurrentUser H = Inr u"
    and "su_CurrentUser res = normalizeUser u" and "ensureBuildToolPath H s1 = (Inr (), s2)"
    and "verifySameUser H (normalizeUser u) s2 = (Inr (), s2)" and "s' = s2"
    and "check_tools H (map fst (su_Effective res)) s2 = (Inr (su_Effective res), s2)"
    and "map fst (su_Effective res) = (if strings_TrimSpace (snd s2 envRequiredBuildTools) \<noteq> []
        then parseCommaList (strings_TrimSpace (snd s2 envRequiredBuildTools)) else [''cmake'', ''make'', ''build-essential''])"
proof -
  let ?last = "\<lambda>u effective. io_return \<lparr>su_CurrentUser = normalizeUser u, su_Effective = effective\<rparr>"
  let ?rest = "\<lambda>u. io_then (ensureBuildToolPath H) (\<lambda>_. io_then (verifySameUser H (normalizeUser u)) (\<lambda>_.
        io_then requiredBuildTools (\<lambda>tools. io_then (check_tools H tools) (?last u))))"
  have full: "io_then (startup_wrap ''startup check failed: root dir is not writable'' (lift_world (ensureRootDirWritable H root)))
      (\<lambda>_. io_then (startup_wrap ''startup check failed: resolve current user'' (\<lambda>s. (ho_CurrentUser H, s))) ?rest) s = (Inr res, s')"
    using assms by (simp add: RunStartupChecks_def Let_def)
  obtain v s1 where 1: "startup_wrap ''startup check failed: root dir is not writable'' (lift_world (ensureRootDirWritable H root)) s = (Inr v, s1)"
    and tail: "io_then (startup_wrap ''startup check failed: resolve current user'' (\<lambda>s. (ho_CurrentUser H, s))) ?rest s1 = (Inr res, s')"
    using io_then_Inr [OF full] by blast
  obtain u s1' where u: "startup_wrap ''startup check failed: resolve current user'' (\<lambda>s. (ho_CurrentUser H, s)) s1 = (Inr u, s1')"
    and rest: "?rest u s1' = (Inr res, s')" using io_then_Inr [OF tail] by blast
  have s1: "lift_world (ensureRootDirWritable H root) s = (Inr (), s1)" "ho_CurrentUser H = Inr u" "s1' = s1"
    using startup_wrap_Inr [OF 1] startup_wrap_Inr [OF u] by simp_all
  obtain x s2 where 2: "ensureBuildToolPath H s1 = (Inr x, s2)" and r2: "io_then (verifySameUser H (normalizeUser u)) (\<lambda>_.
        io_then requiredBuildTools (\<lambda>tools. io_then (check_tools H tools) (?last u))) s2 = (Inr res, s')"
    using io_then_Inr [OF rest] s1(3) by blast
  obtain y s3 where 3: "verifySameUser H (normalizeUser u) s2 = (Inr y, s3)" and r3: "io_then requiredBuildTools (\<lambda>tools.
        io_then (check_tools H tools) (?last u)) s3 = (Inr res, s')" using io_then_Inr [OF r2] by blast
  obtain tools s3' where 4: "requiredBuildTools s3 = (Inr tools, s3')" and r4: "io_then (check_tools H tools) (?last u) s3' = (Inr res, s')"
    using io_then_Inr [OF r3] by blast
  obtain eff s4 where 5: "check_tools H tools s3' = (Inr eff, s4)" and r5: "?last u eff s4 = (Inr res, s')" using io_then_Inr [OF r4] by blast
  have same: "s3' = s3" "s' = s4" "res = \<lparr>su_CurrentUser = normalizeUser u, su_Effective = eff\<rparr>"
    "tools = (if strings_TrimSpace (snd s3 envRequiredBuildTools) \<noteq> []
        then parseCommaList (strings_TrimSpace (snd s3 envRequiredBuildTools)) else [''cmake'', ''make'', ''build-essential''])"
    using 4 r5 by (auto simp: requiredBuildTools_def io_then_def os_Getenv_def io_return_def)
  have s3: "s3 = s2" using verifySameUser_done [OF 3] by simp
  with check_tools_done [OF 5] same have t: "s4 = s2" "map fst eff = tools" by simp_all
  show thesis by (rule that [OF s1(1,2)]) (use 2 3 5 s3 t same in auto)
qed

lemma looks_rest: "looks m \<Longrightarrow> m s = (r, s') \<Longrightarrow> looked (fst s) (fst s')"
  unfolding looks_def by blast

lemma first_missing_looks: "looks (verifySameUser H u)" "looks requiredBuildTools" "looks (ensureBuildToolPath H)"
proof -
  show "looks (verifySameUser H u)" unfolding verifySameUser_def by (auto intro!: looking split: sum.splits)
  show "looks requiredBuildTools" unfolding requiredBuildTools_def by (auto intro!: looking)
  have conf: "looked v v'" if "add_configured H dirs seen merged v = (r, v')" for dirs seen merged v r v'
    using that
  proof (induction H dirs seen merged v arbitrary: r v' rule: add_configured.induct)
    case (2 H dir dirs seen merged v)
    show ?case
    proof (cases "strings_TrimSpace dir = []")
      case True
      with "2.IH"(1) [OF refl True] "2.prems" show ?thesis by (simp add: Let_def)
    next
      case ne: False
      show ?thesis
      proof (cases "filepath_Abs (ho_Getwd H) (strings_TrimSpace dir)")
        case (Inr a)
        obtain q v1 where 1: "os_Stat a v = (q, v1)" by force
        note same = os_Stat_looked [OF 1]
        show ?thesis
        proof (cases "case q of Inl e \<Rightarrow> True | Inr st \<Rightarrow> \<not> is_dir st")
          case True
          with "2.prems" 1 Inr ne same show ?thesis by (simp add: Let_def)
        next
          case False
          show ?thesis
          proof (cases "dir_key a \<in> seen")
            case True
            have "add_configured H dirs seen merged v1 = (r, v')" using "2.prems" 1 Inr ne False True by (simp add: Let_def)
            from "2.IH"(2) [OF refl ne Inr 1 [symmetric] False True this] same show ?thesis by (metis looked_trans)
          next
            case fresh: False
            have "add_configured H dirs (insert (dir_key a) seen) (a # merged) v1 = (r, v')"
              using "2.prems" 1 Inr ne False fresh by (simp add: Let_def)
            from "2.IH"(3) [OF refl ne Inr 1 [symmetric] False fresh this] same show ?thesis by (metis looked_trans)
          qed
        qed
      qed (use "2.prems" ne in \<open>simp add: Let_def\<close>)
    qed
  qed simp
  show "looks (ensureBuildToolPath H)" unfolding ensureBuildToolPath_def Let_def
    by (intro looks_then looks_simple looks_world) (auto intro!: looking dest: conf split: prod.splits)
qed

lemma os_OpenExcl_quiet: "os_OpenExcl p w = (r, w') \<Longrightarrow> w_faults w = [] \<Longrightarrow> w_faults w' = []"
  by (auto simp: os_OpenExcl_def with_fault_def split: option.splits)

lemma os_CreateTemp_quiet:
  "os_CreateTemp H fuel i dir before after w = (r, w') \<Longrightarrow> w_faults w = [] \<Longrightarrow> w_faults w' = []"
proof (induction H fuel i dir before after w arbitrary: r w' rule: os_CreateTemp.induct)
  case (2 H fuel i dir before after w)
  let ?name = "(if dir \<noteq> [] \<and> last dir = CHR ''/'' then dir else dir @ ''/'') @ before @ ho_random H i @ after"
  obtain q w1 where 1: "os_OpenExcl ?name w = (q, w1)" by force
  note calm = os_OpenExcl_quiet [OF 1 "2.prems"(2)]
  show ?case
  proof (cases "\<exists>e. q = Inl e \<and> errors_Is e ErrExist")
    case True
    then obtain e where e: "q = Inl e" "errors_Is e ErrExist" by blast
    then have "os_CreateTemp H fuel (Suc i) dir before after w1 = (r, w')" using "2.prems"(1) 1 by (simp add: Let_def)
    from "2.IH" [OF refl 1 [symmetric] e this calm] show ?thesis .
  next
    case False
    then have "w' = w1" using "2.prems"(1) 1 by (cases q) (auto simp: Let_def)
    with calm show ?thesis by simp
  qed
qed simp

lemma os_Remove_quiet: "os_Remove p w = (r, w') \<Longrightarrow> w_faults w = [] \<Longrightarrow> w_faults w' = []"
  by (auto simp: os_Remove_def with_fault_def Let_def split: sum.splits node.splits if_splits)

lemma root_check_quiet:
  assumes run: "ensureRootDirWritable H dir w = (r, w')" and calm: "w_faults w = []"
  shows "w_faults w' = []"
proof -
  obtain r1 w1 where 1: "os_MkdirAll dir w = (r1, w1)" by force
  obtain r2 w2 where 2: "os_CreateTemp H 10000 0 dir ''.roodox-write-check-'' ''.tmp'' w1 = (r2, w2)" by force
  have calm1: "w_faults w1 = []" using os_MkdirAll_step [OF 1] calm by (simp add: fs_step_def)
  have calm2: "w_faults w2 = []" using os_CreateTemp_quiet [OF 2 calm1] .
  have close: "file_Close w2 = (Inr (), w2)" using calm2 by (simp add: file_Close_def with_fault_def)
  have "w' = w \<or> w' = w1 \<or> w' = w2 \<or> (\<exists>name. os_Remove name w2 = (r, w'))"
    using run close 1 2 by (cases r1; cases r2) (auto simp: ensureRootDirWritable_def io_then_def io_fail_def split: if_splits)
  then show ?thesis using calm calm1 calm2 os_Remove_quiet by blast
qed

lemma startup_checks_tree:
  assumes names: "\<And>i. plain_elems (D @ [temp_name H i])"
    and run: "RunStartupChecks H (at_path D) remote (w, env) = (r, (w', env'))"
  shows "(\<forall>k. \<not> prefix k D \<longrightarrow> tree_get (w_fs w') k = tree_get (w_fs w) k
      \<or> (\<exists>e. r = Inl e) \<and> tree_get (w_fs w) k = None \<and> (\<exists>i. k = D @ [temp_name H i]))
    \<and> (\<forall>x. r = Inr x \<longrightarrow> walk_dirs (w_fs w') [] D = None)
    \<and> (w_faults w = [] \<longrightarrow> w_faults w' = [])"
proof -
  obtain q w1 where 1: "ensureRootDirWritable H (at_path D) w = (q, w1)" by force
  note root = root_check [OF names 1] and calm = root_check_quiet [OF 1]
  let ?rest = "\<lambda>_. io_then (startup_wrap ''startup check failed: resolve current user'' (\<lambda>s. (ho_CurrentUser H, s))) (\<lambda>username.
      let user = normalizeUser username in
      if \<not> remote then io_return \<lparr>su_CurrentUser = user, su_Effective = []\<rparr>
      else
        io_then (ensureBuildToolPath H) (\<lambda>_.
        io_then (verifySameUser H user) (\<lambda>_.
        io_then requiredBuildTools (\<lambda>tools.
        io_then (check_tools H tools) (\<lambda>effective.
          io_return \<lparr>su_CurrentUser = user, su_Effective = effective\<rparr>)))))"
  have rest: "looks (?rest u)" for u :: unit
    unfolding Let_def by (intro looks_then looks_wrap) (auto intro!: looking first_missing_looks)
  show ?thesis
  proof (cases q)
    case (Inl e)
    with run 1 have "w' = w1" "\<exists>e. r = Inl e" by (auto simp: RunStartupChecks_def io_then_def startup_wrap_def lift_world_def)
    with root calm Inl show ?thesis by auto
  next
    case (Inr u)
    with run 1 have "?rest u (w1, env) = (r, (w', env'))"
      by (simp add: RunStartupChecks_def io_then_def startup_wrap_def lift_world_def)
    from looks_rest [OF rest this] have same: "looked w1 w'" by simp
    with root calm Inr show ?thesis by (auto simp: looked_def)
  qed
qed

text \<open>
  The checks of a start leave the shared directory as it was. Whatever fails, they change
  nothing but the directories down to the root, and add at most one empty temporary file to it, and
  not even that when they pass; the root is then a directory.
\<close>

theorem startup_checks_leave_root:
  assumes names: "\<And>i. plain_elems (D @ [temp_name H i])"
    and run: "RunStartupChecks H (at_path D) remote (w, env) = (r, (w', env'))"
  shows "(\<forall>k. \<not> prefix k D \<longrightarrow> tree_get (w_fs w') k = tree_get (w_fs w) k
      \<or> (\<exists>e. r = Inl e) \<and> tree_get (w_fs w) k = None \<and> (\<exists>i. k = D @ [temp_name H i]))
    \<and> (\<forall>x. r = Inr x \<longrightarrow> walk_dirs (w_fs w') [] D = None)"
  using startup_checks_tree [OF names run] by blast


section \<open>A host\<close>

definition sample_host :: host where
  "sample_host = \<lparr>ho_GOOS = ''linux'', ho_Getwd = Inr ''/w'', ho_CurrentUser = Inr ''Bob'',
     ho_LookPath = (\<lambda>path tool. if strings_HasPrefix path ''/t:'' then Inr (''/t/'' @ tool) else Inl (ErrorText ''not found'')),
     ho_CombinedOutput = (\<lambda>args. (''bob'' @ [CHR 0x0A], None)), ho_random = (\<lambda>i. strconv_decimal i)\<rparr>"

definition host_world :: world where
  "host_world = quiet_world [([''t''], Directory 0), ([''s''], Directory 0)] empty_db"

definition host_env :: environ where
  "host_env = (\<lambda>v. if v = ''PATH'' then ''/usr/bin'' else if v = envBuildToolDirs then '' /t '' else if v = envRequiredBuildTools
     then ''CMake, make,cmake'' else [])"

lemma sample_temp: "plain_elems ([''s''] @ [temp_name sample_host i])"
proof -
  have "slash \<notin> set (temp_name sample_host i)" using decimal_digits [of slash i] by (auto simp: temp_name_def sample_host_def)
  moreover have "temp_name sample_host i \<noteq> ''.''" "temp_name sample_host i \<noteq> ''..''" "temp_name sample_host i \<noteq> []"
    by (simp_all add: temp_name_def)
  ultimately show ?thesis by (simp add: plain_elem_def)
qed

theorem startup_checks_leave_root_witness:
  "\<exists>r w' env'. RunStartupChecks sample_host ''/s'' True (host_world\<lparr>w_faults := [None, None, Some (PathError ''close'' [] EIO)]\<rparr>, host_env)
      = (r, (w', env')) \<and> tree_get (w_fs w') [''t''] = Some (Directory 0)"
proof -
  let ?w = "host_world\<lparr>w_faults := [None, None, Some (PathError ''close'' [] EIO)]\<rparr>"
  obtain r w' env' where run: "RunStartupChecks sample_host (at_path [''s'']) True (?w, host_env) = (r, (w', env'))" by (metis prod.exhaust)
  have "\<not> prefix [''t''] [''s'']" "[''t''] \<noteq> [''s''] @ [x]" for x by simp_all
  with startup_checks_leave_root [OF sample_temp run] have "tree_get (w_fs w') [''t''] = tree_get (w_fs ?w) [''t'']" by metis
  with run show ?thesis by (auto simp: host_world_def quiet_world_def tree_get_def render_path_def)
qed


end
