(* ===== verification/Lifecycle.thy ===== *)
theory Lifecycle
  imports AdminRuntime PreflightLaws RestoreExact Interceptors BuildService
begin

text \<open>
  \<open>internal/serverapp/runtime.go\<close> with the lock file of \<open>internal/serverapp/instance_lock_other.go\<close> and
  the reporter of \<open>internal/serverapp/observability_reporter.go\<close>: how the process starts, from the
  configuration to a listener, and what it holds while it runs: lock files in the tree, handles of
  the database, listeners, goroutines and the writer of the log.

  SQLite and the network are parameters: what opening a database file does, what \<open>net.Listen\<close>
  answers, which hosts \<open>net.ParseIP\<close> takes for loopback addresses, and the loading of a key pair.
  The constructors of the stores cannot fail, so their error branches are left out.
\<close>

section \<open>What a process holds\<close>

datatype goroutine = BuildCleanup | ArtifactJanitor | ConflictJanitor | LogJanitor | Reporter | DbMaintenance | Serving

record process =
  pr_world :: world
  pr_env :: environ
  pr_databases :: nat
  pr_listeners :: "string list"
  pr_goroutines :: "goroutine list"
  pr_logTriggers :: nat

type_synonym 'a action = "process \<Rightarrow> 'a result \<times> process"

definition in_process :: "'a io \<Rightarrow> 'a action" where
  "in_process m p = (case m (pr_world p) of (r, w) \<Rightarrow> (r, p\<lparr>pr_world := w\<rparr>))"

definition in_startup :: "'a startup \<Rightarrow> 'a action" where
  "in_startup m p = (case m (pr_world p, pr_env p) of (r, w, env) \<Rightarrow> (r, p\<lparr>pr_world := w, pr_env := env\<rparr>))"

text \<open>The text around an error, and the clean-up that follows one.\<close>

definition on_error :: "'a action \<Rightarrow> string \<Rightarrow> (process \<Rightarrow> process) \<Rightarrow> 'a action" where
  "on_error m what undo p =
    (case m p of (Inl e, p1) \<Rightarrow> (Inl (Wrapf (what @ '': '') e []), undo p1) | (Inr x, p1) \<Rightarrow> (Inr x, p1))"

definition proc_Setenv :: "string \<Rightarrow> string \<Rightarrow> unit action" where
  "proc_Setenv name value p = (Inr (), p\<lparr>pr_env := (pr_env p)(name := value)\<rparr>)"

definition spawn :: "goroutine list \<Rightarrow> unit action" where
  "spawn gs p = (Inr (), p\<lparr>pr_goroutines := pr_goroutines p @ gs\<rparr>)"

definition close_goroutines :: "goroutine list \<Rightarrow> process \<Rightarrow> process" where
  "close_goroutines gs p = p\<lparr>pr_goroutines := fold remove1 gs (pr_goroutines p)\<rparr>"

definition close_database :: "process \<Rightarrow> process" where
  "close_database p = p\<lparr>pr_databases := pr_databases p - 1\<rparr>"

definition close_listener :: "string \<Rightarrow> process \<Rightarrow> process" where
  "close_listener addr p = p\<lparr>pr_listeners := remove1 addr (pr_listeners p)\<rparr>"

definition restore_log :: "bool \<Rightarrow> process \<Rightarrow> process" where
  "restore_log installed p = (if installed then p\<lparr>pr_logTriggers := pr_logTriggers p - 1\<rparr> else p)"

section \<open>Locks\<close>

definition acquireInstanceLock :: "goerr + string \<Rightarrow> string \<Rightarrow> string io" where
  "acquireInstanceLock getwd resourcePath w =
    (case filepath_Abs getwd resourcePath of
       Inl e \<Rightarrow> (Inl e, w)
     | Inr absPath \<Rightarrow>
       (let lockPath = absPath @ ''.lock'' in
        case os_OpenExcl lockPath w of
          (Inl e, w1) \<Rightarrow> (Inl (Wrapf (''database instance lock already held for '' @ absPath @ '': '') e []), w1)
        | (Inr _, w1) \<Rightarrow> (Inr lockPath, snd (file_Close w1))))"

definition instance_Release :: "string \<Rightarrow> process \<Rightarrow> process" where
  "instance_Release path p =
    p\<lparr>pr_world := (if path = [] then pr_world p else snd (os_Remove path (pr_world p)))\<rparr>"

section \<open>Checks of the configuration\<close>

record boot =
  bo_host :: host
  bo_hostname :: "string result"
  bo_OpenDatabase :: "string \<Rightarrow> unit io"
  bo_sqlite :: "string \<Rightarrow> sqlite"
  bo_Listen :: "string \<Rightarrow> string result"
  bo_IsLoopbackIP :: "string \<Rightarrow> bool"
  bo_numCPU :: int
  bo_tempDir :: string
  bo_format :: "gotime \<Rightarrow> string"

definition isLoopbackListenAddress :: "(string \<Rightarrow> bool) \<Rightarrow> string \<Rightarrow> bool" where
  "isLoopbackListenAddress isLoopbackIP addr =
    (case net_SplitHostPort (strings_TrimSpace addr) of
       None \<Rightarrow> False
     | Some (host0, _) \<Rightarrow>
       (let host = strings_Trim host0 ''[]'' in
        host \<noteq> [] \<and> (strings_EqualFold host ''localhost'' \<or> isLoopbackIP host)))"

definition validateInsecureAuthBinding :: "(string \<Rightarrow> bool) \<Rightarrow> Config \<Rightarrow> unit result" where
  "validateInsecureAuthBinding isLoopbackIP cfg =
    (if \<not> c_AuthEnabled cfg \<or> c_TLSEnabled cfg then Inr ()
     else if isLoopbackListenAddress isLoopbackIP (c_Addr cfg) then Inr ()
     else Inl (ErrorText ''auth without tls is only allowed on loopback addresses; enable tls or bind addr to 127.0.0.1/::1''))"

text \<open>Relative paths: against the working directory, or cleaned when that is not known.\<close>

definition resolve_dbPath :: "Config \<Rightarrow> string" where
  "resolve_dbPath cfg =
    (let dbPath = (if strings_TrimSpace (c_DBPath cfg) = [] then ''roodox.db'' else c_DBPath cfg) in
     if \<not> filepath_IsAbs dbPath then filepath_Clean dbPath else dbPath)"

definition resolve_stateDir :: "goerr + string \<Rightarrow> Config \<Rightarrow> string" where
  "resolve_stateDir getwd cfg =
    (let stateDir = (if strings_TrimSpace (rt_StateDir (c_Runtime cfg)) = [] then ''runtime'' else rt_StateDir (c_Runtime cfg)) in
     if \<not> filepath_IsAbs stateDir
     then (case getwd of Inr cwd \<Rightarrow> filepath_Join [cwd, stateDir] | Inl e \<Rightarrow> filepath_Clean stateDir)
     else stateDir)"

definition resolve_backupDir :: "goerr + string \<Rightarrow> Config \<Rightarrow> string" where
  "resolve_backupDir getwd cfg =
    (let backupDir = strings_TrimSpace (dc_BackupDir (c_Database cfg)) in
     if backupDir \<noteq> [] \<and> \<not> filepath_IsAbs backupDir
     then (case getwd of Inr cwd \<Rightarrow> filepath_Join [cwd, backupDir] | Inl e \<Rightarrow> backupDir)
     else backupDir)"

definition resolve_logDir :: "goerr + string \<Rightarrow> Config \<Rightarrow> string" where
  "resolve_logDir getwd cfg =
    (let logDir = lf_Dir (cl_LogFiles (c_Cleanup cfg)) in
     if \<not> filepath_IsAbs logDir then (case getwd of Inr cwd \<Rightarrow> filepath_Join [cwd, logDir] | Inl e \<Rightarrow> logDir) else logDir)"

section \<open>The services of a configuration\<close>

definition seconds :: "int \<Rightarrow> duration" where
  "seconds n = n * second"

definition conflict_policy :: "Config \<Rightarrow> duration \<times> int \<times> duration" where
  "conflict_policy cfg =
    (let c = cl_ConflictFiles (c_Cleanup cfg) in
     if cf_Enabled c then (seconds (cf_RetentionSeconds c), cf_MaxCopiesPerPath c, seconds (cf_IntervalSeconds c)) else (0, 0, 0))"

definition build_config :: "Config \<Rightarrow> BuildConfig" where
  "build_config cfg =
    (let b = cl_BuildWorkdirs (c_Cleanup cfg) in
     \<lparr>b_RootDir = c_RootDir cfg, b_RemoteEnabled = c_RemoteBuildEnabled cfg, b_MaxWorkers = 0,
      b_JobTTL = seconds (bd_RetentionSeconds b), b_MaxRetainedJobs = 0, b_MaxRetainedBytes = bd_MaxBytes b,
      b_CleanupInterval = seconds (bd_IntervalSeconds b), b_MaxLogBytes = 0, b_TempRoot = []\<rparr>)"

definition maintenance_config :: "goerr + string \<Rightarrow> Config \<Rightarrow> MaintenanceConfig" where
  "maintenance_config getwd cfg =
    (let d = c_Database cfg in
     \<lparr>mc_CheckpointInterval = seconds (dc_CheckpointIntervalSeconds d), mc_CheckpointMode = dc_CheckpointMode d,
      mc_BackupDir = resolve_backupDir getwd cfg, mc_BackupInterval = seconds (dc_BackupIntervalSeconds d),
      mc_BackupKeepLatest = dc_BackupKeepLatest d\<rparr>)"

definition artifact_config :: "Config \<Rightarrow> CleanupRuntimeConfig" where
  "artifact_config cfg =
    (let c = cl_TempArtifacts (c_Cleanup cfg) in
     \<lparr>cc_Enabled = ta_Enabled c, cc_Interval = seconds (ta_IntervalSeconds c), cc_Retention = seconds (ta_RetentionSeconds c),
      cc_MaxBytes = ta_MaxBytes c, cc_Patterns = ta_Prefixes c\<rparr>)"

definition conflict_config :: "Config \<Rightarrow> CleanupRuntimeConfig" where
  "conflict_config cfg =
    (let c = cl_ConflictFiles (c_Cleanup cfg) in
     \<lparr>cc_Enabled = cf_Enabled c, cc_Interval = seconds (cf_IntervalSeconds c), cc_Retention = seconds (cf_RetentionSeconds c),
      cc_MaxBytes = cf_MaxBytes c, cc_Patterns = []\<rparr>)"

definition log_config :: "Config \<Rightarrow> CleanupRuntimeConfig" where
  "log_config cfg =
    (let c = cl_LogFiles (c_Cleanup cfg) in
     \<lparr>cc_Enabled = lf_Enabled c, cc_Interval = seconds (lf_IntervalSeconds c), cc_Retention = seconds (lf_RetentionSeconds c),
      cc_MaxBytes = lf_MaxBytes c, cc_Patterns = lf_Patterns c\<rparr>)"

text \<open>The janitors a configuration starts; the reporter and the maintenance of the database always exist.\<close>

definition janitors_of :: "goerr + string \<Rightarrow> Config \<Rightarrow> goroutine list" where
  "janitors_of getwd cfg =
    (if newArtifactJanitor (c_RootDir cfg) (artifact_config cfg) \<noteq> None then [ArtifactJanitor] else [])
    @ (if newConflictFileJanitor (c_RootDir cfg) (conflict_config cfg) \<noteq> None then [ConflictJanitor] else [])
    @ (if newLogFileJanitor (resolve_logDir getwd cfg) (log_config cfg) \<noteq> None then [LogJanitor] else [])
    @ [Reporter, DbMaintenance]"

text \<open>Which of them runs a goroutine: the maintenance only when something is to be done.\<close>

definition running_janitors :: "maintenance \<Rightarrow> goroutine list \<Rightarrow> goroutine list" where
  "running_janitors m js = filter (\<lambda>j. j \<noteq> DbMaintenance \<or> mm_runner m \<noteq> None) js"

record CleanupHooks =
  hk_OnMutation :: "goroutine option"
  hk_OnConflict :: "goroutine option"

definition cleanup_hooks :: "goroutine list \<Rightarrow> CleanupHooks" where
  "cleanup_hooks js =
    \<lparr>hk_OnMutation = (if ArtifactJanitor \<in> set js then Some ArtifactJanitor else None),
     hk_OnConflict = (if ConflictJanitor \<in> set js then Some ConflictJanitor else None)\<rparr>"

section \<open>The start\<close>

definition DefaultConfig :: RecorderConfig where
  "DefaultConfig = \<lparr>rc_RPCLatencySampleSize = 256, rc_SmallWriteThreshold = 64 * 1024, rc_SmallWriteWindow = second,
     rc_SmallWriteBurstMinimum = 4\<rparr>"

record ('a, 'c) started =
  sd_runtime :: Runtime
  sd_serviceLock :: string
  sd_dbLock :: string
  sd_buildSvc :: build_service
  sd_conflictPolicy :: "duration \<times> int \<times> duration"
  sd_janitors :: "goroutine list"
  sd_hooks :: CleanupHooks
  sd_logTrigger :: bool
  sd_cleaned :: bool
  sd_options :: "('a, 'c) server_options"

text \<open>Everything after the locks and the database, which is released again by its errors.\<close>

definition start_services :: "boot \<Rightarrow> (string \<Rightarrow> string \<Rightarrow> 'c io) \<Rightarrow> Config \<Rightarrow> string \<Rightarrow> string \<Rightarrow> string
    \<Rightarrow> ('a, 'c) started action" where
  "start_services B load cfg dbPath serviceLock dbLock =
    (let getwd = ho_Getwd (bo_host B); js = janitors_of getwd cfg;
         dbMaint = newDatabaseMaintenanceManager (bo_sqlite B dbPath) (maintenance_config getwd cfg);
         logTrigger = LogJanitor \<in> set js;
         running = running_janitors dbMaint js;
         undo = (\<lambda>p. instance_Release serviceLock (instance_Release dbLock (close_database (close_goroutines running (restore_log logTrigger p))))) in
     io_then (spawn [BuildCleanup]) (\<lambda>_.
     io_then (spawn running) (\<lambda>_.
     io_then (\<lambda>p. (Inr (), if logTrigger then p\<lparr>pr_logTriggers := pr_logTriggers p + 1\<rparr> else p)) (\<lambda>_.
     io_then (on_error (in_process (BuildGRPCServerOptions (bo_format B) load
         \<lparr>sc_AuthEnabled = c_AuthEnabled cfg, sc_SharedSecret = c_SharedSecret cfg, sc_TLSEnabled = c_TLSEnabled cfg,
          sc_TLSCertPath = c_TLSCertPath cfg, sc_TLSKeyPath = c_TLSKeyPath cfg\<rparr>)) ''configure grpc security failed'' undo) (\<lambda>grpcOpts.
     io_then (on_error (\<lambda>p. (case bo_Listen B (c_Addr cfg) of
           Inl e \<Rightarrow> (Inl e, p) | Inr addr \<Rightarrow> (Inr addr, p\<lparr>pr_listeners := pr_listeners p @ [addr]\<rparr>)))
         ''listen failed'' undo) (\<lambda>lis.
     io_then (in_process io_now) (\<lambda>startedAt.
     io_then (spawn [Serving]) (\<lambda>_.
       io_return
        \<lparr>sd_runtime = \<lparr>run_lis = Some lis, run_database = bo_sqlite B dbPath,
           run_metrics = Some (NewRecorder DefaultConfig),
           run_dbMaint = Some dbMaint, run_running = True, run_lastErr = [], run_cfg = cfg, run_startedAt = startedAt,
           run_shutdownAt = None, run_shutdownMsg = [], run_pendingStops = []\<rparr>,
         sd_serviceLock = serviceLock, sd_dbLock = dbLock,
         sd_buildSvc = NewBuildService (bo_numCPU B) (bo_tempDir B) (build_config cfg),
         sd_conflictPolicy = conflict_policy cfg, sd_janitors = js, sd_hooks = cleanup_hooks js, sd_logTrigger = logTrigger,
         sd_cleaned = False, sd_options = grpcOpts\<rparr>))))))))"

text \<open>From the locks on; a lock that was taken is given back when the next step fails.\<close>

definition start_locked :: "boot \<Rightarrow> (string \<Rightarrow> string \<Rightarrow> 'c io) \<Rightarrow> Config \<Rightarrow> string \<Rightarrow> string \<Rightarrow> ('a, 'c) started action" where
  "start_locked B load cfg dbPath stateDir =
    (let getwd = ho_Getwd (bo_host B) in
     io_then (on_error (in_process (acquireInstanceLock getwd (filepath_Join [stateDir, ''service.instance''])))
         ''acquire runtime instance lock failed'' (\<lambda>p. p)) (\<lambda>serviceLock.
     io_then (on_error (in_process (acquireInstanceLock getwd dbPath)) ''acquire db instance lock failed''
         (instance_Release serviceLock)) (\<lambda>dbLock.
     io_then (on_error (\<lambda>p. (case in_process (bo_OpenDatabase B dbPath) p of
           (Inl e, p1) \<Rightarrow> (Inl e, p1) | (Inr u, p1) \<Rightarrow> (Inr u, p1\<lparr>pr_databases := pr_databases p1 + 1\<rparr>)))
         ''open db failed'' (\<lambda>p. instance_Release serviceLock (instance_Release dbLock p))) (\<lambda>_.
       start_services B load cfg dbPath serviceLock dbLock))))"

definition Start :: "boot \<Rightarrow> (string \<Rightarrow> string \<Rightarrow> 'c io) \<Rightarrow> Config \<Rightarrow> ('a, 'c) started action" where
  "Start B load cfg =
    (let dbPath = resolve_dbPath cfg; stateDir = resolve_stateDir (ho_Getwd (bo_host B)) cfg in
     io_then (if c_BuildToolDirs cfg \<noteq> [] then proc_Setenv envBuildToolDirs (strings_Join (c_BuildToolDirs cfg) '':'') else io_return ()) (\<lambda>_.
     io_then (if c_RequiredBuildTools cfg \<noteq> [] then proc_Setenv envRequiredBuildTools (strings_Join (c_RequiredBuildTools cfg) '','')
       else io_return ()) (\<lambda>_.
     io_then (\<lambda>p. (validateInsecureAuthBinding (bo_IsLoopbackIP B) cfg, p)) (\<lambda>_.
     io_then (in_startup (RunStartupChecks (bo_host B) (c_RootDir cfg) (c_RemoteBuildEnabled cfg))) (\<lambda>_.
     io_then (on_error (in_process (os_MkdirAll stateDir)) ''create runtime state dir failed'' (\<lambda>p. p)) (\<lambda>_.
       start_locked B load cfg dbPath stateDir))))))"

section \<open>The end\<close>

text \<open>
  \<open>cleanup\<close> in its order, and the goroutine that serves: when \<open>Serve\<close> returns, it cleans up and passes
  on its error when that is not the mark of a stop.
\<close>

definition cleanup_steps :: "('a, 'c) started \<Rightarrow> (process \<Rightarrow> process) list" where
  "cleanup_steps s =
    (let r = sd_runtime s in
     [(case run_lis r of None \<Rightarrow> (\<lambda>p. p) | Some lis \<Rightarrow> close_listener lis),
      close_goroutines [BuildCleanup],
      restore_log (sd_logTrigger s),
      (case run_dbMaint r of None \<Rightarrow> (\<lambda>p. p) | Some m \<Rightarrow> close_goroutines (running_janitors m (sd_janitors s))),
      instance_Release (sd_serviceLock s),
      instance_Release (sd_dbLock s),
      close_database])"

definition cleanup :: "('a, 'c) started \<Rightarrow> process \<Rightarrow> ('a, 'c) started \<times> process" where
  "cleanup s p =
    (if sd_cleaned s then (s, p)
     else (s\<lparr>sd_cleaned := True, sd_runtime := (sd_runtime s)\<lparr>run_running := False\<rparr>\<rparr>, fold (\<lambda>f. f) (cleanup_steps s) p))"

text \<open>\<open>errors.Is\<close> for a package variable that is known by its text.\<close>

fun chain_has :: "string \<Rightarrow> goerr \<Rightarrow> bool" where
  "chain_has t (ErrorText u) = (u = t)"
| "chain_has t (Wrapf a e b) = chain_has t e"
| "chain_has t e = False"

abbreviation ErrServerStopped :: string where "ErrServerStopped \<equiv> ''grpc: the server has been stopped''"
abbreviation ErrClosed :: string where "ErrClosed \<equiv> ''use of closed network connection''"

definition isExpectedServerStop :: "goerr option \<Rightarrow> bool" where
  "isExpectedServerStop err =
    (case err of
       None \<Rightarrow> True
     | Some e \<Rightarrow> chain_has ErrServerStopped e \<or> chain_has ErrClosed e
         \<or> strings_Contains (strings_ToLower (err_Error e)) ''use of closed network connection'')"

definition serving_ended :: "goerr option \<Rightarrow> ('a, 'c) started \<Rightarrow> process \<Rightarrow> ('a, 'c) started \<times> process \<times> goerr option" where
  "serving_ended err s p =
    (case cleanup s p of
       (s1, p1) \<Rightarrow>
       (let p2 = close_goroutines [Serving] p1 in
        case err of
          Some e \<Rightarrow>
            if \<not> isExpectedServerStop err
            then (s1\<lparr>sd_runtime := (sd_runtime s1)\<lparr>run_lastErr := err_Error e\<rparr>\<rparr>, p2, err)
            else (s1, p2, None)
        | None \<Rightarrow> (s1, p2, None)))"

section \<open>Small operations\<close>

definition stopTimeout :: "Config \<Rightarrow> duration" where
  "stopTimeout cfg = seconds (if rt_GracefulStopTimeoutSeconds (c_Runtime cfg) \<le> 0 then 3 else rt_GracefulStopTimeoutSeconds (c_Runtime cfg))"

definition EnsureHealthy :: "Runtime \<Rightarrow> goerr option" where
  "EnsureHealthy r =
    (if \<not> run_running r then Some (ErrorText (if run_lastErr r \<noteq> [] then run_lastErr r else ''server is not running'')) else None)"

definition Status :: "Runtime \<Rightarrow> bool \<times> string \<times> string \<times> bool \<times> string" where
  "Status r = (run_running r, c_Addr (run_cfg r), c_RootDir (run_cfg r), c_RemoteBuildEnabled (run_cfg r), run_lastErr r)"

text \<open>The reporter writes a snapshot to the log and comes back after its interval.\<close>

definition reporter_interval :: "duration \<Rightarrow> duration" where
  "reporter_interval interval = (if interval \<le> 0 then 5 * 60 * second else interval)"

definition reporter_report :: "duration \<Rightarrow> gotime \<Rightarrow> gotime" where
  "reporter_report interval now = now + reporter_interval interval"

end
