(* ===== verification/LifecycleLaws.thy ===== *)
theory LifecycleLaws
  imports Lifecycle
begin

text \<open>
  The start of the process: what a start that fails leaves behind, what a start that succeeds keeps
  out, and what is left when the process is done.
\<close>

section \<open>Lock files\<close>

definition held :: "string list \<Rightarrow> world \<Rightarrow> bool" where
  "held L w \<longleftrightarrow> (\<exists>m. lookup_node (w_fs w) L = Inr (File [] m))"

definition lock_key :: "string list \<Rightarrow> string \<Rightarrow> string list" where
  "lock_key D b = D @ [b @ ''.lock'']"

abbreviation service_key :: "string list \<Rightarrow> string list" where
  "service_key S \<equiv> lock_key S ''service.instance''"

lemma lock_key_plain: "plain_elems (D @ [b]) \<Longrightarrow> plain_elems (lock_key D b)"
  by (auto simp: lock_key_def plain_elem_def append_eq_Cons_conv)

lemma held_get: "held L w \<Longrightarrow> \<exists>m. tree_get (w_fs w) L = Some (File [] m)"
  by (auto simp: held_def lookup_node_def split: option.splits)

lemma held_cong: "(\<And>k. prefix k L \<Longrightarrow> tree_get (w_fs w') k = tree_get (w_fs w) k) \<Longrightarrow> held L w' = held L w"
  using lookup_node_cong [of L "w_fs w'" "w_fs w"] by (simp add: held_def)

lemma OpenExcl_made:
  assumes "os_OpenExcl p w = (Inr u, w')"
  shows "walk_dirs (w_fs w) [] (butlast (path_elems p)) = None \<and> tree_get (w_fs w) (path_elems p) = None
    \<and> w_fs w' = tree_put (path_elems p) (File [] (w_clock w)) (w_fs w)"
  using assms unfolding os_OpenExcl_def by (rule with_fault_cases) (auto split: option.splits)

lemma acquire_cases:
  assumes pl: "plain_elems (D @ [b])" and run: "acquireInstanceLock getwd (at_path (D @ [b])) w = (r, w')"
  obtains (refused) e where "r = Inl e" and "w_fs w' = w_fs w"
  | (granted) m where "r = Inr (at_path (lock_key D b))" and "tree_get (w_fs w) (lock_key D b) = None"
      and "w_fs w' = tree_put (lock_key D b) (File [] m) (w_fs w)" and "held (lock_key D b) w'"
proof -
  note pk = lock_key_plain [OF pl]
  have abs: "filepath_Abs getwd (at_path (D @ [b])) = Inr (at_path (D @ [b]))" by (rule filepath_Abs_path [OF pl])
  have name: "at_path (D @ [b]) @ ''.lock'' = at_path (lock_key D b)" by (simp add: at_path_append lock_key_def)
  obtain q w1 where 1: "os_OpenExcl (at_path (lock_key D b)) w = (q, w1)" by force
  obtain c w2 where 2: "file_Close w1 = (c, w2)" by force
  show thesis
  proof (cases q)
    case (Inl e)
    with run 1 name abs have "w' = w1" "\<exists>e. r = Inl e" by (auto simp: acquireInstanceLock_def Let_def)
    with os_OpenExcl_new [OF 1] Inl refused show thesis using 1
      by (auto simp: os_OpenExcl_def elim!: with_fault_cases split: option.splits)
  next
    case (Inr u)
    note made = OpenExcl_made [OF 1 [unfolded Inr], unfolded at_path_elems [OF pk]]
    have out: "r = Inr (at_path (lock_key D b))" "w_fs w' = w_fs w1"
      using run 1 2 name abs Inr file_Close_same [OF 2] by (simp_all add: acquireInstanceLock_def Let_def)
    have walk: "walk_dirs (w_fs w') [] D = walk_dirs (w_fs w) [] D"
      by (rule walk_dirs_cong) (use out made in \<open>auto simp: tree_get_put lock_key_def prefix_def\<close>)
    have "held (lock_key D b) w'" using out made walk by (simp add: held_def lookup_node_def lock_key_def tree_get_put)
    with out made granted show thesis by simp
  qed
qed

lemma acquire_quiet: "acquireInstanceLock getwd p w = (r, w') \<Longrightarrow> w_faults w = [] \<Longrightarrow> w_faults w' = []"
proof -
  assume run: "acquireInstanceLock getwd p w = (r, w')" and calm: "w_faults w = []"
  have close: "file_Close v = (Inr (), v)" if "w_faults v = []" for v using that by (simp add: file_Close_def with_fault_def)
  show ?thesis using run calm os_OpenExcl_quiet close
    by (auto simp: acquireInstanceLock_def Let_def split: sum.splits prod.splits dest!: os_OpenExcl_quiet [OF _ calm])
qed

lemma release_held:
  assumes "w_faults (pr_world p) = []" and "held L (pr_world p)" and "plain_elems L"
  shows "instance_Release (at_path L) p = p\<lparr>pr_world := (pr_world p)\<lparr>w_fs := tree_del L (w_fs (pr_world p))\<rparr>\<rparr>"
  using assms at_path_ne
  by (auto simp: instance_Release_def os_Remove_def with_fault_def held_def at_path_elems Let_def)

lemma release_keeps:
  assumes "plain_elems L" and "k \<noteq> L"
  shows "tree_get (w_fs (pr_world (instance_Release (at_path L) p))) k = tree_get (w_fs (pr_world p)) k"
proof -
  obtain r w where "os_Remove (at_path L) (pr_world p) = (r, w)" by force
  with os_Remove_fs [OF this] assms at_path_ne show ?thesis
    by (auto simp: instance_Release_def at_path_elems tree_get_del)
qed

lemma release_parts [simp]:
  "pr_databases (instance_Release L p) = pr_databases p" "pr_listeners (instance_Release L p) = pr_listeners p"
  "pr_goroutines (instance_Release L p) = pr_goroutines p" "pr_logTriggers (instance_Release L p) = pr_logTriggers p"
  by (simp_all add: instance_Release_def)

lemma release_both:
  assumes "w_faults (pr_world p) = []" and "held L (pr_world p)" and "held M (pr_world p)"
    and "plain_elems L" and "plain_elems M" and "\<not> prefix M L" and "L \<noteq> []"
  shows "\<exists>t. instance_Release (at_path L) (instance_Release (at_path M) p) = p\<lparr>pr_world := (pr_world p)\<lparr>w_fs := t\<rparr>\<rparr>
    \<and> tree_get t L = None \<and> tree_get t M = None \<and> (\<forall>k. k \<noteq> L \<and> k \<noteq> M \<longrightarrow> tree_get t k = tree_get (w_fs (pr_world p)) k)"
proof -
  let ?w = "(pr_world p)\<lparr>w_fs := tree_del M (w_fs (pr_world p))\<rparr>"
  have "tree_get (w_fs ?w) k = tree_get (w_fs (pr_world p)) k" if "prefix k L" for k using that assms(6) by (auto simp: tree_get_del)
  with assms(2) have "held L ?w" using held_cong [of L ?w "pr_world p"] by blast
  then have "instance_Release (at_path L) (p\<lparr>pr_world := ?w\<rparr>)
      = p\<lparr>pr_world := (pr_world p)\<lparr>w_fs := tree_del L (tree_del M (w_fs (pr_world p)))\<rparr>\<rparr>"
    using assms(1,4) release_held [of "p\<lparr>pr_world := ?w\<rparr>" L] by simp
  with release_held [OF assms(1,3,5)] show ?thesis
    by (intro exI [of _ "tree_del L (tree_del M (w_fs (pr_world p)))"]) (use assms(6,7) in \<open>auto simp: tree_get_del\<close>)
qed

section \<open>What a call leaves alone\<close>

definition same_resources :: "process \<Rightarrow> process \<Rightarrow> bool" where
  "same_resources p p' \<longleftrightarrow> pr_databases p' = pr_databases p \<and> pr_listeners p' = pr_listeners p
    \<and> pr_goroutines p' = pr_goroutines p \<and> pr_logTriggers p' = pr_logTriggers p"

text \<open>Neither the paths nor their parents change, and no fault appears.\<close>

definition leaves :: "string list set \<Rightarrow> 'a io \<Rightarrow> bool" where
  "leaves Ls m \<longleftrightarrow> (\<forall>w r w'. m w = (r, w') \<longrightarrow> (w_faults w = [] \<longrightarrow> w_faults w' = [])
    \<and> (\<forall>L\<in>Ls. \<forall>k. prefix k L \<longrightarrow> tree_get (w_fs w') k = tree_get (w_fs w) k))"

lemma leaves_held: "leaves Ls m \<Longrightarrow> m w = (r, w') \<Longrightarrow> L \<in> Ls \<Longrightarrow> held L w' = held L w"
  using held_cong [of L w' w] unfolding leaves_def by blast

lemma leaves_get: "leaves Ls m \<Longrightarrow> m w = (r, w') \<Longrightarrow> L \<in> Ls \<Longrightarrow> tree_get (w_fs w') L = tree_get (w_fs w) L"
  unfolding leaves_def by blast

lemma leaves_quiet: "leaves Ls m \<Longrightarrow> m w = (r, w') \<Longrightarrow> w_faults w = [] \<Longrightarrow> w_faults w' = []"
  unfolding leaves_def by blast

lemma options_leave:
  assumes "leaves Ls (load (sc_TLSCertPath c) (sc_TLSKeyPath c))" shows "leaves Ls (BuildGRPCServerOptions fmt load c)"
  unfolding leaves_def
proof (intro allI impI)
  fix w r w' assume "BuildGRPCServerOptions fmt load c w = (r, w')"
  then have "w' = w \<or> (\<exists>q. load (sc_TLSCertPath c) (sc_TLSKeyPath c) w = (q, w'))"
    by (auto simp: BuildGRPCServerOptions_def Let_def split: if_splits prod.splits sum.splits)
  with assms show "(w_faults w = [] \<longrightarrow> w_faults w' = [])
      \<and> (\<forall>L\<in>Ls. \<forall>k. prefix k L \<longrightarrow> tree_get (w_fs w') k = tree_get (w_fs w) k)"
    unfolding leaves_def by blast
qed

text \<open>Calls before the locks: nothing is acquired, and nothing happens at the given keys.\<close>

definition unchanged :: "string list set \<Rightarrow> process \<Rightarrow> process \<Rightarrow> bool" where
  "unchanged Ls p p' \<longleftrightarrow> same_resources p p' \<and> (w_faults (pr_world p) = [] \<longrightarrow> w_faults (pr_world p') = [])
    \<and> (\<forall>L\<in>Ls. tree_get (w_fs (pr_world p')) L = tree_get (w_fs (pr_world p)) L)"

lemma unchanged_trans: "unchanged Ls p q \<Longrightarrow> unchanged Ls q p' \<Longrightarrow> unchanged Ls p p'"
  by (simp add: unchanged_def same_resources_def)

definition early :: "string list set \<Rightarrow> 'a action \<Rightarrow> bool" where
  "early Ls m \<longleftrightarrow> (\<forall>p r p'. m p = (r, p') \<longrightarrow> unchanged Ls p p')"

named_theorems earlies

lemma early_then:
  assumes "early Ls m" and "io_then m f p = (r, p')"
  obtains (stopped) e where "r = Inl e" and "unchanged Ls p p'"
  | (went_on) x p1 where "f x p1 = (r, p')" and "unchanged Ls p p1"
proof -
  obtain q p1 where m: "m p = (q, p1)" by force
  with assms(1) have "unchanged Ls p p1" unfolding early_def by blast
  with assms(2) m that show thesis by (cases q) (auto simp: io_then_def)
qed

lemma early_simple [earlies]: "early Ls (io_return x)" "early Ls (proc_Setenv n v)" "early Ls (\<lambda>p. (q, p))"
  by (auto simp: early_def io_return_def proc_Setenv_def unchanged_def same_resources_def)

lemma early_if [earlies]: "early Ls m \<Longrightarrow> early Ls n \<Longrightarrow> early Ls (if c then m else n)"
  by simp

lemma early_on_error [earlies]: "early Ls m \<Longrightarrow> early Ls (on_error m what (\<lambda>p. p))"
  unfolding early_def on_error_def by (fastforce split: prod.splits sum.splits)

lemma early_MkdirAll [earlies]:
  assumes "\<forall>L\<in>Ls. \<not> prefix L D" and "plain_elems D"
  shows "early Ls (in_process (os_MkdirAll (at_path D)))"
  unfolding early_def
proof (intro allI impI)
  fix p r p' assume "in_process (os_MkdirAll (at_path D)) p = (r, p')"
  then obtain w where w: "os_MkdirAll (at_path D) (pr_world p) = (r, w)" "p' = p\<lparr>pr_world := w\<rparr>"
    by (auto simp: in_process_def split: prod.splits)
  have "fs_step {k. prefix k D} (pr_world p) w" using os_MkdirAll_step [OF w(1)] at_path_elems [OF assms(2)] by simp
  with assms(1) w(2) show "unchanged Ls p p'" by (auto simp: fs_step_def unchanged_def same_resources_def)
qed

lemma temp_not_lock: "D @ [temp_name H i] \<noteq> lock_key E b"
proof -
  have "last (temp_name H i) = CHR ''p''" "last (b @ ''.lock'') = CHR ''k''" by (simp_all add: temp_name_def)
  then show ?thesis by (auto simp: lock_key_def)
qed

lemma early_checks [earlies]:
  assumes "\<And>i. plain_elems (R @ [temp_name H i])" and "\<forall>L\<in>Ls. \<not> prefix L R \<and> (\<exists>E b. L = lock_key E b)"
  shows "early Ls (in_startup (RunStartupChecks H (at_path R) remote))"
  unfolding early_def
proof (intro allI impI)
  fix p r p' assume "in_startup (RunStartupChecks H (at_path R) remote) p = (r, p')"
  then obtain w env where w: "RunStartupChecks H (at_path R) remote (pr_world p, pr_env p) = (r, (w, env))"
      "p' = p\<lparr>pr_world := w, pr_env := env\<rparr>"
    by (auto simp: in_startup_def split: prod.splits)
  from startup_checks_tree [OF assms(1) w(1)] assms(2) temp_not_lock
  have "\<forall>L\<in>Ls. tree_get (w_fs w) L = tree_get (w_fs (pr_world p)) L" "w_faults (pr_world p) = [] \<longrightarrow> w_faults w = []"
    by metis+
  with w(2) show "unchanged Ls p p'" by (simp add: unchanged_def same_resources_def)
qed

section \<open>The stages of a start\<close>

text \<open>
  The directories of a start are plain, its locks are not among the parents of the state directory,
  the database or the root, and opening the database and loading a key pair leave the locks alone.
\<close>

definition lock_keys :: "string list \<Rightarrow> string list \<Rightarrow> string \<Rightarrow> string list set" where
  "lock_keys S D b = {service_key S, lock_key D b}"

definition placed :: "boot \<Rightarrow> (string \<Rightarrow> string \<Rightarrow> 'c io) \<Rightarrow> Config \<Rightarrow> string list \<Rightarrow> string list \<Rightarrow> string \<Rightarrow> string list \<Rightarrow> bool" where
  "placed B load cfg S D b R \<longleftrightarrow>
    resolve_stateDir (ho_Getwd (bo_host B)) cfg = at_path S \<and> resolve_dbPath cfg = at_path (D @ [b]) \<and> c_RootDir cfg = at_path R
    \<and> plain_elems S \<and> plain_elems (D @ [b]) \<and> (\<forall>i. plain_elems (R @ [temp_name (bo_host B) i]))
    \<and> (\<forall>L\<in>lock_keys S D b. \<not> prefix L S \<and> \<not> prefix L D \<and> \<not> prefix L R)
    \<and> leaves (lock_keys S D b) (bo_OpenDatabase B (at_path (D @ [b])))
    \<and> leaves (lock_keys S D b) (load (c_TLSCertPath cfg) (c_TLSKeyPath cfg))"

lemma service_path: "plain_elems S \<Longrightarrow> plain_elems (S @ [''service.instance'']) \<and> filepath_Join [at_path S, ''service.instance''] = at_path (S @ [''service.instance''])"
proof -
  assume S: "plain_elems S"
  then have pl: "plain_elems (S @ [''service.instance''])" by (simp add: plain_elem_def)
  with Join_name [OF S] show ?thesis by simp
qed

lemma start_stages:
  assumes pl: "placed B load cfg S D b R" and run: "Start B load cfg p = (r, p')"
  obtains (stopped) e where "r = Inl e" and "unchanged (lock_keys S D b) p p'"
  | (locking) p1 where "unchanged (lock_keys S D b) p p1" and "start_locked B load cfg (at_path (D @ [b])) (at_path S) p1 = (r, p')"
proof -
  let ?Ls = "lock_keys S D b"
  note pl' = pl [unfolded placed_def]
  have keys: "\<forall>L\<in>?Ls. \<not> prefix L S" "\<forall>L\<in>?Ls. \<not> prefix L R \<and> (\<exists>E c. L = lock_key E c)"
    using pl' by (auto simp: lock_keys_def)
  have chk: "early ?Ls (in_startup (RunStartupChecks (bo_host B) (c_RootDir cfg) x))" for x
    using early_checks [OF _ keys(2)] pl' by simp
  have mk: "early ?Ls (on_error (in_process (os_MkdirAll (at_path S))) t (\<lambda>p. p))" for t
    using early_MkdirAll [OF keys(1)] pl' by (intro early_on_error) simp
  note run' = run [unfolded Start_def Let_def]
  have dirs: "resolve_stateDir (ho_Getwd (bo_host B)) cfg = at_path S" "resolve_dbPath cfg = at_path (D @ [b])" using pl' by simp_all
  note step = early_then [where Ls = ?Ls, OF early_if [OF early_simple(2) early_simple(1)]]
  show thesis
  proof (rule step [OF run'], goal_cases)
    case (1 e) then show thesis by (rule stopped)
  next
    case (2 x p1)
    note u1 = 2(2)
    show thesis
    proof (rule step [OF 2(1)], goal_cases)
      case (1 e) then show thesis using stopped unchanged_trans [OF u1] by blast
    next
      case (2 x p2)
      note u2 = unchanged_trans [OF u1 2(2)]
      show thesis
      proof (rule early_then [where Ls = ?Ls, OF early_simple(3) 2(1)], goal_cases)
        case (1 e) then show thesis using stopped unchanged_trans [OF u2] by blast
      next
        case (2 x p3)
        note u3 = unchanged_trans [OF u2 2(2)]
        show thesis
        proof (rule early_then [OF chk 2(1)], goal_cases)
          case (1 e) then show thesis using stopped unchanged_trans [OF u3] by blast
        next
          case (2 x p4)
          note u4 = unchanged_trans [OF u3 2(2)]
          show thesis
          proof (rule early_then [OF mk 2(1) [unfolded dirs]], goal_cases)
            case (1 e) then show thesis using stopped unchanged_trans [OF u4] by blast
          next
            case (2 x p5) then show thesis using locking unchanged_trans [OF u4] by blast
          qed
        qed
      qed
    qed
  qed
qed

text \<open>What a process holds when both locks and the database are its own.\<close>

definition locked_from :: "string list \<Rightarrow> string list \<Rightarrow> process \<Rightarrow> process \<Rightarrow> bool" where
  "locked_from L M p q \<longleftrightarrow> tree_get (w_fs (pr_world p)) L = None \<and> tree_get (w_fs (pr_world p)) M = None \<and> L \<noteq> M
    \<and> held L (pr_world q) \<and> held M (pr_world q) \<and> (w_faults (pr_world p) = [] \<longrightarrow> w_faults (pr_world q) = [])"

definition left_alone :: "string list set \<Rightarrow> world \<Rightarrow> world \<Rightarrow> bool" where
  "left_alone Ls w w' \<longleftrightarrow> (w_faults w = [] \<longrightarrow> w_faults w' = [])
    \<and> (\<forall>L\<in>Ls. \<forall>k. prefix k L \<longrightarrow> tree_get (w_fs w') k = tree_get (w_fs w) k)"

lemma left_alone_held: "left_alone Ls w w' \<Longrightarrow> L \<in> Ls \<Longrightarrow> held L w' = held L w"
  using held_cong [of L w' w] unfolding left_alone_def by blast

lemma left_alone_trans: "left_alone Ls w v \<Longrightarrow> left_alone Ls v w' \<Longrightarrow> left_alone Ls w w'"
  unfolding left_alone_def by simp

lemma leaves_alone: "leaves Ls m \<Longrightarrow> m w = (r, w') \<Longrightarrow> left_alone Ls w w'"
  unfolding leaves_def left_alone_def by blast

lemma mset_closed: "mset (fold remove1 gs xs) = mset xs - mset gs"
  by (induction gs arbitrary: xs) simp_all

lemma io_now_alone: "io_now w = (r, w') \<Longrightarrow> left_alone Ls w w' \<and> (\<exists>t. r = Inr t)"
  by (cases "w_ticks w") (auto simp: io_now_def time_Now_def left_alone_def Let_def split: prod.splits list.splits)

text \<open>The goroutines a configuration runs.\<close>

definition runners :: "boot \<Rightarrow> Config \<Rightarrow> string \<Rightarrow> goroutine list" where
  "runners B cfg dbPath =
    running_janitors (newDatabaseMaintenanceManager (bo_sqlite B dbPath) (maintenance_config (ho_Getwd (bo_host B)) cfg))
      (janitors_of (ho_Getwd (bo_host B)) cfg)"

lemma run_simps:
  "io_then (spawn gs) f p = f () (p\<lparr>pr_goroutines := pr_goroutines p @ gs\<rparr>)"
  "io_then (\<lambda>p. (Inr x, g p)) f p = f x (g p)"
  "io_then (on_error m what undo) h p
    = (case m p of (Inl e, p1) \<Rightarrow> (Inl (Wrapf (what @ '': '') e []), undo p1) | (Inr x, p1) \<Rightarrow> h x p1)"
  "in_process a p = (case a (pr_world p) of (r, w) \<Rightarrow> (r, p\<lparr>pr_world := w\<rparr>))"
  "io_then (in_process a) h p = (case a (pr_world p) of (Inl e, w) \<Rightarrow> (Inl e, p\<lparr>pr_world := w\<rparr>) | (Inr x, w) \<Rightarrow> h x (p\<lparr>pr_world := w\<rparr>))"
  by (auto simp: io_then_def spawn_def on_error_def in_process_def split: prod.splits sum.splits)

lemma services_cases:
  fixes load :: "string \<Rightarrow> string \<Rightarrow> 'c io" and r :: "('a, 'c) started result"
  assumes lv: "leaves Ls (load (c_TLSCertPath cfg) (c_TLSKeyPath cfg))"
    and run: "start_services B load cfg dbPath sl dl p = (r, p')"
  obtains (failed) e q where "r = Inl e" and "p' = instance_Release sl (instance_Release dl q)"
      and "pr_databases q = pr_databases p - 1" and "pr_listeners q = pr_listeners p"
      and "mset (pr_goroutines q) = mset (pr_goroutines p) + {#BuildCleanup#}" and "pr_logTriggers q = pr_logTriggers p"
      and "left_alone Ls (pr_world p) (pr_world q)"
  | (served) s where "r = Inr s" and "left_alone Ls (pr_world p) (pr_world p')"
      and "pr_databases p' = pr_databases p"
      and "mset (pr_goroutines p') = mset (pr_goroutines p) + {#BuildCleanup, Serving#} + mset (runners B cfg dbPath)"
      and "\<exists>a. pr_listeners p' = pr_listeners p @ [a] \<and> cleanup_steps s = [close_listener a, close_goroutines [BuildCleanup],
        restore_log (sd_logTrigger s), close_goroutines (runners B cfg dbPath), instance_Release sl, instance_Release dl, close_database]"
      and "pr_logTriggers p' = pr_logTriggers p + (if sd_logTrigger s then 1 else 0)"
      and "\<not> sd_cleaned s" and "run_running (sd_runtime s)"
proof -
  let ?log = "LogJanitor \<in> set (janitors_of (ho_Getwd (bo_host B)) cfg)"
  let ?gs = "runners B cfg dbPath"
  let ?p = "p\<lparr>pr_goroutines := pr_goroutines p @ BuildCleanup # ?gs, pr_logTriggers := pr_logTriggers p + (if ?log then 1 else 0)\<rparr>"
  let ?sec = "\<lparr>sc_AuthEnabled = c_AuthEnabled cfg, sc_SharedSecret = c_SharedSecret cfg, sc_TLSEnabled = c_TLSEnabled cfg,
          sc_TLSCertPath = c_TLSCertPath cfg, sc_TLSKeyPath = c_TLSKeyPath cfg\<rparr>"
  let ?undo = "\<lambda>p. instance_Release sl (instance_Release dl (close_database (close_goroutines ?gs (restore_log ?log p))))"
  obtain q :: "('a, 'c) server_options result" and w1 where 1: "BuildGRPCServerOptions (bo_format B) load ?sec (pr_world p) = (q, w1)" by force
  have alone: "left_alone Ls (pr_world p) w1" using leaves_alone [OF options_leave 1] lv by simp
  note def = start_services_def Let_def run_simps runners_def [symmetric]
  have undone: "pr_databases (close_database (close_goroutines ?gs (restore_log ?log (?p\<lparr>pr_world := w1\<rparr>)))) = pr_databases p - 1"
    "mset (pr_goroutines (close_database (close_goroutines ?gs (restore_log ?log (?p\<lparr>pr_world := w1\<rparr>))))) = mset (pr_goroutines p) + {#BuildCleanup#}"
    "pr_logTriggers (close_database (close_goroutines ?gs (restore_log ?log (?p\<lparr>pr_world := w1\<rparr>)))) = pr_logTriggers p"
    "pr_listeners (close_database (close_goroutines ?gs (restore_log ?log (?p\<lparr>pr_world := w1\<rparr>)))) = pr_listeners p"
    "pr_world (close_database (close_goroutines ?gs (restore_log ?log (?p\<lparr>pr_world := w1\<rparr>)))) = w1"
    by (simp_all add: close_database_def close_goroutines_def restore_log_def mset_closed)
  show thesis
  proof (cases "\<exists>u addr. q = Inr u \<and> bo_Listen B (c_Addr cfg) = Inr addr")
    case False
    then have "(\<exists>e. r = Inl e) \<and> p' = ?undo (?p\<lparr>pr_world := w1\<rparr>)"
      using run 1 by (cases ?log; cases q; cases "bo_Listen B (c_Addr cfg)") (auto simp: def)
    then obtain e where e: "r = Inl e" "p' = ?undo (?p\<lparr>pr_world := w1\<rparr>)" by blast
    show thesis by (rule failed [OF e undone(1,4,2,3)]) (simp only: undone(5) alone)
  next
    case True
    then obtain u addr where ok: "q = Inr u" "bo_Listen B (c_Addr cfg) = Inr addr" by blast
    obtain z w2 where 2: "io_now w1 = (z, w2)" by force
    with io_now_alone [OF 2] obtain t where t: "z = Inr t" "left_alone Ls w1 w2" by blast
    have p': "p' = ?p\<lparr>pr_world := w2, pr_listeners := pr_listeners p @ [addr], pr_goroutines := pr_goroutines ?p @ [Serving]\<rparr>"
      using run 1 2 ok t by (cases ?log) (auto simp: def io_return_def)
    let ?getwd = "ho_Getwd (bo_host B)"
    let ?s = "\<lparr>sd_runtime = \<lparr>run_lis = Some addr, run_database = bo_sqlite B dbPath, run_metrics = Some (NewRecorder DefaultConfig),
           run_dbMaint = Some (newDatabaseMaintenanceManager (bo_sqlite B dbPath) (maintenance_config ?getwd cfg)),
           run_running = True, run_lastErr = [], run_cfg = cfg, run_startedAt = t,
           run_shutdownAt = None, run_shutdownMsg = [], run_pendingStops = []\<rparr>,
         sd_serviceLock = sl, sd_dbLock = dl,
         sd_buildSvc = NewBuildService (bo_numCPU B) (bo_tempDir B) (build_config cfg),
         sd_conflictPolicy = conflict_policy cfg, sd_janitors = janitors_of ?getwd cfg, sd_hooks = cleanup_hooks (janitors_of ?getwd cfg),
         sd_logTrigger = ?log, sd_cleaned = False, sd_options = u\<rparr>"
    have s: "r = Inr ?s" using run 1 2 ok t by (cases ?log) (simp_all add: def io_return_def)
    show thesis
      by (rule served [OF s]) (use p' left_alone_trans [OF alone t(2)] in \<open>simp_all add: cleanup_steps_def runners_def Let_def\<close>)
  qed
qed

lemma record_order: "p\<lparr>pr_world := w, pr_databases := n\<rparr> = p\<lparr>pr_databases := n, pr_world := w\<rparr>"
  by simp

lemma locked_cases:
  fixes load :: "string \<Rightarrow> string \<Rightarrow> 'c io" and r :: "('a, 'c) started result" and S D :: "string list" and b :: string
  defines "L \<equiv> service_key S" and "M \<equiv> lock_key D b"
  assumes pl: "placed B load cfg S D b R" and run: "start_locked B load cfg (at_path (D @ [b])) (at_path S) p = (r, p')"
  obtains (refused) e where "r = Inl e" and "same_resources p p'" and "w_fs (pr_world p') = w_fs (pr_world p)"
  | (db_refused) e q m where "r = Inl e" and "p' = instance_Release (at_path L) q" and "same_resources p q"
      and "tree_get (w_fs (pr_world p)) L = None" and "w_fs (pr_world q) = tree_put L (File [] m) (w_fs (pr_world p))"
      and "held L (pr_world q)" and "w_faults (pr_world p) = [] \<longrightarrow> w_faults (pr_world q) = []"
  | (unopened) e q where "r = Inl e" and "p' = instance_Release (at_path L) (instance_Release (at_path M) q)"
      and "same_resources p q" and "locked_from L M p q"
  | (services) q where "start_services B load cfg (at_path (D @ [b])) (at_path L) (at_path M) q = (r, p')"
      and "same_resources (p\<lparr>pr_databases := pr_databases p + 1\<rparr>) q" and "locked_from L M p q"
proof -
  let ?getwd = "ho_Getwd (bo_host B)"
  have S: "plain_elems S" and D: "plain_elems (D @ [b])" and opens: "leaves {L, M} (bo_OpenDatabase B (at_path (D @ [b])))"
    and below: "\<not> prefix M S" "\<not> prefix L D"
    using pl by (simp_all add: placed_def lock_keys_def L_def M_def)
  note path = service_path [OF S]
  note def = start_locked_def Let_def run_simps
  obtain q1 w1 where 1: "acquireInstanceLock ?getwd (at_path (S @ [''service.instance''])) (pr_world p) = (q1, w1)" by force
  have calm1: "w_faults (pr_world p) = [] \<longrightarrow> w_faults w1 = []" using acquire_quiet [OF 1] by blast
  show thesis
  proof (rule acquire_cases [OF conjunct1 [OF path] 1], goal_cases)
    case (1 e)
    have "\<exists>e. r = Inl e \<and> p' = p\<lparr>pr_world := w1\<rparr>" using run \<open>acquireInstanceLock _ _ _ = _\<close> path 1(1) by (auto simp: def)
    then obtain e' where "r = Inl e'" "p' = p\<lparr>pr_world := w1\<rparr>" by blast
    with refused 1(2) show thesis by (simp add: same_resources_def)
  next
    case (2 m1)
    note L = 2 [folded L_def]
    obtain q2 w2 where 3: "acquireInstanceLock ?getwd (at_path (D @ [b])) w1 = (q2, w2)" by force
    have calm2: "w_faults (pr_world p) = [] \<longrightarrow> w_faults w2 = []" using acquire_quiet [OF 3] calm1 by blast
    show thesis
    proof (rule acquire_cases [OF D 3], goal_cases)
      case (1 e)
      have "\<exists>e. r = Inl e \<and> p' = instance_Release (at_path L) (p\<lparr>pr_world := w2\<rparr>)"
        using run \<open>acquireInstanceLock _ _ (pr_world p) = _\<close> 3 path 1(1) L(1) by (auto simp: def)
      then obtain e' where e': "r = Inl e'" "p' = instance_Release (at_path L) (p\<lparr>pr_world := w2\<rparr>)" by blast
      have "held L w2" using L(4) held_cong [of L w2 w1] 1(2) by simp
      with 1(2) L(2,3) calm2 show thesis by (intro db_refused [OF e']) (simp_all add: same_resources_def)
    next
      case (2 m2)
      note M = 2 [folded M_def]
      have ne: "L \<noteq> M" using M(2) L(3) by (auto simp: tree_get_put L_def lock_key_def)
      have apart: "\<not> prefix M L" using ne below(1) by (auto simp: L_def M_def lock_key_def prefix_snoc)
      have get: "tree_get (w_fs w2) k = tree_get (w_fs w1) k" if "prefix k L" for k
        using M(3) apart that by (auto simp: tree_get_put)
      have heldL: "held L w2" using L(4) held_cong [of L w2 w1] get by blast
      have none: "tree_get (w_fs (pr_world p)) L = None" "tree_get (w_fs (pr_world p)) M = None"
        using L(2) M(2) L(3) ne by (auto simp: tree_get_put split: if_splits)
      obtain q3 w3 where 4: "bo_OpenDatabase B (at_path (D @ [b])) w2 = (q3, w3)" by force
      have locked: "locked_from L M p (x\<lparr>pr_world := w3\<rparr>)" for x
        using none ne leaves_held [OF opens 4] heldL M(4) calm2 leaves_quiet [OF opens 4] by (auto simp: locked_from_def)
      show thesis
      proof (cases q3)
        case (Inl e)
        have "\<exists>e. r = Inl e \<and> p' = instance_Release (at_path L) (instance_Release (at_path M) (p\<lparr>pr_world := w3\<rparr>))"
          using run \<open>acquireInstanceLock _ _ (pr_world p) = _\<close> 3 4 path M(1) L(1) Inl by (auto simp: def)
        then obtain e' where e': "r = Inl e'" "p' = instance_Release (at_path L) (instance_Release (at_path M) (p\<lparr>pr_world := w3\<rparr>))" by blast
        show thesis by (rule unopened [OF e' _ locked]) (simp add: same_resources_def)
      next
        case (Inr u)
        have "start_services B load cfg (at_path (D @ [b])) (at_path L) (at_path M) (p\<lparr>pr_databases := pr_databases p + 1, pr_world := w3\<rparr>) = (r, p')"
          using run \<open>acquireInstanceLock _ _ (pr_world p) = _\<close> 3 4 path M(1) L(1) Inr by (simp add: def record_order)
        from services [OF this _ locked] show thesis by (simp add: same_resources_def)
      qed
    qed
  qed
qed

section \<open>The properties\<close>

text \<open>What a start takes, it gives back.\<close>

lemma left_alone_locked:
  "locked_from L M p q \<Longrightarrow> left_alone {L, M} (pr_world q) (pr_world q') \<Longrightarrow> locked_from L M p q'"
  using left_alone_held [of "{L, M}" "pr_world q" "pr_world q'"] by (auto simp: locked_from_def left_alone_def)

lemma release_locked:
  assumes "locked_from L M p q" and "w_faults (pr_world p) = []" and "plain_elems L" and "plain_elems M"
    and "\<not> prefix M L" and "L \<noteq> []"
  shows "\<exists>t. instance_Release (at_path L) (instance_Release (at_path M) q) = q\<lparr>pr_world := (pr_world q)\<lparr>w_fs := t\<rparr>\<rparr>
    \<and> (\<forall>K\<in>{L, M}. tree_get t K = tree_get (w_fs (pr_world p)) K)"
  using release_both [of q L M] assms by (auto simp: locked_from_def)


lemma started:
  fixes load :: "string \<Rightarrow> string \<Rightarrow> 'c io" and s :: "('a, 'c) started"
  assumes pl: "placed B load cfg S D b R" and run: "Start B load cfg p = (Inr s, p')"
  shows "locked_from (service_key S) (lock_key D b) p p' \<and> pr_databases p' = pr_databases p + 1
    \<and> mset (pr_goroutines p') = mset (pr_goroutines p) + {#BuildCleanup, Serving#} + mset (runners B cfg (at_path (D @ [b])))
    \<and> (\<exists>a. pr_listeners p' = pr_listeners p @ [a] \<and> cleanup_steps s = [close_listener a, close_goroutines [BuildCleanup],
        restore_log (sd_logTrigger s), close_goroutines (runners B cfg (at_path (D @ [b]))),
        instance_Release (at_path (service_key S)), instance_Release (at_path (lock_key D b)), close_database])
    \<and> pr_logTriggers p' = pr_logTriggers p + (if sd_logTrigger s then 1 else 0) \<and> \<not> sd_cleaned s \<and> run_running (sd_runtime s)"
  using pl run
proof (cases rule: start_stages)
  case (locking p1)
  let ?L = "service_key S" and ?M = "lock_key D b"
  show ?thesis using pl locking(2)
  proof (cases rule: locked_cases)
    case (services q)
    have lv: "leaves {?L, ?M} (load (c_TLSCertPath cfg) (c_TLSKeyPath cfg))" using pl by (simp add: placed_def lock_keys_def)
    show ?thesis
    proof (rule services_cases [OF lv services(1)], goal_cases)
      case (2 s')
      have "locked_from ?L ?M p1 p'" by (rule left_alone_locked [OF services(3) 2(2)])
      with locking(1) have "locked_from ?L ?M p p'" by (simp add: locked_from_def unchanged_def lock_keys_def)
      with locking(1) services(2) 2 show ?thesis by (auto simp: same_resources_def unchanged_def)
    qed simp
  qed simp_all
qed simp

text \<open>
  Claim C30. One server to a database. While a started server's lock file is in place, another start on
  the same database fails, whatever its other settings; it takes nothing and leaves the lock file
  where it is. A restore of that database fails too, and changes no file.
\<close>

theorem one_server_per_database:
  assumes first: "placed B load cfg S D b R" "Start B load cfg p = (Inr s, p1)"
    and there: "tree_get (w_fs (pr_world p2)) (lock_key D b) = tree_get (w_fs (pr_world p1)) (lock_key D b)"
    and second: "placed B' load' cfg' S' D b R'" "Start B' load' cfg' p2 = (r, p3)"
    and restore: "strings_TrimSpace (at_path (D @ [b])) = at_path (D @ [b])"
      "RestoreFromBackup E getwd (at_path (D @ [b])) backup safety (pr_world p2) = (q, w)"
  shows "((\<exists>e. r = Inl e) \<and> same_resources p2 p3
      \<and> tree_get (w_fs (pr_world p3)) (lock_key D b) = tree_get (w_fs (pr_world p2)) (lock_key D b))
    \<and> (\<exists>e. q = Inl e) \<and> w_fs w = w_fs (pr_world p2)"
proof
  let ?L = "service_key S'" and ?M = "lock_key D b"
  have "held ?M (pr_world p1)" using started [OF first] by (simp add: locked_from_def)
  with there obtain m where M: "tree_get (w_fs (pr_world p2)) ?M = Some (File [] m)" using held_get by auto
  show "(\<exists>e. r = Inl e) \<and> same_resources p2 p3 \<and> tree_get (w_fs (pr_world p3)) ?M = tree_get (w_fs (pr_world p2)) ?M"
    using second
  proof (cases rule: start_stages)
    case (stopped e)
    then show ?thesis by (simp add: unchanged_def lock_keys_def)
  next
    case (locking p4)
    then have M4: "tree_get (w_fs (pr_world p4)) ?M = tree_get (w_fs (pr_world p2)) ?M" and same: "same_resources p2 p4"
      by (simp_all add: unchanged_def lock_keys_def)
    show ?thesis using second(1) locking(2)
    proof (cases rule: locked_cases)
      case (refused e)
      with M4 same show ?thesis by (simp add: same_resources_def)
    next
      case (db_refused e p5 n)
      then have ne: "?M \<noteq> ?L" using M M4 by auto
      have "plain_elems ?L" using second(1) lock_key_plain [of S' "''service.instance''"] service_path [of S'] by (simp add: placed_def)
      from release_keeps [OF this ne, of p5] db_refused(2,3,5) ne M4 same db_refused(1) show ?thesis
        by (auto simp: same_resources_def tree_get_put)
    qed (use M M4 in \<open>auto simp: locked_from_def\<close>)
  qed
  have D: "plain_elems (D @ [b])" using second(1) by (simp add: placed_def)
  have abs: "filepath_Abs getwd (at_path (D @ [b])) = Inr (at_path (D @ [b]))" by (rule filepath_Abs_path [OF D])
  have name: "at_path (D @ [b]) @ ''.lock'' = at_path ?M" by (simp add: at_path_append lock_key_def)
  obtain z w1 where 1: "os_OpenExcl (at_path ?M) (pr_world p2) = (z, w1)" by force
  have z: "(\<exists>e. z = Inl e) \<and> w_fs w1 = w_fs (pr_world p2)"
    using os_OpenExcl_new [OF 1] M at_path_elems [OF lock_key_plain [OF D]] by (cases z) auto
  then have "acquireResourceLock getwd (at_path (D @ [b])) (pr_world p2) = (Inl x, v) \<Longrightarrow> v = w1" for x v
    using abs name 1 by (auto simp: acquireResourceLock_def Let_def)
  moreover obtain x where "acquireResourceLock getwd (at_path (D @ [b])) (pr_world p2) = (Inl x, w1)"
    using z abs name 1 by (auto simp: acquireResourceLock_def Let_def)
  ultimately have "(\<exists>e. q = Inl e) \<and> (w = pr_world p2 \<or> w = w1)"
    using restore abs by (auto simp: RestoreFromBackup_def io_then_def io_lift_def io_fail_def split: sum.splits if_splits)
  with z show "(\<exists>e. q = Inl e) \<and> w_fs w = w_fs (pr_world p2)" by auto
qed

text \<open>
  Claim C32. What a started server took it gives back when serving ends, whatever the reason: its lock
  files, its database, its listener, its log writer and every goroutine. It is no longer running, the
  error of \<open>Serve\<close> is passed on exactly when it is not the mark of a stop, and cleaning up again does
  nothing.
\<close>

theorem served_then_released:
  assumes start: "placed B load cfg S D b R" "w_faults (pr_world p) = []" "Start B load cfg p = (Inr s, p1)"
    and served: "left_alone (lock_keys S D b) (pr_world p1) w" "serving_ended err s (p1\<lparr>pr_world := w\<rparr>) = (s', p2, out)"
  shows "(\<forall>L\<in>lock_keys S D b. tree_get (w_fs (pr_world p2)) L = None \<and> tree_get (w_fs (pr_world p)) L = None)
    \<and> pr_databases p2 = pr_databases p \<and> mset (pr_listeners p2) = mset (pr_listeners p)
    \<and> pr_logTriggers p2 = pr_logTriggers p \<and> mset (pr_goroutines p2) = mset (pr_goroutines p)
    \<and> \<not> run_running (sd_runtime s') \<and> out = (if isExpectedServerStop err then None else err) \<and> cleanup s' p2 = (s', p2)"
proof -
  let ?L = "service_key S" and ?M = "lock_key D b" and ?gs = "runners B cfg (at_path (D @ [b]))"
  have pl: "plain_elems ?L" "plain_elems ?M" "?L \<noteq> []" "\<not> prefix ?M S" "?M \<noteq> []" "\<not> prefix ?L D"
    using start(1) lock_key_plain [of S "''service.instance''"] lock_key_plain [of D b] service_path [of S]
    by (auto simp: placed_def lock_keys_def lock_key_def)
  obtain a where st: "locked_from ?L ?M p p1" "pr_databases p1 = pr_databases p + 1"
    "mset (pr_goroutines p1) = mset (pr_goroutines p) + {#BuildCleanup, Serving#} + mset ?gs"
    "pr_listeners p1 = pr_listeners p @ [a]"
    "cleanup_steps s = [close_listener a, close_goroutines [BuildCleanup], restore_log (sd_logTrigger s), close_goroutines ?gs,
        instance_Release (at_path ?L), instance_Release (at_path ?M), close_database]"
    "pr_logTriggers p1 = pr_logTriggers p + (if sd_logTrigger s then 1 else 0)" "\<not> sd_cleaned s"
    using started [OF start(1,3)] by blast
  let ?p = "p1\<lparr>pr_world := w\<rparr>"
  let ?q = "close_goroutines ?gs (restore_log (sd_logTrigger s) (close_goroutines [BuildCleanup] (close_listener a ?p)))"
  have qw: "pr_world ?q = w" by (simp add: close_goroutines_def restore_log_def close_listener_def)
  have q: "pr_databases ?q = pr_databases p + 1" "mset (pr_listeners ?q) = mset (pr_listeners p)" "pr_logTriggers ?q = pr_logTriggers p"
      "mset (pr_goroutines ?q) = mset (pr_goroutines p) + {#Serving#}"
    using st by (simp_all add: close_goroutines_def restore_log_def close_listener_def mset_closed)
  have locked: "locked_from ?L ?M p ?q" using left_alone_locked [OF st(1), of ?q] served(1) qw by (simp add: lock_keys_def)
  then have ne: "?L \<noteq> ?M" by (simp add: locked_from_def)
  with pl have apart: "\<not> prefix ?L ?M" by (auto simp: lock_key_def prefix_snoc)
  have none: "tree_get (w_fs (pr_world p)) ?L = None" "tree_get (w_fs (pr_world p)) ?M = None" using locked by (simp_all add: locked_from_def)
  have "locked_from ?M ?L p ?q" using locked by (auto simp: locked_from_def)
  from release_locked [OF this start(2) pl(2,1) apart pl(5)] none
  obtain t where t: "instance_Release (at_path ?M) (instance_Release (at_path ?L) ?q) = ?q\<lparr>pr_world := (pr_world ?q)\<lparr>w_fs := t\<rparr>\<rparr>"
      "tree_get t ?L = None" "tree_get t ?M = None" by auto
  have clean: "cleanup s ?p = (s\<lparr>sd_cleaned := True, sd_runtime := (sd_runtime s)\<lparr>run_running := False\<rparr>\<rparr>,
      close_database (?q\<lparr>pr_world := (pr_world ?q)\<lparr>w_fs := t\<rparr>\<rparr>))"
    using st(5,7) t(1) by (simp add: cleanup_def)
  have p2: "p2 = close_goroutines [Serving] (close_database (?q\<lparr>pr_world := (pr_world ?q)\<lparr>w_fs := t\<rparr>\<rparr>))"
    using served(2) clean by (auto simp: serving_ended_def Let_def split: option.splits if_splits)
  have s': "sd_cleaned s'" "\<not> run_running (sd_runtime s')" "out = (if isExpectedServerStop err then None else err)"
    using served(2) clean by (auto simp: serving_ended_def Let_def split: option.splits if_splits)
  have "mset (pr_goroutines p2) = mset (pr_goroutines p)" unfolding p2 using q(4) by (simp add: close_goroutines_def close_database_def)
  moreover have "pr_databases p2 = pr_databases p" "mset (pr_listeners p2) = mset (pr_listeners p)" "pr_logTriggers p2 = pr_logTriggers p"
      "w_fs (pr_world p2) = t"
    unfolding p2 using q by (simp_all add: close_goroutines_def close_database_def)
  ultimately show ?thesis using s' t none by (simp add: cleanup_def lock_keys_def)
qed

section \<open>Witnesses\<close>

definition sample_boot :: "string result \<Rightarrow> boot" where
  "sample_boot listen = \<lparr>bo_host = sample_host, bo_hostname = Inr ''h'', bo_OpenDatabase = (\<lambda>p. io_return ()),
     bo_sqlite = (\<lambda>p. \<lparr>sq_path = p, sq_wal_checkpoint = (\<lambda>m. io_return (0, 0, 0)), sq_vacuum_into = (\<lambda>d. io_return ()),
       sq_stamp = (\<lambda>t. ''2024''), sq_stamp_nano = (\<lambda>t. ''2024'')\<rparr>),
     bo_Listen = (\<lambda>a. listen), bo_IsLoopbackIP = (\<lambda>h. h = ''127.0.0.1''), bo_numCPU = 4, bo_tempDir = ''/tmp'',
     bo_format = (\<lambda>t. ''2024'')\<rparr>"

definition sample_load :: "string \<Rightarrow> string \<Rightarrow> unit io" where
  "sample_load cert key = io_return ()"

definition boot_config :: Config where
  "boot_config = Default\<lparr>c_RootDir := ''/s'', c_DBPath := ''/r.db'', c_RemoteBuildEnabled := False, c_AuthEnabled := False,
     c_TLSEnabled := False, c_Runtime := (c_Runtime Default)\<lparr>rt_StateDir := ''/run''\<rparr>\<rparr>"

definition sample_process :: process where
  "sample_process = \<lparr>pr_world = host_world, pr_env = host_env, pr_databases = 0, pr_listeners = [], pr_goroutines = [], pr_logTriggers = 0\<rparr>"

lemma sample_placed: "placed (sample_boot z) sample_load boot_config [''run''] [] ''r.db'' [''s'']"
proof -
  have names: "plain_elems ([''s''] @ [temp_name (bo_host (sample_boot z)) i])" for i using sample_temp by (simp add: sample_boot_def)
  have dirs: "resolve_stateDir (ho_Getwd (bo_host (sample_boot z))) boot_config = ''/run''" "resolve_dbPath boot_config = ''/r.db''"
      "c_RootDir boot_config = ''/s''"
    by (simp_all add: sample_boot_def boot_config_def resolve_stateDir_def resolve_dbPath_def Let_def filepath_IsAbs_def
        strings_TrimSpace_def trim_right_def trim_left_def) code_simp+
  have "leaves Ls (io_return ())" for Ls by (auto simp: leaves_def io_return_def)
  with names dirs show ?thesis
    by (auto simp: placed_def sample_boot_def sample_load_def lock_keys_def lock_key_def render_path_def plain_elem_def)
qed

abbreviation sample_start :: "string result \<Rightarrow> process \<Rightarrow> (unit, unit) started result \<times> process" where
  "sample_start listen \<equiv> Start (sample_boot listen) sample_load boot_config"

lemma sample_calm: "w_faults (pr_world sample_process) = []"
  by (simp add: sample_process_def host_world_def)

lemma sample_started:
  obtains s p1 where "sample_start (Inr ''a'') sample_process = (Inr s, p1)"
proof -
  have "case sample_start (Inr ''a'') sample_process of (Inl e, p1) \<Rightarrow> False | (Inr s, p1) \<Rightarrow> True" by code_simp
  with that show thesis by (auto split: prod.splits sum.splits)
qed


theorem one_server_per_database_witness:
  "\<exists>s p1 e p3 x w. sample_start (Inr ''a'') sample_process = (Inr s, p1) \<and> sample_start (Inr ''b'') p1 = (Inl e, p3)
    \<and> RestoreFromBackup (sample_engine None) (Inr ''/w'') ''/r.db'' ''/old.db'' True (pr_world p1) = (Inl x, w)"
proof -
  obtain s p1 where run: "sample_start (Inr ''a'') sample_process = (Inr s, p1)" by (rule sample_started)
  obtain r p3 where run2: "sample_start (Inr ''b'') p1 = (r, p3)" by force
  have path: "at_path ([] @ [''r.db'']) = ''/r.db''" by (simp add: render_path_def)
  obtain q w where restore: "RestoreFromBackup (sample_engine None) (Inr ''/w'') (at_path ([] @ [''r.db''])) ''/old.db'' True (pr_world p1) = (q, w)"
    by force
  have trim: "strings_TrimSpace (at_path ([] @ [''r.db''])) = at_path ([] @ [''r.db''])" unfolding path by code_simp
  from one_server_per_database [OF sample_placed run refl sample_placed run2 trim restore] obtain e x where "r = Inl e" "q = Inl x" by blast
  with run run2 restore path show ?thesis by auto
qed

theorem served_then_released_witness:
  "\<exists>s p1 s' p2 out. sample_start (Inr ''a'') sample_process = (Inr s, p1)
    \<and> serving_ended (Some (ErrorText ''accept failed'')) s p1 = (s', p2, out)
    \<and> out = Some (ErrorText ''accept failed'') \<and> pr_databases p2 = 0 \<and> \<not> run_running (sd_runtime s')"
proof -
  obtain s p1 where run: "sample_start (Inr ''a'') sample_process = (Inr s, p1)" by (rule sample_started)
  obtain s' p2 out where ended: "serving_ended (Some (ErrorText ''accept failed'')) s (p1\<lparr>pr_world := pr_world p1\<rparr>) = (s', p2, out)"
    by (metis prod.exhaust)
  have alone: "left_alone Ls (pr_world p1) (pr_world p1)" for Ls by (simp add: left_alone_def)
  have "\<not> isExpectedServerStop (Some (ErrorText ''accept failed''))" by code_simp
  with served_then_released [OF sample_placed sample_calm run alone ended] run ended show ?thesis
    by (intro exI [of _ s] exI [of _ p1] exI [of _ s'] exI [of _ p2] exI [of _ out]) (simp add: sample_process_def)
qed

end
