(* ===== verification/Spec2Isabelle.thy ===== *)
theory Spec2Isabelle
  imports ServiceProps LockManager PathLocker ControlProps BuildWorkers ServerConfig Observability JanitorLaws DbMaintenance TlsLaws BuildCopy MigrationLaws RestoreExact AccessLaws AdminRuntimeLaws LifecycleLaws
begin

text \<open>
  \<^bold>\<open>The Roodox server.\<close> A server shares one directory tree with its clients over gRPC. It keeps
  the history and the content of every file in an SQLite database, refuses stale writes and keeps
  them as conflict copies, builds projects of the tree on request, and tells its devices how to
  behave. This development models the Go code under \<open>src/internal\<close> and \<open>src/cmd\<close> and proves what makes it
  correct. Definitions keep the names of the functions they translate; a method \<open>(s *T) F\<close> is
  called \<open>T_F\<close>, or \<open>F\<close> where that is not ambiguous.

  \<^bold>\<open>Foundations.\<close> \<open>Prelude\<close> holds shared types (bytes, times and durations in nanoseconds), the
  collections of simplification rules and generic lemmas; \<open>GoStrings\<close> the functions of package
  \<open>strings\<close>, on ASCII characters; \<open>GoErrors\<close> errors as values, \<open>errors.Is\<close> over a chain of wraps
  and \<open>toGrpcError\<close> of \<open>server/error.go\<close>; \<open>GoPath\<close> the functions of \<open>path/filepath\<close> with their
  Unix semantics and, over them, \<open>fs/path.go\<close> and \<open>fs/ignore.go\<close>. \<open>World\<close> is the state shared by
  the file services: the tree, the tables, clock, randomness, counters and a script of I/O faults
  from which every system call and SQL statement takes its next entry. A property of every world
  is therefore a property under every pattern of I/O failures.

  \<^bold>\<open>Files and versions.\<close> \<open>FileSys\<close> is \<open>fs/filesystem.go\<close> over the system calls; \<open>Sql\<close> statements on
  lists of rows and \<open>withWriteTx\<close> with its rollback and retries; \<open>VersionDb\<close> is \<open>db/version.go\<close> and
  \<open>db/meta.go\<close>. \<open>VersionLaws\<close> and \<open>VersionRename\<close> prove that each operation is atomic and refines
  an operation on whole tables, \<open>VersionProps\<close> draws the properties from them: immutable
  history, increasing versions, what is saved is read back, a rename moves whole histories.
  \<open>Mutations\<close> is \<open>server/file_mutation_support.go\<close> with \<open>conflict/conflict.go\<close>; \<open>CoreService\<close> and
  \<open>SyncService\<close> are the handlers of \<open>server/core_service.go\<close>, \<open>server/sync_service.go\<close> and
  \<open>server/version_service.go\<close>, each one step under its path lock. \<open>FileLaws\<close> and \<open>ServiceLaws\<close>
  say what a step can touch, \<open>ServiceProps\<close> that a stale write harms no live file, what every
  other write does, and that a delete is remembered.

  \<^bold>\<open>The database file.\<close> \<open>Migrations\<close> is \<open>db/migrations.go\<close> with \<open>ensureTableColumns\<close> over a schema of
  tables, columns and indexes; \<open>MigrationLaws\<close> proves that version and schema go together under
  every failure and that every database that can be migrated is. \<open>Restore\<close> is \<open>db/restore.go\<close> with
  its lock file; \<open>RestoreLaws\<close> proves that the old database survives every failure, \<open>RestoreExact\<close>
  what a restore without failures leaves, by triples over the calls it makes.

  \<^bold>\<open>Locks.\<close> \<open>LockManager\<close> is \<open>lock/manager.go\<close> with \<open>server/lock_service.go\<close>: a lease excludes every
  other client until it ends. \<open>PathLocker\<close> is \<open>server/path_locker.go\<close> with any number of threads as
  a step relation: they exclude each other and never deadlock, because paths are taken in order.

  \<^bold>\<open>Devices.\<close> \<open>DeviceRegistry\<close> is \<open>db/device_registry.go\<close> and \<open>db/device_registry_admin.go\<close>,
  \<open>ControlPlane\<close> is \<open>server/control_plane_service.go\<close> with its support file, \<open>AdminConsole\<close> is
  the part of \<open>server/admin_console_service.go\<close> over the registry. \<open>RegistryLaws\<close> and \<open>ControlLaws\<close> hold the laws of the
  transactions, \<open>ControlProps\<close> the reachable states: ids are unique, a policy carries the
  revision of its device, an action is delivered once, an updated policy reaches its device.

  \<^bold>\<open>Builds.\<close> \<open>BuildService\<close> is \<open>server/build_service.go\<close>: jobs, logs, requests, cleanup and the choice
  of a CMake target; \<open>BuildRun\<close> proves the log and the cleanup exact; \<open>BuildWorkers\<close> is the goroutine
  of \<open>runBuild\<close> as a step relation over any number of jobs, which take the lock of their unit and a
  slot: bounded, exclusive, never stuck, and with results that stay. \<open>BuildCommands\<close> is the build
  itself over the tree: the kind of a unit, the isolated workspace, the runs of the tools, the CMake
  file API and the product. \<open>BuildLaws\<close> proves, call by call, which paths a build can write,
  \<open>BuildCopy\<close> that the workspace is an exact copy.

  \<^bold>\<open>The process.\<close> \<open>AppConfig\<close> is \<open>appconfig/config.go\<close>, \<open>AppConfigLaws\<close> proves that every loaded
  configuration is well formed and survives saving; \<open>ServerConfig\<close> is
  \<open>serverapp/control_plane_config.go\<close>. \<open>Observability\<close> is \<open>observability/recorder.go\<close> against
  reference definitions of its counters and percentiles. \<open>Runner\<close> is the loop of
  \<open>cleanup/runner.go\<close>, \<open>Janitors\<close> the three janitors of \<open>serverapp\<close> over it, \<open>JanitorLaws\<close> the
  files they can touch, \<open>DbMaintenance\<close> \<open>serverapp/database_maintenance.go\<close> with the two calls of
  \<open>db/db.go\<close> it needs. \<open>GoIO\<close> sequences fallible calls, \<open>GoGlob\<close> is \<open>filepath.Match\<close>.

  \<^bold>\<open>Start and end.\<close> \<open>Preflight\<close> is \<open>server/preflight.go\<close>, \<open>PreflightLaws\<close> what a passed check means.
  \<open>Lifecycle\<close> is \<open>Start\<close> of \<open>serverapp/runtime.go\<close> with the lock files of
  \<open>serverapp/instance_lock_other.go\<close>, its clean-up and \<open>serverapp/observability_reporter.go\<close>: a process
  is its world, environment, open handles, listeners and goroutines, and a step of the start is an
  action on it. \<open>LifecycleLaws\<close> follows a start stage by stage: what a failed start leaves, that one
  server runs on a database, that the end gives back what the start took. \<open>AdminRuntime\<close> is
  \<open>serverapp/runtime_admin.go\<close>, the file sizes of \<open>db/db.go\<close> and the handlers of
  \<open>server/admin_console_service.go\<close> over the running process; in \<open>AdminRuntimeLaws\<close> the process
  interprets the interface of a provider that shuts down once.

  \<^bold>\<open>Access bundles.\<close> \<open>AccessBundle\<close> is \<open>accessbundle/bundle.go\<close>, the handler that issues a bundle, and
  the program \<open>cmd/roodox_client_import\<close> that takes a connection code apart and writes the files of a
  client; \<open>AccessLaws\<close> proves that an issued bundle is imported as it was issued, and what an import
  can touch.

  \<^bold>\<open>Security.\<close> \<open>Interceptors\<close> is \<open>server/logging.go\<close> with the authentication of
  \<open>server/security.go\<close>: with a shared secret set, only calls that show it run. \<open>TlsArtifacts\<close> is the
  rest of \<open>server/security.go\<close>, the certificates on disk, over cryptography with stated laws;
  \<open>TlsLaws\<close> proves that a start installs certificates that pass the check, that inspection and
  check agree, and what a foreign authority key does.

  \<^bold>\<open>Interfaces.\<close> Where a component relies on laws of another, the laws are a locale and the model
  of the provider interprets it; the properties use the facts of the interpretation.

  \<^bold>\<open>Bounds.\<close> Go integers are \<open>int\<close> where the code only adds and compares within bounds that are
  proved or stated; \<open>int64\<close> overflow is written out where the code tests for it, and words are
  used for ports and versions that wrap. A walk of the tree has the depth of the tree plus one as
  fuel, and it descends one level per step, so the fuel never ends a walk. \<open>withWriteTx\<close> makes at
  most five attempts, the search for the name of a conflict copy at most 32, as the code does.

  \<^bold>\<open>Parameters.\<close> The working directory, the environment, the host name, JSON, the printing of times
  and durations, the answers of the SQLite pragma and of \<open>VACUUM INTO\<close>, the tools a build runs,
  X.509, base64 and URL escapes, what opening a database file does, \<open>net.Listen\<close>, the lookup and the
  running of commands, and the random part of temporary names are arguments of the definitions that use them.

  \<^bold>\<open>Not modelled.\<close> The command line of the server and the Windows service manager, which only
  connect the modelled parts to the operating system; the scan of \<open>analyze/analyzer.go\<close>; the locks of
  Windows builds; log lines and their writer; waiting for gRPC in \<open>Stop\<close>; the in-memory stores, the
  client library, the test suites and generated code. Symbolic links are left out: the tree has
  files and directories.
\<close>

end
